(* ===== verification/Sediment_Prelude.thy ===== *)
theory Sediment_Prelude
  imports Complex_Main "HOL-Library.Multiset" "HOL-Library.AList" "HOL-Library.Char_ord"
    "HOL-Library.List_Lexorder" "HOL-Library.Product_Lexorder"
begin

text \<open>
  The vocabulary every component theory shares.

  \<^item> Python exceptions as values: \<open>py_error\<close> and the result type \<open>'a result\<close>.
  \<^item> Python strings as \<open>string\<close>: a character is a code point below 256. \<open>py_isspace\<close>,
    \<open>py_strip\<close> and \<open>py_lower\<close> are \<open>str.isspace\<close>, \<open>str.strip\<close> and \<open>str.lower\<close> on those
    code points. The order of strings is Python's, lexicographic by code point.
  \<^item> Insertion-ordered dictionaries as association lists: \<open>dict_append\<close> is
    \<open>d.setdefault(k, []).append(x)\<close> and \<open>group_by\<close> the loop that fills a \<open>defaultdict(list)\<close>.
  \<^item> \<open>collections.Counter\<close> as a function into \<open>nat\<close> with \<open>ctr_incr\<close>, \<open>ctr_add\<close>.
  \<^item> \<open>sorted(xs, key=f)\<close> as \<open>sort_key f xs\<close> (stable), with the fact that sorting by a key that
    identifies the elements does not depend on the input order.
  \<^item> Python floats (IEEE binary64, non-negative and below the overflow threshold) as the
    rational numbers they denote; \<open>fl64\<close> is round-to-nearest-even, so \<open>fl64 (a / b)\<close> is
    what \<open>a / b\<close> evaluates to.
\<close>

named_theorems norm_simps \<open>facts about the normalizing string validators\<close>
named_theorems count_simps \<open>facts about counters and closed skip tallies\<close>

section \<open>Errors, instants\<close>

datatype py_error = ValueError string | KeyError string | TypeError string
  | OverflowError | AssertionError | RuntimeError string | LimitExceeded string | RepositoryReadAmbiguous

type_synonym 'a result = "py_error + 'a"

text \<open>An aware \<open>datetime\<close>, by its UTC instant in microseconds. Aware datetimes compare by
  instant.\<close>

type_synonym instant = int

section \<open>Strings\<close>

definition cp :: "char \<Rightarrow> nat" where
  "cp c = of_char c"

definition py_isspace :: "char \<Rightarrow> bool" where
  "py_isspace c = ((9 \<le> cp c \<and> cp c \<le> 13) \<or> (28 \<le> cp c \<and> cp c \<le> 32) \<or> cp c = 133 \<or> cp c = 160)"

definition py_strip :: "string \<Rightarrow> string" where
  "py_strip s = rev (dropWhile py_isspace (rev (dropWhile py_isspace s)))"

definition py_lower_char :: "char \<Rightarrow> char" where
  "py_lower_char c =
     (if (65 \<le> cp c \<and> cp c \<le> 90) \<or> (192 \<le> cp c \<and> cp c \<le> 222 \<and> cp c \<noteq> 215)
      then char_of (cp c + 32) else c)"

definition py_lower :: "string \<Rightarrow> string" where
  "py_lower = map py_lower_char"

definition py_startswith :: "string \<Rightarrow> string \<Rightarrow> bool" where
  "py_startswith s p = (take (length p) s = p)"

lemma dropWhile_eq_self: "dropWhile P xs = xs \<longleftrightarrow> xs = [] \<or> \<not> P (hd xs)"
  using length_dropWhile_le[of P "tl xs"] by (cases xs) (auto dest: arg_cong[where f = length])

lemma dropWhile_rev_dropWhile_hd:
  assumes "xs = [] \<or> \<not> P (hd xs)" "ys = rev (dropWhile P (rev xs))"
  shows "ys = [] \<or> \<not> P (hd ys)"
proof (cases xs)
  case Nil
  with assms show ?thesis by simp
next
  case (Cons x zs)
  with assms(1) have "\<not> P x" by simp
  then have "dropWhile P (rev xs) = dropWhile P (rev zs) @ [x]"
    using Cons by (simp add: dropWhile_append)
  with assms(2) \<open>\<not> P x\<close> show ?thesis by simp
qed

lemma py_strip_cases: "py_strip s = [] \<or> \<not> py_isspace (hd (py_strip s)) \<and> \<not> py_isspace (last (py_strip s))"
proof -
  define t where "t = dropWhile py_isspace s"
  have t: "t = [] \<or> \<not> py_isspace (hd t)"
    by (metis hd_dropWhile t_def)
  then have "py_strip s = [] \<or> \<not> py_isspace (hd (py_strip s))"
    by (rule dropWhile_rev_dropWhile_hd) (simp add: py_strip_def t_def)
  moreover have "py_strip s = [] \<or> \<not> py_isspace (last (py_strip s))"
    by (metis hd_dropWhile last_rev py_strip_def rev_is_Nil_conv)
  ultimately show ?thesis by blast
qed

lemma py_strip_id:
  assumes "s = [] \<or> \<not> py_isspace (hd s) \<and> \<not> py_isspace (last s)"
  shows "py_strip s = s"
proof -
  have "dropWhile py_isspace s = s" using assms by (auto simp: dropWhile_eq_self)
  moreover have "dropWhile py_isspace (rev s) = rev s"
    using assms by (auto simp: dropWhile_eq_self hd_rev)
  ultimately show ?thesis by (simp add: py_strip_def)
qed

lemma py_strip_idem [simp, norm_simps]: "py_strip (py_strip s) = py_strip s"
  by (rule py_strip_id) (rule py_strip_cases)

lemma set_py_strip: "set (py_strip s) \<subseteq> set s"
  by (auto simp: py_strip_def dest!: set_dropWhileD)

lemma length_py_strip: "length (py_strip s) \<le> length s"
  unfolding py_strip_def by (metis length_dropWhile_le length_rev order_trans)

lemma cp_less [simp]: "cp c < 256"
  by (simp add: cp_def)

lemma cp_char_of: "n < 256 \<Longrightarrow> cp (char_of n) = n"
  by (simp add: cp_def)

lemma py_lower_char_idem [simp]: "py_lower_char (py_lower_char c) = py_lower_char c"
  by (auto simp: py_lower_char_def cp_char_of)

lemma py_lower_idem [simp, norm_simps]: "py_lower (py_lower s) = py_lower s"
  by (simp add: py_lower_def comp_def)

lemma py_isspace_lower [simp]: "py_isspace (py_lower_char c) = py_isspace c"
  by (auto simp: py_lower_char_def py_isspace_def cp_char_of)

lemma py_strip_lower [simp, norm_simps]: "py_strip (py_lower s) = py_lower (py_strip s)"
  by (simp add: py_strip_def py_lower_def dropWhile_map comp_def rev_map)

lemma py_lower_eq_Nil [simp]: "py_lower s = [] \<longleftrightarrow> s = []"
  by (simp add: py_lower_def)

lemma length_py_lower [simp]: "length (py_lower s) = length s"
  by (simp add: py_lower_def)

section \<open>Dictionaries, grouping\<close>

text \<open>\<open>AList.update\<close> replaces the value of a present key in place and appends a new key at the
  end, as assignment into a Python \<open>dict\<close> does.\<close>

definition dict_get :: "('k \<times> 'v) list \<Rightarrow> 'k \<Rightarrow> 'v \<Rightarrow> 'v" where
  "dict_get d k v = (case map_of d k of None \<Rightarrow> v | Some w \<Rightarrow> w)"

definition dict_append :: "'k \<Rightarrow> 'a \<Rightarrow> ('k \<times> 'a list) list \<Rightarrow> ('k \<times> 'a list) list" where
  "dict_append k x d = AList.update k (dict_get d k [] @ [x]) d"

definition group_by :: "('a \<Rightarrow> 'k) \<Rightarrow> 'a list \<Rightarrow> ('k \<times> 'a list) list" where
  "group_by key xs = foldl (\<lambda>d x. dict_append (key x) x d) [] xs"

lemma group_by_Nil [simp]: "group_by key [] = []"
  by (simp add: group_by_def)

lemma group_by_snoc [simp]: "group_by key (xs @ [x]) = dict_append (key x) x (group_by key xs)"
  by (simp add: group_by_def)

lemma dict_get_group_by: "dict_get (group_by key xs) k [] = filter (\<lambda>x. key x = k) xs"
  by (induction xs rule: rev_induct) (auto simp: dict_get_def dict_append_def update_conv')

lemma map_of_group_by:
  "map_of (group_by key xs) k =
     (if k \<in> key ` set xs then Some (filter (\<lambda>x. key x = k) xs) else None)"
proof (induction xs rule: rev_induct)
  case (snoc x xs)
  then show ?case
    using dict_get_group_by[of key xs k] by (auto simp: dict_append_def update_conv')
qed simp

lemma keys_group_by: "fst ` set (group_by key xs) = key ` set xs"
  by (induction xs rule: rev_induct) (auto simp: dict_append_def dom_update)

lemma distinct_group_by: "distinct (map fst (group_by key xs))"
  by (induction xs rule: rev_induct) (auto simp: dict_append_def distinct_update)

lemma set_group_by:
  "(k, ys) \<in> set (group_by key xs) \<longleftrightarrow> k \<in> key ` set xs \<and> ys = filter (\<lambda>x. key x = k) xs"
  using map_of_group_by[of key xs k] map_of_eq_Some_iff[OF distinct_group_by, of key xs k ys]
  by (auto split: if_splits)

lemma group_by_nonempty: "(k, ys) \<in> set (group_by key xs) \<Longrightarrow> ys \<noteq> []"
  by (auto simp: set_group_by filter_empty_conv)

text \<open>The groups in key order, as a loop over the sorted dictionary meets them.\<close>

lemma sort_groups_eq:
  "sort_key fst (group_by f xs) =
     map (\<lambda>k. (k, filter (\<lambda>x. f x = k) xs)) (sorted_list_of_set (f ` set xs))"
  for f :: "'a \<Rightarrow> 'k::linorder"
proof -
  let ?G = "sort_key fst (group_by f xs)"
  have d: "distinct (map fst ?G)"
    using distinct_group_by[of f xs] by (simp add: distinct_map)
  have k: "map fst ?G = sorted_list_of_set (f ` set xs)"
    by (rule sorted_distinct_set_unique) (use d keys_group_by[of f xs] in auto)
  have "?G = map (\<lambda>k. (k, filter (\<lambda>x. f x = k) xs)) (map fst ?G)"
    unfolding map_map by (rule map_idI[symmetric]) (auto simp: set_group_by)
  then show ?thesis unfolding k .
qed

section \<open>Counters\<close>

type_synonym 'r counter = "'r \<Rightarrow> nat"

definition ctr_empty :: "'r counter" where
  "ctr_empty = (\<lambda>_. 0)"

definition ctr_add :: "'r \<Rightarrow> nat \<Rightarrow> 'r counter \<Rightarrow> 'r counter" where
  "ctr_add r n c = c(r := c r + n)"

abbreviation ctr_incr :: "'r \<Rightarrow> 'r counter \<Rightarrow> 'r counter" where
  "ctr_incr r \<equiv> ctr_add r 1"

definition ctr_update :: "'r counter \<Rightarrow> 'r counter \<Rightarrow> 'r counter" where
  "ctr_update c d = (\<lambda>r. c r + d r)"

lemma ctr_empty_apply [simp, count_simps]: "ctr_empty r = 0"
  by (simp add: ctr_empty_def)

lemma ctr_add_apply [simp, count_simps]: "ctr_add r n c r' = c r' + (if r = r' then n else 0)"
  by (simp add: ctr_add_def)

lemma ctr_update_apply [simp, count_simps]: "ctr_update c d r = c r + d r"
  by (simp add: ctr_update_def)

lemma sum_ctr_add [count_simps]:
  "finite R \<Longrightarrow> r \<in> R \<Longrightarrow> (\<Sum>x\<in>R. ctr_add r n c x) = (\<Sum>x\<in>R. c x) + n"
  by (simp add: sum.distrib)

section \<open>Sorting by an identifying key\<close>

lemma sort_key_perm_eq:
  assumes "mset xs = mset ys" and "inj_on f (set xs)"
  shows "sort_key f xs = sort_key f ys"
  using assms by (intro sort_key_inj_key_eq) auto

section \<open>Binary64 arithmetic\<close>

definition round_half_even :: "rat \<Rightarrow> int" where
  "round_half_even x =
     (let n = \<lfloor>x\<rfloor>; r = x - of_int n
      in if r < 1 / 2 then n else if r > 1 / 2 then n + 1 else if even n then n else n + 1)"

fun bit_length :: "int \<Rightarrow> int" where
  "bit_length n = (if n \<le> 0 then 0 else 1 + bit_length (n div 2))"

declare bit_length.simps [simp del]

definition ilog2 :: "rat \<Rightarrow> int" where
  "ilog2 x =
     (let (n, d) = quotient_of x; e = bit_length n - bit_length d
      in if x < 2 powi e then e - 1 else e)"

definition fl_quantum :: "rat \<Rightarrow> rat" where
  "fl_quantum x = 2 powi (max (-1074) (ilog2 x - 52))"

definition fl64 :: "rat \<Rightarrow> rat" where
  "fl64 x = (if x \<le> 0 then 0 else of_int (round_half_even (x / fl_quantum x)) * fl_quantum x)"

lemma round_half_even_of_int [simp]: "round_half_even (of_int k) = k"
  by (simp add: round_half_even_def)

lemma round_half_even_bounds: "\<lfloor>x\<rfloor> \<le> round_half_even x" "round_half_even x \<le> \<lfloor>x\<rfloor> + 1"
  by (auto simp: round_half_even_def Let_def)

lemma round_half_even_mono: "x \<le> y \<Longrightarrow> round_half_even x \<le> round_half_even y"
proof (cases "\<lfloor>x\<rfloor> = \<lfloor>y\<rfloor>")
  case True
  assume "x \<le> y"
  with True show ?thesis by (auto simp: round_half_even_def Let_def)
next
  case False
  assume "x \<le> y"
  with False have "\<lfloor>x\<rfloor> + 1 \<le> \<lfloor>y\<rfloor>" using floor_mono[of x y] by linarith
  then show ?thesis using round_half_even_bounds[of x] round_half_even_bounds[of y] by linarith
qed

lemma bit_length_nonneg: "0 \<le> bit_length n"
proof (induction n rule: bit_length.induct)
  case (1 n)
  then show ?case by (subst bit_length.simps) auto
qed

lemma bit_length_powi:
  "0 < n \<Longrightarrow> 2 powi (bit_length n - 1) \<le> (of_int n :: rat) \<and> (of_int n :: rat) < 2 powi (bit_length n)"
proof (induction n rule: bit_length.induct)
  case (1 n)
  show ?case
  proof (cases "n = 1")
    case True
    have "bit_length 1 = 1"
      by (simp add: bit_length.simps[of 1] bit_length.simps[of 0])
    with True show ?thesis by simp
  next
    case False
    define b where "b = bit_length (n div 2)"
    from False 1 have m: "0 < n div 2" by simp
    have bl: "bit_length n = 1 + b"
      using 1(2) by (simp add: bit_length.simps[of n] b_def)
    have IH: "2 powi (b - 1) \<le> (of_int (n div 2) :: rat)" "of_int (n div 2) < (2 powi b :: rat)"
      using 1 m by (auto simp: b_def)
    have "1 \<le> b"
      using m by (simp add: b_def bit_length.simps[of "n div 2"]) (simp add: bit_length_nonneg)
    then obtain k where k: "b = 1 + int k"
      by (intro that[of "nat (b - 1)"]) simp
    have "(2 :: rat) powi (b - 1) = of_int (2 ^ k)" "(2 :: rat) powi b = of_int (2 ^ Suc k)"
      by (simp_all add: k power_int_add)
    with IH have "2 ^ k \<le> n div 2" "n div 2 < 2 ^ Suc k"
      by (simp_all only: of_int_le_iff of_int_less_iff)
    then have "2 ^ Suc k \<le> n" "n < 2 ^ Suc (Suc k)" by auto
    then have "(of_int (2 ^ Suc k) :: rat) \<le> of_int n" "of_int n < (of_int (2 ^ Suc (Suc k)) :: rat)"
      unfolding of_int_le_iff of_int_less_iff by auto
    then show ?thesis unfolding bl k by (simp add: power_int_add)
  qed
qed

lemma ilog2_bounds:
  assumes "0 < x"
  shows "2 powi (ilog2 x) \<le> x" and "x < 2 powi (ilog2 x + 1)"
proof -
  obtain n d where q: "quotient_of x = (n, d)" by (cases "quotient_of x")
  have d: "0 < d" using quotient_of_denom_pos[OF q] .
  have x: "x = of_int n / of_int d" using quotient_of_div[OF q] .
  with assms d have n: "0 < n" by (simp add: zero_less_divide_iff)
  define a b where "a = bit_length n" and "b = bit_length d"
  note an = bit_length_powi[OF n, folded a_def] and bn = bit_length_powi[OF d, folded b_def]
  have "2 powi (a - b - 1) = 2 powi (a - 1) / (2 powi b :: rat)"
    by (simp add: power_int_diff)
  also have "\<dots> \<le> x" unfolding x using an bn d n
    by (intro frac_le) auto
  finally have lo: "2 powi (a - b - 1) \<le> x" .
  have "x < 2 powi a / (2 powi (b - 1) :: rat)" unfolding x using an bn d n
    by (intro frac_less) auto
  also have "\<dots> = 2 powi (a - b + 1)" by (simp add: power_int_diff power_int_add)
  finally have hi: "x < 2 powi (a - b + 1)" .
  have il: "ilog2 x = (if x < 2 powi (a - b) then a - b - 1 else a - b)"
    by (simp add: ilog2_def q a_def b_def Let_def)
  show "2 powi (ilog2 x) \<le> x" "x < 2 powi (ilog2 x + 1)"
    using lo hi by (auto simp: il)
qed

lemma ilog2_mono: "0 < x \<Longrightarrow> x \<le> y \<Longrightarrow> ilog2 x \<le> ilog2 y"
proof (rule ccontr)
  assume "0 < x" "x \<le> y" "\<not> ilog2 x \<le> ilog2 y"
  then have "(2::rat) powi (ilog2 y + 1) \<le> 2 powi (ilog2 x)"
    by (intro power_int_increasing) auto
  with ilog2_bounds[of x] ilog2_bounds[of y] \<open>0 < x\<close> \<open>x \<le> y\<close> show False by linarith
qed

lemma fl_quantum_pos [simp]: "0 < fl_quantum x"
  by (simp add: fl_quantum_def)

lemma fl64_le_grid:
  assumes "0 < x" "x \<le> of_int k * fl_quantum x"
  shows "fl64 x \<le> of_int k * fl_quantum x"
proof -
  from assms have "x / fl_quantum x \<le> of_int k" by (simp add: divide_le_eq)
  then have "round_half_even (x / fl_quantum x) \<le> k"
    using round_half_even_mono[of _ "of_int k"] by fastforce
  then show ?thesis using assms by (simp add: fl64_def)
qed

lemma fl64_ge_grid:
  assumes "0 < x" "of_int k * fl_quantum x \<le> x"
  shows "of_int k * fl_quantum x \<le> fl64 x"
proof -
  from assms have "of_int k \<le> x / fl_quantum x" by (simp add: le_divide_eq)
  then have "k \<le> round_half_even (x / fl_quantum x)"
    using round_half_even_mono[of "of_int k"] by fastforce
  then show ?thesis using assms by (simp add: fl64_def)
qed

lemma fl64_nonneg [simp]: "0 \<le> fl64 x"
  using fl64_ge_grid[of x 0] by (cases "0 < x") (auto simp: fl64_def)

lemma fl64_mono: "x \<le> y \<Longrightarrow> fl64 x \<le> fl64 y"
proof (cases "0 < x")
  case False
  then show ?thesis using fl64_nonneg[of y] by (auto simp: fl64_def)
next
  case True
  assume le: "x \<le> y"
  with True have y: "0 < y" by simp
  define ex ey where "ex = max (-1074) (ilog2 x - 52)" and "ey = max (-1074) (ilog2 y - 52)"
  have q: "fl_quantum x = 2 powi ex" "fl_quantum y = 2 powi ey"
    by (simp_all add: fl_quantum_def ex_def ey_def)
  have il: "ilog2 x \<le> ilog2 y" using ilog2_mono[OF True le] .
  show ?thesis
  proof (cases "ex = ey")
    case eq: True
    then have "round_half_even (x / fl_quantum x) \<le> round_half_even (y / fl_quantum y)"
      using le by (intro round_half_even_mono) (simp add: q divide_right_mono)
    with eq True y show ?thesis by (simp add: fl64_def q)
  next
    case False
    with il have lt: "ilog2 x < ilog2 y" and ey: "ey = ilog2 y - 52" and exy: "ex \<le> ilog2 y"
      by (auto simp: ex_def ey_def)
    have top: "(2::rat) powi (ilog2 y) = of_int (2 ^ 52) * fl_quantum y"
      unfolding q ey by (simp add: power_int_diff)
    have bot: "(2::rat) powi (ilog2 y) = of_int (2 ^ nat (ilog2 y - ex)) * fl_quantum x"
      unfolding q using exy by (simp add: flip: power_int_of_nat power_int_add)
    have "x < 2 powi (ilog2 x + 1)" by (rule ilog2_bounds(2)[OF True])
    also have "\<dots> \<le> 2 powi (ilog2 y)" using lt by (intro power_int_increasing) auto
    finally have "fl64 x \<le> 2 powi (ilog2 y)"
      unfolding bot by (intro fl64_le_grid[OF True]) simp
    also have "\<dots> \<le> fl64 y"
      unfolding top using fl64_ge_grid[OF y, of "2 ^ 52"] ilog2_bounds(1)[OF y] top by auto
    finally show ?thesis .
  qed
qed

lemma fl64_0 [simp]: "fl64 0 = 0" by (simp add: fl64_def)

lemma fl64_1 [simp]: "fl64 1 = 1"
proof -
  have "ilog2 1 = 0" by (simp add: ilog2_def Let_def bit_length.simps)
  then have "fl_quantum 1 = 1 / of_int (2 ^ 52)"
    by (simp add: fl_quantum_def power_int_def field_simps)
  then show ?thesis by (simp add: fl64_def del: of_int_power of_int_numeral)
qed


end
