(* ===== verification/Identity_Normalizers.thy ===== *)
theory Identity_Normalizers
  imports Sediment_Prelude
begin

text \<open>
  The validated scalar types of \<open>packages/core/sediment_core/models.py\<close> and \<open>org.py\<close>: each
  definition is one \<open>AfterValidator\<close>, from a string to a normalized string or a
  \<open>ValueError\<close>, and \<open>v_then\<close> is the chaining of \<open>Annotated\<close> validators.

  The store re-validates every row it reads back, so each validator has to be a fixed point on
  its own results: a stored value must equal its read-back. That contract is the locale
  \<open>normalizer\<close>; every validator of the source is an interpretation of it. The locale
  \<open>scalar_normalizer\<close> adds that a normalizer never introduces a code point the
  \<open>ScalarIdentity\<close> check refuses, which is what makes the chained types fixed points too.
\<close>

section \<open>The contract of a validator\<close>

definition bind_result :: "'a result \<Rightarrow> ('a \<Rightarrow> 'b result) \<Rightarrow> 'b result" where
  "bind_result r f = (case r of Inl e \<Rightarrow> Inl e | Inr x \<Rightarrow> f x)"

lemma bind_result_simps [simp]:
  "bind_result (Inl e) f = Inl e" "bind_result (Inr x) f = f x"
  by (simp_all add: bind_result_def)

lemma bind_result_Inr [elim!]:
  assumes "bind_result r f = Inr y"
  obtains x where "r = Inr x" "f x = Inr y"
  using assms by (cases r) auto

definition v_then :: "('a \<Rightarrow> 'a result) \<Rightarrow> ('a \<Rightarrow> 'a result) \<Rightarrow> 'a \<Rightarrow> 'a result" where
  "v_then f g v = bind_result (f v) g"

definition v_optional :: "('a \<Rightarrow> 'a result) \<Rightarrow> 'a option \<Rightarrow> 'a option result" where
  "v_optional f v = (case v of None \<Rightarrow> Inr None | Some x \<Rightarrow> map_sum id Some (f x))"

locale normalizer =
  fixes norm :: "'a \<Rightarrow> 'a result"
  assumes fixed_point: "norm v = Inr w \<Longrightarrow> norm w = Inr w"
begin

lemma optional_fixed_point: "v_optional norm v = Inr w \<Longrightarrow> v_optional norm w = Inr w"
  by (cases v; cases "norm (the v)") (auto simp: v_optional_def dest: fixed_point)

lemma normal_forms: "(\<exists>v. norm v = Inr w) \<longleftrightarrow> norm w = Inr w"
  using fixed_point by blast

end

section \<open>Scalar identities\<close>

definition scalar_ok :: "string \<Rightarrow> bool" where
  "scalar_ok v = (\<not> list_ex (\<lambda>c. cp c = 0 \<or> (0xD800 \<le> cp c \<and> cp c \<le> 0xDFFF)) v)"

definition scalar_identity :: "string \<Rightarrow> string result" where
  "scalar_identity v =
     (if scalar_ok v then Inr v
      else Inl (ValueError ''identity must not contain NUL or surrogate code points''))"

locale scalar_normalizer = normalizer norm for norm :: "string \<Rightarrow> string result" +
  assumes keeps_scalar: "norm v = Inr w \<Longrightarrow> scalar_ok v \<Longrightarrow> scalar_ok w"
begin

lemma identity_fixed_point:
  "v_then scalar_identity norm v = Inr w \<Longrightarrow> v_then scalar_identity norm w = Inr w"
  by (auto simp: v_then_def scalar_identity_def split: if_splits
      dest: fixed_point keeps_scalar)

end

sublocale scalar_normalizer \<subseteq> identity: normalizer "v_then scalar_identity norm"
  by unfold_locales (rule identity_fixed_point)

definition non_empty_id :: "string \<Rightarrow> string result" where
  "non_empty_id v =
     (let v = py_strip v
      in if v = [] then Inl (ValueError ''must be a non-empty id (ADR 0002)'') else Inr v)"

definition ascii_lower_alnum :: "char \<Rightarrow> bool" where
  "ascii_lower_alnum c = ((97 \<le> cp c \<and> cp c \<le> 122) \<or> (48 \<le> cp c \<and> cp c \<le> 57))"

text \<open>\<open>dns_label\<close> is \<open>[a-z0-9](?:[a-z0-9-]{0,61}[a-z0-9])?\<close> matched in full; the host
  pattern is one or more labels separated by dots.\<close>

definition dns_label :: "string \<Rightarrow> bool" where
  "dns_label l =
     (l \<noteq> [] \<and> length l \<le> 63 \<and> ascii_lower_alnum (hd l) \<and> ascii_lower_alnum (last l)
      \<and> list_all (\<lambda>c. ascii_lower_alnum c \<or> c = CHR ''-'') l)"

fun split_on :: "char \<Rightarrow> string \<Rightarrow> string list" where
  "split_on d [] = [[]]"
| "split_on d (c # cs) =
     (if c = d then [] # split_on d cs
      else (c # hd (split_on d cs)) # tl (split_on d cs))"

definition forge_host :: "string \<Rightarrow> string result" where
  "forge_host value =
     (let value = py_lower value
      in if length value > 253 \<or> \<not> list_all dns_label (split_on CHR ''.'' value)
         then Inl (ValueError ''forge host must be an ASCII DNS hostname without a port'')
         else Inr value)"

definition ascii_digit :: "char \<Rightarrow> bool" where
  "ascii_digit c = (48 \<le> cp c \<and> cp c \<le> 57)"

definition provider_repository_id :: "string \<Rightarrow> string result" where
  "provider_repository_id value =
     (if value \<noteq> [] \<and> ascii_digit (hd value) \<and> hd value \<noteq> CHR ''0''
         \<and> list_all ascii_digit value \<and> length value \<le> 20
      then Inr value
      else Inl (ValueError ''repository ID must be canonical positive decimal text''))"

definition CI_REASON_MAX_LENGTH :: nat where
  "CI_REASON_MAX_LENGTH = 4096"

definition ci_reason :: "string \<Rightarrow> string result" where
  "ci_reason value =
     (if length value > CI_REASON_MAX_LENGTH
      then Inl (ValueError ''CI reason must have at most 4096 characters'') else Inr value)"

definition lower_hex :: "char \<Rightarrow> bool" where
  "lower_hex c = (c \<in> set ''0123456789abcdef'')"

definition normalize_commit_sha :: "string \<Rightarrow> string result" where
  "normalize_commit_sha v =
     (let v = py_lower (py_strip v)
      in if length v \<notin> {40, 64} \<or> list_ex (\<lambda>c. \<not> lower_hex c) v
         then Inl (ValueError ''must be a full-length commit sha (40 or 64 hex chars)'')
         else Inr v)"

definition org_id_char :: "char \<Rightarrow> bool" where
  "org_id_char c = (ascii_lower_alnum c \<or> c = CHR ''.'' \<or> c = CHR ''_'' \<or> c = CHR ''-'')"

definition org_id_match :: "string \<Rightarrow> bool" where
  "org_id_match v =
     (v \<noteq> [] \<and> ascii_lower_alnum (hd v) \<and> list_all org_id_char (tl v) \<and> length (tl v) \<le> 63)"

definition normalize_org_id :: "string \<Rightarrow> string result" where
  "normalize_org_id raw =
     (if list_ex (\<lambda>c. cp c \<ge> 128) raw then Inl (ValueError ''org_id must be ASCII'')
      else let normalized = py_lower raw
           in if \<not> org_id_match normalized then Inl (ValueError ''invalid org_id'')
              else Inr normalized)"

text \<open>\<open>str.partition("/")\<close>: the part before the first separator, whether it occurs, the rest.\<close>

definition py_partition :: "char \<Rightarrow> string \<Rightarrow> string \<times> bool \<times> string" where
  "py_partition d v =
     (takeWhile (\<lambda>c. c \<noteq> d) v, d \<in> set v, tl (dropWhile (\<lambda>c. c \<noteq> d) v))"

definition normalize_repo_slug :: "string \<Rightarrow> string result" where
  "normalize_repo_slug v =
     (let v = py_lower (py_strip v)
      in if v = [] then Inr []
         else bind_result (scalar_identity v) (\<lambda>_.
           let (owner, sep, name) = py_partition CHR ''/'' v
           in if \<not> sep \<or> owner = [] \<or> name = [] \<or> CHR ''/'' \<in> set name
              then Inl (ValueError ''must be \"owner/repo\"'') else Inr v))"

definition refs_heads :: string where
  "refs_heads = ''refs/heads/''"

text \<open>The \<open>while\<close> loop of \<open>_branch_name\<close>: strip the prefix, strip whitespace, again.\<close>

function branch_loop :: "string \<Rightarrow> string" where
  "branch_loop v =
     (if py_startswith v refs_heads then branch_loop (py_strip (drop (length refs_heads) v)) else v)"
  by pat_completeness auto
termination
proof (relation "measure length")
  fix v assume "py_startswith v refs_heads"
  then have "length refs_heads \<le> length v"
    by (metis length_take min.cobounded1 py_startswith_def)
  then have "0 < length refs_heads" "length refs_heads \<le> length v" by (auto simp: refs_heads_def)
  then show "(py_strip (drop (length refs_heads) v), v) \<in> measure length"
    using length_py_strip[of "drop (length refs_heads) v"] unfolding measure_def inv_image_def
    by (simp del: length_greater_0_conv)
qed simp

declare branch_loop.simps [simp del]

definition branch_name :: "string \<Rightarrow> string result" where
  "branch_name v = Inr (branch_loop (py_strip v))"

definition model_name :: "string \<Rightarrow> string result" where
  "model_name v =
     (let v = py_strip v
      in if v = [] then Inl (ValueError ''model must be non-empty when present'') else Inr v)"

definition stripped :: "string \<Rightarrow> string result" where
  "stripped v = Inr (py_strip v)"

text \<open>\<open>datetime.min\<close> and \<open>datetime.max\<close> in UTC, in microseconds since the epoch. An aware
  instant outside this range cannot be converted to UTC: \<open>astimezone\<close> raises.\<close>

definition UTC_MIN :: instant where
  "UTC_MIN = -62135596800000000"

definition UTC_MAX :: instant where
  "UTC_MAX = 253402300799999999"

definition utc_representable :: "instant \<Rightarrow> instant result" where
  "utc_representable t =
     (if UTC_MIN \<le> t \<and> t \<le> UTC_MAX then Inr t
      else Inl (ValueError ''timestamp must be representable in UTC''))"

section \<open>Every validator satisfies the contract\<close>

lemma scalar_ok_subset: "scalar_ok v \<Longrightarrow> set w \<subseteq> set v \<Longrightarrow> scalar_ok w"
  by (auto simp: scalar_ok_def list_ex_iff)

lemma scalar_ok_strip [intro]: "scalar_ok v \<Longrightarrow> scalar_ok (py_strip v)"
  by (rule scalar_ok_subset[OF _ set_py_strip])

lemma cp_lower_0 [simp]: "cp (py_lower_char c) = 0 \<longleftrightarrow> cp c = 0"
  by (auto simp: py_lower_char_def cp_char_of)

lemma scalar_ok_lower [simp]: "scalar_ok (py_lower v) = scalar_ok v"
  using less_trans[OF cp_less, of "0xD800"]
  by (auto simp: scalar_ok_def list_ex_iff py_lower_def not_le)

lemma branch_loop_cases: "py_strip v = v \<Longrightarrow> py_strip (branch_loop v) = branch_loop v"
proof (induction v rule: branch_loop.induct)
  case (1 v)
  then show ?case by (simp add: branch_loop.simps[of v])
qed

lemma branch_loop_no_prefix: "\<not> py_startswith (branch_loop v) refs_heads"
proof (induction v rule: branch_loop.induct)
  case (1 v)
  then show ?case by (simp add: branch_loop.simps[of v])
qed

lemma set_branch_loop: "set (branch_loop v) \<subseteq> set v"
proof (induction v rule: branch_loop.induct)
  case (1 v)
  then show ?case
    using set_py_strip[of "drop (length refs_heads) v"] set_drop_subset[of "length refs_heads" v]
    by (subst branch_loop.simps) auto
qed

lemma branch_loop_idem [simp]: "branch_loop (branch_loop v) = branch_loop v"
  using branch_loop_no_prefix[of v] by (subst branch_loop.simps) simp

interpretation non_empty: scalar_normalizer non_empty_id
  by unfold_locales (auto simp: non_empty_id_def Let_def split: if_splits)

interpretation host: scalar_normalizer forge_host
  by unfold_locales (auto simp: forge_host_def Let_def split: if_splits)

interpretation repository_id: scalar_normalizer provider_repository_id
  by unfold_locales (auto simp: provider_repository_id_def split: if_splits)

interpretation reason: normalizer ci_reason
  by unfold_locales (auto simp: ci_reason_def split: if_splits)

interpretation commit_sha: normalizer normalize_commit_sha
  by unfold_locales (auto simp: normalize_commit_sha_def Let_def split: if_splits)

lemma normalize_org_id_fixed: "normalize_org_id v = Inr w \<Longrightarrow> normalize_org_id w = Inr w"
proof -
  assume a: "normalize_org_id v = Inr w"
  have "cp (py_lower_char c) < 128" if "cp c < 128" for c
    using that by (auto simp: py_lower_char_def cp_char_of)
  then have "\<forall>c\<in>set (py_lower v). cp c < 128" if "\<forall>c\<in>set v. cp c < 128"
    using that by (auto simp: py_lower_def)
  with a show ?thesis
    by (auto simp: normalize_org_id_def Let_def list_ex_iff not_le split: if_splits)
qed

interpretation org: scalar_normalizer normalize_org_id
  by unfold_locales
    (rule normalize_org_id_fixed, auto simp: normalize_org_id_def Let_def split: if_splits)

lemma normalize_repo_slug_Inr:
  "normalize_repo_slug v = Inr w \<Longrightarrow> w = py_lower (py_strip v)"
  by (auto simp: normalize_repo_slug_def Let_def scalar_identity_def split: if_splits prod.splits
      simp del: py_lower_eq_Nil)

interpretation slug: scalar_normalizer normalize_repo_slug
proof unfold_locales
  fix v w assume a: "normalize_repo_slug v = Inr w"
  note w = normalize_repo_slug_Inr[OF a]
  from a show "normalize_repo_slug w = Inr w"
    unfolding w by (simp add: normalize_repo_slug_def)
  show "scalar_ok w" if "scalar_ok v" using that unfolding w by auto
qed

interpretation branch: scalar_normalizer branch_name
  by unfold_locales
    (auto simp: branch_name_def branch_loop_cases
      intro: scalar_ok_subset[OF _ subset_trans[OF set_branch_loop set_py_strip]])

interpretation model: scalar_normalizer model_name
  by unfold_locales (auto simp: model_name_def Let_def split: if_splits)

interpretation workflow: scalar_normalizer stripped
  by unfold_locales (auto simp: stripped_def)

interpretation required_slug: normalizer "v_then (v_then scalar_identity normalize_repo_slug) non_empty_id"
proof unfold_locales
  fix v w
  assume "v_then (v_then scalar_identity normalize_repo_slug) non_empty_id v = Inr w"
  then obtain u where u: "v_then scalar_identity normalize_repo_slug v = Inr u" "non_empty_id u = Inr w"
    by (auto simp: v_then_def[of _ non_empty_id])
  from u(1) have n: "v_then scalar_identity normalize_repo_slug u = Inr u"
    by (rule slug.identity.fixed_point)
  then have "normalize_repo_slug u = Inr u"
    by (auto simp: v_then_def scalar_identity_def split: if_splits)
  from normalize_repo_slug_Inr[OF this] have "py_strip u = u"
    by (metis py_strip_idem py_strip_lower)
  with u(2) have "w = u" by (auto simp: non_empty_id_def split: if_splits)
  with n u(2) show "v_then (v_then scalar_identity normalize_repo_slug) non_empty_id w = Inr w"
    by (simp add: v_then_def[of _ non_empty_id])
qed

interpretation timestamp: normalizer utc_representable
  by unfold_locales (auto simp: utc_representable_def split: if_splits)

text \<open>Numeric field bounds: \<open>Field(ge=lo, le=hi)\<close>.\<close>

definition int_between :: "int \<Rightarrow> int \<Rightarrow> int \<Rightarrow> int result" where
  "int_between lo hi v =
     (if lo \<le> v \<and> v \<le> hi then Inr v else Inl (ValueError ''value out of bounds''))"

definition unit_interval :: "rat \<Rightarrow> rat result" where
  "unit_interval v = (if 0 \<le> v \<and> v \<le> 1 then Inr v else Inl (ValueError ''value out of bounds''))"

interpretation bounded: normalizer "int_between lo hi"
  by unfold_locales (auto simp: int_between_def split: if_splits)

interpretation unit_bounded: normalizer unit_interval
  by unfold_locales (auto simp: unit_interval_def split: if_splits)

interpretation scalar: normalizer scalar_identity
  by unfold_locales (auto simp: scalar_identity_def split: if_splits)

section \<open>What the normal forms are\<close>

lemma py_strip_append_left:
  assumes "xs \<noteq> []" "\<not> py_isspace (hd xs)" "\<not> py_isspace (last xs)"
  shows "py_strip (xs @ v) = xs @ rev (dropWhile py_isspace (rev v))"
proof -
  have "dropWhile py_isspace (xs @ v) = xs @ v"
    using assms by (auto simp: dropWhile_eq_self)
  moreover have "dropWhile py_isspace (rev xs) = rev xs"
    using assms by (auto simp: dropWhile_eq_self hd_rev)
  ultimately show ?thesis
    by (cases "\<forall>c\<in>set v. py_isspace c") (auto simp: py_strip_def dropWhile_append dropWhile_eq_Nil_conv)
qed

lemma py_strip_rstrip: "py_strip (rev (dropWhile py_isspace (rev v))) = py_strip v"
proof -
  have "rev v = takeWhile py_isspace (rev v) @ dropWhile py_isspace (rev v)" by simp
  then have "v = rev (dropWhile py_isspace (rev v)) @ rev (takeWhile py_isspace (rev v))"
    by (metis rev_append rev_rev_ident)
  moreover define u w where "u = rev (dropWhile py_isspace (rev v))" and "w = rev (takeWhile py_isspace (rev v))"
  ultimately have v: "v = u @ w" by simp
  have w: "\<forall>c\<in>set w. py_isspace c" by (auto simp: w_def dest: set_takeWhileD)
  have "py_strip (u @ w) = py_strip u"
  proof (cases "\<forall>c\<in>set u. py_isspace c")
    case True
    with w have "dropWhile py_isspace (u @ w) = []" "dropWhile py_isspace u = []"
      by (auto simp: dropWhile_eq_Nil_conv)
    then show ?thesis by (simp only: py_strip_def)
  next
    case False
    then have "dropWhile py_isspace (u @ w) = dropWhile py_isspace u @ w"
      by (auto simp: dropWhile_append1)
    moreover have "dropWhile py_isspace (rev w @ ys) = dropWhile py_isspace ys" for ys
      using w by (intro dropWhile_append2) auto
    ultimately show ?thesis by (simp add: py_strip_def)
  qed
  then show ?thesis by (simp flip: u_def v)
qed

lemma branch_loop_prefix:
  "branch_loop (refs_heads @ v) = branch_loop (py_strip v)"
  by (simp add: branch_loop.simps[of "refs_heads @ v"] py_startswith_def)

lemma py_strip_refs_heads: "py_strip (refs_heads @ v) = refs_heads @ rev (dropWhile py_isspace (rev v))"
  by (rule py_strip_append_left) (simp_all add: refs_heads_def py_isspace_def cp_def)

lemma py_partition_slash:
  "d \<in> set v \<Longrightarrow> v = fst (py_partition d v) @ d # snd (snd (py_partition d v))"
  by (induction v) (auto simp: py_partition_def)

lemma takeWhile_notin: "d \<notin> set (takeWhile (\<lambda>c. c \<noteq> d) v)"
  by (induction v) auto

lemma normalize_repo_slug_iff:
  "normalize_repo_slug v = Inr w \<longleftrightarrow> w = py_lower (py_strip v) \<and>
     (w = [] \<or> scalar_ok w \<and> (\<exists>owner name. w = owner @ CHR ''/'' # name \<and> owner \<noteq> [] \<and> name \<noteq> []
        \<and> CHR ''/'' \<notin> set owner \<and> CHR ''/'' \<notin> set name))"
proof -
  define u where "u = py_lower (py_strip v)"
  have pp: "py_partition CHR ''/'' (owner @ CHR ''/'' # name) = (owner, True, name)"
    if "CHR ''/'' \<notin> set owner" for owner name
    using that by (induction owner) (auto simp: py_partition_def)
  have "(\<exists>owner name. u = owner @ CHR ''/'' # name \<and> owner \<noteq> [] \<and> name \<noteq> []
        \<and> CHR ''/'' \<notin> set owner \<and> CHR ''/'' \<notin> set name)
     \<longleftrightarrow> (case py_partition CHR ''/'' u of (owner, sep, name) \<Rightarrow>
            \<not> (\<not> sep \<or> owner = [] \<or> name = [] \<or> CHR ''/'' \<in> set name))"
    using pp py_partition_slash[of "CHR ''/''" u] takeWhile_notin[of "CHR ''/''" u]
    by (auto simp: py_partition_def)
  then show ?thesis
    unfolding normalize_repo_slug_def Let_def u_def[symmetric]
    by (auto simp: scalar_identity_def split: prod.splits if_splits)
qed

text \<open>Repository slugs, commit hashes and organization ids have exactly these normal forms: a
  slug normalizes to its stripped lower-case spelling, which is empty (the absent sentinel) or
  \<open>owner/repo\<close> with one separator; a commit hash to 40 or 64 lower-case hexadecimal digits; an
  organization id to the lower-case spelling of ASCII text matching the tenant pattern. Every
  other input is refused, and two spellings that differ in case or padding of a slug share one
  normal form.\<close>

theorem identity_normal_forms:
  "(normalize_repo_slug v = Inr w \<longleftrightarrow> w = py_lower (py_strip v) \<and>
     (w = [] \<or> scalar_ok w \<and> (\<exists>owner name. w = owner @ CHR ''/'' # name \<and> owner \<noteq> [] \<and> name \<noteq> []
        \<and> CHR ''/'' \<notin> set owner \<and> CHR ''/'' \<notin> set name)))
   \<and> (normalize_commit_sha v = Inr w \<longleftrightarrow> w = py_lower (py_strip v) \<and> (length w = 40 \<or> length w = 64)
        \<and> set w \<subseteq> set ''0123456789abcdef'')
   \<and> (normalize_org_id v = Inr w \<longleftrightarrow> w = py_lower v \<and> list_all (\<lambda>c. cp c < 128) v \<and> org_id_match w)
   \<and> normalize_repo_slug (py_lower v) = normalize_repo_slug v
   \<and> normalize_repo_slug (py_strip v) = normalize_repo_slug v"
proof -
  have "normalize_commit_sha v = Inr w \<longleftrightarrow> w = py_lower (py_strip v) \<and> (length w = 40 \<or> length w = 64)
        \<and> set w \<subseteq> set ''0123456789abcdef''"
    unfolding normalize_commit_sha_def Let_def list_ex_iff lower_hex_def subset_iff
    by (auto simp del: list.set)
  moreover have "normalize_org_id v = Inr w \<longleftrightarrow>
      w = py_lower v \<and> list_all (\<lambda>c. cp c < 128) v \<and> org_id_match w"
    by (auto simp: normalize_org_id_def Let_def list_ex_iff list_all_iff not_less)
  ultimately show ?thesis
    using normalize_repo_slug_iff[of v w] by (simp add: normalize_repo_slug_def)
qed

text \<open>Branch names: validation always succeeds, its result carries no surrounding whitespace and
  no \<open>refs/heads/\<close> prefix, validating it again changes nothing, and the fully qualified and the
  short spelling of a branch always land on the same value.\<close>

theorem branch_name_canonical:
  "\<exists>w. branch_name v = Inr w \<and> py_strip w = w \<and> \<not> py_startswith w refs_heads
     \<and> branch_name w = Inr w \<and> branch_name (refs_heads @ v) = Inr w"
proof (intro exI conjI)
  show "branch_name v = Inr (branch_loop (py_strip v))" by (simp add: branch_name_def)
  show s: "py_strip (branch_loop (py_strip v)) = branch_loop (py_strip v)"
    by (rule branch_loop_cases) simp
  show "\<not> py_startswith (branch_loop (py_strip v)) refs_heads" by (rule branch_loop_no_prefix)
  show "branch_name (branch_loop (py_strip v)) = Inr (branch_loop (py_strip v))"
    by (simp add: branch_name_def s)
  show "branch_name (refs_heads @ v) = Inr (branch_loop (py_strip v))"
    by (simp add: branch_name_def py_strip_refs_heads branch_loop_prefix py_strip_rstrip)
qed

end
