(* ===== verification/Fact_Validation.thy ===== *)
theory Fact_Validation
  imports Fact_Models
begin

text \<open>
  Validation of the Facts: the field and model validators of each class of
  \<open>packages/core/sediment_core/models.py\<close>, composed as pydantic composes them. Every
  \<open>validate\<close> function is an interpretation of the locale \<open>normalizer\<close>.
\<close>

section \<open>The annotated field types\<close>

abbreviation ScalarIdentity :: "string \<Rightarrow> string result" where
  "ScalarIdentity \<equiv> scalar_identity"
abbreviation NonEmptyId :: "string \<Rightarrow> string result" where
  "NonEmptyId \<equiv> v_then scalar_identity non_empty_id"
abbreviation ForgeHost :: "string \<Rightarrow> string result" where
  "ForgeHost \<equiv> v_then scalar_identity forge_host"
abbreviation ProviderRepositoryId :: "string \<Rightarrow> string result" where
  "ProviderRepositoryId \<equiv> v_then scalar_identity provider_repository_id"
abbreviation OrgId :: "string \<Rightarrow> string result" where
  "OrgId \<equiv> v_then scalar_identity normalize_org_id"
abbreviation RepoSlug :: "string \<Rightarrow> string result" where
  "RepoSlug \<equiv> v_then scalar_identity normalize_repo_slug"
abbreviation RequiredRepoSlug :: "string \<Rightarrow> string result" where
  "RequiredRepoSlug \<equiv> v_then (v_then scalar_identity normalize_repo_slug) non_empty_id"
abbreviation BranchName :: "string \<Rightarrow> string result" where
  "BranchName \<equiv> v_then scalar_identity branch_name"
abbreviation ModelName :: "string \<Rightarrow> string result" where
  "ModelName \<equiv> v_then scalar_identity model_name"
abbreviation WorkflowPath :: "string \<Rightarrow> string result" where
  "WorkflowPath \<equiv> v_then scalar_identity stripped"

definition INT64_MAX :: int where
  "INT64_MAX = 2 ^ 63 - 1"

abbreviation Count64 :: "int \<Rightarrow> int result" where
  "Count64 \<equiv> int_between 0 INT64_MAX"
abbreviation Positive64 :: "int \<Rightarrow> int result" where
  "Positive64 \<equiv> int_between 1 INT64_MAX"

text \<open>A field step: validate one field and store the normalized value back.\<close>

definition v_field ::
  "('r \<Rightarrow> 'a) \<Rightarrow> (('a \<Rightarrow> 'a) \<Rightarrow> 'r \<Rightarrow> 'r) \<Rightarrow> ('a \<Rightarrow> 'a result) \<Rightarrow> 'r \<Rightarrow> 'r result" where
  "v_field get upd f r = bind_result (f (get r)) (\<lambda>x. Inr (upd (\<lambda>_. x) r))"

definition v_require :: "('r \<Rightarrow> bool) \<Rightarrow> string \<Rightarrow> 'r \<Rightarrow> 'r result" where
  "v_require P msg r = (if P r then Inr r else Inl (ValueError msg))"

primrec v_all :: "('r \<Rightarrow> 'r result) list \<Rightarrow> 'r \<Rightarrow> 'r result" where
  "v_all [] r = Inr r"
| "v_all (f # fs) r = bind_result (f r) (v_all fs)"

section \<open>Session-scoped Facts\<close>

fun validate_part :: "part \<Rightarrow> part result" where
  "validate_part (TextPart c) = Inr (TextPart c)"
| "validate_part (ReasoningPart c) = Inr (ReasoningPart c)"
| "validate_part (ToolCallPart i n a) = bind_result (NonEmptyId i) (\<lambda>i. Inr (ToolCallPart i n a))"
| "validate_part (ToolCallResponsePart i r) =
     bind_result (NonEmptyId i) (\<lambda>i. Inr (ToolCallResponsePart i r))"

fun v_list :: "('a \<Rightarrow> 'a result) \<Rightarrow> 'a list \<Rightarrow> 'a list result" where
  "v_list f [] = Inr []"
| "v_list f (x # xs) = bind_result (f x) (\<lambda>y. bind_result (v_list f xs) (\<lambda>ys. Inr (y # ys)))"

definition validate_message :: "inference_message \<Rightarrow> inference_message result" where
  "validate_message = v_field msg_parts msg_parts_update (v_list validate_part)"

definition validate_inference_call :: "inference_call \<Rightarrow> inference_call result" where
  "validate_inference_call = v_all
     [v_require (\<lambda>c. ic_schema_version c = 1) ''schema_version must be the integer 1'',
      v_field ic_id ic_id_update NonEmptyId,
      v_field ic_org_id ic_org_id_update OrgId,
      v_field ic_session_id ic_session_id_update NonEmptyId,
      v_field ic_user_id ic_user_id_update (v_optional NonEmptyId),
      v_field ic_model_provider ic_model_provider_update (v_optional ScalarIdentity),
      v_field ic_model ic_model_update (v_optional ModelName),
      v_field ic_input_messages ic_input_messages_update (v_list validate_message),
      v_field ic_output_messages ic_output_messages_update (v_list validate_message),
      v_field ic_input_tokens ic_input_tokens_update (v_optional Count64),
      v_field ic_output_tokens ic_output_tokens_update (v_optional Count64),
      v_field ic_duration_ms ic_duration_ms_update (v_optional Count64),
      v_field ic_model_call_id ic_model_call_id_update (v_optional NonEmptyId)]"

definition validate_developer_decision :: "developer_decision \<Rightarrow> developer_decision result" where
  "validate_developer_decision = v_all
     [v_field dd_id dd_id_update NonEmptyId,
      v_field dd_org_id dd_org_id_update OrgId,
      v_field dd_session_id dd_session_id_update NonEmptyId,
      v_field dd_user_id dd_user_id_update (v_optional NonEmptyId),
      v_field dd_file_path dd_file_path_update ScalarIdentity,
      v_field dd_commit_sha dd_commit_sha_update (v_optional normalize_commit_sha),
      v_field dd_call_id dd_call_id_update (v_optional NonEmptyId),
      v_field dd_edit_retention_score dd_edit_retention_score_update (v_optional unit_interval),
      v_field dd_observation_delay_ms dd_observation_delay_ms_update (v_optional Count64)]"

definition validate_edit_observation :: "edit_observation \<Rightarrow> edit_observation result" where
  "validate_edit_observation = v_all
     [v_field eo_id eo_id_update NonEmptyId,
      v_field eo_org_id eo_org_id_update OrgId,
      v_field eo_session_id eo_session_id_update NonEmptyId,
      v_field eo_user_id eo_user_id_update (v_optional NonEmptyId),
      v_field eo_file_path eo_file_path_update ScalarIdentity,
      v_field eo_call_id eo_call_id_update NonEmptyId,
      v_field eo_external_lines_added eo_external_lines_added_update (v_optional Count64),
      v_field eo_external_lines_removed eo_external_lines_removed_update (v_optional Count64)]"

definition validate_rejected_edit :: "rejected_edit \<Rightarrow> rejected_edit result" where
  "validate_rejected_edit = v_all
     [v_field re_id re_id_update NonEmptyId,
      v_field re_org_id re_org_id_update OrgId,
      v_field re_session_id re_session_id_update NonEmptyId,
      v_field re_user_id re_user_id_update (v_optional NonEmptyId),
      v_field re_file_path re_file_path_update ScalarIdentity,
      v_field re_call_id re_call_id_update NonEmptyId]"

text \<open>\<open>_require_file_path\<close> strips and requires a non-empty path, after \<open>ScalarIdentity\<close>.\<close>

definition validate_retry_linkage :: "retry_linkage \<Rightarrow> retry_linkage result" where
  "validate_retry_linkage = v_all
     [v_field rl_id rl_id_update NonEmptyId,
      v_field rl_org_id rl_org_id_update OrgId,
      v_field rl_session_id rl_session_id_update NonEmptyId,
      v_field rl_user_id rl_user_id_update (v_optional NonEmptyId),
      v_field rl_file_path rl_file_path_update NonEmptyId,
      v_field rl_rejected_call_id rl_rejected_call_id_update NonEmptyId,
      v_field rl_accepted_call_id rl_accepted_call_id_update NonEmptyId,
      v_require (\<lambda>r. rl_rejected_call_id r \<noteq> rl_accepted_call_id r)
        ''rejected and accepted call ids must differ'']"

definition validate_compute_allocation :: "compute_allocation \<Rightarrow> compute_allocation result" where
  "validate_compute_allocation = v_all
     [v_field ca_id ca_id_update NonEmptyId,
      v_field ca_org_id ca_org_id_update OrgId,
      v_field ca_session_id ca_session_id_update NonEmptyId,
      v_field ca_cpu_millicores ca_cpu_millicores_update (v_optional Positive64),
      v_field ca_memory_bytes ca_memory_bytes_update (v_optional Positive64),
      v_field ca_occurred_at ca_occurred_at_update utc_representable,
      v_require (\<lambda>a. ca_cpu_millicores a \<noteq> None \<or> ca_memory_bytes a \<noteq> None)
        ''compute allocation requires cpu_millicores or memory_bytes'']"

section \<open>Repository-scoped Facts\<close>

text \<open>One pass of the loop of \<open>_require_repository_components\<close> over one prefix: all three
  components or none, none on a version-1 Fact, and a provider that matches the forge's
  (\<open>forge\<close> is \<open>None\<close> where the class has no forge provider).\<close>

definition repository_components_ok ::
  "int \<Rightarrow> forge_provider option \<Rightarrow> forge_provider option \<Rightarrow> string option \<Rightarrow> string option
   \<Rightarrow> bool" where
  "repository_components_ok version forge p h i =
     (let any_present = p \<noteq> None \<or> h \<noteq> None \<or> i \<noteq> None;
          all_present = p \<noteq> None \<and> h \<noteq> None \<and> i \<noteq> None
      in (any_present \<longrightarrow> all_present) \<and> (any_present \<longrightarrow> version \<noteq> 1)
         \<and> (p \<noteq> None \<and> forge \<noteq> None \<longrightarrow> p = forge))"

definition validate_repository_fields ::
  "('a repository_fact_scheme \<Rightarrow> 'a repository_fact_scheme result) list" where
  "validate_repository_fields =
     [v_require (\<lambda>r. rf_schema_version r \<in> {1, 2}) ''schema_version must be the integer 1 or 2'',
      v_field rf_repository_host rf_repository_host_update (v_optional ForgeHost),
      v_field rf_repository_id rf_repository_id_update (v_optional ProviderRepositoryId)]"

definition require_repository_components ::
  "('a repository_fact_scheme \<Rightarrow> forge_provider option) \<Rightarrow> 'a repository_fact_scheme
   \<Rightarrow> 'a repository_fact_scheme result" where
  "require_repository_components forge =
     v_require (\<lambda>r. repository_components_ok (rf_schema_version r) (forge r)
         (rf_repository_provider r) (rf_repository_host r) (rf_repository_id r))
       ''repository identity must be wholly present or absent''"

definition validate_ci_outcome :: "ci_outcome \<Rightarrow> ci_outcome result" where
  "validate_ci_outcome = v_all (validate_repository_fields @
     [v_field ci_id ci_id_update NonEmptyId,
      v_field ci_org_id ci_org_id_update OrgId,
      v_field ci_run_id ci_run_id_update NonEmptyId,
      v_field ci_run_attempt ci_run_attempt_update (v_optional Positive64),
      v_field ci_repo ci_repo_update RepoSlug,
      v_field ci_commit_sha ci_commit_sha_update normalize_commit_sha,
      v_field ci_branch ci_branch_update BranchName,
      v_field ci_workflow_name ci_workflow_name_update stripped,
      v_field ci_workflow_id ci_workflow_id_update (v_optional NonEmptyId),
      v_field ci_workflow_path ci_workflow_path_update (v_optional WorkflowPath),
      v_field ci_run_url ci_run_url_update (v_optional non_empty_id),
      v_field ci_provider_result ci_provider_result_update (v_optional non_empty_id),
      v_field ci_error_type ci_error_type_update (v_optional non_empty_id),
      v_field ci_reason_of ci_reason_of_update (v_optional ci_reason),
      v_field ci_source_event_type ci_source_event_type_update (v_optional non_empty_id),
      v_field ci_source_spec_version ci_source_spec_version_update (v_optional non_empty_id),
      v_field ci_source_event_id ci_source_event_id_update (v_optional NonEmptyId),
      v_field ci_pr_number ci_pr_number_update (v_optional Positive64),
      require_repository_components (\<lambda>_. None)])"

definition validate_push :: "push \<Rightarrow> push result" where
  "validate_push = v_all (validate_repository_fields @
     [v_field pu_id pu_id_update NonEmptyId,
      v_field pu_org_id pu_org_id_update OrgId,
      v_field pu_repo pu_repo_update RepoSlug,
      v_field pu_ref pu_ref_update NonEmptyId,
      v_field pu_before_sha pu_before_sha_update normalize_commit_sha,
      v_field pu_after_sha pu_after_sha_update normalize_commit_sha,
      require_repository_components (\<lambda>p. Some (pu_provider p))])"

definition validate_session_commit_observation ::
  "session_commit_observation \<Rightarrow> session_commit_observation result" where
  "validate_session_commit_observation = v_all (validate_repository_fields @
     [v_field sc_id sc_id_update NonEmptyId,
      v_field sc_org_id sc_org_id_update OrgId,
      v_field sc_repo sc_repo_update RepoSlug,
      v_require (\<lambda>o'. sc_repo o' \<noteq> [])
        ''Session-to-commit observation repo must be non-empty'',
      v_field sc_commit_sha sc_commit_sha_update normalize_commit_sha,
      v_field sc_session_id sc_session_id_update NonEmptyId,
      v_field sc_source_push_id sc_source_push_id_update NonEmptyId,
      require_repository_components (\<lambda>_. None)])"

definition validate_head_repository_fields ::
  "('a head_repository_fact_scheme \<Rightarrow> 'a head_repository_fact_scheme result) list" where
  "validate_head_repository_fields = validate_repository_fields @
     [v_field hr_org_id hr_org_id_update OrgId,
      v_field hr_repo hr_repo_update RepoSlug,
      v_require (\<lambda>m. hr_repo m \<noteq> []) ''pull request identity must be non-empty'',
      v_field hr_pr_number hr_pr_number_update Positive64,
      v_field hr_head_repo hr_head_repo_update RepoSlug,
      v_require (\<lambda>m. hr_head_repo m \<noteq> []) ''pull request identity must be non-empty'',
      v_field hr_head_repository_host hr_head_repository_host_update (v_optional ForgeHost),
      v_field hr_head_repository_id hr_head_repository_id_update (v_optional ProviderRepositoryId),
      v_field hr_head_ref hr_head_ref_update BranchName,
      v_require (\<lambda>m. hr_head_ref m \<noteq> []) ''pull request identity must be non-empty'',
      v_field hr_head_sha hr_head_sha_update normalize_commit_sha,
      v_field hr_base_ref hr_base_ref_update BranchName,
      v_require (\<lambda>m. hr_base_ref m \<noteq> []) ''pull request identity must be non-empty'',
      v_field hr_base_sha hr_base_sha_update normalize_commit_sha,
      v_field hr_source_event_id hr_source_event_id_update (v_optional NonEmptyId)]"

definition require_head_repository_components ::
  "'a head_repository_fact_scheme \<Rightarrow> 'a head_repository_fact_scheme result" where
  "require_head_repository_components =
     v_require (\<lambda>m. repository_components_ok (rf_schema_version m) (Some (hr_provider m))
         (hr_head_repository_provider m) (hr_head_repository_host m) (hr_head_repository_id m))
       ''repository identity must be wholly present or absent''"

definition validate_pull_request_merge :: "pull_request_merge \<Rightarrow> pull_request_merge result" where
  "validate_pull_request_merge = v_all (validate_head_repository_fields @
     [v_field pm_id pm_id_update NonEmptyId,
      v_field pm_merge_commit_sha pm_merge_commit_sha_update normalize_commit_sha,
      require_repository_components (\<lambda>m. Some (hr_provider m)),
      require_head_repository_components])"

definition validate_pull_request_revision ::
  "pull_request_revision \<Rightarrow> pull_request_revision result" where
  "validate_pull_request_revision = v_all (validate_head_repository_fields @
     [v_field pv_id pv_id_update NonEmptyId,
      v_field pv_previous_head_sha pv_previous_head_sha_update (v_optional normalize_commit_sha),
      require_repository_components (\<lambda>m. Some (hr_provider m)),
      require_head_repository_components])"

definition validate_repository_rename :: "repository_rename \<Rightarrow> repository_rename result" where
  "validate_repository_rename = v_all
     [v_require (\<lambda>r. rr_schema_version r = 1) ''schema_version must be the integer 1'',
      v_field rr_id rr_id_update NonEmptyId,
      v_field rr_org_id rr_org_id_update OrgId,
      v_field rr_repository_host rr_repository_host_update ForgeHost,
      v_field rr_repository_id rr_repository_id_update ProviderRepositoryId,
      v_field rr_old_repo rr_old_repo_update RequiredRepoSlug,
      v_field rr_new_repo rr_new_repo_update RequiredRepoSlug,
      v_field rr_source_event_id rr_source_event_id_update (v_optional NonEmptyId),
      v_require (\<lambda>r. rr_old_repo r \<noteq> [] \<and> rr_new_repo r \<noteq> [] \<and> rr_old_repo r \<noteq> rr_new_repo r)
        ''repository rename requires distinct nonempty names'']"

definition validate_quarantine_record :: "quarantine_record \<Rightarrow> quarantine_record result" where
  "validate_quarantine_record = v_all
     [v_field qr_id qr_id_update NonEmptyId,
      v_field qr_org_id qr_org_id_update OrgId,
      v_field qr_fact_id qr_fact_id_update NonEmptyId,
      v_require (\<lambda>q. py_strip (qr_reason q) \<noteq> []) ''reason is required'']"

section \<open>Validation is a fixed point\<close>

lemma v_field_Inr:
  "v_field get upd f r = Inr r' \<longleftrightarrow> (\<exists>x. f (get r) = Inr x \<and> r' = upd (\<lambda>_. x) r)"
  by (cases "f (get r)") (auto simp: v_field_def)

lemma v_require_Inr: "v_require P msg r = Inr r' \<longleftrightarrow> P r \<and> r' = r"
  by (auto simp: v_require_def)

lemma v_list_Inr_fixed:
  assumes "\<And>x y. f x = Inr y \<Longrightarrow> f y = Inr y"
  shows "v_list f xs = Inr ys \<Longrightarrow> v_list f ys = Inr ys"
proof (induction xs arbitrary: ys)
  case (Cons x xs)
  then show ?case by (auto dest: assms)
qed simp

lemma v_all_fixed: "\<forall>f\<in>set fs. f r = Inr r \<Longrightarrow> v_all fs r = Inr r"
  by (induction fs) auto

lemma v_all_keeps:
  assumes "v_all fs r = Inr r'" "P r" "\<And>f r r'. f \<in> set fs \<Longrightarrow> f r = Inr r' \<Longrightarrow> P r \<Longrightarrow> P r'"
  shows "P r'"
  using assms
proof (induction fs arbitrary: r)
  case (Cons f fs)
  then obtain s where "f r = Inr s" "v_all fs s = Inr r'" by auto
  with Cons show ?case by (metis list.set_intros)
qed simp

definition keeps :: "('r \<Rightarrow> 'r result) \<Rightarrow> ('r \<Rightarrow> 'r result) \<Rightarrow> bool" where
  "keeps f g = (\<forall>r r'. g r = Inr r' \<and> f r = Inr r \<longrightarrow> f r' = Inr r')"

definition lens :: "('r \<Rightarrow> 'a) \<Rightarrow> (('a \<Rightarrow> 'a) \<Rightarrow> 'r \<Rightarrow> 'r) \<Rightarrow> bool" where
  "lens get upd = ((\<forall>x r. get (upd (\<lambda>_. x) r) = x) \<and> (\<forall>r. upd (\<lambda>_. get r) r = r)
     \<and> (\<forall>x y r. upd (\<lambda>_. x) (upd (\<lambda>_. y) r) = upd (\<lambda>_. x) r))"

lemma normalizer_v_all:
  assumes "list_all normalizer fs" "sorted_wrt keeps fs"
  shows "normalizer (v_all fs)"
proof
  fix r r' assume "v_all fs r = Inr r'"
  with assms have "\<forall>f\<in>set fs. f r' = Inr r'"
  proof (induction fs arbitrary: r)
    case (Cons f fs)
    then obtain s where s: "f r = Inr s" "v_all fs s = Inr r'" by auto
    with Cons.prems have "f s = Inr s" by (auto simp: normalizer_def)
    then have "f r' = Inr r'"
      by (rule v_all_keeps[OF s(2)]) (use Cons.prems in \<open>auto simp: keeps_def\<close>)
    with Cons s show ?case by auto
  qed simp
  then show "v_all fs r' = Inr r'" by (rule v_all_fixed)
qed

lemma normalizer_field: "lens get upd \<Longrightarrow> normalizer f \<Longrightarrow> normalizer (v_field get upd f)"
  by (auto simp: normalizer_def v_field_Inr lens_def)

lemma normalizer_require: "normalizer (v_require P msg)"
  by (auto simp: normalizer_def v_require_Inr)

lemma keeps_field_field:
  "lens get upd \<Longrightarrow> \<forall>x r. get (upd' (\<lambda>_. x) r) = get r \<Longrightarrow>
   keeps (v_field get upd f) (v_field get' upd' g)"
  unfolding keeps_def v_field_Inr lens_def by (metis sum.inject(2))

lemma keeps_require_field:
  "\<forall>x r. P (upd' (\<lambda>_. x) r) = P r \<Longrightarrow> keeps (v_require P msg) (v_field get' upd' g)"
  by (auto simp: keeps_def v_field_Inr v_require_Inr)

lemma keeps_require: "keeps f (v_require P msg)"
  by (auto simp: keeps_def v_require_Inr)

lemmas normalizers = normalizer_require
  scalar.normalizer_axioms non_empty.normalizer_axioms non_empty.identity.normalizer_axioms
  host.identity.normalizer_axioms repository_id.identity.normalizer_axioms reason.normalizer_axioms
  commit_sha.normalizer_axioms org.identity.normalizer_axioms slug.identity.normalizer_axioms
  required_slug.normalizer_axioms branch.identity.normalizer_axioms
  model.identity.normalizer_axioms workflow.normalizer_axioms workflow.identity.normalizer_axioms
  timestamp.normalizer_axioms bounded.normalizer_axioms unit_bounded.normalizer_axioms

lemma normalizer_optional: "normalizer f \<Longrightarrow> normalizer (v_optional f)"
  by (simp add: normalizer_def normalizer.optional_fixed_point)

lemma normalizer_list: "normalizer f \<Longrightarrow> normalizer (v_list f)"
  unfolding normalizer_def by (metis v_list_Inr_fixed)

interpretation part: normalizer validate_part
proof unfold_locales
  fix v w
  show "validate_part v = Inr w \<Longrightarrow> validate_part w = Inr w"
    by (cases v) (auto dest: non_empty.identity.fixed_point)
qed

lemmas validation_simps = lens_def normalizers normalizer_optional normalizer_list
  normalizer_field keeps_field_field keeps_require_field keeps_require
  validate_repository_fields_def validate_head_repository_fields_def
  require_repository_components_def require_head_repository_components_def
  part.normalizer_axioms

interpretation message: normalizer validate_message
  unfolding validate_message_def by (simp add: validation_simps)

interpretation inference_call_fact: normalizer validate_inference_call
  unfolding validate_inference_call_def
  by (rule normalizer_v_all) (simp_all add: validation_simps message.normalizer_axioms)

interpretation developer_decision_fact: normalizer validate_developer_decision
  unfolding validate_developer_decision_def
  by (rule normalizer_v_all) (simp_all add: validation_simps message.normalizer_axioms)

interpretation edit_observation_fact: normalizer validate_edit_observation
  unfolding validate_edit_observation_def
  by (rule normalizer_v_all) (simp_all add: validation_simps message.normalizer_axioms)

interpretation rejected_edit_fact: normalizer validate_rejected_edit
  unfolding validate_rejected_edit_def
  by (rule normalizer_v_all) (simp_all add: validation_simps message.normalizer_axioms)

interpretation retry_linkage_fact: normalizer validate_retry_linkage
  unfolding validate_retry_linkage_def
  by (rule normalizer_v_all) (simp_all add: validation_simps message.normalizer_axioms)

interpretation compute_allocation_fact: normalizer validate_compute_allocation
  unfolding validate_compute_allocation_def
  by (rule normalizer_v_all) (simp_all add: validation_simps message.normalizer_axioms)

interpretation ci_outcome_fact: normalizer validate_ci_outcome
  unfolding validate_ci_outcome_def
  by (rule normalizer_v_all) (simp_all add: validation_simps message.normalizer_axioms)

interpretation push_fact: normalizer validate_push
  unfolding validate_push_def
  by (rule normalizer_v_all) (simp_all add: validation_simps message.normalizer_axioms)

interpretation session_commit_observation_fact: normalizer validate_session_commit_observation
  unfolding validate_session_commit_observation_def
  by (rule normalizer_v_all) (simp_all add: validation_simps message.normalizer_axioms)

interpretation pull_request_merge_fact: normalizer validate_pull_request_merge
  unfolding validate_pull_request_merge_def
  by (rule normalizer_v_all) (simp_all add: validation_simps message.normalizer_axioms)

interpretation pull_request_revision_fact: normalizer validate_pull_request_revision
  unfolding validate_pull_request_revision_def
  by (rule normalizer_v_all) (simp_all add: validation_simps message.normalizer_axioms)

interpretation repository_rename_fact: normalizer validate_repository_rename
  unfolding validate_repository_rename_def
  by (rule normalizer_v_all) (simp_all add: validation_simps message.normalizer_axioms)

interpretation quarantine_record_fact: normalizer validate_quarantine_record
  unfolding validate_quarantine_record_def
  by (rule normalizer_v_all) (simp_all add: validation_simps message.normalizer_axioms)

text \<open>C39. Validation of every Fact is a fixed point: whatever a Fact class accepts and normalizes, it
  accepts again unchanged. The store validates rows on read, so this is why a stored Fact equals
  its read-back.\<close>

theorem fact_validation_fixed_point:
  "(validate_inference_call f1 = Inr g1 \<longrightarrow> validate_inference_call g1 = Inr g1)
   \<and> (validate_developer_decision f2 = Inr g2 \<longrightarrow> validate_developer_decision g2 = Inr g2)
   \<and> (validate_edit_observation f3 = Inr g3 \<longrightarrow> validate_edit_observation g3 = Inr g3)
   \<and> (validate_rejected_edit f4 = Inr g4 \<longrightarrow> validate_rejected_edit g4 = Inr g4)
   \<and> (validate_retry_linkage f5 = Inr g5 \<longrightarrow> validate_retry_linkage g5 = Inr g5)
   \<and> (validate_compute_allocation f6 = Inr g6 \<longrightarrow> validate_compute_allocation g6 = Inr g6)
   \<and> (validate_ci_outcome f7 = Inr g7 \<longrightarrow> validate_ci_outcome g7 = Inr g7)
   \<and> (validate_push f8 = Inr g8 \<longrightarrow> validate_push g8 = Inr g8)
   \<and> (validate_session_commit_observation f9 = Inr g9 \<longrightarrow>
        validate_session_commit_observation g9 = Inr g9)
   \<and> (validate_pull_request_merge f10 = Inr g10 \<longrightarrow> validate_pull_request_merge g10 = Inr g10)
   \<and> (validate_pull_request_revision f11 = Inr g11 \<longrightarrow> validate_pull_request_revision g11 = Inr g11)
   \<and> (validate_repository_rename f12 = Inr g12 \<longrightarrow> validate_repository_rename g12 = Inr g12)
   \<and> (validate_quarantine_record f13 = Inr g13 \<longrightarrow> validate_quarantine_record g13 = Inr g13)"
  by (intro conjI impI) (erule inference_call_fact.fixed_point developer_decision_fact.fixed_point
      edit_observation_fact.fixed_point rejected_edit_fact.fixed_point
      retry_linkage_fact.fixed_point compute_allocation_fact.fixed_point
      ci_outcome_fact.fixed_point push_fact.fixed_point
      session_commit_observation_fact.fixed_point pull_request_merge_fact.fixed_point
      pull_request_revision_fact.fixed_point repository_rename_fact.fixed_point
      quarantine_record_fact.fixed_point)+

definition padded_record :: quarantine_record where
  "padded_record = \<lparr>qr_id = '' q1 '', qr_org_id = ''ACME'', qr_fact_table = PUSHES,
     qr_fact_id = ''p7 '', qr_action = QUARANTINE, qr_reason = '' leak '', qr_recorded_at = 0\<rparr>"

definition normal_record :: quarantine_record where
  "normal_record = \<lparr>qr_id = ''q1'', qr_org_id = ''acme'', qr_fact_table = PUSHES,
     qr_fact_id = ''p7'', qr_action = QUARANTINE, qr_reason = '' leak '', qr_recorded_at = 0\<rparr>"

lemmas string_eval = py_strip_def py_isspace_def py_lower_def py_lower_char_def cp_def
  scalar_ok_def scalar_identity_def v_then_def non_empty_id_def normalize_org_id_def
  org_id_match_def org_id_char_def ascii_lower_alnum_def

theorem fact_validation_fixed_point_witness:
  "validate_quarantine_record padded_record = Inr normal_record
   \<and> validate_quarantine_record normal_record = Inr normal_record"
proof -
  have "validate_quarantine_record padded_record = Inr normal_record"
    by (simp add: validate_quarantine_record_def padded_record_def normal_record_def v_field_def
        v_require_def string_eval char_of_eq_iff take_bit_eq_mod)
  with fact_validation_fixed_point[where ?f13.0 = padded_record and ?g13.0 = normal_record]
  show ?thesis by simp
qed

end
