(* ===== verification/Similarity.thy ===== *)
theory Similarity
  imports Sediment_Prelude
begin

text \<open>
  \<open>packages/derive/sediment_derive/similarity.py\<close>, \<open>scoring.py\<close> and \<open>survival_scoring.py\<close>: the
  token scanner, the Jaccard score, and the character four-gram scores. Scores are binary64
  values, so every division is followed by \<open>fl64\<close>.

  The \<open>Scorer\<close> protocol is the locale \<open>token_scorer\<close>: what attribution relies on is that a score
  lies in the unit interval. \<open>JaccardScorer\<close> is its interpretation.
\<close>

section \<open>Rounding a ratio\<close>

definition true_div :: "nat \<Rightarrow> nat \<Rightarrow> rat" where
  "true_div a b = fl64 (of_nat a / of_nat b)"

lemma true_div_nonneg [simp]: "0 \<le> true_div a b"
  by (simp add: true_div_def)

lemma true_div_le_1 [simp]: "a \<le> b \<Longrightarrow> true_div a b \<le> 1"
  using fl64_mono[of "of_nat a / of_nat b" 1] by (cases "b = 0") (auto simp: true_div_def divide_le_eq)

lemma true_div_mono: "a \<le> a' \<Longrightarrow> true_div a b \<le> true_div a' b"
  by (auto simp: true_div_def intro!: fl64_mono divide_right_mono)

lemma true_div_self [simp]: "0 < a \<Longrightarrow> true_div a a = 1"
  by (simp add: true_div_def)

lemma true_div_0 [simp]: "true_div 0 b = 0"
  by (simp add: true_div_def)

lemma fl64_pos:
  assumes "2 powi (-1074) \<le> x"
  shows "0 < fl64 x"
proof -
  have x: "0 < x" using assms by (rule less_le_trans[rotated]) simp
  have "(2 :: rat) powi (ilog2 x - 52) \<le> 2 powi (ilog2 x)"
    by (intro power_int_increasing) auto
  also have "\<dots> \<le> x" by (rule ilog2_bounds[OF x])
  finally have "of_int 1 * fl_quantum x \<le> x"
    using assms by (simp add: fl_quantum_def max_def)
  from fl64_ge_grid[OF x this] show ?thesis
    using fl_quantum_pos[of x] by linarith
qed

lemma true_div_pos:
  assumes "0 < a" "0 < b" "b \<le> 2 ^ 1074"
  shows "0 < true_div a b"
proof -
  have "(2 :: rat) powi (-1074) = 1 / of_nat (2 ^ 1074)"
    by (simp only: power_int_minus power_int_numeral of_nat_power of_nat_numeral inverse_eq_divide)
  also have "\<dots> \<le> of_nat a / of_nat b"
    using assms by (intro frac_le) (simp_all only: of_nat_le_iff of_nat_0_less_iff of_nat_0_le_iff
        One_nat_def Suc_le_eq flip: of_nat_1)
  finally show ?thesis unfolding true_div_def by (rule fl64_pos)
qed

lemma true_div_less_1:
  assumes "a < b" "b \<le> 2 ^ 53"
  shows "true_div a b < 1"
proof -
  have top: "fl64 (9007199254740991 / 9007199254740992) = 9007199254740991 / 9007199254740992"
    by code_simp
  have "a * 9007199254740992 \<le> 9007199254740991 * b"
    using assms by simp
  then have "(of_nat (a * 9007199254740992) :: rat) \<le> of_nat (9007199254740991 * b)"
    by (simp only: of_nat_le_iff)
  then have "(of_nat a :: rat) / of_nat b \<le> 9007199254740991 / 9007199254740992"
    using assms by (simp add: divide_le_eq)
  from fl64_mono[OF this] show ?thesis by (simp add: true_div_def top)
qed

section \<open>similarity.py\<close>

definition ident_start :: "char \<Rightarrow> bool" where
  "ident_start c = ((97 \<le> cp c \<and> cp c \<le> 122) \<or> (65 \<le> cp c \<and> cp c \<le> 90) \<or> c = CHR ''_'')"

definition digit_char :: "char \<Rightarrow> bool" where
  "digit_char c = (48 \<le> cp c \<and> cp c \<le> 57)"

definition ident_char :: "char \<Rightarrow> bool" where
  "ident_char c = (ident_start c \<or> digit_char c)"

text \<open>\<open>re.findall(r"[a-zA-Z_][a-zA-Z0-9_]*|[0-9]+", text)\<close>: at each position the first
  alternative that matches takes the longest run, and scanning resumes after it.\<close>

function findall_tokens :: "string \<Rightarrow> string list" where
  "findall_tokens [] = []"
| "findall_tokens (c # cs) =
     (if ident_start c
      then (c # takeWhile ident_char cs) # findall_tokens (dropWhile ident_char cs)
      else if digit_char c
      then (c # takeWhile digit_char cs) # findall_tokens (dropWhile digit_char cs)
      else findall_tokens cs)"
  by pat_completeness auto
termination
  by (relation "measure length") (auto simp: length_dropWhile_le le_imp_less_Suc)

definition tokenize :: "string \<Rightarrow> string set" where
  "tokenize text = set (map py_lower (filter (\<lambda>t. t \<noteq> []) (findall_tokens text)))"

definition jaccard_tokens :: "string set \<Rightarrow> string set \<Rightarrow> rat" where
  "jaccard_tokens tokens_a tokens_b =
     (if tokens_a = {} \<and> tokens_b = {} then 0
      else true_div (card (tokens_a \<inter> tokens_b)) (card (tokens_a \<union> tokens_b)))"

section \<open>scoring.py\<close>

locale token_scorer =
  fixes score :: "string set \<Rightarrow> string set \<Rightarrow> rat"
  assumes score_nonneg: "finite a \<Longrightarrow> finite b \<Longrightarrow> 0 \<le> score a b"
    and score_le_1: "finite a \<Longrightarrow> finite b \<Longrightarrow> score a b \<le> 1"

lemma finite_tokenize [simp]: "finite (tokenize text)"
  by (simp add: tokenize_def)

lemma card_inter_le_union: "finite a \<Longrightarrow> finite b \<Longrightarrow> card (a \<inter> b) \<le> card (a \<union> b)"
  by (intro card_mono) auto

interpretation jaccard: token_scorer jaccard_tokens
  by unfold_locales (auto simp: jaccard_tokens_def card_inter_le_union)

section \<open>survival\_scoring.py\<close>

definition FOUR_GRAM_SIZE :: nat where
  "FOUR_GRAM_SIZE = 4"

definition character_ngrams :: "string \<Rightarrow> nat \<Rightarrow> string list" where
  "character_ngrams text n =
     map (\<lambda>i. take n (drop i text)) [0..<length text + 1 - n]"

text \<open>\<open>Counter.items()\<close> of a generated sequence.\<close>

definition counter_items :: "'a list \<Rightarrow> ('a \<times> nat) list" where
  "counter_items xs = map (\<lambda>g. (g, count_list xs g)) (remdups xs)"

fun py_in :: "string \<Rightarrow> string \<Rightarrow> bool" where
  "py_in x [] = (x = [])"
| "py_in x (c # cs) = (take (length x) (c # cs) = x \<or> py_in x cs)"

definition matched_grams :: "string list \<Rightarrow> string list \<Rightarrow> nat" where
  "matched_grams applied_grams observed_grams =
     sum_list (map (\<lambda>(gram, count). min count (count_list observed_grams gram))
       (counter_items applied_grams))"

definition four_gram_containment :: "string \<Rightarrow> string \<Rightarrow> rat" where
  "four_gram_containment applied_text observed_file_text =
     (if applied_text = [] then 1
      else if observed_file_text = [] then 0
      else if length applied_text < FOUR_GRAM_SIZE
      then (if py_in applied_text observed_file_text then 1 else 0)
      else let applied_grams = character_ngrams applied_text FOUR_GRAM_SIZE;
               total = sum_list (map snd (counter_items applied_grams))
           in if length observed_file_text < FOUR_GRAM_SIZE then 0
              else true_div (matched_grams applied_grams
                     (character_ngrams observed_file_text FOUR_GRAM_SIZE)) total)"

definition different_grams :: "string list \<Rightarrow> string list \<Rightarrow> nat" where
  "different_grams applied_grams observed_grams =
     sum_list (map (\<lambda>gram. nat \<bar>int (count_list applied_grams gram) - int (count_list observed_grams gram)\<bar>)
       (remdups (applied_grams @ observed_grams)))"

definition four_gram_survival :: "string \<Rightarrow> string \<Rightarrow> rat" where
  "four_gram_survival applied_text observed_file_text =
     (if length applied_text < FOUR_GRAM_SIZE \<or> length observed_file_text < FOUR_GRAM_SIZE
      then (if applied_text = observed_file_text then 1 else 0)
      else let applied_grams = character_ngrams applied_text FOUR_GRAM_SIZE;
               observed_grams = character_ngrams observed_file_text FOUR_GRAM_SIZE;
               total_gram_count = sum_list (map snd (counter_items applied_grams))
                 + sum_list (map snd (counter_items observed_grams));
               different_gram_count = different_grams applied_grams observed_grams
           in true_div (total_gram_count - different_gram_count) total_gram_count)"

section \<open>Properties of the token scanner\<close>

lemma findall_tokens_chars:
  "t \<in> set (findall_tokens s) \<Longrightarrow> t \<noteq> [] \<and> (\<forall>c\<in>set t. ident_char c) \<and> set t \<subseteq> set s"
proof (induction s rule: findall_tokens.induct)
  case (2 c cs)
  then show ?case
    by (auto simp: ident_char_def split: if_splits dest!: set_takeWhileD dest: set_dropWhileD)
qed simp

lemma takeWhile_sep: "\<not> P d \<Longrightarrow> takeWhile P (xs @ d # ys) = takeWhile P xs"
  by (induction xs) auto

lemma dropWhile_sep: "\<not> P d \<Longrightarrow> dropWhile P (xs @ d # ys) = dropWhile P xs @ d # ys"
  by (induction xs) auto

lemma findall_tokens_sep:
  assumes "\<not> ident_char d"
  shows "findall_tokens (xs @ d # ys) = findall_tokens xs @ findall_tokens ys"
  using assms
proof (induction xs rule: findall_tokens.induct)
  case 1
  then show ?case by (simp add: ident_char_def)
next
  case (2 c cs)
  then have "\<not> digit_char d" by (simp add: ident_char_def)
  with 2 show ?case by (simp add: takeWhile_sep dropWhile_sep)
qed

lemma tokenize_sep:
  "\<not> ident_char d \<Longrightarrow> tokenize (xs @ d # ys) = tokenize xs \<union> tokenize ys"
  by (auto simp: tokenize_def findall_tokens_sep)

section \<open>Properties of the Jaccard score\<close>

lemma jaccard_commute: "jaccard_tokens a b = jaccard_tokens b a"
  by (auto simp: jaccard_tokens_def Int_commute Un_commute)

lemma jaccard_eq_0_iff:
  assumes "finite a" "finite b" "card (a \<union> b) \<le> 2 ^ 1074"
  shows "jaccard_tokens a b = 0 \<longleftrightarrow> a \<inter> b = {}"
proof (cases "a \<inter> b = {}")
  case False
  then have "0 < card (a \<inter> b)" "0 < card (a \<union> b)" using assms by (auto simp: card_gt_0_iff)
  with assms(3) have "0 < true_div (card (a \<inter> b)) (card (a \<union> b))" by (intro true_div_pos) auto
  with False show ?thesis by (auto simp: jaccard_tokens_def)
qed (simp add: jaccard_tokens_def)

lemma jaccard_eq_1_iff:
  assumes "finite a" "finite b" "card (a \<union> b) \<le> 2 ^ 53"
  shows "jaccard_tokens a b = 1 \<longleftrightarrow> a = b \<and> a \<noteq> {}"
proof (cases "a = b")
  case True
  then show ?thesis using assms by (auto simp: jaccard_tokens_def card_gt_0_iff)
next
  case False
  then have "a \<inter> b \<subset> a \<union> b" by blast
  then have "card (a \<inter> b) < card (a \<union> b)" using assms by (intro psubset_card_mono) auto
  with assms(3) have "true_div (card (a \<inter> b)) (card (a \<union> b)) < 1" by (intro true_div_less_1) auto
  with False show ?thesis by (auto simp: jaccard_tokens_def)
qed

section \<open>Properties of the four-gram scores\<close>

lemma count_list_mset: "count_list xs x = count (mset xs) x"
  by (induction xs) auto

lemma sum_counter_items: "sum_list (map snd (counter_items xs)) = length xs"
proof -
  have "sum_list (map snd (counter_items xs)) = (\<Sum>g\<in>set xs. count (mset xs) g)"
    by (simp add: counter_items_def comp_def count_list_mset sum_list_distinct_conv_sum_set)
  then show ?thesis by (simp add: size_multiset_overloaded_eq flip: size_mset)
qed

lemma matched_grams_inter: "matched_grams xs ys = size (mset xs \<inter># mset ys)"
proof -
  have "matched_grams xs ys = (\<Sum>g\<in>set xs. count (mset xs \<inter># mset ys) g)"
    by (simp add: matched_grams_def counter_items_def comp_def count_list_mset
        sum_list_distinct_conv_sum_set)
  also have "\<dots> = (\<Sum>g\<in>set_mset (mset xs \<inter># mset ys). count (mset xs \<inter># mset ys) g)"
    by (intro sum.mono_neutral_right) (auto simp: count_eq_zero_iff)
  finally show ?thesis by (simp add: size_multiset_overloaded_eq)
qed

lemma matched_grams_le: "matched_grams xs ys \<le> length xs"
  using size_mset_mono[of "mset xs \<inter># mset ys" "mset xs"] by (simp add: matched_grams_inter)

lemma different_grams_inter:
  "different_grams xs ys + 2 * size (mset xs \<inter># mset ys) = length xs + length ys"
proof -
  let ?A = "mset xs" and ?B = "mset ys" and ?S = "set xs \<union> set ys"
  have d: "different_grams xs ys = (\<Sum>g\<in>?S. nat \<bar>int (count ?A g) - int (count ?B g)\<bar>)"
    by (simp add: different_grams_def count_list_mset sum_list_distinct_conv_sum_set)
  have i: "size (?A \<inter># ?B) = (\<Sum>g\<in>?S. min (count ?A g) (count ?B g))"
    unfolding size_multiset_overloaded_eq
    by (rule sum.mono_neutral_cong_left) (auto simp: count_eq_zero_iff in_multiset_in_set count_list_0_iff
        simp flip: count_list_mset, (metis count_list_0_iff less_numeral_extra(3))+)
  have s: "length zs = (\<Sum>g\<in>?S. count (mset zs) g)" if "set zs \<subseteq> ?S" for zs
    unfolding size_mset[symmetric] size_multiset_overloaded_eq using that
    by (intro sum.mono_neutral_cong_left) (auto simp: count_eq_zero_iff)
  show ?thesis
    unfolding d i s[of xs, simplified] s[of ys, simplified] sum_distrib_left sum.distrib[symmetric]
    by (rule sum.cong) auto
qed

lemma four_gram_survival_inter:
  assumes "4 \<le> length a" "4 \<le> length b"
  shows "four_gram_survival a b =
    true_div (2 * size (mset (character_ngrams a 4) \<inter># mset (character_ngrams b 4)))
      (length (character_ngrams a 4) + length (character_ngrams b 4))"
proof -
  let ?A = "character_ngrams a 4" and ?B = "character_ngrams b 4"
  have "length ?A + length ?B - different_grams ?A ?B = 2 * size (mset ?A \<inter># mset ?B)"
    using different_grams_inter[of ?A ?B] by linarith
  with assms show ?thesis
    by (simp add: four_gram_survival_def FOUR_GRAM_SIZE_def Let_def sum_counter_items)
qed

lemma length_character_ngrams: "length (character_ngrams text n) = length text + 1 - n"
  by (simp add: character_ngrams_def)

lemma character_ngrams_Cons:
  "0 < n \<Longrightarrow> n \<le> Suc (length cs) \<Longrightarrow>
   character_ngrams (c # cs) n = take n (c # cs) # character_ngrams cs n"
  by (simp add: character_ngrams_def upt_conv_Cons Suc_diff_le map_Suc_upt[symmetric] comp_def del: upt_Suc)

lemma character_ngrams_short: "length text < n \<Longrightarrow> character_ngrams text n = []"
  by (simp add: character_ngrams_def)

lemma mset_character_ngrams_context:
  "mset (character_ngrams o' n) \<subseteq># mset (character_ngrams (pre @ o' @ post) n)"
proof (cases "n \<le> length o'")
  case True
  let ?f = "\<lambda>i. take n (drop i (pre @ o' @ post))" and ?m = "length o' + 1 - n"
  have "character_ngrams o' n = map (\<lambda>i. ?f (i + length pre)) [0..<?m]"
    unfolding character_ngrams_def using True by (intro map_cong) auto
  also have "\<dots> = map ?f (map (\<lambda>i. i + length pre) [0..<?m])"
    by (simp only: map_map comp_def)
  also have "\<dots> = map ?f [length pre..<?m + length pre]"
    by (simp only: map_add_upt add_0_left)
  finally have "mset (character_ngrams o' n) = image_mset ?f (mset [length pre..<?m + length pre])"
    by (simp only: mset_map)
  moreover have "mset [length pre..<?m + length pre] \<subseteq># mset [0..<length (pre @ o' @ post) + 1 - n]"
    using True by (simp add: subset_imp_msubset_mset_set flip: mset_set_upto_eq_mset_upto del: upt_Suc)
      linarith
  ultimately show ?thesis
    by (simp add: character_ngrams_def image_mset_subseteq_mono)
qed (simp add: character_ngrams_short)

lemma py_in_append: "py_in x ys \<Longrightarrow> py_in x (pre @ ys @ post)"
proof (induction pre)
  case Nil
  then show ?case
  proof (induction ys)
    case Nil
    then show ?case by (cases post) auto
  next
    case (Cons y ys)
    have "take (length x) ((y # ys) @ post) = x" if "take (length x) (y # ys) = x"
      using that by (metis append_eq_conv_conj append_assoc append_take_drop_id)
    with Cons show ?case by auto
  qed
qed auto

lemma py_in_self: "py_in x x"
  by (cases x) auto

lemma four_gram_containment_context:
  "four_gram_containment a ob \<le> four_gram_containment a (pre @ ob @ post)"
proof (cases "a = [] \<or> ob = []")
  case True
  then show ?thesis by (auto simp: four_gram_containment_def Let_def)
next
  case False
  let ?G = "\<lambda>t. mset (character_ngrams t FOUR_GRAM_SIZE)"
  have "size (?G a \<inter># ?G ob) \<le> size (?G a \<inter># ?G (pre @ ob @ post))"
    by (intro size_mset_mono subset_mset.inf_mono mset_character_ngrams_context) simp
  with False show ?thesis
    by (auto simp: four_gram_containment_def Let_def matched_grams_inter py_in_append
        intro!: true_div_mono)
qed

lemma four_gram_containment_bounds:
  "0 \<le> four_gram_containment a ob" "four_gram_containment a ob \<le> 1"
  by (auto simp: four_gram_containment_def Let_def sum_counter_items matched_grams_le)

lemma four_gram_containment_self: "four_gram_containment a a = 1"
  by (auto simp: four_gram_containment_def Let_def sum_counter_items matched_grams_inter py_in_self
      length_character_ngrams FOUR_GRAM_SIZE_def)

section \<open>The scores as the callers rely on them\<close>

text \<open>The edit-retention scorer is directional containment: text that survives verbatim scores
  exactly 1.0 however much unrelated content surrounds it, the score always lies in the unit
  interval, and surrounding an observed file with more content never lowers the score.\<close>

theorem four_gram_containment_contract:
  "four_gram_containment a (pre @ a @ post) = 1
   \<and> 0 \<le> four_gram_containment a ob \<and> four_gram_containment a ob \<le> 1
   \<and> four_gram_containment a ob \<le> four_gram_containment a (pre @ ob @ post)"
proof -
  have "four_gram_containment a a \<le> four_gram_containment a (pre @ a @ post)"
    by (rule four_gram_containment_context)
  with four_gram_containment_bounds(2)[of a "pre @ a @ post"]
  have "four_gram_containment a (pre @ a @ post) = 1"
    by (simp add: four_gram_containment_self)
  then show ?thesis
    using four_gram_containment_bounds four_gram_containment_context by blast
qed

text \<open>The Copilot-compatible score is symmetric, lies in the unit interval, is 1.0 on identical
  texts, and on texts of at least four characters is the rounded ratio of twice the shared
  four-grams (as multisets) to all four-grams: the subtraction in the code never underflows.\<close>

theorem four_gram_survival_contract:
  "four_gram_survival a b = four_gram_survival b a
   \<and> 0 \<le> four_gram_survival a b \<and> four_gram_survival a b \<le> 1 \<and> four_gram_survival a a = 1
   \<and> (4 \<le> length a \<and> 4 \<le> length b \<longrightarrow>
      four_gram_survival a b =
        true_div (2 * size (mset (character_ngrams a 4) \<inter># mset (character_ngrams b 4)))
          (length (character_ngrams a 4) + length (character_ngrams b 4)))"
proof (cases "4 \<le> length a \<and> 4 \<le> length b")
  case True
  let ?A = "mset (character_ngrams a 4)" and ?B = "mset (character_ngrams b 4)"
  have "size (?A \<inter># ?B) \<le> size ?A" "size (?A \<inter># ?B) \<le> size ?B"
    by (intro size_mset_mono; simp)+
  then have "2 * size (?A \<inter># ?B) \<le> length (character_ngrams a 4) + length (character_ngrams b 4)"
    by simp
  moreover have "true_div (2 * length (character_ngrams a 4)) (2 * length (character_ngrams a 4)) = 1"
    using True by (intro true_div_self) (simp add: length_character_ngrams)
  ultimately show ?thesis
    using True by (simp add: four_gram_survival_inter subset_mset.inf_commute add.commute mult_2)
next
  case False
  then show ?thesis
    by (auto simp: four_gram_survival_def FOUR_GRAM_SIZE_def Let_def sum_counter_items
        different_grams_def length_character_ngrams)
qed

theorem four_gram_survival_contract_witness:
  "four_gram_survival ''hello'' ''Hello'' = four_gram_survival ''Hello'' ''hello''
   \<and> four_gram_survival ''hello'' ''Hello'' =
       true_div (2 * size (mset (character_ngrams ''hello'' 4) \<inter># mset (character_ngrams ''Hello'' 4)))
         (length (character_ngrams ''hello'' 4) + length (character_ngrams ''Hello'' 4))"
  using four_gram_survival_contract[of "''hello''" "''Hello''"] by simp

text \<open>The Jaccard score of two token sets is symmetric and lies in the unit interval; it is 0.0
  exactly on disjoint sets and 1.0 exactly on equal non-empty sets. The last two hold for the
  rounded quotient as long as the union has at most \<open>2 ^ 53\<close> tokens.\<close>

theorem jaccard_contract:
  assumes "finite a" "finite b" "card (a \<union> b) \<le> 2 ^ 53"
  shows "jaccard_tokens a b = jaccard_tokens b a \<and> 0 \<le> jaccard_tokens a b \<and> jaccard_tokens a b \<le> 1
     \<and> (jaccard_tokens a b = 0 \<longleftrightarrow> a \<inter> b = {})
     \<and> (jaccard_tokens a b = 1 \<longleftrightarrow> a = b \<and> a \<noteq> {})"
proof -
  have "card (a \<union> b) \<le> 2 ^ 1074"
    using assms(3) power_increasing[of 53 1074 "2 :: nat"] by linarith
  then show ?thesis
    using assms jaccard_commute[of a b] jaccard.score_nonneg[of a b] jaccard.score_le_1[of a b]
      jaccard_eq_0_iff[of a b] jaccard_eq_1_iff[of a b] by blast
qed

theorem jaccard_contract_witness:
  "jaccard_tokens (tokenize ''def add(x, y)'') (tokenize ''add(y)'') \<noteq> 0
   \<and> jaccard_tokens (tokenize ''def add(x, y)'') (tokenize ''add(y)'') \<noteq> 1"
proof -
  let ?a = "tokenize ''def add(x, y)''" and ?b = "tokenize ''add(y)''"
  have tok: "?a = {''def'', ''add'', ''x'', ''y''}" "?b = {''add'', ''y''}" by code_simp+
  have "?a \<union> ?b = {''def'', ''add'', ''x'', ''y''}" by (auto simp: tok)
  then have "card (?a \<union> ?b) \<le> 2 ^ 53" by simp
  note c = jaccard_contract[OF finite_tokenize finite_tokenize this]
  have "''add'' \<in> ?a" "''add'' \<in> ?b" "''x'' \<in> ?a" "''x'' \<notin> ?b" by (simp_all add: tok)
  then have "?a \<inter> ?b \<noteq> {}" "?a \<noteq> ?b" by blast+
  with c show ?thesis by blast
qed

end
