(* ===== verification/Inference_Call.thy ===== *)
theory Inference_Call
  imports Fact_Models Similarity
begin

text \<open>
  \<open>packages/derive/sediment_derive/inference_call.py\<close>: the pure views over an Inference call.
  Derivations accept either the full Fact or the store's identity projection; \<open>call_view\<close> is that
  union. The scoring text of a call joins its output texts and tool-argument strings with line
  feeds; the main fact is that the join neither fuses nor splits tokens.
\<close>

record inference_call_identity =
  ii_id :: string
  ii_org_id :: string
  ii_session_id :: string
  ii_observed_at :: instant
  ii_call_ids :: "string list"

datatype call_view = FullCall inference_call | CallIdentity inference_call_identity

fun inference_fact_id :: "call_view \<Rightarrow> string" where
  "inference_fact_id (FullCall c) = ic_id c"
| "inference_fact_id (CallIdentity i) = ii_id i"

fun view_org_id :: "call_view \<Rightarrow> string" where
  "view_org_id (FullCall c) = ic_org_id c"
| "view_org_id (CallIdentity i) = ii_org_id i"

fun view_session_id :: "call_view \<Rightarrow> string" where
  "view_session_id (FullCall c) = ic_session_id c"
| "view_session_id (CallIdentity i) = ii_session_id i"

definition inference_observed_at :: "inference_call \<Rightarrow> instant" where
  "inference_observed_at call = ic_observed_at call"

text \<open>\<open>_string_leaves\<close>: object values in the order of the sorted keys.\<close>

fun string_leaves :: "json \<Rightarrow> string list" where
  "string_leaves (JStr s) = [s]"
| "string_leaves (JObj kvs) =
     concat (map snd (sort_key fst (map (\<lambda>(k, v). (k, string_leaves v)) kvs)))"
| "string_leaves (JList xs) = concat (map string_leaves xs)"
| "string_leaves JNull = []"
| "string_leaves (JBool b) = []"
| "string_leaves (JInt i) = []"
| "string_leaves (JFloat x) = []"

fun scoring_items_of_part :: "part \<Rightarrow> string list" where
  "scoring_items_of_part (TextPart content) = [content]"
| "scoring_items_of_part (ReasoningPart content) = []"
| "scoring_items_of_part (ToolCallPart i n arguments) = string_leaves (JObj arguments)"
| "scoring_items_of_part (ToolCallResponsePart i r) = []"

definition scoring_items :: "inference_call \<Rightarrow> string list" where
  "scoring_items call =
     concat (map (\<lambda>message. concat (map scoring_items_of_part (msg_parts message)))
       (ic_output_messages call))"

fun join_lines :: "string list \<Rightarrow> string" where
  "join_lines [] = []"
| "join_lines [x] = x"
| "join_lines (x # y # ys) = x @ CHR 0x0A # join_lines (y # ys)"

definition render_scoring_text :: "inference_call \<Rightarrow> string" where
  "render_scoring_text call = join_lines (filter (\<lambda>item. item \<noteq> []) (scoring_items call))"

definition inference_tool_calls :: "inference_call \<Rightarrow> part list" where
  "inference_tool_calls call =
     concat (map (\<lambda>message. filter is_ToolCallPart (msg_parts message)) (ic_output_messages call))"

fun model_call_ids :: "call_view \<Rightarrow> string set" where
  "model_call_ids (CallIdentity i) = set (ii_call_ids i)"
| "model_call_ids (FullCall call) =
     set (map part_id (inference_tool_calls call))
       \<union> (case ic_model_call_id call of None \<Rightarrow> {} | Some k \<Rightarrow> {k})"

definition inference_input_messages :: "inference_call \<Rightarrow> inference_message list" where
  "inference_input_messages call = ic_input_messages call"

lemma newline_not_ident: "\<not> ident_char (CHR 0x0A)"
  by (simp add: ident_char_def ident_start_def digit_char_def cp_def)

lemma tokenize_Nil [simp]: "tokenize [] = {}"
  by (simp add: tokenize_def)

lemma tokenize_join_lines: "tokenize (join_lines xs) = (\<Union>x\<in>set xs. tokenize x)"
  by (induction xs rule: join_lines.induct) (auto simp: tokenize_sep newline_not_ident)

text \<open>The token set a call is scored by is exactly the union of the token sets of its output
  texts and of the string leaves of its tool-call arguments: joining the pieces with line feeds
  neither fuses nor splits a token, and readable reasoning and tool-call responses contribute
  nothing.\<close>

theorem scoring_tokens:
  "tokenize (render_scoring_text call) =
     (\<Union>message\<in>set (ic_output_messages call). \<Union>p\<in>set (msg_parts message).
        case p of TextPart content \<Rightarrow> tokenize content
                | ReasoningPart content \<Rightarrow> {}
                | ToolCallPart i n arguments \<Rightarrow> (\<Union>s\<in>set (string_leaves (JObj arguments)). tokenize s)
                | ToolCallResponsePart i r \<Rightarrow> {})"
proof -
  have "tokenize (render_scoring_text call) = (\<Union>x\<in>set (scoring_items call). tokenize x)"
    by (auto simp: render_scoring_text_def tokenize_join_lines)
  also have "\<dots> = (\<Union>message\<in>set (ic_output_messages call). \<Union>p\<in>set (msg_parts message).
      \<Union>x\<in>set (scoring_items_of_part p). tokenize x)"
    by (simp add: scoring_items_def)
  also have "\<dots> = (\<Union>message\<in>set (ic_output_messages call). \<Union>p\<in>set (msg_parts message).
        case p of TextPart content \<Rightarrow> tokenize content
                | ReasoningPart content \<Rightarrow> {}
                | ToolCallPart i n arguments \<Rightarrow> (\<Union>s\<in>set (string_leaves (JObj arguments)). tokenize s)
                | ToolCallResponsePart i r \<Rightarrow> {})"
    by (intro SUP_cong refl) (simp split: part.splits del: string_leaves.simps)
  finally show ?thesis .
qed

end
