(* ===== verification/Decision_Attachment.thy ===== *)
theory Decision_Attachment
  imports Inference_Call
begin

text \<open>
  The decision half of \<open>packages/derive/sediment_derive/attachment.py\<close>: the collapse of Codex
  redeliveries (\<open>drop_subsumed_codex_decisions\<close>) and the unique-or-drop join of Developer
  decisions to Inference calls (\<open>join_decisions_by_call_id_result\<close>).

  The loop of the join is a fold over a result record; \<open>attachment_outcome\<close> is the
  \<open>if\<close>/\<open>elif\<close> chain of its body. The lemmas express the fold through that classification:
  what is attached to a call, what is counted, and that neither depends on input order.
\<close>

section \<open>Codex redeliveries\<close>

type_synonym decision_key =
  "string \<times> string \<times> bool \<times> bool \<times> interaction_mode \<times> instant \<times> string option"

definition codex_key :: "developer_decision \<Rightarrow> decision_key" where
  "codex_key d =
     (dd_org_id d, dd_session_id d, dd_accepted d, dd_explicit d, dd_interaction_mode d,
      dd_occurred_at d, dd_call_id d)"

definition codex_keyed :: "developer_decision \<Rightarrow> bool" where
  "codex_keyed d = (dd_agent_harness d = CODEX \<and> dd_call_id d \<noteq> None \<and> dd_file_path d \<noteq> [])"

definition drop_subsumed_codex_decisions :: "developer_decision list \<Rightarrow> developer_decision list" where
  "drop_subsumed_codex_decisions decisions =
     (let keyed_groups = set (map codex_key (filter codex_keyed decisions))
      in filter (\<lambda>d. \<not> (dd_agent_harness d = CODEX \<and> dd_file_path d = [] \<and> dd_call_id d \<noteq> None
           \<and> codex_key d \<in> keyed_groups)) decisions)"

section \<open>Unique-or-drop\<close>

datatype decision_skip_reason = missing_decision_call_id | unmatched_decision_call_id
  | ambiguous_decision_call_id | decision_org_mismatch | decision_session_mismatch

record decision_attachment_result =
  da_decisions_by_completion :: "(string \<times> developer_decision list) list"
  da_skipped :: "decision_skip_reason counter"

text \<open>\<open>completions_by_call_id[call_id]\<close> after the first loop: the calls reachable under the id, in
  input order. A call contributes one entry per distinct id.\<close>

definition completions_by_call_id :: "call_view list \<Rightarrow> string \<Rightarrow> call_view list" where
  "completions_by_call_id completions call_id =
     filter (\<lambda>c. call_id \<in> model_call_ids c) completions"

definition attachment_outcome ::
  "call_view list \<Rightarrow> developer_decision \<Rightarrow> decision_skip_reason + string" where
  "attachment_outcome completions d =
     (case dd_call_id d of
        None \<Rightarrow> Inl missing_decision_call_id
      | Some call_id \<Rightarrow>
         (case completions_by_call_id completions call_id of
            [] \<Rightarrow> Inl unmatched_decision_call_id
          | c # others \<Rightarrow>
             if others \<noteq> [] then Inl ambiguous_decision_call_id
             else if view_org_id c \<noteq> dd_org_id d then Inl decision_org_mismatch
             else if view_session_id c \<noteq> dd_session_id d then Inl decision_session_mismatch
             else Inr (inference_fact_id c)))"

definition attach_step ::
  "call_view list \<Rightarrow> developer_decision \<Rightarrow> decision_attachment_result \<Rightarrow> decision_attachment_result"
where
  "attach_step completions d r =
     (case attachment_outcome completions d of
        Inr fact_id \<Rightarrow>
          r\<lparr>da_decisions_by_completion := dict_append fact_id d (da_decisions_by_completion r)\<rparr>
      | Inl reason \<Rightarrow> r\<lparr>da_skipped := ctr_incr reason (da_skipped r)\<rparr>)"

definition decision_order :: "developer_decision \<Rightarrow> instant \<times> string" where
  "decision_order d = (dd_occurred_at d, dd_id d)"

definition join_decisions_by_call_id_result ::
  "call_view list \<Rightarrow> developer_decision list \<Rightarrow> decision_attachment_result" where
  "join_decisions_by_call_id_result completions decisions =
     (let r = fold (attach_step completions) (drop_subsumed_codex_decisions decisions)
                \<lparr>da_decisions_by_completion = [], da_skipped = ctr_empty\<rparr>
      in r\<lparr>da_decisions_by_completion :=
             map (\<lambda>(k, attached). (k, sort_key decision_order attached))
               (da_decisions_by_completion r)\<rparr>)"

definition join_decisions_by_call_id ::
  "call_view list \<Rightarrow> developer_decision list \<Rightarrow> (string \<times> developer_decision list) list" where
  "join_decisions_by_call_id completions decisions =
     da_decisions_by_completion (join_decisions_by_call_id_result completions decisions)"

section \<open>The join through its classification\<close>

definition attached_to ::
  "call_view list \<Rightarrow> developer_decision list \<Rightarrow> string \<Rightarrow> developer_decision list" where
  "attached_to completions decisions fact_id =
     dict_get (da_decisions_by_completion (join_decisions_by_call_id_result completions decisions))
       fact_id []"

definition attach_all :: "call_view list \<Rightarrow> developer_decision list \<Rightarrow> decision_attachment_result" where
  "attach_all cs ds =
     fold (attach_step cs) ds \<lparr>da_decisions_by_completion = [], da_skipped = ctr_empty\<rparr>"

lemma attach_all_Nil: "attach_all cs [] = \<lparr>da_decisions_by_completion = [], da_skipped = ctr_empty\<rparr>"
  by (simp add: attach_all_def)

lemma attach_all_snoc: "attach_all cs (ds @ [d]) = attach_step cs d (attach_all cs ds)"
  by (simp add: attach_all_def)

lemma dict_get_append:
  "dict_get (dict_append k x D) k' [] = dict_get D k' [] @ (if k = k' then [x] else [])"
  by (auto simp: dict_append_def dict_get_def update_conv')

lemma attach_all_get:
  "dict_get (da_decisions_by_completion (attach_all cs ds)) k []
     = filter (\<lambda>d. attachment_outcome cs d = Inr k) ds"
  by (induction ds rule: rev_induct)
    (auto simp: attach_all_Nil attach_all_snoc attach_step_def dict_get_append dict_get_def[of "[]"]
      split: sum.splits)

lemma attach_all_skipped:
  "da_skipped (attach_all cs ds) x = length (filter (\<lambda>d. attachment_outcome cs d = Inl x) ds)"
  by (induction ds rule: rev_induct)
    (auto simp: attach_all_Nil attach_all_snoc attach_step_def split: sum.splits)

lemma dict_get_map_values:
  "f [] = [] \<Longrightarrow> dict_get (map (\<lambda>(k, xs). (k, f xs)) D) k [] = f (dict_get D k [])"
  by (simp add: dict_get_def map_of_map split: option.splits)

lemma attached_to_eq:
  "attached_to completions decisions k =
     sort_key decision_order (filter (\<lambda>d. attachment_outcome completions d = Inr k)
       (drop_subsumed_codex_decisions decisions))"
  by (simp add: attached_to_def join_decisions_by_call_id_result_def Let_def dict_get_map_values
      attach_all_get flip: attach_all_def)

lemma join_skipped:
  "da_skipped (join_decisions_by_call_id_result completions decisions) x =
     length (filter (\<lambda>d. attachment_outcome completions d = Inl x)
       (drop_subsumed_codex_decisions decisions))"
  by (simp add: join_decisions_by_call_id_result_def Let_def attach_all_skipped flip: attach_all_def)

lemma attachment_outcome_Inr:
  "attachment_outcome cs d = Inr k \<longleftrightarrow>
     (\<exists>call_id c. dd_call_id d = Some call_id \<and> completions_by_call_id cs call_id = [c]
        \<and> view_org_id c = dd_org_id d \<and> view_session_id c = dd_session_id d \<and> inference_fact_id c = k)"
  by (auto simp: attachment_outcome_def split: option.splits list.splits if_splits)

lemma completions_by_call_id_single:
  "completions_by_call_id cs i = [c] \<longleftrightarrow>
     c \<in> set cs \<and> i \<in> model_call_ids c \<and> count_list cs c = 1
       \<and> (\<forall>c'\<in>set cs. i \<in> model_call_ids c' \<longrightarrow> c' = c)"
proof
  assume a: "completions_by_call_id cs i = [c]"
  then have f: "filter (\<lambda>c. i \<in> model_call_ids c) cs = [c]" by (simp add: completions_by_call_id_def)
  then have s: "set (filter (\<lambda>c. i \<in> model_call_ids c) cs) = {c}" by simp
  then have c: "c \<in> set cs" "i \<in> model_call_ids c" by auto
  have "count_list cs c = count_list (filter (\<lambda>c. i \<in> model_call_ids c) cs) c"
    using c(2) by (induction cs) auto
  then have "count_list cs c = 1" unfolding f by simp
  moreover have "c' = c" if "c' \<in> set cs" "i \<in> model_call_ids c'" for c'
    using s that by auto
  ultimately show "c \<in> set cs \<and> i \<in> model_call_ids c \<and> count_list cs c = 1
       \<and> (\<forall>c'\<in>set cs. i \<in> model_call_ids c' \<longrightarrow> c' = c)"
    using c by blast
next
  assume a: "c \<in> set cs \<and> i \<in> model_call_ids c \<and> count_list cs c = 1
       \<and> (\<forall>c'\<in>set cs. i \<in> model_call_ids c' \<longrightarrow> c' = c)"
  then have "filter (\<lambda>c. i \<in> model_call_ids c) cs = filter (\<lambda>x. x = c) cs"
    by (intro filter_cong) auto
  also have "\<dots> = replicate (count_list cs c) c"
    by (induction cs) auto
  finally show "completions_by_call_id cs i = [c]"
    using a by (simp add: completions_by_call_id_def)
qed

lemma case_list_perm:
  assumes "mset xs = mset ys"
  shows "(case xs of [] \<Rightarrow> a | c # others \<Rightarrow> if others \<noteq> [] then b else f c)
       = (case ys of [] \<Rightarrow> a | c # others \<Rightarrow> if others \<noteq> [] then b else f c)"
proof (cases "length xs \<le> 1")
  case True
  then have "xs = ys"
    using assms mset_eq_length[OF assms] by (cases xs; cases ys) auto
  then show ?thesis by simp
next
  case False
  with mset_eq_length[OF assms] show ?thesis
    by (cases xs; cases ys) auto
qed

lemma attachment_outcome_perm:
  assumes "mset cs = mset cs'"
  shows "attachment_outcome cs d = attachment_outcome cs' d"
proof -
  have "mset (completions_by_call_id cs i) = mset (completions_by_call_id cs' i)" for i
    using assms by (simp add: completions_by_call_id_def)
  then show ?thesis
    unfolding attachment_outcome_def by (auto split: option.splits intro!: case_list_perm)
qed

lemma drop_subsumed_perm:
  "mset ds = mset ds' \<Longrightarrow>
   mset (drop_subsumed_codex_decisions ds) = mset (drop_subsumed_codex_decisions ds')"
  by (auto simp: drop_subsumed_codex_decisions_def Let_def dest: mset_eq_setD
      intro!: filter_mset_cong)

lemma attached_to_perm:
  assumes "mset completions = mset completions'" "mset decisions = mset decisions'"
    and "inj_on dd_id (set decisions)"
  shows "attached_to completions decisions = attached_to completions' decisions'"
proof
  fix k
  have "inj_on decision_order (set (drop_subsumed_codex_decisions decisions))"
    by (rule inj_on_subset[of _ "set decisions"])
      (use assms(3) in \<open>auto simp: inj_on_def decision_order_def drop_subsumed_codex_decisions_def Let_def\<close>)
  then show "attached_to completions decisions k = attached_to completions' decisions' k"
    unfolding attached_to_eq attachment_outcome_perm[OF assms(1)] using drop_subsumed_perm[OF assms(2)]
    by (intro sort_key_perm_eq) (auto intro: inj_on_subset)
qed

lemma join_skipped_perm:
  assumes "mset completions = mset completions'" "mset decisions = mset decisions'"
  shows "da_skipped (join_decisions_by_call_id_result completions decisions)
       = da_skipped (join_decisions_by_call_id_result completions' decisions')"
proof
  fix x
  have "size (filter_mset P (mset (drop_subsumed_codex_decisions decisions)))
      = size (filter_mset P (mset (drop_subsumed_codex_decisions decisions')))" for P
    unfolding drop_subsumed_perm[OF assms(2)] ..
  then show "da_skipped (join_decisions_by_call_id_result completions decisions) x
       = da_skipped (join_decisions_by_call_id_result completions' decisions') x"
    unfolding join_skipped attachment_outcome_perm[OF assms(1)] by (simp flip: mset_filter)
qed

lemma outcome_conservation:
  assumes "finite K" "\<And>d k. d \<in> set ds \<Longrightarrow> attachment_outcome cs d = Inr k \<Longrightarrow> k \<in> K"
  shows "(\<Sum>x\<in>{missing_decision_call_id, unmatched_decision_call_id, ambiguous_decision_call_id,
             decision_org_mismatch, decision_session_mismatch}.
            length (filter (\<lambda>d. attachment_outcome cs d = Inl x) ds))
         + (\<Sum>k\<in>K. length (filter (\<lambda>d. attachment_outcome cs d = Inr k) ds)) = length ds"
  using assms(2)
proof (induction ds)
  case (Cons d ds)
  have one: "(\<Sum>k\<in>K. length (filter (\<lambda>d. attachment_outcome cs d = Inr k) (d # ds)))
     = (\<Sum>k\<in>K. length (filter (\<lambda>d. attachment_outcome cs d = Inr k) ds))
       + (if \<exists>k. attachment_outcome cs d = Inr k then 1 else 0)"
  proof (cases "attachment_outcome cs d")
    case (Inr k)
    then have "k \<in> K" using Cons.prems[of d k] by simp
    moreover have "length (filter (\<lambda>d. attachment_outcome cs d = Inr x) (d # ds))
        = length (filter (\<lambda>d. attachment_outcome cs d = Inr x) ds) + (if k = x then 1 else 0)" for x
      using Inr by simp
    ultimately show ?thesis
      using assms(1) Inr by (simp only: sum.distrib) simp
  qed simp
  show ?case
  proof (cases "attachment_outcome cs d")
    case (Inl x)
    then show ?thesis using Cons one by (cases x) auto
  next
    case (Inr k)
    then show ?thesis using Cons one by auto
  qed
qed simp

section \<open>A sample population\<close>

definition sample_decision :: "string \<Rightarrow> string \<Rightarrow> instant \<Rightarrow> developer_decision" where
  "sample_decision fact_id path time =
     \<lparr>dd_id = fact_id, dd_org_id = ''default'', dd_session_id = ''s1'', dd_user_id = None,
      dd_agent_harness = CODEX, dd_file_path = path, dd_accepted = True, dd_explicit = True,
      dd_interaction_mode = AGENT, dd_commit_sha = None, dd_call_id = Some ''call'',
      dd_edit_retention_score = None, dd_observation_delay_ms = None,
      dd_occurred_at = time, dd_captured_at = time, dd_raw = []\<rparr>"

definition sample_call :: "string \<Rightarrow> string \<Rightarrow> call_view" where
  "sample_call fact_id call_id =
     CallIdentity \<lparr>ii_id = fact_id, ii_org_id = ''default'', ii_session_id = ''s1'',
       ii_observed_at = 1, ii_call_ids = [call_id]\<rparr>"

lemmas sample_defs = sample_decision_def sample_call_def

section \<open>Properties of the join\<close>

text \<open>C36. Unique-or-drop, exactly: a decision that survives the redelivery collapse is attached to a
  call if and only if its call id is carried by precisely that one call of the population (once),
  and decision and call share organization and Session. An id shared by two calls attaches
  nothing.\<close>

theorem decision_unique_or_drop:
  "d \<in> set (attached_to completions decisions k) \<longleftrightarrow>
     d \<in> set (drop_subsumed_codex_decisions decisions) \<and>
     (\<exists>call_id c. dd_call_id d = Some call_id \<and> c \<in> set completions \<and> call_id \<in> model_call_ids c
        \<and> count_list completions c = 1
        \<and> (\<forall>c'\<in>set completions. call_id \<in> model_call_ids c' \<longrightarrow> c' = c)
        \<and> view_org_id c = dd_org_id d \<and> view_session_id c = dd_session_id d
        \<and> inference_fact_id c = k)"
  unfolding attached_to_eq set_sort set_filter mem_Collect_eq attachment_outcome_Inr
    completions_by_call_id_single
  by blast

theorem decision_unique_or_drop_witness:
  "sample_decision ''d1'' ''a.py'' 5
     \<in> set (attached_to [sample_call ''c1'' ''call'', sample_call ''c2'' ''x'']
         [sample_decision ''d1'' ''a.py'' 5] ''c1'')"
  unfolding decision_unique_or_drop
  by (simp add: sample_defs drop_subsumed_codex_decisions_def codex_keyed_def)

text \<open>No decision is lost or counted twice: the closed skip counts plus the decisions attached to
  the population's calls add up to the decisions that survive the redelivery collapse.\<close>

theorem decision_conservation:
  "(\<Sum>x\<in>{missing_decision_call_id, unmatched_decision_call_id, ambiguous_decision_call_id,
         decision_org_mismatch, decision_session_mismatch}.
      da_skipped (join_decisions_by_call_id_result completions decisions) x)
   + (\<Sum>k\<in>inference_fact_id ` set completions. length (attached_to completions decisions k))
   = length (drop_subsumed_codex_decisions decisions)"
proof -
  have "k \<in> inference_fact_id ` set completions" if "attachment_outcome completions d = Inr k" for d k
    using that unfolding attachment_outcome_Inr completions_by_call_id_single by blast
  then show ?thesis
    using outcome_conservation[of "inference_fact_id ` set completions"
        "drop_subsumed_codex_decisions decisions" completions]
    by (simp add: join_skipped attached_to_eq)
qed

text \<open>The join is a function of the Facts, not of their order: permuting calls and decisions
  changes neither the attached lists nor the counts, as long as decision ids identify decisions.\<close>

theorem decision_join_order_independent:
  assumes "mset completions = mset completions'" "mset decisions = mset decisions'"
    and "inj_on dd_id (set decisions)"
  shows "attached_to completions decisions k = attached_to completions' decisions' k
     \<and> da_skipped (join_decisions_by_call_id_result completions decisions)
       = da_skipped (join_decisions_by_call_id_result completions' decisions')"
  using attached_to_perm[OF assms] join_skipped_perm[OF assms(1,2)] by simp

theorem decision_join_order_independent_witness:
  "attached_to [sample_call ''c1'' ''call'', sample_call ''c2'' ''x'']
     [sample_decision ''d1'' ''a.py'' 5, sample_decision ''d2'' ''b.py'' 4] ''c1''
   = attached_to [sample_call ''c2'' ''x'', sample_call ''c1'' ''call'']
     [sample_decision ''d2'' ''b.py'' 4, sample_decision ''d1'' ''a.py'' 5] ''c1''"
  by (rule decision_join_order_independent[THEN conjunct1])
    (simp_all add: sample_defs add_mset_commute)

text \<open>The redelivery collapse drops a row exactly when it is a Codex row with a call id and no file
  path for which a per-file sibling with the same verdict, time and identity is kept; it is
  idempotent, keeps the order, and never drops a decision of another agent harness.\<close>

theorem codex_collapse:
  assumes "d \<in> set decisions"
  shows "(d \<notin> set (drop_subsumed_codex_decisions decisions) \<longleftrightarrow>
       dd_agent_harness d = CODEX \<and> dd_file_path d = [] \<and> dd_call_id d \<noteq> None
       \<and> (\<exists>e\<in>set (drop_subsumed_codex_decisions decisions). codex_keyed e \<and> codex_key e = codex_key d))
     \<and> drop_subsumed_codex_decisions (drop_subsumed_codex_decisions decisions)
       = drop_subsumed_codex_decisions decisions"
proof -
  have keyed: "filter codex_keyed (drop_subsumed_codex_decisions decisions) = filter codex_keyed decisions"
    by (auto simp: drop_subsumed_codex_decisions_def Let_def codex_keyed_def intro!: filter_cong)
  have "d \<notin> set (drop_subsumed_codex_decisions decisions) \<longleftrightarrow>
       dd_agent_harness d = CODEX \<and> dd_file_path d = [] \<and> dd_call_id d \<noteq> None
       \<and> (\<exists>e\<in>set (filter codex_keyed (drop_subsumed_codex_decisions decisions)).
            codex_key e = codex_key d)"
    unfolding keyed using assms
    by (auto simp: drop_subsumed_codex_decisions_def Let_def image_iff Bex_def eq_commute)
  moreover have "drop_subsumed_codex_decisions (drop_subsumed_codex_decisions decisions)
       = drop_subsumed_codex_decisions decisions"
    by (subst drop_subsumed_codex_decisions_def, unfold keyed)
      (simp add: drop_subsumed_codex_decisions_def Let_def)
  ultimately show ?thesis by auto
qed

theorem codex_collapse_witness:
  "sample_decision ''d1'' [] 5
     \<notin> set (drop_subsumed_codex_decisions
         [sample_decision ''d1'' [] 5, sample_decision ''d2'' ''b.py'' 5])"
proof -
  have "sample_decision ''d2'' ''b.py'' 5
      \<in> set (drop_subsumed_codex_decisions
          [sample_decision ''d1'' [] 5, sample_decision ''d2'' ''b.py'' 5])"
    by (simp add: sample_defs drop_subsumed_codex_decisions_def codex_keyed_def Let_def)
  moreover have "codex_keyed (sample_decision ''d2'' ''b.py'' 5)"
    "codex_key (sample_decision ''d2'' ''b.py'' 5) = codex_key (sample_decision ''d1'' [] 5)"
    by (simp_all add: sample_defs codex_keyed_def codex_key_def)
  ultimately show ?thesis
    by (subst codex_collapse[THEN conjunct1]) (auto simp: sample_defs)
qed

end
