(* ===== verification/Split.thy ===== *)
theory Split
  imports Sediment_Prelude "HOL-Library.Word"
begin

text \<open>
  \<open>packages/derive/sediment_derive/split.py\<close>: the deterministic train/eval holdout. The score of a
  Session is the first eight bytes of \<open>sha256(session_id)\<close>, read big-endian and divided by
  \<open>2**64\<close> in binary64. \<open>hashlib.sha256\<close> and \<open>str.encode\<close> are written out (FIPS 180-4 over
  \<open>32 word\<close>; UTF-8 on code points below 256), so that the split of a concrete Session id can be
  evaluated.
\<close>

unbundle bit_operations_syntax

section \<open>SHA-256 and UTF-8\<close>

type_synonym u8 = "8 word"
type_synonym u32 = "32 word"

definition utf8_encode :: "string \<Rightarrow> u8 list" where
  "utf8_encode s = concat (map (\<lambda>c.
     if cp c < 128 then [of_nat (cp c)]
     else [of_nat (192 + cp c div 64), of_nat (128 + cp c mod 64)]) s)"

definition rotr :: "nat \<Rightarrow> u32 \<Rightarrow> u32" where
  "rotr n x = drop_bit n x OR push_bit (32 - n) x"

definition sha_ch :: "u32 \<Rightarrow> u32 \<Rightarrow> u32 \<Rightarrow> u32" where
  "sha_ch x y z = (x AND y) XOR (NOT x AND z)"

definition sha_maj :: "u32 \<Rightarrow> u32 \<Rightarrow> u32 \<Rightarrow> u32" where
  "sha_maj x y z = (x AND y) XOR (x AND z) XOR (y AND z)"

definition big_sigma0 :: "u32 \<Rightarrow> u32" where
  "big_sigma0 x = rotr 2 x XOR rotr 13 x XOR rotr 22 x"

definition big_sigma1 :: "u32 \<Rightarrow> u32" where
  "big_sigma1 x = rotr 6 x XOR rotr 11 x XOR rotr 25 x"

definition small_sigma0 :: "u32 \<Rightarrow> u32" where
  "small_sigma0 x = rotr 7 x XOR rotr 18 x XOR drop_bit 3 x"

definition small_sigma1 :: "u32 \<Rightarrow> u32" where
  "small_sigma1 x = rotr 17 x XOR rotr 19 x XOR drop_bit 10 x"

definition sha_k :: "u32 list" where
  "sha_k =
    [1116352408, 1899447441, 3049323471, 3921009573, 961987163, 1508970993, 2453635748, 2870763221,
     3624381080, 310598401, 607225278, 1426881987, 1925078388, 2162078206, 2614888103, 3248222580,
     3835390401, 4022224774, 264347078, 604807628, 770255983, 1249150122, 1555081692, 1996064986,
     2554220882, 2821834349, 2952996808, 3210313671, 3336571891, 3584528711, 113926993, 338241895,
     666307205, 773529912, 1294757372, 1396182291, 1695183700, 1986661051, 2177026350, 2456956037,
     2730485921, 2820302411, 3259730800, 3345764771, 3516065817, 3600352804, 4094571909, 275423344,
     430227734, 506948616, 659060556, 883997877, 958139571, 1322822218, 1537002063, 1747873779,
     1955562222, 2024104815, 2227730452, 2361852424, 2428436474, 2756734187, 3204031479, 3329325298]"

type_synonym sha_state = "u32 \<times> u32 \<times> u32 \<times> u32 \<times> u32 \<times> u32 \<times> u32 \<times> u32"

definition sha_init :: sha_state where
  "sha_init = (1779033703, 3144134277, 1013904242, 2773480762,
               1359893119, 2600822924, 528734635, 1541459225)"

fun sha_round :: "u32 \<times> u32 \<Rightarrow> sha_state \<Rightarrow> sha_state" where
  "sha_round (k, w) (a, b, c, d, e, f, g, h) =
     (let t1 = h + big_sigma1 e + sha_ch e f g + k + w;
          t2 = big_sigma0 a + sha_maj a b c
      in (t1 + t2, a, b, c, d + t1, e, f, g))"

text \<open>The message schedule keeps the last sixteen words, oldest first.\<close>

fun sha_schedule :: "nat \<Rightarrow> u32 list \<Rightarrow> u32 list" where
  "sha_schedule 0 ws = []"
| "sha_schedule (Suc n) ws =
     (case ws of
        [] \<Rightarrow> []
      | w # rest \<Rightarrow>
         w # sha_schedule n
               (rest @ [small_sigma1 (ws ! 14) + ws ! 9 + small_sigma0 (ws ! 1) + w]))"

fun sha_add :: "sha_state \<Rightarrow> sha_state \<Rightarrow> sha_state" where
  "sha_add (a, b, c, d, e, f, g, h) (a', b', c', d', e', f', g', h') =
     (a + a', b + b', c + c', d + d', e + e', f + f', g + g', h + h')"

definition be_word :: "u8 list \<Rightarrow> u32" where
  "be_word bs = foldl (\<lambda>acc b. push_bit 8 acc OR ucast b) 0 bs"

definition word_bytes :: "u32 \<Rightarrow> u8 list" where
  "word_bytes w = map (\<lambda>i. ucast (drop_bit i w)) [24, 16, 8, 0]"

fun chunks :: "nat \<Rightarrow> 'a list \<Rightarrow> 'a list list" where
  "chunks n xs = (if xs = [] \<or> n = 0 then [] else take n xs # chunks n (drop n xs))"

lemma concat_chunks: "n > 0 \<Longrightarrow> concat (chunks n xs) = xs"
proof (induction n xs rule: chunks.induct)
  case (1 n xs)
  then show ?case by (cases "xs = []") (simp_all add: chunks.simps[of n xs] chunks.simps[of n "[]"])
qed

declare chunks.simps [simp del]

definition sha_block :: "u8 list \<Rightarrow> sha_state \<Rightarrow> sha_state" where
  "sha_block block st =
     sha_add st (fold sha_round (zip sha_k (sha_schedule 64 (map be_word (chunks 4 block)))) st)"

definition sha_pad :: "u8 list \<Rightarrow> u8 list" where
  "sha_pad m =
     m @ [0x80] @ replicate ((119 - length m mod 64) mod 64) 0
       @ map (\<lambda>i. of_int (8 * int (length m) div 256 ^ i)) [7, 6, 5, 4, 3, 2, 1, 0]"

fun sha_digest :: "sha_state \<Rightarrow> u8 list" where
  "sha_digest (a, b, c, d, e, f, g, h) = concat (map word_bytes [a, b, c, d, e, f, g, h])"

definition sha256 :: "u8 list \<Rightarrow> u8 list" where
  "sha256 m = sha_digest (fold sha_block (chunks 64 (sha_pad m)) sha_init)"

section \<open>The split\<close>

datatype split_label = TRAIN | EVAL

definition int_from_bytes_big :: "u8 list \<Rightarrow> int" where
  "int_from_bytes_big bs = foldl (\<lambda>acc b. acc * 256 + uint b) 0 bs"

text \<open>\<open>int / 2**64\<close>: true division of Python ints rounds the exact quotient once.\<close>

definition score_of_digest :: "u8 list \<Rightarrow> rat" where
  "score_of_digest digest = fl64 (of_int (int_from_bytes_big (take 8 digest)) / 2 ^ 64)"

definition session_eval_score :: "string \<Rightarrow> rat" where
  "session_eval_score session_id = score_of_digest (sha256 (utf8_encode session_id))"

definition is_eval :: "string \<Rightarrow> rat \<Rightarrow> bool" where
  "is_eval session_id fraction = (session_eval_score session_id < fraction)"

definition split_of :: "string \<Rightarrow> rat \<Rightarrow> split_label" where
  "split_of session_id fraction = (if is_eval session_id fraction then EVAL else TRAIN)"

section \<open>Rounding near one\<close>

lemma ilog2_eqI:
  assumes "2 powi e \<le> x" "x < 2 powi (e + 1)"
  shows "ilog2 x = e"
proof -
  have "0 < x" using assms(1) by (rule less_le_trans[rotated]) simp
  note b = ilog2_bounds[OF this]
  have "(2::rat) powi e < 2 powi (ilog2 x + 1)" "(2::rat) powi (ilog2 x) < 2 powi (e + 1)"
    using b assms by linarith+
  then have "e < ilog2 x + 1" "ilog2 x < e + 1"
    using power_int_strict_increasing[of "ilog2 x + 1" e "2::rat"]
      power_int_strict_increasing[of "e + 1" "ilog2 x" "2::rat"]
    by (metis less_asym linorder_neqE one_less_numeral_iff semiring_norm(76) power_int_strict_increasing)+
  then show ?thesis by simp
qed

lemma fl64_half_to_one:
  assumes "1 / 2 \<le> x" "x < 1"
  shows "fl64 x = of_int (round_half_even (x * 2 ^ 53)) / 2 ^ 53"
proof -
  have "ilog2 x = - 1"
    using assms by (intro ilog2_eqI) (simp_all add: power_int_minus)
  then have q: "fl_quantum x = 1 / 2 ^ 53" by (simp add: fl_quantum_def power_int_def divide_simps)
  show ?thesis using assms unfolding fl64_def q by simp
qed

lemma fl64_top: "fl64 ((2 ^ 64 - 2 ^ 10) / 2 ^ 64) = 1"
proof -
  have "\<lfloor>18014398509481983 / 2 :: rat\<rfloor> = 9007199254740991" by (intro floor_unique) auto
  then show ?thesis
    by (subst fl64_half_to_one) (simp_all add: round_half_even_def)
qed

lemma fl64_below_top: "fl64 ((2 ^ 64 - 2 ^ 10 - 1) / 2 ^ 64) < 1"
proof -
  have "\<lfloor>18446744073709550591 / 2048 :: rat\<rfloor> = 9007199254740991" by (intro floor_unique) auto
  then show ?thesis
    by (subst fl64_half_to_one) (simp_all add: round_half_even_def)
qed

lemma int_from_bytes_big_snoc:
  "int_from_bytes_big (bs @ [b]) = int_from_bytes_big bs * 256 + uint b"
  by (simp add: int_from_bytes_big_def)

lemma int_from_bytes_big_range:
  "0 \<le> int_from_bytes_big bs \<and> int_from_bytes_big bs < 256 ^ length bs"
proof (induction bs rule: rev_induct)
  case (snoc b bs)
  have "uint b < 256" using uint_lt2p[of b] by simp
  with snoc show ?case by (simp add: int_from_bytes_big_snoc)
qed (simp add: int_from_bytes_big_def)

lemma top_bytes_range: "0 \<le> int_from_bytes_big (take 8 bs) \<and> int_from_bytes_big (take 8 bs) < 2 ^ 64"
proof -
  have "(256::int) ^ length (take 8 bs) \<le> 256 ^ 8"
    by (intro power_increasing) auto
  with int_from_bytes_big_range[of "take 8 bs"] show ?thesis by simp
qed

lemma score_eq_1:
  "score_of_digest bs = 1 \<longleftrightarrow> 2 ^ 64 - 2 ^ 10 \<le> int_from_bytes_big (take 8 bs)"
proof -
  define n where "n = int_from_bytes_big (take 8 bs)"
  have n: "n < 2 ^ 64" using top_bytes_range[of bs] by (simp add: n_def)
  then have "(of_int n :: rat) \<le> of_int (2 ^ 64)" by (simp only: of_int_le_iff)
  then have hi: "fl64 (of_int n / 2 ^ 64) \<le> 1"
    using fl64_mono[of "of_int n / 2 ^ 64" 1] by (simp add: divide_le_eq)
  show ?thesis
  proof (cases "2 ^ 64 - 2 ^ 10 \<le> n")
    case True
    then have "(of_int (2 ^ 64 - 2 ^ 10) :: rat) \<le> of_int n" by (simp only: of_int_le_iff)
    then have "fl64 ((2 ^ 64 - 2 ^ 10) / 2 ^ 64) \<le> fl64 (of_int n / 2 ^ 64)"
      by (intro fl64_mono divide_right_mono) auto
    with hi True show ?thesis unfolding fl64_top score_of_digest_def n_def by simp
  next
    case False
    then have "(of_int n :: rat) \<le> of_int (2 ^ 64 - 2 ^ 10 - 1)" by (simp only: of_int_le_iff)
    then have "fl64 (of_int n / 2 ^ 64) \<le> fl64 ((2 ^ 64 - 2 ^ 10 - 1) / 2 ^ 64)"
      by (intro fl64_mono divide_right_mono) auto
    with fl64_below_top False show ?thesis unfolding score_of_digest_def n_def by simp
  qed
qed

definition session_position :: "string \<Rightarrow> int" where
  "session_position session_id = int_from_bytes_big (take 8 (sha256 (utf8_encode session_id)))"

lemma session_eval_score_position: "session_eval_score s = fl64 (of_int (session_position s) / 2 ^ 64)"
  by (simp add: session_eval_score_def score_of_digest_def session_position_def)

lemma session_eval_score_range: "0 \<le> session_eval_score s \<and> session_eval_score s \<le> 1"
proof -
  have "(of_int (session_position s) :: rat) \<le> of_int (2 ^ 64)"
    using top_bytes_range[of "sha256 (utf8_encode s)"] unfolding session_position_def of_int_le_iff by linarith
  then have "fl64 (of_int (session_position s) / 2 ^ 64) \<le> fl64 1"
    by (intro fl64_mono) (simp add: divide_le_eq)
  then show ?thesis by (simp add: session_eval_score_position)
qed

section \<open>Properties of the split\<close>

text \<open>C40. Scores lie between 0 and 1; holdouts are nested, so a Session in the eval set of the
  smaller of two fractions is in both; a fraction of at most 0 puts every Session in train; and a
  Session whose exact 64-bit position is not below a representable fraction is never held out, so
  rounding the score cannot enlarge the eval set.\<close>

theorem holdout_split:
  "0 \<le> session_eval_score s \<and> session_eval_score s \<le> 1
   \<and> is_eval s (min f g) = (is_eval s f \<and> is_eval s g)
   \<and> split_of s (min f 0) = TRAIN
   \<and> split_of s (fl64 (min f (of_int (session_position s) / 2 ^ 64))) = TRAIN"
proof -
  have "fl64 (min f (of_int (session_position s) / 2 ^ 64)) \<le> session_eval_score s"
    unfolding session_eval_score_position by (intro fl64_mono) simp
  then have "split_of s (fl64 (min f (of_int (session_position s) / 2 ^ 64))) = TRAIN"
    by (simp add: split_of_def is_eval_def not_less)
  moreover have "split_of s (min f 0) = TRAIN"
    using session_eval_score_range[of s] by (auto simp: split_of_def is_eval_def)
  ultimately show ?thesis
    using session_eval_score_range[of s] by (simp add: is_eval_def)
qed

text \<open>The documented half-open range is not what division by \<open>2**64\<close> delivers: the score is
  exactly 1.0 for the topmost 1024 positions, because the quotient is rounded to 53 bits.\<close>

theorem session_eval_score_reaches_one:
  "session_eval_score s = 1 \<longleftrightarrow> 2 ^ 64 - 2 ^ 10 \<le> session_position s"
  by (simp only: session_eval_score_def score_eq_1 session_position_def)

end
