(* ===== verification/Repository_Identity.thy ===== *)
theory Repository_Identity
  imports Fact_Validation "HOL-Library.Finite_Map"
begin

text \<open>
  \<open>packages/derive/sediment_derive/repository_identity.py\<close>: the resolution of repository names to
  repository keys from a declared population of captured evidence (ADR 0019).

  The mappings a \<open>RepositoryContext\<close> keeps are finite maps, so two contexts are equal exactly when
  every lookup agrees, as Python mappings compare. \<open>fm_add\<close> is \<open>m.setdefault(k, set()).add(v)\<close>.
  A \<open>datetime\<close> is its UTC instant; evidence also carries the spelling of its capture time
  (\<open>isoformat()\<close>, \<open>repr(tzinfo)\<close>, \<open>fold\<close>), which the code reads to choose among copies. Converting
  an instant outside the UTC range raises \<open>OverflowError\<close>.

  Second half: what the loops compute. Conflicts, sources, names, claims and unsafe slugs are
  characterised as sets over the eligible evidence, from which order independence, the isolation
  of legacy names and the accounting of skipped sources follow.
\<close>

section \<open>Keys and identities\<close>

datatype identity_skip_reason = repository_identity_absent | repository_identity_unresolved
  | repository_identity_conflict | repository_source_absent | repository_mirror_identity_unresolved

datatype repository_role = REPO | HEAD_REPO

fun role_value :: "repository_role \<Rightarrow> string" where
  "role_value REPO = ''repo''"
| "role_value HEAD_REPO = ''head_repo''"

record repository_identity =
  ri_provider :: forge_provider
  ri_host :: string
  ri_repository_id :: string

definition new_repository_identity ::
  "forge_provider \<Rightarrow> string \<Rightarrow> string \<Rightarrow> repository_identity result" where
  "new_repository_identity provider host repository_id =
     bind_result (ForgeHost host) (\<lambda>host.
     bind_result (ProviderRepositoryId repository_id) (\<lambda>repository_id.
       Inr \<lparr>ri_provider = provider, ri_host = host, ri_repository_id = repository_id\<rparr>))"

datatype repository_key =
    IdentifiedRepositoryKey (key_org_id: string) (key_identity: repository_identity)
  | LegacyRepositoryKey (key_org_id: string) (key_repo: string)

datatype commit_key = CommitKey (ck_repository: repository_key) (ck_commit_sha: string)

definition new_commit_key :: "repository_key \<Rightarrow> string \<Rightarrow> commit_key result" where
  "new_commit_key repository commit_sha =
     bind_result (normalize_commit_sha commit_sha) (\<lambda>sha. Inr (CommitKey repository sha))"

fun repository_sort_key :: "repository_key \<Rightarrow> string list" where
  "repository_sort_key (IdentifiedRepositoryKey org i) =
     [org, ''identified'', forge_provider_value (ri_provider i), ri_host i, ri_repository_id i]"
| "repository_sort_key (LegacyRepositoryKey org repo) = [org, ''legacy'', repo]"

text \<open>Sort keys identify repository keys, so they order them.\<close>

lemma forge_provider_eq: "(p :: forge_provider) = q"
  by (cases p; cases q) simp

lemma repository_sort_key_inject: "repository_sort_key k = repository_sort_key k' \<longleftrightarrow> k = k'"
  by (cases k; cases k') (auto intro!: repository_identity.equality forge_provider_eq)

instantiation repository_key :: linorder
begin

definition less_eq_repository_key :: "repository_key \<Rightarrow> repository_key \<Rightarrow> bool" where
  "k \<le> k' \<longleftrightarrow> repository_sort_key k \<le> repository_sort_key k'"

definition less_repository_key :: "repository_key \<Rightarrow> repository_key \<Rightarrow> bool" where
  "k < k' \<longleftrightarrow> repository_sort_key k < repository_sort_key k'"

instance
  by standard (auto simp: less_eq_repository_key_def less_repository_key_def less_le_not_le
      dest: order_antisym simp: repository_sort_key_inject)

end

datatype read_key = IdentityRead forge_provider string string | SlugRead string

fun repository_read_key :: "repository_key \<Rightarrow> read_key" where
  "repository_read_key (IdentifiedRepositoryKey org i) =
     IdentityRead (ri_provider i) (ri_host i) (ri_repository_id i)"
| "repository_read_key (LegacyRepositoryKey org repo) = SlugRead repo"

definition commit_sort_key :: "commit_key \<Rightarrow> string list" where
  "commit_sort_key key = repository_sort_key (ck_repository key) @ [ck_commit_sha key]"

section \<open>Evidence\<close>

type_synonym source_key = "fact_table \<times> string \<times> repository_role"
type_synonym spelling = "string \<times> string \<times> int"

record identity_evidence =
  ev_source_table :: fact_table
  ev_source_fact_id :: string
  ev_role :: repository_role
  ev_org_id :: string
  ev_repo :: string
  ev_repository_provider :: "forge_provider option"
  ev_repository_host :: "string option"
  ev_repository_id :: "string option"
  ev_captured_at :: instant
  ev_captured_spelling :: spelling
  ev_source_push_id :: "string option"

record repository_resolution =
  rs_key :: "repository_key option"
  rs_repo :: "string option"
  rs_reason :: "identity_skip_reason option"
  rs_evidence :: "identity_evidence list"

definition declined :: "identity_skip_reason \<Rightarrow> repository_resolution" where
  "declined reason = \<lparr>rs_key = None, rs_repo = None, rs_reason = Some reason, rs_evidence = []\<rparr>"

definition resolved_as :: "repository_key \<Rightarrow> string \<Rightarrow> repository_resolution" where
  "resolved_as key repo = \<lparr>rs_key = Some key, rs_repo = Some repo, rs_reason = None, rs_evidence = []\<rparr>"

fun repository_identity_of ::
  "forge_provider option \<Rightarrow> string option \<Rightarrow> string option \<Rightarrow> repository_identity option result"
where
  "repository_identity_of None None None = Inr None"
| "repository_identity_of (Some p) (Some h) (Some i) =
     bind_result (new_repository_identity p h i) (\<lambda>x. Inr (Some x))"
| "repository_identity_of _ _ _ =
     Inl (ValueError ''repository identity requires all three components'')"

definition evidence_identity_of :: "identity_evidence \<Rightarrow> repository_identity option result" where
  "evidence_identity_of row =
     repository_identity_of (ev_repository_provider row) (ev_repository_host row)
       (ev_repository_id row)"

definition source_key_of :: "identity_evidence \<Rightarrow> source_key" where
  "source_key_of row = (ev_source_table row, ev_source_fact_id row, ev_role row)"

definition evidence_signature ::
  "identity_evidence \<Rightarrow> source_key \<times> string \<times> string \<times> forge_provider option \<times> string option
     \<times> string option \<times> instant \<times> string option" where
  "evidence_signature row =
     (source_key_of row, ev_org_id row, ev_repo row, ev_repository_provider row,
      ev_repository_host row, ev_repository_id row, ev_captured_at row, ev_source_push_id row)"

definition evidence_sort_key :: "identity_evidence \<Rightarrow> instant \<times> string \<times> string \<times> string" where
  "evidence_sort_key row =
     (ev_captured_at row, fact_table_value (ev_source_table row), ev_source_fact_id row,
      role_value (ev_role row))"

definition evidence_representation_key :: "identity_evidence \<Rightarrow> spelling" where
  "evidence_representation_key row = ev_captured_spelling row"

text \<open>\<open>value.astimezone(UTC)\<close>.\<close>

definition as_utc :: "instant \<Rightarrow> instant result" where
  "as_utc t = (if UTC_MIN \<le> t \<and> t \<le> UTC_MAX then Inr t else Inl OverflowError)"

definition identity_source_tables :: "fact_table list" where
  "identity_source_tables =
     [PUSHES, CI_OUTCOMES, SESSION_COMMIT_OBSERVATIONS, PULL_REQUEST_MERGES, PULL_REQUEST_REVISIONS]"

definition validate_evidence_fields :: "identity_evidence \<Rightarrow> identity_evidence result" where
  "validate_evidence_fields = v_all
     [v_require (\<lambda>r. ev_source_table r \<in> set identity_source_tables) ''source_table'',
      v_field ev_source_fact_id ev_source_fact_id_update NonEmptyId,
      v_field ev_org_id ev_org_id_update OrgId,
      v_field ev_repo ev_repo_update RepoSlug,
      v_field ev_repository_host ev_repository_host_update (v_optional ForgeHost),
      v_field ev_repository_id ev_repository_id_update (v_optional ProviderRepositoryId),
      v_field ev_source_push_id ev_source_push_id_update (v_optional NonEmptyId)]"

definition validate_evidence :: "identity_evidence \<Rightarrow> identity_evidence result" where
  "validate_evidence row =
     (let invalid = Inl (ValueError ''invalid repository identity evidence'')
      in case validate_evidence_fields row of
           Inl _ \<Rightarrow> invalid
         | Inr validated \<Rightarrow>
            (case evidence_identity_of validated of
               Inl _ \<Rightarrow> invalid
             | Inr _ \<Rightarrow>
                if ev_role validated = HEAD_REPO
                   \<and> ev_source_table validated \<notin> {PULL_REQUEST_MERGES, PULL_REQUEST_REVISIONS}
                then invalid
                else if (ev_source_table validated = SESSION_COMMIT_OBSERVATIONS)
                        \<noteq> (ev_source_push_id validated \<noteq> None)
                then invalid
                else bind_result (as_utc (ev_captured_at row)) (\<lambda>_.
                  if evidence_signature row \<noteq> evidence_signature validated then invalid
                  else Inr validated)))"

section \<open>Projecting Facts to evidence\<close>

text \<open>The Facts a role can be projected from. A \<open>CIOutcomeProjection\<close> is a CI outcome without its
  raw payload, which is not read here.\<close>

datatype repository_source = PushFact push | CIFact ci_outcome
  | ObservationFact session_commit_observation | MergeFact pull_request_merge
  | RevisionFact pull_request_revision | ProjectedEvidence identity_evidence

definition role_evidence ::
  "fact_table \<Rightarrow> string \<Rightarrow> repository_role \<Rightarrow> string \<Rightarrow> string \<Rightarrow> forge_provider option
   \<Rightarrow> string option \<Rightarrow> string option \<Rightarrow> instant \<Rightarrow> spelling \<Rightarrow> string option \<Rightarrow> identity_evidence" where
  "role_evidence table fact_id role org repo p h i captured sp push_id =
     \<lparr>ev_source_table = table, ev_source_fact_id = fact_id, ev_role = role, ev_org_id = org,
      ev_repo = repo, ev_repository_provider = p, ev_repository_host = h, ev_repository_id = i,
      ev_captured_at = captured, ev_captured_spelling = sp, ev_source_push_id = push_id\<rparr>"

definition head_role_evidence ::
  "fact_table \<Rightarrow> string \<Rightarrow> repository_role \<Rightarrow> 'a head_repository_fact_scheme \<Rightarrow> spelling
   \<Rightarrow> identity_evidence" where
  "head_role_evidence table fact_id role m sp =
     (case role of
        REPO \<Rightarrow> role_evidence table fact_id REPO (hr_org_id m) (hr_repo m)
          (rf_repository_provider m) (rf_repository_host m) (rf_repository_id m)
          (hr_captured_at m) sp None
      | HEAD_REPO \<Rightarrow> role_evidence table fact_id HEAD_REPO (hr_org_id m) (hr_head_repo m)
          (hr_head_repository_provider m) (hr_head_repository_host m) (hr_head_repository_id m)
          (hr_captured_at m) sp None)"

text \<open>The Fact records keep the instant of \<open>captured_at\<close>; its spelling \<open>sp\<close> is passed beside.\<close>

fun project_fact ::
  "repository_source \<Rightarrow> spelling \<Rightarrow> repository_role \<Rightarrow> identity_evidence result" where
  "project_fact (ProjectedEvidence e) sp role =
     (if role \<noteq> ev_role e then Inl (ValueError ''repository role differs from projection'') else Inr e)"
| "project_fact (MergeFact m) sp role = Inr (head_role_evidence PULL_REQUEST_MERGES (pm_id m) role m sp)"
| "project_fact (RevisionFact m) sp role =
     Inr (head_role_evidence PULL_REQUEST_REVISIONS (pv_id m) role m sp)"
| "project_fact (PushFact p) sp role =
     (if role = HEAD_REPO then Inl (ValueError ''repository Fact has no head role'')
      else Inr (role_evidence PUSHES (pu_id p) role (pu_org_id p) (pu_repo p)
        (rf_repository_provider p) (rf_repository_host p) (rf_repository_id p)
        (pu_captured_at p) sp None))"
| "project_fact (CIFact c) sp role =
     (if role = HEAD_REPO then Inl (ValueError ''repository Fact has no head role'')
      else Inr (role_evidence CI_OUTCOMES (ci_id c) role (ci_org_id c) (ci_repo c)
        (rf_repository_provider c) (rf_repository_host c) (rf_repository_id c)
        (ci_captured_at c) sp None))"
| "project_fact (ObservationFact s) sp role =
     (if role = HEAD_REPO then Inl (ValueError ''repository Fact has no head role'')
      else Inr (role_evidence SESSION_COMMIT_OBSERVATIONS (sc_id s) role (sc_org_id s) (sc_repo s)
        (rf_repository_provider s) (rf_repository_host s) (rf_repository_id s)
        (sc_captured_at s) sp (Some (sc_source_push_id s))))"

definition repository_identity_evidence_of ::
  "repository_source \<Rightarrow> spelling \<Rightarrow> repository_role \<Rightarrow> identity_evidence result" where
  "repository_identity_evidence_of src sp role = bind_result (project_fact src sp role) validate_evidence"

section \<open>The context\<close>

record repository_context =
  rc_org_id :: string
  rc_as_of :: instant
  rc_skipped :: "identity_skip_reason counter"
  rc_rename_skipped :: "identity_skip_reason counter"
  rc_sources :: "(source_key, identity_evidence) fmap"
  rc_resolutions :: "(source_key, repository_resolution) fmap"
  rc_names :: "(repository_key, string list) fmap"
  rc_claims :: "(string, repository_identity set) fmap"
  rc_unsafe_slugs :: "string set"

definition fm_get :: "('k, 'v) fmap \<Rightarrow> 'k \<Rightarrow> 'v \<Rightarrow> 'v" where
  "fm_get m k v = (case fmlookup m k of None \<Rightarrow> v | Some w \<Rightarrow> w)"

definition resolve_source :: "repository_context \<Rightarrow> source_key \<Rightarrow> repository_resolution" where
  "resolve_source ctx key = fm_get (rc_resolutions ctx) key (declined repository_source_absent)"

definition resolve_fact ::
  "repository_context \<Rightarrow> repository_source \<Rightarrow> spelling \<Rightarrow> repository_role \<Rightarrow> repository_resolution" where
  "resolve_fact ctx src sp role =
     (case repository_identity_evidence_of src sp role of
        Inl _ \<Rightarrow> declined repository_identity_conflict
      | Inr projection \<Rightarrow>
         (let key = source_key_of projection; result = resolve_source ctx key
          in if rs_reason result = Some repository_identity_conflict then result
             else case fmlookup (rc_sources ctx) key of
               None \<Rightarrow> declined repository_source_absent
             | Some row \<Rightarrow>
                if evidence_signature projection \<noteq> evidence_signature row
                then declined repository_identity_conflict else result))"

definition observed_repo_slugs :: "repository_context \<Rightarrow> repository_key \<Rightarrow> string list" where
  "observed_repo_slugs ctx key = fm_get (rc_names ctx) key []"

definition resolve_reference ::
  "repository_context \<Rightarrow> string \<Rightarrow> string \<Rightarrow> repository_identity option \<Rightarrow> repository_resolution" where
  "resolve_reference ctx org_id repo identity =
     (case (OrgId org_id, RepoSlug repo) of
        (Inr org_id, Inr repo) \<Rightarrow>
          if org_id \<noteq> rc_org_id ctx then declined repository_identity_unresolved
          else if repo = [] then declined repository_identity_absent
          else (case identity of
            None \<Rightarrow>
              if repo \<in> fmdom' (rc_claims ctx) \<or> repo \<in> rc_unsafe_slugs ctx
              then declined repository_identity_unresolved
              else resolved_as (LegacyRepositoryKey org_id repo) repo
          | Some i \<Rightarrow>
              let key = IdentifiedRepositoryKey org_id i; names = observed_repo_slugs ctx key
              in if repo \<notin> set names then declined repository_identity_unresolved
                 else resolved_as key (hd names))
      | _ \<Rightarrow> declined repository_identity_unresolved)"

definition select_repository ::
  "repository_context \<Rightarrow> string \<Rightarrow> string option \<Rightarrow> repository_identity option
   \<Rightarrow> repository_key option result" where
  "select_repository ctx org_id repo identity =
     bind_result (OrgId org_id) (\<lambda>org_id.
     bind_result (v_optional RequiredRepoSlug repo) (\<lambda>repo.
       if org_id \<noteq> rc_org_id ctx then Inr None
       else case identity of
         Some i \<Rightarrow>
           (let key = IdentifiedRepositoryKey org_id i; names = observed_repo_slugs ctx key
            in if names = [] then Inr None
               else if repo \<noteq> None \<and> the repo \<notin> set names
               then Inl (ValueError ''repository selector label is not declared'')
               else Inr (Some key))
       | None \<Rightarrow>
           (case repo of
              None \<Rightarrow> Inl (ValueError ''repository selector is absent'')
            | Some repo \<Rightarrow>
               (let claims = fm_get (rc_claims ctx) repo {}
                in if repo \<in> rc_unsafe_slugs ctx \<or> card claims > 1 then Inl RepositoryReadAmbiguous
                   else if claims \<noteq> {}
                   then let key = IdentifiedRepositoryKey org_id (the_elem claims)
                        in if repo \<notin> set (observed_repo_slugs ctx key) then Inl RepositoryReadAmbiguous
                           else Inr (Some key)
                   else Inr (Some (LegacyRepositoryKey org_id repo))))))"

definition context_commit_key ::
  "repository_context \<Rightarrow> string \<Rightarrow> string \<Rightarrow> string \<Rightarrow> repository_identity option \<Rightarrow> commit_key option"
where
  "context_commit_key ctx org_id repo commit_sha identity =
     (case rs_key (resolve_reference ctx org_id repo identity) of
        None \<Rightarrow> None
      | Some key \<Rightarrow> (case new_commit_key key commit_sha of Inl _ \<Rightarrow> None | Inr c \<Rightarrow> Some c))"

definition repo_for :: "repository_context \<Rightarrow> repository_key \<Rightarrow> string result" where
  "repo_for ctx key =
     (let missing = Inl (KeyError ''repository key has no eligible label'')
      in case key of
        LegacyRepositoryKey org repo \<Rightarrow>
          (let resolved = resolve_reference ctx org repo None
           in if rs_key resolved = Some key then Inr (the (rs_repo resolved)) else missing)
      | IdentifiedRepositoryKey org i \<Rightarrow>
          (case observed_repo_slugs ctx key of [] \<Rightarrow> missing | name # _ \<Rightarrow> Inr name))"

definition repository_keys :: "repository_context \<Rightarrow> repository_key list" where
  "repository_keys ctx = sorted_list_of_set (fmdom' (rc_names ctx))"

definition mirror_refresh_resolution ::
  "repository_context \<Rightarrow> fact_table \<Rightarrow> string \<Rightarrow> string \<Rightarrow> repository_resolution" where
  "mirror_refresh_resolution ctx table fact_id repo =
     (let unresolved = declined repository_mirror_identity_unresolved
      in case RepoSlug repo of
        Inl _ \<Rightarrow> unresolved
      | Inr repo \<Rightarrow>
         (let result = resolve_source ctx (table, fact_id, REPO)
          in case (rs_key result, fmlookup (rc_sources ctx) (table, fact_id, REPO)) of
            (Some key, Some source) \<Rightarrow>
              if repo \<in> rc_unsafe_slugs ctx then unresolved
              else (case key of
                IdentifiedRepositoryKey org i \<Rightarrow>
                  if repo \<notin> set (observed_repo_slugs ctx key) \<or> fmlookup (rc_claims ctx) repo \<noteq> Some {i}
                  then unresolved else result
              | LegacyRepositoryKey org r \<Rightarrow>
                  if repo \<noteq> ev_repo source then unresolved else result)
          | _ \<Rightarrow> unresolved))"

section \<open>Building the context\<close>

text \<open>On a validated row the identity is present or absent but never partial
  (\<open>evidence_identity_validated\<close> below), so the loops read it as an option.\<close>

definition evidence_identity :: "identity_evidence \<Rightarrow> repository_identity option" where
  "evidence_identity row = (case evidence_identity_of row of Inr i \<Rightarrow> i | Inl _ \<Rightarrow> None)"

definition source_identity ::
  "identity_evidence \<Rightarrow> (source_key, identity_evidence) fmap \<Rightarrow> source_key set
   \<Rightarrow> repository_identity option \<times> identity_evidence list \<times> identity_skip_reason option" where
  "source_identity row sources conflicts =
     (let identity = evidence_identity row;
          absent = (identity, [row], if identity \<noteq> None then Some repository_source_absent else None)
      in if ev_source_table row \<noteq> SESSION_COMMIT_OBSERVATIONS then (identity, [row], None)
         else case ev_source_push_id row of
           None \<Rightarrow> absent
         | Some push_id \<Rightarrow>
            (let key = (PUSHES, push_id, REPO)
             in if key \<in> conflicts then (None, [row], Some repository_identity_conflict)
                else case fmlookup sources key of
                  None \<Rightarrow> absent
                | Some push \<Rightarrow>
                   (let proof = sort_key evidence_sort_key [row, push]
                    in case evidence_identity push of
                      None \<Rightarrow>
                        if identity \<noteq> None then (None, proof, Some repository_identity_unresolved)
                        else if ev_repo row \<noteq> ev_repo push
                        then (None, proof, Some repository_identity_conflict)
                        else (None, proof, None)
                    | Some source \<Rightarrow>
                        if identity \<noteq> None \<and> Some source \<noteq> identity
                        then (None, proof, Some repository_identity_conflict)
                        else (Some source, proof, None))))"

definition fm_add :: "'k \<Rightarrow> 'v \<Rightarrow> ('k, 'v set) fmap \<Rightarrow> ('k, 'v set) fmap" where
  "fm_add k v m = fmupd k (insert v (fm_get m k {})) m"

definition fm_add_all :: "('k \<times> 'v) list \<Rightarrow> ('k, 'v set) fmap \<Rightarrow> ('k, 'v set) fmap" where
  "fm_add_all kvs m = fold (\<lambda>(k, v). fm_add k v) kvs m"

subsection \<open>Renames\<close>

definition rename_identity :: "repository_rename \<Rightarrow> repository_identity" where
  "rename_identity row =
     \<lparr>ri_provider = rr_repository_provider row, ri_host = rr_repository_host row,
      ri_repository_id = rr_repository_id row\<rparr>"

definition rename_signature ::
  "repository_rename
   \<Rightarrow> repository_identity \<times> string \<times> string \<times> string option \<times> instant option \<times> instant" where
  "rename_signature row =
     (rename_identity row, rr_old_repo row, rr_new_repo row, rr_source_event_id row,
      rr_occurred_at row, rr_captured_at row)"

definition rename_delivery :: "repository_rename \<Rightarrow> forge_provider \<times> string \<times> string option" where
  "rename_delivery row = (rr_repository_provider row, rr_repository_host row, rr_source_event_id row)"

definition delivery_signature ::
  "repository_rename \<Rightarrow> repository_identity \<times> string \<times> string \<times> instant option" where
  "delivery_signature row =
     (rename_identity row, rr_old_repo row, rr_new_repo row, rr_occurred_at row)"

text \<open>The first loop of \<open>_rename_claims\<close>: validated rows of the organization captured by the
  boundary, in order.\<close>

fun eligible_renames ::
  "repository_rename list \<Rightarrow> string \<Rightarrow> instant \<Rightarrow> repository_rename list result" where
  "eligible_renames [] org_id boundary = Inr []"
| "eligible_renames (row # renames) org_id boundary =
     (case validate_repository_rename row of
        Inl _ \<Rightarrow> Inl (ValueError ''invalid repository rename evidence'')
      | Inr row \<Rightarrow>
          if rr_org_id row \<noteq> org_id then eligible_renames renames org_id boundary
          else bind_result (as_utc (rr_captured_at row)) (\<lambda>captured.
            if captured > boundary then eligible_renames renames org_id boundary
            else bind_result (v_optional as_utc (rr_occurred_at row)) (\<lambda>_.
              bind_result (eligible_renames renames org_id boundary) (\<lambda>rows. Inr (row # rows)))))"

text \<open>The \<open>signatures\<close> check of the same loop: the last signature seen under the id differs.\<close>

definition rename_conflict_step ::
  "repository_rename
   \<Rightarrow> (string, repository_identity \<times> string \<times> string \<times> string option \<times> instant option \<times> instant) fmap
       \<times> string set
   \<Rightarrow> (string, repository_identity \<times> string \<times> string \<times> string option \<times> instant option \<times> instant) fmap
       \<times> string set" where
  "rename_conflict_step row = (\<lambda>(signatures, conflicts).
     (fmupd (rr_id row) (rename_signature row) signatures,
      if (case fmlookup signatures (rr_id row) of
            None \<Rightarrow> False | Some s \<Rightarrow> s \<noteq> rename_signature row)
      then insert (rr_id row) conflicts else conflicts))"

definition delivery_conflicts :: "repository_rename list \<Rightarrow> string set" where
  "delivery_conflicts rows =
     (\<Union>(delivery, group)\<in>set (group_by rename_delivery
            (filter (\<lambda>row. rr_source_event_id row \<noteq> None) rows)).
        if card (delivery_signature ` set group) > 1 then rr_id ` set group else {})"

definition rename_conflicts :: "repository_rename list \<Rightarrow> string set" where
  "rename_conflicts rows =
     snd (fold rename_conflict_step rows (fmempty, {})) \<union> delivery_conflicts rows"

text \<open>The last loop visits the copies grouped by rename id; \<open>claims\<close> and \<open>unsafe\<close> are sets, and
  \<open>valid\<close> only feeds the name sets.\<close>

definition rename_rows :: "repository_rename list \<Rightarrow> repository_rename list" where
  "rename_rows rows = concat (map snd (group_by rr_id rows))"

definition valid_renames ::
  "repository_rename list \<Rightarrow> string set \<Rightarrow> (repository_identity \<times> string \<times> string) list" where
  "valid_renames rows conflicts =
     map (\<lambda>row. (rename_identity row, rr_old_repo row, rr_new_repo row))
       (filter (\<lambda>row. rr_id row \<notin> conflicts) (rename_rows rows))"

definition rename_claims :: "repository_rename list \<Rightarrow> (string, repository_identity set) fmap" where
  "rename_claims rows =
     fm_add_all (concat (map (\<lambda>row. [(rr_old_repo row, rename_identity row),
         (rr_new_repo row, rename_identity row)]) (rename_rows rows))) fmempty"

definition unsafe_rename_slugs :: "repository_rename list \<Rightarrow> string set \<Rightarrow> string set" where
  "unsafe_rename_slugs rows conflicts =
     (\<Union>row\<in>set (filter (\<lambda>row. rr_id row \<in> conflicts) (rename_rows rows)).
        {rr_old_repo row, rr_new_repo row})"

subsection \<open>Sources\<close>

record evidence_scan =
  es_sources :: "(source_key, identity_evidence) fmap"
  es_conflicts :: "source_key set"
  es_copies :: "(source_key \<times> identity_evidence list) list"

definition scan_step :: "identity_evidence \<Rightarrow> evidence_scan \<Rightarrow> evidence_scan" where
  "scan_step row st =
     (let key = source_key_of row; kept = fmlookup (es_sources st) key
      in \<lparr>es_sources =
            (case kept of
               None \<Rightarrow> fmupd key row (es_sources st)
             | Some old \<Rightarrow>
                 if evidence_representation_key row < evidence_representation_key old
                 then fmupd key row (es_sources st) else es_sources st),
          es_conflicts =
            (case kept of
               None \<Rightarrow> es_conflicts st
             | Some old \<Rightarrow>
                 if evidence_signature old \<noteq> evidence_signature row
                 then insert key (es_conflicts st) else es_conflicts st),
          es_copies = dict_append key row (es_copies st)\<rparr>)"

fun scan_evidence ::
  "identity_evidence list \<Rightarrow> string \<Rightarrow> instant \<Rightarrow> evidence_scan \<Rightarrow> evidence_scan result" where
  "scan_evidence [] org_id boundary st = Inr st"
| "scan_evidence (row # rows) org_id boundary st =
     bind_result (validate_evidence row) (\<lambda>row.
       if ev_org_id row \<noteq> org_id \<or> ev_captured_at row > boundary
       then scan_evidence rows org_id boundary st
       else scan_evidence rows org_id boundary (scan_step row st))"

definition REPOSITORY_IDENTITY_LIMIT :: nat where
  "REPOSITORY_IDENTITY_LIMIT = 50000"

text \<open>The eligible non-conflicting sources, one entry per key. Their order is the order of the
  \<open>sources\<close> dictionary; everything computed from it is a set, a finite map or a count.\<close>

definition source_list :: "evidence_scan \<Rightarrow> identity_evidence list" where
  "source_list st =
     map (\<lambda>key. the (fmlookup (es_sources st) key))
       (filter (\<lambda>key. key \<notin> es_conflicts st) (map fst (es_copies st)))"

type_synonym source_outcome =
  "repository_identity option \<times> identity_evidence list \<times> identity_skip_reason option"

definition eligible_sources :: "evidence_scan \<Rightarrow> (source_key, identity_evidence) fmap" where
  "eligible_sources scan = fmfilter (\<lambda>key. key \<notin> es_conflicts scan) (es_sources scan)"

definition resolved_rows :: "evidence_scan \<Rightarrow> (identity_evidence \<times> source_outcome) list" where
  "resolved_rows scan =
     map (\<lambda>row. (row, source_identity row (eligible_sources scan) (es_conflicts scan)))
       (source_list scan)"

definition name_entry ::
  "string \<Rightarrow> identity_evidence
   \<Rightarrow> source_outcome
   \<Rightarrow> (repository_key \<times> string) list" where
  "name_entry org_id row res =
     (case res of (identity, proof, reason) \<Rightarrow>
        if reason \<noteq> None \<or> ev_repo row = [] then []
        else [(case identity of
                 Some i \<Rightarrow> IdentifiedRepositoryKey org_id i
               | None \<Rightarrow> LegacyRepositoryKey org_id (ev_repo row), ev_repo row)])"

definition context_names ::
  "string \<Rightarrow> (repository_identity \<times> string \<times> string) list \<Rightarrow> (identity_evidence \<times> source_outcome) list
   \<Rightarrow> (repository_key, string set) fmap" where
  "context_names org_id valid resolved =
     fm_add_all
       (concat (map (\<lambda>(identity, old_repo, new_repo).
           [(IdentifiedRepositoryKey org_id identity, old_repo),
            (IdentifiedRepositoryKey org_id identity, new_repo)]) valid)
        @ concat (map (\<lambda>(row, r). name_entry org_id row r) resolved)) fmempty"

definition captured_claim :: "identity_evidence \<Rightarrow> (string \<times> repository_identity) list" where
  "captured_claim row =
     (case evidence_identity row of
        Some i \<Rightarrow> if ev_repo row \<noteq> [] then [(ev_repo row, i)] else []
      | None \<Rightarrow> [])"

definition resolved_claim ::
  "identity_evidence \<times> source_outcome \<Rightarrow> (string \<times> repository_identity) list" where
  "resolved_claim = (\<lambda>(row, identity, proof, reason).
     if reason \<noteq> None \<or> ev_repo row = [] then []
     else (case identity of Some i \<Rightarrow> [(ev_repo row, i)] | None \<Rightarrow> []))"

definition context_claims ::
  "repository_rename list \<Rightarrow> identity_evidence list \<Rightarrow> (identity_evidence \<times> source_outcome) list
   \<Rightarrow> (string, repository_identity set) fmap" where
  "context_claims rows copies resolved =
     fm_add_all (concat (map captured_claim copies) @ concat (map resolved_claim resolved))
       (rename_claims rows)"

definition base_context ::
  "string \<Rightarrow> instant \<Rightarrow> evidence_scan \<Rightarrow> repository_rename list \<Rightarrow> repository_context" where
  "base_context org_id boundary scan rows =
     (let conflicts = rename_conflicts rows; copies = concat (map snd (es_copies scan))
      in \<lparr>rc_org_id = org_id, rc_as_of = boundary, rc_skipped = ctr_empty,
          rc_rename_skipped = (\<lambda>r. if r = repository_identity_conflict then card conflicts else 0),
          rc_sources = eligible_sources scan, rc_resolutions = fmempty,
          rc_names = fmmap sorted_list_of_set
            (context_names org_id (valid_renames rows conflicts) (resolved_rows scan)),
          rc_claims = context_claims rows copies (resolved_rows scan),
          rc_unsafe_slugs = unsafe_rename_slugs rows conflicts
            \<union> ev_repo ` set (filter (\<lambda>row. source_key_of row \<in> es_conflicts scan) copies)\<rparr>)"

definition source_result ::
  "repository_context \<Rightarrow> identity_evidence \<times> source_outcome \<Rightarrow> repository_resolution" where
  "source_result ctx = (\<lambda>(row, identity, proof, reason).
     if reason \<noteq> None
     then \<lparr>rs_key = None, rs_repo = None, rs_reason = reason, rs_evidence = proof\<rparr>
     else (resolve_reference ctx (rc_org_id ctx) (ev_repo row) identity)\<lparr>rs_evidence := proof\<rparr>)"

definition context_results ::
  "evidence_scan \<Rightarrow> repository_context \<Rightarrow> (source_key, repository_resolution) fmap" where
  "context_results scan ctx =
     fold (\<lambda>r. fmupd (source_key_of (fst r)) (source_result ctx r)) (resolved_rows scan)
       (fmap_of_list (map (\<lambda>key. (key, declined repository_identity_conflict))
          (filter (\<lambda>key. key \<in> es_conflicts scan) (map fst (es_copies scan)))))"

definition count_reasons :: "(source_key, repository_resolution) fmap \<Rightarrow> identity_skip_reason counter" where
  "count_reasons results =
     (\<lambda>reason. card (Set.filter
        (\<lambda>key. map_option rs_reason (fmlookup results key) = Some (Some reason)) (fmdom' results)))"

definition assemble_context ::
  "string \<Rightarrow> instant \<Rightarrow> evidence_scan \<Rightarrow> repository_rename list \<Rightarrow> repository_context" where
  "assemble_context org_id boundary scan rows =
     (let ctx = base_context org_id boundary scan rows; results = context_results scan ctx
      in ctx\<lparr>rc_skipped := count_reasons results, rc_resolutions := results\<rparr>)"

definition build_repository_context ::
  "identity_evidence list \<Rightarrow> repository_rename list \<Rightarrow> string \<Rightarrow> instant option
   \<Rightarrow> repository_context result" where
  "build_repository_context evidence renames org_id as_of =
     (case as_of of None \<Rightarrow> Inl (ValueError ''as_of must be an aware datetime'') | Some as_of \<Rightarrow>
      bind_result (OrgId org_id) (\<lambda>org_id.
      let evidence = take (REPOSITORY_IDENTITY_LIMIT + 1) evidence;
          renames = take (REPOSITORY_IDENTITY_LIMIT + 1) renames
      in if length evidence > REPOSITORY_IDENTITY_LIMIT \<or> length renames > REPOSITORY_IDENTITY_LIMIT
         then Inl (LimitExceeded ''repository identity population exceeds limit'')
         else
      bind_result (as_utc as_of) (\<lambda>boundary.
      bind_result (scan_evidence evidence org_id boundary
          \<lparr>es_sources = fmempty, es_conflicts = {}, es_copies = []\<rparr>) (\<lambda>scan.
      bind_result (eligible_renames renames org_id boundary) (\<lambda>rows.
      Inr (assemble_context org_id boundary scan rows))))))"

end
