(* ===== verification/Repository_Laws.thy ===== *)
theory Repository_Laws
  imports Repository_Identity
begin

text \<open>
  What the loops of \<open>build_repository_context\<close> compute, and the properties that follow: the context
  depends on the population as a set, legacy names never borrow an identity, conflicting sources
  resolve to nothing, and every source is accounted for.
\<close>

section \<open>Multimaps built by \<open>setdefault(k, set()).add(v)\<close>\<close>

lemma fm_get_lookup: "fmlookup m k = Some v \<Longrightarrow> fm_get m k d = v"
  "fmlookup m k = None \<Longrightarrow> fm_get m k d = d"
  by (simp_all add: fm_get_def)

lemma fm_add_all_lookup:
  "fmlookup (fm_add_all kvs m) k =
     (if k \<in> fst ` set kvs \<or> fmlookup m k \<noteq> None
      then Some (fm_get m k {} \<union> {v. (k, v) \<in> set kvs}) else None)"
proof (induction kvs arbitrary: m)
  case Nil
  then show ?case by (auto simp: fm_add_all_def fm_get_def)
next
  case (Cons kv kvs)
  obtain a b where kv: "kv = (a, b)" by fastforce
  have "fm_add_all (kv # kvs) m = fm_add_all kvs (fm_add a b m)"
    by (simp add: fm_add_all_def kv)
  then have "fmlookup (fm_add_all (kv # kvs) m) k = fmlookup (fm_add_all kvs (fm_add a b m)) k" by simp
  then show ?case
    unfolding Cons.IH by (auto simp: kv fm_add_def fm_get_def)
qed

lemma fm_add_all_cong: "set kvs = set kvs' \<Longrightarrow> fm_add_all kvs m = fm_add_all kvs' m"
  by (intro fmap_ext) (simp add: fm_add_all_lookup)

lemma fmap_of_keyed_list:
  assumes "inj_on key (set xs)"
  shows "fmlookup (fmap_of_list (map (\<lambda>x. (key x, f x)) xs)) k =
     (if k \<in> key ` set xs then Some (f (the_inv_into (set xs) key k)) else None)"
proof -
  have "map_of (map (\<lambda>x. (key x, f x)) xs) k =
     (if k \<in> key ` set xs then Some (f (the_inv_into (set xs) key k)) else None)"
  proof (cases "k \<in> key ` set xs")
    case True
    then obtain x where x: "x \<in> set xs" "k = key x" by blast
    have "map_of (map (\<lambda>x. (key x, f x)) xs) k = Some (f x)"
      using assms x by (induction xs) (auto simp: inj_on_def)
    moreover have "the_inv_into (set xs) key k = x"
      using x the_inv_into_f_f[OF assms] by simp
    ultimately show ?thesis using True by simp
  next
    case False
    then show ?thesis by (auto simp: map_of_eq_None_iff)
  qed
  then show ?thesis by (simp add: fmap_of_list.rep_eq)
qed

lemma fold_fmupd_keyed:
  assumes "inj_on key (set xs)"
  shows "fmlookup (fold (\<lambda>x. fmupd (key x) (f x)) xs m) k =
     (if k \<in> key ` set xs then Some (f (the_inv_into (set xs) key k)) else fmlookup m k)"
  using assms
proof (induction xs rule: rev_induct)
  case (snoc x xs)
  then have inj: "inj_on key (set xs)" by (auto intro: inj_on_subset)
  show ?case
  proof (cases "k = key x")
    case True
    then have "the_inv_into (set (xs @ [x])) key k = x"
      using the_inv_into_f_f[OF snoc.prems, of x] by simp
    then show ?thesis using True by simp
  next
    case False
    show ?thesis
    proof (cases "k \<in> key ` set xs")
      case True
      then obtain y where y: "y \<in> set xs" "k = key y" by blast
      then have "the_inv_into (set xs) key k = y" "the_inv_into (set (xs @ [x])) key k = y"
        using the_inv_into_f_f[OF inj] the_inv_into_f_f[OF snoc.prems] by auto
      with False True snoc.IH[OF inj] show ?thesis by auto
    qed (use False snoc.IH[OF inj] in auto)
  qed
qed simp

section \<open>Keys whose copies disagree\<close>

definition clash :: "('a \<Rightarrow> 'k) \<Rightarrow> ('a \<Rightarrow> 's) \<Rightarrow> 'a set \<Rightarrow> 'k set" where
  "clash key sig E = {k. \<exists>r\<in>E. \<exists>r'\<in>E. key r = k \<and> key r' = k \<and> sig r \<noteq> sig r'}"

lemma clashI: "r \<in> E \<Longrightarrow> r' \<in> E \<Longrightarrow> key r = k \<Longrightarrow> key r' = k \<Longrightarrow> sig r \<noteq> sig r' \<Longrightarrow> k \<in> clash key sig E"
  unfolding clash_def by blast

lemma clashE:
  assumes "k \<in> clash key sig E"
  obtains r r' where "r \<in> E" "r' \<in> E" "key r = k" "key r' = k" "sig r \<noteq> sig r'"
  using assms unfolding clash_def by blast

lemma clash_empty [simp]: "clash key sig {} = {}"
  by (simp add: clash_def)

lemma clash_mono: "E \<subseteq> E' \<Longrightarrow> clash key sig E \<subseteq> clash key sig E'"
  unfolding clash_def by blast

lemma clash_insert_new:
  assumes "key x \<notin> key ` E"
  shows "clash key sig (insert x E) = clash key sig E"
proof
  show "clash key sig (insert x E) \<subseteq> clash key sig E"
  proof
    fix k assume "k \<in> clash key sig (insert x E)"
    then obtain r r' where "r \<in> insert x E" "r' \<in> insert x E" "key r = k" "key r' = k" "sig r \<noteq> sig r'"
      by (rule clashE)
    moreover from this assms have "r \<in> E" "r' \<in> E" by (metis image_eqI insertE)+
    ultimately show "k \<in> clash key sig E" by (intro clashI)
  qed
qed (rule clash_mono, blast)

lemma clash_insert_known:
  assumes "r \<in> E" "key r = key x"
  shows "clash key sig (insert x E) =
    (if sig r \<noteq> sig x then insert (key x) (clash key sig E) else clash key sig E)"
proof -
  have "k \<in> clash key sig E" if "k \<in> clash key sig (insert x E)" "sig r = sig x \<or> k \<noteq> key x" for k
  proof -
    obtain s s' where s: "s \<in> insert x E" "s' \<in> insert x E" "key s = k" "key s' = k" "sig s \<noteq> sig s'"
      using \<open>k \<in> clash key sig (insert x E)\<close> by (rule clashE)
    with that(2) assms show ?thesis
      by (intro clashI[of "if s = x then r else s" _ "if s' = x then r else s'"]) (auto split: if_splits)
  qed
  moreover have "key x \<in> clash key sig (insert x E)" if "sig r \<noteq> sig x"
    using assms that by (intro clashI[of r _ x]) auto
  moreover have "clash key sig E \<subseteq> clash key sig (insert x E)" by (rule clash_mono) blast
  ultimately show ?thesis by (auto split: if_splits)
qed

lemma not_clash: "k \<notin> clash key sig E \<Longrightarrow> r \<in> E \<Longrightarrow> r' \<in> E \<Longrightarrow> key r = k \<Longrightarrow> key r' = k \<Longrightarrow> sig r = sig r'"
  by (rule ccontr) (blast intro: clashI)

section \<open>What the evidence loop computes\<close>

definition scan_init :: evidence_scan where
  "scan_init = \<lparr>es_sources = fmempty, es_conflicts = {}, es_copies = []\<rparr>"

definition scan_rows :: "identity_evidence list \<Rightarrow> evidence_scan" where
  "scan_rows E = fold scan_step E scan_init"

abbreviation conflicting :: "identity_evidence set \<Rightarrow> source_key set" where
  "conflicting \<equiv> clash source_key_of evidence_signature"

lemma scan_rows_snoc: "scan_rows (E @ [x]) = scan_step x (scan_rows E)"
  by (simp add: scan_rows_def)

lemma scan_copies: "es_copies (scan_rows E) = group_by source_key_of E"
  by (induction E rule: rev_induct)
    (simp_all add: scan_rows_snoc scan_step_def Let_def, simp add: scan_rows_def scan_init_def)

lemma scan_sources:
  "case fmlookup (es_sources (scan_rows E)) k of
     None \<Rightarrow> k \<notin> source_key_of ` set E
   | Some r \<Rightarrow> r \<in> set E \<and> source_key_of r = k
       \<and> (\<forall>r'\<in>set E. source_key_of r' = k \<longrightarrow> ev_captured_spelling r \<le> ev_captured_spelling r')"
proof (induction E rule: rev_induct)
  case Nil
  then show ?case by (simp add: scan_rows_def scan_init_def)
next
  case (snoc x E)
  show ?case
  proof (cases "fmlookup (es_sources (scan_rows E)) k")
    case None
    then have "k \<notin> source_key_of ` set E" using snoc by simp
    then show ?thesis using None
      by (cases "source_key_of x = k")
        (auto simp: scan_rows_snoc scan_step_def Let_def image_iff split: option.splits)
  next
    case (Some r)
    then show ?thesis using snoc
      by (auto simp: scan_rows_snoc scan_step_def Let_def evidence_representation_key_def
          split: option.splits)
  qed
qed

lemma scan_source_Some:
  "fmlookup (es_sources (scan_rows E)) k = Some r \<Longrightarrow> r \<in> set E"
  "fmlookup (es_sources (scan_rows E)) k = Some r \<Longrightarrow> source_key_of r = k"
  "fmlookup (es_sources (scan_rows E)) k = Some r \<Longrightarrow> r' \<in> set E \<Longrightarrow> source_key_of r' = k
     \<Longrightarrow> ev_captured_spelling r \<le> ev_captured_spelling r'"
  using scan_sources[of k E] by simp_all

lemma scan_source_None:
  "fmlookup (es_sources (scan_rows E)) k = None \<longleftrightarrow> k \<notin> source_key_of ` set E"
  using scan_sources[of k E] by (cases "fmlookup (es_sources (scan_rows E)) k") (simp, force)

lemma scan_conflicts: "es_conflicts (scan_rows E) = conflicting (set E)"
proof (induction E rule: rev_induct)
  case Nil
  then show ?case by (simp add: scan_rows_def scan_init_def)
next
  case (snoc x E)
  show ?case
  proof (cases "fmlookup (es_sources (scan_rows E)) (source_key_of x)")
    case None
    then have "source_key_of x \<notin> source_key_of ` set E" unfolding scan_source_None .
    then show ?thesis using None snoc
      by (simp add: scan_rows_snoc scan_step_def Let_def clash_insert_new)
  next
    case (Some r)
    note clash_insert_known[OF scan_source_Some(1)[OF Some] scan_source_Some(2)[OF Some],
        of evidence_signature]
    then show ?thesis using Some snoc by (simp add: scan_rows_snoc scan_step_def Let_def)
  qed
qed

lemma evidence_eqI:
  "evidence_signature r = evidence_signature r' \<Longrightarrow> ev_captured_spelling r = ev_captured_spelling r' \<Longrightarrow> r = r'"
  by (auto simp: evidence_signature_def source_key_of_def intro: identity_evidence.equality)

lemma scan_sources_perm:
  assumes "set E = set E'" "k \<notin> conflicting (set E)"
  shows "fmlookup (es_sources (scan_rows E)) k = fmlookup (es_sources (scan_rows E')) k"
proof (cases "fmlookup (es_sources (scan_rows E)) k")
  case None
  then have "fmlookup (es_sources (scan_rows E')) k = None"
    unfolding scan_source_None assms(1) .
  with None show ?thesis by simp
next
  case (Some r)
  then obtain r' where Some': "fmlookup (es_sources (scan_rows E')) k = Some r'"
    using scan_source_None[of E k] scan_source_None[of E' k] assms(1) by fastforce
  note r = scan_source_Some[OF Some] and r' = scan_source_Some[OF Some']
  have "r' \<in> set E" "r \<in> set E'" using r(1) r'(1) assms(1) by simp_all
  then have "ev_captured_spelling r = ev_captured_spelling r'"
    using r(3)[of r'] r'(3)[of r] r(2) r'(2) by simp
  moreover have "evidence_signature r = evidence_signature r'"
    using not_clash[OF assms(2) r(1) \<open>r' \<in> set E\<close> r(2) r'(2)] .
  ultimately show ?thesis using Some Some' evidence_eqI by simp
qed

lemma set_group_by_image:
  "set (group_by key xs) = (\<lambda>r. (key r, filter (\<lambda>x. key x = key r) xs)) ` set xs"
  by (auto simp: set_group_by)

lemma set_concat_group_by: "set (concat (map snd (group_by key xs))) = set xs"
  by (auto simp: set_group_by_image)

section \<open>What the rename loops compute\<close>

lemma rename_conflict_fold:
  "(\<forall>i. case fmlookup (fst (fold rename_conflict_step rows (fmempty, {}))) i of
      None \<Rightarrow> i \<notin> rr_id ` set rows
    | Some sig \<Rightarrow> \<exists>r\<in>set rows. rr_id r = i \<and> rename_signature r = sig)
   \<and> snd (fold rename_conflict_step rows (fmempty, {})) = clash rr_id rename_signature (set rows)"
proof (induction rows rule: rev_induct)
  case (snoc x rows)
  obtain sigs C where st: "fold rename_conflict_step rows (fmempty, {}) = (sigs, C)" by fastforce
  have IH: "case fmlookup sigs i of None \<Rightarrow> i \<notin> rr_id ` set rows
      | Some sig \<Rightarrow> \<exists>r\<in>set rows. rr_id r = i \<and> rename_signature r = sig" for i
    using snoc unfolding st fst_conv by blast
  have C: "C = clash rr_id rename_signature (set rows)" using snoc unfolding st snd_conv by blast
  have step: "fold rename_conflict_step (rows @ [x]) (fmempty, {}) = rename_conflict_step x (sigs, C)"
    by (simp add: st)
  have 1: "case fmlookup (fst (rename_conflict_step x (sigs, C))) i of
      None \<Rightarrow> i \<notin> rr_id ` set (rows @ [x])
    | Some sig \<Rightarrow> \<exists>r\<in>set (rows @ [x]). rr_id r = i \<and> rename_signature r = sig" for i
    using IH[of i] by (cases "i = rr_id x") (auto simp: rename_conflict_step_def split: option.splits)
  have 2: "snd (rename_conflict_step x (sigs, C)) = clash rr_id rename_signature (set (rows @ [x]))"
  proof (cases "fmlookup sigs (rr_id x)")
    case None
    then have "rr_id x \<notin> rr_id ` set rows" using IH[of "rr_id x"] by simp
    then show ?thesis using None by (simp add: rename_conflict_step_def C clash_insert_new)
  next
    case (Some sig)
    then obtain r where r: "r \<in> set rows" "rr_id r = rr_id x" "rename_signature r = sig"
      using IH[of "rr_id x"] by (auto simp del: split_paired_Ex)
    note clash_insert_known[OF r(1,2), of rename_signature]
    then show ?thesis using Some r(3) by (simp add: rename_conflict_step_def C)
  qed
  show ?case unfolding step using 1 2 by blast
qed simp

lemma delivery_conflicts_eq:
  "delivery_conflicts rows =
     (\<Union>r\<in>{r\<in>set rows. rr_source_event_id r \<noteq> None}.
        let group = {r'\<in>set rows. rr_source_event_id r' \<noteq> None \<and> rename_delivery r' = rename_delivery r}
        in if card (delivery_signature ` group) > 1 then rr_id ` group else {})"
proof -
  let ?xs = "filter (\<lambda>row. rr_source_event_id row \<noteq> None) rows"
  have f: "set (filter (\<lambda>x. rename_delivery x = rename_delivery r) ?xs)
      = {r'\<in>set rows. rr_source_event_id r' \<noteq> None \<and> rename_delivery r' = rename_delivery r}" for r
    by auto
  show ?thesis
    unfolding delivery_conflicts_def set_group_by_image UN_simps image_image split_conv Let_def f by simp
qed

lemma rename_conflicts_eq:
  "rename_conflicts rows = clash rr_id rename_signature (set rows) \<union> delivery_conflicts rows"
  using rename_conflict_fold[of rows] by (simp add: rename_conflicts_def)

lemma rename_conflicts_cong: "set rows = set rows' \<Longrightarrow> rename_conflicts rows = rename_conflicts rows'"
  by (simp add: rename_conflicts_eq delivery_conflicts_eq)

lemma set_rename_rows [simp]: "set (rename_rows rows) = set rows"
  unfolding rename_rows_def by (rule set_concat_group_by)

section \<open>Eligible rows\<close>

lemma as_utc_Inr: "as_utc t = Inr t' \<longleftrightarrow> UTC_MIN \<le> t \<and> t \<le> UTC_MAX \<and> t' = t"
  by (auto simp: as_utc_def)

lemma validate_evidence_Inr: "validate_evidence row = Inr row' \<Longrightarrow> row' = row"
proof -
  assume a: "validate_evidence row = Inr row'"
  have "evidence_signature row = evidence_signature row'"
    using a by (auto simp: validate_evidence_def Let_def split: sum.splits if_splits)
  moreover have "validate_evidence_fields row = Inr row'"
    using a by (auto simp: validate_evidence_def Let_def split: sum.splits if_splits)
  then have "ev_captured_spelling row' = ev_captured_spelling row"
    by (auto simp: validate_evidence_fields_def v_field_Inr v_require_Inr)
  ultimately show ?thesis using evidence_eqI by metis
qed

definition eligible_evidence :: "string \<Rightarrow> instant \<Rightarrow> identity_evidence list \<Rightarrow> identity_evidence list" where
  "eligible_evidence org_id boundary =
     filter (\<lambda>row. ev_org_id row = org_id \<and> ev_captured_at row \<le> boundary)"

lemma scan_evidence_Inr:
  "scan_evidence rows org_id boundary st = Inr st' \<longleftrightarrow>
     (\<forall>row\<in>set rows. validate_evidence row = Inr row)
     \<and> st' = fold scan_step (eligible_evidence org_id boundary rows) st"
proof (induction rows arbitrary: st)
  case Nil
  then show ?case by (auto simp: eligible_evidence_def)
next
  case (Cons row rows)
  show ?case
  proof (cases "validate_evidence row")
    case (Inl e)
    then show ?thesis by simp
  next
    case (Inr row')
    with validate_evidence_Inr have "validate_evidence row = Inr row" by metis
    with Cons show ?thesis by (auto simp: eligible_evidence_def)
  qed
qed

definition rename_ok :: "string \<Rightarrow> instant \<Rightarrow> repository_rename \<Rightarrow> bool" where
  "rename_ok org_id boundary row =
     (case validate_repository_rename row of
        Inl _ \<Rightarrow> False
      | Inr row \<Rightarrow> rr_org_id row \<noteq> org_id
          \<or> ((\<exists>t. as_utc (rr_captured_at row) = Inr t)
             \<and> (rr_captured_at row > boundary \<or> (\<exists>t. v_optional as_utc (rr_occurred_at row) = Inr t))))"

definition renames_before :: "string \<Rightarrow> instant \<Rightarrow> repository_rename set \<Rightarrow> repository_rename set" where
  "renames_before org_id boundary R =
     {row'. \<exists>row\<in>R. validate_repository_rename row = Inr row'
        \<and> rr_org_id row' = org_id \<and> rr_captured_at row' \<le> boundary}"

lemma eligible_renames_fails:
  "\<not> rename_ok org_id boundary row \<Longrightarrow> \<exists>e. eligible_renames (row # renames) org_id boundary = Inl e"
  by (cases "validate_repository_rename row")
    (auto simp: rename_ok_def as_utc_Inr bind_result_def split: sum.splits)

lemma eligible_renames_step:
  assumes "rename_ok org_id boundary row"
  obtains row' where "validate_repository_rename row = Inr row'"
    "eligible_renames (row # renames) org_id boundary =
       (if rr_org_id row' = org_id \<and> rr_captured_at row' \<le> boundary
        then bind_result (eligible_renames renames org_id boundary) (\<lambda>rows. Inr (row' # rows))
        else eligible_renames renames org_id boundary)"
proof -
  obtain row' where v: "validate_repository_rename row = Inr row'"
    using assms by (auto simp: rename_ok_def split: sum.splits)
  show ?thesis
    using assms v by (intro that[OF v]) (auto simp: rename_ok_def as_utc_def split: if_splits)
qed

lemma eligible_renames_Inr:
  "(\<exists>rows. eligible_renames renames org_id boundary = Inr rows \<and>
      set rows = renames_before org_id boundary (set renames))
   \<longleftrightarrow> (\<forall>row\<in>set renames. rename_ok org_id boundary row)"
  "eligible_renames renames org_id boundary = Inr rows \<Longrightarrow> \<forall>row\<in>set renames. rename_ok org_id boundary row"
proof (induction renames arbitrary: rows)
  case Nil
  {
    case 1
    then show ?case by (simp add: renames_before_def)
  next
    case 2
    then show ?case by simp
  }
next
  case (Cons row renames)
  {
    case 1
    show ?case
    proof (cases "rename_ok org_id boundary row")
      case False
      with eligible_renames_fails[OF False, of renames] show ?thesis by auto
    next
      case True
      then obtain row' where v: "validate_repository_rename row = Inr row'" and
        step: "eligible_renames (row # renames) org_id boundary =
         (if rr_org_id row' = org_id \<and> rr_captured_at row' \<le> boundary
          then bind_result (eligible_renames renames org_id boundary) (\<lambda>rows. Inr (row' # rows))
          else eligible_renames renames org_id boundary)"
        by (rule eligible_renames_step)
      have before: "renames_before org_id boundary (set (row # renames)) =
        (if rr_org_id row' = org_id \<and> rr_captured_at row' \<le> boundary then {row'} else {})
          \<union> renames_before org_id boundary (set renames)"
        using v unfolding renames_before_def list.set bex_simps by auto
      show ?thesis
      proof (cases "\<forall>row\<in>set renames. rename_ok org_id boundary row")
        case all: True
        then obtain rows where "eligible_renames renames org_id boundary = Inr rows"
          "set rows = renames_before org_id boundary (set renames)" using Cons.IH(1) by blast
        then show ?thesis using True all unfolding step before by simp
      next
        case none: False
        then have "eligible_renames renames org_id boundary \<noteq> Inr rows" for rows
          using Cons.IH(2) by blast
        then show ?thesis using none unfolding step by (auto elim!: bind_result_Inr split: if_splits)
      qed
    qed
  next
    case 2
    show ?case
    proof (cases "rename_ok org_id boundary row")
      case False
      with 2 eligible_renames_fails[OF False, of renames] show ?thesis by auto
    next
      case True
      show ?thesis
        by (rule eligible_renames_step[OF True, of renames])
          (use 2 True Cons.IH(2) in \<open>auto split: if_splits\<close>)
    qed
  }
qed

section \<open>Sources kept after the conflict check\<close>

abbreviation kept_sources :: "identity_evidence list \<Rightarrow> (source_key, identity_evidence) fmap" where
  "kept_sources E \<equiv> eligible_sources (scan_rows E)"

lemma kept_lookup:
  "fmlookup (kept_sources E) k =
     (if k \<in> conflicting (set E) then None else fmlookup (es_sources (scan_rows E)) k)"
  by (simp add: eligible_sources_def scan_conflicts)

lemma kept_SomeD:
  assumes "fmlookup (kept_sources E) k = Some r"
  shows "r \<in> set E" "source_key_of r = k" "k \<notin> conflicting (set E)"
  using assms scan_source_Some[of E k r] by (simp_all add: kept_lookup split: if_splits)

lemma kept_dom: "fmdom' (kept_sources E) = source_key_of ` set E - conflicting (set E)"
proof (rule set_eqI)
  fix k
  have "k \<in> fmdom' (kept_sources E) \<longleftrightarrow> fmlookup (kept_sources E) k \<noteq> None"
    by (simp add: fmdom'_notI fmlookup_dom'_iff)
  then show "k \<in> fmdom' (kept_sources E) \<longleftrightarrow> k \<in> source_key_of ` set E - conflicting (set E)"
    using scan_source_None[of E k] by (simp add: kept_lookup del: not_None_eq)
qed

lemma kept_cong: "set E = set E' \<Longrightarrow> kept_sources E = kept_sources E'"
  by (intro fmap_ext) (simp add: kept_lookup scan_sources_perm[of E E'])

lemma source_list_set: "set (source_list (scan_rows E)) = {r. \<exists>k. fmlookup (kept_sources E) k = Some r}"
proof -
  have "set (source_list (scan_rows E)) =
      (\<lambda>k. the (fmlookup (es_sources (scan_rows E)) k)) ` (source_key_of ` set E - conflicting (set E))"
    unfolding source_list_def scan_copies scan_conflicts
    using keys_group_by[of source_key_of E] by (auto simp: image_iff)
  also have "\<dots> = {r. \<exists>k. fmlookup (kept_sources E) k = Some r}" (is "?L = ?R")
  proof
    show "?L \<subseteq> ?R"
    proof
      fix r assume "r \<in> ?L"
      then obtain k where k: "k \<in> source_key_of ` set E" "k \<notin> conflicting (set E)"
        and r: "r = the (fmlookup (es_sources (scan_rows E)) k)" by blast
      from k(1) obtain r' where "fmlookup (es_sources (scan_rows E)) k = Some r'"
        using scan_source_None[of E k] by blast
      with k(2) r show "r \<in> ?R" by (intro CollectI exI[of _ k]) (simp add: kept_lookup)
    qed
    show "?R \<subseteq> ?L"
    proof
      fix r assume "r \<in> ?R"
      then obtain k where k: "fmlookup (kept_sources E) k = Some r" by blast
      note s = kept_SomeD[OF k]
      then have "k \<in> source_key_of ` set E - conflicting (set E)" by blast
      moreover have "r = the (fmlookup (es_sources (scan_rows E)) k)"
        using k s(3) by (simp add: kept_lookup)
      ultimately show "r \<in> ?L" by blast
    qed
  qed
  finally show ?thesis .
qed

lemma source_list_inj: "inj_on source_key_of (set (source_list (scan_rows E)))"
proof (rule inj_onI)
  fix r r' assume "r \<in> set (source_list (scan_rows E))" "r' \<in> set (source_list (scan_rows E))"
    and eq: "source_key_of r = source_key_of r'"
  then obtain k k' where "fmlookup (kept_sources E) k = Some r" "fmlookup (kept_sources E) k' = Some r'"
    unfolding source_list_set by blast
  with eq kept_SomeD(2)[of E k r] kept_SomeD(2)[of E k' r'] show "r = r'" by simp
qed

lemma source_list_cong: "set E = set E' \<Longrightarrow> set (source_list (scan_rows E)) = set (source_list (scan_rows E'))"
  unfolding source_list_set by (simp only: kept_cong[of E E'])

definition outcome_in :: "identity_evidence list \<Rightarrow> identity_evidence \<Rightarrow> source_outcome" where
  "outcome_in E row = source_identity row (kept_sources E) (conflicting (set E))"

lemma outcome_in_cong: "set E = set E' \<Longrightarrow> outcome_in E row = outcome_in E' row"
  unfolding outcome_in_def by (simp only: kept_cong[of E E'])

lemma resolved_rows_eq:
  "resolved_rows (scan_rows E) = map (\<lambda>row. (row, outcome_in E row)) (source_list (scan_rows E))"
  by (simp add: resolved_rows_def outcome_in_def scan_conflicts)

lemma resolved_rows_cong:
  assumes "set E = set E'"
  shows "set (resolved_rows (scan_rows E)) = set (resolved_rows (scan_rows E'))"
  unfolding resolved_rows_eq set_map source_list_cong[OF assms] outcome_in_cong[OF assms] ..

lemma scan_copies_set: "set (concat (map snd (es_copies (scan_rows E)))) = set E"
  unfolding scan_copies by (rule set_concat_group_by)

lemma base_context_cong:
  assumes E: "set E = set E'" and R: "set rows = set rows'"
  shows "base_context org b (scan_rows E) rows = base_context org b (scan_rows E') rows'"
proof -
  note rc = rename_conflicts_cong[OF R] and rr = resolved_rows_cong[OF E]
  have names: "context_names org (valid_renames rows (rename_conflicts rows)) (resolved_rows (scan_rows E))
      = context_names org (valid_renames rows' (rename_conflicts rows')) (resolved_rows (scan_rows E'))"
    unfolding context_names_def by (rule fm_add_all_cong) (simp add: rr rc valid_renames_def R)
  have rclaims: "rename_claims rows = rename_claims rows'"
    unfolding rename_claims_def by (rule fm_add_all_cong) (simp add: R)
  have claims: "context_claims rows (concat (map snd (es_copies (scan_rows E)))) (resolved_rows (scan_rows E))
      = context_claims rows' (concat (map snd (es_copies (scan_rows E')))) (resolved_rows (scan_rows E'))"
    unfolding context_claims_def rclaims
    by (rule fm_add_all_cong) (simp add: rr scan_copies_set[simplified] E)
  show ?thesis
    unfolding base_context_def Let_def names claims unfolding rc
    by (simp add: kept_cong[OF E] scan_conflicts E unsafe_rename_slugs_def R
        scan_copies_set[simplified])
qed

lemma context_results_lookup:
  "fmlookup (context_results (scan_rows E) ctx) k =
     (case fmlookup (kept_sources E) k of
        Some row \<Rightarrow> Some (source_result ctx (row, outcome_in E row))
      | None \<Rightarrow> if k \<in> conflicting (set E) then Some (declined repository_identity_conflict) else None)"
proof -
  let ?base = "fmap_of_list (map (\<lambda>key. (key, declined repository_identity_conflict))
          (filter (\<lambda>key. key \<in> es_conflicts (scan_rows E)) (map fst (es_copies (scan_rows E)))))"
  let ?f = "\<lambda>row. source_result ctx (row, outcome_in E row)"
  have "context_results (scan_rows E) ctx =
      fold (\<lambda>row. fmupd (source_key_of row) (?f row)) (source_list (scan_rows E)) ?base"
    unfolding context_results_def resolved_rows_eq by (simp add: fold_map comp_def)
  moreover have base: "fmlookup ?base k =
      (if k \<in> conflicting (set E) then Some (declined repository_identity_conflict) else None)"
  proof -
    have sub: "k \<in> source_key_of ` set E" if "k \<in> conflicting (set E)"
      using that by (rule clashE) blast
    show ?thesis
      unfolding scan_copies scan_conflicts fmap_of_list.rep_eq
      using keys_group_by[of source_key_of E] sub
      by (auto simp: map_of_map_restrict restrict_map_def map_of_eq_None_iff)
  qed
  ultimately have l: "fmlookup (context_results (scan_rows E) ctx) k =
     (if k \<in> source_key_of ` set (source_list (scan_rows E))
      then Some (?f (the_inv_into (set (source_list (scan_rows E))) source_key_of k))
      else fmlookup ?base k)"
    by (simp only: fold_fmupd_keyed[OF source_list_inj])
  show ?thesis
  proof (cases "fmlookup (kept_sources E) k")
    case (Some row)
    then have row: "row \<in> set (source_list (scan_rows E))" unfolding source_list_set by blast
    have "source_key_of row = k" using kept_SomeD[OF Some] by simp
    with row have "the_inv_into (set (source_list (scan_rows E))) source_key_of k = row"
      using the_inv_into_f_f[OF source_list_inj row] by simp
    moreover have "k \<in> source_key_of ` set (source_list (scan_rows E))"
      using row \<open>source_key_of row = k\<close> by blast
    ultimately show ?thesis unfolding l using Some by simp
  next
    case None
    have "k \<notin> source_key_of ` set (source_list (scan_rows E))"
    proof
      assume "k \<in> source_key_of ` set (source_list (scan_rows E))"
      then obtain r k' where "k = source_key_of r" "fmlookup (kept_sources E) k' = Some r"
        unfolding source_list_set by blast
      with kept_SomeD(2)[of E k' r] None show False by simp
    qed
    then show ?thesis unfolding l base using None by simp
  qed
qed

lemma context_results_cong:
  "set E = set E' \<Longrightarrow> context_results (scan_rows E) ctx = context_results (scan_rows E') ctx"
proof (rule fmap_ext)
  fix k assume E: "set E = set E'"
  show "fmlookup (context_results (scan_rows E) ctx) k = fmlookup (context_results (scan_rows E') ctx) k"
    unfolding context_results_lookup kept_cong[OF E] outcome_in_cong[OF E] E ..
qed

lemma assemble_context_cong:
  "set E = set E' \<Longrightarrow> set rows = set rows' \<Longrightarrow>
   assemble_context org b (scan_rows E) rows = assemble_context org b (scan_rows E') rows'"
  unfolding assemble_context_def Let_def
  by (simp add: base_context_cong[of E E' rows rows'] context_results_cong[of E E'])

section \<open>The context as a function of the population\<close>

lemma scan_evidence_ok:
  "\<forall>row\<in>set rows. validate_evidence row = Inr row \<Longrightarrow>
   scan_evidence rows org_id boundary st = Inr (fold scan_step (eligible_evidence org_id boundary rows) st)"
  by (simp add: scan_evidence_Inr)

lemma build_context_Inr:
  assumes "length evidence \<le> REPOSITORY_IDENTITY_LIMIT" "length renames \<le> REPOSITORY_IDENTITY_LIMIT"
  shows "build_repository_context evidence renames org_id as_of = Inr ctx \<longleftrightarrow>
    (\<exists>t org rows. as_of = Some t \<and> OrgId org_id = Inr org \<and> as_utc t = Inr t
       \<and> (\<forall>row\<in>set evidence. validate_evidence row = Inr row)
       \<and> eligible_renames renames org t = Inr rows
       \<and> ctx = assemble_context org t (scan_rows (eligible_evidence org t evidence)) rows)"
  using assms
  by (auto simp: build_repository_context_def Let_def as_utc_def scan_evidence_Inr
      scan_evidence_ok scan_rows_def scan_init_def split: option.splits if_splits)

lemma build_context_within_limit:
  "build_repository_context evidence renames org_id as_of = Inr ctx \<Longrightarrow>
     length evidence \<le> REPOSITORY_IDENTITY_LIMIT \<and> length renames \<le> REPOSITORY_IDENTITY_LIMIT"
  by (auto simp: build_repository_context_def Let_def split: option.splits if_splits)

lemma build_contextE:
  assumes "build_repository_context evidence renames org_id as_of = Inr ctx"
  obtains t org rows E where "as_of = Some t" "OrgId org_id = Inr org"
    "E = eligible_evidence org t evidence"
    "set rows = renames_before org t (set renames)"
    "eligible_renames renames org t = Inr rows"
    "ctx = assemble_context org t (scan_rows E) rows"
    "\<forall>row\<in>set evidence. validate_evidence row = Inr row"
  using assms build_context_Inr[of evidence renames org_id as_of ctx]
    build_context_within_limit[OF assms] eligible_renames_Inr
  by (metis sum.inject(2))

lemma assemble_context_fields:
  "rc_org_id (assemble_context org t scan rows) = org"
  "rc_as_of (assemble_context org t scan rows) = t"
  "rc_sources (assemble_context org t scan rows) = eligible_sources scan"
  "rc_claims (assemble_context org t scan rows) =
     context_claims rows (concat (map snd (es_copies scan))) (resolved_rows scan)"
  "rc_unsafe_slugs (assemble_context org t scan rows) =
     unsafe_rename_slugs rows (rename_conflicts rows)
       \<union> ev_repo ` set (filter (\<lambda>row. source_key_of row \<in> es_conflicts scan) (concat (map snd (es_copies scan))))"
  "rc_skipped (assemble_context org t scan rows) =
     count_reasons (context_results scan (base_context org t scan rows))"
  "rc_resolutions (assemble_context org t scan rows) =
     context_results scan (base_context org t scan rows)"
  by (simp_all add: assemble_context_def base_context_def Let_def)

lemma fm_add_all_None:
  "fmlookup (fm_add_all kvs m) k = None \<longleftrightarrow> k \<notin> fst ` set kvs \<and> fmlookup m k = None"
  by (simp add: fm_add_all_lookup)

lemma claims_dom:
  assumes "slug \<notin> fmdom' (context_claims rows copies resolved)"
  shows "row \<in> set copies \<Longrightarrow> ev_repo row = slug \<Longrightarrow> slug \<noteq> [] \<Longrightarrow> evidence_identity row = None"
    and "r \<in> set rows \<Longrightarrow> rr_old_repo r \<noteq> slug \<and> rr_new_repo r \<noteq> slug"
proof -
  let ?kvs = "concat (map captured_claim copies) @ concat (map resolved_claim resolved)"
  have n: "slug \<notin> fst ` set ?kvs" "fmlookup (rename_claims rows) slug = None"
    using assms fm_add_all_lookup[of ?kvs "rename_claims rows" slug]
    unfolding context_claims_def fmlookup_dom'_iff by (auto split: if_splits)
  show "evidence_identity row = None" if "row \<in> set copies" "ev_repo row = slug" "slug \<noteq> []"
  proof (rule ccontr)
    assume "evidence_identity row \<noteq> None"
    then obtain i where "evidence_identity row = Some i" by blast
    with that have "(slug, i) \<in> set (captured_claim row)" by (simp add: captured_claim_def)
    with that(1) n(1) show False by force
  qed
  show "rr_old_repo r \<noteq> slug \<and> rr_new_repo r \<noteq> slug" if "r \<in> set rows"
  proof -
    let ?rvs = "concat (map (\<lambda>row. [(rr_old_repo row, rename_identity row),
         (rr_new_repo row, rename_identity row)]) (rename_rows rows))"
    have "slug \<notin> fst ` set ?rvs"
      using n(2) unfolding rename_claims_def fm_add_all_None ..
    moreover have "rr_old_repo r \<in> fst ` set ?rvs"
      using that by (intro rev_image_eqI[of "(rr_old_repo r, rename_identity r)"]) auto
    moreover have "rr_new_repo r \<in> fst ` set ?rvs"
      using that by (intro rev_image_eqI[of "(rr_new_repo r, rename_identity r)"]) auto
    ultimately show ?thesis by blast
  qed
qed

section \<open>Properties\<close>

text \<open>C11. The context is a function of the declared population as a set: reordering the evidence and
  the renames, or redelivering some of them, gives the same context, every lookup included.\<close>

theorem repository_context_order_independent:
  assumes "build_repository_context evidence renames org_id as_of = Inr ctx"
    and "set evidence' = set evidence" "set renames' = set renames"
    and "length evidence' \<le> REPOSITORY_IDENTITY_LIMIT" "length renames' \<le> REPOSITORY_IDENTITY_LIMIT"
  shows "build_repository_context evidence' renames' org_id as_of = Inr ctx"
proof -
  obtain t org rows E where c: "as_of = Some t" "OrgId org_id = Inr org"
    "E = eligible_evidence org t evidence" "set rows = renames_before org t (set renames)"
    "eligible_renames renames org t = Inr rows" "ctx = assemble_context org t (scan_rows E) rows"
    "\<forall>row\<in>set evidence. validate_evidence row = Inr row"
    by (rule build_contextE[OF assms(1)])
  have t: "as_utc t = Inr t"
    using assms(1) c(1) build_context_Inr build_context_within_limit[OF assms(1)] by blast
  obtain rows' where r: "eligible_renames renames' org t = Inr rows'" "set rows' = set rows"
    using eligible_renames_Inr(1)[of renames' org t] eligible_renames_Inr(2)[OF c(5)] assms(3) c(4)
    by auto
  have "set (eligible_evidence org t evidence') = set E"
    by (auto simp: c(3) eligible_evidence_def assms(2))
  then have "ctx = assemble_context org t (scan_rows (eligible_evidence org t evidence')) rows'"
    unfolding c(6) by (intro assemble_context_cong) (simp_all add: r)
  with c r t assms(2) show ?thesis
    unfolding build_context_Inr[OF assms(4,5)] by blast
qed

text \<open>C12. Legacy names are islands: a reference without an identity resolves only to the legacy key of
  its own normalized slug, and only when no eligible evidence carries an identity under that slug,
  no two eligible copies of a source that names it disagree, and no eligible rename mentions it.\<close>

theorem legacy_reference_isolation:
  assumes "build_repository_context evidence renames org_id as_of = Inr ctx"
    and "rs_key (resolve_reference ctx org repo None) = Some key"
  shows "\<exists>slug. key = LegacyRepositoryKey (rc_org_id ctx) slug \<and> RepoSlug repo = Inr slug
    \<and> (\<forall>row\<in>set (eligible_evidence (rc_org_id ctx) (rc_as_of ctx) evidence). ev_repo row = slug \<longrightarrow>
         evidence_identity row = None
         \<and> source_key_of row \<notin> conflicting (set (eligible_evidence (rc_org_id ctx) (rc_as_of ctx) evidence)))
    \<and> (\<forall>r\<in>renames_before (rc_org_id ctx) (rc_as_of ctx) (set renames).
         rr_old_repo r \<noteq> slug \<and> rr_new_repo r \<noteq> slug)"
proof -
  obtain t o' rows E where c: "as_of = Some t" "OrgId org_id = Inr o'"
    "E = eligible_evidence o' t evidence" "set rows = renames_before o' t (set renames)"
    "eligible_renames renames o' t = Inr rows" "ctx = assemble_context o' t (scan_rows E) rows"
    "\<forall>row\<in>set evidence. validate_evidence row = Inr row"
    by (rule build_contextE[OF assms(1)])
  obtain slug where s: "RepoSlug repo = Inr slug" "slug \<noteq> []" "slug \<notin> fmdom' (rc_claims ctx)"
    "slug \<notin> rc_unsafe_slugs ctx" "key = LegacyRepositoryKey (rc_org_id ctx) slug"
    using assms(2)
    by (auto simp: resolve_reference_def declined_def resolved_as_def Let_def split: sum.splits if_splits)
  note dom = s(3)[unfolded c(6) assemble_context_fields]
  have safe: "source_key_of row \<notin> conflicting (set E)" if "row \<in> set E" "ev_repo row = slug" for row
  proof
    assume "source_key_of row \<in> conflicting (set E)"
    with that have "row \<in> set (filter (\<lambda>row. source_key_of row \<in> es_conflicts (scan_rows E))
        (concat (map snd (es_copies (scan_rows E)))))"
      by (simp only: set_filter scan_copies_set scan_conflicts) simp
    with that(2) s(4) show False unfolding c(6) assemble_context_fields by blast
  qed
  have ident: "evidence_identity row = None" if "row \<in> set E" "ev_repo row = slug" for row
    using claims_dom(1)[OF dom, of row] that s(2) unfolding scan_copies_set by blast
  have E: "eligible_evidence (rc_org_id ctx) (rc_as_of ctx) evidence = E"
    by (simp only: c(3,6) assemble_context_fields)
  have R: "renames_before (rc_org_id ctx) (rc_as_of ctx) (set renames) = set rows"
    by (simp only: c(4,6) assemble_context_fields)
  show ?thesis
    unfolding E R using s(1,5) safe ident claims_dom(2)[OF dom] by blast
qed

lemma results_lookup_reason:
  assumes "fmlookup (context_results (scan_rows E) ctx) k = Some res"
  shows "rs_reason res = None \<longleftrightarrow> rs_key res \<noteq> None"
  using assms
  by (auto simp: context_results_lookup source_result_def declined_def resolved_as_def
      resolve_reference_def Let_def split: option.splits if_splits prod.splits sum.splits)

lemma conflicting_keys: "conflicting E \<subseteq> source_key_of ` E"
  by (rule subsetI) (erule clashE, blast)

lemma results_dom: "fmdom' (context_results (scan_rows E) ctx) = source_key_of ` set E"
proof (rule set_eqI)
  fix k
  have "k \<in> fmdom' (context_results (scan_rows E) ctx) \<longleftrightarrow>
      k \<in> fmdom' (kept_sources E) \<or> k \<in> conflicting (set E)"
    unfolding fmlookup_dom'_iff context_results_lookup by (simp split: option.splits)
  then show "k \<in> fmdom' (context_results (scan_rows E) ctx) \<longleftrightarrow> k \<in> source_key_of ` set E"
    unfolding kept_dom using conflicting_keys[of "set E"] by blast
qed

lemma card_by_label:
  assumes "finite K" "finite L" "\<And>k. k \<in> K \<Longrightarrow> f k \<noteq> None \<Longrightarrow> the (f k) \<in> L"
  shows "(\<Sum>l\<in>L. card {k\<in>K. f k = Some l}) + card {k\<in>K. f k = None} = card K"
proof -
  have "K = (\<Union>l\<in>L. {k\<in>K. f k = Some l}) \<union> {k\<in>K. f k = None}"
    using assms(3) by fastforce
  then have "card K = card ((\<Union>l\<in>L. {k\<in>K. f k = Some l}) \<union> {k\<in>K. f k = None})" by simp
  also have "\<dots> = card (\<Union>l\<in>L. {k\<in>K. f k = Some l}) + card {k\<in>K. f k = None}"
    using assms by (intro card_Un_disjoint) auto
  also have "card (\<Union>l\<in>L. {k\<in>K. f k = Some l}) = (\<Sum>l\<in>L. card {k\<in>K. f k = Some l})"
    using assms by (intro card_UN_disjoint) auto
  finally show ?thesis by simp
qed

text \<open>C13. Every eligible source role is accounted for once: the closed skip counts plus the sources
  that resolve to a key add up to the distinct source roles of the eligible evidence; a source
  whose copies disagree always resolves to a conflict, and a source never resolves partially.\<close>

theorem repository_source_accounting:
  assumes "build_repository_context evidence renames org_id as_of = Inr ctx"
  shows "(\<Sum>r\<in>{repository_identity_absent, repository_identity_unresolved, repository_identity_conflict,
             repository_source_absent, repository_mirror_identity_unresolved}. rc_skipped ctx r)
      + card {k. rs_key (resolve_source ctx k) \<noteq> None}
      = card (source_key_of ` set (eligible_evidence (rc_org_id ctx) (rc_as_of ctx) evidence))
    \<and> (\<forall>k\<in>conflicting (set (eligible_evidence (rc_org_id ctx) (rc_as_of ctx) evidence)).
         resolve_source ctx k = declined repository_identity_conflict)"
    (is "(\<Sum>r\<in>?L. _) + _ = _ \<and> _")
proof -
  obtain t org rows E where c: "E = eligible_evidence org t evidence"
    "ctx = assemble_context org t (scan_rows E) rows"
    by (rule build_contextE[OF assms]) blast
  define R where "R = context_results (scan_rows E) (base_context org t (scan_rows E) rows)"
  have ctx: "rc_skipped ctx = count_reasons R" "rc_resolutions ctx = R"
    by (simp_all only: c(2) assemble_context_fields R_def)
  let ?f = "\<lambda>k. case fmlookup R k of None \<Rightarrow> None | Some res \<Rightarrow> rs_reason res"
  have K: "fmdom' R = source_key_of ` set E" unfolding R_def by (rule results_dom)
  have some: "\<exists>res. fmlookup R k = Some res \<and> (rs_reason res = None \<longleftrightarrow> rs_key res \<noteq> None)"
    if "k \<in> fmdom' R" for k
    using that results_lookup_reason[of E _ k] unfolding R_def fmlookup_dom'_iff by blast
  have skipped: "count_reasons R r = card {k\<in>fmdom' R. ?f k = Some r}" for r
  proof -
    have "Set.filter (\<lambda>key. map_option rs_reason (fmlookup R key) = Some (Some r)) (fmdom' R)
        = {k\<in>fmdom' R. ?f k = Some r}"
      by (auto simp: split: option.splits)
    then show ?thesis by (simp add: count_reasons_def)
  qed
  have "{k. rs_key (resolve_source ctx k) \<noteq> None} = {k\<in>fmdom' R. ?f k = None}"
  proof (rule set_eqI)
    fix k
    show "k \<in> {k. rs_key (resolve_source ctx k) \<noteq> None} \<longleftrightarrow> k \<in> {k\<in>fmdom' R. ?f k = None}"
      using some[of k] unfolding resolve_source_def ctx fm_get_def fmlookup_dom'_iff
      by (cases "fmlookup R k") (auto simp: declined_def)
  qed
  moreover have "(\<Sum>r\<in>?L. card {k\<in>fmdom' R. ?f k = Some r}) + card {k\<in>fmdom' R. ?f k = None} = card (fmdom' R)"
    by (rule card_by_label) (auto intro: identity_skip_reason.exhaust)
  ultimately have "(\<Sum>r\<in>?L. rc_skipped ctx r) + card {k. rs_key (resolve_source ctx k) \<noteq> None}
      = card (source_key_of ` set E)"
    unfolding ctx(1) skipped K by simp
  moreover have "resolve_source ctx k = declined repository_identity_conflict"
    if "k \<in> conflicting (set E)" for k
    unfolding resolve_source_def ctx R_def fm_get_def context_results_lookup kept_lookup
    using that by simp
  moreover have "eligible_evidence (rc_org_id ctx) (rc_as_of ctx) evidence = E"
    by (simp only: c assemble_context_fields)
  ultimately show ?thesis by simp
qed

lemma resolve_reference_Identified:
  "rs_key (resolve_reference ctx org repo identity) = Some (IdentifiedRepositoryKey o' i) \<Longrightarrow> identity = Some i"
  by (auto simp: resolve_reference_def declined_def resolved_as_def Let_def
      split: option.splits sum.splits if_splits)

lemma source_identity_observation:
  assumes "source_identity row sources conflicts = (Some i, proof, None)"
    and "ev_source_table row = SESSION_COMMIT_OBSERVATIONS"
  shows "\<exists>push_id push. ev_source_push_id row = Some push_id \<and> (PUSHES, push_id, REPO) \<notin> conflicts
    \<and> fmlookup sources (PUSHES, push_id, REPO) = Some push \<and> evidence_identity push = Some i
    \<and> evidence_identity row \<in> {None, Some i}"
  using assms by (auto simp: source_identity_def Let_def split: option.splits if_splits)

lemma built_resolutions:
  assumes "build_repository_context evidence renames org_id as_of = Inr ctx"
  obtains b E where "E = eligible_evidence (rc_org_id ctx) (rc_as_of ctx) evidence"
    "rc_resolutions ctx = context_results (scan_rows E) b" "rc_sources ctx = kept_sources E"
proof -
  obtain t org rows E where c: "E = eligible_evidence org t evidence"
    "ctx = assemble_context org t (scan_rows E) rows"
    by (rule build_contextE[OF assms]) blast
  have "eligible_evidence (rc_org_id ctx) (rc_as_of ctx) evidence = E"
    by (simp only: c assemble_context_fields)
  then show ?thesis
    using that[of E "base_context org t (scan_rows E) rows"] by (simp only: c(2) assemble_context_fields)
qed

lemma resolved_source_row:
  assumes "build_repository_context evidence renames org_id as_of = Inr ctx"
    and "rs_key (resolve_source ctx k) = Some key"
  obtains row b identity pf E where "E = eligible_evidence (rc_org_id ctx) (rc_as_of ctx) evidence"
    "fmlookup (rc_sources ctx) k = Some row" "rc_sources ctx = kept_sources E"
    "outcome_in E row = (identity, pf, None)"
    "rs_key (resolve_reference b (rc_org_id b) (ev_repo row) identity) = Some key"
proof -
  obtain b E where e: "E = eligible_evidence (rc_org_id ctx) (rc_as_of ctx) evidence"
    "rc_resolutions ctx = context_results (scan_rows E) b" "rc_sources ctx = kept_sources E"
    by (rule built_resolutions[OF assms(1)])
  obtain row where row: "fmlookup (kept_sources E) k = Some row"
    and key: "rs_key (source_result b (row, outcome_in E row)) = Some key"
    using assms(2) unfolding resolve_source_def e(2) fm_get_def context_results_lookup
    by (auto simp: declined_def split: option.splits if_splits)
  obtain identity pf reason where o: "outcome_in E row = (identity, pf, reason)"
    by (cases "outcome_in E row") auto
  have "reason = None" "rs_key (resolve_reference b (rc_org_id b) (ev_repo row) identity) = Some key"
    using key unfolding o source_result_def by (auto split: if_splits)
  with e row o show ?thesis by (intro that[of E row identity pf b]) simp_all
qed

lemma observation_push:
  assumes "build_repository_context evidence renames org_id as_of = Inr ctx"
    and "rs_key (resolve_source ctx (SESSION_COMMIT_OBSERVATIONS, fact_id, REPO))
       = Some (IdentifiedRepositoryKey org i)"
  obtains row push where "fmlookup (rc_sources ctx) (SESSION_COMMIT_OBSERVATIONS, fact_id, REPO) = Some row"
    "row \<in> set (eligible_evidence (rc_org_id ctx) (rc_as_of ctx) evidence)"
    "push \<in> set (eligible_evidence (rc_org_id ctx) (rc_as_of ctx) evidence)"
    "source_key_of row = (SESSION_COMMIT_OBSERVATIONS, fact_id, REPO)"
    "ev_source_push_id row = Some (ev_source_fact_id push)" "ev_source_table push = PUSHES"
    "evidence_identity push = Some i" "evidence_identity row \<in> {None, Some i}"
    "source_key_of push \<notin> conflicting (set (eligible_evidence (rc_org_id ctx) (rc_as_of ctx) evidence))"
proof -
  obtain row b identity pf E where e: "E = eligible_evidence (rc_org_id ctx) (rc_as_of ctx) evidence"
    "fmlookup (rc_sources ctx) (SESSION_COMMIT_OBSERVATIONS, fact_id, REPO) = Some row"
    "rc_sources ctx = kept_sources E" "outcome_in E row = (identity, pf, None)"
    "rs_key (resolve_reference b (rc_org_id b) (ev_repo row) identity) = Some (IdentifiedRepositoryKey org i)"
    by (rule resolved_source_row[OF assms])
  have i: "identity = Some i" using resolve_reference_Identified[OF e(5)] .
  note r = kept_SomeD[OF e(2)[unfolded e(3)]]
  have "ev_source_table row = SESSION_COMMIT_OBSERVATIONS" using r(2) by (simp add: source_key_of_def)
  then obtain push_id push where p: "ev_source_push_id row = Some push_id"
    "fmlookup (kept_sources E) (PUSHES, push_id, REPO) = Some push" "evidence_identity push = Some i"
    "evidence_identity row \<in> {None, Some i}"
    using source_identity_observation e(4) unfolding outcome_in_def i by blast
  note q = kept_SomeD[OF p(2)]
  have "ev_source_table push = PUSHES" "ev_source_fact_id push = push_id"
    using q(2) by (simp_all add: source_key_of_def)
  then show ?thesis
    using that[of row push] e(2) r q p unfolding e(1) by simp
qed

text \<open>A Session-to-commit observation resolves to an identified repository only through its Push:
  the Push is in the eligible population without conflicting copies, carries exactly that identity,
  and the observation's own identity is absent or the same.\<close>

theorem observation_identity_from_push:
  assumes "build_repository_context evidence renames org_id as_of = Inr ctx"
    and "rs_key (resolve_source ctx (SESSION_COMMIT_OBSERVATIONS, fact_id, REPO))
       = Some (IdentifiedRepositoryKey org i)"
  shows "\<exists>row\<in>set (eligible_evidence (rc_org_id ctx) (rc_as_of ctx) evidence).
     \<exists>push\<in>set (eligible_evidence (rc_org_id ctx) (rc_as_of ctx) evidence).
       source_key_of row = (SESSION_COMMIT_OBSERVATIONS, fact_id, REPO)
       \<and> ev_source_push_id row = Some (ev_source_fact_id push) \<and> ev_source_table push = PUSHES
       \<and> evidence_identity push = Some i \<and> evidence_identity row \<in> {None, Some i}
       \<and> source_key_of push \<notin> conflicting (set (eligible_evidence (rc_org_id ctx) (rc_as_of ctx) evidence))"
  by (rule observation_push[OF assms]) blast

lemma fm_get_add_all: "fm_get (fm_add_all kvs m) k {} = fm_get m k {} \<union> {v. (k, v) \<in> set kvs}"
  by (force simp: fm_get_def fm_add_all_lookup split: option.splits)

lemma finite_second: "finite {v. (k, v) \<in> set kvs}"
  by (rule finite_subset[of _ "snd ` set kvs"]) force+

lemma context_claims_members:
  assumes "fmlookup (context_claims rows copies resolved) slug = Some S" "slug \<noteq> []"
  shows "row \<in> set copies \<Longrightarrow> ev_repo row = slug \<Longrightarrow> evidence_identity row = Some i \<Longrightarrow> i \<in> S"
proof -
  let ?kvs = "concat (map captured_claim copies) @ concat (map resolved_claim resolved)"
  assume a: "row \<in> set copies" "ev_repo row = slug" "evidence_identity row = Some i"
  then have "(slug, i) \<in> set (captured_claim row)" using assms(2) by (simp add: captured_claim_def)
  then have "(slug, i) \<in> set ?kvs" using a(1) by auto
  then show "i \<in> S" using assms(1) unfolding context_claims_def fm_add_all_lookup by (auto split: if_splits)
qed

text \<open>A name selects at most its sole captured lifetime: when an operator's slug selects an
  identified repository, every eligible piece of evidence that claims an identity under that slug
  claims this one, and no source naming the slug has conflicting copies.\<close>

theorem select_repository_sole_lifetime:
  assumes "build_repository_context evidence renames org_id as_of = Inr ctx"
    and "select_repository ctx org (Some repo) None = Inr (Some (IdentifiedRepositoryKey o' i))"
    and "RequiredRepoSlug repo = Inr slug"
    and "row \<in> set (eligible_evidence (rc_org_id ctx) (rc_as_of ctx) evidence)" "ev_repo row = slug"
  shows "evidence_identity row \<in> {None, Some i}
    \<and> source_key_of row \<notin> conflicting (set (eligible_evidence (rc_org_id ctx) (rc_as_of ctx) evidence))"
proof -
  obtain t o2 rows E where c: "E = eligible_evidence o2 t evidence"
    "ctx = assemble_context o2 t (scan_rows E) rows"
    by (rule build_contextE[OF assms(1)]) blast
  have E: "eligible_evidence (rc_org_id ctx) (rc_as_of ctx) evidence = E"
    by (simp only: c assemble_context_fields)
  have "slug \<noteq> []"
    using assms(3) by (auto simp: v_then_def non_empty_id_def Let_def split: if_splits)
  have sel: "slug \<notin> rc_unsafe_slugs ctx" "fmlookup (rc_claims ctx) slug = Some {i}"
  proof -
    define S where "S = fm_get (rc_claims ctx) slug {}"
    have s: "slug \<notin> rc_unsafe_slugs ctx" "\<not> card S > 1" "S \<noteq> {}" "i = the_elem S"
      using assms(2,3)
      by (auto simp: select_repository_def v_optional_def Let_def S_def split: if_splits)
    have "finite S"
      unfolding S_def c(2) assemble_context_fields context_claims_def rename_claims_def fm_get_add_all
      by (simp add: fm_get_def finite_second)
    show "slug \<notin> rc_unsafe_slugs ctx" by (rule s)
    show "fmlookup (rc_claims ctx) slug = Some {i}"
    proof -
      have "card S = 1" using s(2,3) \<open>finite S\<close> by (simp add: Suc_le_eq card_gt_0_iff le_antisym)
      then obtain j where "S = {j}" by (rule card_1_singletonE)
      then have "S = {i}" using s(4) by simp
      then show ?thesis unfolding S_def fm_get_def by (simp split: option.splits)
    qed
  qed
  have 1: "evidence_identity row \<in> {None, Some i}"
  proof (cases "evidence_identity row")
    case (Some j)
    have "row \<in> set (concat (map snd (es_copies (scan_rows E))))"
      using assms(4) unfolding E scan_copies_set .
    then have "j \<in> {i}"
      using context_claims_members[OF sel(2)[unfolded c(2) assemble_context_fields] \<open>slug \<noteq> []\<close>]
        assms(5) Some by blast
    then show ?thesis using Some by simp
  qed simp
  have "source_key_of row \<notin> conflicting (set E)"
  proof
    assume "source_key_of row \<in> conflicting (set E)"
    with assms(4) have "row \<in> set (filter (\<lambda>row. source_key_of row \<in> es_conflicts (scan_rows E))
        (concat (map snd (es_copies (scan_rows E)))))"
      unfolding E by (simp only: set_filter scan_copies_set scan_conflicts) simp
    with assms(5) sel(1) show False unfolding c(2) assemble_context_fields by blast
  qed
  with 1 show ?thesis unfolding E by blast
qed

section \<open>A sample population\<close>

definition sample_push :: identity_evidence where
  "sample_push = role_evidence PUSHES ''p1'' REPO ''acme'' ''acme/app'' (Some GITHUB)
     (Some ''github.com'') (Some ''42'') 5 ([], ''UTC'', 0) None"

definition sample_observation :: identity_evidence where
  "sample_observation = role_evidence SESSION_COMMIT_OBSERVATIONS ''o1'' REPO ''acme'' ''acme/app''
     None None None 6 ([], ''UTC'', 0) (Some ''p1'')"

definition sample_legacy :: identity_evidence where
  "sample_legacy = role_evidence CI_OUTCOMES ''c1'' REPO ''acme'' ''acme/old''
     None None None 6 ([], ''UTC'', 0) None"

lemmas sample_evidence_defs = sample_push_def sample_observation_def sample_legacy_def role_evidence_def

lemmas validator_eval = validate_evidence_def validate_evidence_fields_def v_field_def v_require_def
  v_then_def v_optional_def scalar_identity_def scalar_ok_def non_empty_id_def normalize_org_id_def
  org_id_match_def org_id_char_def ascii_lower_alnum_def normalize_repo_slug_def py_partition_def
  forge_host_def dns_label_def provider_repository_id_def ascii_digit_def
  py_strip_def py_isspace_def py_lower_def py_lower_char_def cp_def as_utc_def UTC_MIN_def UTC_MAX_def
  evidence_identity_of_def new_repository_identity_def identity_source_tables_def evidence_signature_def source_key_of_def Let_def

lemma sample_push_valid: "validate_evidence sample_push = Inr sample_push"
  by (simp add: sample_evidence_defs validator_eval char_of_eq_iff take_bit_eq_mod)

lemma sample_observation_valid: "validate_evidence sample_observation = Inr sample_observation"
  by (simp add: sample_evidence_defs validator_eval char_of_eq_iff take_bit_eq_mod)

lemma sample_legacy_valid: "validate_evidence sample_legacy = Inr sample_legacy"
  by (simp add: sample_evidence_defs validator_eval char_of_eq_iff take_bit_eq_mod)

lemma sample_org: "OrgId ''acme'' = Inr ''acme''"
  by (simp add: validator_eval)

definition sample_population :: "identity_evidence list" where
  "sample_population = [sample_push, sample_observation, sample_legacy]"

definition sample_context :: repository_context where
  "sample_context = assemble_context ''acme'' 10
      (scan_rows (eligible_evidence ''acme'' 10 sample_population)) []"

lemma sample_build: "build_repository_context sample_population [] ''acme'' (Some 10) = Inr sample_context"
  by (subst build_context_Inr)
     (simp_all add: sample_population_def sample_context_def REPOSITORY_IDENTITY_LIMIT_def sample_push_valid sample_observation_valid sample_legacy_valid sample_org as_utc_def UTC_MIN_def UTC_MAX_def)

lemma sample_eligible: "eligible_evidence ''acme'' 10 sample_population = [sample_push, sample_observation, sample_legacy]"
  by (simp add: sample_population_def eligible_evidence_def sample_evidence_defs)

lemma sample_keys: "source_key_of sample_push = (PUSHES, ''p1'', REPO)"
  "source_key_of sample_observation = (SESSION_COMMIT_OBSERVATIONS, ''o1'', REPO)"
  "source_key_of sample_legacy = (CI_OUTCOMES, ''c1'', REPO)"
  by (simp_all add: sample_evidence_defs source_key_of_def)

definition sample_identity :: repository_identity where
  "sample_identity = \<lparr>ri_provider = GITHUB, ri_host = ''github.com'', ri_repository_id = ''42''\<rparr>"

lemma sample_identities: "evidence_identity sample_push = Some sample_identity"
  "evidence_identity sample_observation = None" "evidence_identity sample_legacy = None"
  by (simp_all add: evidence_identity_def sample_evidence_defs validator_eval sample_identity_def char_of_eq_iff take_bit_eq_mod)

lemma sample_scan: "scan_rows [sample_push, sample_observation, sample_legacy] =
   \<lparr>es_sources = fmap_of_list [((CI_OUTCOMES, ''c1'', REPO), sample_legacy), ((SESSION_COMMIT_OBSERVATIONS, ''o1'', REPO), sample_observation), ((PUSHES, ''p1'', REPO), sample_push)], es_conflicts = {},
    es_copies = [((PUSHES, ''p1'', REPO), [sample_push]), ((SESSION_COMMIT_OBSERVATIONS, ''o1'', REPO), [sample_observation]), ((CI_OUTCOMES, ''c1'', REPO), [sample_legacy])]\<rparr>"
  by (simp add: scan_rows_def scan_init_def scan_step_def Let_def sample_keys dict_append_def dict_get_def)

lemma sample_sources: "eligible_sources (scan_rows [sample_push, sample_observation, sample_legacy]) =
  fmap_of_list [((CI_OUTCOMES, ''c1'', REPO), sample_legacy), ((SESSION_COMMIT_OBSERVATIONS, ''o1'', REPO), sample_observation), ((PUSHES, ''p1'', REPO), sample_push)]"
  by (simp add: sample_scan eligible_sources_def)

lemma sample_fields: "ev_repo sample_push = ''acme/app''" "ev_repo sample_observation = ''acme/app''" "ev_repo sample_legacy = ''acme/old''"
  "ev_source_table sample_push = PUSHES" "ev_source_table sample_legacy = CI_OUTCOMES" "ev_source_table sample_observation = SESSION_COMMIT_OBSERVATIONS"
  "ev_source_push_id sample_observation = Some ''p1''"
  by (simp_all add: sample_evidence_defs)

lemma sample_rows: "resolved_rows (scan_rows [sample_push, sample_observation, sample_legacy]) =
  [(sample_push, Some sample_identity, [sample_push], None),
   (sample_observation, Some sample_identity, sort_key evidence_sort_key [sample_observation, sample_push], None),
   (sample_legacy, None, [sample_legacy], None)]"
  unfolding resolved_rows_def sample_sources
  by (simp add: sample_scan source_list_def sample_keys fmap_of_list.rep_eq source_identity_def sample_identities sample_fields Let_def)

lemma no_renames: "rename_claims [] = fmempty" "rename_conflicts [] = {}" "unsafe_rename_slugs [] C = {}" "valid_renames [] C = []"
  by (simp_all add: rename_claims_def rename_rows_def fm_add_all_def rename_conflicts_def delivery_conflicts_def unsafe_rename_slugs_def valid_renames_def)

lemma sample_claims: "rc_claims sample_context = fmupd ''acme/app'' {sample_identity} fmempty"
  unfolding sample_context_def sample_eligible assemble_context_fields sample_rows
  by (simp add: sample_scan context_claims_def no_renames captured_claim_def sample_identities sample_fields resolved_claim_def fm_add_all_def fm_add_def fm_get_def)

lemma sample_unsafe: "rc_unsafe_slugs sample_context = {}"
  unfolding sample_context_def sample_eligible assemble_context_fields
  by (simp add: sample_scan no_renames)

lemma sample_names: "rc_names sample_context = fmap_of_list [(LegacyRepositoryKey ''acme'' ''acme/old'', [''acme/old'']), (IdentifiedRepositoryKey ''acme'' sample_identity, [''acme/app''])]"
  unfolding sample_context_def sample_eligible assemble_context_def base_context_def sample_rows
  by (simp add: Let_def context_names_def no_renames name_entry_def sample_fields fm_add_all_def fm_add_def fm_get_def fmmap_fmupd)

lemma sample_slugs: "RepoSlug ''acme/app'' = Inr ''acme/app''" "RepoSlug ''acme/old'' = Inr ''acme/old''"
  "RequiredRepoSlug ''acme/app'' = Inr ''acme/app''"
  by (simp_all add: validator_eval)

lemma sample_scope: "rc_org_id sample_context = ''acme''" "rc_as_of sample_context = 10"
  by (simp_all only: sample_context_def assemble_context_fields)

lemma sample_legacy_resolves: "rs_key (resolve_reference sample_context ''acme'' ''acme/old'' None) = Some (LegacyRepositoryKey ''acme'' ''acme/old'')"
  by (simp add: resolve_reference_def sample_org sample_slugs sample_scope sample_claims sample_unsafe resolved_as_def)

lemma sample_reference:
  assumes "rc_org_id ctx = ''acme''" "rc_names ctx = rc_names sample_context"
  shows "resolve_reference ctx ''acme'' ''acme/app'' (Some sample_identity)
    = resolved_as (IdentifiedRepositoryKey ''acme'' sample_identity) ''acme/app''"
  by (simp add: resolve_reference_def sample_org sample_slugs assms sample_names Let_def observed_repo_slugs_def fm_get_def fmap_of_list.rep_eq)

lemma sample_observation_resolves:
 "rs_key (resolve_source sample_context (SESSION_COMMIT_OBSERVATIONS, ''o1'', REPO)) = Some (IdentifiedRepositoryKey ''acme'' sample_identity)"
proof -
  define b where "b = base_context ''acme'' 10 (scan_rows [sample_push, sample_observation, sample_legacy]) []"
  have b: "rc_org_id b = ''acme''" "rc_names b = rc_names sample_context"
    by (simp_all add: b_def sample_context_def sample_eligible assemble_context_def base_context_def Let_def)
  have o: "outcome_in [sample_push, sample_observation, sample_legacy] sample_observation =
     (Some sample_identity, sort_key evidence_sort_key [sample_observation, sample_push], None)"
    unfolding outcome_in_def sample_sources scan_conflicts[symmetric]
    by (simp add: sample_scan fmap_of_list.rep_eq source_identity_def sample_identities sample_fields Let_def)
  have "resolve_source sample_context (SESSION_COMMIT_OBSERVATIONS, ''o1'', REPO) =
    source_result b (sample_observation, outcome_in [sample_push, sample_observation, sample_legacy] sample_observation)"
    unfolding resolve_source_def sample_context_def sample_eligible assemble_context_fields fm_get_def
      context_results_lookup sample_sources b_def
    by (simp add: fmap_of_list.rep_eq)
  then show ?thesis
    by (simp add: o source_result_def b sample_fields sample_reference[OF b] resolved_as_def)
qed

lemma sample_select: "select_repository sample_context ''acme'' (Some ''acme/app'') None
   = Inr (Some (IdentifiedRepositoryKey ''acme'' sample_identity))"
  by (simp add: select_repository_def sample_org sample_slugs v_optional_def sample_scope sample_claims sample_unsafe sample_names Let_def observed_repo_slugs_def fm_get_def fmap_of_list.rep_eq)

theorem repository_context_order_independent_witness:
  "build_repository_context [sample_legacy, sample_observation, sample_push, sample_legacy] [] ''acme'' (Some 10) = Inr sample_context"
  by (rule repository_context_order_independent[OF sample_build])
    (auto simp: sample_population_def REPOSITORY_IDENTITY_LIMIT_def)

theorem legacy_reference_isolation_witness:
  "\<exists>slug. LegacyRepositoryKey ''acme'' ''acme/old'' = LegacyRepositoryKey ''acme'' slug
     \<and> (\<forall>row\<in>set (eligible_evidence ''acme'' 10 sample_population). ev_repo row = slug \<longrightarrow> evidence_identity row = None)"
  using legacy_reference_isolation[OF sample_build sample_legacy_resolves] unfolding sample_scope by blast

theorem repository_source_accounting_witness:
  "(\<Sum>r\<in>{repository_identity_absent, repository_identity_unresolved, repository_identity_conflict,
             repository_source_absent, repository_mirror_identity_unresolved}. rc_skipped sample_context r)
      + card {k. rs_key (resolve_source sample_context k) \<noteq> None} = 3"
  unfolding repository_source_accounting[OF sample_build, THEN conjunct1] sample_scope sample_eligible
  by (simp add: sample_keys)

theorem observation_identity_from_push_witness:
  "\<exists>push\<in>set (eligible_evidence ''acme'' 10 sample_population).
     ev_source_table push = PUSHES \<and> evidence_identity push = Some sample_identity"
  using observation_identity_from_push[OF sample_build sample_observation_resolves]
  unfolding sample_scope by blast

theorem select_repository_sole_lifetime_witness:
  "evidence_identity sample_push \<in> {None, Some sample_identity}"
  by (rule select_repository_sole_lifetime[OF sample_build sample_select sample_slugs(3), THEN conjunct1])
    (simp_all add: sample_scope sample_eligible sample_fields)

end
