(* ===== verification/CI_Resolution.thy ===== *)
theory CI_Resolution
  imports Repository_Laws
begin

text \<open>
  The CI half of \<open>packages/derive/sediment_derive/attachment.py\<close>
  (\<open>index_ci_outcomes_by_commit_key_result\<close> and its legacy adapter) and
  \<open>packages/derive/sediment_derive/ci_resolution.py\<close>: run lineages, attempt-aware verdicts, flake
  suspicion and reliability, and the commit-level aggregate.

  A CI outcome and its store projection carry the same fields except the raw payload, which is not
  read; both are \<open>ci_outcome\<close>. Fact records keep instants, so the evidence projected from them
  carries one constant spelling: copies with equal signatures are then equal, and conflicting
  copies are discarded, so the choice among copies is not observable. Capture instants are in
  datetime's UTC range here. The policy's digest enters as a value of the provenance.
\<close>

section \<open>Indexing outcomes by commit\<close>

definition fact_spelling :: spelling where
  "fact_spelling = ([], [], 0)"

record ci_index =
  cx_outcomes_by_commit :: "(commit_key \<times> ci_outcome list) list"
  cx_skipped :: "identity_skip_reason counter"
  cx_declined_sources :: "(string \<times> string) set"

definition capture_order :: "ci_outcome \<Rightarrow> instant \<times> string" where
  "capture_order item = (ci_captured_at item, ci_id item)"

primrec v_map :: "('a \<Rightarrow> 'b result) \<Rightarrow> 'a list \<Rightarrow> 'b list result" where
  "v_map f [] = Inr []"
| "v_map f (x # xs) = bind_result (f x) (\<lambda>y. bind_result (v_map f xs) (\<lambda>ys. Inr (y # ys)))"

text \<open>Without a declared context, one local context per organization over the supplied Facts.\<close>

definition local_context :: "string \<Rightarrow> ci_outcome list \<Rightarrow> repository_context result" where
  "local_context org_id population =
     bind_result (OrgId org_id) (\<lambda>_.
     bind_result
       (v_map (\<lambda>item. repository_identity_evidence_of (CIFact item) fact_spelling REPO)
         (take (REPOSITORY_IDENTITY_LIMIT + 1) population))
       (\<lambda>evidence. build_repository_context evidence [] org_id
          (Some (Max (set (map ci_captured_at population))))))"

definition local_contexts :: "ci_outcome list \<Rightarrow> (string \<times> repository_context) list result" where
  "local_contexts outcomes =
     v_map (\<lambda>(org_id, population).
         bind_result (local_context org_id population) (\<lambda>ctx. Inr (org_id, ctx)))
       (group_by ci_org_id outcomes)"

text \<open>The body of the main loop: the reason an item is declined, or its commit key.\<close>

definition index_outcome ::
  "bool \<Rightarrow> repository_context \<Rightarrow> ci_outcome \<Rightarrow> (identity_skip_reason + commit_key) result" where
  "index_outcome declared ctx item =
     (let resolved = resolve_fact ctx (CIFact item) fact_spelling REPO;
          reason =
            (case rs_key resolved of
               Some (IdentifiedRepositoryKey org i) \<Rightarrow>
                 if \<not> declared then Some repository_identity_unresolved else rs_reason resolved
             | _ \<Rightarrow> rs_reason resolved)
      in case reason of
        Some r \<Rightarrow> Inr (Inl r)
      | None \<Rightarrow>
         (case rs_key resolved of
            None \<Rightarrow> Inl (ValueError ''commit key requires a repository key'')
          | Some key \<Rightarrow> bind_result (new_commit_key key (ci_commit_sha item)) (\<lambda>c. Inr (Inr c))))"

fun index_step ::
  "ci_outcome \<times> (identity_skip_reason + commit_key) \<Rightarrow> ci_index \<Rightarrow> ci_index" where
  "index_step (item, Inl reason) idx =
     idx\<lparr>cx_skipped := ctr_incr reason (cx_skipped idx),
         cx_declined_sources := insert (ci_org_id item, ci_id item) (cx_declined_sources idx)\<rparr>"
| "index_step (item, Inr commit) idx =
     idx\<lparr>cx_outcomes_by_commit := dict_append commit item (cx_outcomes_by_commit idx)\<rparr>"

definition empty_index :: ci_index where
  "empty_index = \<lparr>cx_outcomes_by_commit = [], cx_skipped = ctr_empty, cx_declined_sources = {}\<rparr>"

text \<open>The final dictionary: commits in sort-key order, each with its items in capture order.\<close>

definition sorted_index :: "ci_index \<Rightarrow> ci_index" where
  "sorted_index idx = idx\<lparr>cx_outcomes_by_commit :=
     sort_key (\<lambda>(commit, items). commit_sort_key commit)
       (map (\<lambda>(commit, items). (commit, sort_key capture_order items)) (cx_outcomes_by_commit idx))\<rparr>"

definition in_scope :: "repository_context \<Rightarrow> ci_outcome \<Rightarrow> bool" where
  "in_scope ctx item = (ci_org_id item = rc_org_id ctx \<and> ci_captured_at item \<le> rc_as_of ctx)"

definition index_ci_outcomes_by_commit_key_result ::
  "ci_outcome list \<Rightarrow> repository_context option \<Rightarrow> ci_index result" where
  "index_ci_outcomes_by_commit_key_result ci_outcomes repository_context =
     (let outcomes = (case repository_context of
            Some ctx \<Rightarrow> filter (in_scope ctx) ci_outcomes | None \<Rightarrow> ci_outcomes)
      in bind_result
           (case repository_context of
              Some ctx \<Rightarrow> Inr [(rc_org_id ctx, ctx)] | None \<Rightarrow> local_contexts outcomes) (\<lambda>contexts.
         bind_result
           (v_map (\<lambda>item. case map_of contexts (ci_org_id item) of
                None \<Rightarrow> Inl (KeyError (ci_org_id item))
              | Some ctx \<Rightarrow> bind_result (index_outcome (repository_context \<noteq> None) ctx item)
                  (\<lambda>r. Inr (item, r))) outcomes) (\<lambda>indexed.
           Inr (sorted_index (fold index_step indexed empty_index)))))"

text \<open>\<open>index_ci_outcomes_by_repo_commit\<close>: tuple keys, dropping those two organizations share.\<close>

definition legacy_tuple :: "commit_key \<Rightarrow> string \<times> string" where
  "legacy_tuple commit = (key_repo (ck_repository commit), ck_commit_sha commit)"

definition index_ci_outcomes_by_repo_commit ::
  "ci_outcome list \<Rightarrow> ((string \<times> string) \<times> ci_outcome list) list result" where
  "index_ci_outcomes_by_repo_commit ci_outcomes =
     bind_result (index_ci_outcomes_by_commit_key_result ci_outcomes None) (\<lambda>indexed.
       let by_tuple = group_by (\<lambda>(commit, items). legacy_tuple commit) (cx_outcomes_by_commit indexed)
       in Inr (map (\<lambda>(key, entries). (key, concat (map snd entries)))
            (filter (\<lambda>(key, entries).
               card (set (map (\<lambda>(commit, items). key_org_id (ck_repository commit)) entries)) \<le> 1)
              by_tuple)))"

section \<open>One run lineage\<close>

record ci_resolution_policy =
  cp_clean_reliability :: rat
  cp_suspected_flake_reliability :: rat
  cp_non_verdict_reliability :: rat
  cp_policy_version :: string

definition ci_policy_ok :: "ci_resolution_policy \<Rightarrow> bool" where
  "ci_policy_ok p =
     (0 \<le> cp_clean_reliability p \<and> cp_clean_reliability p \<le> 1
      \<and> 0 \<le> cp_suspected_flake_reliability p \<and> cp_suspected_flake_reliability p \<le> 1
      \<and> 0 \<le> cp_non_verdict_reliability p \<and> cp_non_verdict_reliability p \<le> 1
      \<and> py_strip (cp_policy_version p) \<noteq> [])"

definition default_ci_policy :: ci_resolution_policy where
  "default_ci_policy =
     \<lparr>cp_clean_reliability = 1, cp_suspected_flake_reliability = 0, cp_non_verdict_reliability = 1,
      cp_policy_version = ''2''\<rparr>"

record provenance =
  pr_policy_version :: string
  pr_quarantine_revision :: int
  pr_policy_digest :: "string option"

definition new_provenance :: "string \<Rightarrow> int \<Rightarrow> string option \<Rightarrow> provenance result" where
  "new_provenance version revision digest =
     (if py_strip version = [] then Inl (ValueError ''policy_version must be a non-empty string'')
      else if revision < 0 then Inl (ValueError ''quarantine_revision must be a non-negative integer'')
      else if (case digest of None \<Rightarrow> False
               | Some d \<Rightarrow> length d \<noteq> 64 \<or> list_ex (\<lambda>c. \<not> lower_hex c) d)
      then Inl (ValueError ''policy_digest must be a lowercase SHA-256 digest'')
      else Inr \<lparr>pr_policy_version = version, pr_quarantine_revision = revision,
                pr_policy_digest = digest\<rparr>)"

record workflow_resolution =
  wr_provider :: ci_provider
  wr_run_id :: string
  wr_workflow_id :: "string option"
  wr_workflow_name :: string
  wr_workflow_path :: "string option"
  wr_branch :: string
  wr_verdict :: "ci_result option"
  wr_reliability :: "rat option"
  wr_suspected_flake :: bool
  wr_source_outcome_ids :: "string list"
  wr_verdict_outcome_id :: "string option"
  wr_non_verdict_outcome_ids :: "string list"

definition is_verdict :: "ci_result \<Rightarrow> bool" where
  "is_verdict r = (r = PASSED \<or> r = FAILED)"

definition attempt :: "ci_outcome \<Rightarrow> int" where
  "attempt outcome = (case ci_run_attempt outcome of None \<Rightarrow> 0 | Some n \<Rightarrow> n)"

definition run_key :: "ci_outcome \<Rightarrow> string list" where
  "run_key outcome =
     (case rf_repository_provider outcome of
        Some p \<Rightarrow>
          [ci_org_id outcome, ci_provider_value (ci_provider_of outcome), ''identified'',
           forge_provider_value p,
           (case rf_repository_host outcome of None \<Rightarrow> [] | Some h \<Rightarrow> h), ci_run_id outcome]
      | None \<Rightarrow>
          [ci_org_id outcome, ci_provider_value (ci_provider_of outcome), ''legacy'', [], [],
           ci_run_id outcome])"

text \<open>\<open>{x for outcome in outcomes if x}\<close> for a field that is absent or empty when falsy.\<close>

definition present_values :: "(ci_outcome \<Rightarrow> string option) \<Rightarrow> ci_outcome list \<Rightarrow> string set" where
  "present_values f outcomes =
     set (concat (map (\<lambda>o'. case f o' of None \<Rightarrow> [] | Some v \<Rightarrow> if v = [] then [] else [v]) outcomes))"

definition sole :: "'a set \<Rightarrow> 'a option" where
  "sole S = (if S = {} then None else Some (the_elem S))"

record run_identity_values =
  rv_branch :: string
  rv_workflow_id :: "string option"
  rv_workflow_name :: string
  rv_workflow_path :: "string option"

definition run_identity :: "ci_outcome list \<Rightarrow> run_identity_values option" where
  "run_identity outcomes =
     (let branches = set (map ci_branch outcomes);
          workflow_ids = present_values ci_workflow_id outcomes;
          workflow_names = present_values (\<lambda>o'. Some (ci_workflow_name o')) outcomes;
          workflow_paths = present_values ci_workflow_path outcomes
      in if card branches \<noteq> 1 \<or> card workflow_ids > 1 \<or> card workflow_names > 1
            \<or> card workflow_paths > 1
         then None
         else if list_ex (\<lambda>(a, group). card (set (map ci_result_of group)) > 1) (group_by attempt outcomes)
         then None
         else Some \<lparr>rv_branch = the_elem branches, rv_workflow_id = sole workflow_ids,
                    rv_workflow_name = (case sole workflow_names of None \<Rightarrow> [] | Some n \<Rightarrow> n),
                    rv_workflow_path = sole workflow_paths\<rparr>)"

definition attempt_order :: "ci_outcome \<Rightarrow> int \<times> string" where
  "attempt_order outcome = (attempt outcome, ci_id outcome)"

definition verdict_outcomes :: "ci_outcome list \<Rightarrow> ci_outcome list" where
  "verdict_outcomes outcomes =
     filter (\<lambda>o'. is_verdict (ci_result_of o')) (sort_key attempt_order outcomes)"

definition non_verdicts :: "ci_outcome list \<Rightarrow> ci_outcome list" where
  "non_verdicts outcomes =
     filter (\<lambda>o'. \<not> is_verdict (ci_result_of o')) (sort_key attempt_order outcomes)"

definition suspected_flake :: "ci_outcome list \<Rightarrow> bool" where
  "suspected_flake outcomes = (card (set (map ci_result_of (verdict_outcomes outcomes))) > 1)"

definition run_reliability :: "ci_resolution_policy \<Rightarrow> ci_outcome list \<Rightarrow> rat option" where
  "run_reliability policy outcomes =
     (if verdict_outcomes outcomes \<noteq> [] then
        (let reliability = (if suspected_flake outcomes then cp_suspected_flake_reliability policy
                            else cp_clean_reliability policy)
         in Some (if non_verdicts outcomes \<noteq> []
                  then min reliability (cp_non_verdict_reliability policy) else reliability))
      else if non_verdicts outcomes \<noteq> [] then Some (cp_non_verdict_reliability policy)
      else None)"

text \<open>\<open>_resolve_workflow\<close> is called with a non-empty run.\<close>

definition resolve_workflow ::
  "ci_outcome list \<Rightarrow> ci_resolution_policy \<Rightarrow> run_identity_values \<Rightarrow> workflow_resolution" where
  "resolve_workflow outcomes policy identity =
     (let verdicts = verdict_outcomes outcomes; first = hd outcomes
      in \<lparr>wr_provider = ci_provider_of first, wr_run_id = ci_run_id first,
          wr_workflow_id = rv_workflow_id identity, wr_workflow_name = rv_workflow_name identity,
          wr_workflow_path = rv_workflow_path identity, wr_branch = rv_branch identity,
          wr_verdict = (if verdicts \<noteq> [] then Some (ci_result_of (last verdicts)) else None),
          wr_reliability = run_reliability policy outcomes,
          wr_suspected_flake = suspected_flake outcomes,
          wr_source_outcome_ids = sort (map ci_id outcomes),
          wr_verdict_outcome_id = (if verdicts \<noteq> [] then Some (ci_id (last verdicts)) else None),
          wr_non_verdict_outcome_ids = sort (map ci_id (non_verdicts outcomes))\<rparr>)"

definition workflow_key :: "workflow_resolution \<Rightarrow> string \<times> string \<times> string \<times> string \<times> string" where
  "workflow_key r =
     (ci_provider_value (wr_provider r), (case wr_workflow_id r of None \<Rightarrow> [] | Some i \<Rightarrow> i),
      (case wr_workflow_path r of None \<Rightarrow> [] | Some p \<Rightarrow> p), wr_workflow_name r, wr_run_id r)"

section \<open>Commit resolutions\<close>

record ci_resolution =
  cr_org_id :: string
  cr_repo :: string
  cr_commit_sha :: string
  cr_verdict :: "ci_result option"
  cr_reliability :: "rat option"
  cr_suspected_flake :: bool
  cr_workflow_resolutions :: "workflow_resolution list"
  cr_source_outcome_ids :: "string list"
  cr_verdict_outcome_ids :: "string list"
  cr_non_verdict_outcome_ids :: "string list"
  cr_provenance :: provenance
  cr_repository_identity :: "repository_identity option"

datatype ci_skip_reason = conflicting_run_identity | ambiguous_workflow_verdicts
  | repository_reason identity_skip_reason

text \<open>The result carries its \<open>by_commit\<close> accumulator, a local variable of the function.\<close>

record ci_resolution_result =
  crr_resolutions :: "ci_resolution list"
  crr_skipped :: "ci_skip_reason counter"
  crr_conflicting_commit_keys :: "commit_key set"
  crr_outcomes_by_commit :: "(commit_key \<times> ci_outcome list) list"
  crr_by_commit :: "(commit_key \<times> workflow_resolution list) list"

definition source_id :: "ci_outcome \<Rightarrow> string \<times> string" where
  "source_id outcome = (ci_org_id outcome, ci_id outcome)"

definition keys_by_source :: "ci_index \<Rightarrow> string \<times> string \<Rightarrow> commit_key set" where
  "keys_by_source idx source =
     set (map fst (filter (\<lambda>(commit, sources). source \<in> set (map source_id sources))
       (cx_outcomes_by_commit idx)))"

definition incomplete_source :: "ci_index \<Rightarrow> ci_outcome \<Rightarrow> bool" where
  "incomplete_source idx outcome =
     (source_id outcome \<in> cx_declined_sources idx \<or> keys_by_source idx (source_id outcome) = {})"

definition run_commits :: "ci_index \<Rightarrow> ci_outcome list \<Rightarrow> commit_key set" where
  "run_commits idx run_outcomes = (\<Union>item\<in>set run_outcomes. keys_by_source idx (source_id item))"

definition resolve_run ::
  "ci_index \<Rightarrow> ci_resolution_policy \<Rightarrow> ci_outcome list \<Rightarrow> ci_resolution_result \<Rightarrow> ci_resolution_result"
where
  "resolve_run idx policy run_outcomes result =
     (if list_ex (incomplete_source idx) run_outcomes then result
      else let keys = run_commits idx run_outcomes
      in case run_identity run_outcomes of
        Some identity \<Rightarrow>
          if card keys \<noteq> 1 then
            result\<lparr>crr_skipped := ctr_incr conflicting_run_identity (crr_skipped result),
                   crr_conflicting_commit_keys := crr_conflicting_commit_keys result \<union> keys\<rparr>
          else let commit = the_elem keys
          in result\<lparr>crr_outcomes_by_commit :=
                AList.update commit
                  (sort_key capture_order
                    (dict_get (crr_outcomes_by_commit result) commit [] @ run_outcomes))
                  (crr_outcomes_by_commit result),
              crr_by_commit :=
                dict_append commit (resolve_workflow run_outcomes policy identity) (crr_by_commit result)\<rparr>
      | None \<Rightarrow>
          result\<lparr>crr_skipped := ctr_incr conflicting_run_identity (crr_skipped result),
                 crr_conflicting_commit_keys := crr_conflicting_commit_keys result \<union> keys\<rparr>)"

definition workflow_verdicts :: "workflow_resolution list \<Rightarrow> ci_result set" where
  "workflow_verdicts workflows =
     set (concat (map (\<lambda>w. case wr_verdict w of None \<Rightarrow> [] | Some v \<Rightarrow> [v]) workflows))"

definition workflow_reliabilities :: "workflow_resolution list \<Rightarrow> rat set" where
  "workflow_reliabilities workflows =
     set (concat (map (\<lambda>w. case wr_reliability w of None \<Rightarrow> [] | Some v \<Rightarrow> [v]) workflows))"

definition resolution_of ::
  "provenance \<Rightarrow> commit_key \<Rightarrow> string \<Rightarrow> workflow_resolution list \<Rightarrow> ci_resolution" where
  "resolution_of provenance commit repo unsorted =
     (let repository = ck_repository commit;
          workflows = sort_key workflow_key unsorted;
          verdicts = workflow_verdicts workflows
      in \<lparr>cr_org_id = key_org_id repository, cr_repo = repo, cr_commit_sha = ck_commit_sha commit,
          cr_verdict = (if card verdicts > 1 then None else sole verdicts),
          cr_reliability =
            (if card verdicts = 1 then Some (Min (workflow_reliabilities workflows)) else None),
          cr_suspected_flake = list_ex wr_suspected_flake workflows,
          cr_workflow_resolutions = workflows,
          cr_source_outcome_ids = sort (concat (map wr_source_outcome_ids workflows)),
          cr_verdict_outcome_ids =
            sort (concat (map (\<lambda>w. case wr_verdict_outcome_id w of None \<Rightarrow> [] | Some i \<Rightarrow> [i]) workflows)),
          cr_non_verdict_outcome_ids = sort (concat (map wr_non_verdict_outcome_ids workflows)),
          cr_provenance = provenance,
          cr_repository_identity =
            (case repository of IdentifiedRepositoryKey org i \<Rightarrow> Some i | _ \<Rightarrow> None)\<rparr>)"

definition commit_repo :: "repository_context option \<Rightarrow> repository_key \<Rightarrow> string result" where
  "commit_repo ctx key =
     (case key of
        LegacyRepositoryKey org repo \<Rightarrow> Inr repo
      | IdentifiedRepositoryKey org i \<Rightarrow>
          (case ctx of None \<Rightarrow> Inl (TypeError ''repository context is absent'')
           | Some ctx \<Rightarrow> repo_for ctx key))"

definition resolve_commit ::
  "repository_context option \<Rightarrow> provenance \<Rightarrow> commit_key \<times> workflow_resolution list
   \<Rightarrow> ci_resolution_result \<Rightarrow> ci_resolution_result result" where
  "resolve_commit ctx provenance = (\<lambda>(commit, workflows) result.
     bind_result (commit_repo ctx (ck_repository commit)) (\<lambda>repo.
       Inr (result\<lparr>
         crr_skipped := (if card (workflow_verdicts workflows) > 1
            then ctr_incr ambiguous_workflow_verdicts (crr_skipped result) else crr_skipped result),
         crr_resolutions := crr_resolutions result @ [resolution_of provenance commit repo workflows]\<rparr>)))"

primrec fold_result :: "('a \<Rightarrow> 's \<Rightarrow> 's result) \<Rightarrow> 'a list \<Rightarrow> 's \<Rightarrow> 's result" where
  "fold_result f [] s = Inr s"
| "fold_result f (x # xs) s = bind_result (f x s) (fold_result f xs)"

definition empty_result :: "ci_index \<Rightarrow> ci_resolution_result" where
  "empty_result idx =
     \<lparr>crr_resolutions = [],
      crr_skipped = (\<lambda>r. case r of repository_reason i \<Rightarrow> cx_skipped idx i | _ \<Rightarrow> 0),
      crr_conflicting_commit_keys = {}, crr_outcomes_by_commit = [], crr_by_commit = []\<rparr>"

definition sorted_runs :: "ci_outcome list \<Rightarrow> ci_outcome list list" where
  "sorted_runs outcomes = map snd (sort_key fst (group_by run_key outcomes))"

definition derive_ci_resolution_result ::
  "ci_outcome list \<Rightarrow> ci_resolution_policy \<Rightarrow> string option \<Rightarrow> int \<Rightarrow> repository_context option
   \<Rightarrow> ci_resolution_result result" where
  "derive_ci_resolution_result outcomes policy digest quarantine_revision repository_context =
     bind_result (new_provenance (cp_policy_version policy) quarantine_revision digest) (\<lambda>provenance.
     let outcomes = (case repository_context of
            Some ctx \<Rightarrow> filter (in_scope ctx) outcomes | None \<Rightarrow> outcomes)
     in bind_result (index_ci_outcomes_by_commit_key_result outcomes repository_context) (\<lambda>idx.
        let result = fold (resolve_run idx policy) (sorted_runs outcomes) (empty_result idx)
        in fold_result (resolve_commit repository_context provenance)
             (sort_key (\<lambda>(commit, ws). commit_sort_key commit) (crr_by_commit result)) result))"

definition derive_ci_resolutions ::
  "ci_outcome list \<Rightarrow> ci_resolution_policy \<Rightarrow> string option \<Rightarrow> int \<Rightarrow> repository_context option
   \<Rightarrow> ci_resolution list result" where
  "derive_ci_resolutions outcomes policy digest quarantine_revision repository_context =
     bind_result (derive_ci_resolution_result outcomes policy digest quarantine_revision
       repository_context) (\<lambda>r. Inr (crr_resolutions r))"

end
