(* ===== verification/CI_Laws.thy ===== *)
theory CI_Laws
  imports CI_Resolution
begin

text \<open>
  Laws of CI resolution: the verdict of one run, independence of arrival order, and the accounting
  of runs, workflows and commits. The loops of \<open>derive_ci_resolution_result\<close> are expressed through
  \<open>group_by\<close>, so that each law is a statement about groups of outcomes.
\<close>

section \<open>Laws of one run\<close>

lemma card_le_1_eq: "finite S \<Longrightarrow> card S \<le> 1 \<Longrightarrow> x \<in> S \<Longrightarrow> y \<in> S \<Longrightarrow> x = y"
  by (simp add: card_le_Suc0_iff_eq)

lemma set_verdict_outcomes:
  "set (verdict_outcomes outcomes) = {o' \<in> set outcomes. is_verdict (ci_result_of o')}"
  by (auto simp: verdict_outcomes_def)

lemma set_non_verdicts:
  "set (non_verdicts outcomes) = {o' \<in> set outcomes. \<not> is_verdict (ci_result_of o')}"
  by (auto simp: non_verdicts_def)

lemma sorted_last: "sorted (map f xs) \<Longrightarrow> x \<in> set xs \<Longrightarrow> f x \<le> f (last xs)"
  by (induction xs) auto

lemma last_verdict_attempt:
  assumes "o' \<in> set (verdict_outcomes outcomes)"
  shows "attempt o' \<le> attempt (last (verdict_outcomes outcomes))"
proof -
  have "sorted (map attempt_order (verdict_outcomes outcomes))"
    unfolding verdict_outcomes_def by (simp add: sorted_filter)
  from sorted_last[OF this assms] show ?thesis
    by (auto simp: attempt_order_def)
qed

lemma run_identity_attempts:
  assumes "run_identity outcomes = Some identity" "a \<in> set outcomes" "b \<in> set outcomes"
    "attempt a = attempt b"
  shows "ci_result_of a = ci_result_of b"
proof -
  let ?g = "filter (\<lambda>x. attempt x = attempt a) outcomes"
  have "(attempt a, ?g) \<in> set (group_by attempt outcomes)"
    using assms(2) by (simp add: set_group_by)
  moreover have "\<not> list_ex (\<lambda>(a, group). card (set (map ci_result_of group)) > 1) (group_by attempt outcomes)"
    using assms(1) by (auto simp: run_identity_def Let_def split: if_splits)
  ultimately have "card (ci_result_of ` set ?g) \<le> 1"
    unfolding list_ex_iff by fastforce
  moreover have "ci_result_of a \<in> ci_result_of ` set ?g" "ci_result_of b \<in> ci_result_of ` set ?g"
    using assms by auto
  ultimately show ?thesis
    by (intro card_le_1_eq[of "ci_result_of ` set ?g"]) simp_all
qed

lemma suspected_flake_iff:
  "suspected_flake outcomes \<longleftrightarrow>
     PASSED \<in> ci_result_of ` set outcomes \<and> FAILED \<in> ci_result_of ` set outcomes"
proof -
  have s: "set (map ci_result_of (verdict_outcomes outcomes)) = ci_result_of ` set outcomes \<inter> {PASSED, FAILED}"
    by (auto simp: set_verdict_outcomes is_verdict_def)
  show ?thesis
  proof (cases "PASSED \<in> ci_result_of ` set outcomes"; cases "FAILED \<in> ci_result_of ` set outcomes")
    assume "PASSED \<in> ci_result_of ` set outcomes" "FAILED \<in> ci_result_of ` set outcomes"
    then show ?thesis by (simp add: suspected_flake_def s[simplified] Int_insert_right)
  qed (simp_all add: suspected_flake_def s[simplified] Int_insert_right)
qed

lemma run_reliability_bounds:
  "ci_policy_ok policy \<Longrightarrow> run_reliability policy outcomes = Some r \<Longrightarrow> 0 \<le> r \<and> r \<le> 1"
  by (auto simp: run_reliability_def ci_policy_ok_def Let_def split: if_splits)


section \<open>Order independence\<close>

lemma run_identity_cong: "set xs = set ys \<Longrightarrow> run_identity xs = run_identity ys"
proof -
  assume s: "set xs = set ys"
  have p: "present_values f xs = present_values f ys" for f
    by (simp add: present_values_def s)
  have g: "list_ex (\<lambda>(a, group). card (set (map ci_result_of group)) > 1) (group_by attempt zs) \<longleftrightarrow>
      (\<exists>r\<in>set zs. card (ci_result_of ` {x\<in>set zs. attempt x = attempt r}) > 1)" for zs
    by (simp add: list_ex_iff set_group_by_image)
  show ?thesis
    unfolding run_identity_def Let_def g p by (simp add: s)
qed

lemma inj_attempt_order: "inj_on ci_id A \<Longrightarrow> inj_on attempt_order A"
  by (auto simp: inj_on_def attempt_order_def)

lemma inj_capture_order: "inj_on ci_id A \<Longrightarrow> inj_on capture_order A"
  by (auto simp: inj_on_def capture_order_def)

lemma run_key_first:
  assumes "run_key a = run_key b"
  shows "ci_provider_of a = ci_provider_of b" "ci_run_id a = ci_run_id b"
  using assms by (auto simp: run_key_def split: option.splits)

lemma resolve_workflow_perm:
  assumes "mset xs = mset ys" "inj_on ci_id (set xs)" "xs \<noteq> []"
    and "\<And>a b. a \<in> set xs \<Longrightarrow> b \<in> set xs \<Longrightarrow> run_key a = run_key b"
  shows "resolve_workflow xs policy identity = resolve_workflow ys policy identity"
proof -
  have sk: "sort_key attempt_order xs = sort_key attempt_order ys"
    by (rule sort_key_perm_eq[OF assms(1) inj_attempt_order[OF assms(2)]])
  have vo: "verdict_outcomes xs = verdict_outcomes ys" "non_verdicts xs = non_verdicts ys"
    by (simp_all add: verdict_outcomes_def non_verdicts_def sk)
  have "ys \<noteq> []" using assms(1,3) by auto
  then have "hd ys \<in> set xs" using hd_in_set[of ys] mset_eq_setD[OF assms(1)] by simp
  note h = run_key_first[OF assms(4)[OF hd_in_set[OF assms(3)] this]]
  have ids: "sort (map ci_id xs) = sort (map ci_id ys)"
    by (rule properties_for_sort) (simp_all add: assms(1))
  show ?thesis
    unfolding resolve_workflow_def Let_def run_reliability_def suspected_flake_def vo h ids ..
qed

lemma dict_get_subset: "set (dict_get d k []) \<subseteq> set (concat (map snd d))"
  by (cases "map_of d k") (auto simp: dict_get_def dest!: map_of_SomeD intro: rev_bexI)

lemma resolve_run_perm:
  assumes "mset xs = mset ys" "inj_on ci_id (set xs)" "xs \<noteq> []"
    and "\<And>a b. a \<in> set xs \<Longrightarrow> b \<in> set xs \<Longrightarrow> run_key a = run_key b"
    and "inj_on ci_id (set (concat (map snd (crr_outcomes_by_commit r))) \<union> set xs)"
  shows "resolve_run idx policy xs r = resolve_run idx policy ys r"
proof -
  note s = mset_eq_setD[OF assms(1)]
  have so: "sort_key capture_order (dict_get (crr_outcomes_by_commit r) commit [] @ xs)
      = sort_key capture_order (dict_get (crr_outcomes_by_commit r) commit [] @ ys)" for commit
  proof (rule sort_key_perm_eq)
    note dict_get_subset[of "crr_outcomes_by_commit r" commit]
    then show "inj_on capture_order (set (dict_get (crr_outcomes_by_commit r) commit [] @ xs))"
      by (intro inj_capture_order inj_on_subset[OF assms(5)]) auto
  qed (simp add: assms(1))
  have wf: "resolve_workflow xs policy i = resolve_workflow ys policy i" for i
    by (rule resolve_workflow_perm) (fact assms)+
  show ?thesis
    unfolding resolve_run_def Let_def run_commits_def list_ex_iff s run_identity_cong[OF s] so
      wf by (rule refl)
qed

lemma v_map_Inr: "v_map f xs = Inr ys \<longleftrightarrow> (\<forall>x\<in>set xs. \<exists>y. f x = Inr y) \<and> ys = map (\<lambda>x. projr (f x)) xs"
proof (induction xs arbitrary: ys)
  case (Cons x xs)
  show ?case
  proof (cases "f x")
    case (Inr y)
    show ?thesis
    proof (cases "v_map f xs")
      case (Inl e)
      then have "\<not> (\<forall>x\<in>set xs. \<exists>y. f x = Inr y)" using Cons[of "map (\<lambda>x. projr (f x)) xs"] by simp
      then show ?thesis using Inl Inr by simp
    next
      case r: (Inr zs)
      then show ?thesis using Inr Cons[of zs] by auto
    qed
  qed simp
qed auto

lemma dict_append_map:
  "dict_append k (f x) (map (\<lambda>(k, ps). (k, map f ps)) D) = map (\<lambda>(k, ps). (k, map f ps)) (dict_append k x D)"
proof -
  have g: "dict_get (map (\<lambda>(k, ps). (k, map f ps)) D) k [] = map f (dict_get D k [])"
    by (simp add: dict_get_def map_of_map split: option.splits)
  have u: "AList.update k (map f v) (map (\<lambda>(k, ps). (k, map f ps)) D)
      = map (\<lambda>(k, ps). (k, map f ps)) (AList.update k v D)" for v
    by (induction D) auto
  show ?thesis unfolding dict_append_def g using u[of "dict_get D k [] @ [x]"] by simp
qed

lemma index_fold:
  "cx_outcomes_by_commit (fold index_step indexed empty_index) =
     map (\<lambda>(k, ps). (k, map fst ps)) (group_by (\<lambda>p. projr (snd p)) (filter (\<lambda>p. \<not> isl (snd p)) indexed))
   \<and> cx_skipped (fold index_step indexed empty_index) =
     (\<lambda>r. length (filter (\<lambda>p. snd p = Inl r) indexed))
   \<and> cx_declined_sources (fold index_step indexed empty_index) =
     source_id ` fst ` set (filter (\<lambda>p. isl (snd p)) indexed)"
proof (induction indexed rule: rev_induct)
  case Nil
  then show ?case by (simp add: empty_index_def ctr_empty_def)
next
  case (snoc p indexed)
  obtain item r where p: "p = (item, r)" by fastforce
  show ?case
  proof (cases r)
    case (Inl reason)
    then show ?thesis using snoc by (auto simp: p source_id_def fun_eq_iff)
  next
    case (Inr commit)
    then show ?thesis
      using snoc dict_append_map[of commit fst p] by (simp add: p)
  qed
qed

lemma commit_sort_key_inject: "commit_sort_key c = commit_sort_key c' \<Longrightarrow> c = c'"
proof -
  assume a: "commit_sort_key c = commit_sort_key c'"
  then have "butlast (commit_sort_key c) = butlast (commit_sort_key c')"
    "last (commit_sort_key c) = last (commit_sort_key c')" by simp_all
  then show "c = c'"
    by (cases c; cases c') (simp add: commit_sort_key_def repository_sort_key_inject)
qed

lemma sort_commits_cong:
  assumes "set xs = set ys" "distinct (map fst xs)" "distinct (map fst ys)"
  shows "sort_key (\<lambda>(commit, v). commit_sort_key commit) xs = sort_key (\<lambda>(commit, v). commit_sort_key commit) ys"
proof (rule sort_key_perm_eq)
  show "mset xs = mset ys"
    using assms by (metis set_eq_iff_mset_eq_distinct distinct_map)
  show "inj_on (\<lambda>(commit, v). commit_sort_key commit) (set xs)"
    using assms(2) unfolding distinct_map
    by (auto intro!: inj_onI dest!: commit_sort_key_inject) (metis fst_conv inj_onD prod.inject)
qed

lemma sorted_index_perm:
  assumes "mset P = mset Q" "inj_on ci_id (fst ` set P)"
  shows "sorted_index (fold index_step P empty_index) = sorted_index (fold index_step Q empty_index)"
proof -
  let ?c = "\<lambda>p :: ci_outcome \<times> (identity_skip_reason + commit_key). projr (snd p)"
  let ?D = "\<lambda>P. map (\<lambda>(commit, items). (commit, sort_key capture_order items))
      (cx_outcomes_by_commit (fold index_step P empty_index))"
  have D: "?D P = map (\<lambda>(k, ps). (k, sort_key capture_order (map fst ps)))
      (group_by ?c (filter (\<lambda>p. \<not> isl (snd p)) P))" for P
    by (simp add: index_fold comp_def split_def)
  have sD: "set (?D P) = (\<lambda>r. (?c r, sort_key capture_order (map fst
      (filter (\<lambda>x. ?c x = ?c r) (filter (\<lambda>p. \<not> isl (snd p)) P))))) ` set (filter (\<lambda>p. \<not> isl (snd p)) P)" for P
    unfolding D by (simp add: set_group_by_image image_image)
  have eq: "sort_key capture_order (map fst (filter (\<lambda>x. ?c x = k) (filter (\<lambda>p. \<not> isl (snd p)) P)))
     = sort_key capture_order (map fst (filter (\<lambda>x. ?c x = k) (filter (\<lambda>p. \<not> isl (snd p)) Q)))" for k
    by (rule sort_key_perm_eq)
      (use assms in \<open>auto simp: mset_filter intro!: inj_capture_order elim: inj_on_subset\<close>)
  have set: "set (?D P) = set (?D Q)"
    unfolding sD eq using mset_eq_setD[OF assms(1)] by simp
  have dist: "distinct (map fst (?D P))" for P
    unfolding D using distinct_group_by[of ?c "filter (\<lambda>p. \<not> isl (snd p)) P"]
    by (simp add: comp_def split_def)
  have sk: "cx_skipped (fold index_step P empty_index) = cx_skipped (fold index_step Q empty_index)"
    unfolding index_fold[THEN conjunct2, THEN conjunct1]
    by (rule ext) (metis assms(1) mset_filter size_mset)
  have dc: "cx_declined_sources (fold index_step P empty_index) = cx_declined_sources (fold index_step Q empty_index)"
    unfolding index_fold[THEN conjunct2, THEN conjunct2] using mset_eq_setD[OF assms(1)] by simp
  show ?thesis
    unfolding sorted_index_def sort_commits_cong[OF set dist dist]
    using sk dc by simp
qed

lemma sorted_runs_eq:
  "sorted_runs outcomes =
     map (\<lambda>k. filter (\<lambda>x. run_key x = k) outcomes) (sorted_list_of_set (run_key ` set outcomes))"
  by (simp add: sorted_runs_def sort_groups_eq)

lemma resolve_run_outcomes:
  "set (concat (map snd (crr_outcomes_by_commit (resolve_run idx policy xs r))))
     \<subseteq> set (concat (map snd (crr_outcomes_by_commit r))) \<union> set xs"
proof -
  have u: "set (concat (map snd (AList.update k v d))) \<subseteq> set (concat (map snd d)) \<union> set v"
    for k :: commit_key and v :: "ci_outcome list" and d
    by (induction d) auto
  have "set (concat (map snd (AList.update k (sort_key capture_order
      (dict_get (crr_outcomes_by_commit r) k [] @ xs)) (crr_outcomes_by_commit r))))
     \<subseteq> set (concat (map snd (crr_outcomes_by_commit r))) \<union> set xs" for k
    using u[of k "sort_key capture_order (dict_get (crr_outcomes_by_commit r) k [] @ xs)"
        "crr_outcomes_by_commit r"] dict_get_subset[of "crr_outcomes_by_commit r" k]
    unfolding set_sort set_append by blast
  then show ?thesis
    by (auto simp: resolve_run_def Let_def simp del: set_concat split: option.splits)
qed

lemma fold_runs_perm:
  assumes "mset xs = mset ys" "inj_on ci_id (set xs)" "set K \<subseteq> run_key ` set xs"
    and "set (concat (map snd (crr_outcomes_by_commit r))) \<subseteq> set xs"
  shows "fold (resolve_run idx policy) (map (\<lambda>k. filter (\<lambda>x. run_key x = k) xs) K) r
       = fold (resolve_run idx policy) (map (\<lambda>k. filter (\<lambda>x. run_key x = k) ys) K) r"
  using assms(3,4)
proof (induction K arbitrary: r)
  case (Cons k K)
  let ?x = "filter (\<lambda>x. run_key x = k) xs" and ?y = "filter (\<lambda>x. run_key x = k) ys"
  have m: "mset ?x = mset ?y" using assms(1) by simp
  have "resolve_run idx policy ?x r = resolve_run idx policy ?y r"
  proof (rule resolve_run_perm[OF m])
    show "inj_on ci_id (set ?x)" by (rule inj_on_subset[OF assms(2)]) auto
    show "?x \<noteq> []" using Cons.prems(1) by (auto simp: filter_empty_conv)
    show "inj_on ci_id (set (concat (map snd (crr_outcomes_by_commit r))) \<union> set ?x)"
      by (rule inj_on_subset[OF assms(2)]) (use Cons.prems(2) in auto)
  qed simp
  moreover have "set (concat (map snd (crr_outcomes_by_commit (resolve_run idx policy ?x r)))) \<subseteq> set xs"
    using resolve_run_outcomes[of idx policy ?x r] Cons.prems(2) by auto
  ultimately show ?case using Cons by simp
qed simp

lemma index_declared:
  "index_ci_outcomes_by_commit_key_result outcomes (Some ctx) = Inr idx \<longleftrightarrow>
     (\<forall>item\<in>set (filter (in_scope ctx) outcomes). \<exists>r. index_outcome True ctx item = Inr r)
     \<and> idx = sorted_index (fold index_step
         (map (\<lambda>item. (item, projr (index_outcome True ctx item))) (filter (in_scope ctx) outcomes)) empty_index)"
proof -
  let ?xs = "filter (in_scope ctx) outcomes"
  let ?f = "\<lambda>item. bind_result (index_outcome True ctx item) (\<lambda>r. Inr (item, r))"
  have v: "v_map (\<lambda>item. case map_of [(rc_org_id ctx, ctx)] (ci_org_id item) of
                None \<Rightarrow> Inl (KeyError (ci_org_id item))
              | Some c \<Rightarrow> bind_result (index_outcome (Some ctx \<noteq> None) c item) (\<lambda>r. Inr (item, r))) ?xs
      = v_map ?f ?xs"
    by (induction outcomes) (simp_all add: in_scope_def)
  have ok: "(\<exists>y. ?f item = Inr y) \<longleftrightarrow> (\<exists>r. index_outcome True ctx item = Inr r)" for item
    by (cases "index_outcome True ctx item") auto
  have pr: "projr (?f item) = (item, projr (index_outcome True ctx item))"
    if "\<exists>r. index_outcome True ctx item = Inr r" for item
    using that by auto
  have "index_ci_outcomes_by_commit_key_result outcomes (Some ctx) =
      bind_result (v_map ?f ?xs) (\<lambda>indexed. Inr (sorted_index (fold index_step indexed empty_index)))"
    unfolding index_ci_outcomes_by_commit_key_result_def Let_def option.case bind_result_simps v
    by (rule refl)
  then have "index_ci_outcomes_by_commit_key_result outcomes (Some ctx) = Inr idx \<longleftrightarrow>
      (\<exists>indexed. v_map ?f ?xs = Inr indexed \<and> idx = sorted_index (fold index_step indexed empty_index))"
    by (cases "v_map ?f ?xs") auto
  also have "\<dots> \<longleftrightarrow> (\<forall>item\<in>set ?xs. \<exists>r. index_outcome True ctx item = Inr r)
     \<and> idx = sorted_index (fold index_step (map (\<lambda>x. projr (?f x)) ?xs) empty_index)"
    unfolding v_map_Inr ok by blast
  also have "\<dots> \<longleftrightarrow> (\<forall>item\<in>set ?xs. \<exists>r. index_outcome True ctx item = Inr r)
     \<and> idx = sorted_index (fold index_step (map (\<lambda>item. (item, projr (index_outcome True ctx item))) ?xs) empty_index)"
  proof (rule conj_cong[OF refl])
    assume "\<forall>item\<in>set ?xs. \<exists>r. index_outcome True ctx item = Inr r"
    then have "map (\<lambda>x. projr (?f x)) ?xs = map (\<lambda>item. (item, projr (index_outcome True ctx item))) ?xs"
      using pr by (intro map_cong refl) blast
    then show "(idx = sorted_index (fold index_step (map (\<lambda>x. projr (?f x)) ?xs) empty_index)) =
      (idx = sorted_index (fold index_step (map (\<lambda>item. (item, projr (index_outcome True ctx item))) ?xs) empty_index))"
      by (simp only:)
  qed
  finally show ?thesis .
qed

lemma index_declared_perm:
  assumes "index_ci_outcomes_by_commit_key_result xs (Some ctx) = Inr idx"
    and "mset xs = mset ys" "inj_on ci_id (set xs)"
  shows "index_ci_outcomes_by_commit_key_result ys (Some ctx) = Inr idx"
proof -
  let ?i = "\<lambda>item. (item, projr (index_outcome True ctx item))"
  have "sorted_index (fold index_step (map ?i (filter (in_scope ctx) xs)) empty_index)
      = sorted_index (fold index_step (map ?i (filter (in_scope ctx) ys)) empty_index)"
    by (rule sorted_index_perm)
      (use assms(2,3) in \<open>auto simp: image_image elim: inj_on_subset\<close>)
  moreover have "set (filter (in_scope ctx) xs) = set (filter (in_scope ctx) ys)"
    using mset_eq_setD[OF assms(2)] by simp
  ultimately show ?thesis
    using assms(1) unfolding index_declared by simp
qed

lemma derive_ci_perm:
  assumes "derive_ci_resolution_result outcomes policy digest revision (Some ctx) = Inr r"
    and "mset outcomes = mset outcomes'" "inj_on ci_id (set outcomes)"
  shows "derive_ci_resolution_result outcomes' policy digest revision (Some ctx) = Inr r"
proof -
  let ?xs = "filter (in_scope ctx) outcomes" and ?ys = "filter (in_scope ctx) outcomes'"
  have m: "mset ?xs = mset ?ys" and i: "inj_on ci_id (set ?xs)"
    using assms(2,3) by (auto elim: inj_on_subset)
  obtain pv idx where pv: "new_provenance (cp_policy_version policy) revision digest = Inr pv"
    and idx: "index_ci_outcomes_by_commit_key_result ?xs (Some ctx) = Inr idx"
    and r: "fold_result (resolve_commit (Some ctx) pv) (sort_key (\<lambda>(commit, ws). commit_sort_key commit)
       (crr_by_commit (fold (resolve_run idx policy) (sorted_runs ?xs) (empty_result idx))))
       (fold (resolve_run idx policy) (sorted_runs ?xs) (empty_result idx)) = Inr r"
    using assms(1) by (auto simp: derive_ci_resolution_result_def Let_def)
  have "fold (resolve_run idx policy) (sorted_runs ?xs) (empty_result idx)
      = fold (resolve_run idx policy) (sorted_runs ?ys) (empty_result idx)"
    unfolding sorted_runs_eq mset_eq_setD[OF m, symmetric]
    by (rule fold_runs_perm[OF m i]) (simp_all add: empty_result_def)
  with pv index_declared_perm[OF idx m i] r show ?thesis
    by (simp add: derive_ci_resolution_result_def Let_def)
qed

text \<open>C35. CI resolution does not depend on the order its outcomes arrive in: over a declared
  repository context and outcomes with distinct ids, every permutation gives the same resolutions,
  the same counts, the same conflicting commits and the same preserved source outcomes.\<close>

theorem ci_resolution_order_independent:
  assumes "derive_ci_resolution_result outcomes policy digest revision (Some ctx) = Inr r"
    and "mset outcomes = mset outcomes'" "inj_on ci_id (set outcomes)"
  shows "derive_ci_resolution_result outcomes' policy digest revision (Some ctx) = Inr r"
  using assms by (rule derive_ci_perm)

section \<open>Accounting for runs\<close>

definition conflicted_run :: "ci_index \<Rightarrow> ci_outcome list \<Rightarrow> bool" where
  "conflicted_run idx run =
     (\<not> list_ex (incomplete_source idx) run \<and> (run_identity run = None \<or> card (run_commits idx run) \<noteq> 1))"

definition accepted_run :: "ci_index \<Rightarrow> ci_outcome list \<Rightarrow> bool" where
  "accepted_run idx run =
     (\<not> list_ex (incomplete_source idx) run \<and> run_identity run \<noteq> None \<and> card (run_commits idx run) = 1)"

definition run_workflow :: "ci_resolution_policy \<Rightarrow> ci_outcome list \<Rightarrow> workflow_resolution" where
  "run_workflow policy run = resolve_workflow run policy (the (run_identity run))"

definition runs_result :: "ci_index \<Rightarrow> ci_resolution_policy \<Rightarrow> ci_outcome list list \<Rightarrow> ci_resolution_result" where
  "runs_result idx policy runs = fold (resolve_run idx policy) runs (empty_result idx)"

lemma fold_runs:
  "crr_by_commit (runs_result idx policy runs) = map (\<lambda>(k, rs). (k, map (run_workflow policy) rs))
      (group_by (\<lambda>run. the_elem (run_commits idx run)) (filter (accepted_run idx) runs))
    \<and> crr_skipped (runs_result idx policy runs) conflicting_run_identity = length (filter (conflicted_run idx) runs)
    \<and> crr_skipped (runs_result idx policy runs) ambiguous_workflow_verdicts = 0
    \<and> crr_resolutions (runs_result idx policy runs) = []"
proof (induction runs rule: rev_induct)
  case Nil
  then show ?case by (simp add: runs_result_def empty_result_def)
next
  case (snoc run runs)
  have step: "runs_result idx policy (runs @ [run]) = resolve_run idx policy run (runs_result idx policy runs)" by (simp add: runs_result_def)
  consider "list_ex (incomplete_source idx) run" | "conflicted_run idx run" | "accepted_run idx run"
    unfolding conflicted_run_def accepted_run_def by blast
  then show ?case
  proof cases
    case 1
    then show ?thesis using snoc unfolding step
      by (simp add: resolve_run_def conflicted_run_def accepted_run_def)
  next
    case 2
    then show ?thesis using snoc unfolding step
      by (auto simp: resolve_run_def conflicted_run_def accepted_run_def Let_def split: option.splits)
  next
    case 3
    let ?R = "runs_result idx policy runs" and ?c = "the_elem (run_commits idx run)"
    from 3 obtain i where i: "run_identity run = Some i" by (auto simp: accepted_run_def)
    have "crr_by_commit (resolve_run idx policy run ?R) = dict_append ?c (run_workflow policy run) (crr_by_commit ?R)"
      "crr_skipped (resolve_run idx policy run ?R) = crr_skipped ?R"
      "crr_resolutions (resolve_run idx policy run ?R) = crr_resolutions ?R"
      using 3 i by (simp_all add: resolve_run_def accepted_run_def Let_def run_workflow_def)
    moreover have "\<not> conflicted_run idx run" using 3 by (simp add: accepted_run_def conflicted_run_def)
    ultimately show ?thesis
      using 3 snoc dict_append_map[of ?c "run_workflow policy" run] unfolding step by simp
  qed
qed

lemma fold_commits:
  "fold_result (resolve_commit ctx pv) cs r = Inr r' \<Longrightarrow>
     crr_resolutions r' = crr_resolutions r
       @ map (\<lambda>(commit, ws). resolution_of pv commit (projr (commit_repo ctx (ck_repository commit))) ws) cs
     \<and> crr_skipped r' = ctr_add ambiguous_workflow_verdicts
         (length (filter (\<lambda>(commit, ws). card (workflow_verdicts ws) > 1) cs)) (crr_skipped r)"
proof (induction cs arbitrary: r)
  case (Cons c cs)
  obtain commit ws where c: "c = (commit, ws)" by fastforce
  obtain repo where repo: "commit_repo ctx (ck_repository commit) = Inr repo"
    using Cons.prems by (auto simp: c resolve_commit_def)
  define r2 where "r2 = r\<lparr>
         crr_skipped := (if card (workflow_verdicts ws) > 1
            then ctr_incr ambiguous_workflow_verdicts (crr_skipped r) else crr_skipped r),
         crr_resolutions := crr_resolutions r @ [resolution_of pv commit repo ws]\<rparr>"
  have "fold_result (resolve_commit ctx pv) cs r2 = Inr r'"
    using Cons.prems by (simp add: c resolve_commit_def repo r2_def)
  from Cons.IH[OF this] show ?case
    by (auto simp: r2_def c repo fun_eq_iff)
qed (auto simp: fun_eq_iff)

lemma workflow_verdicts_cong: "set ws = set ws' \<Longrightarrow> workflow_verdicts ws = workflow_verdicts ws'"
  by (simp add: workflow_verdicts_def)

lemma resolution_of_workflows:
  "set (cr_workflow_resolutions (resolution_of pv commit repo ws)) = set ws"
  "length (cr_workflow_resolutions (resolution_of pv commit repo ws)) = length ws"
  by (simp_all add: resolution_of_def Let_def)

lemma resolution_of_verdict:
  "cr_verdict (resolution_of pv commit repo ws) = Some v \<longleftrightarrow> workflow_verdicts ws = {v}"
proof -
  have w: "workflow_verdicts (sort_key workflow_key ws) = workflow_verdicts ws"
    by (rule workflow_verdicts_cong) simp
  have f: "finite (workflow_verdicts ws)" unfolding workflow_verdicts_def by (rule finite_set)
  have cv: "cr_verdict (resolution_of pv commit repo ws)
      = (if card (workflow_verdicts ws) > 1 then None else sole (workflow_verdicts ws))"
    by (simp add: resolution_of_def Let_def w)
  consider "card (workflow_verdicts ws) > 1" | "workflow_verdicts ws = {}"
    | x where "workflow_verdicts ws = {x}"
    using f by (metis card_1_singletonE card_0_eq less_one linorder_neqE_nat)
  then show ?thesis unfolding cv by cases (auto simp: sole_def)
qed

lemma sum_list_sort_key: "sum_list (map f (sort_key g xs)) = (sum_list (map f xs) :: nat)"
proof -
  have "mset (map f (sort_key g xs)) = mset (map f xs)" by simp
  then have "sum_mset (mset (map f (sort_key g xs))) = sum_mset (mset (map f xs))" by (rule arg_cong)
  then show ?thesis unfolding sum_mset_sum_list .
qed

lemma sum_lengths_group_by: "sum_list (map (\<lambda>(k, rs). length rs) (group_by f xs)) = length xs"
proof (induction xs rule: rev_induct)
  case (snoc x xs)
  have u: "sum_list (map (\<lambda>(k, rs). length rs) (AList.update k (dict_get D k [] @ [x]) D))
      = Suc (sum_list (map (\<lambda>(k, rs). length rs) D))" if "distinct (map fst D)" for k and D :: "('c \<times> 'd list) list" and x
    using that by (induction D) (auto simp: dict_get_def)
  show ?case
    using snoc u[OF distinct_group_by, of "f x" f xs x] by (simp add: dict_append_def)
qed simp

lemma runs_partition:
  "length (filter (accepted_run idx) runs) + length (filter (conflicted_run idx) runs)
     + length (filter (list_ex (incomplete_source idx)) runs) = length runs"
  by (induction runs) (auto simp: accepted_run_def conflicted_run_def)

definition commit_workflows ::
  "ci_index \<Rightarrow> ci_resolution_policy \<Rightarrow> ci_outcome list \<Rightarrow> (commit_key \<times> workflow_resolution list) list" where
  "commit_workflows idx policy scope =
     sort_key (\<lambda>(commit, ws). commit_sort_key commit)
       (map (\<lambda>(k, rs). (k, map (run_workflow policy) rs))
         (group_by (\<lambda>run. the_elem (run_commits idx run)) (filter (accepted_run idx) (sorted_runs scope))))"

definition declared_scope :: "repository_context option \<Rightarrow> ci_outcome list \<Rightarrow> ci_outcome list" where
  "declared_scope ctx outcomes = (case ctx of Some c \<Rightarrow> filter (in_scope c) outcomes | None \<Rightarrow> outcomes)"

lemma derive_ci_cases:
  assumes "derive_ci_resolution_result outcomes policy digest revision ctx = Inr r"
  obtains pv idx where "index_ci_outcomes_by_commit_key_result (declared_scope ctx outcomes) ctx = Inr idx"
    "crr_resolutions r = map (\<lambda>(commit, ws). resolution_of pv commit (projr (commit_repo ctx (ck_repository commit))) ws)
       (commit_workflows idx policy (declared_scope ctx outcomes))"
    "crr_skipped r conflicting_run_identity
       = length (filter (conflicted_run idx) (sorted_runs (declared_scope ctx outcomes)))"
    "crr_skipped r ambiguous_workflow_verdicts
       = length (filter (\<lambda>(commit, ws). card (workflow_verdicts ws) > 1)
           (commit_workflows idx policy (declared_scope ctx outcomes)))"
proof -
  let ?scope = "declared_scope ctx outcomes"
  obtain pv idx where idx: "index_ci_outcomes_by_commit_key_result ?scope ctx = Inr idx"
    and r: "fold_result (resolve_commit ctx pv) (sort_key (\<lambda>(commit, ws). commit_sort_key commit)
       (crr_by_commit (runs_result idx policy (sorted_runs ?scope)))) (runs_result idx policy (sorted_runs ?scope)) = Inr r"
    using assms by (auto simp: derive_ci_resolution_result_def Let_def declared_scope_def runs_result_def)
  show ?thesis
    by (rule that[OF idx, of pv])
      (use fold_commits[OF r] fold_runs[of idx policy "sorted_runs ?scope"] in \<open>simp_all add: commit_workflows_def\<close>)
qed

lemma commit_workflows_run:
  assumes "(commit, ws) \<in> set (commit_workflows idx policy scope)" "w \<in> set ws"
  obtains run where "run \<in> set (sorted_runs scope)" "accepted_run idx run" "w = run_workflow policy run"
  using assms by (auto simp: commit_workflows_def set_group_by)

lemma resolved_workflow_run:
  assumes "derive_ci_resolution_result outcomes policy digest revision ctx = Inr r"
    and "x \<in> set (crr_resolutions r)" "w \<in> set (cr_workflow_resolutions x)"
  obtains run identity where "run \<in> set (sorted_runs (declared_scope ctx outcomes))" "run_identity run = Some identity"
    "w = resolve_workflow run policy identity"
proof (rule derive_ci_cases[OF assms(1)])
  fix pv idx
  assume "crr_resolutions r = map (\<lambda>(commit, ws). resolution_of pv commit (projr (commit_repo ctx (ck_repository commit))) ws)
       (commit_workflows idx policy (declared_scope ctx outcomes))"
  then obtain commit ws where cw: "(commit, ws) \<in> set (commit_workflows idx policy (declared_scope ctx outcomes))"
      and w: "w \<in> set ws"
    using assms(2,3) by (auto simp: resolution_of_workflows)
  show ?thesis
    by (rule commit_workflows_run[OF cw w]) (use that in \<open>auto simp: accepted_run_def run_workflow_def\<close>)
qed

lemma commit_workflows_total:
  "sum_list (map (\<lambda>(k, ws). length ws) (commit_workflows idx policy scope))
     = length (filter (accepted_run idx) (sorted_runs scope))"
  unfolding commit_workflows_def sum_list_sort_key
  using sum_lengths_group_by[of "\<lambda>run. the_elem (run_commits idx run)"] by (simp add: comp_def split_def)

text \<open>No run is lost and none is resolved from part of its evidence: every run of the population is
  resolved once, counted as conflicting, or incomplete; a resolved workflow names exactly the ids
  of all outcomes of a complete run; a commit has a verdict exactly when its workflows agree on
  one, and every commit whose workflows disagree is counted.\<close>

theorem ci_runs_accounted:
  assumes "derive_ci_resolution_result outcomes policy digest revision ctx = Inr r"
  shows "\<exists>scope idx. scope = (case ctx of Some c \<Rightarrow> filter (in_scope c) outcomes | None \<Rightarrow> outcomes)
    \<and> index_ci_outcomes_by_commit_key_result scope ctx = Inr idx
    \<and> sum_list (map (\<lambda>res. length (cr_workflow_resolutions res)) (crr_resolutions r))
        + crr_skipped r conflicting_run_identity
        + length (filter (list_ex (incomplete_source idx)) (sorted_runs scope))
      = length (sorted_runs scope)
    \<and> crr_skipped r ambiguous_workflow_verdicts
      = length (filter (\<lambda>res. card (workflow_verdicts (cr_workflow_resolutions res)) > 1) (crr_resolutions r))
    \<and> (\<forall>res\<in>set (crr_resolutions r).
         (\<forall>v. cr_verdict res = Some v \<longleftrightarrow> workflow_verdicts (cr_workflow_resolutions res) = {v})
         \<and> (\<forall>w\<in>set (cr_workflow_resolutions res). \<exists>run\<in>set (sorted_runs scope).
              \<not> list_ex (incomplete_source idx) run \<and> wr_source_outcome_ids w = sort (map ci_id run)))"
proof (rule derive_ci_cases[OF assms])
  fix pv idx
  let ?scope = "declared_scope ctx outcomes"
  let ?cs = "commit_workflows idx policy ?scope"
  assume idx: "index_ci_outcomes_by_commit_key_result ?scope ctx = Inr idx"
    and res: "crr_resolutions r = map (\<lambda>(commit, ws).
      resolution_of pv commit (projr (commit_repo ctx (ck_repository commit))) ws) ?cs"
    and sk: "crr_skipped r conflicting_run_identity = length (filter (conflicted_run idx) (sorted_runs ?scope))"
      "crr_skipped r ambiguous_workflow_verdicts = length (filter (\<lambda>(commit, ws). card (workflow_verdicts ws) > 1) ?cs)"
  have acc: "sum_list (map (\<lambda>res. length (cr_workflow_resolutions res)) (crr_resolutions r))
      + crr_skipped r conflicting_run_identity + length (filter (list_ex (incomplete_source idx)) (sorted_runs ?scope))
      = length (sorted_runs ?scope)"
    using runs_partition[of idx "sorted_runs ?scope"] commit_workflows_total[of idx policy ?scope] sk(1)
    unfolding res by (simp add: comp_def split_def resolution_of_workflows)
  have amb: "crr_skipped r ambiguous_workflow_verdicts
      = length (filter (\<lambda>res. card (workflow_verdicts (cr_workflow_resolutions res)) > 1) (crr_resolutions r))"
    unfolding res sk(2)
    by (simp add: filter_map comp_def split_def workflow_verdicts_cong[OF resolution_of_workflows(1)])
  have "\<exists>run\<in>set (sorted_runs ?scope). \<not> list_ex (incomplete_source idx) run \<and> wr_source_outcome_ids w = sort (map ci_id run)"
    if "(commit, ws) \<in> set ?cs" "w \<in> set ws" for commit ws w
    by (rule commit_workflows_run[OF that])
      (auto simp: accepted_run_def run_workflow_def resolve_workflow_def Let_def)
  then have each: "\<forall>x\<in>set (crr_resolutions r). (\<forall>v. cr_verdict x = Some v \<longleftrightarrow> workflow_verdicts (cr_workflow_resolutions x) = {v})
      \<and> (\<forall>w\<in>set (cr_workflow_resolutions x). \<exists>run\<in>set (sorted_runs ?scope).
           \<not> list_ex (incomplete_source idx) run \<and> wr_source_outcome_ids w = sort (map ci_id run))"
    unfolding res
    by (auto simp: resolution_of_workflows resolution_of_verdict workflow_verdicts_cong[OF resolution_of_workflows(1)])
  show ?thesis
    using idx acc amb each unfolding declared_scope_def by blast
qed

section \<open>A sample population\<close>

definition sample_sha :: string where
  "sample_sha = replicate 40 CHR ''a''"

definition sample_outcome :: "string \<Rightarrow> int \<Rightarrow> ci_result \<Rightarrow> ci_outcome" where
  "sample_outcome fact_id n res =
     \<lparr>rf_schema_version = 1, rf_repository_provider = None, rf_repository_host = None,
      rf_repository_id = None, ci_id = fact_id, ci_org_id = ''acme'', ci_provider_of = JENKINS,
      ci_run_id = ''run'', ci_run_attempt = Some n, ci_repo = ''acme/old'', ci_commit_sha = sample_sha,
      ci_branch = ''main'', ci_result_of = res, ci_workflow_name = ''build'', ci_workflow_id = None,
      ci_workflow_path = None, ci_run_url = None, ci_provider_result = None, ci_error_type = None,
      ci_reason_of = None, ci_source_event_type = None, ci_source_spec_version = None,
      ci_source_event_id = None, ci_pr_number = None, ci_captured_at = 6, ci_raw = []\<rparr>"

lemma sample_run_identity:
  "run_identity [sample_outcome ''c1'' 1 FAILED, sample_outcome ''c2'' 2 PASSED] =
     Some \<lparr>rv_branch = ''main'', rv_workflow_id = None, rv_workflow_name = ''build'', rv_workflow_path = None\<rparr>"
  by (simp add: run_identity_def Let_def present_values_def sample_outcome_def sole_def group_by_def
      dict_append_def dict_get_def attempt_def)

lemma sample_policy_ok: "ci_policy_ok default_ci_policy"
  by (simp add: ci_policy_ok_def default_ci_policy_def py_strip_def py_isspace_def cp_def)


lemma sample_evidence:
  "repository_identity_evidence_of (CIFact (sample_outcome i n res)) fact_spelling REPO
     = validate_evidence (role_evidence CI_OUTCOMES i REPO ''acme'' ''acme/old'' None None None 6 fact_spelling None)"
  by (simp add: repository_identity_evidence_of_def sample_outcome_def)

lemma sample_legacy_source:
  "resolve_source sample_context (CI_OUTCOMES, ''c1'', REPO)
     = (resolved_as (LegacyRepositoryKey ''acme'' ''acme/old'') ''acme/old'')\<lparr>rs_evidence := [sample_legacy]\<rparr>"
proof -
  define b where "b = base_context ''acme'' 10 (scan_rows [sample_push, sample_observation, sample_legacy]) []"
  have b: "rc_org_id b = ''acme''" "rc_claims b = rc_claims sample_context"
    "rc_unsafe_slugs b = rc_unsafe_slugs sample_context"
    by (simp_all add: b_def sample_context_def sample_eligible assemble_context_def base_context_def Let_def)
  have o: "outcome_in [sample_push, sample_observation, sample_legacy] sample_legacy = (None, [sample_legacy], None)"
    unfolding outcome_in_def sample_sources scan_conflicts[symmetric]
    by (simp add: sample_scan source_identity_def sample_identities sample_fields Let_def)
  have "resolve_source sample_context (CI_OUTCOMES, ''c1'', REPO) =
    source_result b (sample_legacy, outcome_in [sample_push, sample_observation, sample_legacy] sample_legacy)"
    unfolding resolve_source_def sample_context_def sample_eligible assemble_context_fields fm_get_def
      context_results_lookup sample_sources b_def
    by (simp add: fmap_of_list.rep_eq)
  then show ?thesis
    by (simp add: o source_result_def b sample_fields resolve_reference_def sample_org sample_slugs
        sample_claims sample_unsafe)
qed

lemma sample_sha_normal: "normalize_commit_sha sample_sha = Inr sample_sha"
proof -
  have "py_strip sample_sha = sample_sha"
    by (rule py_strip_id) (simp add: sample_sha_def py_isspace_def cp_def)
  moreover have "py_lower sample_sha = sample_sha"
    by (simp add: sample_sha_def py_lower_def py_lower_char_def cp_def)
  ultimately show ?thesis
    by (simp add: normalize_commit_sha_def Let_def list_ex_iff) (simp add: sample_sha_def lower_hex_def)
qed

lemma sample_indexed:
  "index_outcome True sample_context (sample_outcome ''c1'' 1 FAILED)
     = Inr (Inr (CommitKey (LegacyRepositoryKey ''acme'' ''acme/old'') sample_sha))"
  "index_outcome True sample_context (sample_outcome ''c2'' 2 PASSED) = Inr (Inl repository_source_absent)"
proof -
  have v: "validate_evidence (role_evidence CI_OUTCOMES i REPO ''acme'' ''acme/old'' None None None 6 fact_spelling None)
    = Inr (role_evidence CI_OUTCOMES i REPO ''acme'' ''acme/old'' None None None 6 fact_spelling None)"
    if "i = ''c1'' \<or> i = ''c2''" for i
    using that by (auto simp: role_evidence_def validator_eval char_of_eq_iff take_bit_eq_mod)
  have src: "fmlookup (rc_sources sample_context) (CI_OUTCOMES, ''c1'', REPO) = Some sample_legacy"
    "fmlookup (rc_sources sample_context) (CI_OUTCOMES, ''c2'', REPO) = None"
    "fmlookup (rc_resolutions sample_context) (CI_OUTCOMES, ''c2'', REPO) = None"
    unfolding sample_context_def sample_eligible assemble_context_fields context_results_lookup
      sample_sources scan_conflicts[symmetric]
    by (simp_all add: fmap_of_list.rep_eq sample_scan)
  have sha: "new_commit_key k sample_sha = Inr (CommitKey k sample_sha)" for k
    by (simp add: new_commit_key_def sample_sha_normal)
  have sig: "evidence_signature (role_evidence CI_OUTCOMES ''c1'' REPO ''acme'' ''acme/old'' None None None 6 fact_spelling None)
      = evidence_signature sample_legacy"
    by (simp add: evidence_signature_def sample_legacy_def role_evidence_def source_key_of_def)
  have key: "source_key_of (role_evidence CI_OUTCOMES i REPO ''acme'' ''acme/old'' None None None 6 fact_spelling None)
     = (CI_OUTCOMES, i, REPO)" for i
    by (simp add: source_key_of_def role_evidence_def)
  have sha_of: "ci_commit_sha (sample_outcome i n res) = sample_sha" for i n res
    by (simp add: sample_outcome_def)
  show "index_outcome True sample_context (sample_outcome ''c1'' 1 FAILED)
     = Inr (Inr (CommitKey (LegacyRepositoryKey ''acme'' ''acme/old'') sample_sha))"
    by (simp add: index_outcome_def resolve_fact_def sample_evidence v key sample_legacy_source src sig
        resolved_as_def Let_def sha_of sha)
  show "index_outcome True sample_context (sample_outcome ''c2'' 2 PASSED) = Inr (Inl repository_source_absent)"
    by (simp add: index_outcome_def resolve_fact_def sample_evidence v key src resolve_source_def fm_get_def
        declined_def Let_def)
qed

lemma sample_in_scope: "in_scope sample_context (sample_outcome i n res)"
  by (simp add: in_scope_def sample_outcome_def sample_scope)

lemma sample_provenance:
  "new_provenance (cp_policy_version default_ci_policy) 0 None =
     Inr \<lparr>pr_policy_version = ''2'', pr_quarantine_revision = 0, pr_policy_digest = None\<rparr>"
  by (simp add: new_provenance_def default_ci_policy_def py_strip_def py_isspace_def cp_def)

lemma sample_index:
  "index_ci_outcomes_by_commit_key_result [sample_outcome ''c1'' 1 FAILED, sample_outcome ''c2'' 2 PASSED]
     (Some sample_context) =
   Inr \<lparr>cx_outcomes_by_commit = [(CommitKey (LegacyRepositoryKey ''acme'' ''acme/old'') sample_sha,
            [sample_outcome ''c1'' 1 FAILED])],
        cx_skipped = ctr_incr repository_source_absent ctr_empty,
        cx_declined_sources = {(''acme'', ''c2'')}\<rparr>"
  "index_ci_outcomes_by_commit_key_result [sample_outcome ''c1'' 1 FAILED] (Some sample_context) =
   Inr \<lparr>cx_outcomes_by_commit = [(CommitKey (LegacyRepositoryKey ''acme'' ''acme/old'') sample_sha,
            [sample_outcome ''c1'' 1 FAILED])],
        cx_skipped = ctr_empty, cx_declined_sources = {}\<rparr>"
  unfolding index_declared
  by (simp_all add: sample_in_scope sample_indexed sorted_index_def empty_index_def dict_append_def
      dict_get_def, simp_all add: sample_outcome_def)

lemma sample_runs:
  "sorted_runs [sample_outcome ''c1'' 1 FAILED, sample_outcome ''c2'' 2 PASSED]
     = [[sample_outcome ''c1'' 1 FAILED, sample_outcome ''c2'' 2 PASSED]]"
  "sorted_runs [sample_outcome ''c1'' 1 FAILED] = [[sample_outcome ''c1'' 1 FAILED]]"
  by (simp_all add: sorted_runs_def group_by_def run_key_def dict_append_def dict_get_def sample_outcome_def)

lemma sample_derive:
  "\<exists>r. derive_ci_resolution_result [sample_outcome ''c1'' 1 FAILED, sample_outcome ''c2'' 2 PASSED]
     default_ci_policy None 0 (Some sample_context) = Inr r"
  by (simp add: derive_ci_resolution_result_def sample_provenance sample_in_scope sample_index sample_runs
      resolve_run_def incomplete_source_def source_id_def empty_result_def)
    (simp add: sample_outcome_def)

theorem ci_resolution_order_independent_witness:
  "\<exists>r. derive_ci_resolution_result [sample_outcome ''c2'' 2 PASSED, sample_outcome ''c1'' 1 FAILED]
     default_ci_policy None 0 (Some sample_context) = Inr r"
proof -
  obtain r where r: "derive_ci_resolution_result [sample_outcome ''c1'' 1 FAILED, sample_outcome ''c2'' 2 PASSED]
     default_ci_policy None 0 (Some sample_context) = Inr r"
    using sample_derive by blast
  have "derive_ci_resolution_result [sample_outcome ''c2'' 2 PASSED, sample_outcome ''c1'' 1 FAILED]
     default_ci_policy None 0 (Some sample_context) = Inr r"
    by (rule ci_resolution_order_independent[OF r])
      (simp_all add: add_mset_commute sample_outcome_def)
  then show ?thesis by blast
qed

theorem ci_runs_accounted_witness:
  "\<exists>r. derive_ci_resolution_result [sample_outcome ''c1'' 1 FAILED, sample_outcome ''c2'' 2 PASSED]
     default_ci_policy None 0 (Some sample_context) = Inr r
     \<and> sum_list (map (\<lambda>res. length (cr_workflow_resolutions res)) (crr_resolutions r))
         + crr_skipped r conflicting_run_identity = 0"
proof -
  obtain r where r: "derive_ci_resolution_result [sample_outcome ''c1'' 1 FAILED, sample_outcome ''c2'' 2 PASSED]
     default_ci_policy None 0 (Some sample_context) = Inr r"
    using sample_derive by blast
  show ?thesis
    using r ci_runs_accounted[OF r]
    by (auto simp: sample_in_scope sample_index sample_runs incomplete_source_def source_id_def)
      (simp_all add: sample_outcome_def)
qed

end
