(* ===== verification/Session_Commit.thy ===== *)
theory Session_Commit
  imports CI_Laws
begin

text \<open>
  \<open>packages/derive/sediment_derive/session_commit.py\<close>: binding Session-to-commit observations to
  qualified commits. The qualified binding resolves each eligible observation through a declared
  repository context; the legacy adapter builds a local context over the observations alone.
\<close>

type_synonym commit_edge = "commit_key \<times> string"

record binding_result =
  br_bindings :: "(commit_edge \<times> session_commit_observation list) list"
  br_skipped :: "identity_skip_reason counter"

definition observation_order :: "session_commit_observation \<Rightarrow> instant \<times> string" where
  "observation_order item = (sc_captured_at item, sc_id item)"

definition edge_sort_key :: "commit_edge \<Rightarrow> string list \<times> string" where
  "edge_sort_key edge = (commit_sort_key (fst edge), snd edge)"

definition eligible_observation :: "string \<Rightarrow> instant \<Rightarrow> session_commit_observation \<Rightarrow> bool" where
  "eligible_observation org_id boundary item =
     (sc_org_id item = org_id \<and> sc_captured_at item \<le> boundary)"

text \<open>One pass of the loop: the decline, or the edge. A resolution without a key always carries a
  reason (\<open>built_fact_reason\<close> in the laws below).\<close>

definition bind_outcome ::
  "repository_context \<Rightarrow> session_commit_observation \<Rightarrow> (identity_skip_reason option + commit_edge) result"
where
  "bind_outcome ctx item =
     (let resolved = resolve_fact ctx (ObservationFact item) fact_spelling REPO
      in case rs_key resolved of
        None \<Rightarrow> Inr (Inl (rs_reason resolved))
      | Some key \<Rightarrow>
          bind_result (new_commit_key key (sc_commit_sha item)) (\<lambda>commit.
            Inr (Inr (commit, sc_session_id item))))"

fun bind_step ::
  "session_commit_observation \<times> (identity_skip_reason option + commit_edge) \<Rightarrow> binding_result
   \<Rightarrow> binding_result" where
  "bind_step (item, Inl (Some reason)) r = r\<lparr>br_skipped := ctr_incr reason (br_skipped r)\<rparr>"
| "bind_step (item, Inl None) r = r"
| "bind_step (item, Inr edge) r = r\<lparr>br_bindings := dict_append edge item (br_bindings r)\<rparr>"

definition bind_session_commit_keys_result ::
  "session_commit_observation list \<Rightarrow> string \<Rightarrow> instant option \<Rightarrow> repository_context
   \<Rightarrow> binding_result result" where
  "bind_session_commit_keys_result observations org_id as_of ctx =
     (case as_of of None \<Rightarrow> Inl (ValueError ''as_of must be an aware datetime'') | Some as_of \<Rightarrow>
      bind_result (as_utc as_of) (\<lambda>boundary.
      if rc_org_id ctx \<noteq> org_id \<or> rc_as_of ctx \<noteq> boundary
      then Inl (ValueError ''repository context must match organization and boundary'')
      else bind_result
        (v_map (\<lambda>item. bind_result (bind_outcome ctx item) (\<lambda>r. Inr (item, r)))
          (filter (eligible_observation org_id boundary) observations)) (\<lambda>outcomes.
        let r = fold bind_step outcomes \<lparr>br_bindings = [], br_skipped = ctr_empty\<rparr>
        in Inr (r\<lparr>br_bindings :=
             sort_key (\<lambda>(edge, items). edge_sort_key edge)
               (map (\<lambda>(edge, items). (edge, sort_key observation_order items)) (br_bindings r))\<rparr>))))"

text \<open>The legacy adapter.\<close>

definition legacy_binding ::
  "commit_edge \<times> session_commit_observation list
   \<Rightarrow> ((string \<times> string \<times> string) \<times> session_commit_observation list) list" where
  "legacy_binding = (\<lambda>((commit, session_id), facts).
     case ck_repository commit of
       LegacyRepositoryKey org repo \<Rightarrow> [((repo, ck_commit_sha commit, session_id), facts)]
     | IdentifiedRepositoryKey org i \<Rightarrow> [])"

definition bind_session_commits ::
  "session_commit_observation list \<Rightarrow> string \<Rightarrow> instant option
   \<Rightarrow> ((string \<times> string \<times> string) \<times> session_commit_observation list) list result" where
  "bind_session_commits observations org_id as_of =
     (case as_of of None \<Rightarrow> Inl (ValueError ''as_of must be an aware datetime'') | Some as_of \<Rightarrow>
      bind_result (as_utc as_of) (\<lambda>boundary.
      let eligible = filter (eligible_observation org_id boundary) observations
      in bind_result (OrgId org_id) (\<lambda>_.
         bind_result
           (v_map (\<lambda>item. repository_identity_evidence_of (ObservationFact item) fact_spelling REPO)
             (take (REPOSITORY_IDENTITY_LIMIT + 1) eligible)) (\<lambda>evidence.
         bind_result (build_repository_context evidence [] org_id (Some boundary)) (\<lambda>ctx.
         bind_result (bind_session_commit_keys_result eligible org_id (Some boundary) ctx) (\<lambda>r.
           Inr (concat (map legacy_binding (br_bindings r)))))))))"

section \<open>Laws\<close>

lemma built_reason:
  assumes "build_repository_context evidence renames org_id as_of = Inr ctx"
  shows "rs_reason (resolve_source ctx k) = None \<longleftrightarrow> rs_key (resolve_source ctx k) \<noteq> None"
proof -
  obtain b E where e: "rc_resolutions ctx = context_results (scan_rows E) b"
    by (rule built_resolutions[OF assms]) blast
  show ?thesis
    using results_lookup_reason[of E b k] unfolding resolve_source_def e fm_get_def
    by (cases "fmlookup (context_results (scan_rows E) b) k") (simp_all add: declined_def)
qed

lemma built_fact_reason:
  assumes "build_repository_context evidence renames org_id as_of = Inr ctx"
  shows "rs_key (resolve_fact ctx src sp role) = None \<Longrightarrow> rs_reason (resolve_fact ctx src sp role) \<noteq> None"
proof (cases "repository_identity_evidence_of src sp role")
  case (Inl e)
  then show ?thesis by (simp add: resolve_fact_def declined_def)
next
  case (Inr projection)
  assume "rs_key (resolve_fact ctx src sp role) = None"
  then show ?thesis
    using built_reason[OF assms, of "source_key_of projection"]
    by (auto simp: resolve_fact_def Inr Let_def declined_def split: if_splits option.splits)
qed

lemma resolve_fact_source:
  assumes "build_repository_context evidence renames org_id as_of = Inr ctx"
    and "rs_key (resolve_fact ctx src sp role) = Some key"
  obtains projection row where "repository_identity_evidence_of src sp role = Inr projection"
    "resolve_source ctx (source_key_of projection) = resolve_fact ctx src sp role"
    "fmlookup (rc_sources ctx) (source_key_of projection) = Some row"
    "evidence_signature projection = evidence_signature row"
proof (cases "repository_identity_evidence_of src sp role")
  case (Inl e)
  then show ?thesis using assms(2) by (simp add: resolve_fact_def declined_def)
next
  case (Inr projection)
  show ?thesis
    using assms(2) built_reason[OF assms(1), of "source_key_of projection"] that[OF Inr]
    by (auto simp: resolve_fact_def Inr Let_def declined_def split: if_splits option.splits)
qed

lemma observation_projection:
  assumes "repository_identity_evidence_of (ObservationFact item) sp REPO = Inr projection"
  shows "source_key_of projection = (SESSION_COMMIT_OBSERVATIONS, sc_id item, REPO)"
    "ev_source_push_id projection = Some (sc_source_push_id item)" "ev_repo projection = sc_repo item"
    "RepoSlug (sc_repo item) = Inr (sc_repo item)"
proof -
  let ?e = "role_evidence SESSION_COMMIT_OBSERVATIONS (sc_id item) REPO (sc_org_id item) (sc_repo item)
        (rf_repository_provider item) (rf_repository_host item) (rf_repository_id item)
        (sc_captured_at item) sp (Some (sc_source_push_id item))"
  have v: "validate_evidence ?e = Inr projection"
    using assms by (simp add: repository_identity_evidence_of_def)
  then have p: "projection = ?e" by (rule validate_evidence_Inr)
  show "source_key_of projection = (SESSION_COMMIT_OBSERVATIONS, sc_id item, REPO)"
    "ev_source_push_id projection = Some (sc_source_push_id item)" "ev_repo projection = sc_repo item"
    by (simp_all add: p role_evidence_def source_key_of_def)
  have "validate_evidence_fields ?e = Inr ?e"
    using v unfolding p by (auto simp: validate_evidence_def Let_def split: sum.splits if_splits)
  then show "RepoSlug (sc_repo item) = Inr (sc_repo item)"
    by (auto simp: validate_evidence_fields_def v_field_Inr v_require_Inr role_evidence_def)
qed

lemma resolve_reference_Legacy:
  "rs_key (resolve_reference ctx org repo identity) = Some (LegacyRepositoryKey o' slug) \<Longrightarrow> RepoSlug repo = Inr slug"
  by (auto simp: resolve_reference_def declined_def resolved_as_def Let_def
      split: option.splits sum.splits if_splits)

lemma bind_fold:
  "br_bindings (fold bind_step P \<lparr>br_bindings = [], br_skipped = ctr_empty\<rparr>) =
     map (\<lambda>(k, ps). (k, map fst ps)) (group_by (\<lambda>p. projr (snd p)) (filter (\<lambda>p. \<not> isl (snd p)) P))
   \<and> br_skipped (fold bind_step P \<lparr>br_bindings = [], br_skipped = ctr_empty\<rparr>) =
     (\<lambda>r. length (filter (\<lambda>p. snd p = Inl (Some r)) P))"
proof (induction P rule: rev_induct)
  case Nil
  then show ?case by (simp add: ctr_empty_def)
next
  case (snoc p P)
  obtain item r where p: "p = (item, r)" by fastforce
  show ?case
  proof (cases r)
    case (Inl reason)
    then show ?thesis using snoc by (cases reason) (auto simp: p fun_eq_iff)
  next
    case (Inr edge)
    then show ?thesis using snoc dict_append_map[of edge fst p] by (simp add: p)
  qed
qed

lemma bind_result_cases:
  assumes "bind_session_commit_keys_result observations org_id as_of ctx = Inr r"
  obtains boundary P where "as_of = Some boundary"
    "P = map (\<lambda>item. (item, projr (bind_outcome ctx item))) (filter (eligible_observation org_id boundary) observations)"
    "\<forall>item\<in>set (filter (eligible_observation org_id boundary) observations). \<exists>x. bind_outcome ctx item = Inr x"
    "br_bindings r = sort_key (\<lambda>(edge, items). edge_sort_key edge)
       (map (\<lambda>(k, ps). (k, sort_key observation_order (map fst ps)))
         (group_by (\<lambda>p. projr (snd p)) (filter (\<lambda>p. \<not> isl (snd p)) P)))"
    "br_skipped r = (\<lambda>x. length (filter (\<lambda>p. snd p = Inl (Some x)) P))"
    "rc_org_id ctx = org_id" "rc_as_of ctx = boundary"
proof -
  obtain boundary where b: "as_of = Some boundary" "as_utc boundary = Inr boundary"
    "rc_org_id ctx = org_id" "rc_as_of ctx = boundary"
    using assms by (auto simp: bind_session_commit_keys_result_def as_utc_Inr split: option.splits if_splits)
  let ?xs = "filter (eligible_observation org_id boundary) observations"
  let ?f = "\<lambda>item. bind_result (bind_outcome ctx item) (\<lambda>r. Inr (item, r))"
  obtain P where P: "v_map ?f ?xs = Inr P"
    and r: "r = (fold bind_step P \<lparr>br_bindings = [], br_skipped = ctr_empty\<rparr>)\<lparr>br_bindings :=
             sort_key (\<lambda>(edge, items). edge_sort_key edge)
               (map (\<lambda>(edge, items). (edge, sort_key observation_order items))
                 (br_bindings (fold bind_step P \<lparr>br_bindings = [], br_skipped = ctr_empty\<rparr>)))\<rparr>"
    using assms b by (auto simp: bind_session_commit_keys_result_def Let_def)
  have ok: "\<forall>item\<in>set ?xs. \<exists>x. bind_outcome ctx item = Inr x"
  proof
    fix item assume "item \<in> set ?xs"
    then have "\<exists>y. ?f item = Inr y" using P unfolding v_map_Inr by blast
    then show "\<exists>x. bind_outcome ctx item = Inr x" by (cases "bind_outcome ctx item") auto
  qed
  have "P = map (\<lambda>item. (item, projr (bind_outcome ctx item))) ?xs"
    using P ok unfolding v_map_Inr by (auto intro!: map_cong)
  then show ?thesis
    using that[OF b(1) _ ok _ _ b(3,4)] r
    by (simp add: bind_fold comp_def split_def)
qed

section \<open>Properties of the binding\<close>

text \<open>C33. Every bound edge is proved by captured evidence: the observation is one of the supplied ones
  and in scope, the edge carries its Session and commit, an identified repository comes from
  the observation's own source Push (which is in the eligible evidence with exactly that identity),
  and a legacy repository is the observation's own name.\<close>

theorem session_commit_binding_sound:
  assumes "build_repository_context evidence renames org_id as_of = Inr ctx"
    and "bind_session_commit_keys_result observations org bound ctx = Inr r"
    and "((commit, session_id), items) \<in> set (br_bindings r)" "item \<in> set items"
  shows "item \<in> set observations \<and> eligible_observation (rc_org_id ctx) (rc_as_of ctx) item
    \<and> session_id = sc_session_id item \<and> normalize_commit_sha (sc_commit_sha item) = Inr (ck_commit_sha commit)
    \<and> (case ck_repository commit of
         IdentifiedRepositoryKey o' i \<Rightarrow>
           (\<exists>push\<in>set (eligible_evidence (rc_org_id ctx) (rc_as_of ctx) evidence).
              ev_source_table push = PUSHES \<and> ev_source_fact_id push = sc_source_push_id item
              \<and> evidence_identity push = Some i)
       | LegacyRepositoryKey o' repo \<Rightarrow> repo = sc_repo item)"
proof -
  obtain boundary P where b:
    "P = map (\<lambda>item. (item, projr (bind_outcome ctx item))) (filter (eligible_observation org boundary) observations)"
    "\<forall>item\<in>set (filter (eligible_observation org boundary) observations). \<exists>x. bind_outcome ctx item = Inr x"
    "br_bindings r = sort_key (\<lambda>(edge, items). edge_sort_key edge)
       (map (\<lambda>(k, ps). (k, sort_key observation_order (map fst ps)))
         (group_by (\<lambda>p. projr (snd p)) (filter (\<lambda>p. \<not> isl (snd p)) P)))"
    "rc_org_id ctx = org" "rc_as_of ctx = boundary"
    by (rule bind_result_cases[OF assms(2)]) blast
  have "(item, Inr (commit, session_id)) \<in> set P"
  proof -
    obtain ps where ps: "((commit, session_id), ps) \<in> set (group_by (\<lambda>p. projr (snd p)) (filter (\<lambda>p. \<not> isl (snd p)) P))"
      "items = sort_key observation_order (map fst ps)"
      using assms(3) unfolding b(3) set_sort set_map by (auto simp only: image_iff split: prod.splits)
    then obtain p where "p \<in> set ps" "item = fst p" using assms(4) by auto
    then have "p \<in> set P" "\<not> isl (snd p)" "projr (snd p) = (commit, session_id)"
      using ps(1) unfolding set_group_by by auto
    with \<open>item = fst p\<close> show ?thesis by (metis prod.collapse sum.collapse(2))
  qed
  then have it: "item \<in> set (filter (eligible_observation org boundary) observations)"
    and "projr (bind_outcome ctx item) = Inr (commit, session_id)" by (auto simp: b(1))
  with b(2) have bo: "bind_outcome ctx item = Inr (Inr (commit, session_id))" by force
  let ?src = "ObservationFact item"
  obtain key where key: "rs_key (resolve_fact ctx ?src fact_spelling REPO) = Some key"
    and ck: "new_commit_key key (sc_commit_sha item) = Inr commit" and s: "session_id = sc_session_id item"
    using bo by (auto simp: bind_outcome_def Let_def split: option.splits)
  from ck have sha: "normalize_commit_sha (sc_commit_sha item) = Inr (ck_commit_sha commit)"
    and rep: "ck_repository commit = key" by (auto simp: new_commit_key_def)
  obtain projection row where p: "repository_identity_evidence_of ?src fact_spelling REPO = Inr projection"
    "resolve_source ctx (source_key_of projection) = resolve_fact ctx ?src fact_spelling REPO"
    "fmlookup (rc_sources ctx) (source_key_of projection) = Some row"
    "evidence_signature projection = evidence_signature row"
    by (rule resolve_fact_source[OF assms(1) key])
  note pr = observation_projection[OF p(1)]
  have row: "ev_source_push_id row = Some (sc_source_push_id item)" "ev_repo row = sc_repo item"
    using p(4) pr(2,3) by (auto simp: evidence_signature_def)
  have k: "rs_key (resolve_source ctx (SESSION_COMMIT_OBSERVATIONS, sc_id item, REPO)) = Some key"
    using p(2) key unfolding pr(1) by simp
  have "case key of
         IdentifiedRepositoryKey o' i \<Rightarrow>
           (\<exists>push\<in>set (eligible_evidence (rc_org_id ctx) (rc_as_of ctx) evidence).
              ev_source_table push = PUSHES \<and> ev_source_fact_id push = sc_source_push_id item
              \<and> evidence_identity push = Some i)
       | LegacyRepositoryKey o' repo \<Rightarrow> repo = sc_repo item"
  proof (cases key)
    case (IdentifiedRepositoryKey o' i)
    show ?thesis
      by (rule observation_push[OF assms(1) k[unfolded IdentifiedRepositoryKey]])
        (use p(3) row in \<open>auto simp: IdentifiedRepositoryKey pr(1)\<close>)
  next
    case (LegacyRepositoryKey o' repo)
    obtain row' b identity where "fmlookup (rc_sources ctx) (SESSION_COMMIT_OBSERVATIONS, sc_id item, REPO) = Some row'"
      "rs_key (resolve_reference b (rc_org_id b) (ev_repo row') identity) = Some key"
      by (rule resolved_source_row[OF assms(1) k]) blast
    with p(3) pr(1,4) row(2) resolve_reference_Legacy[of b "rc_org_id b" "ev_repo row" identity o' repo]
    show ?thesis by (simp add: LegacyRepositoryKey)
  qed
  with it s sha show ?thesis unfolding rep b(4,5) by auto
qed

lemma length_filter_sum:
  assumes "finite R" "\<And>p. p \<in> set P \<Longrightarrow> f p = None \<or> (\<exists>x\<in>R. f p = Some x)"
  shows "(\<Sum>x\<in>R. length (filter (\<lambda>p. f p = Some x) P)) + length (filter (\<lambda>p. f p = None) P) = length P"
  using assms(2)
proof (induction P)
  case (Cons p P)
  have IH: "(\<Sum>x\<in>R. length (filter (\<lambda>p. f p = Some x) P)) + length (filter (\<lambda>p. f p = None) P) = length P"
    using Cons by simp
  show ?case
  proof (cases "f p")
    case None
    then show ?thesis using IH by simp
  next
    case (Some y)
    then have "y \<in> R" using Cons.prems[of p] by auto
    moreover have "length (filter (\<lambda>p. f p = Some x) (p # P))
        = length (filter (\<lambda>p. f p = Some x) P) + (if y = x then 1 else 0)" for x
      using Some by simp
    ultimately have "(\<Sum>x\<in>R. length (filter (\<lambda>p. f p = Some x) (p # P)))
        = (\<Sum>x\<in>R. length (filter (\<lambda>p. f p = Some x) P)) + 1"
      using assms(1) by (simp only: sum.distrib) simp
    then show ?thesis using Some IH by simp
  qed
qed simp

text \<open>No observation is lost: the bound observations and the closed decline counts add up to the
  observations of the organization captured by the boundary.\<close>

theorem session_commit_binding_conservation:
  assumes "build_repository_context evidence renames org_id as_of = Inr ctx"
    and "bind_session_commit_keys_result observations org bound ctx = Inr r"
  shows "sum_list (map (\<lambda>(edge, items). length items) (br_bindings r))
      + (\<Sum>x\<in>{repository_identity_absent, repository_identity_unresolved, repository_identity_conflict,
             repository_source_absent, repository_mirror_identity_unresolved}. br_skipped r x)
      = length (filter (eligible_observation (rc_org_id ctx) (rc_as_of ctx)) observations)"
proof -
  obtain boundary P where b:
    "P = map (\<lambda>item. (item, projr (bind_outcome ctx item))) (filter (eligible_observation org boundary) observations)"
    "\<forall>item\<in>set (filter (eligible_observation org boundary) observations). \<exists>x. bind_outcome ctx item = Inr x"
    "br_bindings r = sort_key (\<lambda>(edge, items). edge_sort_key edge)
       (map (\<lambda>(k, ps). (k, sort_key observation_order (map fst ps)))
         (group_by (\<lambda>p. projr (snd p)) (filter (\<lambda>p. \<not> isl (snd p)) P)))"
    "br_skipped r = (\<lambda>x. length (filter (\<lambda>p. snd p = Inl (Some x)) P))"
    "rc_org_id ctx = org" "rc_as_of ctx = boundary"
    by (rule bind_result_cases[OF assms(2)]) blast
  let ?L = "{repository_identity_absent, repository_identity_unresolved, repository_identity_conflict,
             repository_source_absent, repository_mirror_identity_unresolved}"
  let ?f = "\<lambda>p :: session_commit_observation \<times> (identity_skip_reason option + commit_edge).
      if isl (snd p) then projl (snd p) else None"
  have reasons: "snd p \<noteq> Inl None" if p_in: "p \<in> set P" for p
  proof -
    obtain item x where "p = (item, x)" "bind_outcome ctx item = Inr x"
      using p_in b(2) unfolding b(1) by force
    then show ?thesis
      using built_fact_reason[OF assms(1), of "ObservationFact item" fact_spelling REPO]
      by (auto simp: bind_outcome_def Let_def split: option.splits)
  qed
  have "sum_list (map (\<lambda>(edge, items). length items) (br_bindings r)) = length (filter (\<lambda>p. \<not> isl (snd p)) P)"
    unfolding b(3) sum_list_sort_key
    using sum_lengths_group_by[of "\<lambda>p. projr (snd p)" "filter (\<lambda>p. \<not> isl (snd p)) P"]
    by (simp add: comp_def split_def)
  also have "filter (\<lambda>p. \<not> isl (snd p)) P = filter (\<lambda>p. ?f p = None) P"
  proof (rule filter_cong[OF refl])
    fix p assume "p \<in> set P"
    from reasons[OF this] show "(\<not> isl (snd p)) = (?f p = None)" by (cases "snd p") auto
  qed
  finally have 1: "sum_list (map (\<lambda>(edge, items). length items) (br_bindings r)) = length (filter (\<lambda>p. ?f p = None) P)" .
  have "br_skipped r x = length (filter (\<lambda>p. ?f p = Some x) P)" for x
    unfolding b(4) by (rule arg_cong[where f = length], rule filter_cong) (auto simp: isl_def)
  moreover have "(\<Sum>x\<in>?L. length (filter (\<lambda>p. ?f p = Some x) P)) + length (filter (\<lambda>p. ?f p = None) P) = length P"
    by (rule length_filter_sum) (auto intro: identity_skip_reason.exhaust)
  ultimately show ?thesis unfolding 1 by (simp add: b(1,5,6))
qed

section \<open>A sample observation\<close>

definition sample_session_commit :: session_commit_observation where
  "sample_session_commit =
     \<lparr>rf_schema_version = 1, rf_repository_provider = None, rf_repository_host = None,
      rf_repository_id = None, sc_id = ''o1'', sc_org_id = ''acme'', sc_repo = ''acme/app'',
      sc_commit_sha = sample_sha, sc_session_id = ''s1'', sc_source_push_id = ''p1'', sc_captured_at = 6\<rparr>"

lemma sample_session_projection:
  "repository_identity_evidence_of (ObservationFact sample_session_commit) fact_spelling REPO
     = Inr (sample_observation\<lparr>ev_captured_spelling := fact_spelling\<rparr>)"
  by (simp add: repository_identity_evidence_of_def sample_session_commit_def sample_observation_def
      role_evidence_def validator_eval)

lemma sample_session_resolves:
  "rs_key (resolve_fact sample_context (ObservationFact sample_session_commit) fact_spelling REPO)
     = Some (IdentifiedRepositoryKey ''acme'' sample_identity)"
proof -
  let ?p = "sample_observation\<lparr>ev_captured_spelling := fact_spelling\<rparr>"
  have k: "source_key_of ?p = (SESSION_COMMIT_OBSERVATIONS, ''o1'', REPO)"
    using sample_keys(2) by (simp add: source_key_of_def)
  have sig: "evidence_signature ?p = evidence_signature sample_observation"
    by (simp add: evidence_signature_def source_key_of_def)
  have src: "fmlookup (rc_sources sample_context) (SESSION_COMMIT_OBSERVATIONS, ''o1'', REPO) = Some sample_observation"
    unfolding sample_context_def sample_eligible assemble_context_fields sample_sources
    by (simp add: fmap_of_list.rep_eq)
  have "rs_reason (resolve_source sample_context (SESSION_COMMIT_OBSERVATIONS, ''o1'', REPO)) = None"
    using built_reason[OF sample_build] sample_observation_resolves by simp
  then show ?thesis
    using sample_observation_resolves
    by (simp add: resolve_fact_def sample_session_projection Let_def k sig src)
qed

lemma sample_bound:
  "bind_session_commit_keys_result [sample_session_commit] ''acme'' (Some 10) sample_context =
     Inr \<lparr>br_bindings = [((CommitKey (IdentifiedRepositoryKey ''acme'' sample_identity) sample_sha, ''s1''),
             [sample_session_commit])],
          br_skipped = ctr_empty\<rparr>"
proof -
  have f: "sc_commit_sha sample_session_commit = sample_sha" "sc_session_id sample_session_commit = ''s1''"
    "eligible_observation ''acme'' 10 sample_session_commit"
    by (simp_all add: sample_session_commit_def eligible_observation_def)
  have bo: "bind_outcome sample_context sample_session_commit =
      Inr (Inr (CommitKey (IdentifiedRepositoryKey ''acme'' sample_identity) sample_sha, ''s1''))"
    unfolding bind_outcome_def Let_def sample_session_resolves
    by (simp add: f new_commit_key_def sample_sha_normal)
  show ?thesis
    by (simp add: bind_session_commit_keys_result_def as_utc_def UTC_MIN_def UTC_MAX_def sample_scope f
        bo dict_append_def dict_get_def)
qed

theorem session_commit_binding_sound_witness:
  "\<exists>push\<in>set (eligible_evidence ''acme'' 10 sample_population).
     ev_source_table push = PUSHES \<and> ev_source_fact_id push = sc_source_push_id sample_session_commit
     \<and> evidence_identity push = Some sample_identity"
  using session_commit_binding_sound[OF sample_build sample_bound, of
      "CommitKey (IdentifiedRepositoryKey ''acme'' sample_identity) sample_sha" "''s1''"
      "[sample_session_commit]" sample_session_commit]
  by (simp add: sample_scope)

theorem session_commit_binding_conservation_witness:
  "length (filter (eligible_observation ''acme'' 10) [sample_session_commit]) = 1"
  using session_commit_binding_conservation[OF sample_build sample_bound] by (simp add: sample_scope)

end
