(* ===== verification/Compute_Timing.thy ===== *)
theory Compute_Timing
  imports CI_Laws
begin

text \<open>
  \<open>packages/derive/sediment_derive/compute_timing.py\<close>: each Session's final Compute allocation
  beside the time its Inference calls span. Durations are milliseconds, instants microseconds;
  \<open>timedelta\<close> floor division by one millisecond is \<open>div 1000\<close>. A call start before the earliest
  representable instant, or an instant outside the UTC range, raises \<open>OverflowError\<close>, which
  \<open>_intervals\<close> turns into \<open>None\<close>.

  A call enters as \<open>timed_call\<close>, the fields the derivation reads of an \<open>InferenceCall\<close> or of the
  store's \<open>InferenceCallSummary\<close>. Allocation times are UTC-representable by validation.
\<close>

section \<open>Model\<close>

datatype timing_skip_reason = ambiguous_final_allocation | no_inference_calls
  | inference_call_duration_absent | inference_call_interval_unrepresentable

record timed_call =
  tc_org_id :: string
  tc_session_id :: string
  tc_observed_at :: instant
  tc_duration_ms :: "int option"

record compute_arm =
  arm_allocation_source :: compute_allocation_source
  arm_cpu_millicores :: "int option"
  arm_memory_bytes :: "int option"

definition compute_arm_of :: "compute_allocation \<Rightarrow> compute_arm" where
  "compute_arm_of a =
     \<lparr>arm_allocation_source = ca_allocation_source a, arm_cpu_millicores = ca_cpu_millicores a,
      arm_memory_bytes = ca_memory_bytes a\<rparr>"

definition compute_arm_sort_key :: "compute_arm \<Rightarrow> string \<times> int \<times> int" where
  "compute_arm_sort_key arm =
     (allocation_source_value (arm_allocation_source arm),
      (case arm_cpu_millicores arm of None \<Rightarrow> -1 | Some n \<Rightarrow> n),
      (case arm_memory_bytes arm of None \<Rightarrow> -1 | Some n \<Rightarrow> n))"

record session_compute_timing =
  ct_org_id :: string
  ct_session_id :: string
  ct_final_allocation :: compute_arm
  ct_allocation_changed :: bool
  ct_allocations :: "compute_allocation list"
  ct_inference_calls :: nat
  ct_started_at :: instant
  ct_ended_at :: instant
  ct_elapsed_ms :: int
  ct_model_ms :: int
  ct_between_calls_ms :: int
  ct_provenance :: provenance

record compute_timing_result =
  ctr_provenance :: provenance
  ctr_timings :: "session_compute_timing list"
  ctr_skipped :: "timing_skip_reason counter"

definition call_duration :: "timed_call \<Rightarrow> int" where
  "call_duration call = (case tc_duration_ms call of None \<Rightarrow> 0 | Some d \<Rightarrow> d)"

definition call_interval :: "timed_call \<Rightarrow> instant \<times> instant" where
  "call_interval call = (tc_observed_at call - call_duration call * 1000, tc_observed_at call)"

definition representable :: "instant \<Rightarrow> bool" where
  "representable t = (UTC_MIN \<le> t \<and> t \<le> UTC_MAX)"

text \<open>Called only when every duration is present.\<close>

definition intervals_of :: "timed_call list \<Rightarrow> (instant \<times> instant) list option" where
  "intervals_of calls =
     (if list_all (\<lambda>c. representable (fst (call_interval c)) \<and> representable (snd (call_interval c))) calls
      then Some (sort (map call_interval calls)) else None)"

fun busy_loop :: "int \<Rightarrow> instant \<Rightarrow> instant \<Rightarrow> (instant \<times> instant) list \<Rightarrow> int" where
  "busy_loop busy current_start current_end [] = busy + (current_end - current_start)"
| "busy_loop busy current_start current_end ((start, stop) # rest) =
     (if start > current_end
      then busy_loop (busy + (current_end - current_start)) start stop rest
      else busy_loop busy current_start (max current_end stop) rest)"

text \<open>\<open>_busy\<close> is called with a non-empty list.\<close>

fun busy :: "(instant \<times> instant) list \<Rightarrow> int" where
  "busy [] = 0"
| "busy ((start, stop) # rest) = busy_loop 0 start stop rest"

definition allocation_order :: "compute_allocation \<Rightarrow> instant \<times> string" where
  "allocation_order item = (ca_occurred_at item, ca_id item)"

definition final_arms :: "compute_allocation list \<Rightarrow> compute_arm set" where
  "final_arms session_allocations =
     set (map compute_arm_of (filter
       (\<lambda>item. ca_occurred_at item = ca_occurred_at (last session_allocations)) session_allocations))"

text \<open>The reason chain of the loop body, or the sorted intervals.\<close>

definition timing_outcome ::
  "compute_allocation list \<Rightarrow> timed_call list \<Rightarrow> timing_skip_reason + (instant \<times> instant) list" where
  "timing_outcome session_allocations calls =
     (if card (final_arms session_allocations) > 1 then Inl ambiguous_final_allocation
      else if calls = [] then Inl no_inference_calls
      else if list_ex (\<lambda>call. tc_duration_ms call = None) calls then Inl inference_call_duration_absent
      else case intervals_of calls of
        None \<Rightarrow> Inl inference_call_interval_unrepresentable
      | Some intervals \<Rightarrow> Inr intervals)"

definition session_timing ::
  "provenance \<Rightarrow> string \<times> string \<Rightarrow> compute_allocation list \<Rightarrow> timed_call list
   \<Rightarrow> (instant \<times> instant) list \<Rightarrow> session_compute_timing" where
  "session_timing provenance key session_allocations calls intervals =
     (let started_at = fst (hd intervals);
          ended_at = Max (set (map snd intervals));
          elapsed = ended_at - started_at
      in \<lparr>ct_org_id = fst key, ct_session_id = snd key,
          ct_final_allocation = the_elem (final_arms session_allocations),
          ct_allocation_changed = (card (set (map compute_arm_of session_allocations)) > 1),
          ct_allocations = session_allocations, ct_inference_calls = length calls,
          ct_started_at = started_at, ct_ended_at = ended_at,
          ct_elapsed_ms = elapsed div 1000, ct_model_ms = sum_list (map call_duration calls),
          ct_between_calls_ms = (elapsed - busy intervals) div 1000, ct_provenance = provenance\<rparr>)"

definition session_key_of_allocation :: "compute_allocation \<Rightarrow> string \<times> string" where
  "session_key_of_allocation a = (ca_org_id a, ca_session_id a)"

definition session_key_of_call :: "timed_call \<Rightarrow> string \<times> string" where
  "session_key_of_call c = (tc_org_id c, tc_session_id c)"

definition timing_step ::
  "(string \<times> string \<Rightarrow> timed_call list) \<Rightarrow> (string \<times> string) \<times> compute_allocation list
   \<Rightarrow> compute_timing_result \<Rightarrow> compute_timing_result" where
  "timing_step calls_by_session = (\<lambda>(key, unsorted) result.
     let session_allocations = sort_key allocation_order unsorted; calls = calls_by_session key
     in case timing_outcome session_allocations calls of
       Inl reason \<Rightarrow> result\<lparr>ctr_skipped := ctr_incr reason (ctr_skipped result)\<rparr>
     | Inr intervals \<Rightarrow>
         result\<lparr>ctr_timings := ctr_timings result
           @ [session_timing (ctr_provenance result) key session_allocations calls intervals]\<rparr>)"

definition derive_compute_timing_result ::
  "compute_allocation list \<Rightarrow> timed_call list \<Rightarrow> int \<Rightarrow> compute_timing_result result" where
  "derive_compute_timing_result allocations inference_calls quarantine_revision =
     bind_result (new_provenance ''1'' quarantine_revision None) (\<lambda>provenance.
       let allocations_by_session = group_by session_key_of_allocation allocations;
           calls_by_session = (\<lambda>key. filter (\<lambda>call. session_key_of_call call = key) inference_calls)
       in Inr (fold (timing_step calls_by_session) (sort_key fst allocations_by_session)
            \<lparr>ctr_provenance = provenance, ctr_timings = [], ctr_skipped = ctr_empty\<rparr>))"

section \<open>Busy time\<close>

definition covered :: "(instant \<times> instant) set \<Rightarrow> instant set" where
  "covered intervals = (\<Union>(start, stop)\<in>intervals. {start..<stop})"

lemma covered_insert: "covered (insert (s, e) I) = {s..<e} \<union> covered I"
  by (simp add: covered_def)

lemma finite_covered: "finite I \<Longrightarrow> finite (covered I)"
  by (auto simp: covered_def)

lemma busy_loop_card:
  assumes "cs \<le> ce" "sorted (map fst rest)" "\<forall>(s, e)\<in>set rest. s \<le> e \<and> cs \<le> s"
  shows "busy_loop acc cs ce rest = acc + int (card ({cs..<ce} \<union> covered (set rest)))"
  using assms
proof (induction acc cs ce rest rule: busy_loop.induct)
  case (1 acc cs ce)
  then show ?case by (simp add: covered_def)
next
  case (2 acc cs ce s e rest)
  have rest: "sorted (map fst rest)" "\<forall>(a, b)\<in>set rest. a \<le> b \<and> s \<le> a" "s \<le> e" "cs \<le> s"
    using 2(4,5) by auto
  show ?case
  proof (cases "s > ce")
    case True
    have IH: "busy_loop (acc + (ce - cs)) s e rest
        = acc + (ce - cs) + int (card ({s..<e} \<union> covered (set rest)))"
      using 2(1)[OF True] rest by simp
    have "{cs..<ce} \<inter> ({s..<e} \<union> covered (set rest)) = {}"
      using True rest by (fastforce simp: covered_def)
    then have "card ({cs..<ce} \<union> ({s..<e} \<union> covered (set rest)))
        = card {cs..<ce} + card ({s..<e} \<union> covered (set rest))"
      by (intro card_Un_disjoint) (simp_all add: finite_covered)
    then show ?thesis using True IH 2(3) by (simp add: covered_insert)
  next
    case False
    have "{cs..<ce} \<union> {s..<e} = {cs..<max ce e}" using False rest 2(3) by auto
    then have "{cs..<ce} \<union> covered (set ((s, e) # rest)) = {cs..<max ce e} \<union> covered (set rest)"
      by (simp add: covered_insert Un_assoc[symmetric])
    moreover have "busy_loop acc cs (max ce e) rest = acc + int (card ({cs..<max ce e} \<union> covered (set rest)))"
    proof -
      have "\<forall>(a, b)\<in>set rest. a \<le> b \<and> cs \<le> a" using rest(2,4) by fastforce
      then show ?thesis using 2(2)[OF False] 2(3) rest(1) by (simp add: le_max_iff_disj)
    qed
    ultimately show ?thesis using False by simp
  qed
qed

lemma busy_card:
  assumes "sorted intervals" "\<forall>(s, e)\<in>set intervals. s \<le> e"
  shows "busy intervals = int (card (covered (set intervals)))"
proof (cases intervals)
  case Nil
  then show ?thesis by (simp add: covered_def)
next
  case (Cons i rest)
  obtain s e where i: "i = (s, e)" by fastforce
  have "sorted (map fst rest)"
    using assms(1) unfolding Cons by (induction rest) (auto simp: less_eq_prod_def)
  moreover have "\<forall>(a, b)\<in>set rest. a \<le> b \<and> s \<le> a"
    using assms unfolding Cons i by (fastforce simp: less_eq_prod_def)
  ultimately show ?thesis
    using busy_loop_card[of s e rest 0] assms(2) by (simp add: Cons i covered_insert)
qed

section \<open>One Session\<close>

definition in_flight :: "timed_call \<Rightarrow> instant set" where
  "in_flight call = {tc_observed_at call - call_duration call * 1000..<tc_observed_at call}"

lemma covered_calls: "covered (set (map call_interval calls)) = (\<Union>call\<in>set calls. in_flight call)"
  by (simp add: covered_def call_interval_def in_flight_def)

lemma card_in_flight:
  assumes "\<forall>call\<in>set calls. 0 \<le> call_duration call"
  shows "int (card (\<Union>call\<in>set calls. in_flight call)) \<le> 1000 * sum_list (map call_duration calls)"
  using assms
proof (induction calls)
  case (Cons c calls)
  have "card (\<Union>call\<in>set (c # calls). in_flight call) \<le> card (in_flight c) + card (\<Union>call\<in>set calls. in_flight call)"
    by (simp add: card_Un_le)
  moreover have "int (card (in_flight c)) = call_duration c * 1000"
    using Cons.prems by (simp add: in_flight_def)
  ultimately show ?case using Cons by simp
qed simp

lemma timing_outcome_Inr:
  assumes "timing_outcome allocations calls = Inr intervals"
  shows "calls \<noteq> []" "intervals = sort (map call_interval calls)"
    "\<forall>call\<in>set calls. tc_duration_ms call \<noteq> None"
  using assms by (auto simp: timing_outcome_def intervals_of_def list_ex_iff split: if_splits)

lemma sum_list_perm: "mset xs = mset ys \<Longrightarrow> sum_list xs = (sum_list ys :: int)"
  by (metis sum_mset_sum_list)

lemma hd_sort_fst:
  assumes "xs \<noteq> []"
  shows "fst (hd (sort xs)) = Min (fst ` set (xs :: (int \<times> int) list))"
proof -
  obtain y ys where y: "sort xs = y # ys" using assms by (metis list.exhaust sort_key_simps(1) length_0_conv length_sort)
  have "sorted (y # ys)" by (metis sorted_sort y)
  moreover have "set (y # ys) = set xs" by (metis set_sort y)
  ultimately have "fst y \<le> fst z" if "z \<in> set xs" for z
    using that by (auto simp: less_eq_prod_def simp flip: \<open>set (y # ys) = set xs\<close>)
  moreover have "y \<in> set xs" using set_sort[of "\<lambda>x. x" xs] unfolding y by auto
  ultimately have "Min (fst ` set xs) = fst y" by (intro Min_eqI) auto
  then show ?thesis by (simp add: y)
qed

section \<open>Properties\<close>

text \<open>The timing of a Session is what its calls span: it starts with the earliest call start, ends
  with the latest completion, and its between-call time is exactly the whole milliseconds of the
  microseconds in that span during which no call is in flight, however the calls overlap. It is
  never negative, never exceeds the elapsed time, and elapsed time is at most between-call time
  plus model time.\<close>

theorem compute_timing_gap:
  assumes "timing_outcome allocations calls = Inr intervals"
    and "\<forall>call\<in>set calls. 0 \<le> call_duration call"
    and "t = session_timing provenance key allocations calls intervals"
  shows "ct_started_at t = Min ((\<lambda>call. tc_observed_at call - call_duration call * 1000) ` set calls)
    \<and> ct_ended_at t = Max (tc_observed_at ` set calls)
    \<and> ct_between_calls_ms t =
        int (card {x. ct_started_at t \<le> x \<and> x < ct_ended_at t \<and> (\<forall>call\<in>set calls. x \<notin> in_flight call)}) div 1000
    \<and> 0 \<le> ct_between_calls_ms t \<and> ct_between_calls_ms t \<le> ct_elapsed_ms t
    \<and> ct_elapsed_ms t \<le> ct_between_calls_ms t + ct_model_ms t"
proof -
  note o = timing_outcome_Inr[OF assms(1)]
  define S where "S = Min ((\<lambda>call. tc_observed_at call - call_duration call * 1000) ` set calls)"
  define T where "T = Max (tc_observed_at ` set calls)"
  define I where "I = (\<Union>call\<in>set calls. in_flight call)"
  have st: "ct_started_at t = S"
    unfolding assms(3) session_timing_def Let_def o(2) S_def
    using hd_sort_fst[of "map call_interval calls"] o(1) by (simp add: call_interval_def image_image)
  have en: "ct_ended_at t = T"
    unfolding assms(3) session_timing_def Let_def o(2) T_def by (simp add: call_interval_def image_image)
  have busy: "busy intervals = int (card I)"
    unfolding I_def covered_calls[symmetric] o(2)
    by (subst busy_card) (use assms(2) in \<open>auto simp: call_interval_def\<close>)
  have fI: "finite I" by (simp add: I_def in_flight_def)
  have sub: "I \<subseteq> {S..<T}"
  proof
    fix x assume "x \<in> I"
    then obtain c where c: "c \<in> set calls" "tc_observed_at c - call_duration c * 1000 \<le> x" "x < tc_observed_at c"
      by (auto simp: I_def in_flight_def)
    have "S \<le> tc_observed_at c - call_duration c * 1000" "tc_observed_at c \<le> T"
      unfolding S_def T_def using c(1) by auto
    with c show "x \<in> {S..<T}" by simp
  qed
  have "S \<le> T"
  proof -
    obtain c where c: "c \<in> set calls" using o(1) by (cases calls) auto
    have "S \<le> tc_observed_at c - call_duration c * 1000" "tc_observed_at c \<le> T"
      unfolding S_def T_def using c by auto
    then show ?thesis using assms(2) c by fastforce
  qed
  then have len: "int (card {S..<T}) = T - S" by simp
  have gap: "{x. S \<le> x \<and> x < T \<and> (\<forall>call\<in>set calls. x \<notin> in_flight call)} = {S..<T} - I"
    by (auto simp: I_def)
  have cgap: "int (card ({S..<T} - I)) = (T - S) - int (card I)"
    using card_Diff_subset[OF fI sub] card_mono[OF _ sub] len by (simp add: of_nat_diff)
  have between: "ct_between_calls_ms t = int (card ({S..<T} - I)) div 1000"
    using st en unfolding cgap busy[symmetric] assms(3) session_timing_def Let_def by simp
  have elapsed: "ct_elapsed_ms t = (T - S) div 1000"
    using st en unfolding assms(3) session_timing_def Let_def by simp
  have model: "ct_model_ms t = sum_list (map call_duration calls)"
    by (simp add: assms(3) session_timing_def Let_def)
  have "T - S \<le> int (card ({S..<T} - I)) + 1000 * sum_list (map call_duration calls)"
    using card_in_flight[OF assms(2)] cgap unfolding I_def[symmetric] by linarith
  then have "(T - S) div 1000 \<le> (int (card ({S..<T} - I)) + 1000 * sum_list (map call_duration calls)) div 1000"
    by (rule zdiv_mono1) simp
  then have le: "ct_elapsed_ms t \<le> ct_between_calls_ms t + ct_model_ms t"
    unfolding elapsed between model by simp
  have "ct_between_calls_ms t \<le> ct_elapsed_ms t"
    unfolding elapsed between by (rule zdiv_mono1) (use cgap in simp_all)
  then show ?thesis
    using st en between le unfolding S_def[symmetric] T_def[symmetric]
    by (simp add: gap)
qed

definition timing_class ::
  "timed_call list \<Rightarrow> (string \<times> string) \<times> compute_allocation list
   \<Rightarrow> timing_skip_reason + (instant \<times> instant) list" where
  "timing_class calls = (\<lambda>(key, allocations).
     timing_outcome (sort_key allocation_order allocations)
       (filter (\<lambda>call. session_key_of_call call = key) calls))"

definition timing_row ::
  "provenance \<Rightarrow> timed_call list \<Rightarrow> (string \<times> string) \<times> compute_allocation list
   \<Rightarrow> session_compute_timing" where
  "timing_row provenance calls = (\<lambda>(key, allocations).
     session_timing provenance key (sort_key allocation_order allocations)
       (filter (\<lambda>call. session_key_of_call call = key) calls)
       (projr (timing_class calls (key, allocations))))"

lemma timing_fold:
  "fold (timing_step (\<lambda>key. filter (\<lambda>call. session_key_of_call call = key) calls)) groups
     \<lparr>ctr_provenance = provenance, ctr_timings = [], ctr_skipped = ctr_empty\<rparr> =
   \<lparr>ctr_provenance = provenance,
    ctr_timings = map (timing_row provenance calls) (filter (\<lambda>g. \<not> isl (timing_class calls g)) groups),
    ctr_skipped = (\<lambda>r. length (filter (\<lambda>g. timing_class calls g = Inl r) groups))\<rparr>"
proof (induction groups rule: rev_induct)
  case Nil
  then show ?case by (simp add: ctr_empty_def)
next
  case (snoc g groups)
  obtain key allocations where g: "g = (key, allocations)" by fastforce
  show ?case
  proof (cases "timing_class calls g")
    case (Inl reason)
    then show ?thesis using snoc
      by (auto simp: g timing_step_def timing_class_def Let_def fun_eq_iff)
  next
    case (Inr intervals)
    then show ?thesis using snoc
      by (simp add: g timing_step_def timing_class_def timing_row_def Let_def)
  qed
qed

lemma derive_timing_Inr:
  assumes "derive_compute_timing_result allocations calls revision = Inr r"
  obtains provenance where "new_provenance ''1'' revision None = Inr provenance"
    "r = \<lparr>ctr_provenance = provenance,
      ctr_timings = map (timing_row provenance calls) (filter (\<lambda>g. \<not> isl (timing_class calls g))
        (sort_key fst (group_by session_key_of_allocation allocations))),
      ctr_skipped = (\<lambda>x. length (filter (\<lambda>g. timing_class calls g = Inl x)
        (sort_key fst (group_by session_key_of_allocation allocations))))\<rparr>"
  using assms by (auto simp: derive_compute_timing_result_def Let_def timing_fold)

lemma length_by_class:
  "(\<Sum>x\<in>{ambiguous_final_allocation, no_inference_calls, inference_call_duration_absent,
          inference_call_interval_unrepresentable}. length (filter (\<lambda>g. f g = Inl x) gs))
     + length (filter (\<lambda>g. \<not> isl (f g)) gs) = length gs"
proof (induction gs)
  case (Cons g gs)
  show ?case
  proof (cases "f g")
    case (Inl r)
    with Cons show ?thesis by (cases r) auto
  qed (use Cons in auto)
qed simp

text \<open>Every Session with an allocation is timed once or counted once under its first reason, each
  Session appears at most once, in order, and the result does not depend on the order in which
  allocations (with distinct ids) and calls are supplied.\<close>

theorem compute_timing_accounting:
  assumes "derive_compute_timing_result allocations calls revision = Inr r"
    and "mset allocations' = mset allocations" "mset calls' = mset calls"
    and "inj_on ca_id (set allocations)"
  shows "length (ctr_timings r)
      + (\<Sum>x\<in>{ambiguous_final_allocation, no_inference_calls, inference_call_duration_absent,
               inference_call_interval_unrepresentable}. ctr_skipped r x)
      = card ((\<lambda>a. (ca_org_id a, ca_session_id a)) ` set allocations)
    \<and> sorted_wrt (<) (map (\<lambda>t. (ct_org_id t, ct_session_id t)) (ctr_timings r))
    \<and> derive_compute_timing_result allocations' calls' revision = Inr r"
proof -
  obtain pv where pv: "new_provenance ''1'' revision None = Inr pv"
    and r: "r = \<lparr>ctr_provenance = pv,
      ctr_timings = map (timing_row pv calls) (filter (\<lambda>g. \<not> isl (timing_class calls g))
        (sort_key fst (group_by session_key_of_allocation allocations))),
      ctr_skipped = (\<lambda>x. length (filter (\<lambda>g. timing_class calls g = Inl x)
        (sort_key fst (group_by session_key_of_allocation allocations))))\<rparr>"
    by (rule derive_timing_Inr[OF assms(1)])
  define K where "K = sorted_list_of_set (session_key_of_allocation ` set allocations)"
  define G where "G = map (\<lambda>k. (k, filter (\<lambda>x. session_key_of_allocation x = k) allocations)) K"
  have G: "sort_key fst (group_by session_key_of_allocation allocations) = G"
    by (simp add: sort_groups_eq G_def K_def)
  have "length G = card ((\<lambda>a. (ca_org_id a, ca_session_id a)) ` set allocations)"
    by (simp add: G_def K_def session_key_of_allocation_def[abs_def])
  then have 1: "length (ctr_timings r)
      + (\<Sum>x\<in>{ambiguous_final_allocation, no_inference_calls, inference_call_duration_absent,
               inference_call_interval_unrepresentable}. ctr_skipped r x)
      = card ((\<lambda>a. (ca_org_id a, ca_session_id a)) ` set allocations)"
    using length_by_class[of "timing_class calls" G] by (simp add: r G)
  have key: "(ct_org_id (timing_row pv calls g), ct_session_id (timing_row pv calls g)) = fst g" for g
    by (simp add: timing_row_def session_timing_def Let_def split_def)
  have "sorted_wrt (<) (map fst G)"
    by (simp add: G_def K_def comp_def)
  then have "sorted_wrt (\<lambda>a b. fst a < fst b) G" by (simp add: sorted_wrt_map)
  then have 2: "sorted_wrt (<) (map (\<lambda>t. (ct_org_id t, ct_session_id t)) (ctr_timings r))"
    unfolding r G by (simp add: sorted_wrt_map key sorted_wrt_filter)
  have rows: "timing_class calls' (k, filter (\<lambda>x. session_key_of_allocation x = k) allocations')
      = timing_class calls (k, filter (\<lambda>x. session_key_of_allocation x = k) allocations)
    \<and> timing_row pv calls' (k, filter (\<lambda>x. session_key_of_allocation x = k) allocations')
      = timing_row pv calls (k, filter (\<lambda>x. session_key_of_allocation x = k) allocations)" for k
  proof -
    let ?a = "filter (\<lambda>x. session_key_of_allocation x = k) allocations"
    let ?a' = "filter (\<lambda>x. session_key_of_allocation x = k) allocations'"
    let ?c = "filter (\<lambda>call. session_key_of_call call = k) calls"
    let ?c' = "filter (\<lambda>call. session_key_of_call call = k) calls'"
    have a: "sort_key allocation_order ?a' = sort_key allocation_order ?a"
    proof (rule sort_key_perm_eq[symmetric])
      show "inj_on allocation_order (set ?a)"
        by (rule inj_on_subset[of _ "set allocations"])
          (use assms(4) in \<open>auto simp: inj_on_def allocation_order_def\<close>)
    qed (simp add: assms(2))
    have m: "mset ?c' = mset ?c" using assms(3) by simp
    note c = mset_eq_setD[OF m] mset_eq_length[OF m]
    have e: "?c' = [] \<longleftrightarrow> ?c = []" using c(2) by auto
    have s: "sort (map call_interval ?c') = sort (map call_interval ?c)"
      by (rule properties_for_sort) (use m in \<open>simp_all\<close>)
    have o: "timing_outcome al ?c' = timing_outcome al ?c" for al
      unfolding timing_outcome_def intervals_of_def list_all_iff list_ex_iff c(1) s e ..
    have sum: "sum_list (map call_duration ?c') = sum_list (map call_duration ?c)"
      by (rule sum_list_perm) (simp only: mset_map m)
    have t: "session_timing pv k al ?c' i = session_timing pv k al ?c i" for al i
      unfolding session_timing_def Let_def c(2) sum ..
    show ?thesis
      unfolding timing_class_def timing_row_def split_conv a o t by simp
  qed
  have K': "sorted_list_of_set (session_key_of_allocation ` set allocations') = K"
    unfolding K_def mset_eq_setD[OF assms(2)] ..
  have 3: "derive_compute_timing_result allocations' calls' revision = Inr r"
    unfolding derive_compute_timing_result_def pv bind_result_simps Let_def timing_fold sort_groups_eq K'
      r K_def[symmetric] filter_map map_map comp_def rows[THEN conjunct1] rows[THEN conjunct2] length_map
    by (rule refl)
  from 1 2 3 show ?thesis by blast
qed

section \<open>A sample Session\<close>

definition sample_allocation :: compute_allocation where
  "sample_allocation =
     \<lparr>ca_id = ''a1'', ca_org_id = ''acme'', ca_session_id = ''s1'', ca_allocation_source = OPERATOR,
      ca_cpu_millicores = Some 500, ca_memory_bytes = None, ca_occurred_at = 0, ca_captured_at = 0\<rparr>"

definition sample_timed_call :: "instant \<Rightarrow> timed_call" where
  "sample_timed_call t =
     \<lparr>tc_org_id = ''acme'', tc_session_id = ''s1'', tc_observed_at = t, tc_duration_ms = Some 2\<rparr>"

lemmas timing_eval = timing_outcome_def final_arms_def compute_arm_of_def sample_allocation_def
  sample_timed_call_def intervals_of_def call_interval_def call_duration_def representable_def
  UTC_MIN_def UTC_MAX_def

lemma sample_timing_outcome:
  "timing_outcome [sample_allocation] [sample_timed_call 9000, sample_timed_call 3000]
     = Inr [(1000, 3000), (7000, 9000)]"
  by (simp add: timing_eval)

theorem compute_timing_gap_witness:
  "int (card {x. 1000 \<le> x \<and> x < 9000 \<and>
      (\<forall>call\<in>set [sample_timed_call 9000, sample_timed_call 3000]. x \<notin> in_flight call)}) div 1000 = 4"
proof -
  let ?t = "session_timing pv key [sample_allocation] [sample_timed_call 9000, sample_timed_call 3000]
      [(1000, 3000), (7000, 9000)]"
  have "ct_started_at ?t = 1000" "ct_ended_at ?t = 9000" "ct_between_calls_ms ?t = 4"
    by (simp_all add: session_timing_def)
  moreover note compute_timing_gap[OF sample_timing_outcome _ refl, of pv key]
  ultimately show ?thesis by (simp add: sample_timed_call_def call_duration_def)
qed

theorem compute_timing_accounting_witness:
  "\<exists>r. derive_compute_timing_result [sample_allocation]
      [sample_timed_call 3000, sample_timed_call 9000] 0 = Inr r
    \<and> length (ctr_timings r)
      + (\<Sum>x\<in>{ambiguous_final_allocation, no_inference_calls, inference_call_duration_absent,
               inference_call_interval_unrepresentable}. ctr_skipped r x) = 1"
proof -
  obtain r where r: "derive_compute_timing_result [sample_allocation]
      [sample_timed_call 9000, sample_timed_call 3000] 0 = Inr r"
    by (simp add: derive_compute_timing_result_def new_provenance_def py_strip_def py_isspace_def cp_def Let_def)
  have "mset [sample_allocation] = mset [sample_allocation]"
    "mset [sample_timed_call 3000, sample_timed_call 9000] = mset [sample_timed_call 9000, sample_timed_call 3000]"
    "inj_on ca_id (set [sample_allocation])"
    by (simp_all add: add_mset_commute)
  from compute_timing_accounting[OF r this] show ?thesis by (intro exI[of _ r]) simp
qed

end
