(* ===== verification/Survival.thy ===== *)
theory Survival
  imports CI_Laws Similarity
begin

text \<open>
  \<open>packages/derive/sediment_derive/survival.py\<close>: the final Fate of each applied edit, the lines
  changed outside the agent from an edit to session end, and the fill of edit retention scores.

  The scorer is the caller's; \<open>scored\<close> is what a call of it can do: raise, return something that is
  no number, a \<open>bool\<close>, or a number. The contract its documentation makes normative is the locale
  \<open>containment_scorer\<close>, interpreted on \<open>four_gram_containment\<close>.
\<close>

section \<open>Fates\<close>

datatype edit_fate = DELETED | PARTIALLY_MODIFIED | UNMODIFIED

record fate_policy =
  fp_deleted_max :: rat
  fp_unmodified_min :: rat
  fp_policy_version :: string

definition fate_policy_ok :: "fate_policy \<Rightarrow> bool" where
  "fate_policy_ok p =
     (0 \<le> fp_deleted_max p \<and> fp_deleted_max p \<le> 1 \<and> 0 \<le> fp_unmodified_min p
      \<and> fp_unmodified_min p \<le> 1 \<and> fp_deleted_max p < fp_unmodified_min p
      \<and> py_strip (fp_policy_version p) \<noteq> [])"

text \<open>The literals \<open>0.1\<close> and \<open>0.9\<close> denote the nearest binary64 numbers.\<close>

definition default_fate_policy :: fate_policy where
  "default_fate_policy =
     \<lparr>fp_deleted_max = fl64 (1 / 10), fp_unmodified_min = fl64 (9 / 10), fp_policy_version = ''1''\<rparr>"

record fate =
  ft_observation_id :: string
  ft_org_id :: string
  ft_agent_harness :: agent_harness
  ft_session_id :: string
  ft_call_id :: string
  ft_score :: rat
  ft_fate :: edit_fate
  ft_external_lines_added :: "int option"
  ft_external_lines_removed :: "int option"
  ft_provenance :: provenance

datatype fate_skip_reason = scorer_error | invalid_score

record fate_result =
  fr_fates :: "fate list"
  fr_skipped :: "fate_skip_reason counter"
  fr_provenance :: provenance

datatype scored = ScorerRaises py_error | ScorerOther | ScorerBool bool | ScorerNumber pyfloat

definition clamp :: "rat \<Rightarrow> rat" where
  "clamp x = max 0 (min 1 x)"

definition fate_of_score :: "fate_policy \<Rightarrow> rat \<Rightarrow> edit_fate" where
  "fate_of_score policy score =
     (if score \<le> fp_deleted_max policy then DELETED
      else if score \<ge> fp_unmodified_min policy then UNMODIFIED
      else PARTIALLY_MODIFIED)"

type_synonym edit_key = "string \<times> agent_harness \<times> string \<times> string"

definition edit_key_of :: "edit_observation \<Rightarrow> edit_key" where
  "edit_key_of o' = (eo_org_id o', eo_agent_harness o', eo_session_id o', eo_call_id o')"

definition file_key_of :: "edit_observation \<Rightarrow> edit_key" where
  "file_key_of o' = (eo_org_id o', eo_agent_harness o', eo_session_id o', eo_file_path o')"

definition edit_order :: "edit_observation \<Rightarrow> instant \<times> string" where
  "edit_order o' = (eo_occurred_at o', eo_call_id o')"

record tail_walk =
  tw_added :: int
  tw_removed :: int
  tw_covered :: bool
  tw_out :: "(edit_key \<times> (int \<times> int)) list"

text \<open>One step of the backwards walk over a file's edits.\<close>

definition tail_step :: "edit_observation \<Rightarrow> tail_walk \<Rightarrow> tail_walk" where
  "tail_step o' w =
     (case (eo_external_lines_added o', eo_external_lines_removed o') of
        (Some a, Some r) \<Rightarrow>
          if \<not> tw_covered w then w
          else w\<lparr>tw_added := tw_added w + a, tw_removed := tw_removed w + r,
                 tw_out := AList.update (edit_key_of o') (tw_added w + a, tw_removed w + r) (tw_out w)\<rparr>
      | _ \<Rightarrow> w\<lparr>tw_covered := False\<rparr>)"

definition walk_file ::
  "edit_observation list \<Rightarrow> (edit_key \<times> (int \<times> int)) list \<Rightarrow> (edit_key \<times> (int \<times> int)) list" where
  "walk_file edits out =
     tw_out (fold tail_step (rev (sort_key edit_order edits))
       \<lparr>tw_added = 0, tw_removed = 0, tw_covered = True, tw_out = out\<rparr>)"

definition external_lines_after :: "edit_observation list \<Rightarrow> (edit_key \<times> (int \<times> int)) list" where
  "external_lines_after observations =
     fold (\<lambda>(file, edits). walk_file edits) (group_by file_key_of observations) []"

definition fate_outcome ::
  "(string \<Rightarrow> string \<Rightarrow> scored) \<Rightarrow> edit_observation \<Rightarrow> fate_skip_reason + rat" where
  "fate_outcome scorer o' =
     (case scorer (eo_applied_text o') (eo_observed_file_text o') of
        ScorerRaises e \<Rightarrow> Inl scorer_error
      | ScorerNumber (Finite x) \<Rightarrow> Inr (clamp x)
      | _ \<Rightarrow> Inl invalid_score)"

definition fate_row ::
  "fate_policy \<Rightarrow> provenance \<Rightarrow> (edit_key \<times> (int \<times> int)) list \<Rightarrow> edit_observation \<Rightarrow> rat \<Rightarrow> fate" where
  "fate_row policy provenance totals o' score =
     \<lparr>ft_observation_id = eo_id o', ft_org_id = eo_org_id o', ft_agent_harness = eo_agent_harness o',
      ft_session_id = eo_session_id o', ft_call_id = eo_call_id o', ft_score = score,
      ft_fate = fate_of_score policy score,
      ft_external_lines_added = map_option fst (map_of totals (edit_key_of o')),
      ft_external_lines_removed = map_option snd (map_of totals (edit_key_of o')),
      ft_provenance = provenance\<rparr>"

definition fate_step ::
  "(string \<Rightarrow> string \<Rightarrow> scored) \<Rightarrow> fate_policy \<Rightarrow> (edit_key \<times> (int \<times> int)) list \<Rightarrow> edit_observation
   \<Rightarrow> fate_result \<Rightarrow> fate_result" where
  "fate_step scorer policy totals o' r =
     (case fate_outcome scorer o' of
        Inl reason \<Rightarrow> r\<lparr>fr_skipped := ctr_incr reason (fr_skipped r)\<rparr>
      | Inr score \<Rightarrow>
          r\<lparr>fr_fates := fr_fates r @ [fate_row policy (fr_provenance r) totals o' score]\<rparr>)"

definition fate_order :: "fate \<Rightarrow> string \<times> string \<times> string \<times> string \<times> string" where
  "fate_order f =
     (ft_org_id f, agent_harness_value (ft_agent_harness f), ft_session_id f, ft_call_id f,
      ft_observation_id f)"

definition derive_fate_result ::
  "edit_observation list \<Rightarrow> (string \<Rightarrow> string \<Rightarrow> scored) \<Rightarrow> fate_policy \<Rightarrow> int \<Rightarrow> fate_result result"
where
  "derive_fate_result observations scorer policy quarantine_revision =
     bind_result (new_provenance (fp_policy_version policy) quarantine_revision None) (\<lambda>provenance.
       let totals = external_lines_after observations;
           r = fold (fate_step scorer policy totals) observations
                 \<lparr>fr_fates = [], fr_skipped = ctr_empty, fr_provenance = provenance\<rparr>
       in Inr (r\<lparr>fr_fates := sort_key fate_order (fr_fates r)\<rparr>))"

definition derive_fates ::
  "edit_observation list \<Rightarrow> (string \<Rightarrow> string \<Rightarrow> scored) \<Rightarrow> fate_policy \<Rightarrow> int \<Rightarrow> fate list result" where
  "derive_fates observations scorer policy quarantine_revision =
     bind_result (derive_fate_result observations scorer policy quarantine_revision)
       (\<lambda>r. Inr (fr_fates r))"

section \<open>Filling edit retention scores\<close>

text \<open>\<open>setdefault\<close> keeps the first observation of a key.\<close>

definition first_by_key :: "edit_observation list \<Rightarrow> edit_key \<Rightarrow> edit_observation option" where
  "first_by_key observations key = find (\<lambda>o'. edit_key_of o' = key) observations"

definition matching_observation ::
  "edit_observation list \<Rightarrow> developer_decision \<Rightarrow> edit_observation option" where
  "matching_observation observations d =
     (case dd_call_id d of
        Some call_id \<Rightarrow>
          if call_id \<noteq> [] \<and> dd_edit_retention_score d = None
          then first_by_key observations (dd_org_id d, dd_agent_harness d, dd_session_id d, call_id)
          else None
      | None \<Rightarrow> None)"

definition fill_retention ::
  "edit_observation list \<Rightarrow> (string \<Rightarrow> string \<Rightarrow> scored) \<Rightarrow> developer_decision
   \<Rightarrow> developer_decision result" where
  "fill_retention observations scorer d =
     (case matching_observation observations d of
        None \<Rightarrow> Inr d
      | Some o' \<Rightarrow>
         (case scorer (eo_applied_text o') (eo_observed_file_text o') of
            ScorerRaises e \<Rightarrow> Inl e
          | ScorerNumber (Finite x) \<Rightarrow> Inr (d\<lparr>dd_edit_retention_score := Some (clamp x)\<rparr>)
          | ScorerBool b \<Rightarrow> Inr (d\<lparr>dd_edit_retention_score := Some (if b then 1 else 0)\<rparr>)
          | _ \<Rightarrow> Inr d))"

definition attach_edit_retention ::
  "developer_decision list \<Rightarrow> edit_observation list \<Rightarrow> (string \<Rightarrow> string \<Rightarrow> scored)
   \<Rightarrow> developer_decision list result" where
  "attach_edit_retention decisions observations scorer =
     v_map (fill_retention observations scorer) decisions"

section \<open>Laws of the backwards walk\<close>

definition counted :: "edit_observation \<Rightarrow> bool" where
  "counted o' = (eo_external_lines_added o' \<noteq> None \<and> eo_external_lines_removed o' \<noteq> None)"

definition lines_added :: "edit_observation \<Rightarrow> int" where
  "lines_added o' = (case eo_external_lines_added o' of None \<Rightarrow> 0 | Some n \<Rightarrow> n)"

definition lines_removed :: "edit_observation \<Rightarrow> int" where
  "lines_removed o' = (case eo_external_lines_removed o' of None \<Rightarrow> 0 | Some n \<Rightarrow> n)"

definition walk :: "(edit_key \<times> (int \<times> int)) list \<Rightarrow> edit_observation list \<Rightarrow> tail_walk" where
  "walk out zs = fold tail_step (rev zs) \<lparr>tw_added = 0, tw_removed = 0, tw_covered = True, tw_out = out\<rparr>"

lemma walk_Cons: "walk out (z # zs) = tail_step z (walk out zs)"
  by (simp add: walk_def)

lemma tail_step_counted:
  "counted z \<Longrightarrow> tail_step z w =
     (if \<not> tw_covered w then w
      else w\<lparr>tw_added := tw_added w + lines_added z, tw_removed := tw_removed w + lines_removed z,
             tw_out := AList.update (edit_key_of z) (tw_added w + lines_added z, tw_removed w + lines_removed z)
               (tw_out w)\<rparr>)"
  "\<not> counted z \<Longrightarrow> tail_step z w = w\<lparr>tw_covered := False\<rparr>"
  by (auto simp: tail_step_def counted_def lines_added_def lines_removed_def split: option.splits)

lemma walk_state:
  "tw_covered (walk out zs) = list_all counted zs
   \<and> (list_all counted zs \<longrightarrow> tw_added (walk out zs) = sum_list (map lines_added zs)
        \<and> tw_removed (walk out zs) = sum_list (map lines_removed zs))"
proof (induction zs)
  case Nil
  then show ?case by (simp add: walk_def)
next
  case (Cons z zs)
  then show ?case
    by (cases "counted z") (auto simp: walk_Cons tail_step_counted)
qed

lemma walk_out:
  assumes "distinct (map edit_key_of zs)"
  shows "map_of (tw_out (walk out zs)) k =
    (let t = dropWhile (\<lambda>o'. edit_key_of o' \<noteq> k) zs
     in if t \<noteq> [] \<and> list_all counted t
        then Some (sum_list (map lines_added t), sum_list (map lines_removed t)) else map_of out k)"
  using assms
proof (induction zs)
  case Nil
  then show ?case by (simp add: walk_def)
next
  case (Cons z zs)
  have st: "tw_covered (walk out zs) = list_all counted zs"
    "list_all counted zs \<Longrightarrow> tw_added (walk out zs) = sum_list (map lines_added zs)"
    "list_all counted zs \<Longrightarrow> tw_removed (walk out zs) = sum_list (map lines_removed zs)"
    using walk_state[of out zs] by auto
  show ?case
  proof (cases "edit_key_of z = k")
    case True
    with Cons.prems have "k \<notin> edit_key_of ` set zs" by auto
    then have "dropWhile (\<lambda>o'. edit_key_of o' \<noteq> k) zs = []"
      unfolding dropWhile_eq_Nil_conv by blast
    then have "map_of (tw_out (walk out zs)) k = map_of out k" using Cons by simp
    then show ?thesis
      using True st by (cases "counted z") (auto simp: walk_Cons tail_step_counted update_conv' Let_def add.commute)
  next
    case False
    then show ?thesis
      using Cons by (cases "counted z") (auto simp: walk_Cons tail_step_counted update_conv' Let_def)
  qed
qed

lemma walk_file_out: "walk_file edits out = tw_out (walk out (sort_key edit_order edits))"
  by (simp add: walk_file_def walk_def)

lemma external_fold:
  assumes "distinct (map edit_key_of (concat (map snd groups)))"
  shows "map_of (fold (\<lambda>(file, edits). walk_file edits) groups out) k =
    (case find (\<lambda>(file, edits). k \<in> edit_key_of ` set edits) groups of
       None \<Rightarrow> map_of out k
     | Some (file, edits) \<Rightarrow>
        (let t = dropWhile (\<lambda>o'. edit_key_of o' \<noteq> k) (sort_key edit_order edits)
         in if list_all counted t
            then Some (sum_list (map lines_added t), sum_list (map lines_removed t)) else map_of out k))"
  using assms
proof (induction groups arbitrary: out)
  case (Cons g groups)
  obtain path edits where g: "g = (path, edits)" by fastforce
  have d: "distinct (map edit_key_of (sort_key edit_order edits))"
    using Cons.prems by (auto simp: g distinct_map)
  let ?t = "dropWhile (\<lambda>o'. edit_key_of o' \<noteq> k) (sort_key edit_order edits)"
  have t: "?t = [] \<longleftrightarrow> k \<notin> edit_key_of ` set edits"
    by (auto simp: dropWhile_eq_Nil_conv)
  have w: "map_of (walk_file edits out) k =
     (if k \<in> edit_key_of ` set edits \<and> list_all counted ?t
      then Some (sum_list (map lines_added ?t), sum_list (map lines_removed ?t)) else map_of out k)"
    unfolding walk_file_out walk_out[OF d] Let_def using t by simp
  have IH: "map_of (fold (\<lambda>(file, edits). walk_file edits) groups (walk_file edits out)) k =
    (case find (\<lambda>(file, edits). k \<in> edit_key_of ` set edits) groups of
       None \<Rightarrow> map_of (walk_file edits out) k
     | Some (file, es) \<Rightarrow>
        (let t = dropWhile (\<lambda>o'. edit_key_of o' \<noteq> k) (sort_key edit_order es)
         in if list_all counted t
            then Some (sum_list (map lines_added t), sum_list (map lines_removed t))
            else map_of (walk_file edits out) k))"
    using Cons.prems by (intro Cons.IH) (simp add: g)
  show ?case
  proof (cases "k \<in> edit_key_of ` set edits")
    case True
    with Cons.prems have "find (\<lambda>(file, edits). k \<in> edit_key_of ` set edits) groups = None"
      by (force simp: g find_None_iff)
    then show ?thesis using IH w True by (simp add: g Let_def)
  next
    case False
    then show ?thesis using IH w by (auto simp: g Let_def split: option.splits)
  qed
qed simp

lemma dropWhile_sorted:
  assumes "sorted (map ord zs)" "inj_on ord (set zs)" "distinct zs" "x \<in> set zs"
    "\<And>y. y \<in> set zs \<Longrightarrow> key y = key x \<Longrightarrow> y = x"
  shows "set (dropWhile (\<lambda>y. key y \<noteq> key x) zs) = {y \<in> set zs. ord x \<le> ord y}
    \<and> distinct (dropWhile (\<lambda>y. key y \<noteq> key x) zs)"
  using assms
proof (induction zs)
  case (Cons z zs)
  show ?case
  proof (cases "key z = key x")
    case True
    then have "z = x" using Cons.prems(5) by simp
    then show ?thesis using Cons.prems(1,3) True by auto
  next
    case False
    then have x: "x \<in> set zs" "z \<noteq> x" using Cons.prems(4) by auto
    have "ord z \<noteq> ord x" using Cons.prems(2) x by (auto simp: inj_on_def)
    moreover have "ord z \<le> ord x" using Cons.prems(1) x by simp
    ultimately have "\<not> ord x \<le> ord z" by simp
    moreover have "set (dropWhile (\<lambda>y. key y \<noteq> key x) zs) = {y \<in> set zs. ord x \<le> ord y}
        \<and> distinct (dropWhile (\<lambda>y. key y \<noteq> key x) zs)"
      using Cons.prems x by (intro Cons.IH) auto
    ultimately show ?thesis using False by auto
  qed
qed simp

lemma mset_dict_append:
  assumes "distinct (map fst d)"
  shows "mset (concat (map snd (dict_append k x d))) = add_mset x (mset (concat (map snd d)))"
  using assms
proof (induction d)
  case (Cons p d)
  have "dict_append k x (p # d) = (if fst p = k then (k, snd p @ [x]) # d else p # dict_append k x d)"
    by (cases p) (auto simp: dict_append_def dict_get_def)
  with Cons show ?case by simp
qed (simp add: dict_append_def dict_get_def)

lemma mset_group_by: "mset (concat (map snd (group_by key xs))) = mset xs"
  by (induction xs rule: rev_induct) (simp_all add: mset_dict_append distinct_group_by)

lemma distinct_keys_group_by:
  assumes "distinct (map f xs)"
  shows "distinct (map f (concat (map snd (group_by key xs))))"
proof -
  have "mset (map f (concat (map snd (group_by key xs)))) = mset (map f xs)"
    using mset_group_by[of key xs] by simp
  then show ?thesis using assms mset_eq_imp_distinct_iff by blast
qed

lemma find_group_by:
  assumes "inj_on f (set xs)" "x \<in> set xs"
  shows "find (\<lambda>(k, ys). f x \<in> f ` set ys) (group_by key xs) =
    Some (key x, filter (\<lambda>y. key y = key x) xs)"
proof -
  let ?P = "\<lambda>(k, ys). f x \<in> f ` set ys"
  have only: "p = (key x, filter (\<lambda>y. key y = key x) xs)"
    if p: "p \<in> set (group_by key xs)" "?P p" for p
  proof -
    obtain r where r: "r \<in> set xs" "p = (key r, filter (\<lambda>y. key y = key r) xs)"
      using p(1) by (auto simp: set_group_by_image)
    then obtain y where y: "y \<in> set xs" "key y = key r" "f x = f y" using p(2) by auto
    then have "y = x" using assms by (auto dest: inj_onD)
    with y r show ?thesis by simp
  qed
  have "find ?P (group_by key xs) \<noteq> None"
  proof
    assume "find ?P (group_by key xs) = None"
    then have "\<not> ?P (key x, filter (\<lambda>y. key y = key x) xs)"
      using assms(2) unfolding find_None_iff set_group_by_image by blast
    then show False using assms(2) by auto
  qed
  then obtain p where p: "find ?P (group_by key xs) = Some p" by blast
  then have "p \<in> set (group_by key xs)" "?P p"
    unfolding find_Some_iff by (metis nth_mem, metis)
  with only p show ?thesis by blast
qed

lemma external_lines_lookup:
  assumes "distinct observations" "inj_on edit_key_of (set observations)" "o' \<in> set observations"
  shows "map_of (external_lines_after observations) (edit_key_of o') =
    (let tl = filter (\<lambda>x. file_key_of x = file_key_of o' \<and> edit_order o' \<le> edit_order x) observations
     in if list_all counted tl
        then Some (sum_list (map lines_added tl), sum_list (map lines_removed tl)) else None)"
proof -
  define g where "g = filter (\<lambda>x. file_key_of x = file_key_of o') observations"
  define t where "t = dropWhile (\<lambda>x. edit_key_of x \<noteq> edit_key_of o') (sort_key edit_order g)"
  define tl where "tl = filter (\<lambda>x. file_key_of x = file_key_of o' \<and> edit_order o' \<le> edit_order x) observations"
  have d: "distinct (map edit_key_of observations)" using assms(1,2) by (simp add: distinct_map)
  have L: "map_of (external_lines_after observations) (edit_key_of o') =
     (if list_all counted t
      then Some (sum_list (map lines_added t), sum_list (map lines_removed t)) else None)"
    unfolding external_lines_after_def external_fold[OF distinct_keys_group_by[OF d]]
      find_group_by[OF assms(2,3)] by (simp add: Let_def t_def g_def)
  have i: "inj_on edit_order (set (sort_key edit_order g))"
  proof (rule inj_onI)
    fix x y
    assume *: "x \<in> set (sort_key edit_order g)" "y \<in> set (sort_key edit_order g)"
      "edit_order x = edit_order y"
    then have "edit_key_of x = edit_key_of y" "x \<in> set observations" "y \<in> set observations"
      by (auto simp: g_def file_key_of_def edit_key_of_def edit_order_def)
    with assms(2) show "x = y" by (auto dest: inj_onD)
  qed
  have "set t = {y \<in> set (sort_key edit_order g). edit_order o' \<le> edit_order y} \<and> distinct t"
    unfolding t_def
  proof (rule dropWhile_sorted)
    show "y = o'" if y: "y \<in> set (sort_key edit_order g)" "edit_key_of y = edit_key_of o'" for y
      using y assms(2,3) by (auto simp: g_def dest: inj_onD)
  qed (use i assms in \<open>auto simp: g_def\<close>)
  then have "set t = set tl" "distinct t" by (auto simp: tl_def g_def)
  moreover have "distinct tl" using assms(1) by (simp add: tl_def)
  ultimately have m: "mset t = mset tl" using set_eq_iff_mset_eq_distinct by blast
  have "sum_list (map f t) = sum_list (map f tl)" for f :: "edit_observation \<Rightarrow> int"
    using m by (metis mset_map sum_mset_sum_list)
  with \<open>set t = set tl\<close> show ?thesis
    unfolding L Let_def tl_def[symmetric] by (simp add: list_all_iff)
qed

lemma external_lines_set:
  assumes "distinct observations" "inj_on edit_key_of (set observations)" "o' \<in> set observations"
  shows "map_of (external_lines_after observations) (edit_key_of o') =
    (let tail = {x \<in> set observations. file_key_of x = file_key_of o' \<and> edit_order o' \<le> edit_order x}
     in if (\<forall>x\<in>tail. counted x)
        then Some (\<Sum>x\<in>tail. lines_added x, \<Sum>x\<in>tail. lines_removed x) else None)"
proof -
  let ?tl = "filter (\<lambda>x. file_key_of x = file_key_of o' \<and> edit_order o' \<le> edit_order x) observations"
  have "sum_list (map f ?tl) = sum f (set ?tl)" for f :: "edit_observation \<Rightarrow> int"
    using assms(1) by (intro sum_list_distinct_conv_sum_set) simp
  then show ?thesis
    unfolding external_lines_lookup[OF assms] Let_def by (simp add: list_all_iff)
qed

section \<open>Laws of the scoring loops\<close>

lemma clamp_bounds [simp]: "0 \<le> clamp x" "clamp x \<le> 1"
  by (simp_all add: clamp_def)

lemma clamp_id: "0 \<le> x \<Longrightarrow> x \<le> 1 \<Longrightarrow> clamp x = x"
  by (simp add: clamp_def)

lemma fate_of_score_iff:
  assumes "fate_policy_ok p"
  shows "fate_of_score p s = DELETED \<longleftrightarrow> s \<le> fp_deleted_max p"
    "fate_of_score p s = UNMODIFIED \<longleftrightarrow> fp_unmodified_min p \<le> s"
  using assms by (auto simp: fate_of_score_def fate_policy_ok_def)

lemma fate_fold:
  "fold (fate_step scorer policy totals) obs r =
     r\<lparr>fr_fates := fr_fates r @ map (\<lambda>o'. fate_row policy (fr_provenance r) totals o' (projr (fate_outcome scorer o')))
         (filter (\<lambda>o'. \<not> isl (fate_outcome scorer o')) obs),
       fr_skipped := (\<lambda>x. fr_skipped r x + length (filter (\<lambda>o'. fate_outcome scorer o' = Inl x) obs))\<rparr>"
proof (induction obs arbitrary: r)
  case (Cons o' obs)
  show ?case
  proof (cases "fate_outcome scorer o'")
    case (Inl x)
    then have "fate_step scorer policy totals o' r = r\<lparr>fr_skipped := ctr_incr x (fr_skipped r)\<rparr>"
      by (simp add: fate_step_def)
    then show ?thesis using Inl by (auto simp: Cons fun_eq_iff intro!: fate_result.equality)
  next
    case (Inr x)
    then have "fate_step scorer policy totals o' r =
        r\<lparr>fr_fates := fr_fates r @ [fate_row policy (fr_provenance r) totals o' x]\<rparr>"
      by (simp add: fate_step_def)
    then show ?thesis using Inr by (simp add: Cons)
  qed
qed simp

lemma derive_fate_result_Inr:
  assumes "derive_fate_result obs scorer policy q = Inr r"
  shows "fr_fates r = sort_key fate_order
      (map (\<lambda>o'. fate_row policy (fr_provenance r) (external_lines_after obs) o' (projr (fate_outcome scorer o')))
         (filter (\<lambda>o'. \<not> isl (fate_outcome scorer o')) obs))"
    "fr_skipped r = (\<lambda>x. length (filter (\<lambda>o'. fate_outcome scorer o' = Inl x) obs))"
  using assms by (auto simp: derive_fate_result_def Let_def fate_fold)

lemma length_outcomes:
  "length (filter (\<lambda>o'. \<not> isl (fate_outcome scorer o')) obs)
     + length (filter (\<lambda>o'. fate_outcome scorer o' = Inl scorer_error) obs)
     + length (filter (\<lambda>o'. fate_outcome scorer o' = Inl invalid_score) obs) = length obs"
proof (induction obs)
  case (Cons o' obs)
  moreover have "x = scorer_error \<or> x = invalid_score" for x by (cases x) simp_all
  ultimately show ?case by (cases "fate_outcome scorer o'") auto
qed simp

lemma fate_outcome_bounds:
  "fate_outcome scorer o' = Inr x \<Longrightarrow> 0 \<le> x \<and> x \<le> 1"
  by (auto simp: fate_outcome_def split: scored.splits pyfloat.splits)

lemma fate_outcome_unit:
  "\<not> isl (fate_outcome scorer o') \<Longrightarrow>
     0 \<le> projr (fate_outcome scorer o') \<and> projr (fate_outcome scorer o') \<le> 1"
  by (cases "fate_outcome scorer o'") (auto dest: fate_outcome_bounds)

locale containment_scorer =
  fixes score :: "string \<Rightarrow> string \<Rightarrow> rat"
  assumes score_nonneg: "0 \<le> score a ob"
    and score_le_1: "score a ob \<le> 1"
    and score_verbatim: "score a (pre @ a @ post) = 1"
begin

abbreviation scorer :: "string \<Rightarrow> string \<Rightarrow> scored" where
  "scorer a ob \<equiv> ScorerNumber (Finite (score a ob))"

lemma outcome: "fate_outcome scorer o' = Inr (score (eo_applied_text o') (eo_observed_file_text o'))"
  by (simp add: fate_outcome_def clamp_id score_nonneg score_le_1)

lemma verbatim_unmodified:
  assumes "derive_fate_result obs scorer policy q = Inr r" "fate_policy_ok policy"
    "\<And>o'. o' \<in> set obs \<Longrightarrow> \<exists>pre post. eo_observed_file_text o' = pre @ eo_applied_text o' @ post"
  shows "length (fr_fates r) = length obs" "fr_skipped r = ctr_empty"
    "f \<in> set (fr_fates r) \<Longrightarrow> ft_fate f = UNMODIFIED \<and> ft_score f = 1"
proof -
  note R = derive_fate_result_Inr[OF assms(1)]
  have "fp_unmodified_min policy \<le> 1" using assms(2) by (simp add: fate_policy_ok_def)
  show "length (fr_fates r) = length obs" unfolding R(1) by (simp add: outcome)
  show "fr_skipped r = ctr_empty" unfolding R(2) by (simp add: outcome ctr_empty_def)
  show "ft_fate f = UNMODIFIED \<and> ft_score f = 1" if f: "f \<in> set (fr_fates r)"
  proof -
    obtain o' where o': "o' \<in> set obs"
      "f = fate_row policy (fr_provenance r) (external_lines_after obs) o'
         (score (eo_applied_text o') (eo_observed_file_text o'))"
      using f unfolding R(1) by (auto simp: outcome)
    moreover have "score (eo_applied_text o') (eo_observed_file_text o') = 1"
      using assms(3)[OF o'(1)] score_verbatim by force
    ultimately show ?thesis
      using \<open>fp_unmodified_min policy \<le> 1\<close> fate_of_score_iff(2)[OF assms(2)] by (simp add: fate_row_def)
  qed
qed

lemma retention_total: "\<exists>out. attach_edit_retention ds obs scorer = Inr out"
proof -
  have "\<exists>y. fill_retention obs scorer d = Inr y" for d
    by (auto simp: fill_retention_def split: option.splits)
  then show ?thesis unfolding attach_edit_retention_def v_map_Inr by blast
qed

end

interpretation four_gram: containment_scorer four_gram_containment
proof
  show "four_gram_containment a (pre @ a @ post) = 1" for a pre post
    using four_gram_containment_context[of a a pre post] four_gram_containment_bounds(2)[of a "pre @ a @ post"]
    by (simp add: four_gram_containment_self)
qed (fact four_gram_containment_bounds)+

definition clear_score :: "developer_decision \<Rightarrow> developer_decision" where
  "clear_score d = d\<lparr>dd_edit_retention_score := None\<rparr>"

lemma fill_retention_Inr:
  assumes "fill_retention obs scorer d = Inr d'"
  shows "clear_score d' = clear_score d"
    "dd_edit_retention_score d \<noteq> None \<Longrightarrow> d' = d"
    "d' \<noteq> d \<Longrightarrow> \<exists>o' x. o' \<in> set obs \<and> dd_edit_retention_score d = None
       \<and> edit_key_of o' = (dd_org_id d, dd_agent_harness d, dd_session_id d, the (dd_call_id d))
       \<and> dd_edit_retention_score d' = Some x \<and> 0 \<le> x \<and> x \<le> 1"
proof -
  show "clear_score d' = clear_score d"
    using assms by (auto simp: fill_retention_def clear_score_def split: option.splits scored.splits pyfloat.splits)
  show "d' = d" if "dd_edit_retention_score d \<noteq> None"
    using assms that by (auto simp: fill_retention_def matching_observation_def split: option.splits)
  show "\<exists>o' x. o' \<in> set obs \<and> dd_edit_retention_score d = None
       \<and> edit_key_of o' = (dd_org_id d, dd_agent_harness d, dd_session_id d, the (dd_call_id d))
       \<and> dd_edit_retention_score d' = Some x \<and> 0 \<le> x \<and> x \<le> 1" if new: "d' \<noteq> d"
  proof -
    obtain o' where o': "matching_observation obs d = Some o'"
      using assms new by (auto simp: fill_retention_def split: option.splits)
    then have "first_by_key obs (dd_org_id d, dd_agent_harness d, dd_session_id d, the (dd_call_id d)) = Some o'"
      "dd_edit_retention_score d = None"
      by (auto simp: matching_observation_def split: option.splits if_splits)
    moreover from this(1) have "o' \<in> set obs"
      "edit_key_of o' = (dd_org_id d, dd_agent_harness d, dd_session_id d, the (dd_call_id d))"
      unfolding first_by_key_def find_Some_iff by (metis nth_mem, metis)
    moreover have "\<exists>x. dd_edit_retention_score d' = Some x \<and> 0 \<le> x \<and> x \<le> 1"
      using assms new o' by (auto simp: fill_retention_def split: scored.splits pyfloat.splits)
    ultimately show ?thesis by blast
  qed
qed

lemma derive_fate_total:
  assumes "fate_policy_ok policy" "0 \<le> q"
  shows "\<exists>r. derive_fate_result obs scorer policy q = Inr r"
  using assms by (simp add: derive_fate_result_def new_provenance_def fate_policy_ok_def Let_def)

lemma fate_order_inj:
  assumes "inj_on eo_id (set obs)"
  shows "inj_on (fate_order \<circ> (\<lambda>o'. fate_row policy pv totals o' (score o'))) (set obs)"
  using assms by (auto simp: inj_on_def fate_order_def fate_row_def)

lemma default_fate_policy_ok: "fate_policy_ok default_fate_policy"
proof -
  have "py_strip ''1'' \<noteq> []" by (simp add: py_strip_def py_isspace_def cp_def)
  moreover have "0 \<le> fl64 (1 / 10) \<and> fl64 (1 / 10) \<le> 1 \<and> 0 \<le> fl64 (9 / 10) \<and> fl64 (9 / 10) \<le> 1
      \<and> fl64 (1 / 10) < fl64 (9 / 10)"
    by code_simp
  ultimately show ?thesis by (simp add: fate_policy_ok_def default_fate_policy_def)
qed

section \<open>Properties\<close>

text \<open>With unique observation keys, the external-line totals of an edit are the sums over its
  tail, the edits of the same file in the same session from this one to the session's end, when every
  window of the tail carries counts, and are absent otherwise: never a partial sum, and independent of
  the order in which the observations are read.\<close>

theorem external_lines_tail:
  assumes "distinct observations" "inj_on edit_key_of (set observations)" "o' \<in> set observations"
  shows "map_of (external_lines_after observations) (edit_key_of o') =
    (let tail = {x \<in> set observations. file_key_of x = file_key_of o' \<and> edit_order o' \<le> edit_order x}
     in if (\<forall>x\<in>tail. counted x)
        then Some (\<Sum>x\<in>tail. lines_added x, \<Sum>x\<in>tail. lines_removed x) else None)"
  using assms by (rule external_lines_set)

text \<open>Two reads of the same observations in different orders derive the same Fate result, skips
  and provenance included, when observation ids and edit keys are unique.\<close>

theorem fates_order_independent:
  assumes "mset obs = mset obs'" "distinct (map eo_id obs)" "inj_on edit_key_of (set obs)"
  shows "derive_fate_result obs scorer policy q = derive_fate_result obs' scorer policy q"
proof -
  have m: "set obs' = set obs" using assms(1) by (metis mset_eq_setD)
  have d: "distinct obs" "distinct obs'" using assms(1,2) by (auto simp: distinct_map dest: mset_eq_imp_distinct_iff)
  have t: "map_of (external_lines_after obs) (edit_key_of o') = map_of (external_lines_after obs') (edit_key_of o')"
    if "o' \<in> set obs" for o'
    using that external_lines_set[OF d(1) assms(3)] external_lines_set[OF d(2)] assms(3) m by simp
  let ?ok = "\<lambda>o'. \<not> isl (fate_outcome scorer o')"
  let ?row = "\<lambda>tot pv o'. fate_row policy pv (external_lines_after tot) o' (projr (fate_outcome scorer o'))"
  have row: "?row obs pv o' = ?row obs' pv o'" if "o' \<in> set obs" for pv o'
    using t[OF that] by (simp add: fate_row_def)
  have F: "sort_key fate_order (map (?row obs pv) (filter ?ok obs))
      = sort_key fate_order (map (?row obs' pv) (filter ?ok obs'))" for pv
  proof (rule sort_key_perm_eq)
    have "map (?row obs' pv) (filter ?ok obs') = map (?row obs pv) (filter ?ok obs')"
      using row m by (intro map_cong) auto
    then show "mset (map (?row obs pv) (filter ?ok obs)) = mset (map (?row obs' pv) (filter ?ok obs'))"
      unfolding mset_map mset_filter assms(1) by (metis mset_map mset_filter)
    have "inj_on (fate_order \<circ> ?row obs pv) (set obs)"
      using assms(2) by (intro fate_order_inj) (simp add: distinct_map)
    then show "inj_on fate_order (set (map (?row obs pv) (filter ?ok obs)))"
      by (auto simp: inj_on_def)
  qed
  have "length (filter P obs) = length (filter P obs')" for P
    using assms(1) by (metis mset_filter size_mset)
  with F show ?thesis unfolding derive_fate_result_def fate_fold Let_def by simp
qed

text \<open>C38. Deriving fates under an accepted policy always returns; each observation yields one Fate or
  one counted skip; a Fate's score lies in the unit interval and its category is exactly the policy's
  threshold classification of it.\<close>

theorem fates_classified:
  assumes "fate_policy_ok policy" "0 \<le> q"
  shows "\<exists>r. derive_fate_result obs scorer policy q = Inr r
    \<and> length (fr_fates r) + fr_skipped r scorer_error + fr_skipped r invalid_score = length obs
    \<and> sorted (map fate_order (fr_fates r))
    \<and> list_all (\<lambda>f. 0 \<le> ft_score f \<and> ft_score f \<le> 1
        \<and> (ft_fate f = DELETED) = (ft_score f \<le> fp_deleted_max policy)
        \<and> (ft_fate f = UNMODIFIED) = (fp_unmodified_min policy \<le> ft_score f)) (fr_fates r)"
proof -
  obtain r where r: "derive_fate_result obs scorer policy q = Inr r"
    using derive_fate_total[OF assms] by blast
  note R = derive_fate_result_Inr[OF r]
  have "length (fr_fates r) + fr_skipped r scorer_error + fr_skipped r invalid_score = length obs"
    unfolding R using length_outcomes[of scorer obs] by simp
  moreover have "sorted (map fate_order (fr_fates r))" unfolding R(1) by simp
  moreover have "list_all (\<lambda>f. 0 \<le> ft_score f \<and> ft_score f \<le> 1
        \<and> (ft_fate f = DELETED) = (ft_score f \<le> fp_deleted_max policy)
        \<and> (ft_fate f = UNMODIFIED) = (fp_unmodified_min policy \<le> ft_score f)) (fr_fates r)"
    unfolding list_all_iff R(1)
    using fate_outcome_unit[of scorer]
    by (auto simp: fate_row_def fate_of_score_iff[OF assms(1)])
  ultimately show ?thesis using r by blast
qed

text \<open>With the project's containment scorer, applied text that survives verbatim anywhere in the
  file at session end is UNMODIFIED with score 1.0, and no observation is skipped.\<close>

theorem verbatim_edits_unmodified:
  assumes "fate_policy_ok policy" "0 \<le> q"
    "\<And>o'. o' \<in> set obs \<Longrightarrow> \<exists>pre post. eo_observed_file_text o' = pre @ eo_applied_text o' @ post"
  shows "\<exists>r. derive_fate_result obs (\<lambda>a ob. ScorerNumber (Finite (four_gram_containment a ob))) policy q = Inr r
    \<and> length (fr_fates r) = length obs \<and> fr_skipped r = ctr_empty
    \<and> list_all (\<lambda>f. ft_fate f = UNMODIFIED \<and> ft_score f = 1) (fr_fates r)"
proof -
  obtain r where r: "derive_fate_result obs (\<lambda>a ob. ScorerNumber (Finite (four_gram_containment a ob))) policy q = Inr r"
    using derive_fate_total[OF assms(1,2)] by blast
  note V = four_gram.verbatim_unmodified[OF r assms(1,3)]
  have "list_all (\<lambda>f. ft_fate f = UNMODIFIED \<and> ft_score f = 1) (fr_fates r)"
    unfolding list_all_iff using V(3) by blast
  with r V(1,2) show ?thesis by blast
qed

text \<open>Filling retention scores with the project's scorer always returns a list of the same length
  in the same order; nothing but the retention score of a decision changes, a score the vendor supplied
  always stands, and a filled score comes from an observation with the decision's own org, harness,
  session and call and lies in the unit interval.\<close>

theorem retention_fill_sound:
  "\<exists>out. attach_edit_retention ds obs (\<lambda>a ob. ScorerNumber (Finite (four_gram_containment a ob))) = Inr out
    \<and> list_all2 (\<lambda>d d'. clear_score d' = clear_score d
        \<and> (d' = d \<or> dd_edit_retention_score d = None
            \<and> (\<exists>o' x. o' \<in> set obs
                 \<and> edit_key_of o' = (dd_org_id d, dd_agent_harness d, dd_session_id d, the (dd_call_id d))
                 \<and> dd_edit_retention_score d' = Some x \<and> 0 \<le> x \<and> x \<le> 1))) ds out"
proof -
  let ?s = "\<lambda>a ob. ScorerNumber (Finite (four_gram_containment a ob))"
  obtain out where out: "attach_edit_retention ds obs ?s = Inr out"
    using four_gram.retention_total by blast
  then have ok: "\<forall>d\<in>set ds. \<exists>y. fill_retention obs ?s d = Inr y"
    and o: "out = map (\<lambda>d. projr (fill_retention obs ?s d)) ds"
    unfolding attach_edit_retention_def v_map_Inr by blast+
  have "list_all2 (\<lambda>d d'. clear_score d' = clear_score d
        \<and> (d' = d \<or> dd_edit_retention_score d = None
            \<and> (\<exists>o' x. o' \<in> set obs
                 \<and> edit_key_of o' = (dd_org_id d, dd_agent_harness d, dd_session_id d, the (dd_call_id d))
                 \<and> dd_edit_retention_score d' = Some x \<and> 0 \<le> x \<and> x \<le> 1))) ds out"
    unfolding o list_all2_map2
  proof (rule list_all2_same[THEN iffD2], rule ballI)
    fix d assume "d \<in> set ds"
    then obtain d' where d': "fill_retention obs ?s d = Inr d'" using ok by blast
    show "clear_score (projr (fill_retention obs ?s d)) = clear_score d
        \<and> (projr (fill_retention obs ?s d) = d \<or> dd_edit_retention_score d = None
            \<and> (\<exists>o' x. o' \<in> set obs
                 \<and> edit_key_of o' = (dd_org_id d, dd_agent_harness d, dd_session_id d, the (dd_call_id d))
                 \<and> dd_edit_retention_score (projr (fill_retention obs ?s d)) = Some x \<and> 0 \<le> x \<and> x \<le> 1))"
      unfolding d' sum.sel using fill_retention_Inr[OF d'] by blast
  qed
  with out show ?thesis by blast
qed

section \<open>Witnesses\<close>

definition sample_edit :: "string \<Rightarrow> instant \<Rightarrow> int option \<Rightarrow> edit_observation" where
  "sample_edit call time added =
     \<lparr>eo_id = call, eo_org_id = ''acme'', eo_session_id = ''s1'', eo_user_id = None,
      eo_agent_harness = CLAUDE_CODE, eo_file_path = ''a.py'', eo_call_id = call,
      eo_applied_text = ''x = 1'', eo_observed_file_text = ''y = 2; x = 1; z'',
      eo_external_lines_added = added, eo_external_lines_removed = Some 1,
      eo_occurred_at = time, eo_captured_at = time, eo_raw = []\<rparr>"

theorem external_lines_tail_witness:
  "map_of (external_lines_after [sample_edit ''c3'' 30 (Some 4), sample_edit ''c1'' 10 None, sample_edit ''c2'' 20 (Some 5)])
     (edit_key_of (sample_edit ''c2'' 20 (Some 5))) = Some (9, 2)"
proof -
  let ?obs = "[sample_edit ''c3'' 30 (Some 4), sample_edit ''c1'' 10 None, sample_edit ''c2'' 20 (Some 5)]"
  have t: "{x \<in> set ?obs. file_key_of x = file_key_of (sample_edit ''c2'' 20 (Some 5))
      \<and> edit_order (sample_edit ''c2'' 20 (Some 5)) \<le> edit_order x}
    = {sample_edit ''c2'' 20 (Some 5), sample_edit ''c3'' 30 (Some 4)}"
    by (auto simp: sample_edit_def file_key_of_def edit_order_def)
  show ?thesis
    using external_lines_tail[of ?obs "sample_edit ''c2'' 20 (Some 5)"] unfolding t Let_def
    by (simp add: sample_edit_def edit_key_of_def counted_def lines_added_def lines_removed_def)
qed

theorem fates_order_independent_witness:
  "derive_fate_result [sample_edit ''c1'' 10 None, sample_edit ''c2'' 20 (Some 5)]
       (\<lambda>a ob. ScorerNumber (Finite (four_gram_containment a ob))) default_fate_policy 0
     = derive_fate_result [sample_edit ''c2'' 20 (Some 5), sample_edit ''c1'' 10 None]
       (\<lambda>a ob. ScorerNumber (Finite (four_gram_containment a ob))) default_fate_policy 0"
  by (rule fates_order_independent) (simp_all add: sample_edit_def edit_key_of_def)

theorem fates_classified_witness:
  "\<exists>r. derive_fate_result [sample_edit ''c1'' 10 None] (\<lambda>a ob. ScorerNumber NaN) default_fate_policy 0 = Inr r
    \<and> length (fr_fates r) + fr_skipped r scorer_error + fr_skipped r invalid_score = 1"
  using fates_classified[OF default_fate_policy_ok, of 0 "[sample_edit ''c1'' 10 None]" "\<lambda>a ob. ScorerNumber NaN"]
  by auto

theorem verbatim_edits_unmodified_witness:
  "\<exists>r. derive_fate_result [sample_edit ''c1'' 10 None]
       (\<lambda>a ob. ScorerNumber (Finite (four_gram_containment a ob))) default_fate_policy 0 = Inr r
    \<and> map ft_fate (fr_fates r) = [UNMODIFIED]"
proof -
  have "eo_observed_file_text (sample_edit ''c1'' 10 None) =
      ''y = 2; '' @ eo_applied_text (sample_edit ''c1'' 10 None) @ ''; z''"
    by (simp add: sample_edit_def)
  then have "\<exists>pre post. eo_observed_file_text o' = pre @ eo_applied_text o' @ post"
    if "o' \<in> set [sample_edit ''c1'' 10 None]" for o'
    using that unfolding list.set singleton_iff by blast
  then obtain r where "derive_fate_result [sample_edit ''c1'' 10 None]
       (\<lambda>a ob. ScorerNumber (Finite (four_gram_containment a ob))) default_fate_policy 0 = Inr r"
    "length (fr_fates r) = 1" "list_all (\<lambda>f. ft_fate f = UNMODIFIED \<and> ft_score f = 1) (fr_fates r)"
    using verbatim_edits_unmodified[OF default_fate_policy_ok, of 0 "[sample_edit ''c1'' 10 None]"] by auto
  then show ?thesis by (auto simp: length_Suc_conv)
qed

end
