(* ===== verification/Git_Diff.thy ===== *)
theory Git_Diff
  imports Sediment_Prelude
begin

text \<open>
  \<open>packages/derive/sediment_derive/diff.py\<close>: the interpretation of Git sections, paths and hunks
  shared by attribution and the diff exporters.

  Diffs carry arbitrary Unicode, so the text here is \<open>ustr\<close>, the list of code points of a Python
  \<open>str\<close>, and bytes are naturals below 256. \<open>lit\<close> reads a literal. A section is declined by an
  \<open>_InvalidSection\<close> carrying its reason or by any other \<open>ValueError\<close>
  (a lone surrogate that cannot be encoded, an integer literal beyond Python's 4300-digit limit),
  which counts as malformed; the difference matters where \<open>_section_path\<close> catches only the former.
\<close>

section \<open>Text\<close>

type_synonym ustr = "nat list"

definition lit :: "string \<Rightarrow> ustr" where
  "lit s = map cp s"

definition u_startswith :: "ustr \<Rightarrow> ustr \<Rightarrow> bool" where
  "u_startswith s p = (take (length p) s = p)"

definition u_endswith :: "ustr \<Rightarrow> ustr \<Rightarrow> bool" where
  "u_endswith s p = (length p \<le> length s \<and> drop (length s - length p) s = p)"

definition u_removesuffix :: "ustr \<Rightarrow> ustr \<Rightarrow> ustr" where
  "u_removesuffix s p = (if p \<noteq> [] \<and> u_endswith s p then take (length s - length p) s else s)"

definition u_isspace :: "nat \<Rightarrow> bool" where
  "u_isspace c =
     ((9 \<le> c \<and> c \<le> 13) \<or> (28 \<le> c \<and> c \<le> 32) \<or> c = 133 \<or> c = 160 \<or> c = 5760
      \<or> (8192 \<le> c \<and> c \<le> 8202) \<or> c = 8232 \<or> c = 8233 \<or> c = 8239 \<or> c = 8287 \<or> c = 12288)"

text \<open>\<open>not s.strip()\<close>\<close>

definition u_blank :: "ustr \<Rightarrow> bool" where
  "u_blank s = list_all u_isspace s"

fun u_contains :: "ustr \<Rightarrow> ustr \<Rightarrow> bool" where
  "u_contains p [] = (p = [])"
| "u_contains p (c # cs) = (u_startswith (c # cs) p \<or> u_contains p cs)"

text \<open>Iterating a \<open>StringIO\<close>: lines split on line feed only, which they keep.\<close>

function string_io :: "ustr \<Rightarrow> ustr list" where
  "string_io s =
     (if s = [] then []
      else (takeWhile (\<lambda>c. c \<noteq> 10) s @ take 1 (dropWhile (\<lambda>c. c \<noteq> 10) s))
             # string_io (drop 1 (dropWhile (\<lambda>c. c \<noteq> 10) s)))"
  by pat_completeness auto
termination
proof (relation "measure length")
  fix s :: ustr
  assume "s \<noteq> []"
  then show "(drop 1 (dropWhile (\<lambda>c. c \<noteq> 10) s), s) \<in> measure length"
    using length_dropWhile_le[of "\<lambda>c. c \<noteq> 10" s] by (cases s) auto
qed simp

declare string_io.simps [simp del]

definition the_default :: "'a \<Rightarrow> 'a option \<Rightarrow> 'a" where
  "the_default d x = (case x of None \<Rightarrow> d | Some y \<Rightarrow> y)"

fun join_with :: "ustr \<Rightarrow> ustr list \<Rightarrow> ustr" where
  "join_with sep [] = []"
| "join_with sep [x] = x"
| "join_with sep (x # y # ys) = x @ sep @ join_with sep (y # ys)"

definition u_digit :: "nat \<Rightarrow> bool" where
  "u_digit c = (48 \<le> c \<and> c \<le> 57)"

definition u_octal :: "nat \<Rightarrow> bool" where
  "u_octal c = (48 \<le> c \<and> c \<le> 55)"

definition u_hex :: "nat \<Rightarrow> bool" where
  "u_hex c = (u_digit c \<or> (97 \<le> c \<and> c \<le> 102))"

section \<open>Sections and errors\<close>

definition CODE_EXTENSIONS :: "ustr list" where
  "CODE_EXTENSIONS = map lit
     [''.py'', ''.ts'', ''.js'', ''.tsx'', ''.jsx'', ''.go'', ''.rs'', ''.java'', ''.kt'', ''.scala'',
      ''.rb'', ''.php'', ''.cs'', ''.cpp'', ''.c'', ''.h'', ''.tf'', ''.hcl'', ''.sql'', ''.sh'', ''.bash'']"

definition SKIP_PATTERNS :: "ustr list" where
  "SKIP_PATTERNS = map lit
     [''package-lock.json'', ''yarn.lock'', ''poetry.lock'', ''uv.lock'', ''.min.js'', ''.min.css'']"

datatype diff_skip_reason = unsupported_diff_section | malformed_diff_section

datatype section_error = InvalidSection diff_skip_reason | OtherValueError

abbreviation invalid_section :: section_error where
  "invalid_section \<equiv> InvalidSection malformed_diff_section"

record file_diff =
  fd_file_path :: ustr
  fd_added_lines :: ustr

record diff_section =
  ds_file_path :: ustr
  ds_added_lines :: ustr
  ds_patch :: ustr

record diff_parse_result =
  dp_sections :: "diff_section list"
  dp_skipped :: "diff_skip_reason counter"

type_synonym 'a parsed = "section_error + 'a"

definition and_then :: "'a parsed \<Rightarrow> ('a \<Rightarrow> 'b parsed) \<Rightarrow> 'b parsed" where
  "and_then r f = (case r of Inl e \<Rightarrow> Inl e | Inr x \<Rightarrow> f x)"

lemma and_then_simps [simp]: "and_then (Inl e) f = Inl e" "and_then (Inr x) f = f x"
  by (simp_all add: and_then_def)

lemma and_then_Inr [elim!]:
  assumes "and_then r f = Inr y"
  obtains x where "r = Inr x" "f x = Inr y"
  using assms by (cases r) auto

section \<open>Paths\<close>

text \<open>\<open>char.encode("utf-8")\<close>\<close>

definition utf8_char :: "nat \<Rightarrow> nat list parsed" where
  "utf8_char c =
     (if c < 128 then Inr [c]
      else if c < 2048 then Inr [192 + c div 64, 128 + c mod 64]
      else if 55296 \<le> c \<and> c \<le> 57343 then Inl OtherValueError
      else if c < 65536 then Inr [224 + c div 4096, 128 + c div 64 mod 64, 128 + c mod 64]
      else Inr [240 + c div 262144, 128 + c div 4096 mod 64, 128 + c div 64 mod 64, 128 + c mod 64])"

definition utf8_cont :: "nat \<Rightarrow> bool" where
  "utf8_cont b = (128 \<le> b \<and> b < 192)"

text \<open>\<open>bytes.decode("utf-8")\<close>, strict: no overlong form, surrogate or value above U+10FFFF.\<close>

definition utf8_two :: "nat \<Rightarrow> nat \<Rightarrow> nat option" where
  "utf8_two b b1 = (if 194 \<le> b \<and> b < 224 \<and> utf8_cont b1 then Some ((b - 192) * 64 + (b1 - 128)) else None)"

definition utf8_three :: "nat \<Rightarrow> nat \<Rightarrow> nat \<Rightarrow> nat option" where
  "utf8_three b b1 b2 =
     (let c = (b - 224) * 4096 + (b1 - 128) * 64 + (b2 - 128)
      in if 224 \<le> b \<and> b < 240 \<and> utf8_cont b1 \<and> utf8_cont b2 \<and> 2048 \<le> c \<and> \<not> (55296 \<le> c \<and> c \<le> 57343)
         then Some c else None)"

definition utf8_four :: "nat \<Rightarrow> nat \<Rightarrow> nat \<Rightarrow> nat \<Rightarrow> nat option" where
  "utf8_four b b1 b2 b3 =
     (let c = (b - 240) * 262144 + (b1 - 128) * 4096 + (b2 - 128) * 64 + (b3 - 128)
      in if 240 \<le> b \<and> b < 245 \<and> utf8_cont b1 \<and> utf8_cont b2 \<and> utf8_cont b3 \<and> 65536 \<le> c \<and> c \<le> 1114111
         then Some c else None)"

fun utf8_next :: "nat list \<Rightarrow> (nat \<times> nat) option" where
  "utf8_next (b # rest) =
     (if b < 128 then Some (b, 1)
      else if b < 224 then (case rest of b1 # _ \<Rightarrow> map_option (\<lambda>c. (c, 2)) (utf8_two b b1) | _ \<Rightarrow> None)
      else if b < 240 then
        (case rest of b1 # b2 # _ \<Rightarrow> map_option (\<lambda>c. (c, 3)) (utf8_three b b1 b2) | _ \<Rightarrow> None)
      else (case rest of b1 # b2 # b3 # _ \<Rightarrow> map_option (\<lambda>c. (c, 4)) (utf8_four b b1 b2 b3) | _ \<Rightarrow> None))"
| "utf8_next [] = None"

function utf8_decode :: "nat list \<Rightarrow> ustr option" where
  "utf8_decode bs =
     (if bs = [] then Some []
      else case utf8_next bs of
        None \<Rightarrow> None
      | Some (c, n) \<Rightarrow> if n = 0 then None else map_option (Cons c) (utf8_decode (drop n bs)))"
  by pat_completeness auto
termination
  by (relation "measure length") auto

declare utf8_decode.simps [simp del]

definition ESCAPES :: "(nat \<times> nat) list" where
  "ESCAPES = [(97, 7), (98, 8), (116, 9), (110, 10), (118, 11), (102, 12), (114, 13), (34, 34), (92, 92)]"

definition octal_value :: "ustr \<Rightarrow> nat" where
  "octal_value ds = foldl (\<lambda>v d. v * 8 + (d - 48)) 0 ds"

text \<open>The loop of \<open>_git_path\<close> over the text between the quotes, with the bytes decoded so far.\<close>

function unescape :: "ustr \<Rightarrow> nat list \<Rightarrow> nat list parsed" where
  "unescape [] encoded = Inr encoded"
| "unescape (c # cs) encoded =
     (if c = 34 then Inl invalid_section
      else if c \<noteq> 92 then
        (case utf8_char c of Inl e \<Rightarrow> Inl e | Inr bs \<Rightarrow> unescape cs (encoded @ bs))
      else case cs of
        [] \<Rightarrow> Inl invalid_section
      | escape # rest \<Rightarrow>
          (case map_of ESCAPES escape of
             Some b \<Rightarrow> unescape rest (encoded @ [b])
           | None \<Rightarrow>
               if escape \<in> {48, 49, 50, 51} \<and> length cs \<ge> 3 \<and> list_all u_octal (take 3 cs)
               then unescape (drop 3 cs) (encoded @ [octal_value (take 3 cs)])
               else Inl invalid_section))"
  by pat_completeness auto
termination
  by (relation "measure (length \<circ> fst)") auto

definition git_path :: "ustr \<Rightarrow> ustr parsed" where
  "git_path token =
     (if token = [] then Inl invalid_section
      else if hd token \<noteq> 34 then
        (if list_ex (\<lambda>c. c < 32 \<or> c = 127 \<or> c = 92 \<or> c = 34) token then Inl invalid_section else Inr token)
      else if last token \<noteq> 34 then Inl invalid_section
      else and_then (unescape (butlast (tl token)) []) (\<lambda>encoded.
        case utf8_decode encoded of
          None \<Rightarrow> Inl (InvalidSection unsupported_diff_section)
        | Some path \<Rightarrow> if path = [] \<or> 0 \<in> set path then Inl invalid_section else Inr path))"

definition file_header :: "ustr \<Rightarrow> ustr \<Rightarrow> ustr option parsed" where
  "file_header token prefix =
     and_then (git_path (u_removesuffix token [9])) (\<lambda>path.
       if path = lit ''/dev/null'' then Inr None
       else if \<not> u_startswith path prefix \<or> length path = length prefix then Inl invalid_section
       else Inr (Some (drop (length prefix) path)))"

text \<open>One candidate split of the \<open>diff --git\<close> header; \<open>None\<close> where the loop continues.\<close>

definition candidate_of ::
  "ustr option \<Rightarrow> ustr option \<Rightarrow> ustr \<times> ustr \<Rightarrow> ustr option parsed" where
  "candidate_of old new = (\<lambda>(left, right).
     case and_then (file_header left (lit ''a/'')) (\<lambda>source.
            and_then (file_header right (lit ''b/'')) (\<lambda>target. Inr (source, target))) of
       Inl (InvalidSection reason) \<Rightarrow> Inr None
     | Inl OtherValueError \<Rightarrow> Inl OtherValueError
     | Inr (Some source, Some target) \<Rightarrow>
         if (if old = None \<and> new = None then source \<noteq> target
             else Some source \<noteq> (if old \<noteq> None then old else new)
                  \<or> Some target \<noteq> (if new \<noteq> None then new else old))
         then Inr None
         else Inr (Some (if new \<noteq> None then target else source))
     | Inr _ \<Rightarrow> Inr None)"

fun candidates_of ::
  "ustr option \<Rightarrow> ustr option \<Rightarrow> (ustr \<times> ustr) list \<Rightarrow> ustr list parsed" where
  "candidates_of old new [] = Inr []"
| "candidates_of old new (p # ps) =
     and_then (candidate_of old new p) (\<lambda>c.
       and_then (candidates_of old new ps) (\<lambda>cs.
         Inr (case c of None \<Rightarrow> cs | Some x \<Rightarrow> x # cs)))"

definition space_splits :: "ustr \<Rightarrow> (ustr \<times> ustr) list" where
  "space_splits header =
     map (\<lambda>i. (take i header, drop (i + 1) header))
       (filter (\<lambda>i. header ! i = 32) [0..<length header])"

definition section_path :: "ustr \<Rightarrow> ustr option \<Rightarrow> ustr option \<Rightarrow> ustr parsed" where
  "section_path header old new =
     and_then (candidates_of old new (space_splits header)) (\<lambda>candidates.
       case candidates of [path] \<Rightarrow> Inr path | _ \<Rightarrow> Inl invalid_section)"

section \<open>Hunks\<close>

text \<open>\<open>[0-9]+\<close> at the head of the text: the digits and what follows.\<close>

definition match_digits :: "ustr \<Rightarrow> (ustr \<times> ustr) option" where
  "match_digits s =
     (let ds = takeWhile u_digit s in if ds = [] then None else Some (ds, dropWhile u_digit s))"

definition match_lit :: "string \<Rightarrow> ustr \<Rightarrow> ustr option" where
  "match_lit p s = (if u_startswith s (lit p) then Some (drop (length p) s) else None)"

text \<open>\<open>([0-9]+)(?:,([0-9]+))?\<close>\<close>

definition match_range :: "ustr \<Rightarrow> (ustr \<times> ustr option \<times> ustr) option" where
  "match_range s =
     (case match_digits s of
        None \<Rightarrow> None
      | Some (start, rest) \<Rightarrow>
          (case match_lit '','' rest of
             None \<Rightarrow> Some (start, None, rest)
           | Some after \<Rightarrow>
               (case match_digits after of
                  None \<Rightarrow> Some (start, None, rest)
                | Some (n, rest') \<Rightarrow> Some (start, Some n, rest'))))"

record hunk_groups =
  hg_old_start :: ustr
  hg_old_count :: "ustr option"
  hg_new_start :: ustr
  hg_new_count :: "ustr option"

text \<open>\<open>_HUNK.fullmatch\<close>; a line's text has no line feed for \<open>.\<close> to stop at.\<close>

definition match_hunk :: "ustr \<Rightarrow> hunk_groups option" where
  "match_hunk s =
     (case Option.bind (match_lit ''@@ -'' s) match_range of
        None \<Rightarrow> None
      | Some (os, oc, rest) \<Rightarrow>
          (case Option.bind (match_lit '' +'' rest) match_range of
             None \<Rightarrow> None
           | Some (ns, nc, rest') \<Rightarrow>
               (case match_lit '' @@'' rest' of
                  None \<Rightarrow> None
                | Some tail \<Rightarrow>
                    if tail = [] \<or> hd tail = 32
                    then Some \<lparr>hg_old_start = os, hg_old_count = oc, hg_new_start = ns, hg_new_count = nc\<rparr>
                    else None)))"

text \<open>\<open>int(digits)\<close>, which refuses more than 4300 digits.\<close>

definition int_of_digits :: "ustr \<Rightarrow> int parsed" where
  "int_of_digits ds =
     (if length ds > 4300 then Inl OtherValueError
      else Inr (foldl (\<lambda>v d. v * 10 + (int d - 48)) 0 ds))"

definition int_of_count :: "ustr option \<Rightarrow> int parsed" where
  "int_of_count n = (case n of None \<Rightarrow> Inr 1 | Some ds \<Rightarrow> int_of_digits ds)"

record hunk_state =
  hs_old_remaining :: int
  hs_new_remaining :: int
  hs_old_end :: int
  hs_new_end :: int
  hs_previous_body :: bool
  hs_added :: "ustr list"

definition hunk_start :: hunk_state where
  "hunk_start =
     \<lparr>hs_old_remaining = 0, hs_new_remaining = 0, hs_old_end = 1, hs_new_end = 1,
      hs_previous_body = False, hs_added = []\<rparr>"

definition open_hunk :: "hunk_groups \<Rightarrow> hunk_state \<Rightarrow> hunk_state parsed" where
  "open_hunk g st =
     and_then (int_of_count (hg_old_count g)) (\<lambda>old_remaining.
     and_then (int_of_count (hg_new_count g)) (\<lambda>new_remaining.
     and_then (int_of_digits (hg_old_start g)) (\<lambda>old_start.
     and_then (int_of_digits (hg_new_start g)) (\<lambda>new_start.
       if (old_remaining \<noteq> 0 \<and> old_start = 0) \<or> (new_remaining \<noteq> 0 \<and> new_start = 0)
       then Inl invalid_section
       else
         let old_begin = old_start + (if old_remaining = 0 then 1 else 0);
             new_begin = new_start + (if new_remaining = 0 then 1 else 0)
         in if old_begin < hs_old_end st \<or> old_begin - hs_old_end st \<noteq> new_begin - hs_new_end st
            then Inl invalid_section
            else Inr (st\<lparr>hs_old_remaining := old_remaining, hs_new_remaining := new_remaining,
                        hs_old_end := old_begin + old_remaining, hs_new_end := new_begin + new_remaining,
                        hs_previous_body := False\<rparr>)))))"

definition body_line :: "ustr \<Rightarrow> hunk_state \<Rightarrow> hunk_state parsed" where
  "body_line t st =
     (if t = [] \<or> (hs_old_remaining st = 0 \<and> hs_new_remaining st = 0) then Inl invalid_section
      else and_then
        (if hd t = 43 then Inr (st\<lparr>hs_new_remaining := hs_new_remaining st - 1, hs_added := hs_added st @ [tl t]\<rparr>)
         else if hd t = 45 then Inr (st\<lparr>hs_old_remaining := hs_old_remaining st - 1\<rparr>)
         else if hd t = 32
         then Inr (st\<lparr>hs_old_remaining := hs_old_remaining st - 1, hs_new_remaining := hs_new_remaining st - 1\<rparr>)
         else Inl invalid_section)
        (\<lambda>st'. if hs_old_remaining st' < 0 \<or> hs_new_remaining st' < 0 then Inl invalid_section
              else Inr (st'\<lparr>hs_previous_body := True\<rparr>)))"

definition NO_NEWLINE :: ustr where
  "NO_NEWLINE = 92 # lit '' No newline at end of file''"

definition hunk_line :: "ustr \<Rightarrow> hunk_state \<Rightarrow> hunk_state parsed" where
  "hunk_line line st =
     (let t = u_removesuffix line [10]
      in if t = NO_NEWLINE
         then (if hs_previous_body st then Inr (st\<lparr>hs_previous_body := False\<rparr>) else Inl invalid_section)
         else if u_startswith t (lit ''@@'')
         then (if hs_old_remaining st \<noteq> 0 \<or> hs_new_remaining st \<noteq> 0 then Inl invalid_section
               else case match_hunk t of None \<Rightarrow> Inl invalid_section | Some g \<Rightarrow> open_hunk g st)
         else body_line t st)"

fun hunk_lines :: "ustr list \<Rightarrow> hunk_state \<Rightarrow> hunk_state parsed" where
  "hunk_lines [] st = Inr st"
| "hunk_lines (line # lines) st = and_then (hunk_line line st) (hunk_lines lines)"

definition hunk_additions :: "ustr list \<Rightarrow> ustr parsed" where
  "hunk_additions lines =
     and_then (hunk_lines lines hunk_start) (\<lambda>st.
       if hs_old_remaining st \<noteq> 0 \<or> hs_new_remaining st \<noteq> 0 then Inl invalid_section
       else Inr (join_with [10] (hs_added st)))"

section \<open>Sections\<close>

definition is_mode :: "ustr \<Rightarrow> bool" where
  "is_mode s = (length s = 6 \<and> list_all u_octal s)"

text \<open>\<open>_MODE.fullmatch(text)\<close>, its group 1.\<close>

definition match_mode :: "ustr \<Rightarrow> ustr option" where
  "match_mode s =
     (case List.find (\<lambda>p. case match_lit p s of None \<Rightarrow> False | Some m \<Rightarrow> is_mode m)
             [''new file mode '', ''deleted file mode '', ''old mode '', ''new mode ''] of
        None \<Rightarrow> None | Some p \<Rightarrow> match_lit p s)"

text \<open>\<open>_INDEX.fullmatch(text)\<close>\<close>

definition match_index :: "ustr \<Rightarrow> bool" where
  "match_index s =
     (case match_lit ''index '' s of
        None \<Rightarrow> False
      | Some r \<Rightarrow>
          (case match_lit ''..'' (dropWhile u_hex r) of
             None \<Rightarrow> False
           | Some q \<Rightarrow>
               takeWhile u_hex r \<noteq> [] \<and> takeWhile u_hex q \<noteq> []
               \<and> (let tail = dropWhile u_hex q in tail = [] \<or> hd tail = 32 \<and> is_mode (tl tail))))"

text \<open>\<open>_SIMILARITY.fullmatch(text)\<close>\<close>

definition match_similarity :: "ustr \<Rightarrow> bool" where
  "match_similarity s =
     (let s' = (case match_lit ''dis'' s of None \<Rightarrow> s | Some r \<Rightarrow> r)
      in case match_lit ''similarity index '' s' of
           None \<Rightarrow> False
         | Some r \<Rightarrow> r = lit ''100%'' \<or>
             (length r \<in> {2, 3} \<and> list_all u_digit (butlast r) \<and> last r = 37))"

record section_headers =
  sh_old :: "ustr option option"
  sh_new :: "ustr option option"
  sh_rename_old :: "ustr option"
  sh_rename_new :: "ustr option"
  sh_change :: bool

definition no_headers :: section_headers where
  "no_headers = \<lparr>sh_old = None, sh_new = None, sh_rename_old = None, sh_rename_new = None, sh_change = False\<rparr>"

definition has_headers :: "section_headers \<Rightarrow> bool" where
  "has_headers h = (sh_old h \<noteq> None \<or> sh_new h \<noteq> None)"

definition header_line :: "ustr \<Rightarrow> section_headers \<Rightarrow> section_headers parsed" where
  "header_line t h =
     (if u_startswith t (lit ''--- '') \<and> \<not> has_headers h
      then and_then (file_header (drop 4 t) (lit ''a/'')) (\<lambda>p. Inr (h\<lparr>sh_old := Some p\<rparr>))
      else if u_startswith t (lit ''+++ '') \<and> sh_old h \<noteq> None \<and> sh_new h = None
      then and_then (file_header (drop 4 t) (lit ''b/'')) (\<lambda>p. Inr (h\<lparr>sh_new := Some p\<rparr>))
      else if has_headers h then Inl invalid_section
      else if u_startswith t (lit ''rename from '')
      then (if sh_rename_old h \<noteq> None then Inl invalid_section
            else and_then (git_path (drop 12 t)) (\<lambda>p. Inr (h\<lparr>sh_rename_old := Some p, sh_change := True\<rparr>)))
      else if u_startswith t (lit ''rename to '')
      then (if sh_rename_new h \<noteq> None then Inl invalid_section
            else and_then (git_path (drop 10 t)) (\<lambda>p. Inr (h\<lparr>sh_rename_new := Some p, sh_change := True\<rparr>)))
      else case match_mode t of
        Some mode \<Rightarrow>
          if mode = lit ''160000'' then Inl (InvalidSection unsupported_diff_section)
          else Inr (h\<lparr>sh_change := True\<rparr>)
      | None \<Rightarrow>
          if match_index t \<or> match_similarity t
          then (if u_endswith t (lit '' 160000'') then Inl (InvalidSection unsupported_diff_section) else Inr h)
          else Inl invalid_section)"

definition unsupported_line :: "ustr \<Rightarrow> bool" where
  "unsupported_line t =
     list_ex (\<lambda>p. u_startswith t (lit p))
       [''Binary files '', ''GIT binary patch'', ''@@@'', ''copy from '', ''copy to '']"

text \<open>The header loop; it yields the headers and the lines from the first hunk on.\<close>

fun header_lines :: "ustr list \<Rightarrow> section_headers \<Rightarrow> (section_headers \<times> ustr list) parsed" where
  "header_lines [] h = Inr (h, [])"
| "header_lines (line # lines) h =
     (let t = u_removesuffix line [10]
      in if unsupported_line t then Inl (InvalidSection unsupported_diff_section)
         else if u_startswith t (lit ''@@'') then Inr (h, line # lines)
         else and_then (header_line t h) (header_lines lines))"

definition headers_invalid :: "section_headers \<Rightarrow> ustr list \<Rightarrow> bool" where
  "headers_invalid h body =
     ((has_headers h \<and> (sh_old h = None \<or> sh_new h = None \<or> body = []))
      \<or> (body \<noteq> [] \<and> \<not> has_headers h)
      \<or> (\<not> has_headers h \<and> \<not> sh_change h)
      \<or> ((sh_rename_old h \<noteq> None \<or> sh_rename_new h \<noteq> None)
          \<and> (sh_rename_old h = None \<or> sh_rename_new h = None
             \<or> has_headers h \<and> (sh_old h \<noteq> Some (sh_rename_old h) \<or> sh_new h \<noteq> Some (sh_rename_new h)))))"

definition parse_section :: "ustr \<Rightarrow> diff_section parsed" where
  "parse_section patch =
     (let lines = string_io patch
      in if \<not> u_startswith (hd lines) (lit ''diff --git '') then Inl (InvalidSection unsupported_diff_section)
         else and_then (header_lines (tl lines) no_headers) (\<lambda>(h, body).
           if headers_invalid h body then Inl invalid_section
           else
             let old = (if has_headers h then the_default None (sh_old h) else sh_rename_old h);
                 new = (if has_headers h then the_default None (sh_new h) else sh_rename_new h)
             in and_then (section_path (u_removesuffix (drop 11 (hd lines)) [10]) old new) (\<lambda>path.
                  if has_headers h \<and> sh_old h = Some None \<and> sh_new h = Some None then Inl invalid_section
                  else and_then (hunk_additions body) (\<lambda>additions.
                    Inr \<lparr>ds_file_path = path, ds_added_lines = additions, ds_patch = patch\<rparr>))))"

text \<open>The loop that cuts the diff before each line starting with \<open>diff\<close>.\<close>

fun cut_sections :: "ustr list \<Rightarrow> ustr list \<Rightarrow> ustr list" where
  "cut_sections [] current = (if current \<noteq> [] then [concat current] else [])"
| "cut_sections (line # lines) current =
     (if u_startswith line (lit ''diff '') \<and> current \<noteq> []
      then concat current # cut_sections lines [line]
      else cut_sections lines (current @ [line]))"

definition error_reason :: "section_error \<Rightarrow> diff_skip_reason" where
  "error_reason e = (case e of InvalidSection reason \<Rightarrow> reason | OtherValueError \<Rightarrow> malformed_diff_section)"

definition parse_step :: "ustr \<Rightarrow> diff_parse_result \<Rightarrow> diff_parse_result" where
  "parse_step patch r =
     (if u_blank patch then r
      else case parse_section patch of
        Inr sec \<Rightarrow> r\<lparr>dp_sections := dp_sections r @ [sec]\<rparr>
      | Inl e \<Rightarrow> r\<lparr>dp_skipped := ctr_incr (error_reason e) (dp_skipped r)\<rparr>)"

definition parse_diff_sections :: "ustr \<Rightarrow> diff_parse_result" where
  "parse_diff_sections raw_diff =
     fold parse_step (cut_sections (string_io raw_diff) []) \<lparr>dp_sections = [], dp_skipped = ctr_empty\<rparr>"

definition parse_unified_diff :: "ustr \<Rightarrow> file_diff list" where
  "parse_unified_diff raw_diff =
     map (\<lambda>sec. \<lparr>fd_file_path = ds_file_path sec, fd_added_lines = ds_added_lines sec\<rparr>)
       (dp_sections (parse_diff_sections raw_diff))"

definition is_code_file :: "ustr \<Rightarrow> bool" where
  "is_code_file file_path =
     (\<not> list_ex (\<lambda>p. u_contains p file_path) SKIP_PATTERNS
      \<and> list_ex (\<lambda>ext. u_endswith file_path ext) CODE_EXTENSIONS)"

end
