(* ===== verification/Diff_Laws.thy ===== *)
theory Diff_Laws
  imports Git_Diff
begin

text \<open>
  Laws of the diff parser: UTF-8 decoding inverts encoding, \<open>git_path\<close> inverts Git's C quoting,
  hunks are read back as written, a \<open>diff --git\<close> header names one path even when paths contain
  spaces, and the sections partition the diff. The writers (\<open>c_quote\<close>, \<open>hunk_text\<close>, \<open>change_lines\<close>)
  are specifications of what Git prints.
\<close>

section \<open>UTF-8\<close>

definition scalar_value :: "nat \<Rightarrow> bool" where
  "scalar_value c = (c < 55296 \<or> 57343 < c \<and> c \<le> 1114111)"

definition utf8_bytes :: "nat \<Rightarrow> nat list" where
  "utf8_bytes c = projr (utf8_char c)"

lemma utf8_char_scalar: "scalar_value c \<Longrightarrow> utf8_char c = Inr (utf8_bytes c)"
  by (auto simp: utf8_bytes_def utf8_char_def scalar_value_def)

lemma join_3: "(c::nat) div 4096 * 4096 + c div 64 mod 64 * 64 + c mod 64 = c"
proof -
  have "c div 4096 = c div 64 div 64" by (simp add: div_mult2_eq [symmetric])
  then have "c div 4096 * 4096 + c div 64 mod 64 * 64 = c div 64 * 64"
    using div_mult_mod_eq[of "c div 64" 64] by linarith
  then show ?thesis using div_mult_mod_eq[of c 64] by linarith
qed

lemma join_4: "(c::nat) div 262144 * 262144 + c div 4096 mod 64 * 4096 + c div 64 mod 64 * 64 + c mod 64 = c"
proof -
  have "c div 262144 = c div 4096 div 64" by (simp add: div_mult2_eq [symmetric])
  then have "c div 262144 * 262144 + c div 4096 mod 64 * 4096 = c div 4096 * 4096"
    using div_mult_mod_eq[of "c div 4096" 64] by linarith
  then show ?thesis using join_3[of c] by linarith
qed

lemma utf8_two_enc:
  assumes "128 \<le> c" "c < 2048"
  shows "utf8_two (192 + c div 64) (128 + c mod 64) = Some c"
proof -
  have "2 \<le> c div 64" "c div 64 < 32" using assms by linarith+
  then show ?thesis by (simp add: utf8_two_def utf8_cont_def)
qed

lemma utf8_three_enc:
  assumes "2048 \<le> c" "c < 65536" "scalar_value c"
  shows "utf8_three (224 + c div 4096) (128 + c div 64 mod 64) (128 + c mod 64) = Some c"
proof -
  have "c div 4096 < 16" using assms by linarith
  then show ?thesis
    using assms join_3[of c] by (auto simp: utf8_three_def utf8_cont_def scalar_value_def Let_def)
qed

lemma utf8_four_enc:
  assumes "65536 \<le> c" "c \<le> 1114111"
  shows "utf8_four (240 + c div 262144) (128 + c div 4096 mod 64) (128 + c div 64 mod 64) (128 + c mod 64) = Some c"
proof -
  have "c div 262144 < 5" using assms by linarith
  then show ?thesis
    using assms join_4[of c] by (simp add: utf8_four_def utf8_cont_def Let_def)
qed

lemma utf8_next_bytes:
  assumes "scalar_value c"
  shows "utf8_next (utf8_bytes c @ rest) = Some (c, length (utf8_bytes c))" "utf8_bytes c \<noteq> []"
proof -
  consider "c < 128" | "128 \<le> c" "c < 2048" | "2048 \<le> c" "c < 65536" | "65536 \<le> c" "c \<le> 1114111"
    using assms unfolding scalar_value_def by linarith
  then have "utf8_next (utf8_bytes c @ rest) = Some (c, length (utf8_bytes c)) \<and> utf8_bytes c \<noteq> []"
  proof cases
    case 1
    then show ?thesis by (simp add: utf8_bytes_def utf8_char_def)
  next
    case 2
    moreover from 2 have "c div 64 < 32" by linarith
    ultimately show ?thesis using utf8_two_enc by (simp add: utf8_bytes_def utf8_char_def)
  next
    case 3
    moreover from 3 have "c div 4096 < 16" by linarith
    ultimately show ?thesis
      using assms utf8_three_enc by (auto simp: utf8_bytes_def utf8_char_def scalar_value_def)
  next
    case 4
    then show ?thesis using utf8_four_enc by (simp add: utf8_bytes_def utf8_char_def)
  qed
  then show "utf8_next (utf8_bytes c @ rest) = Some (c, length (utf8_bytes c))" "utf8_bytes c \<noteq> []"
    by simp_all
qed

lemma utf8_decode_encode:
  "list_all scalar_value p \<Longrightarrow> utf8_decode (concat (map utf8_bytes p)) = Some p"
proof (induction p)
  case Nil
  show ?case by (simp add: utf8_decode.simps)
next
  case (Cons c p)
  then have "scalar_value c" by simp
  then show ?case
    using Cons by (subst utf8_decode.simps) (simp add: utf8_next_bytes)
qed

section \<open>Quoted paths\<close>

definition quote_byte :: "nat \<Rightarrow> ustr" where
  "quote_byte b = [92, 48 + b div 64, 48 + b div 8 mod 8, 48 + b mod 8]"

text \<open>Git's quoting of one character: the short escapes, three octal digits for other control
  characters, and for a non-ASCII character either its own code point or, under
  \<open>core.quotePath\<close>, the octal escapes of its UTF-8 bytes.\<close>

definition quote_char :: "bool \<Rightarrow> nat \<Rightarrow> ustr" where
  "quote_char quote_path c =
     (if c \<in> {7, 8, 9, 10, 11, 12, 13}
      then [92, the (map_of [(7, 97), (8, 98), (9, 116), (10, 110), (11, 118), (12, 102), (13, 114)] c)]
      else if c = 34 \<or> c = 92 then [92, c]
      else if c < 32 \<or> c = 127 then quote_byte c
      else if c < 128 \<or> \<not> quote_path then [c]
      else concat (map quote_byte (utf8_bytes c)))"

definition c_quote :: "bool \<Rightarrow> ustr \<Rightarrow> ustr" where
  "c_quote quote_path p = 34 # concat (map (quote_char quote_path) p) @ [34]"

lemma unescape_escape:
  "map_of ESCAPES e = Some b \<Longrightarrow> unescape (92 # e # rest) encoded = unescape rest (encoded @ [b])"
  by simp

lemma unescape_plain:
  "c \<noteq> 34 \<Longrightarrow> c \<noteq> 92 \<Longrightarrow> scalar_value c \<Longrightarrow>
     unescape (c # rest) encoded = unescape rest (encoded @ utf8_bytes c)"
  by (simp add: utf8_char_scalar)

lemma unescape_octal:
  assumes "a < 4" "b < 8" "c < 8"
  shows "unescape (92 # (48 + a) # (48 + b) # (48 + c) # rest) encoded =
    unescape rest (encoded @ [a * 64 + b * 8 + c])"
proof -
  have "a = 0 \<or> a = 1 \<or> a = 2 \<or> a = 3" using assms(1) by linarith
  then have "map_of ESCAPES (48 + a) = None" "48 + a \<in> {48, 49, 50, 51}"
    by (auto simp: ESCAPES_def)
  moreover have "list_all u_octal [48 + a, 48 + b, 48 + c]"
    using assms by (simp add: u_octal_def)
  moreover have "octal_value [48 + a, 48 + b, 48 + c] = a * 64 + b * 8 + c"
    by (simp add: octal_value_def)
  ultimately show ?thesis by simp
qed

lemma unescape_quote_byte:
  assumes "b < 256"
  shows "unescape (quote_byte b @ rest) encoded = unescape rest (encoded @ [b])"
proof -
  have "b div 64 = b div 8 div 8" by (simp add: div_mult2_eq [symmetric])
  then have "b div 64 * 64 + b div 8 mod 8 * 8 + b mod 8 = b"
    using div_mult_mod_eq[of "b div 8" 8] div_mult_mod_eq[of b 8] by linarith
  moreover have "b div 64 < 4" using assms by (simp add: less_mult_imp_div_less)
  ultimately show ?thesis
    using unescape_octal[of "b div 64" "b div 8 mod 8" "b mod 8" rest encoded]
    by (simp add: quote_byte_def del: unescape.simps)
qed

lemma unescape_quote_bytes:
  "list_all (\<lambda>b. b < 256) bs \<Longrightarrow>
     unescape (concat (map quote_byte bs) @ rest) encoded = unescape rest (encoded @ bs)"
  by (induction bs arbitrary: encoded) (simp_all add: unescape_quote_byte del: unescape.simps)

lemma utf8_bytes_less:
  assumes "scalar_value c"
  shows "list_all (\<lambda>b. b < 256) (utf8_bytes c)"
  using assms by (auto simp: utf8_bytes_def utf8_char_def scalar_value_def)

lemma unescape_quote_char:
  assumes "scalar_value c"
  shows "unescape (quote_char q c @ rest) encoded = unescape rest (encoded @ utf8_bytes c)"
proof -
  consider "c \<in> {7, 8, 9, 10, 11, 12, 13}" | "c = 34 \<or> c = 92"
    | "c \<notin> {7, 8, 9, 10, 11, 12, 13}" "c < 32 \<or> c = 127"
    | "32 \<le> c" "c \<noteq> 127" "c \<noteq> 34" "c \<noteq> 92" "c < 128 \<or> \<not> q" | "128 \<le> c" "q"
    by force
  then show ?thesis
  proof cases
    case 1
    then have "c < 128" by auto
    then have u: "utf8_bytes c = [c]" by (simp add: utf8_bytes_def utf8_char_def)
    from 1 obtain e where "quote_char q c = [92, e]" "map_of ESCAPES e = Some c"
      by (elim insertE emptyE) (simp_all add: quote_char_def ESCAPES_def)
    then show ?thesis unfolding u by (simp only: append.simps unescape_escape)
  next
    case 2
    then have "utf8_bytes c = [c]" "quote_char q c = [92, c]" "map_of ESCAPES c = Some c"
      by (auto simp: utf8_bytes_def utf8_char_def quote_char_def ESCAPES_def)
    then show ?thesis by (simp only: append.simps unescape_escape)
  next
    case 3
    then have "quote_char q c = quote_byte c" "utf8_bytes c = [c]" "c < 256"
      by (auto simp: quote_char_def utf8_bytes_def utf8_char_def)
    then show ?thesis by (simp only: unescape_quote_byte)
  next
    case 4
    then have "quote_char q c = [c]" by (auto simp: quote_char_def)
    then show ?thesis using unescape_plain[OF 4(3,4) assms] by (simp del: unescape.simps)
  next
    case 5
    then have "quote_char q c = concat (map quote_byte (utf8_bytes c))" by (auto simp: quote_char_def)
    then show ?thesis using unescape_quote_bytes[OF utf8_bytes_less[OF assms]] by simp
  qed
qed

lemma unescape_quoted:
  "list_all scalar_value p \<Longrightarrow>
     unescape (concat (map (quote_char q) p)) encoded = Inr (encoded @ concat (map utf8_bytes p))"
proof (induction p arbitrary: encoded)
  case (Cons c p)
  then show ?case using unescape_quote_char[of c q "concat (map (quote_char q) p)" encoded] by simp
qed simp

lemma git_path_quoted:
  assumes "p \<noteq> []" "0 \<notin> set p" "list_all scalar_value p"
  shows "git_path (c_quote q p) = Inr p"
  using assms by (simp add: git_path_def c_quote_def butlast_append unescape_quoted utf8_decode_encode)

definition plain_path :: "ustr \<Rightarrow> bool" where
  "plain_path p = (p \<noteq> [] \<and> list_all (\<lambda>c. 32 \<le> c \<and> c \<noteq> 127 \<and> c \<noteq> 92 \<and> c \<noteq> 34) p)"

lemma git_path_plain: "plain_path p \<Longrightarrow> git_path p = Inr p"
  by (cases p) (auto simp: git_path_def plain_path_def list_ex_iff list_all_iff)

section \<open>Hunks\<close>

fun dec :: "nat \<Rightarrow> ustr" where
  "dec n = (if n < 10 then [48 + n] else dec (n div 10) @ [48 + n mod 10])"

declare dec.simps [simp del]

lemma dec_digits: "list_all u_digit (dec n)"
proof (induction n rule: dec.induct)
  case (1 n)
  then show ?case by (cases "n < 10") (simp_all add: dec.simps[of n] u_digit_def)
qed

lemma dec_not_Nil [simp]: "dec n \<noteq> []"
  by (simp add: dec.simps[of n])

lemma foldl_dec: "foldl (\<lambda>v d. v * 10 + (int d - 48)) 0 (dec n) = int n"
proof (induction n rule: dec.induct)
  case (1 n)
  then show ?case
    using div_mult_mod_eq[of n 10] by (cases "n < 10") (simp_all add: dec.simps[of n] zdiv_int zmod_int)
qed

lemma length_dec_mono: "m \<le> n \<Longrightarrow> length (dec m) \<le> length (dec n)"
proof (induction n arbitrary: m rule: dec.induct)
  case (1 n)
  show ?case
  proof (cases "m < 10")
    case True
    then have "length (dec m) = 1" by (simp add: dec.simps[of m])
    then show ?thesis using dec_not_Nil[of n] by (cases "dec n") auto
  next
    case False
    then have "\<not> n < 10" "m div 10 \<le> n div 10" using "1.prems" by (auto intro: div_le_mono)
    with "1.IH" have "length (dec (m div 10)) \<le> length (dec (n div 10))" by blast
    with False \<open>\<not> n < 10\<close> show ?thesis by (simp add: dec.simps[of n] dec.simps[of m])
  qed
qed

text \<open>Numbers within the digit limit of \<open>int\<close>.\<close>

definition readable :: "nat \<Rightarrow> bool" where
  "readable n = (length (dec n) \<le> 4300)"

lemma readable_mono: "m \<le> n \<Longrightarrow> readable n \<Longrightarrow> readable m"
  using length_dec_mono[of m n] by (simp add: readable_def)

lemma int_of_digits_dec: "readable n \<Longrightarrow> int_of_digits (dec n) = Inr (int n)"
  by (simp add: int_of_digits_def readable_def foldl_dec)

lemma match_lit_append [simp]: "match_lit p (lit p @ rest) = Some rest"
  by (simp add: match_lit_def u_startswith_def lit_def)

lemma match_digits_dec:
  assumes "rest = [] \<or> \<not> u_digit (hd rest)"
  shows "match_digits (dec n @ rest) = Some (dec n, rest)"
proof -
  have all: "\<forall>x\<in>set (dec n). u_digit x" using dec_digits[of n] by (simp add: list_all_iff)
  moreover from this have "takeWhile u_digit (dec n) \<noteq> []" by (simp add: takeWhile_eq_Nil_iff)
  ultimately show ?thesis
    using assms unfolding match_digits_def Let_def
    by (cases rest) (simp_all add: takeWhile_append dropWhile_append)
qed

lemma match_range_dec:
  assumes "rest = [] \<or> \<not> u_digit (hd rest)"
  shows "match_range (dec a @ lit '','' @ dec b @ rest) = Some (dec a, Some (dec b), rest)"
proof -
  have "\<not> u_digit (hd (lit '','' @ dec b @ rest))" by (simp add: lit_def cp_def u_digit_def)
  then have "match_digits (dec a @ lit '','' @ dec b @ rest) = Some (dec a, lit '','' @ dec b @ rest)"
    by (intro match_digits_dec) blast
  with match_digits_dec[OF assms, of b] show ?thesis by (simp add: match_range_def)
qed

definition hunk_header :: "nat \<Rightarrow> nat \<Rightarrow> nat \<Rightarrow> nat \<Rightarrow> ustr" where
  "hunk_header os oc ns nc =
     lit ''@@ -'' @ dec os @ lit '','' @ dec oc @ lit '' +'' @ dec ns @ lit '','' @ dec nc @ lit '' @@''"

lemma match_hunk_header:
  "match_hunk (hunk_header os oc ns nc) =
     Some \<lparr>hg_old_start = dec os, hg_old_count = Some (dec oc), hg_new_start = dec ns, hg_new_count = Some (dec nc)\<rparr>"
proof -
  have d: "\<not> u_digit (hd (lit '' +'' @ r))" "\<not> u_digit (hd (lit '' @@''))" for r
    by (simp_all add: lit_def cp_def u_digit_def)
  have 1: "match_range (dec os @ lit '','' @ dec oc @ lit '' +'' @ r) = Some (dec os, Some (dec oc), lit '' +'' @ r)" for r
    by (intro match_range_dec) (use d in blast)
  have 2: "match_range (dec ns @ lit '','' @ dec nc @ lit '' @@'') = Some (dec ns, Some (dec nc), lit '' @@'')"
    by (intro match_range_dec) (use d in blast)
  have "match_lit '' @@'' (lit '' @@'') = Some []" using match_lit_append[of "'' @@''" "[]"] by simp
  then show ?thesis unfolding match_hunk_def hunk_header_def by (simp add: 1 2)
qed

datatype diff_line = Added ustr | Removed ustr | Context ustr

fun line_text :: "diff_line \<Rightarrow> ustr" where
  "line_text (Added t) = 43 # t"
| "line_text (Removed t) = 45 # t"
| "line_text (Context t) = 32 # t"

fun additions :: "diff_line list \<Rightarrow> ustr list" where
  "additions [] = []"
| "additions (Added t # ls) = t # additions ls"
| "additions (Removed t # ls) = additions ls"
| "additions (Context t # ls) = additions ls"

fun old_count :: "diff_line list \<Rightarrow> nat" where
  "old_count [] = 0"
| "old_count (Added t # ls) = old_count ls"
| "old_count (Removed t # ls) = Suc (old_count ls)"
| "old_count (Context t # ls) = Suc (old_count ls)"

fun new_count :: "diff_line list \<Rightarrow> nat" where
  "new_count [] = 0"
| "new_count (Added t # ls) = Suc (new_count ls)"
| "new_count (Removed t # ls) = new_count ls"
| "new_count (Context t # ls) = Suc (new_count ls)"

text \<open>A hunk: the unchanged lines skipped since the previous hunk, and its body. Git prints the
  first line of a range, or the line before it when the range is empty.\<close>

type_synonym hunk = "nat \<times> diff_line list"

definition range_start :: "nat \<Rightarrow> nat \<Rightarrow> nat" where
  "range_start begin_line n = (if n = 0 then begin_line - 1 else begin_line)"

fun hunk_text :: "nat \<Rightarrow> nat \<Rightarrow> hunk list \<Rightarrow> ustr list" where
  "hunk_text old_end new_end [] = []"
| "hunk_text old_end new_end ((gap, body) # hunks) =
     hunk_header (range_start (old_end + gap) (old_count body)) (old_count body)
       (range_start (new_end + gap) (new_count body)) (new_count body)
     # map line_text body
     @ hunk_text (old_end + gap + old_count body) (new_end + gap + new_count body) hunks"

definition hunk_additions_of :: "hunk list \<Rightarrow> ustr list" where
  "hunk_additions_of hunks = concat (map (additions \<circ> snd) hunks)"

definition diff_size :: "hunk list \<Rightarrow> nat" where
  "diff_size hunks = sum_list (map (\<lambda>(gap, body). gap + length body) hunks)"

lemma counts_le: "old_count body \<le> length body" "new_count body \<le> length body"
proof -
  show "old_count body \<le> length body" by (induction body rule: old_count.induct) simp_all
  show "new_count body \<le> length body" by (induction body rule: new_count.induct) simp_all
qed

lemma removesuffix_snoc [simp]: "u_removesuffix (t @ [c]) [c] = t"
  by (simp add: u_removesuffix_def u_endswith_def)

lemma hunk_line_body:
  "hunk_line (line_text l @ [10]) st = body_line (line_text l) st"
  by (cases l) (simp_all add: hunk_line_def Let_def NO_NEWLINE_def u_startswith_def lit_def cp_def
      removesuffix_snoc[of "_ # _", simplified])

abbreviation with_lf :: "ustr \<Rightarrow> ustr" where
  "with_lf t \<equiv> t @ [10]"

lemma hunk_lines_append:
  "hunk_lines (xs @ ys) st = and_then (hunk_lines xs st) (hunk_lines ys)"
proof (induction xs arbitrary: st)
  case (Cons x xs)
  then show ?case by (cases "hunk_line x st") simp_all
qed simp

lemma hunk_lines_body:
  assumes "hs_old_remaining st = int (old_count body)" "hs_new_remaining st = int (new_count body)"
  shows "\<exists>b. hunk_lines (map (with_lf \<circ> line_text) body) st =
    Inr (st\<lparr>hs_old_remaining := 0, hs_new_remaining := 0, hs_previous_body := b,
             hs_added := hs_added st @ additions body\<rparr>)"
  using assms
proof (induction body arbitrary: st)
  case Nil
  then show ?case by (intro exI[of _ "hs_previous_body st"]) simp
next
  case (Cons l body)
  obtain st' where st': "body_line (line_text l) st = Inr st'"
    "hs_old_remaining st' = int (old_count body)" "hs_new_remaining st' = int (new_count body)"
    "hs_added st' @ additions body = hs_added st @ additions (l # body)"
    "hs_old_end st' = hs_old_end st" "hs_new_end st' = hs_new_end st"
    using Cons.prems by (cases l) (auto simp: body_line_def)
  obtain b where "hunk_lines (map (with_lf \<circ> line_text) body) st' =
    Inr (st'\<lparr>hs_old_remaining := 0, hs_new_remaining := 0, hs_previous_body := b,
             hs_added := hs_added st' @ additions body\<rparr>)"
    using Cons.IH[OF st'(2,3)] by blast
  moreover have "st'\<lparr>hs_old_remaining := 0, hs_new_remaining := 0, hs_previous_body := b,
             hs_added := hs_added st' @ additions body\<rparr>
      = st\<lparr>hs_old_remaining := 0, hs_new_remaining := 0, hs_previous_body := b,
             hs_added := hs_added st @ additions (l # body)\<rparr>"
    using st'(4-6) by (auto intro: hunk_state.equality)
  ultimately show ?case using st'(1) by (auto simp: hunk_line_body comp_def)
qed

lemma hunk_line_header:
  assumes "hs_old_remaining st = 0" "hs_new_remaining st = 0"
  shows "hunk_line (with_lf (hunk_header os oc ns nc)) st =
    open_hunk \<lparr>hg_old_start = dec os, hg_old_count = Some (dec oc), hg_new_start = dec ns,
               hg_new_count = Some (dec nc)\<rparr> st"
proof -
  have "u_startswith (hunk_header os oc ns nc) (lit ''@@'')" "hunk_header os oc ns nc \<noteq> NO_NEWLINE"
    by (simp_all add: hunk_header_def u_startswith_def lit_def cp_def NO_NEWLINE_def)
  then show ?thesis using assms by (simp add: hunk_line_def match_hunk_header)
qed

lemma open_hunk_range:
  assumes "hs_old_end st = int old_end" "hs_new_end st = int new_end" "1 \<le> old_end" "1 \<le> new_end"
    "readable (old_end + gap)" "readable (new_end + gap)" "readable oc" "readable nc"
  shows "open_hunk \<lparr>hg_old_start = dec (range_start (old_end + gap) oc), hg_old_count = Some (dec oc),
      hg_new_start = dec (range_start (new_end + gap) nc), hg_new_count = Some (dec nc)\<rparr> st =
    Inr (st\<lparr>hs_old_remaining := int oc, hs_new_remaining := int nc,
            hs_old_end := int (old_end + gap + oc), hs_new_end := int (new_end + gap + nc),
            hs_previous_body := False\<rparr>)"
proof -
  have "readable (range_start (old_end + gap) oc)" "readable (range_start (new_end + gap) nc)"
    using assms(5,6) readable_mono[of "old_end + gap - 1" "old_end + gap"]
      readable_mono[of "new_end + gap - 1" "new_end + gap"]
    by (simp_all add: range_start_def)
  then show ?thesis
    using assms by (simp add: open_hunk_def int_of_count_def int_of_digits_dec Let_def range_start_def of_nat_diff)
qed

lemma hunk_lines_text:
  assumes "hs_old_remaining st = 0" "hs_new_remaining st = 0"
    "hs_old_end st = int old_end" "hs_new_end st = int new_end" "1 \<le> old_end" "1 \<le> new_end"
    "readable (old_end + diff_size hunks)" "readable (new_end + diff_size hunks)"
  shows "\<exists>st'. hunk_lines (map with_lf (hunk_text old_end new_end hunks)) st = Inr st'
    \<and> hs_old_remaining st' = 0 \<and> hs_new_remaining st' = 0
    \<and> hs_added st' = hs_added st @ hunk_additions_of hunks"
  using assms
proof (induction hunks arbitrary: st old_end new_end)
  case Nil
  then show ?case by (simp add: hunk_additions_of_def)
next
  case (Cons h hunks)
  obtain gap body where h: "h = (gap, body)" by fastforce
  let ?oc = "old_count body" and ?nc = "new_count body"
  have size: "diff_size (h # hunks) = gap + length body + diff_size hunks" by (simp add: diff_size_def h)
  have le: "old_end + gap \<le> old_end + diff_size (h # hunks)" "?oc \<le> old_end + diff_size (h # hunks)"
    "new_end + gap \<le> new_end + diff_size (h # hunks)" "?nc \<le> new_end + diff_size (h # hunks)"
    "old_end + gap + ?oc + diff_size hunks \<le> old_end + diff_size (h # hunks)"
    "new_end + gap + ?nc + diff_size hunks \<le> new_end + diff_size (h # hunks)"
    using counts_le[of body] unfolding size by linarith+
  define st1 where "st1 = st\<lparr>hs_old_remaining := int ?oc, hs_new_remaining := int ?nc,
            hs_old_end := int (old_end + gap + ?oc), hs_new_end := int (new_end + gap + ?nc),
            hs_previous_body := False\<rparr>"
  have 1: "hunk_line (with_lf (hunk_header (range_start (old_end + gap) ?oc) ?oc (range_start (new_end + gap) ?nc) ?nc)) st = Inr st1"
    unfolding hunk_line_header[OF Cons.prems(1,2)] st1_def
    using Cons.prems le by (intro open_hunk_range) (blast intro: readable_mono)+
  obtain b where 2: "hunk_lines (map (with_lf \<circ> line_text) body) st1 =
    Inr (st1\<lparr>hs_old_remaining := 0, hs_new_remaining := 0, hs_previous_body := b,
             hs_added := hs_added st1 @ additions body\<rparr>)"
    using hunk_lines_body[of st1 body] by (auto simp: st1_def)
  define st2 where "st2 = st1\<lparr>hs_old_remaining := 0, hs_new_remaining := 0, hs_previous_body := b,
             hs_added := hs_added st1 @ additions body\<rparr>"
  have "\<exists>st'. hunk_lines (map with_lf (hunk_text (old_end + gap + ?oc) (new_end + gap + ?nc) hunks)) st2 = Inr st'
    \<and> hs_old_remaining st' = 0 \<and> hs_new_remaining st' = 0
    \<and> hs_added st' = hs_added st2 @ hunk_additions_of hunks"
    using Cons.prems(5,6) readable_mono[OF le(5) Cons.prems(7)] readable_mono[OF le(6) Cons.prems(8)]
    by (intro Cons.IH) (simp_all add: st2_def st1_def)
  then show ?case
    using 1 2 by (simp add: h hunk_lines_append st2_def[symmetric])
      (simp add: st2_def st1_def hunk_additions_of_def)
qed

lemma hunk_additions_text:
  assumes "readable (1 + diff_size hunks)"
  shows "hunk_additions (map with_lf (hunk_text 1 1 hunks)) = Inr (join_with [10] (hunk_additions_of hunks))"
  using hunk_lines_text[of hunk_start 1 1 hunks] assms by (auto simp: hunk_additions_def hunk_start_def)

section \<open>Section headers\<close>

lemma filter_unique: "distinct xs \<Longrightarrow> x \<in> set xs \<Longrightarrow> filter (\<lambda>y. y = x) xs = [x]"
  by (induction xs) (auto simp: filter_empty_conv)

lemma space_splits_distinct: "distinct (space_splits header)"
proof -
  have "inj_on (\<lambda>i. (take i header, drop (i + 1) header)) {..<length header}"
  proof (rule inj_onI)
    fix i j
    assume "i \<in> {..<length header}" "j \<in> {..<length header}"
      "(take i header, drop (i + 1) header) = (take j header, drop (j + 1) header)"
    then have "length (take i header) = length (take j header)" "i < length header" "j < length header"
      by simp_all
    then show "i = j" by simp
  qed
  then show ?thesis
    unfolding space_splits_def distinct_map by (auto intro: inj_on_subset)
qed

lemma candidates_of_unique:
  assumes "\<And>x. x \<in> set ps \<Longrightarrow> candidate_of old new x = Inr (if x = good then Some path else None)"
  shows "candidates_of old new ps = Inr (map (\<lambda>_. path) (filter (\<lambda>x. x = good) ps))"
  using assms by (induction ps) auto

definition plain_text :: "ustr \<Rightarrow> bool" where
  "plain_text t = list_all (\<lambda>c. 32 \<le> c \<and> c \<noteq> 127 \<and> c \<noteq> 92 \<and> c \<noteq> 34) t"

lemma removesuffix_tab: "plain_text t \<Longrightarrow> u_removesuffix t [9] = t"
proof -
  assume p: "plain_text t"
  have "\<not> u_endswith t [9]"
  proof
    assume "u_endswith t [9]"
    then have "9 \<in> set t" unfolding u_endswith_def by (metis in_set_dropD list.set_intros(1))
    then show False using p by (auto simp: plain_text_def list_all_iff)
  qed
  then show ?thesis by (simp add: u_removesuffix_def)
qed

lemma file_header_plain:
  assumes "plain_text t"
  shows "file_header t prefix =
    (if t = [] then Inl invalid_section else if t = lit ''/dev/null'' then Inr None
     else if \<not> u_startswith t prefix \<or> length t = length prefix then Inl invalid_section
     else Inr (Some (drop (length prefix) t)))"
proof (cases "t = []")
  case True
  then show ?thesis by (simp add: file_header_def u_removesuffix_def u_endswith_def git_path_def)
next
  case False
  then have "git_path t = Inr t" using assms by (intro git_path_plain) (simp add: plain_path_def plain_text_def)
  then show ?thesis using False by (simp add: file_header_def removesuffix_tab[OF assms])
qed

lemma header_named:
  assumes "plain_text t" "p \<noteq> []" "length prefix = 2" "prefix \<noteq> lit ''/d''"
  shows "file_header t prefix = Inr (Some p) \<longleftrightarrow> t = prefix @ p"
proof
  assume "file_header t prefix = Inr (Some p)"
  then have "u_startswith t prefix" "drop (length prefix) t = p"
    unfolding file_header_plain[OF assms(1)] by (auto split: if_splits)
  then show "t = prefix @ p" unfolding u_startswith_def by (metis append_take_drop_id)
next
  assume t: "t = prefix @ p"
  have "t \<noteq> lit ''/dev/null''"
  proof
    assume "t = lit ''/dev/null''"
    then have "take 2 t = lit ''/d''" by (simp add: lit_def)
    then show False using t assms(3,4) by simp
  qed
  then show "file_header t prefix = Inr (Some p)"
    unfolding file_header_plain[OF assms(1)] using t assms(2) by (auto simp: u_startswith_def)
qed

lemma candidate_of_header:
  assumes some: "\<not> (old = None \<and> new = None)"
    and "(if old \<noteq> None then old else new) = Some p" "(if new \<noteq> None then new else old) = Some q"
    and "file_header l (lit ''a/'') \<noteq> Inl OtherValueError" "file_header r (lit ''b/'') \<noteq> Inl OtherValueError"
  shows "candidate_of old new (l, r) =
    Inr (if file_header l (lit ''a/'') = Inr (Some p) \<and> file_header r (lit ''b/'') = Inr (Some q)
         then Some (if new \<noteq> None then q else p) else None)"
proof (cases "file_header l (lit ''a/'')")
  case (Inl e)
  then show ?thesis using assms(4) by (cases e) (simp_all add: candidate_of_def)
next
  case a: (Inr source)
  show ?thesis
  proof (cases "file_header r (lit ''b/'')")
    case (Inl e)
    then show ?thesis using a assms(5) by (cases e) (simp_all add: candidate_of_def)
  next
    case b: (Inr target)
    show ?thesis
      unfolding candidate_of_def split_conv a b and_then_simps assms(2,3) if_not_P[OF some]
      by (cases source; cases target) auto
  qed
qed

lemma section_path_named:
  assumes "plain_path p" "plain_path q"
    and "(if old \<noteq> None then old else new) = Some p" "(if new \<noteq> None then new else old) = Some q"
  shows "section_path (lit ''a/'' @ p @ lit '' b/'' @ q) old new = Inr (if new \<noteq> None then q else p)"
proof -
  let ?header = "lit ''a/'' @ p @ lit '' b/'' @ q"
  let ?good = "(lit ''a/'' @ p, lit ''b/'' @ q)"
  let ?path = "if new \<noteq> None then q else p"
  have pq: "p \<noteq> []" "q \<noteq> []" using assms(1,2) by (simp_all add: plain_path_def)
  have some: "\<not> (old = None \<and> new = None)" using assms(3) by auto
  have plain: "plain_text ?header"
    using assms(1,2) by (simp add: plain_text_def plain_path_def lit_def cp_def)
  have "candidate_of old new x = Inr (if x = ?good then Some ?path else None)"
    if x: "x \<in> set (space_splits ?header)" for x
  proof -
    obtain i where i: "x = (take i ?header, drop (i + 1) ?header)" using x by (auto simp: space_splits_def)
    have t: "plain_text (take i ?header)" "plain_text (drop (i + 1) ?header)"
      using plain unfolding plain_text_def list_all_iff by (blast dest: in_set_takeD in_set_dropD)+
    have e: "file_header (take i ?header) (lit ''a/'') = Inr (Some p) \<longleftrightarrow> take i ?header = lit ''a/'' @ p"
      "file_header (drop (i + 1) ?header) (lit ''b/'') = Inr (Some q) \<longleftrightarrow> drop (i + 1) ?header = lit ''b/'' @ q"
      using header_named[OF t(1) pq(1), of "lit ''a/''"] header_named[OF t(2) pq(2), of "lit ''b/''"]
      by (simp_all add: lit_def cp_def)
    have no: "file_header u w \<noteq> Inl OtherValueError" if "plain_text u" for u w
      using file_header_plain[OF that, of w] by (auto split: if_splits)
    show ?thesis
      unfolding i candidate_of_header[OF some assms(3,4) no[OF t(1)] no[OF t(2)]] e by (simp only: prod.inject)
  qed
  then have c: "candidates_of old new (space_splits ?header)
      = Inr (map (\<lambda>_. ?path) (filter (\<lambda>x. x = ?good) (space_splits ?header)))"
    by (rule candidates_of_unique)
  have "?good \<in> set (space_splits ?header)"
  proof -
    let ?i = "2 + length p"
    have "?i < length ?header" "?header ! ?i = 32" "take ?i ?header = lit ''a/'' @ p"
      "drop (?i + 1) ?header = lit ''b/'' @ q"
      by (simp_all add: lit_def cp_def nth_append)
    then show ?thesis unfolding space_splits_def by (auto intro!: image_eqI[of _ _ ?i])
  qed
  with filter_unique[OF space_splits_distinct] show ?thesis by (simp add: section_path_def c)
qed

section \<open>Whole diffs\<close>

lemma string_io_line: "10 \<notin> set t \<Longrightarrow> string_io (with_lf t @ rest) = with_lf t # string_io rest"
proof -
  assume "10 \<notin> set t"
  then have all: "\<forall>c\<in>set t. c \<noteq> 10" by metis
  have "takeWhile (\<lambda>c. c \<noteq> 10) (t @ 10 # rest) = t" "dropWhile (\<lambda>c. c \<noteq> 10) (t @ 10 # rest) = 10 # rest"
    using all by (simp_all add: takeWhile_append dropWhile_append)
  then show ?thesis by (subst string_io.simps) simp
qed

lemma string_io_lines: "list_all (\<lambda>t. 10 \<notin> set t) ts \<Longrightarrow> string_io (concat (map with_lf ts)) = map with_lf ts"
proof (induction ts)
  case Nil
  show ?case by (simp add: string_io.simps)
next
  case (Cons t ts)
  then show ?case using string_io_line[of t] by simp
qed

lemma concat_string_io: "concat (string_io s) = s"
proof (induction s rule: string_io.induct)
  case (1 s)
  show ?case
  proof (cases "s = []")
    case True
    then show ?thesis by (simp add: string_io.simps)
  next
    case False
    let ?d = "dropWhile (\<lambda>c. c \<noteq> 10) s"
    have "concat (string_io s) = takeWhile (\<lambda>c. c \<noteq> 10) s @ take 1 ?d @ drop 1 ?d"
      using 1[OF False] False by (subst string_io.simps) simp
    then show ?thesis by (simp only: append_take_drop_id takeWhile_dropWhile_id)
  qed
qed

lemma concat_cut_sections: "concat (cut_sections lines current) = concat current @ concat lines"
  by (induction lines current rule: cut_sections.induct) simp_all

lemma cut_sections_body:
  assumes "list_all (\<lambda>l. \<not> u_startswith l (lit ''diff '')) body"
  shows "cut_sections (body @ lines) current = cut_sections lines (current @ body)"
  using assms by (induction body arbitrary: current) simp_all

lemma cut_sections_groups:
  assumes "list_all (\<lambda>(h, body). u_startswith h (lit ''diff '')
      \<and> list_all (\<lambda>l. \<not> u_startswith l (lit ''diff '')) body) groups" "current \<noteq> []"
  shows "cut_sections (concat (map (\<lambda>(h, body). h # body) groups)) current =
    concat current # map (\<lambda>(h, body). concat (h # body)) groups"
  using assms
proof (induction groups arbitrary: current)
  case (Cons g groups)
  obtain h body where g: "g = (h, body)" by fastforce
  show ?case
    using Cons.prems Cons.IH[of "h # body"]
    by (simp add: g cut_sections_body)
qed simp

text \<open>What Git prints for a changed file. A name containing a space is followed by a tab in the
  per-file headers.\<close>

datatype file_change = Modify ustr "hunk list" | Create ustr "hunk list" | Delete ustr "hunk list"
  | Rename ustr ustr "hunk list"

definition name_tab :: "ustr \<Rightarrow> ustr" where
  "name_tab p = p @ (if 32 \<in> set p then [9] else [])"

fun change_names :: "file_change \<Rightarrow> ustr \<times> ustr" where
  "change_names (Modify p hs) = (p, p)"
| "change_names (Create p hs) = (p, p)"
| "change_names (Delete p hs) = (p, p)"
| "change_names (Rename p q hs) = (p, q)"

fun change_hunks :: "file_change \<Rightarrow> hunk list" where
  "change_hunks (Modify p hs) = hs"
| "change_hunks (Create p hs) = hs"
| "change_hunks (Delete p hs) = hs"
| "change_hunks (Rename p q hs) = hs"

definition change_title :: "file_change \<Rightarrow> ustr" where
  "change_title c = lit ''diff --git a/'' @ fst (change_names c) @ lit '' b/'' @ snd (change_names c)"

fun change_lines :: "file_change \<Rightarrow> ustr list" where
  "change_lines (Modify p hs) =
     [lit ''--- a/'' @ name_tab p, lit ''+++ b/'' @ name_tab p] @ hunk_text 1 1 hs"
| "change_lines (Create p hs) =
     [lit ''new file mode 100644'', lit ''--- /dev/null'', lit ''+++ b/'' @ name_tab p] @ hunk_text 1 1 hs"
| "change_lines (Delete p hs) =
     [lit ''deleted file mode 100644'', lit ''--- a/'' @ name_tab p, lit ''+++ /dev/null''] @ hunk_text 1 1 hs"
| "change_lines (Rename p q hs) =
     [lit ''similarity index 90%'', lit ''rename from '' @ p, lit ''rename to '' @ q]
     @ (if hs = [] then [] else [lit ''--- a/'' @ name_tab p, lit ''+++ b/'' @ name_tab q] @ hunk_text 1 1 hs)"

definition change_text :: "file_change \<Rightarrow> ustr" where
  "change_text c = concat (map with_lf (change_title c # change_lines c))"

definition diff_text :: "file_change list \<Rightarrow> ustr" where
  "diff_text changes = concat (map change_text changes)"

fun is_rename :: "file_change \<Rightarrow> bool" where
  "is_rename (Rename p q hs) = True"
| "is_rename c = False"

definition change_ok :: "file_change \<Rightarrow> bool" where
  "change_ok c =
     (plain_path (fst (change_names c)) \<and> plain_path (snd (change_names c))
      \<and> (change_hunks c \<noteq> [] \<or> is_rename c)
      \<and> list_all (\<lambda>(gap, body). list_all (\<lambda>l. 10 \<notin> set (line_text l)) body) (change_hunks c)
      \<and> readable (1 + diff_size (change_hunks c)))"

definition change_section :: "file_change \<Rightarrow> diff_section" where
  "change_section c =
     \<lparr>ds_file_path = snd (change_names c), ds_added_lines = join_with [10] (hunk_additions_of (change_hunks c)),
      ds_patch = change_text c\<rparr>"

lemmas lit_eval = lit_def cp_def u_startswith_def

lemma plain_path_text: "plain_path p \<Longrightarrow> plain_text (lit ''a/'' @ p) \<and> plain_text (lit ''b/'' @ p)"
  by (simp add: plain_path_def plain_text_def lit_def cp_def)

lemma file_header_name:
  assumes "plain_path p" "prefix = lit ''a/'' \<or> prefix = lit ''b/''"
  shows "file_header (prefix @ name_tab p) prefix = Inr (Some p)"
proof -
  have t: "plain_text (prefix @ p)" using plain_path_text[OF assms(1)] assms(2) by auto
  have "u_removesuffix (prefix @ name_tab p) [9] = prefix @ p"
    using removesuffix_tab[OF t] removesuffix_snoc[of "prefix @ p" 9] by (simp add: name_tab_def)
  then have "file_header (prefix @ name_tab p) prefix = file_header (prefix @ p) prefix"
    by (simp add: file_header_def removesuffix_tab[OF t])
  also have "\<dots> = Inr (Some p)"
    using header_named[OF t, of p prefix] assms by (auto simp: plain_path_def lit_def cp_def)
  finally show ?thesis .
qed

lemma file_header_null: "file_header (lit ''/dev/null'') prefix = Inr None"
  by (subst file_header_plain) (simp_all add: plain_text_def lit_def cp_def)

lemma header_lines_hunks:
  assumes "hs \<noteq> []"
  shows "header_lines (map with_lf (hunk_text 1 1 hs)) h = Inr (h, map with_lf (hunk_text 1 1 hs))"
proof -
  obtain gap body rest where hs: "hs = (gap, body) # rest" using assms by (cases hs) auto
  have "\<not> unsupported_line (hunk_header a b c d)" "u_startswith (hunk_header a b c d) (lit ''@@'')" for a b c d
    by (simp_all add: unsupported_line_def hunk_header_def lit_eval)
  then show ?thesis by (simp add: hs)
qed

lemma header_lines_step:
  assumes "\<not> unsupported_line t" "\<not> u_startswith t (lit ''@@'')" "header_line t h = Inr h'"
  shows "header_lines (with_lf t # ls) h = header_lines ls h'"
  using assms by simp

lemma header_line_old:
  assumes "\<not> has_headers h" "file_header n (lit ''a/'') = Inr p"
  shows "header_lines (with_lf (lit ''--- '' @ n) # ls) h = header_lines ls (h\<lparr>sh_old := Some p\<rparr>)"
  using assms by (intro header_lines_step) (simp_all add: unsupported_line_def header_line_def lit_eval)

lemma header_line_new:
  assumes "sh_old h \<noteq> None" "sh_new h = None" "file_header n (lit ''b/'') = Inr p"
  shows "header_lines (with_lf (lit ''+++ '' @ n) # ls) h = header_lines ls (h\<lparr>sh_new := Some p\<rparr>)"
  using assms by (intro header_lines_step) (simp_all add: unsupported_line_def header_line_def lit_eval)

lemma header_line_rename:
  assumes "\<not> has_headers h" "sh_rename_old h = None" "sh_rename_new h = None" "plain_path p" "plain_path q"
  shows "header_lines (with_lf (lit ''rename from '' @ p) # with_lf (lit ''rename to '' @ q) # ls) h =
    header_lines ls (h\<lparr>sh_rename_old := Some p, sh_rename_new := Some q, sh_change := True\<rparr>)"
proof -
  have "header_lines (with_lf (lit ''rename from '' @ p) # with_lf (lit ''rename to '' @ q) # ls) h =
    header_lines (with_lf (lit ''rename to '' @ q) # ls) (h\<lparr>sh_rename_old := Some p, sh_change := True\<rparr>)"
    using assms git_path_plain[of p]
    by (intro header_lines_step) (simp_all add: unsupported_line_def header_line_def has_headers_def lit_eval)
  also have "\<dots> = header_lines ls (h\<lparr>sh_rename_old := Some p, sh_rename_new := Some q, sh_change := True\<rparr>)"
    using assms git_path_plain[of q]
    by (intro header_lines_step) (simp_all add: unsupported_line_def header_line_def has_headers_def lit_eval)
  finally show ?thesis .
qed

lemma header_line_mode:
  assumes "\<not> has_headers h" "t = lit ''new file mode 100644'' \<or> t = lit ''deleted file mode 100644''"
  shows "header_lines (with_lf t # ls) h = header_lines ls (h\<lparr>sh_change := True\<rparr>)"
  using assms
  by (intro header_lines_step; elim disjE)
    (simp_all add: unsupported_line_def header_line_def match_mode_def match_lit_def is_mode_def u_octal_def lit_eval)

lemma header_line_similarity:
  assumes "\<not> has_headers h"
  shows "header_lines (with_lf (lit ''similarity index 90%'') # ls) h = header_lines ls h"
  using assms
  by (intro header_lines_step)
    (simp_all add: unsupported_line_def header_line_def match_mode_def match_lit_def match_index_def
      match_similarity_def u_digit_def u_endswith_def lit_eval)

definition headers_for :: "file_change \<Rightarrow> section_headers" where
  "headers_for c = (case c of
     Modify p hs \<Rightarrow> no_headers\<lparr>sh_old := Some (Some p), sh_new := Some (Some p)\<rparr>
   | Create p hs \<Rightarrow> no_headers\<lparr>sh_change := True, sh_old := Some None, sh_new := Some (Some p)\<rparr>
   | Delete p hs \<Rightarrow> no_headers\<lparr>sh_change := True, sh_old := Some (Some p), sh_new := Some None\<rparr>
   | Rename p q hs \<Rightarrow>
       (let h = no_headers\<lparr>sh_rename_old := Some p, sh_rename_new := Some q, sh_change := True\<rparr>
        in if hs = [] then h else h\<lparr>sh_old := Some (Some p), sh_new := Some (Some q)\<rparr>))"

lemma header_old_name:
  "\<not> has_headers h \<Longrightarrow> plain_path p \<Longrightarrow>
     header_lines (with_lf (lit ''--- a/'' @ name_tab p) # ls) h = header_lines ls (h\<lparr>sh_old := Some (Some p)\<rparr>)"
  using header_line_old[OF _ file_header_name[of p "lit ''a/''"], of h ls] by (simp add: lit_def)

lemma header_new_name:
  "sh_old h \<noteq> None \<Longrightarrow> sh_new h = None \<Longrightarrow> plain_path p \<Longrightarrow>
     header_lines (with_lf (lit ''+++ b/'' @ name_tab p) # ls) h = header_lines ls (h\<lparr>sh_new := Some (Some p)\<rparr>)"
  using header_line_new[OF _ _ file_header_name[of p "lit ''b/''"], of h ls] by (simp add: lit_def)

lemma header_old_null:
  "\<not> has_headers h \<Longrightarrow> header_lines (with_lf (lit ''--- /dev/null'') # ls) h = header_lines ls (h\<lparr>sh_old := Some None\<rparr>)"
  using header_line_old[OF _ file_header_null, of h ls] by (simp add: lit_def)

lemma header_new_null:
  "sh_old h \<noteq> None \<Longrightarrow> sh_new h = None \<Longrightarrow>
     header_lines (with_lf (lit ''+++ /dev/null'') # ls) h = header_lines ls (h\<lparr>sh_new := Some None\<rparr>)"
  using header_line_new[OF _ _ file_header_null, of h ls] by (simp add: lit_def)

lemmas header_steps = header_old_name header_new_name header_old_null header_new_null header_line_rename
  header_line_mode header_line_similarity header_lines_hunks

lemma header_lines_change:
  assumes "change_ok c"
  shows "header_lines (map with_lf (change_lines c)) no_headers =
    Inr (headers_for c, map with_lf (hunk_text 1 1 (change_hunks c)))"
proof (cases c)
  case (Modify p hs)
  then show ?thesis
    using assms by (simp add: header_steps headers_for_def has_headers_def no_headers_def change_ok_def del: header_lines.simps append_assoc One_nat_def)
next
  case (Create p hs)
  then show ?thesis
    using assms by (simp add: header_steps headers_for_def has_headers_def no_headers_def change_ok_def del: header_lines.simps append_assoc One_nat_def)
next
  case (Delete p hs)
  then show ?thesis
    using assms by (simp add: header_steps headers_for_def has_headers_def no_headers_def change_ok_def del: header_lines.simps append_assoc One_nat_def)
next
  case (Rename p q hs)
  then show ?thesis
    using assms header_lines.simps(1)
    by (simp add: header_steps headers_for_def has_headers_def no_headers_def change_ok_def Let_def del: header_lines.simps(2) append_assoc One_nat_def)
qed

lemma headers_for_valid:
  assumes "change_ok c"
  shows "\<not> headers_invalid (headers_for c) (map with_lf (hunk_text 1 1 (change_hunks c)))"
    "\<not> (has_headers (headers_for c) \<and> sh_old (headers_for c) = Some None \<and> sh_new (headers_for c) = Some None)"
proof -
  have "change_hunks c \<noteq> [] \<Longrightarrow> hunk_text 1 1 (change_hunks c) \<noteq> []"
    by (cases "change_hunks c") auto
  then show "\<not> headers_invalid (headers_for c) (map with_lf (hunk_text 1 1 (change_hunks c)))"
    using assms by (cases c) (auto simp: change_ok_def headers_for_def headers_invalid_def has_headers_def no_headers_def Let_def)
  show "\<not> (has_headers (headers_for c) \<and> sh_old (headers_for c) = Some None \<and> sh_new (headers_for c) = Some None)"
    by (cases c) (auto simp: headers_for_def has_headers_def no_headers_def Let_def)
qed

lemma section_path_change:
  assumes "change_ok c" "h = headers_for c"
  shows "section_path (lit ''a/'' @ fst (change_names c) @ lit '' b/'' @ snd (change_names c))
      (if has_headers h then the_default None (sh_old h) else sh_rename_old h)
      (if has_headers h then the_default None (sh_new h) else sh_rename_new h)
    = Inr (snd (change_names c))"
  using assms
  by (cases c) (auto simp: section_path_named change_ok_def headers_for_def has_headers_def no_headers_def the_default_def Let_def)

lemma hunk_text_lines:
  "list_all (\<lambda>(gap, body). list_all (\<lambda>l. 10 \<notin> set (line_text l)) body) hunks \<Longrightarrow>
     list_all (\<lambda>t. 10 \<notin> set t \<and> \<not> u_startswith t (lit ''diff '')) (hunk_text old_end new_end hunks)"
proof (induction hunks arbitrary: old_end new_end)
  case (Cons h hunks)
  obtain gap body where h: "h = (gap, body)" by fastforce
  have d: "10 \<notin> set (dec n)" for n using dec_digits[of n] by (auto simp: list_all_iff u_digit_def)
  have "10 \<notin> set (hunk_header a b c e) \<and> \<not> u_startswith (hunk_header a b c e) (lit ''diff '')" for a b c e
    using d by (simp add: hunk_header_def lit_eval)
  moreover have "\<not> u_startswith (line_text l) (lit ''diff '')" for l
    by (cases l) (simp_all add: lit_eval)
  ultimately show ?case using Cons by (auto simp: h list_all_iff)
qed simp

lemma plain_path_lf: "plain_path p \<Longrightarrow> 10 \<notin> set p \<and> 10 \<notin> set (name_tab p)"
  by (auto simp: plain_path_def name_tab_def list_all_iff)

lemma change_lines_free:
  assumes "change_ok c"
  shows "10 \<notin> set (change_title c)" "u_startswith (change_title c) (lit ''diff '')"
    "list_all (\<lambda>t. 10 \<notin> set t \<and> \<not> u_startswith t (lit ''diff '')) (change_lines c)"
proof -
  have n: "10 \<notin> set (fst (change_names c))" "10 \<notin> set (snd (change_names c))"
    using assms plain_path_lf by (simp_all add: change_ok_def)
  then show "10 \<notin> set (change_title c)" by (simp add: change_title_def lit_def cp_def)
  show "u_startswith (change_title c) (lit ''diff '')" by (simp add: change_title_def lit_eval)
  have "list_all (\<lambda>t. 10 \<notin> set t \<and> \<not> u_startswith t (lit ''diff '')) (hunk_text 1 1 (change_hunks c))"
    using assms by (intro hunk_text_lines) (simp add: change_ok_def)
  then show "list_all (\<lambda>t. 10 \<notin> set t \<and> \<not> u_startswith t (lit ''diff '')) (change_lines c)"
    using assms plain_path_lf by (cases c) (simp_all add: change_ok_def lit_eval)
qed

lemma parse_section_change:
  assumes "change_ok c"
  shows "parse_section (change_text c) = Inr (change_section c)"
proof -
  have io: "string_io (change_text c) = map with_lf (change_title c # change_lines c)"
    unfolding change_text_def using change_lines_free[OF assms]
    by (intro string_io_lines) (auto simp: list_all_iff)
  have title: "u_startswith (with_lf (change_title c)) (lit ''diff --git '')"
    "u_removesuffix (drop 11 (with_lf (change_title c))) [10] =
       lit ''a/'' @ fst (change_names c) @ lit '' b/'' @ snd (change_names c)"
  proof -
    show "u_startswith (with_lf (change_title c)) (lit ''diff --git '')" by (simp add: change_title_def lit_eval)
    have "drop 11 (with_lf (change_title c)) =
        with_lf (lit ''a/'' @ fst (change_names c) @ lit '' b/'' @ snd (change_names c))"
      by (simp add: change_title_def lit_def)
    then show "u_removesuffix (drop 11 (with_lf (change_title c))) [10] =
       lit ''a/'' @ fst (change_names c) @ lit '' b/'' @ snd (change_names c)"
      by (simp only: removesuffix_snoc)
  qed
  have "hunk_additions (map with_lf (hunk_text 1 1 (change_hunks c))) =
      Inr (join_with [10] (hunk_additions_of (change_hunks c)))"
    using assms by (intro hunk_additions_text) (simp add: change_ok_def)
  then show ?thesis
    unfolding parse_section_def io Let_def list.map list.sel title header_lines_change[OF assms]
      and_then_simps split_conv if_not_P[OF headers_for_valid(1)[OF assms]] section_path_change[OF assms refl]
      if_not_P[OF headers_for_valid(2)[OF assms]]
    using title(1) by (simp add: change_section_def)
qed

lemma parse_fold:
  "fold parse_step chunks r =
     r\<lparr>dp_sections := dp_sections r @ map (projr \<circ> parse_section)
         (filter (\<lambda>p. \<not> u_blank p \<and> \<not> isl (parse_section p)) chunks),
       dp_skipped := (\<lambda>x. dp_skipped r x + length (filter
         (\<lambda>p. \<not> u_blank p \<and> isl (parse_section p) \<and> error_reason (projl (parse_section p)) = x) chunks))\<rparr>"
proof (induction chunks arbitrary: r)
  case (Cons p chunks)
  show ?case
  proof (cases "u_blank p")
    case True
    then have "parse_step p r = r" by (simp add: parse_step_def)
    with True show ?thesis by (simp add: Cons)
  next
    case nb: False
    show ?thesis
    proof (cases "parse_section p")
      case (Inl e)
      then have "parse_step p r = r\<lparr>dp_skipped := ctr_incr (error_reason e) (dp_skipped r)\<rparr>"
        using nb by (simp add: parse_step_def)
      then show ?thesis using Inl nb by (auto simp: Cons fun_eq_iff intro!: diff_parse_result.equality)
    next
      case (Inr sec)
      then have "parse_step p r = r\<lparr>dp_sections := dp_sections r @ [sec]\<rparr>"
        using nb by (simp add: parse_step_def)
      then show ?thesis using Inr nb by (simp add: Cons)
    qed
  qed
qed simp

lemma parse_section_patch: "parse_section p = Inr sec \<Longrightarrow> ds_patch sec = p"
  by (auto simp: parse_section_def Let_def split: if_splits)

section \<open>Accepted hunks\<close>

text \<open>What a hunk line declares or consumes on each side.\<close>

definition line_of :: "ustr \<Rightarrow> ustr" where
  "line_of line = u_removesuffix line [10]"

definition is_added :: "ustr \<Rightarrow> bool" where
  "is_added line = (line_of line \<noteq> [] \<and> hd (line_of line) = 43)"

definition is_body :: "nat \<Rightarrow> ustr \<Rightarrow> bool" where
  "is_body sign line = (line_of line \<noteq> [] \<and> (hd (line_of line) = 32 \<or> hd (line_of line) = sign))"

definition declared :: "(hunk_groups \<Rightarrow> ustr option) \<Rightarrow> ustr \<Rightarrow> int" where
  "declared field line =
     (case match_hunk (line_of line) of
        None \<Rightarrow> 0
      | Some g \<Rightarrow> (case int_of_count (field g) of Inl e \<Rightarrow> 0 | Inr n \<Rightarrow> n))"

lemma match_lit_Some: "match_lit p t = Some rest \<Longrightarrow> t = lit p @ rest"
  unfolding match_lit_def u_startswith_def
  by (metis append_take_drop_id length_map lit_def option.distinct(1) option.inject)

lemma match_hunk_head:
  assumes "match_hunk t = Some g"
  shows "t \<noteq> []" "hd t = 64" "u_startswith t (lit ''@@'')"
proof -
  obtain rest where "match_lit ''@@ -'' t = Some rest"
    using assms by (cases "match_lit ''@@ -'' t") (simp_all add: match_hunk_def)
  then have "t = lit ''@@ -'' @ rest" by (rule match_lit_Some)
  then show "t \<noteq> []" "hd t = 64" "u_startswith t (lit ''@@'')" by (simp_all add: lit_eval)
qed

lemma hunk_line_counts:
  assumes "hunk_line line st = Inr st'"
  shows "hs_added st' = hs_added st @ (if is_added line then [tl (line_of line)] else [])"
    "hs_old_remaining st' = hs_old_remaining st + declared hg_old_count line - (if is_body 45 line then 1 else 0)"
    "hs_new_remaining st' = hs_new_remaining st + declared hg_new_count line - (if is_body 43 line then 1 else 0)"
proof -
  define t where "t = line_of line"
  note defs = is_added_def is_body_def declared_def t_def[symmetric]
  have L: "hunk_line line st =
      (if t = NO_NEWLINE
       then (if hs_previous_body st then Inr (st\<lparr>hs_previous_body := False\<rparr>) else Inl invalid_section)
       else if u_startswith t (lit ''@@'')
       then (if hs_old_remaining st \<noteq> 0 \<or> hs_new_remaining st \<noteq> 0 then Inl invalid_section
             else case match_hunk t of None \<Rightarrow> Inl invalid_section | Some g \<Rightarrow> open_hunk g st)
       else body_line t st)"
    by (simp add: hunk_line_def line_of_def t_def)
  consider (nn) "t = NO_NEWLINE" | (hd) "t \<noteq> NO_NEWLINE" "u_startswith t (lit ''@@'')"
    | (bd) "t \<noteq> NO_NEWLINE" "\<not> u_startswith t (lit ''@@'')" by blast
  then have "hs_added st' = hs_added st @ (if is_added line then [tl t] else [])
    \<and> hs_old_remaining st' = hs_old_remaining st + declared hg_old_count line - (if is_body 45 line then 1 else 0)
    \<and> hs_new_remaining st' = hs_new_remaining st + declared hg_new_count line - (if is_body 43 line then 1 else 0)"
  proof cases
    case nn
    then have "t \<noteq> []" "hd t = 92" by (simp_all add: NO_NEWLINE_def)
    moreover from this have "match_hunk t = None" using match_hunk_head(2)[of t] by (cases "match_hunk t") auto
    ultimately show ?thesis using nn assms L by (auto simp: defs split: if_splits)
  next
    case hd
    then obtain g where g: "match_hunk t = Some g" and o: "open_hunk g st = Inr st'"
      and z: "hs_old_remaining st = 0" "hs_new_remaining st = 0"
      using assms L by (auto split: if_splits option.splits)
    from o have "hs_added st' = hs_added st" "int_of_count (hg_old_count g) = Inr (hs_old_remaining st')"
      "int_of_count (hg_new_count g) = Inr (hs_new_remaining st')"
      by (auto simp: open_hunk_def Let_def split: if_splits)
    with g z match_hunk_head[OF g] show ?thesis by (simp add: defs)
  next
    case bd
    then have b: "body_line t st = Inr st'" using assms L by simp
    then have ne: "t \<noteq> []" by (auto simp: body_line_def)
    have "match_hunk t = None" using match_hunk_head(3)[of t] bd(2) by (cases "match_hunk t") auto
    with b ne show ?thesis by (auto simp: body_line_def defs split: if_splits)
  qed
  then show "hs_added st' = hs_added st @ (if is_added line then [tl (line_of line)] else [])"
    "hs_old_remaining st' = hs_old_remaining st + declared hg_old_count line - (if is_body 45 line then 1 else 0)"
    "hs_new_remaining st' = hs_new_remaining st + declared hg_new_count line - (if is_body 43 line then 1 else 0)"
    unfolding t_def by simp_all
qed

lemma hunk_lines_counts:
  assumes "hunk_lines lines st = Inr st'"
  shows "hs_added st' = hs_added st @ map (tl \<circ> line_of) (filter is_added lines)
    \<and> hs_old_remaining st' + int (length (filter (is_body 45) lines))
        = hs_old_remaining st + sum_list (map (declared hg_old_count) lines)
    \<and> hs_new_remaining st' + int (length (filter (is_body 43) lines))
        = hs_new_remaining st + sum_list (map (declared hg_new_count) lines)"
  using assms
proof (induction lines arbitrary: st)
  case (Cons line lines)
  then obtain st1 where st1: "hunk_line line st = Inr st1" "hunk_lines lines st1 = Inr st'" by auto
  show ?case using Cons.IH[OF st1(2)] hunk_line_counts[OF st1(1)] by auto
qed simp

lemma diff_text_sections:
  assumes "list_all change_ok changes"
  shows "dp_sections (parse_diff_sections (diff_text changes)) = map change_section changes
    \<and> dp_skipped (parse_diff_sections (diff_text changes)) = ctr_empty"
proof -
  let ?groups = "map (\<lambda>c. (with_lf (change_title c), map with_lf (change_lines c))) changes"
  have start: "u_startswith (with_lf t) (lit ''diff '') \<longleftrightarrow> u_startswith t (lit ''diff '')" if "10 \<notin> set t" for t
    by (cases "length t < 5") (auto simp: u_startswith_def lit_def cp_def take_Cons' split: if_splits
        dest!: arg_cong[where f = length] arg_cong[where f = "\<lambda>x. 10 \<in> set x"])
  have g: "list_all (\<lambda>(h, body). u_startswith h (lit ''diff '')
      \<and> list_all (\<lambda>l. \<not> u_startswith l (lit ''diff '')) body) ?groups"
    using assms change_lines_free start by (auto simp: list_all_iff)
  have printed: "diff_text changes = concat (map with_lf (concat (map (\<lambda>c. change_title c # change_lines c) changes)))"
    by (induction changes) (simp_all add: diff_text_def change_text_def)
  have io: "string_io (diff_text changes) = concat (map (\<lambda>(h, body). h # body) ?groups)"
  proof -
    have "list_all (\<lambda>t. 10 \<notin> set t) (concat (map (\<lambda>c. change_title c # change_lines c) changes))"
      using assms change_lines_free by (auto simp: list_all_iff)
    then show ?thesis unfolding printed by (subst string_io_lines) (simp_all add: map_concat comp_def)
  qed
  have cut: "cut_sections (string_io (diff_text changes)) [] = map change_text changes"
  proof (cases ?groups)
    case Nil
    then show ?thesis by (simp add: diff_text_def string_io.simps)
  next
    case (Cons hb groups)
    obtain h body where hb: "hb = (h, body)" by fastforce
    have "cut_sections (string_io (diff_text changes)) [] = map (\<lambda>(h, body). concat (h # body)) ?groups"
      using g cut_sections_groups[of groups "h # body"] unfolding io Cons hb
      by (simp add: cut_sections_body)
    then show ?thesis by (simp add: change_text_def comp_def)
  qed
  have ok: "\<not> u_blank (change_text c)" "parse_section (change_text c) = Inr (change_section c)"
    if "c \<in> set changes" for c
    using that assms parse_section_change[of c]
    by (auto simp: list_all_iff change_text_def change_title_def u_blank_def lit_def cp_def u_isspace_def)
  have "filter (\<lambda>p. \<not> u_blank p \<and> \<not> isl (parse_section p)) (map change_text changes) = map change_text changes"
    "filter (\<lambda>p. \<not> u_blank p \<and> isl (parse_section p) \<and> Q p) (map change_text changes) = []" for Q
    using ok by (auto simp: filter_id_conv filter_empty_conv)
  then show ?thesis
    unfolding parse_diff_sections_def cut parse_fold using ok by (simp add: ctr_empty_def)
qed

section \<open>Properties\<close>


text \<open>Whatever the input, the cut sections concatenate to the diff, each section that is not
  blank yields either one parsed section, carrying its exact patch text, in wire order, or one
  counted diagnostic; none is dropped or split.\<close>

theorem diff_sections_accounted:
  "concat (cut_sections (string_io raw_diff) []) = raw_diff
   \<and> length (dp_sections (parse_diff_sections raw_diff))
       + dp_skipped (parse_diff_sections raw_diff) unsupported_diff_section
       + dp_skipped (parse_diff_sections raw_diff) malformed_diff_section
     = length (filter (\<lambda>p. \<not> u_blank p) (cut_sections (string_io raw_diff) []))
   \<and> map ds_patch (dp_sections (parse_diff_sections raw_diff))
     = filter (\<lambda>p. \<not> u_blank p \<and> \<not> isl (parse_section p)) (cut_sections (string_io raw_diff) [])"
proof -
  let ?cs = "cut_sections (string_io raw_diff) []"
  have "map ds_patch (map (projr \<circ> parse_section) (filter (\<lambda>p. \<not> u_blank p \<and> \<not> isl (parse_section p)) cs))
      = filter (\<lambda>p. \<not> u_blank p \<and> \<not> isl (parse_section p)) cs" for cs
    unfolding map_map
  proof (rule map_idI)
    fix p assume "p \<in> set (filter (\<lambda>p. \<not> u_blank p \<and> \<not> isl (parse_section p)) cs)"
    then show "(ds_patch \<circ> (projr \<circ> parse_section)) p = p"
      using parse_section_patch[of p] by (cases "parse_section p") auto
  qed
  moreover have "length (filter (\<lambda>p. \<not> u_blank p \<and> \<not> isl (parse_section p)) cs)
      + length (filter (\<lambda>p. \<not> u_blank p \<and> isl (parse_section p) \<and> error_reason (projl (parse_section p)) = unsupported_diff_section) cs)
      + length (filter (\<lambda>p. \<not> u_blank p \<and> isl (parse_section p) \<and> error_reason (projl (parse_section p)) = malformed_diff_section) cs)
      = length (filter (\<lambda>p. \<not> u_blank p) cs)" for cs
  proof (induction cs)
    case (Cons p cs)
    then show ?case by (cases "error_reason (projl (parse_section p))") auto
  qed simp
  ultimately show ?thesis
    unfolding parse_diff_sections_def parse_fold concat_cut_sections concat_string_io by simp
qed

text \<open>Git's C quoting is inverted: a quoted path, with or without \<open>core.quotePath\<close>, decodes to
  the original path for every non-empty sequence of Unicode scalar values without NUL, and a path
  without control characters, quotes and backslashes reads as itself.\<close>

theorem git_path_unquotes:
  assumes "p \<noteq> []" "0 \<notin> set p" "list_all scalar_value p"
  shows "git_path (c_quote quote_path p) = Inr p \<and> (plain_path p \<longrightarrow> git_path p = Inr p)"
  using git_path_quoted[OF assms] git_path_plain by blast

text \<open>If the hunks of a section are accepted, the additions are exactly the lines starting with
  a plus sign, in order and without the sign, and on each side the line counts the hunk headers
  declare add up to the context and changed lines present.\<close>

theorem hunk_additions_sound:
  assumes "hunk_additions lines = Inr added"
  shows "added = join_with [10] (map (tl \<circ> line_of) (filter is_added lines))
    \<and> int (length (filter (is_body 45) lines)) = sum_list (map (declared hg_old_count) lines)
    \<and> int (length (filter (is_body 43) lines)) = sum_list (map (declared hg_new_count) lines)"
proof -
  obtain st where st: "hunk_lines lines hunk_start = Inr st"
    "hs_old_remaining st = 0" "hs_new_remaining st = 0" "added = join_with [10] (hs_added st)"
    using assms by (auto simp: hunk_additions_def split: if_splits)
  then show ?thesis using hunk_lines_counts[OF st(1)] by (simp add: hunk_start_def)
qed

section \<open>Witnesses\<close>

definition sample_change :: file_change where
  "sample_change = Modify (lit ''a b.py'') [(0, [Context (lit ''x''), Removed (lit ''y''), Added (lit ''z'')])]"

lemma sample_change_ok: "change_ok sample_change"
  by (simp add: change_ok_def sample_change_def plain_path_def readable_def diff_size_def dec.simps lit_def cp_def)


theorem git_path_unquotes_witness:
  "git_path (c_quote True [97, 47, 233, 9]) = Inr [97, 47, 233, 9]"
  using git_path_unquotes[of "[97, 47, 233, 9]" True] by (simp add: scalar_value_def)

lemma sample_hunks:
  "hunk_additions (map with_lf (hunk_text 1 1 (change_hunks sample_change))) = Inr (lit ''z'')"
  using hunk_additions_text[of "change_hunks sample_change"]
  by (simp add: sample_change_def hunk_additions_of_def readable_def diff_size_def dec.simps)

theorem hunk_additions_sound_witness:
  "lit ''z'' = join_with [10] (map (tl \<circ> line_of) (filter is_added
     (map with_lf (hunk_text 1 1 (change_hunks sample_change)))))"
  using hunk_additions_sound[OF sample_hunks] by blast

end
