(* ===== verification/Attribution.thy ===== *)
theory Attribution
  imports Session_Commit Inference_Call Git_Diff Split
begin

text \<open>
  \<open>packages/derive/sediment_derive/attribution.py\<close> with the context read it starts from
  (\<open>repository_context.py\<close>) and the commit enumeration of a push (\<open>mirror.py\<close>): the join of
  committed files to inference calls, git notes first and token similarity second.

  Git and PostgreSQL answer queries; \<open>repo_mirror\<close> and \<open>snapshot\<close> hold those answers: what
  \<open>git rev-list\<close>, the diffs, the notes, the ancestry tests and the committer time of a commit return
  (\<open>None\<close> where the command fails and the code sees a \<open>MirrorError\<close>), and the rows each store query
  selects, which may raise where the query has a row or byte limit. Everything computed from the answers is defined here. A push of
  the store's \<open>AttributionPush\<close> projection is a \<open>push\<close>; capture times are read in UTC, so a shift
  beyond the representable range raises \<open>OverflowError\<close>. \<open>skipped\<close> counts by \<open>attribution_skip\<close>,
  one constructor per string the code uses; a repository decline carries its reason, which the code
  also reads where the resolution named another repository and has none.
\<close>

section \<open>Policies\<close>

datatype attribution_source = GIT_NOTES | JACCARD

record similarity_policy =
  sp_min_similarity :: rat
  sp_lookback_window_minutes :: int

definition similarity_policy_ok :: "similarity_policy \<Rightarrow> bool" where
  "similarity_policy_ok p =
     (0 \<le> sp_min_similarity p \<and> sp_min_similarity p \<le> 1 \<and> 0 < sp_lookback_window_minutes p)"

definition git_notes_policy :: similarity_policy where
  "git_notes_policy = \<lparr>sp_min_similarity = fl64 (3 / 10), sp_lookback_window_minutes = 10080\<rparr>"

definition jaccard_policy :: similarity_policy where
  "jaccard_policy = \<lparr>sp_min_similarity = fl64 (7 / 10), sp_lookback_window_minutes = 60\<rparr>"

record attribution_policy =
  ap_post_push_grace_period_minutes :: int
  ap_max_commits_per_push :: int
  ap_git_notes :: similarity_policy
  ap_jaccard :: similarity_policy
  ap_policy_version :: string

definition attribution_policy_ok :: "attribution_policy \<Rightarrow> bool" where
  "attribution_policy_ok p =
     (0 \<le> ap_post_push_grace_period_minutes p \<and> 0 < ap_max_commits_per_push p
      \<and> similarity_policy_ok (ap_git_notes p) \<and> similarity_policy_ok (ap_jaccard p))"

definition default_attribution_policy :: attribution_policy where
  "default_attribution_policy =
     \<lparr>ap_post_push_grace_period_minutes = 10, ap_max_commits_per_push = 20,
      ap_git_notes = git_notes_policy, ap_jaccard = jaccard_policy, ap_policy_version = ''3''\<rparr>"

record attribution =
  at_org_id :: string
  at_repo :: "string option"
  at_commit_sha :: string
  at_file_path :: ustr
  at_inference_call_id :: string
  at_session_id :: string
  at_similarity_score :: rat
  at_attribution_source :: attribution_source
  at_provenance :: provenance
  at_repository_identity :: "repository_identity option"
  at_source_push_id :: "string option"

datatype attribution_skip = IdentitySkip "identity_skip_reason option" | DiffSkip diff_skip_reason
  | mirror_absent | no_inference_call_candidates | commit_diff_unavailable | no_code_diff | no_match

record attribution_result =
  ar_attributions :: "attribution list"
  ar_skipped :: "attribution_skip counter"

section \<open>What Git and the store answer\<close>

record repo_mirror =
  rm_rev_list :: "string \<Rightarrow> string \<Rightarrow> int \<Rightarrow> string list option"
  rm_commit_diff :: "string \<Rightarrow> ustr option"
  rm_note_sessions :: "string \<Rightarrow> string set option"
  rm_heads_precede :: "string \<Rightarrow> string list \<Rightarrow> bool"
  rm_commit_exists :: "string \<Rightarrow> bool"
  rm_is_ancestor :: "string \<Rightarrow> string \<Rightarrow> bool option"
  rm_diff_range :: "string \<Rightarrow> string \<Rightarrow> ustr option"
  rm_notes_list :: "string option"
  rm_commit_time :: "string \<Rightarrow> string option"

type_synonym mirrors = "repository_key \<Rightarrow> repo_mirror option"

text \<open>\<open>InferenceCallSummary\<close>, by the fields the derivations read.\<close>

record call_summary =
  cs_id :: string
  cs_session_id :: string
  cs_observed_at :: instant

record snapshot =
  sn_identities :: "instant \<Rightarrow> identity_evidence list result"
  sn_renames :: "instant \<Rightarrow> repository_rename list result"
  sn_quarantine_revision :: int
  sn_pushes :: "push list"
  sn_attribution_pushes :: "instant \<Rightarrow> read_key \<Rightarrow> push list"
  sn_candidates :: "instant \<times> instant \<Rightarrow> inference_call list"
  sn_note_candidates :: "instant \<times> instant \<Rightarrow> string set \<Rightarrow> instant \<times> instant \<Rightarrow> inference_call list"
  sn_observations :: "instant \<Rightarrow> session_commit_observation list"
  sn_call_summaries :: "nat option \<Rightarrow> call_summary list result"
  sn_session_calls :: "string \<Rightarrow> instant option \<Rightarrow> inference_call list result"
  sn_decisions :: "developer_decision list"
  sn_decisions_by_ids :: "string set \<Rightarrow> developer_decision list"
  sn_ci_outcomes :: "instant option \<Rightarrow> nat option \<Rightarrow> ci_outcome list result"
  sn_ci_outcomes_by_ids :: "string set \<Rightarrow> ci_outcome list"

text \<open>\<open>RepoMirror.list_push_commits\<close>: oldest first; a forced push, a branch creation and an
  unenumerable range give the head alone.\<close>

definition all_zero :: "string \<Rightarrow> bool" where
  "all_zero sha = list_all (\<lambda>c. c = CHR ''0'') sha"

definition list_push_commits :: "repo_mirror \<Rightarrow> push \<Rightarrow> int \<Rightarrow> string list" where
  "list_push_commits mirror push max_commits =
     (if pu_forced push \<or> all_zero (pu_before_sha push) then [pu_after_sha push]
      else case rm_rev_list mirror (pu_before_sha push) (pu_after_sha push) (max 1 max_commits) of
        None \<Rightarrow> [pu_after_sha push]
      | Some revs \<Rightarrow> if revs = [] then [pu_after_sha push] else rev revs)"

section \<open>Reading the repository context\<close>

datatype time_bound = NoBound | NaiveBound | Bound instant

definition utc_spelled :: "identity_evidence \<Rightarrow> identity_evidence result" where
  "utc_spelled row =
     bind_result (as_utc (ev_captured_at row)) (\<lambda>t.
       Inr (row\<lparr>ev_captured_at := t, ev_captured_spelling := ([], [], 0)\<rparr>))"

definition latest_capture :: "string \<Rightarrow> identity_evidence list \<Rightarrow> repository_rename list \<Rightarrow> instant result" where
  "latest_capture org_id evidence renames =
     bind_result (v_map as_utc (map ev_captured_at (filter (\<lambda>r. ev_org_id r = org_id) evidence)
         @ map rr_captured_at (filter (\<lambda>r. rr_org_id r = org_id) renames))) (\<lambda>times.
       Inr (if times = [] then UTC_MIN else Max (set times)))"

definition is_legacy_evidence :: "identity_evidence \<Rightarrow> bool" where
  "is_legacy_evidence item =
     (ev_repository_provider item = None \<and> ev_repository_host item = None \<and> ev_repository_id item = None)"

definition read_repository_context ::
  "snapshot \<Rightarrow> string \<Rightarrow> time_bound \<Rightarrow> identity_evidence result list \<Rightarrow> repository_context result" where
  "read_repository_context snapshot org_id as_of supplemental =
     (if as_of = NaiveBound then Inl (ValueError ''as_of must be an aware datetime'')
      else
      let through = (case as_of of Bound t \<Rightarrow> t | _ \<Rightarrow> UTC_MAX)
      in bind_result (sn_identities snapshot through) (\<lambda>evidence.
         bind_result (sn_renames snapshot through) (\<lambda>renames.
         bind_result (v_map id (take (REPOSITORY_IDENTITY_LIMIT + 1) supplemental)) (\<lambda>supplements.
         if length supplements > REPOSITORY_IDENTITY_LIMIT
         then Inl (LimitExceeded ''repository identity supplement population exceeds limit'')
         else
         bind_result (v_map (\<lambda>row. repository_identity_evidence_of (ProjectedEvidence row) fact_spelling (ev_role row))
             supplements) (\<lambda>supplements.
         if list_ex (\<lambda>item. \<not> is_legacy_evidence item) supplements
         then Inl (ValueError ''repository supplements must be legacy evidence'')
         else
         bind_result (v_map utc_spelled evidence) (\<lambda>stored.
         bind_result (v_map (\<lambda>row. bind_result (utc_spelled row) (\<lambda>u. Inr (row, u))) supplements) (\<lambda>spelled.
         let evidence = evidence @ map fst (filter (\<lambda>(row, u). u \<notin> set stored) spelled)
         in bind_result (case as_of of Bound t \<Rightarrow> Inr t | _ \<Rightarrow> latest_capture org_id evidence renames) (\<lambda>boundary.
            build_repository_context evidence renames org_id (Some boundary)))))))))"

section \<open>Matching one file\<close>

type_synonym candidate = "inference_call \<times> string set"
type_synonym token_score = "string set \<Rightarrow> string set \<Rightarrow> rat"

definition candidate_of_call :: "inference_call \<Rightarrow> candidate" where
  "candidate_of_call call = (call, tokenize (render_scoring_text call))"

text \<open>\<open>moment + timedelta(minutes=m)\<close>\<close>

definition shift_minutes :: "instant \<Rightarrow> int \<Rightarrow> instant result" where
  "shift_minutes moment m = as_utc (moment + m * 60000000)"

definition window_bounds :: "push \<Rightarrow> int \<Rightarrow> attribution_policy \<Rightarrow> (instant \<times> instant) result" where
  "window_bounds push minutes policy =
     bind_result (shift_minutes (pu_captured_at push) (- minutes)) (\<lambda>lo.
     bind_result (shift_minutes (pu_captured_at push) (ap_post_push_grace_period_minutes policy)) (\<lambda>hi.
       Inr (lo, hi)))"

definition window ::
  "candidate list \<Rightarrow> push \<Rightarrow> int \<Rightarrow> attribution_policy \<Rightarrow> candidate list result" where
  "window candidates push minutes policy =
     bind_result (window_bounds push minutes policy) (\<lambda>(lo, hi).
       Inr (filter (\<lambda>(call, tokens). lo \<le> inference_observed_at call \<and> inference_observed_at call \<le> hi) candidates))"

definition call_order :: "inference_call \<Rightarrow> instant \<times> string" where
  "call_order call = (inference_observed_at call, ic_id call)"

definition best_step ::
  "string set \<Rightarrow> rat \<Rightarrow> token_score \<Rightarrow> candidate \<Rightarrow> (inference_call \<times> rat) option
   \<Rightarrow> (inference_call \<times> rat) option" where
  "best_step diff_tokens min_score scorer = (\<lambda>(completion, tokens) best.
     let score = scorer tokens diff_tokens
     in if score \<le> 0 \<or> score < min_score then best
        else case best of
          None \<Rightarrow> Some (completion, score)
        | Some (b, best_score) \<Rightarrow>
            if score > best_score \<or> (score = best_score \<and> call_order completion < call_order b)
            then Some (completion, score) else best)"

definition best_match ::
  "candidate list \<Rightarrow> string set \<Rightarrow> rat \<Rightarrow> token_score \<Rightarrow> (inference_call \<times> rat) option" where
  "best_match candidates diff_tokens min_score scorer = fold (best_step diff_tokens min_score scorer) candidates None"

section \<open>Attributing one commit\<close>

text \<open>Tokens are ASCII, so any other code point separates them.\<close>

definition tokenize_text :: "ustr \<Rightarrow> string set" where
  "tokenize_text t = tokenize (map (\<lambda>c. if c < 128 then char_of c else CHR 0x00) t)"

definition scored_files :: "diff_parse_result \<Rightarrow> (diff_section \<times> string set) list" where
  "scored_files parsed =
     map (\<lambda>fd. (fd, tokenize_text (ds_added_lines fd)))
       (filter (\<lambda>fd. is_code_file (ds_file_path fd) \<and> \<not> u_blank (ds_added_lines fd)) (dp_sections parsed))"

definition add_diff_skips :: "diff_parse_result \<Rightarrow> attribution_skip counter \<Rightarrow> attribution_skip counter" where
  "add_diff_skips parsed skipped =
     (\<lambda>r. skipped r + (case r of DiffSkip d \<Rightarrow> dp_skipped parsed d | _ \<Rightarrow> 0))"

definition file_match ::
  "attribution_policy \<Rightarrow> token_score \<Rightarrow> candidate list \<Rightarrow> candidate list \<Rightarrow> string set
   \<Rightarrow> (attribution_source \<times> inference_call \<times> rat) option" where
  "file_match policy scorer session_candidates org_candidates diff_tokens =
     (case best_match session_candidates diff_tokens (sp_min_similarity (ap_git_notes policy)) scorer of
        Some (completion, score) \<Rightarrow> Some (GIT_NOTES, completion, score)
      | None \<Rightarrow>
          (case best_match org_candidates diff_tokens (sp_min_similarity (ap_jaccard policy)) scorer of
             Some (completion, score) \<Rightarrow> Some (JACCARD, completion, score)
           | None \<Rightarrow> None))"

definition new_attribution ::
  "push \<Rightarrow> string \<Rightarrow> provenance \<Rightarrow> repository_resolution \<Rightarrow> diff_section
   \<Rightarrow> attribution_source \<times> inference_call \<times> rat \<Rightarrow> attribution" where
  "new_attribution push commit_sha provenance resolution sec = (\<lambda>(source, completion, score).
     \<lparr>at_org_id = pu_org_id push, at_repo = rs_repo resolution, at_commit_sha = commit_sha,
      at_file_path = ds_file_path sec, at_inference_call_id = ic_id completion,
      at_session_id = ic_session_id completion, at_similarity_score = score,
      at_attribution_source = source, at_provenance = provenance,
      at_repository_identity =
        (case rs_key resolution of Some (IdentifiedRepositoryKey org i) \<Rightarrow> Some i | _ \<Rightarrow> None),
      at_source_push_id = Some (pu_id push)\<rparr>)"

definition file_step ::
  "attribution_policy \<Rightarrow> token_score \<Rightarrow> candidate list \<Rightarrow> candidate list
   \<Rightarrow> (diff_section \<Rightarrow> attribution_source \<times> inference_call \<times> rat \<Rightarrow> attribution)
   \<Rightarrow> diff_section \<times> string set \<Rightarrow> attribution_result \<Rightarrow> attribution_result" where
  "file_step policy scorer session_candidates org_candidates build = (\<lambda>(fd, diff_tokens) r.
     case file_match policy scorer session_candidates org_candidates diff_tokens of
       None \<Rightarrow> r\<lparr>ar_skipped := ctr_incr no_match (ar_skipped r)\<rparr>
     | Some best \<Rightarrow> r\<lparr>ar_attributions := ar_attributions r @ [build fd best]\<rparr>)"

text \<open>The sessions a commit is stamped with: given, or read from its note.\<close>

definition stamped_sessions :: "repo_mirror \<Rightarrow> string \<Rightarrow> string set option \<Rightarrow> string set" where
  "stamped_sessions mirror commit_sha note_session_ids =
     (case note_session_ids of
        Some ids \<Rightarrow> ids
      | None \<Rightarrow> (case rm_note_sessions mirror commit_sha of Some ids \<Rightarrow> ids | None \<Rightarrow> {}))"

definition no_diff_skips :: "diff_parse_result \<Rightarrow> bool" where
  "no_diff_skips parsed =
     (dp_skipped parsed unsupported_diff_section = 0 \<and> dp_skipped parsed malformed_diff_section = 0)"

text \<open>It appends its attributions to the result it is given.\<close>

definition attribute_commit ::
  "repo_mirror \<Rightarrow> push \<Rightarrow> string \<Rightarrow> candidate list \<Rightarrow> candidate list \<Rightarrow> attribution_policy
   \<Rightarrow> provenance \<Rightarrow> token_score \<Rightarrow> repository_resolution \<Rightarrow> string set option
   \<Rightarrow> attribution_result \<Rightarrow> attribution_result" where
  "attribute_commit mirror push commit_sha org_candidates git_notes_candidates policy provenance
     scorer resolution note_session_ids r =
     (case rm_commit_diff mirror commit_sha of
        None \<Rightarrow> r\<lparr>ar_skipped := ctr_incr commit_diff_unavailable (ar_skipped r)\<rparr>
      | Some raw_diff \<Rightarrow>
          let parsed = parse_diff_sections raw_diff;
              r = r\<lparr>ar_skipped := add_diff_skips parsed (ar_skipped r)\<rparr>;
              files = scored_files parsed
          in if files = []
             then (if no_diff_skips parsed then r\<lparr>ar_skipped := ctr_incr no_code_diff (ar_skipped r)\<rparr> else r)
             else
               let session_ids = stamped_sessions mirror commit_sha note_session_ids;
                   session_candidates = filter (\<lambda>(c, t). ic_session_id c \<in> session_ids) git_notes_candidates
               in fold (file_step policy scorer session_candidates org_candidates
                     (new_attribution push commit_sha provenance resolution)) files r)"

section \<open>Deriving an organization's attributions\<close>

definition order_pushes :: "push list \<Rightarrow> push list" where
  "order_pushes pushes = sort_key (\<lambda>p. (pu_captured_at p, pu_id p)) pushes"

text \<open>The pushes in scope; the sort key converts every capture time to UTC.\<close>

definition scope_pushes :: "string \<Rightarrow> instant option \<Rightarrow> push list \<Rightarrow> push list result" where
  "scope_pushes org_id as_of pushes =
     bind_result (v_map (\<lambda>p. bind_result (as_utc (pu_captured_at p)) (\<lambda>_. Inr p))
         (filter (\<lambda>p. pu_org_id p = org_id) pushes)) (\<lambda>pushes.
       Inr (order_pushes (filter (\<lambda>p. case as_of of None \<Rightarrow> True | Some t \<Rightarrow> pu_captured_at p \<le> t) pushes)))"

definition resolve_push :: "repository_context \<Rightarrow> bool \<Rightarrow> push \<Rightarrow> repository_resolution" where
  "resolve_push ctx preloaded_without_context push =
     (if preloaded_without_context \<and> rf_repository_id push \<noteq> None
      then declined repository_identity_unresolved
      else resolve_fact ctx (PushFact push) fact_spelling REPO)"

definition scope_candidates ::
  "snapshot \<Rightarrow> push list \<Rightarrow> attribution_policy \<Rightarrow> candidate list result" where
  "scope_candidates snapshot pushes policy =
     (let widest = max (sp_lookback_window_minutes (ap_jaccard policy))
            (sp_lookback_window_minutes (ap_git_notes policy));
          times = set (map pu_captured_at pushes)
      in bind_result (shift_minutes (Min times) (- widest)) (\<lambda>lo.
         bind_result (shift_minutes (Max times) (ap_post_push_grace_period_minutes policy)) (\<lambda>hi.
           Inr (map candidate_of_call (sn_candidates snapshot (lo, hi))))))"

definition eligible_candidates ::
  "string \<Rightarrow> instant option \<Rightarrow> candidate list \<Rightarrow> candidate list result" where
  "eligible_candidates org_id as_of candidates =
     (let mine = filter (\<lambda>(call, tokens). ic_org_id call = org_id) candidates
      in case as_of of
        None \<Rightarrow> Inr mine
      | Some t \<Rightarrow>
          bind_result (v_map (\<lambda>c. bind_result (as_utc (inference_observed_at (fst c))) (\<lambda>_. Inr c)) mine) (\<lambda>mine.
            Inr (filter (\<lambda>(call, tokens). inference_observed_at call \<le> t) mine)))"

type_synonym note_map = "(commit_key \<times> string set) list"

definition resolve_note ::
  "repository_context \<Rightarrow> string \<Rightarrow> (string \<times> string) \<times> string set
   \<Rightarrow> identity_skip_reason option + commit_key \<times> string set" where
  "resolve_note ctx org_id = (\<lambda>((repo, sha), sessions).
     let resolution = resolve_reference ctx org_id repo None
     in case rs_key resolution of
       None \<Rightarrow> Inl (rs_reason resolution)
     | Some key \<Rightarrow>
         (case new_commit_key key sha of
            Inl _ \<Rightarrow> Inl (Some repository_identity_unresolved)
          | Inr commit \<Rightarrow> Inr (commit, sessions)))"

definition conflicting_notes :: "string set list \<Rightarrow> bool" where
  "conflicting_notes entries = list_ex (\<lambda>sessions. sessions \<noteq> hd entries) (tl entries)"

definition count_note :: "identity_skip_reason option + 'a \<Rightarrow> attribution_skip counter \<Rightarrow> attribution_skip counter" where
  "count_note r skipped = (case r of Inl reason \<Rightarrow> ctr_incr (IdentitySkip reason) skipped | Inr _ \<Rightarrow> skipped)"

definition qualify_legacy_note_sessions ::
  "((string \<times> string) \<times> string set) list \<Rightarrow> repository_context \<Rightarrow> string
   \<Rightarrow> note_map \<times> attribution_skip counter" where
  "qualify_legacy_note_sessions notes ctx org_id =
     (let outcomes = map (resolve_note ctx org_id) notes;
          grouped = group_by fst (map projr (filter (\<lambda>r. \<not> isl r) outcomes));
          skipped = fold count_note outcomes ctr_empty;
          entries = map (\<lambda>(key, rows). (key, map snd rows)) grouped
      in (map (\<lambda>(key, es). (key, hd es)) (filter (\<lambda>(key, es). \<not> conflicting_notes es) entries),
          fold (\<lambda>(key, es). ctr_add (IdentitySkip (Some repository_identity_conflict)) (length es))
            (filter (\<lambda>(key, es). conflicting_notes es) entries) skipped))"

definition captured_note_map :: "(commit_edge \<times> session_commit_observation list) list \<Rightarrow> note_map" where
  "captured_note_map bindings =
     map (\<lambda>(commit, edges). (commit, set (map snd edges))) (group_by fst (map fst bindings))"

definition is_identified :: "repository_key option \<Rightarrow> bool" where
  "is_identified k = (case k of Some (IdentifiedRepositoryKey org i) \<Rightarrow> True | _ \<Rightarrow> False)"

definition note_sessions_for ::
  "note_map option \<Rightarrow> note_map \<Rightarrow> repository_resolution \<Rightarrow> commit_key \<Rightarrow> string set option" where
  "note_sessions_for qualified captured resolved commit =
     (case qualified of
        Some notes \<Rightarrow> Some (dict_get notes commit {})
      | None \<Rightarrow> if is_identified (rs_key resolved) then Some (dict_get captured commit {}) else None)"

record attribution_walk =
  aw_seen :: "commit_key set"
  aw_result :: attribution_result

definition commit_step ::
  "(commit_key \<Rightarrow> string \<Rightarrow> attribution_result \<Rightarrow> attribution_result) \<Rightarrow> repository_key \<Rightarrow> string
   \<Rightarrow> attribution_walk \<Rightarrow> attribution_walk result" where
  "commit_step attribute key sha w =
     bind_result (new_commit_key key sha) (\<lambda>commit.
       if commit \<in> aw_seen w then Inr w
       else Inr \<lparr>aw_seen = insert commit (aw_seen w), aw_result = attribute commit sha (aw_result w)\<rparr>)"

definition push_step ::
  "mirrors \<Rightarrow> attribution_policy \<Rightarrow> provenance \<Rightarrow> token_score \<Rightarrow> candidate list \<Rightarrow> note_map option
   \<Rightarrow> note_map \<Rightarrow> push \<times> repository_resolution \<Rightarrow> attribution_walk \<Rightarrow> attribution_walk result" where
  "push_step mirrors policy provenance scorer candidates qualified captured = (\<lambda>(push, resolved) w.
     case mirrors (the (rs_key resolved)) of
       None \<Rightarrow> Inr (w\<lparr>aw_result := (aw_result w)
         \<lparr>ar_skipped := ctr_incr mirror_absent (ar_skipped (aw_result w))\<rparr>\<rparr>)
     | Some mirror \<Rightarrow>
         bind_result (window candidates push (sp_lookback_window_minutes (ap_jaccard policy)) policy) (\<lambda>org_candidates.
         bind_result (window candidates push (sp_lookback_window_minutes (ap_git_notes policy)) policy) (\<lambda>git_notes_candidates.
           fold_result
             (commit_step (\<lambda>commit sha. attribute_commit mirror push sha org_candidates git_notes_candidates
                policy provenance scorer resolved (note_sessions_for qualified captured resolved commit))
              (the (rs_key resolved)))
             (list_push_commits mirror push (ap_max_commits_per_push policy)) w)))"

definition decline_push ::
  "push \<times> repository_resolution \<Rightarrow> attribution_skip counter \<Rightarrow> attribution_skip counter" where
  "decline_push = (\<lambda>(push, resolved) skipped.
     if rs_key resolved = None then ctr_incr (IdentitySkip (rs_reason resolved)) skipped else skipped)"

definition lift_identity_skips :: "identity_skip_reason counter \<Rightarrow> attribution_skip counter" where
  "lift_identity_skips c = (\<lambda>r. case r of IdentitySkip (Some reason) \<Rightarrow> c reason | _ \<Rightarrow> 0)"

text \<open>The captured Session-to-commit bindings, read only when a push is identified and no note map
  was given.\<close>

definition captured_notes ::
  "snapshot \<Rightarrow> string \<Rightarrow> repository_context \<Rightarrow> note_map option \<Rightarrow> (push \<times> repository_resolution) list
   \<Rightarrow> (note_map \<times> attribution_skip counter) result" where
  "captured_notes snapshot org_id ctx qualified resolved_pushes =
     (if qualified = None \<and> list_ex (\<lambda>(push, resolved). is_identified (rs_key resolved)) resolved_pushes
      then bind_result (bind_session_commit_keys_result (sn_observations snapshot (rc_as_of ctx)) org_id
             (Some (rc_as_of ctx)) ctx) (\<lambda>bindings.
             Inr (captured_note_map (br_bindings bindings), lift_identity_skips (br_skipped bindings)))
      else Inr ([], ctr_empty))"

text \<open>The body of \<open>_derive_attribution_result\<close> once the context is at hand.\<close>

definition derive_in_context ::
  "snapshot \<Rightarrow> mirrors \<Rightarrow> string \<Rightarrow> attribution_policy \<Rightarrow> push list option \<Rightarrow> token_score
   \<Rightarrow> string option \<Rightarrow> candidate list option \<Rightarrow> ((string \<times> string) \<times> string set) list option
   \<Rightarrow> note_map option \<Rightarrow> bool \<Rightarrow> repository_context \<Rightarrow> instant option \<Rightarrow> attribution_result result" where
  "derive_in_context snapshot mirrors org_id policy pushes scorer policy_digest candidates
     note_sessions_by_commit note_session_ids_by_commit preloaded_without_context ctx as_of =
     bind_result (new_provenance (ap_policy_version policy) (sn_quarantine_revision snapshot) policy_digest) (\<lambda>provenance.
     bind_result (scope_pushes org_id as_of (case pushes of Some ps \<Rightarrow> ps | None \<Rightarrow> sn_pushes snapshot)) (\<lambda>pushes.
     let resolutions = map (\<lambda>push. (push, resolve_push ctx preloaded_without_context push)) pushes;
         skipped = fold decline_push resolutions ctr_empty;
         resolved_pushes = filter (\<lambda>(push, resolved). rs_key resolved \<noteq> None) resolutions;
         pushes = map fst resolved_pushes
     in if pushes = [] then Inr \<lparr>ar_attributions = [], ar_skipped = skipped\<rparr>
        else
        bind_result (case candidates of Some cs \<Rightarrow> Inr cs | None \<Rightarrow> scope_candidates snapshot pushes policy) (\<lambda>candidates.
        bind_result (eligible_candidates org_id as_of candidates) (\<lambda>candidates.
        if candidates = []
        then Inr \<lparr>ar_attributions = [], ar_skipped = ctr_add no_inference_call_candidates (length pushes) skipped\<rparr>
        else
        let (qualified, note_skips) =
              (case note_sessions_by_commit of
                 Some notes \<Rightarrow> map_prod Some id (qualify_legacy_note_sessions notes ctx org_id)
               | None \<Rightarrow> (note_session_ids_by_commit, ctr_empty))
        in bind_result (captured_notes snapshot org_id ctx qualified resolved_pushes) (\<lambda>(captured, binding_skips).
           bind_result (fold_result (push_step mirrors policy provenance scorer candidates qualified captured) resolved_pushes
             \<lparr>aw_seen = {}, aw_result = \<lparr>ar_attributions = [],
                ar_skipped = ctr_update (ctr_update skipped note_skips) binding_skips\<rparr>\<rparr>) (\<lambda>w.
             Inr (aw_result w)))))))"

definition derive_attribution_result ::
  "snapshot \<Rightarrow> mirrors \<Rightarrow> string \<Rightarrow> attribution_policy \<Rightarrow> push list option \<Rightarrow> token_score
   \<Rightarrow> string option \<Rightarrow> candidate list option \<Rightarrow> ((string \<times> string) \<times> string set) list option
   \<Rightarrow> note_map option \<Rightarrow> repository_context option \<Rightarrow> time_bound \<Rightarrow> attribution_result result" where
  "derive_attribution_result snapshot mirrors org_id policy pushes scorer policy_digest candidates
     note_sessions_by_commit note_session_ids_by_commit repository_context as_of =
     (if note_sessions_by_commit \<noteq> None \<and> note_session_ids_by_commit \<noteq> None
      then Inl (ValueError ''choose one repository-qualified note map'')
      else if as_of = NaiveBound then Inl (ValueError ''as_of must be an aware datetime'')
      else
      let as_of = (case (as_of, repository_context) of
                     (NoBound, Some ctx) \<Rightarrow> Bound (rc_as_of ctx) | _ \<Rightarrow> as_of);
          supplements = map (\<lambda>push. repository_identity_evidence_of (PushFact push) fact_spelling REPO)
            (filter (\<lambda>push. rf_repository_id push = None) (case pushes of Some ps \<Rightarrow> ps | None \<Rightarrow> []))
      in bind_result (case repository_context of
             Some ctx \<Rightarrow> Inr ctx
           | None \<Rightarrow> read_repository_context snapshot org_id as_of supplements) (\<lambda>ctx.
         bind_result (case as_of of Bound t \<Rightarrow> map_sum id Some (as_utc t) | _ \<Rightarrow> Inr None) (\<lambda>boundary.
         if rc_org_id ctx \<noteq> org_id \<or> (boundary \<noteq> None \<and> rc_as_of ctx \<noteq> the boundary)
         then Inl (ValueError ''repository context must match organization and boundary'')
         else derive_in_context snapshot mirrors org_id policy pushes scorer policy_digest candidates
           note_sessions_by_commit note_session_ids_by_commit (pushes \<noteq> None \<and> repository_context = None) ctx boundary)))"

definition derive_attributions ::
  "snapshot \<Rightarrow> mirrors \<Rightarrow> string \<Rightarrow> attribution_policy \<Rightarrow> push list option \<Rightarrow> token_score
   \<Rightarrow> string option \<Rightarrow> candidate list option \<Rightarrow> ((string \<times> string) \<times> string set) list option
   \<Rightarrow> note_map option \<Rightarrow> repository_context option \<Rightarrow> time_bound \<Rightarrow> attribution list result" where
  "derive_attributions snapshot mirrors org_id policy pushes scorer policy_digest candidates
     note_sessions_by_commit note_session_ids_by_commit repository_context as_of =
     bind_result (derive_attribution_result snapshot mirrors org_id policy pushes scorer policy_digest candidates
        note_sessions_by_commit note_session_ids_by_commit repository_context as_of) (\<lambda>r. Inr (ar_attributions r))"

section \<open>Attributing one known commit\<close>

text \<open>A push resolved by its own captured identity and name.\<close>

definition resolve_stored_push :: "repository_context \<Rightarrow> push \<Rightarrow> repository_resolution result" where
  "resolve_stored_push ctx push =
     bind_result (repository_identity_of (rf_repository_provider push) (rf_repository_host push) (rf_repository_id push))
       (\<lambda>identity. Inr (resolve_reference ctx (pu_org_id push) (pu_repo push) identity))"

definition needs_range :: "string \<Rightarrow> repository_key \<Rightarrow> push \<Rightarrow> repository_resolution \<Rightarrow> bool" where
  "needs_range commit_sha key push resolved =
     (rs_key resolved = Some key \<and> pu_after_sha push \<noteq> commit_sha \<and> \<not> pu_forced push
      \<and> \<not> all_zero (pu_before_sha push) \<and> pu_before_sha push \<noteq> commit_sha
      \<and> pu_before_sha push \<noteq> pu_after_sha push)"

text \<open>The candidates of a batch, up to and including the first direct head.\<close>

fun batch_candidates ::
  "repository_context \<Rightarrow> string \<Rightarrow> repository_key \<Rightarrow> push list
   \<Rightarrow> (push \<times> repository_resolution \<times> bool) list result" where
  "batch_candidates ctx commit_sha key [] = Inr []"
| "batch_candidates ctx commit_sha key (push # pushes) =
     bind_result (resolve_stored_push ctx push) (\<lambda>resolved.
       let candidate = (push, resolved, needs_range commit_sha key push resolved)
       in if rs_key resolved = Some key \<and> pu_after_sha push = commit_sha then Inr [candidate]
          else bind_result (batch_candidates ctx commit_sha key pushes) (\<lambda>cs. Inr (candidate # cs)))"

type_synonym owner = "push \<times> repository_resolution"

fun scan_batch ::
  "repo_mirror \<Rightarrow> string \<Rightarrow> int \<Rightarrow> repository_key \<Rightarrow> bool \<Rightarrow> (push \<times> repository_resolution \<times> bool) list
   \<Rightarrow> attribution_skip counter \<Rightarrow> owner option \<times> attribution_skip counter" where
  "scan_batch mirror commit_sha max_commits key ranges_possible [] skipped = (None, skipped)"
| "scan_batch mirror commit_sha max_commits key ranges_possible ((push, resolved, needs) # cs) skipped =
     (if rs_key resolved \<noteq> Some key
      then scan_batch mirror commit_sha max_commits key ranges_possible cs
             (ctr_incr (IdentitySkip (rs_reason resolved)) skipped)
      else if pu_after_sha push = commit_sha
              \<or> (needs \<and> ranges_possible \<and> commit_sha \<in> set (list_push_commits mirror push max_commits))
      then (Some (push, resolved), skipped)
      else scan_batch mirror commit_sha max_commits key ranges_possible cs skipped)"

fun scan_batches ::
  "repository_context \<Rightarrow> repo_mirror \<Rightarrow> string \<Rightarrow> int \<Rightarrow> repository_key \<Rightarrow> push list list
   \<Rightarrow> attribution_skip counter \<Rightarrow> (owner option \<times> attribution_skip counter) result" where
  "scan_batches ctx mirror commit_sha max_commits key [] skipped = Inr (None, skipped)"
| "scan_batches ctx mirror commit_sha max_commits key (batch # batches) skipped =
     bind_result (batch_candidates ctx commit_sha key batch) (\<lambda>candidates.
       let heads = map (pu_after_sha \<circ> fst) (filter (\<lambda>(push, resolved, needs). needs) candidates);
           ranges_possible = (\<not> rm_heads_precede mirror commit_sha heads)
       in case scan_batch mirror commit_sha max_commits key ranges_possible candidates skipped of
            (Some owner, skipped) \<Rightarrow> Inr (Some owner, skipped)
          | (None, skipped) \<Rightarrow> scan_batches ctx mirror commit_sha max_commits key batches skipped)"

definition find_commit_owner ::
  "push list \<Rightarrow> repo_mirror \<Rightarrow> string \<Rightarrow> int \<Rightarrow> repository_context \<Rightarrow> repository_key
   \<Rightarrow> attribution_skip counter \<Rightarrow> (owner option \<times> attribution_skip counter) result" where
  "find_commit_owner pushes mirror commit_sha max_commits ctx key skipped =
     scan_batches ctx mirror commit_sha max_commits key (chunks 256 pushes) skipped"

definition attribute_owned_commit ::
  "snapshot \<Rightarrow> repo_mirror \<Rightarrow> push \<Rightarrow> string \<Rightarrow> repository_resolution \<Rightarrow> attribution_policy \<Rightarrow> token_score
   \<Rightarrow> provenance \<Rightarrow> instant \<Rightarrow> string set \<Rightarrow> attribution_result \<Rightarrow> attribution_result result" where
  "attribute_owned_commit snapshot mirror push commit_sha resolved policy scorer provenance as_of
     note_session_ids r =
     bind_result (shift_minutes (pu_captured_at push) (ap_post_push_grace_period_minutes policy)) (\<lambda>grace.
     bind_result (shift_minutes (pu_captured_at push) (- sp_lookback_window_minutes (ap_jaccard policy))) (\<lambda>lo.
     bind_result (shift_minutes (pu_captured_at push) (- sp_lookback_window_minutes (ap_git_notes policy))) (\<lambda>notes_lo.
     let upper = min as_of grace;
         candidates = map candidate_of_call
           (sn_note_candidates snapshot (lo, upper) note_session_ids (notes_lo, upper))
     in if candidates = [] then Inr (r\<lparr>ar_skipped := ctr_incr no_inference_call_candidates (ar_skipped r)\<rparr>)
        else
        bind_result (window candidates push (sp_lookback_window_minutes (ap_jaccard policy)) policy) (\<lambda>org_candidates.
        bind_result (window candidates push (sp_lookback_window_minutes (ap_git_notes policy)) policy) (\<lambda>git_notes_candidates.
          Inr (attribute_commit mirror push commit_sha org_candidates git_notes_candidates policy provenance
            scorer resolved (Some note_session_ids) r))))))"

record owner_search =
  os_owners :: "(push \<times> repository_resolution \<times> repo_mirror) list"
  os_skipped :: "attribution_skip counter"

definition owner_step ::
  "snapshot \<Rightarrow> mirrors \<Rightarrow> string \<Rightarrow> attribution_policy \<Rightarrow> repository_context \<Rightarrow> repository_key
   \<Rightarrow> owner_search \<Rightarrow> owner_search result" where
  "owner_step snapshot mirrors commit_sha policy ctx key st =
     (case repo_for ctx key of
        Inl _ \<Rightarrow> Inr (st\<lparr>os_skipped := ctr_incr (IdentitySkip (Some repository_identity_unresolved)) (os_skipped st)\<rparr>)
      | Inr repo \<Rightarrow>
         (case mirrors key of
            None \<Rightarrow> Inr (st\<lparr>os_skipped := ctr_incr mirror_absent (os_skipped st)\<rparr>)
          | Some mirror \<Rightarrow>
              if \<not> rm_commit_exists mirror commit_sha then Inr st
              else bind_result (find_commit_owner (sn_attribution_pushes snapshot (rc_as_of ctx) (repository_read_key key))
                     mirror commit_sha (ap_max_commits_per_push policy) ctx key (os_skipped st)) (\<lambda>(owner, skipped).
                   Inr \<lparr>os_owners = os_owners st @
                          (case owner of None \<Rightarrow> [] | Some (push, resolved) \<Rightarrow> [(push, resolved, mirror)]),
                        os_skipped = skipped\<rparr>)))"

definition derive_commit_attributions ::
  "snapshot \<Rightarrow> mirrors \<Rightarrow> string \<Rightarrow> string \<Rightarrow> attribution_policy \<Rightarrow> repository_context \<Rightarrow> note_map
   \<Rightarrow> repository_key option \<Rightarrow> token_score \<Rightarrow> string option \<Rightarrow> attribution list result" where
  "derive_commit_attributions snapshot mirrors org_id commit_sha policy ctx notes repository_key scorer policy_digest =
     bind_result (normalize_commit_sha commit_sha) (\<lambda>commit_sha.
     if rc_org_id ctx \<noteq> org_id then Inl (ValueError ''repository context must match organization'')
     else if (case repository_key of Some key \<Rightarrow> key_org_id key \<noteq> org_id | None \<Rightarrow> False)
     then Inl (ValueError ''repository selector must match organization'')
     else
     bind_result (fold_result (owner_step snapshot mirrors commit_sha policy ctx)
         (case repository_key of Some key \<Rightarrow> [key] | None \<Rightarrow> repository_keys ctx)
         \<lparr>os_owners = [], os_skipped = ctr_empty\<rparr>) (\<lambda>search.
     bind_result (new_provenance (ap_policy_version policy) (sn_quarantine_revision snapshot) policy_digest) (\<lambda>provenance.
     bind_result (fold_result (\<lambda>(push, resolved, mirror) r.
         bind_result (new_commit_key (the (rs_key resolved)) commit_sha) (\<lambda>commit.
           attribute_owned_commit snapshot mirror push commit_sha resolved policy scorer provenance (rc_as_of ctx)
             (dict_get notes commit {}) r))
         (sort_key (\<lambda>(push, resolved, mirror). (pu_captured_at push, pu_id push)) (os_owners search))
         \<lparr>ar_attributions = [], ar_skipped = os_skipped search\<rparr>) (\<lambda>r.
       Inr (ar_attributions r)))))"

end
