(* ===== verification/Attribution_Laws.thy ===== *)
theory Attribution_Laws
  imports Attribution CI_Laws Diff_Laws "HOL-Library.Sublist"
begin

text \<open>
  Laws of attribution: the match is the best-scoring candidate with ties resolved by fact identity,
  a note's match always supersedes a similarity guess, the batched owner search finds what a plain
  scan finds, and neither the order of pushes nor that of inference calls matters.
\<close>

section \<open>The best match\<close>

definition keep_less :: "('a \<Rightarrow> 'b::linorder) \<Rightarrow> 'a \<Rightarrow> 'a option \<Rightarrow> 'a option" where
  "keep_less rank x best = (case best of None \<Rightarrow> Some x | Some b \<Rightarrow> if rank x < rank b then Some x else Some b)"

lemma fold_keep_less_Some:
  "\<exists>b. fold (keep_less rank) xs (Some a) = Some b \<and> b \<in> insert a (set xs)
     \<and> (\<forall>x\<in>insert a (set xs). rank b \<le> rank x)"
proof (induction xs arbitrary: a)
  case (Cons x xs)
  show ?case
  proof (cases "rank x < rank a")
    case True
    then have s: "fold (keep_less rank) (x # xs) (Some a) = fold (keep_less rank) xs (Some x)"
      by (simp add: keep_less_def)
    obtain b where "fold (keep_less rank) xs (Some x) = Some b" "b \<in> insert x (set xs)"
      "\<forall>y\<in>insert x (set xs). rank b \<le> rank y" using Cons.IH[of x] by blast
    with True show ?thesis unfolding s by (auto intro!: exI[of _ b])
  next
    case False
    then have s: "fold (keep_less rank) (x # xs) (Some a) = fold (keep_less rank) xs (Some a)"
      by (simp add: keep_less_def)
    obtain b where "fold (keep_less rank) xs (Some a) = Some b" "b \<in> insert a (set xs)"
      "\<forall>y\<in>insert a (set xs). rank b \<le> rank y" using Cons.IH[of a] by blast
    with False show ?thesis unfolding s by (auto intro!: exI[of _ b])
  qed
qed simp

lemma fold_keep_less:
  "xs \<noteq> [] \<Longrightarrow> \<exists>b. fold (keep_less rank) xs None = Some b \<and> b \<in> set xs \<and> (\<forall>x\<in>set xs. rank b \<le> rank x)"
  using fold_keep_less_Some[of rank "tl xs" "hd xs"] by (cases xs) (auto simp: keep_less_def)

definition eligible_score :: "string set \<Rightarrow> rat \<Rightarrow> token_score \<Rightarrow> candidate \<Rightarrow> bool" where
  "eligible_score diff_tokens min_score scorer = (\<lambda>(call, tokens).
     0 < scorer tokens diff_tokens \<and> min_score \<le> scorer tokens diff_tokens)"

definition match_rank :: "inference_call \<times> rat \<Rightarrow> rat \<times> instant \<times> string" where
  "match_rank = (\<lambda>(call, score). (- score, call_order call))"

definition scored_candidates ::
  "candidate list \<Rightarrow> string set \<Rightarrow> rat \<Rightarrow> token_score \<Rightarrow> (inference_call \<times> rat) list" where
  "scored_candidates candidates diff_tokens min_score scorer =
     map (\<lambda>(call, tokens). (call, scorer tokens diff_tokens))
       (filter (eligible_score diff_tokens min_score scorer) candidates)"

lemma best_match_fold:
  "best_match candidates diff_tokens min_score scorer =
     fold (keep_less match_rank) (scored_candidates candidates diff_tokens min_score scorer) None"
proof -
  have "fold (best_step diff_tokens min_score scorer) candidates best =
     fold (keep_less match_rank) (scored_candidates candidates diff_tokens min_score scorer) best" for best
  proof (induction candidates arbitrary: best)
    case (Cons c candidates)
    obtain call tokens where c: "c = (call, tokens)" by fastforce
    show ?case
    proof (cases "eligible_score diff_tokens min_score scorer c")
      case True
      then have "best_step diff_tokens min_score scorer c best =
          keep_less match_rank (call, scorer tokens diff_tokens) best"
        by (cases best) (auto simp: c best_step_def keep_less_def match_rank_def eligible_score_def Let_def)
      with True show ?thesis by (simp add: Cons scored_candidates_def c)
    next
      case False
      then have "best_step diff_tokens min_score scorer c best = best"
        by (auto simp: c best_step_def eligible_score_def Let_def)
      with False show ?thesis by (simp add: Cons scored_candidates_def)
    qed
  qed (simp add: scored_candidates_def)
  then show ?thesis by (simp add: best_match_def)
qed

lemma best_match_None:
  "best_match candidates diff_tokens min_score scorer = None \<longleftrightarrow>
     filter (eligible_score diff_tokens min_score scorer) candidates = []"
  using fold_keep_less[of "scored_candidates candidates diff_tokens min_score scorer" match_rank]
  unfolding best_match_fold by (cases "scored_candidates candidates diff_tokens min_score scorer")
    (auto simp: scored_candidates_def)

lemma best_match_Some:
  assumes "best_match candidates diff_tokens min_score scorer = Some b"
  shows "b \<in> set (scored_candidates candidates diff_tokens min_score scorer)"
    "x \<in> set (scored_candidates candidates diff_tokens min_score scorer) \<Longrightarrow> match_rank b \<le> match_rank x"
proof -
  have "scored_candidates candidates diff_tokens min_score scorer \<noteq> []"
    using assms unfolding best_match_fold by auto
  from fold_keep_less[OF this, of match_rank] assms show
    "b \<in> set (scored_candidates candidates diff_tokens min_score scorer)"
    "x \<in> set (scored_candidates candidates diff_tokens min_score scorer) \<Longrightarrow> match_rank b \<le> match_rank x"
    unfolding best_match_fold by auto
qed

text \<open>Calls are told apart by their ids.\<close>

definition distinct_calls :: "candidate set \<Rightarrow> bool" where
  "distinct_calls cs = inj_on (ic_id \<circ> fst) cs"

lemma best_match_perm:
  assumes "set candidates = set candidates'" "distinct_calls (set candidates)"
  shows "best_match candidates diff_tokens min_score scorer = best_match candidates' diff_tokens min_score scorer"
proof -
  let ?S = "\<lambda>cs. scored_candidates cs diff_tokens min_score scorer"
  have S: "set (?S candidates) = set (?S candidates')" using assms(1) by (simp add: scored_candidates_def)
  have inj: "x = y" if xy: "x \<in> set (?S candidates)" "y \<in> set (?S candidates)" "match_rank x = match_rank y" for x y
  proof -
    obtain c t c' t' where c: "x = (c, scorer t diff_tokens)" "(c, t) \<in> set candidates"
      "y = (c', scorer t' diff_tokens)" "(c', t') \<in> set candidates"
      using xy(1,2) by (auto simp: scored_candidates_def)
    then have "ic_id c = ic_id c'" using xy(3) by (simp add: match_rank_def call_order_def)
    then have "(c, t) = (c', t')"
      using assms(2) c(2,4) unfolding distinct_calls_def inj_on_def by fastforce
    with c show ?thesis by simp
  qed
  show ?thesis
  proof (cases "best_match candidates diff_tokens min_score scorer")
    case None
    then have "?S candidates = []" by (simp add: best_match_None scored_candidates_def)
    then have "?S candidates' = []" using S by simp
    then show ?thesis using None by (simp add: best_match_fold)
  next
    case (Some b)
    then have "?S candidates' \<noteq> []" using best_match_Some(1)[OF Some] S by auto
    then obtain b' where b': "best_match candidates' diff_tokens min_score scorer = Some b'"
      using fold_keep_less[of "?S candidates'" match_rank] unfolding best_match_fold by blast
    have "match_rank b \<le> match_rank b'" "match_rank b' \<le> match_rank b"
      using best_match_Some[OF Some] best_match_Some[OF b'] S by auto
    then show ?thesis
      using inj[of b b'] best_match_Some(1)[OF Some] best_match_Some(1)[OF b'] S Some b' by auto
  qed
qed

section \<open>One commit\<close>

lemma file_fold:
  "fold (file_step policy scorer sc oc build) files r =
     r\<lparr>ar_attributions := ar_attributions r
         @ map (\<lambda>(sec, toks). build sec (the (file_match policy scorer sc oc toks)))
             (filter (\<lambda>(sec, toks). file_match policy scorer sc oc toks \<noteq> None) files),
       ar_skipped := ctr_add no_match
         (length (filter (\<lambda>(sec, toks). file_match policy scorer sc oc toks = None) files)) (ar_skipped r)\<rparr>"
proof (induction files arbitrary: r)
  case Nil
  then show ?case by (simp add: ctr_add_def)
next
  case (Cons f files)
  obtain sec toks where f: "f = (sec, toks)" by fastforce
  show ?case
  proof (cases "file_match policy scorer sc oc toks")
    case None
    then have "file_step policy scorer sc oc build f r = r\<lparr>ar_skipped := ctr_incr no_match (ar_skipped r)\<rparr>"
      by (simp add: file_step_def f)
    with None show ?thesis by (auto simp: Cons f fun_eq_iff intro!: attribution_result.equality)
  next
    case (Some m)
    then have "file_step policy scorer sc oc build f r = r\<lparr>ar_attributions := ar_attributions r @ [build sec m]\<rparr>"
      by (simp add: file_step_def f)
    with Some show ?thesis by (cases m rule: prod_cases3) (simp add: Cons f)
  qed
qed

lemma file_match_cong:
  assumes "set sc = set sc'" "set oc = set oc'" "distinct_calls (set sc)" "distinct_calls (set oc)"
  shows "file_match policy scorer sc oc toks = file_match policy scorer sc' oc' toks"
  unfolding file_match_def best_match_perm[OF assms(1,3)] best_match_perm[OF assms(2,4)] by simp

lemma attribute_commit_cong:
  assumes "set oc = set oc'" "set nc = set nc'" "distinct_calls (set oc)" "distinct_calls (set nc)"
  shows "attribute_commit mirror push sha oc nc policy pv scorer res notes =
    attribute_commit mirror push sha oc' nc' policy pv scorer res notes"
proof -
  define ids where "ids = stamped_sessions mirror sha notes"
  have s: "set (filter (\<lambda>(c, t). ic_session_id c \<in> ids) nc) = set (filter (\<lambda>(c, t). ic_session_id c \<in> ids) nc')"
    using assms(2) by simp
  have d: "distinct_calls (set (filter (\<lambda>(c, t). ic_session_id c \<in> ids) nc))"
    using assms(4) unfolding distinct_calls_def by (rule inj_on_subset) auto
  have fs: "file_step policy scorer (filter (\<lambda>(c, t). ic_session_id c \<in> ids) nc) oc =
      file_step policy scorer (filter (\<lambda>(c, t). ic_session_id c \<in> ids) nc') oc'"
    unfolding file_step_def file_match_cong[OF s assms(1) d assms(3)] by (rule refl)
  show ?thesis unfolding attribute_commit_def Let_def fs[unfolded ids_def] by (rule refl)
qed

section \<open>The owner search\<close>

text \<open>The plain scan: the first push of the repository whose head is the commit or whose enumerated
  range contains it, counting the pushes declined before it.\<close>

fun owner_scan ::
  "repository_context \<Rightarrow> repo_mirror \<Rightarrow> string \<Rightarrow> int \<Rightarrow> repository_key \<Rightarrow> push list
   \<Rightarrow> attribution_skip counter \<Rightarrow> (owner option \<times> attribution_skip counter) result" where
  "owner_scan ctx mirror commit_sha max_commits key [] skipped = Inr (None, skipped)"
| "owner_scan ctx mirror commit_sha max_commits key (push # pushes) skipped =
     bind_result (resolve_stored_push ctx push) (\<lambda>resolved.
       if rs_key resolved \<noteq> Some key
       then owner_scan ctx mirror commit_sha max_commits key pushes
              (ctr_incr (IdentitySkip (rs_reason resolved)) skipped)
       else if pu_after_sha push = commit_sha
               \<or> (needs_range commit_sha key push resolved
                   \<and> commit_sha \<in> set (list_push_commits mirror push max_commits))
       then Inr (Some (push, resolved), skipped)
       else owner_scan ctx mirror commit_sha max_commits key pushes skipped)"

text \<open>What \<open>heads_precede_commit\<close> documents: a positive answer proves that no range ending in one of
  the heads contains the commit.\<close>

definition prefilter_sound :: "repo_mirror \<Rightarrow> string \<Rightarrow> bool" where
  "prefilter_sound mirror commit_sha =
     (\<forall>heads before head n revs. rm_heads_precede mirror commit_sha heads \<longrightarrow> head \<in> set heads \<longrightarrow>
        rm_rev_list mirror before head n = Some revs \<longrightarrow> commit_sha \<notin> set revs)"

lemma prefilter_push:
  assumes "prefilter_sound mirror commit_sha" "rm_heads_precede mirror commit_sha heads"
    "pu_after_sha push \<in> set heads" "pu_after_sha push \<noteq> commit_sha"
  shows "commit_sha \<notin> set (list_push_commits mirror push n)"
  using assms unfolding list_push_commits_def prefilter_sound_def by (auto split: option.splits)

fun next_owner ::
  "(push list \<Rightarrow> attribution_skip counter \<Rightarrow> (owner option \<times> attribution_skip counter) result)
   \<Rightarrow> push list \<Rightarrow> owner option \<times> attribution_skip counter
   \<Rightarrow> (owner option \<times> attribution_skip counter) result" where
  "next_owner continue_with rest (Some owner, skipped) = Inr (Some owner, skipped)"
| "next_owner continue_with rest (None, skipped) = continue_with rest skipped"

text \<open>A batch scanned with or without range checks, followed by the plain scan of the rest.\<close>

lemma scan_batch_plain:
  assumes "batch_candidates ctx commit_sha key batch = Inr cs"
    and "\<And>push resolved. (push, resolved, True) \<in> set cs \<Longrightarrow> \<not> possible \<Longrightarrow>
          commit_sha \<notin> set (list_push_commits mirror push n)"
  shows "owner_scan ctx mirror commit_sha n key (batch @ rest) skipped =
    next_owner (owner_scan ctx mirror commit_sha n key) rest
      (scan_batch mirror commit_sha n key possible cs skipped)"
  using assms
proof (induction batch arbitrary: cs skipped)
  case (Cons push batch)
  obtain resolved where r: "resolve_stored_push ctx push = Inr resolved" using Cons.prems(1) by auto
  let ?c = "(push, resolved, needs_range commit_sha key push resolved)"
  show ?case
  proof (cases "rs_key resolved = Some key \<and> pu_after_sha push = commit_sha")
    case True
    then have "cs = [?c]" using Cons.prems(1) r by (simp add: Let_def)
    then show ?thesis using True r by simp
  next
    case False
    then obtain cs' where cs': "batch_candidates ctx commit_sha key batch = Inr cs'" "cs = ?c # cs'"
      using Cons.prems(1) r by (auto simp: Let_def)
    have IH: "owner_scan ctx mirror commit_sha n key (batch @ rest) sk =
      next_owner (owner_scan ctx mirror commit_sha n key) rest (scan_batch mirror commit_sha n key possible cs' sk)" for sk
      using Cons.prems(2) cs' by (intro Cons.IH) auto
    have range: "needs_range commit_sha key push resolved \<Longrightarrow> \<not> possible \<Longrightarrow>
        commit_sha \<notin> set (list_push_commits mirror push n)"
      using Cons.prems(2)[of push resolved] cs'(2) by auto
    show ?thesis using False r cs'(2) IH range by auto
  qed
qed simp

lemma batch_needs_range:
  "batch_candidates ctx commit_sha key batch = Inr cs \<Longrightarrow> (push, resolved, True) \<in> set cs \<Longrightarrow>
     pu_after_sha push \<noteq> commit_sha"
proof (induction batch arbitrary: cs)
  case (Cons p batch)
  then show ?case by (auto simp: Let_def needs_range_def split: if_splits)
qed simp

lemma batch_error:
  "batch_candidates ctx commit_sha key batch = Inl e \<Longrightarrow>
     \<exists>push\<in>set batch. resolve_stored_push ctx push = Inl e"
proof (induction batch)
  case (Cons p batch)
  then show ?case by (cases "resolve_stored_push ctx p"; cases "batch_candidates ctx commit_sha key batch")
      (auto simp: Let_def split: if_splits)
qed simp

lemma scan_batches_plain:
  assumes "prefilter_sound mirror commit_sha"
    and "\<And>push. push \<in> set (concat batches) \<Longrightarrow> \<exists>resolved. resolve_stored_push ctx push = Inr resolved"
  shows "scan_batches ctx mirror commit_sha n key batches skipped =
    owner_scan ctx mirror commit_sha n key (concat batches) skipped"
  using assms(2)
proof (induction batches arbitrary: skipped)
  case (Cons batch batches)
  have "\<exists>cs. batch_candidates ctx commit_sha key batch = Inr cs"
  proof (cases "batch_candidates ctx commit_sha key batch")
    case (Inl e)
    then show ?thesis using batch_error[OF Inl] Cons.prems by fastforce
  qed simp
  then obtain cs where cs: "batch_candidates ctx commit_sha key batch = Inr cs" by blast
  define heads where "heads = map (pu_after_sha \<circ> fst) (filter (\<lambda>(push, resolved, needs). needs) cs)"
  have no_range: "commit_sha \<notin> set (list_push_commits mirror push n)"
    if p: "(push, resolved, True) \<in> set cs" "\<not> \<not> rm_heads_precede mirror commit_sha heads" for push resolved
  proof (rule prefilter_push[OF assms(1)])
    show "rm_heads_precede mirror commit_sha heads" using p(2) by simp
    show "pu_after_sha push \<in> set heads" using p(1) by (force simp: heads_def)
    show "pu_after_sha push \<noteq> commit_sha" using batch_needs_range[OF cs p(1)] .
  qed
  have plain: "owner_scan ctx mirror commit_sha n key (concat (batch # batches)) skipped =
    next_owner (owner_scan ctx mirror commit_sha n key) (concat batches)
      (scan_batch mirror commit_sha n key (\<not> rm_heads_precede mirror commit_sha heads) cs skipped)"
    unfolding concat.simps by (rule scan_batch_plain[OF cs]) (use no_range in blast)
  have IH: "scan_batches ctx mirror commit_sha n key batches sk =
      owner_scan ctx mirror commit_sha n key (concat batches) sk" for sk
    using Cons.prems by (intro Cons.IH) auto
  obtain owner sk where b: "scan_batch mirror commit_sha n key (\<not> rm_heads_precede mirror commit_sha heads) cs skipped
      = (owner, sk)" by fastforce
  show ?case
    unfolding plain b using b by (cases owner) (simp_all add: cs Let_def IH heads_def[symmetric])
qed simp

section \<open>The whole derivation\<close>

lemma v_map_check:
  "v_map (\<lambda>x. bind_result (as_utc (time x)) (\<lambda>_. Inr x)) xs =
     (if list_all (\<lambda>x. UTC_MIN \<le> time x \<and> time x \<le> UTC_MAX) xs then Inr xs else Inl OverflowError)"
  by (induction xs) (auto simp: as_utc_def)

lemma scope_pushes_perm:
  assumes "mset pushes = mset pushes'" "distinct (map pu_id pushes)"
  shows "scope_pushes org_id as_of pushes = scope_pushes org_id as_of pushes'"
proof -
  have s: "set pushes' = set pushes" using assms(1) by (metis mset_eq_setD)
  let ?mine = "\<lambda>ps. filter (\<lambda>p. pu_org_id p = org_id) ps"
  let ?due = "\<lambda>p. case as_of of None \<Rightarrow> True | Some t \<Rightarrow> pu_captured_at p \<le> t"
  have "order_pushes (filter ?due (?mine pushes)) = order_pushes (filter ?due (?mine pushes'))"
    unfolding order_pushes_def
  proof (rule sort_key_perm_eq)
    show "mset (filter ?due (?mine pushes)) = mset (filter ?due (?mine pushes'))" using assms(1) by simp
    show "inj_on (\<lambda>p. (pu_captured_at p, pu_id p)) (set (filter ?due (?mine pushes)))"
      using assms(2) by (auto simp: inj_on_def distinct_map)
  qed
  then show ?thesis unfolding scope_pushes_def v_map_check by (simp add: list_all_iff s)
qed

lemma eligible_candidates_set:
  assumes "set candidates = set candidates'"
  shows "(\<exists>cs cs'. eligible_candidates org_id as_of candidates = Inr cs
        \<and> eligible_candidates org_id as_of candidates' = Inr cs' \<and> set cs = set cs' \<and> set cs \<subseteq> set candidates)
    \<or> (eligible_candidates org_id as_of candidates = Inl OverflowError
        \<and> eligible_candidates org_id as_of candidates' = Inl OverflowError)"
proof (cases as_of)
  case None
  then show ?thesis using assms by (auto simp: eligible_candidates_def)
next
  case (Some t)
  let ?time = "\<lambda>c. inference_observed_at (fst c)"
  show ?thesis
    unfolding eligible_candidates_def Let_def Some option.case v_map_check[of ?time]
    using assms by (auto simp: list_all_iff)
qed

lemma window_set:
  assumes "set cs = set cs'"
  shows "(\<exists>ws ws'. window cs push n policy = Inr ws \<and> window cs' push n policy = Inr ws'
        \<and> set ws = set ws' \<and> set ws \<subseteq> set cs)
    \<or> (\<exists>e. window cs push n policy = Inl e \<and> window cs' push n policy = Inl e)"
  using assms by (cases "window_bounds push n policy") (auto simp: window_def)

lemma distinct_calls_subset: "distinct_calls A \<Longrightarrow> B \<subseteq> A \<Longrightarrow> distinct_calls B"
  unfolding distinct_calls_def by (rule inj_on_subset)

lemma push_step_perm:
  assumes "set cs = set cs'" "distinct_calls (set cs)"
  shows "push_step mirrors policy pv scorer cs qualified captured =
    push_step mirrors policy pv scorer cs' qualified captured"
proof (intro ext)
  fix pr :: "push \<times> repository_resolution" and w
  obtain push resolved where pr: "pr = (push, resolved)" by fastforce
  show "push_step mirrors policy pv scorer cs qualified captured pr w =
      push_step mirrors policy pv scorer cs' qualified captured pr w"
  proof (cases "mirrors (the (rs_key resolved))")
    case None
    then show ?thesis by (simp add: push_step_def pr)
  next
    case (Some mirror)
    let ?W = "\<lambda>cs p. window cs push (sp_lookback_window_minutes (p policy)) policy"
    consider e where "?W cs ap_jaccard = Inl e" "?W cs' ap_jaccard = Inl e"
      | ws ws' e where "?W cs ap_jaccard = Inr ws" "?W cs' ap_jaccard = Inr ws'"
          "?W cs ap_git_notes = Inl e" "?W cs' ap_git_notes = Inl e"
      | ws ws' ns ns' where "?W cs ap_jaccard = Inr ws" "?W cs' ap_jaccard = Inr ws'" "set ws = set ws'" "set ws \<subseteq> set cs"
          "?W cs ap_git_notes = Inr ns" "?W cs' ap_git_notes = Inr ns'" "set ns = set ns'" "set ns \<subseteq> set cs"
      using window_set[OF assms(1), of push "sp_lookback_window_minutes (ap_jaccard policy)" policy]
        window_set[OF assms(1), of push "sp_lookback_window_minutes (ap_git_notes policy)" policy] by blast
    then show ?thesis
    proof cases
      case 1
      then show ?thesis by (simp add: push_step_def pr Some)
    next
      case 2
      then show ?thesis by (simp add: push_step_def pr Some)
    next
      case 3
      note d = distinct_calls_subset[OF assms(2)]
      show ?thesis
        unfolding push_step_def pr split_conv Some option.case 3(1,2,5,6) bind_result_simps
          attribute_commit_cong[OF 3(3) 3(7) d[OF 3(4)] d[OF 3(8)]] by (rule refl)
    qed
  qed
qed

lemma derive_in_context_perm:
  assumes "mset pushes = mset pushes'" "distinct (map pu_id pushes)"
    and "mset candidates = mset candidates'" "distinct_calls (set candidates)"
  shows "derive_in_context snapshot mirrors org_id policy (Some pushes) scorer digest (Some candidates) notes ids pre ctx as_of =
    derive_in_context snapshot mirrors org_id policy (Some pushes') scorer digest (Some candidates') notes ids pre ctx as_of"
proof -
  have s: "set candidates = set candidates'" using assms(3) by (metis mset_eq_setD)
  consider cs cs' where "eligible_candidates org_id as_of candidates = Inr cs"
      "eligible_candidates org_id as_of candidates' = Inr cs'" "set cs = set cs'" "set cs \<subseteq> set candidates"
    | "eligible_candidates org_id as_of candidates = Inl OverflowError"
      "eligible_candidates org_id as_of candidates' = Inl OverflowError"
    using eligible_candidates_set[OF s, of org_id as_of] by blast
  then show ?thesis
  proof cases
    case 1
    have nil: "(cs = []) = (cs' = [])" using 1(3) by (metis set_empty)
    show ?thesis
      unfolding derive_in_context_def scope_pushes_perm[OF assms(1,2)] option.case bind_result_simps 1(1,2) nil
        push_step_perm[OF 1(3) distinct_calls_subset[OF assms(4) 1(4)]] by (rule refl)
  next
    case 2
    show ?thesis
      unfolding derive_in_context_def scope_pushes_perm[OF assms(1,2)] option.case bind_result_simps 2 by (rule refl)
  qed
qed

section \<open>Totality\<close>

lemma fold_result_total:
  assumes "\<And>x s. x \<in> set xs \<Longrightarrow> \<exists>s'. f x s = Inr s'"
  shows "\<exists>s'. fold_result f xs s = Inr s'"
  using assms
proof (induction xs arbitrary: s)
  case (Cons x xs)
  obtain s1 where s1: "f x s = Inr s1" using Cons.prems[of x s] by auto
  have "\<exists>s'. fold_result f xs s1 = Inr s'" using Cons.prems by (intro Cons.IH) auto
  with s1 show ?case by simp
qed simp

text \<open>A push whose windows stay inside the representable range.\<close>

definition windows_representable :: "attribution_policy \<Rightarrow> push \<Rightarrow> bool" where
  "windows_representable policy push =
     (UTC_MIN + sp_lookback_window_minutes (ap_jaccard policy) * 60000000 \<le> pu_captured_at push
      \<and> UTC_MIN + sp_lookback_window_minutes (ap_git_notes policy) * 60000000 \<le> pu_captured_at push
      \<and> pu_captured_at push + ap_post_push_grace_period_minutes policy * 60000000 \<le> UTC_MAX)"

lemma window_total:
  assumes "attribution_policy_ok policy" "windows_representable policy push"
  shows "\<exists>ws. window cs push (sp_lookback_window_minutes (ap_jaccard policy)) policy = Inr ws"
    "\<exists>ws. window cs push (sp_lookback_window_minutes (ap_git_notes policy)) policy = Inr ws"
    "UTC_MIN \<le> pu_captured_at push \<and> pu_captured_at push \<le> UTC_MAX"
  using assms
  by (auto simp: window_def window_bounds_def shift_minutes_def as_utc_def windows_representable_def
      attribution_policy_ok_def similarity_policy_ok_def)

lemma push_step_total:
  assumes "attribution_policy_ok policy" "windows_representable policy (fst pr)"
    and "\<And>mirror sha. mirrors (the (rs_key (snd pr))) = Some mirror \<Longrightarrow>
          sha \<in> set (list_push_commits mirror (fst pr) (ap_max_commits_per_push policy)) \<Longrightarrow>
          \<exists>c. normalize_commit_sha sha = Inr c"
  shows "\<exists>w'. push_step mirrors policy pv scorer cs qualified captured pr w = Inr w'"
proof -
  obtain push resolved where pr: "pr = (push, resolved)" by fastforce
  show ?thesis
  proof (cases "mirrors (the (rs_key resolved))")
    case None
    then show ?thesis by (simp add: push_step_def pr)
  next
    case (Some mirror)
    obtain ws ns where w: "window cs push (sp_lookback_window_minutes (ap_jaccard policy)) policy = Inr ws"
      "window cs push (sp_lookback_window_minutes (ap_git_notes policy)) policy = Inr ns"
      using window_total(1,2)[OF assms(1), of push cs] assms(2) pr by auto
    have "\<exists>w'. commit_step g key sha w = Inr w'"
      if "sha \<in> set (list_push_commits mirror push (ap_max_commits_per_push policy))" for g key sha w
      using assms(3)[of mirror sha] Some that by (auto simp: pr commit_step_def new_commit_key_def)
    then show ?thesis by (simp add: push_step_def pr Some w fold_result_total)
  qed
qed

lemma bind_total: "\<exists>x. m = Inr x \<Longrightarrow> \<exists>y. bind_result m (\<lambda>x. Inr (f x)) = Inr y"
  by auto

lemma derive_in_context_total:
  assumes "attribution_policy_ok policy" "py_strip (ap_policy_version policy) \<noteq> []"
    "0 \<le> sn_quarantine_revision snapshot"
    and "list_all (windows_representable policy) pushes"
    and "list_all (\<lambda>(call, tokens). UTC_MIN \<le> ic_observed_at call \<and> ic_observed_at call \<le> UTC_MAX) candidates"
    and shas: "\<And>key mirror push sha. mirrors key = Some mirror \<Longrightarrow> push \<in> set pushes \<Longrightarrow>
          sha \<in> set (list_push_commits mirror push (ap_max_commits_per_push policy)) \<Longrightarrow>
          \<exists>c. normalize_commit_sha sha = Inr c"
  shows "\<exists>r. derive_in_context snapshot mirrors org_id policy (Some pushes) scorer None (Some candidates)
      None (Some ids) pre ctx as_of = Inr r"
proof -
  obtain pv where pv: "new_provenance (ap_policy_version policy) (sn_quarantine_revision snapshot) None = Inr pv"
    using assms(2,3) by (simp add: new_provenance_def)
  have "list_all (\<lambda>p. UTC_MIN \<le> pu_captured_at p \<and> pu_captured_at p \<le> UTC_MAX) (filter (\<lambda>p. pu_org_id p = org_id) pushes)"
    using assms(4) window_total(3)[OF assms(1)] by (auto simp: list_all_iff)
  then obtain ps where ps: "scope_pushes org_id as_of pushes = Inr ps" "set ps \<subseteq> set pushes"
    by (auto simp: scope_pushes_def v_map_check order_pushes_def)
  have "list_all (\<lambda>c. UTC_MIN \<le> inference_observed_at (fst c) \<and> inference_observed_at (fst c) \<le> UTC_MAX)
      (filter (\<lambda>(call, tokens). ic_org_id call = org_id) candidates)"
    using assms(5) by (auto simp: list_all_iff inference_observed_at_def)
  then have "\<exists>cs. eligible_candidates org_id as_of candidates = Inr cs"
    unfolding eligible_candidates_def Let_def v_map_check[of "\<lambda>c. inference_observed_at (fst c)"]
    by (cases as_of) simp_all
  then obtain cs where cs: "eligible_candidates org_id as_of candidates = Inr cs" by blast
  let ?res = "filter (\<lambda>(push, resolved). rs_key resolved \<noteq> None) (map (\<lambda>push. (push, resolve_push ctx pre push)) ps)"
  have "\<exists>w'. push_step mirrors policy pv scorer cs (Some ids) [] pr w = Inr w'" if "pr \<in> set ?res" for pr w
  proof (rule push_step_total[OF assms(1)])
    have p: "fst pr \<in> set pushes" using that ps(2) by auto
    then show "windows_representable policy (fst pr)" using assms(4) by (simp add: list_all_iff)
    show "\<exists>c. normalize_commit_sha sha = Inr c"
      if "mirrors (the (rs_key (snd pr))) = Some mirror"
        "sha \<in> set (list_push_commits mirror (fst pr) (ap_max_commits_per_push policy))" for mirror sha
      using shas[OF that(1) p that(2)] .
  qed
  then have "\<exists>w'. fold_result (push_step mirrors policy pv scorer cs (Some ids) []) ?res w = Inr w'" for w
    by (rule fold_result_total)
  then show ?thesis
    unfolding derive_in_context_def option.case pv ps(1) bind_result_simps Let_def cs captured_notes_def split_conv
    by (auto intro!: bind_total)
qed

section \<open>Properties\<close>

text \<open>C14. A file's match is the best one: no match only when no candidate has a positive score that
  reaches the floor; otherwise a candidate with its own score, such that every other eligible
  candidate scores less, or equal with a later observation or a larger id.\<close>

theorem best_match_optimal:
  "case best_match candidates diff_tokens min_score scorer of
     None \<Rightarrow> filter (\<lambda>(call, tokens). 0 < scorer tokens diff_tokens \<and> min_score \<le> scorer tokens diff_tokens) candidates = []
   | Some (best, score) \<Rightarrow>
       0 < score \<and> min_score \<le> score \<and> (\<exists>tokens. (best, tokens) \<in> set candidates \<and> score = scorer tokens diff_tokens)
       \<and> list_all (\<lambda>(call, tokens). scorer tokens diff_tokens < score
             \<or> (scorer tokens diff_tokens = score
                 \<and> (inference_observed_at best, ic_id best) \<le> (inference_observed_at call, ic_id call)))
           (filter (\<lambda>(call, tokens). 0 < scorer tokens diff_tokens \<and> min_score \<le> scorer tokens diff_tokens) candidates)"
proof (cases "best_match candidates diff_tokens min_score scorer")
  case None
  then have "filter (eligible_score diff_tokens min_score scorer) candidates = []"
    by (simp only: best_match_None)
  with None show ?thesis by (simp add: eligible_score_def)
next
  case (Some b)
  obtain best score where b: "b = (best, score)" by fastforce
  from best_match_Some(1)[OF Some] obtain tokens where t: "(best, tokens) \<in> set candidates"
    "score = scorer tokens diff_tokens" "eligible_score diff_tokens min_score scorer (best, tokens)"
    by (auto simp: b scored_candidates_def)
  have "scorer tokens' diff_tokens < score
      \<or> (scorer tokens' diff_tokens = score \<and> call_order best \<le> call_order call)"
    if "(call, tokens') \<in> set candidates" "eligible_score diff_tokens min_score scorer (call, tokens')" for call tokens'
    using best_match_Some(2)[OF Some, of "(call, scorer tokens' diff_tokens)"] that
    by (force simp: b scored_candidates_def match_rank_def)
  with t Some b show ?thesis by (auto simp: eligible_score_def list_all_iff call_order_def)
qed

text \<open>C15. Attributing a commit whose diff is available: the new attributions follow the changed code
  files in order, at most one each, and with the counted misses they account for all of them. A
  git-notes attribution names a call of a stamped session that reaches the notes floor; a similarity
  attribution is made only when no call of the stamped sessions matches that file, however well
  others score.\<close>

theorem notes_first:
  assumes "rm_commit_diff mirror commit_sha = Some raw_diff"
    and "r' = attribute_commit mirror push commit_sha org_candidates git_notes_candidates policy provenance
           scorer resolution note_session_ids r"
  shows "\<exists>matched. ar_attributions r' = ar_attributions r
        @ map (\<lambda>((sec, toks), m). new_attribution push commit_sha provenance resolution sec m) matched
    \<and> subseq (map fst matched) (scored_files (parse_diff_sections raw_diff))
    \<and> length matched + ar_skipped r' no_match
        = length (scored_files (parse_diff_sections raw_diff)) + ar_skipped r no_match
    \<and> list_all (\<lambda>((sec, toks), (source, call, score)).
        case source of
          GIT_NOTES \<Rightarrow> ic_session_id call \<in> stamped_sessions mirror commit_sha note_session_ids
            \<and> sp_min_similarity (ap_git_notes policy) \<le> score
            \<and> (\<exists>t. (call, t) \<in> set git_notes_candidates \<and> score = scorer t toks)
        | JACCARD \<Rightarrow> sp_min_similarity (ap_jaccard policy) \<le> score
            \<and> (\<exists>t. (call, t) \<in> set org_candidates \<and> score = scorer t toks)
            \<and> filter (\<lambda>(c, t). ic_session_id c \<in> stamped_sessions mirror commit_sha note_session_ids
                  \<and> eligible_score toks (sp_min_similarity (ap_git_notes policy)) scorer (c, t)) git_notes_candidates = [])
      matched"
proof -
  define files where "files = scored_files (parse_diff_sections raw_diff)"
  define ids where "ids = stamped_sessions mirror commit_sha note_session_ids"
  define sc where "sc = filter (\<lambda>(c, t). ic_session_id c \<in> ids) git_notes_candidates"
  let ?match = "\<lambda>toks. file_match policy scorer sc org_candidates toks"
  define hits where "hits = filter (\<lambda>(sec, toks). ?match toks \<noteq> None) files"
  define matched where "matched = map (\<lambda>(sec, toks). ((sec, toks), the (?match toks))) hits"
  have r': "ar_attributions r' = ar_attributions r
        @ map (\<lambda>(sec, toks). new_attribution push commit_sha provenance resolution sec (the (?match toks))) hits
    \<and> ar_skipped r' no_match = ar_skipped r no_match + length (filter (\<lambda>(sec, toks). ?match toks = None) files)"
    unfolding assms(2) attribute_commit_def assms(1) option.case Let_def files_def[symmetric] ids_def[symmetric]
      sc_def[symmetric] file_fold hits_def by (simp add: add_diff_skips_def)
  have "length hits + length (filter (\<lambda>(sec, toks). ?match toks = None) files) = length files"
    using sum_length_filter_compl[of "\<lambda>(sec, toks). ?match toks \<noteq> None" files]
    unfolding hits_def case_prod_beta' not_not .
  with r' have count: "length matched + ar_skipped r' no_match = length files + ar_skipped r no_match"
    by (simp add: matched_def)
  have "map fst matched = hits" unfolding matched_def map_map by (rule map_idI) auto
  then have sub: "subseq (map fst matched) files" by (simp add: hits_def)
  have atts: "ar_attributions r' = ar_attributions r
        @ map (\<lambda>((sec, toks), m). new_attribution push commit_sha provenance resolution sec m) matched"
    using r' by (simp add: matched_def comp_def case_prod_beta')
  have best: "(call, score) \<in> set (scored_candidates cs toks m scorer)"
    if "best_match cs toks m scorer = Some (call, score)" for cs toks m call score
    using best_match_Some(1)[OF that] .
  define Q where "Q = (\<lambda>((sec :: diff_section, toks), (source, call, score)).
        case source of
          GIT_NOTES \<Rightarrow> ic_session_id call \<in> ids
            \<and> sp_min_similarity (ap_git_notes policy) \<le> score
            \<and> (\<exists>t. (call, t) \<in> set git_notes_candidates \<and> score = scorer t toks)
        | JACCARD \<Rightarrow> sp_min_similarity (ap_jaccard policy) \<le> score
            \<and> (\<exists>t. (call, t) \<in> set org_candidates \<and> score = scorer t toks)
            \<and> filter (\<lambda>(c, t). ic_session_id c \<in> ids
                  \<and> eligible_score toks (sp_min_similarity (ap_git_notes policy)) scorer (c, t)) git_notes_candidates = [])"
  have "list_all Q matched"
    unfolding list_all_iff
  proof (rule ballI)
    fix x assume "x \<in> set matched"
    then obtain sec toks source call score where x: "x = ((sec, toks), (source, call, score))"
      "?match toks = Some (source, call, score)"
      by (auto simp: matched_def hits_def)
    show "Q x"
    proof (cases source)
      case GIT_NOTES
      then have "best_match sc toks (sp_min_similarity (ap_git_notes policy)) scorer = Some (call, score)"
        using x(2) by (auto simp: file_match_def split: option.splits)
      from best[OF this] show ?thesis
        by (auto simp: Q_def x GIT_NOTES scored_candidates_def eligible_score_def sc_def)
    next
      case JACCARD
      then have "best_match sc toks (sp_min_similarity (ap_git_notes policy)) scorer = None"
        "best_match org_candidates toks (sp_min_similarity (ap_jaccard policy)) scorer = Some (call, score)"
        using x(2) by (auto simp: file_match_def split: option.splits)
      with best[OF this(2)] show ?thesis
        by (auto simp: Q_def x JACCARD scored_candidates_def eligible_score_def sc_def best_match_None filter_empty_conv)
    qed
  qed
  with atts sub count show ?thesis unfolding Q_def ids_def files_def by blast
qed

text \<open>C16. The batched owner search with its ancestry prefilter finds the same owner and counts the
  same declines as the plain scan of the pushes in order, given the prefilter's documented
  guarantee and rows whose captured identities are well formed.\<close>

theorem owner_search_refines_scan:
  assumes "prefilter_sound mirror commit_sha"
    and "\<And>push. push \<in> set pushes \<Longrightarrow> \<exists>resolved. resolve_stored_push ctx push = Inr resolved"
  shows "find_commit_owner pushes mirror commit_sha max_commits ctx key skipped =
    owner_scan ctx mirror commit_sha max_commits key pushes skipped"
  using scan_batches_plain[OF assms(1), of "chunks 256 pushes"] assms(2)
  unfolding find_commit_owner_def by (simp add: concat_chunks)

text \<open>C17. Under a declared repository context, the order in which pushes and inference calls are
  supplied changes nothing: attributions, their order, skip counts and errors are the same.\<close>

theorem attribution_order_independent:
  assumes "mset pushes = mset pushes'" "distinct (map pu_id pushes)"
    and "mset candidates = mset candidates'" "distinct_calls (set candidates)"
  shows "derive_attribution_result snapshot mirrors org_id policy (Some pushes) scorer digest (Some candidates)
      notes ids (Some ctx) as_of =
    derive_attribution_result snapshot mirrors org_id policy (Some pushes') scorer digest (Some candidates')
      notes ids (Some ctx) as_of"
proof -
  have pre: "(Some pushes \<noteq> None \<and> Some ctx = None) = (Some pushes' \<noteq> None \<and> Some ctx = None)" by simp
  show ?thesis
    unfolding derive_attribution_result_def Let_def option.case bind_result_simps pre
      derive_in_context_perm[OF assms] by (rule refl)
qed


section \<open>Witnesses\<close>

definition sample_mirror :: repo_mirror where
  "sample_mirror =
     \<lparr>rm_rev_list = (\<lambda>before head n. Some [head]), rm_commit_diff = (\<lambda>sha. Some (diff_text [sample_change])),
      rm_note_sessions = (\<lambda>sha. Some {''s1''}), rm_heads_precede = (\<lambda>sha heads. False),
      rm_commit_exists = (\<lambda>sha. True), rm_is_ancestor = (\<lambda>a d. Some True),
      rm_diff_range = (\<lambda>a d. Some (diff_text [sample_change])), rm_notes_list = Some [],
      rm_commit_time = (\<lambda>sha. Some ''7'')\<rparr>"

definition sample_stored_push :: "string \<Rightarrow> instant \<Rightarrow> push" where
  "sample_stored_push i t =
     \<lparr>rf_schema_version = 1, rf_repository_provider = None, rf_repository_host = None, rf_repository_id = None, pu_id = i,
      pu_org_id = ''acme'', pu_provider = GITHUB, pu_repo = ''acme/old'', pu_clone_url = [], pu_ref = ''main'',
      pu_before_sha = sample_sha, pu_after_sha = sample_sha, pu_forced = True, pu_captured_at = t\<rparr>"

definition sample_candidate :: "string \<Rightarrow> candidate" where
  "sample_candidate i =
     (\<lparr>ic_schema_version = 1, ic_id = i, ic_org_id = ''acme'', ic_session_id = ''s1'', ic_user_id = None,
       ic_gateway_provider = LITELLM, ic_model_provider = None, ic_model = None, ic_input_messages = [],
       ic_output_messages = [], ic_input_tokens = None, ic_output_tokens = None, ic_duration_ms = None,
       ic_model_call_id = None, ic_observed_at = 5, ic_raw = []\<rparr>, {''z''})"

definition sample_snapshot :: snapshot where
  "sample_snapshot =
     \<lparr>sn_identities = (\<lambda>t. Inr []), sn_renames = (\<lambda>t. Inr []), sn_quarantine_revision = 0, sn_pushes = [],
      sn_attribution_pushes = (\<lambda>t k. []), sn_candidates = (\<lambda>w. []), sn_note_candidates = (\<lambda>w s v. []),
      sn_observations = (\<lambda>t. []), sn_call_summaries = (\<lambda>n. Inr []), sn_session_calls = (\<lambda>s t. Inr []),
      sn_decisions = [], sn_decisions_by_ids = (\<lambda>ids. []), sn_ci_outcomes = (\<lambda>t n. Inr []),
      sn_ci_outcomes_by_ids = (\<lambda>ids. [])\<rparr>"

lemma sample_files: "length (scored_files (parse_diff_sections (diff_text [sample_change]))) = 1"
  using diff_text_sections[of "[sample_change]"] sample_change_ok
  by (simp add: scored_files_def change_section_def sample_change_def hunk_additions_of_def is_code_file_def
      SKIP_PATTERNS_def CODE_EXTENSIONS_def u_endswith_def u_blank_def u_isspace_def lit_eval)

theorem notes_first_witness:
  "\<exists>matched. length matched
     + ar_skipped (attribute_commit sample_mirror (sample_stored_push ''p1'' 10) sample_sha [] [sample_candidate ''c1'']
         default_attribution_policy \<lparr>pr_policy_version = ''3'', pr_quarantine_revision = 0, pr_policy_digest = None\<rparr>
         jaccard_tokens (declined repository_source_absent) None \<lparr>ar_attributions = [], ar_skipped = ctr_empty\<rparr>) no_match
     = length (scored_files (parse_diff_sections (diff_text [sample_change])))
     \<and> length (matched :: ((diff_section \<times> string set) \<times> attribution_source \<times> inference_call \<times> rat) list) \<le> 1"
proof -
  have "rm_commit_diff sample_mirror sample_sha = Some (diff_text [sample_change])" by (simp add: sample_mirror_def)
  from notes_first[OF this refl, of "sample_stored_push ''p1'' 10" "[]" "[sample_candidate ''c1'']"
      default_attribution_policy "\<lparr>pr_policy_version = ''3'', pr_quarantine_revision = 0, pr_policy_digest = None\<rparr>"
      jaccard_tokens "declined repository_source_absent" None "\<lparr>ar_attributions = [], ar_skipped = ctr_empty\<rparr>"]
  show ?thesis using sample_files by auto
qed

theorem owner_search_refines_scan_witness:
  "find_commit_owner [sample_stored_push ''p1'' 10] sample_mirror sample_sha 20 sample_context
     (LegacyRepositoryKey ''acme'' ''acme/old'') ctr_empty =
   owner_scan sample_context sample_mirror sample_sha 20 (LegacyRepositoryKey ''acme'' ''acme/old'')
     [sample_stored_push ''p1'' 10] ctr_empty"
  by (rule owner_search_refines_scan)
    (simp_all add: prefilter_sound_def sample_mirror_def resolve_stored_push_def sample_stored_push_def)

theorem attribution_order_independent_witness:
  "derive_attribution_result sample_snapshot (\<lambda>key. Some sample_mirror) ''acme'' default_attribution_policy
      (Some [sample_stored_push ''p1'' 10, sample_stored_push ''p2'' 9]) jaccard_tokens None
      (Some [sample_candidate ''c1'', sample_candidate ''c2'']) None (Some []) (Some sample_context) NoBound =
   derive_attribution_result sample_snapshot (\<lambda>key. Some sample_mirror) ''acme'' default_attribution_policy
      (Some [sample_stored_push ''p2'' 9, sample_stored_push ''p1'' 10]) jaccard_tokens None
      (Some [sample_candidate ''c2'', sample_candidate ''c1'']) None (Some []) (Some sample_context) NoBound"
  by (rule attribution_order_independent)
    (simp_all add: sample_stored_push_def sample_candidate_def distinct_calls_def)

lemma sample_attribution_policy_ok: "attribution_policy_ok default_attribution_policy"
proof -
  have "0 \<le> fl64 (3 / 10) \<and> fl64 (3 / 10) \<le> 1 \<and> 0 \<le> fl64 (7 / 10) \<and> fl64 (7 / 10) \<le> 1" by code_simp
  then show ?thesis
    by (simp add: attribution_policy_ok_def similarity_policy_ok_def default_attribution_policy_def
        git_notes_policy_def jaccard_policy_def)
qed


end
