(* ===== verification/Recovery.thy ===== *)
theory Recovery
  imports Attribution
begin

text \<open>
  \<open>packages/derive/sediment_derive/recovery.py\<close>: red-to-green CI transitions. The CI outcomes of an
  organization are resolved per run, partitioned into one stream per check, and each stream is
  walked in capture order; a failed run is paired with the next passed run of the same check when
  the fix descends from the failure and the diff between them is small enough.

  The walk is a fold over a state (\<open>pending_failed\<close> and the result), with one step per outcome.
  \<open>skipped\<close> counts by \<open>recovery_skip\<close>: repository reasons reach it from CI resolution and from the
  Session-commit binding under the same string, so both are \<open>CISkip (repository_reason r)\<close>. The
  digest of the CI policy (the hash of its serialization) is an argument.
\<close>

section \<open>Policy and results\<close>

record recovery_policy =
  vp_max_recovery_diff_lines :: int
  vp_policy_version :: string
  vp_attribution :: attribution_policy
  vp_ci_resolution :: ci_resolution_policy

definition default_recovery_policy :: recovery_policy where
  "default_recovery_policy =
     \<lparr>vp_max_recovery_diff_lines = 200, vp_policy_version = ''5'',
      vp_attribution = default_attribution_policy, vp_ci_resolution = default_ci_policy\<rparr>"

record recovery_attribution_evidence =
  ra_inference_call_id :: string
  ra_session_id :: string
  ra_attribution_sources :: "attribution_source list"
  ra_session_commit_observation_ids :: "string list"

record recovery_sample =
  rp_org_id :: string
  rp_repo :: string
  rp_branch :: string
  rp_workflow_name :: string
  rp_workflow_path :: "string option"
  rp_failed_commit_sha :: string
  rp_fixed_commit_sha :: string
  rp_failed_outcome_id :: string
  rp_fixed_outcome_id :: string
  rp_recovery_diff :: ustr
  rp_failed_inference_call_ids :: "string list"
  rp_fixed_inference_call_ids :: "string list"
  rp_provenance :: provenance
  rp_failed_attribution_evidence :: "recovery_attribution_evidence list"
  rp_fixed_attribution_evidence :: "recovery_attribution_evidence list"
  rp_repository_identity :: "repository_identity option"

datatype recovery_skip = CISkip ci_skip_reason | unreliable_ci_resolution | workflow_identity_absent
  | recovery_mirror_absent | same_commit | ancestry_check_failed | not_ancestor | diff_unavailable
  | diff_oversized

record recovery_result =
  vr_pairs :: "recovery_sample list"
  vr_skipped :: "recovery_skip counter"
  vr_max_recovery_diff_lines :: int
  vr_kept_diff_line_counts :: "int list"
  vr_dropped_diff_line_counts :: "int list"

section \<open>Counting changed lines\<close>

text \<open>\<open>str.splitlines()\<close>: every line boundary Python knows, a carriage return and line feed as one.\<close>

definition line_boundary :: "nat \<Rightarrow> bool" where
  "line_boundary c =
     (c = 10 \<or> c = 11 \<or> c = 12 \<or> c = 13 \<or> c = 28 \<or> c = 29 \<or> c = 30 \<or> c = 133 \<or> c = 8232 \<or> c = 8233)"

definition after_boundary :: "ustr \<Rightarrow> ustr" where
  "after_boundary s = (if take 2 s = [13, 10] then drop 2 s else drop 1 s)"

function u_splitlines :: "ustr \<Rightarrow> ustr list" where
  "u_splitlines s =
     (if s = [] then []
      else takeWhile (\<lambda>c. \<not> line_boundary c) s
             # u_splitlines (after_boundary (dropWhile (\<lambda>c. \<not> line_boundary c) s)))"
  by pat_completeness auto
termination
proof (relation "measure length")
  fix s :: ustr
  assume "s \<noteq> []"
  then have "0 < length s" by simp
  moreover have "length (after_boundary (dropWhile (\<lambda>c. \<not> line_boundary c) s)) \<le> length s - 1"
    using length_dropWhile_le[of "\<lambda>c. \<not> line_boundary c" s] by (auto simp: after_boundary_def)
  ultimately show "(after_boundary (dropWhile (\<lambda>c. \<not> line_boundary c) s), s) \<in> measure length"
    unfolding in_measure by linarith
qed simp

declare u_splitlines.simps [simp del]

definition count_line :: "ustr \<Rightarrow> int \<times> bool \<Rightarrow> int \<times> bool" where
  "count_line line = (\<lambda>(count, in_hunk).
     if u_startswith line (lit ''diff --git'') then (count, False)
     else if u_startswith line (lit ''@@'') then (count, True)
     else if in_hunk \<and> (u_startswith line (lit ''+'') \<or> u_startswith line (lit ''-''))
     then (count + 1, in_hunk)
     else (count, in_hunk))"

definition diff_line_count :: "ustr \<Rightarrow> int" where
  "diff_line_count diff = fst (fold count_line (u_splitlines diff) (0, False))"

section \<open>One candidate pair\<close>

definition lookup_commit :: "(commit_key \<times> 'a list) list \<Rightarrow> repository_key \<Rightarrow> string \<Rightarrow> 'a list result" where
  "lookup_commit d repository sha =
     bind_result (new_commit_key repository sha) (\<lambda>commit. Inr (dict_get d commit []))"

fun repository_key_identity :: "repository_key \<Rightarrow> repository_identity option" where
  "repository_key_identity (IdentifiedRepositoryKey org i) = Some i"
| "repository_key_identity (LegacyRepositoryKey org repo) = None"

text \<open>The sample with its line count, or the skip with the count when the diff reached the size
  gate.\<close>

type_synonym pair_outcome = "recovery_skip \<times> int option + recovery_sample \<times> int"

definition try_pair ::
  "repo_mirror \<Rightarrow> repository_key \<Rightarrow> string \<Rightarrow> string \<Rightarrow> string \<Rightarrow> ci_outcome \<Rightarrow> ci_outcome
   \<Rightarrow> (commit_key \<times> string list) list \<Rightarrow> recovery_policy \<Rightarrow> provenance \<Rightarrow> pair_outcome result" where
  "try_pair mirror repository org_id repo branch failed fixed completions_by_commit policy provenance =
     (let failed_sha = ci_commit_sha failed; fixed_sha = ci_commit_sha fixed
      in if failed_sha = fixed_sha then Inr (Inl (same_commit, None))
         else case rm_is_ancestor mirror failed_sha fixed_sha of
           None \<Rightarrow> Inr (Inl (ancestry_check_failed, None))
         | Some False \<Rightarrow> Inr (Inl (not_ancestor, None))
         | Some True \<Rightarrow>
            (case rm_diff_range mirror failed_sha fixed_sha of
               None \<Rightarrow> Inr (Inl (diff_unavailable, None))
             | Some diff \<Rightarrow>
                (let line_count = diff_line_count diff
                 in if line_count > vp_max_recovery_diff_lines policy
                    then Inr (Inl (diff_oversized, Some line_count))
                    else
                    bind_result (lookup_commit completions_by_commit repository failed_sha) (\<lambda>failed_ids.
                    bind_result (lookup_commit completions_by_commit repository fixed_sha) (\<lambda>fixed_ids.
                      Inr (Inr (\<lparr>rp_org_id = org_id, rp_repo = repo, rp_branch = branch,
                        rp_workflow_name = ci_workflow_name failed,
                        rp_workflow_path = ci_workflow_path failed,
                        rp_failed_commit_sha = failed_sha, rp_fixed_commit_sha = fixed_sha,
                        rp_failed_outcome_id = ci_id failed, rp_fixed_outcome_id = ci_id fixed,
                        rp_recovery_diff = diff, rp_failed_inference_call_ids = failed_ids,
                        rp_fixed_inference_call_ids = fixed_ids, rp_provenance = provenance,
                        rp_failed_attribution_evidence = [], rp_fixed_attribution_evidence = [],
                        rp_repository_identity = repository_key_identity repository\<rparr>, line_count)))))))"

section \<open>The walk over one check\<close>

definition candidate_step :: "ci_outcome \<Rightarrow> nat \<times> bool \<Rightarrow> nat \<times> bool" where
  "candidate_step outcome = (\<lambda>(count, pending_failed).
     if ci_result_of outcome \<notin> {PASSED, FAILED} then (count, pending_failed)
     else if ci_result_of outcome = FAILED then (count, True)
     else if pending_failed then (count + 1, False)
     else (count, pending_failed))"

definition candidate_transition_count :: "ci_outcome list \<Rightarrow> nat" where
  "candidate_transition_count ordered = fst (fold candidate_step ordered (0, False))"

record recovery_walk =
  vw_pending_failed :: "ci_outcome option"
  vw_result :: recovery_result

type_synonym evidence_map = "(commit_key \<times> recovery_attribution_evidence list) list"

text \<open>The attribution evidence of both sides, which the walk adds to the sample.\<close>

definition with_evidence :: "evidence_map \<Rightarrow> repository_key \<Rightarrow> recovery_sample \<Rightarrow> recovery_sample result" where
  "with_evidence evidence repository sample =
     bind_result (lookup_commit evidence repository (rp_failed_commit_sha sample)) (\<lambda>failed.
     bind_result (lookup_commit evidence repository (rp_fixed_commit_sha sample)) (\<lambda>fixed.
       Inr (sample\<lparr>rp_failed_attribution_evidence := failed, rp_fixed_attribution_evidence := fixed\<rparr>)))"

fun record_pair :: "pair_outcome \<Rightarrow> recovery_result \<Rightarrow> recovery_result" where
  "record_pair (Inr (sample, n)) r =
     r\<lparr>vr_pairs := vr_pairs r @ [sample], vr_kept_diff_line_counts := vr_kept_diff_line_counts r @ [n]\<rparr>"
| "record_pair (Inl (skip, n)) r =
     r\<lparr>vr_skipped := ctr_incr skip (vr_skipped r),
       vr_dropped_diff_line_counts := vr_dropped_diff_line_counts r @
         (case n of Some k \<Rightarrow> if skip = diff_oversized then [k] else [] | None \<Rightarrow> [])\<rparr>"

definition outcome_step ::
  "(ci_outcome \<Rightarrow> ci_outcome \<Rightarrow> pair_outcome result) \<Rightarrow> (recovery_sample \<Rightarrow> recovery_sample result)
   \<Rightarrow> ci_outcome \<Rightarrow> recovery_walk \<Rightarrow> recovery_walk result" where
  "outcome_step pair enrich outcome w =
     (if ci_result_of outcome \<notin> {PASSED, FAILED} then Inr w
      else if ci_result_of outcome = FAILED then Inr (w\<lparr>vw_pending_failed := Some outcome\<rparr>)
      else case vw_pending_failed w of
        None \<Rightarrow> Inr w
      | Some failed \<Rightarrow>
          bind_result (pair failed outcome) (\<lambda>paired.
          bind_result (case paired of
              Inl skip \<Rightarrow> Inr (Inl skip)
            | Inr (sample, n) \<Rightarrow> bind_result (enrich sample) (\<lambda>sample. Inr (Inr (sample, n)))) (\<lambda>paired.
            Inr \<lparr>vw_pending_failed = None, vw_result = record_pair paired (vw_result w)\<rparr>)))"

type_synonym lineage = "repository_key \<times> string \<times> string \<times> string \<times> string"

definition lineage_sort_key :: "lineage \<Rightarrow> string list \<times> string \<times> string \<times> string \<times> string" where
  "lineage_sort_key = (\<lambda>(repository, rest). (repository_sort_key repository, rest))"

definition lineage_step ::
  "repository_context \<Rightarrow> mirrors \<Rightarrow> string \<Rightarrow> (commit_key \<times> string list) list \<Rightarrow> evidence_map
   \<Rightarrow> recovery_policy \<Rightarrow> provenance \<Rightarrow> lineage \<times> ci_outcome list \<Rightarrow> recovery_result
   \<Rightarrow> recovery_result result" where
  "lineage_step ctx mirrors org_id completions_by_commit evidence policy provenance =
     (\<lambda>((repository, branch, rest), outcomes) result.
       bind_result (repo_for ctx repository) (\<lambda>repo.
       bind_result (v_map (\<lambda>o'. bind_result (as_utc (ci_captured_at o')) (\<lambda>_. Inr o')) outcomes) (\<lambda>outcomes.
       let ordered = sort_key capture_order outcomes
       in case mirrors repository of
            None \<Rightarrow> Inr (result\<lparr>vr_skipped :=
              ctr_add recovery_mirror_absent (candidate_transition_count ordered) (vr_skipped result)\<rparr>)
          | Some mirror \<Rightarrow>
              bind_result (fold_result
                (outcome_step
                  (\<lambda>failed fixed. try_pair mirror repository org_id repo branch failed fixed
                     completions_by_commit policy provenance)
                  (with_evidence evidence repository))
                ordered \<lparr>vw_pending_failed = None, vw_result = result\<rparr>) (\<lambda>w. Inr (vw_result w)))))"

section \<open>Partitioning the resolved outcomes by check\<close>

definition truthy :: "string option \<Rightarrow> bool" where
  "truthy v = (case v of None \<Rightarrow> False | Some s \<Rightarrow> s \<noteq> [])"

text \<open>One workflow resolution: ignored, skipped, or an outcome of a lineage.\<close>

definition workflow_lineage ::
  "repository_context \<Rightarrow> (string \<rightharpoonup> ci_outcome) \<Rightarrow> workflow_resolution
   \<Rightarrow> (recovery_skip option + lineage \<times> ci_outcome) result" where
  "workflow_lineage ctx outcome_by_id w =
     (if wr_verdict w = None then Inr (Inl None)
      else if wr_suspected_flake w then Inr (Inl (Some unreliable_ci_resolution))
      else case wr_verdict_outcome_id w of
        None \<Rightarrow> Inr (Inl None)
      | Some outcome_id \<Rightarrow>
         (case outcome_by_id outcome_id of
            None \<Rightarrow> Inl (KeyError outcome_id)
          | Some outcome \<Rightarrow>
             if \<not> truthy (wr_workflow_id w) \<and> \<not> truthy (wr_workflow_path w)
             then Inr (Inl (Some workflow_identity_absent))
             else
             let (kind, value) = (if truthy (wr_workflow_id w) then (''id'', the (wr_workflow_id w))
                                  else (''path'', the (wr_workflow_path w)))
             in case rs_key (resolve_fact ctx (CIFact outcome) fact_spelling REPO) of
                  None \<Rightarrow> Inl AssertionError
                | Some repository \<Rightarrow>
                    Inr (Inr ((repository, wr_branch w, ci_provider_value (wr_provider w), kind, value), outcome))))"

definition resolution_workflows :: "ci_resolution list \<Rightarrow> workflow_resolution list" where
  "resolution_workflows resolutions =
     concat (map cr_workflow_resolutions (filter (\<lambda>r. cr_verdict r \<noteq> None) resolutions))"

definition count_workflow ::
  "recovery_skip option + 'a \<Rightarrow> recovery_skip counter \<Rightarrow> recovery_skip counter" where
  "count_workflow r skipped = (case r of Inl (Some skip) \<Rightarrow> ctr_incr skip skipped | _ \<Rightarrow> skipped)"

definition lineages :: "(lineage \<times> ci_outcome) list \<Rightarrow> (lineage \<times> ci_outcome list) list" where
  "lineages rows =
     sort_key (\<lambda>(key, outcomes). lineage_sort_key key)
       (map (\<lambda>(key, rows). (key, map snd rows)) (group_by fst rows))"

section \<open>Attribution evidence\<close>

fun source_value :: "attribution_source \<Rightarrow> string" where
  "source_value GIT_NOTES = ''git_notes''"
| "source_value JACCARD = ''jaccard''"

definition evidence_for ::
  "(commit_edge \<times> session_commit_observation list) list \<Rightarrow> commit_key
   \<Rightarrow> (string \<times> string) \<times> attribution list \<Rightarrow> recovery_attribution_evidence" where
  "evidence_for bindings commit = (\<lambda>((call_id, session_id), items).
     \<lparr>ra_inference_call_id = call_id, ra_session_id = session_id,
      ra_attribution_sources =
        sort_key source_value (remdups (map at_attribution_source items)),
      ra_session_commit_observation_ids =
        sorted_list_of_set (set (map sc_id (dict_get bindings (commit, session_id) [])))\<rparr>)"

text \<open>\<open>grouped\<close>: the attributions of each commit, by call and session.\<close>

definition evidence_of_commit ::
  "(commit_edge \<times> session_commit_observation list) list \<Rightarrow> commit_key \<times> attribution list
   \<Rightarrow> commit_key \<times> recovery_attribution_evidence list" where
  "evidence_of_commit bindings = (\<lambda>(commit, items).
     (commit, map (evidence_for bindings commit)
        (sort_key fst (group_by (\<lambda>item. (at_inference_call_id item, at_session_id item)) items))))"

definition attribution_commit_key :: "repository_context \<Rightarrow> string \<Rightarrow> attribution \<Rightarrow> commit_key option" where
  "attribution_commit_key ctx org_id item =
     (case at_repo item of
        None \<Rightarrow> None
      | Some repo \<Rightarrow> context_commit_key ctx org_id repo (at_commit_sha item) (at_repository_identity item))"

definition attribution_evidence_by_commit ::
  "snapshot \<Rightarrow> mirrors \<Rightarrow> string \<Rightarrow> attribution_policy \<Rightarrow> string option \<Rightarrow> repository_context
   \<Rightarrow> (evidence_map \<times> identity_skip_reason counter) result" where
  "attribution_evidence_by_commit snapshot mirrors org_id policy policy_digest ctx =
     bind_result (bind_session_commit_keys_result (sn_observations snapshot (rc_as_of ctx)) org_id
         (Some (rc_as_of ctx)) ctx) (\<lambda>bound.
     bind_result (derive_attributions snapshot mirrors org_id policy None jaccard_tokens policy_digest None
         None None (Some ctx) (Bound (rc_as_of ctx))) (\<lambda>attributions.
     let keyed = map (\<lambda>item. (the (attribution_commit_key ctx org_id item), item))
           (filter (\<lambda>item. attribution_commit_key ctx org_id item \<noteq> None) attributions);
         grouped = map (\<lambda>(commit, rows). (commit, map snd rows)) (group_by fst keyed)
     in Inr (sort_key (\<lambda>(commit, rows). commit_sort_key commit)
               (map (evidence_of_commit (br_bindings bound)) grouped),
             br_skipped bound)))"

definition completion_ids :: "evidence_map \<Rightarrow> (commit_key \<times> string list) list" where
  "completion_ids evidence =
     map (\<lambda>(commit, items). (commit, sorted_list_of_set (set (map ra_inference_call_id items)))) evidence"

section \<open>The derivation\<close>

definition lift_ci_skips :: "ci_skip_reason counter \<Rightarrow> recovery_skip counter" where
  "lift_ci_skips c = (\<lambda>r. case r of CISkip reason \<Rightarrow> c reason | _ \<Rightarrow> 0)"

definition lift_binding_skips :: "identity_skip_reason counter \<Rightarrow> recovery_skip counter" where
  "lift_binding_skips c = (\<lambda>r. case r of CISkip (repository_reason reason) \<Rightarrow> c reason | _ \<Rightarrow> 0)"

text \<open>The context the pairs are read in: given, or read at the boundary; the implicit boundary moves
  to the latest observed call.\<close>

definition recovery_context ::
  "snapshot \<Rightarrow> string \<Rightarrow> repository_context option \<Rightarrow> time_bound \<Rightarrow> repository_context result" where
  "recovery_context snapshot org_id repository_context as_of =
     (if as_of = NaiveBound then Inl (ValueError ''as_of must be an aware datetime'')
      else
      bind_result (case repository_context of
          Some ctx \<Rightarrow> Inr ctx | None \<Rightarrow> read_repository_context snapshot org_id as_of []) (\<lambda>ctx.
      bind_result (case as_of of Bound t \<Rightarrow> map_sum id Some (as_utc t) | _ \<Rightarrow> Inr None) (\<lambda>boundary.
      if rc_org_id ctx \<noteq> org_id \<or> (boundary \<noteq> None \<and> rc_as_of ctx \<noteq> the boundary)
      then Inl (ValueError ''repository context must match organization and boundary'')
      else if repository_context = None \<and> as_of = NoBound then
        bind_result (sn_call_summaries snapshot None) (\<lambda>rows.
        bind_result (v_map (\<lambda>row. as_utc (cs_observed_at row)) rows) (\<lambda>times.
          let boundary = (if times = [] then rc_as_of ctx else Max (set times))
          in if boundary > rc_as_of ctx
             then read_repository_context snapshot org_id (Bound boundary) []
             else Inr ctx))
      else Inr ctx)))"

definition derive_recovery_result ::
  "snapshot \<Rightarrow> mirrors \<Rightarrow> string \<Rightarrow> recovery_policy \<Rightarrow> string \<Rightarrow> string option
   \<Rightarrow> repository_context option \<Rightarrow> time_bound \<Rightarrow> recovery_result result" where
  "derive_recovery_result snapshot mirrors org_id policy ci_digest policy_digest repository_context as_of =
     bind_result (recovery_context snapshot org_id repository_context as_of) (\<lambda>ctx.
     bind_result (new_provenance (vp_policy_version policy) (sn_quarantine_revision snapshot) policy_digest) (\<lambda>provenance.
     let empty = \<lparr>vr_pairs = [], vr_skipped = ctr_empty,
           vr_max_recovery_diff_lines = vp_max_recovery_diff_lines policy,
           vr_kept_diff_line_counts = [], vr_dropped_diff_line_counts = []\<rparr>
     in bind_result (sn_ci_outcomes snapshot None None) (\<lambda>rows.
        bind_result (v_map (\<lambda>o'. bind_result (as_utc (ci_captured_at o')) (\<lambda>_. Inr o'))
            (filter (\<lambda>o'. ci_org_id o' = org_id) rows)) (\<lambda>rows.
        let outcomes = filter (\<lambda>o'. ci_captured_at o' \<le> rc_as_of ctx) rows
        in if outcomes = [] then Inr empty
           else
           bind_result (derive_ci_resolution_result outcomes (vp_ci_resolution policy) (Some ci_digest)
               (pr_quarantine_revision provenance) (Some ctx)) (\<lambda>ci_result.
           bind_result (v_map (workflow_lineage ctx (map_of (map (\<lambda>o'. (ci_id o', o')) (rev outcomes))))
               (resolution_workflows (crr_resolutions ci_result))) (\<lambda>checked.
           bind_result (attribution_evidence_by_commit snapshot mirrors org_id (vp_attribution policy)
               policy_digest ctx) (\<lambda>(evidence, binding_skips).
           let skipped = ctr_update
                 (fold count_workflow checked (lift_ci_skips (crr_skipped ci_result)))
                 (lift_binding_skips binding_skips)
           in fold_result
                (lineage_step ctx mirrors org_id (completion_ids evidence) evidence policy provenance)
                (lineages (map projr (filter (\<lambda>r. \<not> isl r) checked)))
                (empty\<lparr>vr_skipped := skipped\<rparr>)))))))) "

definition derive_recovery_pairs ::
  "snapshot \<Rightarrow> mirrors \<Rightarrow> string \<Rightarrow> recovery_policy \<Rightarrow> string \<Rightarrow> string option
   \<Rightarrow> repository_context option \<Rightarrow> time_bound \<Rightarrow> recovery_sample list result" where
  "derive_recovery_pairs snapshot mirrors org_id policy ci_digest policy_digest repository_context as_of =
     bind_result (derive_recovery_result snapshot mirrors org_id policy ci_digest policy_digest repository_context as_of)
       (\<lambda>r. Inr (vr_pairs r))"

end
