(* ===== verification/Recovery_Laws.thy ===== *)
theory Recovery_Laws
  imports Recovery Attribution_Laws
begin

text \<open>
  Laws of the recovery derivation. The walk over one check is characterised by the transitions of
  its stream: the adjacent failed-passed pairs of the verdicts in capture order. From it follow the
  accounting of candidate transitions, the soundness of every emitted pair, and the independence
  of the result from the order the store returns its rows in. The changed-line count is compared
  with the number of added and removed lines of a rendered diff.
\<close>

section \<open>Transitions of a stream\<close>

definition transitions :: "ci_outcome list \<Rightarrow> (ci_outcome \<times> ci_outcome) list" where
  "transitions ordered =
     (let verdicts = filter (\<lambda>o'. is_verdict (ci_result_of o')) ordered
      in filter (\<lambda>(failed, fixed). ci_result_of failed = FAILED \<and> ci_result_of fixed = PASSED)
           (zip verdicts (tl verdicts)))"

text \<open>The same transitions, collected along the stream with the pending failure.\<close>

fun transitions_from :: "ci_outcome option \<Rightarrow> ci_outcome list \<Rightarrow> (ci_outcome \<times> ci_outcome) list" where
  "transitions_from pending [] = []"
| "transitions_from pending (o' # os) =
     (if \<not> is_verdict (ci_result_of o') then transitions_from pending os
      else if ci_result_of o' = FAILED then transitions_from (Some o') os
      else (case pending of None \<Rightarrow> [] | Some failed \<Rightarrow> [(failed, o')]) @ transitions_from None os)"

lemma is_verdict_iff: "is_verdict r \<longleftrightarrow> r = PASSED \<or> r = FAILED"
  by (simp add: is_verdict_def)

definition adjacent :: "ci_outcome list \<Rightarrow> (ci_outcome \<times> ci_outcome) list" where
  "adjacent vs = filter (\<lambda>(failed, fixed). ci_result_of failed = FAILED \<and> ci_result_of fixed = PASSED) (zip vs (tl vs))"

lemma adjacent_Cons:
  "adjacent (v # vs) =
     (case vs of [] \<Rightarrow> [] | w # ws \<Rightarrow> if ci_result_of v = FAILED \<and> ci_result_of w = PASSED then [(v, w)] else [])
     @ adjacent vs"
  by (cases vs) (auto simp: adjacent_def)

lemma transitions_from_adjacent:
  "transitions_from pending os =
     adjacent ((case pending of None \<Rightarrow> [] | Some failed \<Rightarrow> [failed]) @ filter (\<lambda>o'. is_verdict (ci_result_of o')) os)"
  if "case pending of None \<Rightarrow> True | Some failed \<Rightarrow> ci_result_of failed = FAILED" for pending
  using that
proof (induction pending os rule: transitions_from.induct)
  case (1 pending)
  then show ?case by (auto simp: adjacent_def split: option.splits)
next
  case (2 pending o' os)
  consider "\<not> is_verdict (ci_result_of o')" | "ci_result_of o' = FAILED" | "ci_result_of o' = PASSED"
    by (auto simp: is_verdict_iff)
  then show ?case
  proof cases
    case 1
    with 2 show ?thesis by simp
  next
    case f: 2
    then have "transitions_from (Some o') os = adjacent (o' # filter (\<lambda>o'. is_verdict (ci_result_of o')) os)"
      using "2.IH"(2) by (simp add: is_verdict_iff)
    with f show ?thesis by (cases pending) (simp_all add: is_verdict_iff adjacent_Cons[of _ "o' # _"])
  next
    case p: 3
    then have ih: "transitions_from None os = adjacent (filter (\<lambda>o'. is_verdict (ci_result_of o')) os)"
      using "2.IH"(3) by (simp add: is_verdict_iff)
    have "adjacent (o' # vs) = adjacent vs" for vs
      using p by (cases vs) (simp_all add: adjacent_Cons)
    with p ih 2(4) show ?thesis
      by (cases pending) (simp_all add: is_verdict_iff adjacent_Cons[of _ "o' # _"])
  qed
qed

lemma transitions_eq: "transitions ordered = transitions_from None ordered"
  using transitions_from_adjacent[of None ordered]
  by (simp add: transitions_def adjacent_def Let_def)

lemma candidate_count_from:
  "fst (fold candidate_step os (n, pending \<noteq> None)) = n + length (transitions_from pending os)"
proof (induction pending os arbitrary: n rule: transitions_from.induct)
  case (2 pending o' os)
  then show ?case
    by (cases pending) (auto simp: candidate_step_def is_verdict_iff)
qed simp

lemma candidate_transition_count_eq: "candidate_transition_count ordered = length (transitions ordered)"
  using candidate_count_from[of ordered 0 None] by (simp add: candidate_transition_count_def transitions_eq)

section \<open>The walk through its transitions\<close>

definition paired ::
  "(ci_outcome \<Rightarrow> ci_outcome \<Rightarrow> pair_outcome result) \<Rightarrow> (recovery_sample \<Rightarrow> recovery_sample result)
   \<Rightarrow> ci_outcome \<times> ci_outcome \<Rightarrow> pair_outcome result" where
  "paired pair enrich = (\<lambda>(failed, fixed).
     bind_result (pair failed fixed) (\<lambda>p. case p of
         Inl skip \<Rightarrow> Inr (Inl skip)
       | Inr (sample, n) \<Rightarrow> bind_result (enrich sample) (\<lambda>sample. Inr (Inr (sample, n)))))"

lemma walk_transitions:
  "bind_result (fold_result (outcome_step pair enrich) os \<lparr>vw_pending_failed = pending, vw_result = r\<rparr>)
     (\<lambda>w. Inr (vw_result w))
   = bind_result (v_map (paired pair enrich) (transitions_from pending os)) (\<lambda>ps. Inr (fold record_pair ps r))"
proof (induction pending os arbitrary: r rule: transitions_from.induct)
  case (2 pending o' os)
  consider "\<not> is_verdict (ci_result_of o')" | "ci_result_of o' = FAILED" | "ci_result_of o' = PASSED"
    by (auto simp: is_verdict_iff)
  then show ?case
  proof cases
    case 1
    with "2.IH"(1) show ?thesis by (simp add: outcome_step_def is_verdict_iff)
  next
    case f: 2
    with "2.IH"(2) show ?thesis by (simp add: outcome_step_def is_verdict_iff)
  next
    case p: 3
    note ih = "2.IH"(3)[unfolded is_verdict_iff]
    show ?thesis
    proof (cases pending)
      case None
      with p ih show ?thesis by (simp add: outcome_step_def is_verdict_iff)
    next
      case (Some failed)
      show ?thesis
      proof (cases "paired pair enrich (failed, o')")
        case (Inl e)
        then show ?thesis using p Some
          by (cases "pair failed o'") (auto simp: outcome_step_def is_verdict_iff paired_def split: sum.splits prod.splits)
      next
        case (Inr q)
        then have "outcome_step pair enrich o' \<lparr>vw_pending_failed = pending, vw_result = r\<rparr>
            = Inr \<lparr>vw_pending_failed = None, vw_result = record_pair q r\<rparr>"
          using p Some
          by (cases "pair failed o'") (auto simp: outcome_step_def is_verdict_iff paired_def split: sum.splits prod.splits)
        with Inr p Some ih[of "record_pair q r"] show ?thesis
          by (cases "v_map (paired pair enrich) (transitions_from None os)") (simp_all add: is_verdict_iff)
      qed
    qed
  qed
qed simp

section \<open>Recording a list of pairs\<close>

definition samples :: "pair_outcome list \<Rightarrow> (recovery_sample \<times> int) list" where
  "samples ps = map projr (filter (\<lambda>p. \<not> isl p) ps)"

definition skips :: "pair_outcome list \<Rightarrow> (recovery_skip \<times> int option) list" where
  "skips ps = map projl (filter isl ps)"

lemma in_samples: "(s, n) \<in> set (samples ps) \<longleftrightarrow> Inr (s, n) \<in> set ps"
  unfolding samples_def by (force simp: isl_def)

lemma samples_skips_length: "length (samples ps) + length (skips ps) = length ps"
  unfolding samples_def skips_def length_map by (induction ps) auto

lemma record_pairs:
  "vr_pairs (fold record_pair ps r) = vr_pairs r @ map fst (samples ps)"
  "vr_kept_diff_line_counts (fold record_pair ps r) = vr_kept_diff_line_counts r @ map snd (samples ps)"
  "vr_skipped (fold record_pair ps r) x = vr_skipped r x + length (filter (\<lambda>(skip, n). skip = x) (skips ps))"
  "vr_dropped_diff_line_counts (fold record_pair ps r) = vr_dropped_diff_line_counts r
     @ concat (map (\<lambda>(skip, n). case n of Some k \<Rightarrow> if skip = diff_oversized then [k] else [] | None \<Rightarrow> []) (skips ps))"
proof (induction ps rule: rev_induct)
  case (snoc p ps)
  consider skip n where "p = Inl (skip, n)" | sample n where "p = Inr (sample, n)"
    by (metis sum.exhaust surj_pair)
  note step = this
  { case 1 show ?case by (rule step) (simp_all add: snoc.IH samples_def) }
  { case 2 show ?case by (rule step) (simp_all add: snoc.IH samples_def) }
  { case 3 show ?case by (rule step) (simp_all add: snoc.IH skips_def) }
  { case 4 show ?case by (rule step) (simp_all add: snoc.IH skips_def) }
qed (simp_all add: samples_def skips_def)

definition pair_skips :: "recovery_skip set" where
  "pair_skips = {same_commit, ancestry_check_failed, not_ancestor, diff_unavailable, diff_oversized}"

lemma finite_pair_skips [simp]: "finite pair_skips"
  by (simp add: pair_skips_def)

lemma paired_cases:
  assumes "paired (\<lambda>failed fixed. try_pair mirror repository org_id repo branch failed fixed completions policy provenance)
      (with_evidence evidence repository) (failed, fixed) = Inr p"
  shows "case p of
      Inl (skip, n) \<Rightarrow> skip \<in> pair_skips
        \<and> (skip = diff_oversized \<longleftrightarrow> n \<noteq> None) \<and> (\<forall>k. n = Some k \<longrightarrow> vp_max_recovery_diff_lines policy < k)
    | Inr (s, n) \<Rightarrow> n = diff_line_count (rp_recovery_diff s) \<and> n \<le> vp_max_recovery_diff_lines policy
        \<and> rp_failed_commit_sha s = ci_commit_sha failed \<and> rp_fixed_commit_sha s = ci_commit_sha fixed
        \<and> ci_commit_sha failed \<noteq> ci_commit_sha fixed
        \<and> rm_is_ancestor mirror (ci_commit_sha failed) (ci_commit_sha fixed) = Some True
        \<and> rm_diff_range mirror (ci_commit_sha failed) (ci_commit_sha fixed) = Some (rp_recovery_diff s)
        \<and> rp_failed_outcome_id s = ci_id failed \<and> rp_fixed_outcome_id s = ci_id fixed
        \<and> rp_org_id s = org_id \<and> rp_branch s = branch \<and> rp_repo s = repo"
  using assms
  by (auto simp: paired_def try_pair_def Let_def with_evidence_def pair_skips_def
      split: if_splits option.splits bool.splits sum.splits prod.splits)

lemma lineage_step_Some:
  assumes "lineage_step ctx mirrors org_id completions evidence policy provenance
      ((repository, branch, rest), outcomes) r = Inr r'"
    and "mirrors repository = Some mirror"
  obtains repo ps where "repo_for ctx repository = Inr repo"
    "v_map (paired (\<lambda>failed fixed. try_pair mirror repository org_id repo branch failed fixed completions policy provenance)
       (with_evidence evidence repository)) (transitions (sort_key capture_order outcomes)) = Inr ps"
    "r' = fold record_pair ps r"
proof -
  obtain repo where repo: "repo_for ctx repository = Inr repo"
    and w: "bind_result (fold_result (outcome_step (\<lambda>failed fixed. try_pair mirror repository org_id repo branch failed fixed
                     completions policy provenance) (with_evidence evidence repository))
                (sort_key capture_order outcomes) \<lparr>vw_pending_failed = None, vw_result = r\<rparr>) (\<lambda>w. Inr (vw_result w)) = Inr r'"
    using assms by (auto simp: lineage_step_def Let_def v_map_check split: if_splits)
  show ?thesis
    using w that[OF repo] unfolding walk_transitions transitions_eq by auto
qed

lemma lineage_step_pairs:
  assumes "lineage_step ctx mirrors org_id completions evidence policy provenance
      ((repository, branch, rest), outcomes) r = Inr r'"
    and "mirrors repository = Some mirror"
  obtains repo ps where "r' = fold record_pair ps r" "length ps = length (transitions (sort_key capture_order outcomes))"
    "\<forall>p\<in>set ps. \<exists>failed fixed. (failed, fixed) \<in> set (transitions (sort_key capture_order outcomes))
       \<and> paired (\<lambda>failed fixed. try_pair mirror repository org_id repo branch failed fixed completions policy provenance)
           (with_evidence evidence repository) (failed, fixed) = Inr p"
  by (rule lineage_step_Some[OF assms]) (force simp: v_map_Inr intro: that)

lemma skips_classified:
  assumes "\<And>skip n. Inl (skip, n) \<in> set ps \<Longrightarrow> skip \<in> X" "finite X"
  shows "(\<Sum>x\<in>X. length (filter (\<lambda>(skip, n). skip = x) (skips ps))) = length (skips ps)"
proof -
  have "fst q \<in> X" if "q \<in> set (skips ps)" for q
    using that assms(1)[of "fst q" "snd q"] by (auto simp: skips_def isl_def)
  then show ?thesis
    using length_filter_sum[of X "skips ps" "\<lambda>q. Some (fst q)"] assms(2) by (simp add: split_def)
qed

lemma dropped_classified:
  assumes "\<And>skip n. Inl (skip, n) \<in> set ps \<Longrightarrow> (skip = diff_oversized \<longleftrightarrow> n \<noteq> None) \<and> (\<forall>k. n = Some k \<longrightarrow> limit < k)"
    and "D = concat (map (\<lambda>(skip, n). case n of Some k \<Rightarrow> if skip = diff_oversized then [k] else [] | None \<Rightarrow> []) (skips ps))"
  shows "length D = length (filter (\<lambda>(skip, n). skip = diff_oversized) (skips ps)) \<and> (\<forall>k\<in>set D. limit < k)"
  using assms
proof (induction ps arbitrary: D)
  case (Cons p ps)
  show ?case
  proof (cases p)
    case (Inl q)
    obtain skip n where q: "q = (skip, n)" by fastforce
    with Inl Cons.prems(1)[of skip n] have "skip = diff_oversized \<longleftrightarrow> n \<noteq> None" "\<forall>k. n = Some k \<longrightarrow> limit < k"
      by simp_all
    with Inl q Cons show ?thesis by (cases n) (auto simp: skips_def)
  next
    case (Inr x)
    with Cons show ?thesis by (simp add: skips_def)
  qed
qed (simp add: skips_def)

text \<open>C21. Every red-to-green transition of a check is accounted for exactly once. With a mirror, each
  failed run whose next verdict passed becomes one pair or one counted skip, the kept diffs are
  exactly the pairs' and within the limit, and the recorded oversized ones are over it; without a
  mirror, the skip counted is the number of those transitions.\<close>

theorem recovery_transitions_accounted:
  assumes "lineage_step ctx mirrors org_id completions evidence policy provenance
      ((repository, branch, rest), outcomes) r = Inr r'"
  shows "case mirrors repository of
      None \<Rightarrow> r' = r\<lparr>vr_skipped := ctr_add recovery_mirror_absent
        (length (transitions (sort_key capture_order outcomes))) (vr_skipped r)\<rparr>
    | Some mirror \<Rightarrow> \<exists>pairs kept dropped.
        vr_pairs r' = vr_pairs r @ pairs
        \<and> vr_kept_diff_line_counts r' = vr_kept_diff_line_counts r @ kept
        \<and> vr_dropped_diff_line_counts r' = vr_dropped_diff_line_counts r @ dropped
        \<and> kept = map (diff_line_count \<circ> rp_recovery_diff) pairs
        \<and> (\<forall>n\<in>set kept. n \<le> vp_max_recovery_diff_lines policy)
        \<and> (\<forall>n\<in>set dropped. vp_max_recovery_diff_lines policy < n)
        \<and> vr_skipped r' diff_oversized = vr_skipped r diff_oversized + length dropped
        \<and> length pairs + (\<Sum>x\<in>{same_commit, ancestry_check_failed, not_ancestor, diff_unavailable, diff_oversized}.
             vr_skipped r' x - vr_skipped r x)
          = length (transitions (sort_key capture_order outcomes))"
proof (cases "mirrors repository")
  case None
  with assms show ?thesis
    by (auto simp: lineage_step_def Let_def v_map_check candidate_transition_count_eq split: if_splits)
next
  case (Some mirror)
  obtain repo ps where r': "r' = fold record_pair ps r"
    and n: "length ps = length (transitions (sort_key capture_order outcomes))"
    and each: "\<forall>p\<in>set ps. \<exists>failed fixed. (failed, fixed) \<in> set (transitions (sort_key capture_order outcomes))
       \<and> paired (\<lambda>failed fixed. try_pair mirror repository org_id repo branch failed fixed completions policy provenance)
           (with_evidence evidence repository) (failed, fixed) = Inr p"
    by (rule lineage_step_pairs[OF assms Some]) blast
  have skip: "skip \<in> pair_skips \<and> (skip = diff_oversized \<longleftrightarrow> k \<noteq> None)
      \<and> (\<forall>j. k = Some j \<longrightarrow> vp_max_recovery_diff_lines policy < j)" if "Inl (skip, k) \<in> set ps" for skip k
    using bspec[OF each that] paired_cases by fastforce
  have sample: "k = diff_line_count (rp_recovery_diff s) \<and> k \<le> vp_max_recovery_diff_lines policy"
    if "(s, k) \<in> set (samples ps)" for s k
    using bspec[OF each that[unfolded in_samples]] paired_cases by fastforce
  let ?D = "concat (map (\<lambda>(skip, n). case n of Some k \<Rightarrow> if skip = diff_oversized then [k] else [] | None \<Rightarrow> []) (skips ps))"
  have d: "length ?D = length (filter (\<lambda>(skip, n). skip = diff_oversized) (skips ps))
      \<and> (\<forall>k\<in>set ?D. vp_max_recovery_diff_lines policy < k)"
    by (rule dropped_classified[OF _ refl]) (use skip in blast)
  have k: "map snd (samples ps) = map (diff_line_count \<circ> rp_recovery_diff) (map fst (samples ps))"
    using sample by auto
  have sums: "(\<Sum>x\<in>pair_skips. vr_skipped r' x - vr_skipped r x) = length (skips ps)"
    unfolding r' record_pairs using skips_classified[of ps pair_skips] skip by simp
  show ?thesis
    unfolding Some option.case
    by (rule exI[of _ "map fst (samples ps)"], rule exI[of _ "map snd (samples ps)"], rule exI[of _ ?D])
      (use k d sums sample n samples_skips_length[of ps] in \<open>auto simp: r' record_pairs pair_skips_def\<close>)
qed

section \<open>Soundness of the emitted pairs\<close>

lemma lineage_fold_pairs:
  assumes "fold_result (lineage_step ctx mirrors org_id completions evidence policy provenance) ls r = Inr r'"
    and "s \<in> set (vr_pairs r')"
  shows "s \<in> set (vr_pairs r) \<or> (\<exists>repository branch rest outcomes mirror repo n failed fixed.
     ((repository, branch, rest), outcomes) \<in> set ls \<and> mirrors repository = Some mirror
     \<and> (failed, fixed) \<in> set (transitions (sort_key capture_order outcomes))
     \<and> paired (\<lambda>failed fixed. try_pair mirror repository org_id repo branch failed fixed completions policy provenance)
           (with_evidence evidence repository) (failed, fixed) = Inr (Inr (s, n)))"
  using assms(1)
proof (induction ls arbitrary: r)
  case Nil
  with assms(2) show ?case by simp
next
  case (Cons l ls)
  obtain repository branch rest outcomes where l: "l = ((repository, branch, rest), outcomes)" by (metis surj_pair)
  obtain r1 where r1: "lineage_step ctx mirrors org_id completions evidence policy provenance l r = Inr r1"
    and rest: "fold_result (lineage_step ctx mirrors org_id completions evidence policy provenance) ls r1 = Inr r'"
    using Cons.prems by auto
  show ?case
  proof (cases "s \<in> set (vr_pairs r1)")
    case False
    then show ?thesis using Cons.IH[OF rest] by fastforce
  next
    case True
    show ?thesis
    proof (cases "mirrors repository")
      case None
      then have "vr_pairs r1 = vr_pairs r"
        using r1 unfolding l by (auto simp: lineage_step_def Let_def v_map_check split: if_splits)
      with True show ?thesis by simp
    next
      case (Some mirror)
      obtain repo ps where ps: "r1 = fold record_pair ps r"
        and each: "\<forall>p\<in>set ps. \<exists>failed fixed. (failed, fixed) \<in> set (transitions (sort_key capture_order outcomes))
       \<and> paired (\<lambda>failed fixed. try_pair mirror repository org_id repo branch failed fixed completions policy provenance)
           (with_evidence evidence repository) (failed, fixed) = Inr p"
        by (rule lineage_step_pairs[OF r1[unfolded l] Some]) blast
      have "s \<in> set (vr_pairs r) \<or> (\<exists>n. Inr (s, n) \<in> set ps)"
        using True unfolding ps record_pairs by (auto simp: in_samples)
      then show ?thesis
      proof
        assume "\<exists>n. Inr (s, n) \<in> set ps"
        with each show ?thesis unfolding l using Some by (metis list.set_intros(1))
      qed simp
    qed
  qed
qed

lemma sorted_adjacent:
  "sorted (map f xs) \<Longrightarrow> (a, b) \<in> set (zip xs (tl xs)) \<Longrightarrow> f a \<le> f b"
  by (induction xs rule: induct_list012) auto

lemma transitions_sound:
  assumes "(failed, fixed) \<in> set (transitions (sort_key capture_order outcomes))"
  shows "failed \<in> set outcomes \<and> fixed \<in> set outcomes \<and> ci_result_of failed = FAILED \<and> ci_result_of fixed = PASSED
     \<and> capture_order failed \<le> capture_order fixed"
proof -
  let ?v = "filter (\<lambda>o'. is_verdict (ci_result_of o')) (sort_key capture_order outcomes)"
  have z: "(failed, fixed) \<in> set (zip ?v (tl ?v))" "ci_result_of failed = FAILED" "ci_result_of fixed = PASSED"
    using assms by (auto simp: transitions_def Let_def)
  have "sorted (map capture_order ?v)" by (simp add: sorted_filter)
  from sorted_adjacent[OF this z(1)] have "capture_order failed \<le> capture_order fixed" .
  moreover have "failed \<in> set ?v" "fixed \<in> set (tl ?v)" using z(1) by (auto dest: set_zip_leftD set_zip_rightD)
  moreover have "set (tl ?v) \<subseteq> set ?v" by (cases ?v) auto
  moreover have "set ?v \<subseteq> set outcomes" by auto
  ultimately show ?thesis using z(2,3) by blast
qed

lemma in_lineages:
  assumes "(key, outcomes) \<in> set (lineages rows)" "o' \<in> set outcomes"
  shows "(key, o') \<in> set rows"
  using assms by (auto simp: lineages_def set_group_by)

definition check_definition :: "workflow_resolution \<Rightarrow> string \<times> string" where
  "check_definition w =
     (if truthy (wr_workflow_id w) then (''id'', the (wr_workflow_id w)) else (''path'', the (wr_workflow_path w)))"

lemma workflow_lineage_row:
  assumes "workflow_lineage ctx m w = Inr (Inr ((repository, branch, provider, defn), outcome))"
  shows "\<not> wr_suspected_flake w" "branch = wr_branch w" "provider = ci_provider_value (wr_provider w)"
    "defn = check_definition w"
    "\<exists>i. wr_verdict_outcome_id w = Some i \<and> m i = Some outcome"
    "rs_key (resolve_fact ctx (CIFact outcome) fact_spelling REPO) = Some repository"
  using assms
  by (auto simp: workflow_lineage_def check_definition_def Let_def split: if_splits option.splits)

text \<open>A run's outcomes share the identity the run resolved to.\<close>

lemma run_identity_values:
  assumes "run_identity run = Some identity" "o' \<in> set run"
  shows "ci_branch o' = rv_branch identity"
    "truthy (ci_workflow_id o') \<Longrightarrow> rv_workflow_id identity = ci_workflow_id o'"
proof -
  have c: "card (set (map ci_branch run)) = 1" "rv_branch identity = the_elem (set (map ci_branch run))"
    "card (present_values ci_workflow_id run) \<le> 1" "rv_workflow_id identity = sole (present_values ci_workflow_id run)"
    using assms(1) by (auto simp: run_identity_def Let_def split: if_splits)
  have "ci_branch o' \<in> set (map ci_branch run)" using assms(2) by simp
  with c(1,2) show "ci_branch o' = rv_branch identity"
    by (metis card_1_singletonE singletonD the_elem_eq)
  assume "truthy (ci_workflow_id o')"
  then obtain v where v: "ci_workflow_id o' = Some v" "v \<noteq> []"
    by (auto simp: truthy_def split: option.splits)
  have m: "v \<in> present_values ci_workflow_id run"
    using assms(2) v unfolding present_values_def set_concat set_map UN_iff by (intro bexI[of _ "[v]"]) force+
  have "finite (present_values ci_workflow_id run)" unfolding present_values_def by (rule finite_set)
  with m c(3) have "present_values ci_workflow_id run = {v}"
    using card_le_1_eq[of "present_values ci_workflow_id run" _ v] by blast
  with v(1) c(4) show "rv_workflow_id identity = ci_workflow_id o'" by (simp add: sole_def)
qed

lemma resolved_verdict_outcome:
  assumes "wr_verdict_outcome_id (resolve_workflow run policy identity) = Some i"
  obtains o' where "o' \<in> set run" "ci_id o' = i"
proof -
  have "verdict_outcomes run \<noteq> []" "i = ci_id (last (verdict_outcomes run))"
    using assms by (auto simp: resolve_workflow_def Let_def split: if_splits)
  then show ?thesis
    using that last_in_set[of "verdict_outcomes run"] by (auto simp: set_verdict_outcomes)
qed

lemma sorted_run_members:
  assumes "run \<in> set (sorted_runs scope)" "o' \<in> set run"
  shows "set run = {x \<in> set scope. run_key x = run_key o'}"
  using assms by (auto simp: sorted_runs_eq)

lemma map_of_ids:
  assumes "inj_on ci_id (set outcomes)"
  shows "map_of (map (\<lambda>o'. (ci_id o', o')) (rev outcomes)) i = Some x \<longleftrightarrow> x \<in> set outcomes \<and> ci_id x = i"
proof
  let ?m = "map_of (map (\<lambda>o'. (ci_id o', o')) (rev outcomes))"
  assume x: "x \<in> set outcomes \<and> ci_id x = i"
  then have "i \<in> fst ` set (map (\<lambda>o'. (ci_id o', o')) (rev outcomes))" by force
  then have "?m i \<noteq> None" unfolding map_of_eq_None_iff by simp
  then obtain y where y: "?m i = Some y" by blast
  then have "y \<in> set outcomes" "ci_id y = ci_id x" using x by (auto dest!: map_of_SomeD)
  with x y show "?m i = Some x" using inj_onD[OF assms, of y x] by simp
next
  assume "map_of (map (\<lambda>o'. (ci_id o', o')) (rev outcomes)) i = Some x"
  then show "x \<in> set outcomes \<and> ci_id x = i" by (auto dest!: map_of_SomeD)
qed

lemma lineage_outcome:
  assumes ci: "derive_ci_resolution_result outcomes policy digest revision (Some ctx) = Inr ci"
    and m: "m = map_of (map (\<lambda>o'. (ci_id o', o')) (rev outcomes))" and inj: "inj_on ci_id (set outcomes)"
    and w: "w \<in> set (resolution_workflows (crr_resolutions ci))"
    and row: "workflow_lineage ctx m w = Inr (Inr ((repository, branch, provider, defn), x))"
  shows "x \<in> set outcomes \<and> in_scope ctx x \<and> ci_branch x = branch \<and> ci_provider_value (ci_provider_of x) = provider
    \<and> (truthy (ci_workflow_id x) \<longrightarrow> defn = (''id'', the (ci_workflow_id x)))
    \<and> (ci_result_of x = FAILED \<longrightarrow> PASSED \<notin> ci_result_of ` {y \<in> set outcomes. in_scope ctx y \<and> run_key y = run_key x})
    \<and> (ci_result_of x = PASSED \<longrightarrow> FAILED \<notin> ci_result_of ` {y \<in> set outcomes. in_scope ctx y \<and> run_key y = run_key x})"
proof -
  obtain res where res: "res \<in> set (crr_resolutions ci)" "w \<in> set (cr_workflow_resolutions res)"
    using w by (auto simp: resolution_workflows_def)
  obtain run identity where run: "run \<in> set (sorted_runs (filter (in_scope ctx) outcomes))" "run_identity run = Some identity"
    and wr: "w = resolve_workflow run (policy) identity"
    by (rule resolved_workflow_run[OF ci res]) (auto simp: declared_scope_def)
  note row = workflow_lineage_row[OF row]
  obtain i where i: "wr_verdict_outcome_id w = Some i" "m i = Some x" using row(5) by blast
  then have x: "x \<in> set outcomes" "ci_id x = i" unfolding m map_of_ids[OF inj] by auto
  have xr: "x \<in> set run"
  proof (rule resolved_verdict_outcome[OF i(1)[unfolded wr]])
    fix y assume y: "y \<in> set run" "ci_id y = i"
    then have "y \<in> set outcomes" using sorted_run_members[OF run(1) y(1)] by auto
    with x y inj show ?thesis by (auto dest: inj_onD)
  qed
  note members = sorted_run_members[OF run(1) xr]
  have sc: "in_scope ctx x" using xr unfolding members by simp
  have "hd run \<in> set run" using xr by (cases run) auto
  then have "run_key (hd run) = run_key x" using members by auto
  then have "wr_provider w = ci_provider_of x"
    using run_key_first(1)[of "hd run" x] by (simp add: wr resolve_workflow_def Let_def)
  moreover have "wr_branch w = rv_branch identity" "wr_workflow_id w = rv_workflow_id identity"
    "wr_suspected_flake w = suspected_flake run"
    by (simp_all add: wr resolve_workflow_def Let_def)
  moreover from this row(1) have "ci_result_of x = FAILED \<longrightarrow> PASSED \<notin> ci_result_of ` set run"
    "ci_result_of x = PASSED \<longrightarrow> FAILED \<notin> ci_result_of ` set run"
    unfolding suspected_flake_iff using imageI[OF xr, of ci_result_of] by auto
  ultimately show ?thesis
    using x(1) sc row(2-4) run_identity_values[OF run(2) xr]
    unfolding members by (simp add: check_definition_def)
qed

definition same_check :: "ci_outcome \<Rightarrow> ci_outcome \<Rightarrow> bool" where
  "same_check a b \<longleftrightarrow> ci_branch a = ci_branch b \<and> ci_provider_of a = ci_provider_of b
     \<and> (truthy (ci_workflow_id a) \<and> truthy (ci_workflow_id b) \<longrightarrow> ci_workflow_id a = ci_workflow_id b)"

lemma same_checkI:
  assumes "ci_branch a = branch" "ci_branch b = branch"
    "ci_provider_value (ci_provider_of a) = provider" "ci_provider_value (ci_provider_of b) = provider"
    "truthy (ci_workflow_id a) \<longrightarrow> defn = (''id'', the (ci_workflow_id a))"
    "truthy (ci_workflow_id b) \<longrightarrow> defn = (''id'', the (ci_workflow_id b))"
  shows "same_check a b"
proof -
  have "ci_provider_of a = ci_provider_of b" using assms(3,4) by (simp flip: ci_provider_value_inject)
  moreover have "ci_workflow_id a = ci_workflow_id b" if "truthy (ci_workflow_id a)" "truthy (ci_workflow_id b)"
    using assms(5,6) that by (cases "ci_workflow_id a"; cases "ci_workflow_id b") (simp_all add: truthy_def)
  ultimately show ?thesis using assms(1,2) by (simp add: same_check_def)
qed

lemma derive_recovery_cases:
  assumes "derive_recovery_result snapshot mirrors org_id policy ci_digest policy_digest context as_of = Inr r"
    and "sn_ci_outcomes snapshot None None = Inr rows"
  obtains ctx outcomes where "recovery_context snapshot org_id context as_of = Inr ctx"
    "outcomes = filter (\<lambda>o'. ci_org_id o' = org_id \<and> ci_captured_at o' \<le> rc_as_of ctx) rows"
    "vr_pairs r = []"
  | ctx outcomes ci checked completions evidence provenance r0 where
    "recovery_context snapshot org_id context as_of = Inr ctx"
    "outcomes = filter (\<lambda>o'. ci_org_id o' = org_id \<and> ci_captured_at o' \<le> rc_as_of ctx) rows"
    "derive_ci_resolution_result outcomes (vp_ci_resolution policy) (Some ci_digest) (pr_quarantine_revision provenance) (Some ctx) = Inr ci"
    "v_map (workflow_lineage ctx (map_of (map (\<lambda>o'. (ci_id o', o')) (rev outcomes))))
       (resolution_workflows (crr_resolutions ci)) = Inr checked"
    "fold_result (lineage_step ctx mirrors org_id completions evidence policy provenance)
       (lineages (map projr (filter (\<lambda>r. \<not> isl r) checked))) r0 = Inr r"
    "vr_pairs r0 = []"
  using assms
  by (auto simp: derive_recovery_result_def Let_def v_map_check split: if_splits)

lemma checked_rows:
  assumes "v_map (workflow_lineage ctx m) ws = Inr checked"
    and "(key, x) \<in> set (map projr (filter (\<lambda>r. \<not> isl r) checked))"
  obtains w where "w \<in> set ws" "workflow_lineage ctx m w = Inr (Inr (key, x))"
  using assms unfolding v_map_Inr by (force simp: isl_def)


section \<open>Order of the stored rows\<close>

text \<open>Nothing but the pairing itself reads the CI outcomes of the snapshot.\<close>

lemma recovery_reads_ci_only:
  "recovery_context (snapshot\<lparr>sn_ci_outcomes := f\<rparr>) org_id context as_of = recovery_context snapshot org_id context as_of"
  "attribution_evidence_by_commit (snapshot\<lparr>sn_ci_outcomes := f\<rparr>) mirrors org_id ap policy_digest ctx
     = attribution_evidence_by_commit snapshot mirrors org_id ap policy_digest ctx"
proof -
  let ?s = "snapshot\<lparr>sn_ci_outcomes := f\<rparr>"
  have q: "sn_identities ?s = sn_identities snapshot" "sn_renames ?s = sn_renames snapshot"
    "sn_call_summaries ?s = sn_call_summaries snapshot" "sn_observations ?s = sn_observations snapshot"
    "sn_candidates ?s = sn_candidates snapshot" "sn_pushes ?s = sn_pushes snapshot"
    "sn_quarantine_revision ?s = sn_quarantine_revision snapshot"
    by simp_all
  have r: "read_repository_context ?s = read_repository_context snapshot"
    by (intro ext) (unfold read_repository_context_def q, rule refl)
  show "recovery_context ?s org_id context as_of = recovery_context snapshot org_id context as_of"
    unfolding recovery_context_def r q by (rule refl)
  have d: "derive_in_context ?s = derive_in_context snapshot"
    by (intro ext) (unfold derive_in_context_def captured_notes_def scope_candidates_def q, rule refl)
  show "attribution_evidence_by_commit ?s mirrors org_id ap policy_digest ctx
     = attribution_evidence_by_commit snapshot mirrors org_id ap policy_digest ctx"
    unfolding attribution_evidence_by_commit_def derive_attributions_def derive_attribution_result_def r q d by (rule refl)
qed

lemma option_ext: "(\<And>z. a = Some z \<longleftrightarrow> b = Some z) \<Longrightarrow> a = b"
  by (cases a; cases b) auto

lemma map_of_ids_perm:
  assumes "inj_on ci_id (set xs)" "mset xs = mset ys"
  shows "map_of (map (\<lambda>o'. (ci_id o', o')) (rev xs)) = map_of (map (\<lambda>o'. (ci_id o', o')) (rev ys))"
proof
  fix i
  note s = mset_eq_setD[OF assms(2)]
  note x = map_of_ids[OF assms(1), of i] and y = map_of_ids[OF assms(1)[unfolded s], of i]
  show "map_of (map (\<lambda>o'. (ci_id o', o')) (rev xs)) i = map_of (map (\<lambda>o'. (ci_id o', o')) (rev ys)) i"
    by (rule option_ext) (unfold x y s, rule refl)
qed

text \<open>Recovery pairs are a function of the stored Facts, not of the order the store returns them in:
  permuting the CI outcomes, whose ids are distinct, gives the same pairs in the same order and the
  same counts.\<close>

theorem recovery_order_independent:
  assumes "derive_recovery_result snapshot mirrors org_id policy ci_digest policy_digest context as_of = Inr r"
    and "sn_ci_outcomes snapshot None None = Inr rows" "inj_on ci_id (set rows)" "mset rows = mset rows'"
  shows "derive_recovery_result (snapshot\<lparr>sn_ci_outcomes := \<lambda>through limit. Inr rows'\<rparr>) mirrors org_id policy
      ci_digest policy_digest context as_of = Inr r"
proof -
  have f: "mset (filter P rows) = mset (filter P rows')" "inj_on ci_id (set (filter P rows))" for P
    using assms(3,4) by (auto elim: inj_on_subset)
  have "list_all P xs \<longleftrightarrow> list_all P ys" if "mset xs = mset ys" for P and xs ys :: "ci_outcome list"
    using mset_eq_setD[OF that] by (simp add: list_all_iff)
  note la = this[OF f(1)]
  have "filter P rows = [] \<longleftrightarrow> filter P rows' = []" for P using f(1)[of P] by (metis mset_zero_iff)
  note em = this
  note ci = derive_ci_perm[OF _ f] and ids = map_of_ids_perm[OF f(2) f(1)]
  show ?thesis
    using assms(1,2)
    by (auto simp: derive_recovery_result_def recovery_reads_ci_only Let_def v_map_check la em ids split: if_splits dest!: ci)
qed

section \<open>Changed lines\<close>

definition one_line :: "ustr \<Rightarrow> bool" where
  "one_line l = list_all (\<lambda>c. \<not> line_boundary c) l"

lemma splitlines_line:
  assumes "one_line l"
  shows "u_splitlines (with_lf l @ rest) = l # u_splitlines rest"
proof -
  have l: "\<forall>c\<in>set l. \<not> line_boundary c" using assms by (simp add: one_line_def list_all_iff)
  have b: "line_boundary 10" by (simp add: line_boundary_def)
  have "takeWhile (\<lambda>c. \<not> line_boundary c) (with_lf l @ rest) = l"
    "dropWhile (\<lambda>c. \<not> line_boundary c) (with_lf l @ rest) = 10 # rest"
    using l b by (simp_all add: takeWhile_append2 dropWhile_append2)
  then show ?thesis
    by (subst u_splitlines.simps) (simp add: after_boundary_def)
qed

lemma splitlines_lines: "list_all one_line ls \<Longrightarrow> u_splitlines (concat (map with_lf ls)) = ls"
  by (induction ls) (simp_all add: splitlines_line[simplified] u_splitlines.simps[of "[]"])

fun is_change :: "diff_line \<Rightarrow> bool" where
  "is_change (Context t) = False"
| "is_change l = True"

definition changed_lines :: "hunk list \<Rightarrow> nat" where
  "changed_lines hunks = sum_list (map (\<lambda>(gap, body). length (filter is_change body)) hunks)"

lemma count_body:
  "fold count_line (map line_text body) (n, True) = (n + int (length (filter is_change body)), True)"
proof (induction body arbitrary: n)
  case (Cons l body)
  then show ?case by (cases l) (simp_all add: count_line_def lit_eval)
qed simp

lemma count_hunks:
  "fold count_line (hunk_text a b hs) (n, h) = (n + int (changed_lines hs), h \<or> hs \<noteq> [])"
proof (induction a b hs arbitrary: n h rule: hunk_text.induct)
  case (2 a b gap body hs)
  have "count_line (hunk_header i j k m) (n, h) = (n, True)" for i j k m
    by (simp add: count_line_def hunk_header_def lit_eval)
  with 2 show ?case by (simp add: changed_lines_def count_body)
qed (simp add: changed_lines_def)

lemma count_change:
  "\<exists>h. fold count_line (change_title c # change_lines c) (n, b) = (n + int (changed_lines (change_hunks c)), h)"
proof -
  have t: "count_line (change_title c) (n, b) = (n, False)"
    by (simp add: count_line_def change_title_def lit_eval)
  have "fold count_line (change_lines c) (n, False) = (n + int (changed_lines (change_hunks c)), change_hunks c \<noteq> [])"
    by (cases c) (simp_all add: count_line_def lit_eval count_hunks changed_lines_def)
  with t show ?thesis by simp
qed

lemma count_changes:
  "fst (fold count_line (concat (map (\<lambda>c. change_title c # change_lines c) changes)) (n, b))
     = n + int (sum_list (map (changed_lines \<circ> change_hunks) changes))"
proof (induction changes arbitrary: n b)
  case (Cons c changes)
  obtain h where "fold count_line (change_title c # change_lines c) (n, b) = (n + int (changed_lines (change_hunks c)), h)"
    using count_change by blast
  with Cons show ?case by simp
qed simp

text \<open>The size gate counts what Git counts: on a rendered diff whose lines hold no line boundary
  of their own, the changed-line count is the number of added plus removed lines, also where the
  content itself looks like a file header.\<close>

theorem diff_line_count_changes:
  assumes "list_all (\<lambda>c. list_all one_line (change_title c # change_lines c)) changes"
  shows "diff_line_count (diff_text changes) = int (sum_list (map (changed_lines \<circ> change_hunks) changes))"
proof -
  let ?ls = "concat (map (\<lambda>c. change_title c # change_lines c) changes)"
  have "diff_text changes = concat (map with_lf ?ls)"
    by (induction changes) (simp_all add: diff_text_def change_text_def)
  moreover have "list_all one_line ?ls" using assms by (auto simp: list_all_iff)
  ultimately show ?thesis
    by (simp add: diff_line_count_def splitlines_lines count_changes del: map_concat)
qed

text \<open>A form feed in a changed line is a line boundary to \<open>splitlines\<close> but not to Git, so what follows
  it is counted as a line of its own.\<close>

lemma form_feed_counts_twice:
  "diff_line_count (diff_text [Modify (lit ''a.py'') [(0, [Added (lit ''x'' @ [12] @ lit ''+y'')])]]) = 2
   \<and> changed_lines [(0, [Added (lit ''x'' @ [12] @ lit ''+y'')])] = 1"
  by (simp add: diff_line_count_def diff_text_def change_text_def change_title_def name_tab_def changed_lines_def
      lit_eval hunk_header_def range_start_def dec.simps u_splitlines.simps line_boundary_def after_boundary_def
      count_line_def)

section \<open>Witnesses\<close>

definition red :: ci_outcome where
  "red = (sample_outcome ''c1'' 1 FAILED)\<lparr>ci_run_id := ''r1'', ci_workflow_id := Some ''w''\<rparr>"

definition fix_sha :: string where
  "fix_sha = replicate 40 CHR ''b''"

definition green :: ci_outcome where
  "green = (sample_outcome ''c2'' 1 PASSED)\<lparr>ci_run_id := ''r2'', ci_workflow_id := Some ''w'', ci_commit_sha := fix_sha\<rparr>"

abbreviation sample_repository :: repository_key where
  "sample_repository \<equiv> LegacyRepositoryKey ''acme'' ''acme/old''"

definition outcome_evidence :: "string \<Rightarrow> identity_evidence" where
  "outcome_evidence i = role_evidence CI_OUTCOMES i REPO ''acme'' ''acme/old'' None None None 6 fact_spelling None"

definition pair_context :: repository_context where
  "pair_context =
     \<lparr>rc_org_id = ''acme'', rc_as_of = 10, rc_skipped = ctr_empty, rc_rename_skipped = ctr_empty,
      rc_sources = fmap_of_list (map (\<lambda>i. ((CI_OUTCOMES, i, REPO), outcome_evidence i)) [''c1'', ''c2'']),
      rc_resolutions = fmap_of_list (map (\<lambda>i. ((CI_OUTCOMES, i, REPO), resolved_as sample_repository ''acme/old'')) [''c1'', ''c2'']),
      rc_names = fmempty, rc_claims = fmempty, rc_unsafe_slugs = {}\<rparr>"

lemma outcome_evidence_valid:
  "i = ''c1'' \<or> i = ''c2'' \<Longrightarrow> validate_evidence (outcome_evidence i) = Inr (outcome_evidence i)"
  by (auto simp: outcome_evidence_def role_evidence_def validator_eval char_of_eq_iff take_bit_eq_mod)

lemma pair_resolved:
  "resolve_fact pair_context (CIFact red) fact_spelling REPO = resolved_as sample_repository ''acme/old''"
  "resolve_fact pair_context (CIFact green) fact_spelling REPO = resolved_as sample_repository ''acme/old''"
proof -
  have e: "repository_identity_evidence_of (CIFact red) fact_spelling REPO = Inr (outcome_evidence ''c1'')"
    "repository_identity_evidence_of (CIFact green) fact_spelling REPO = Inr (outcome_evidence ''c2'')"
    using outcome_evidence_valid[of "''c1''"] outcome_evidence_valid[of "''c2''"]
    by (simp_all add: repository_identity_evidence_of_def red_def green_def sample_outcome_def outcome_evidence_def)
  have k: "source_key_of (outcome_evidence i) = (CI_OUTCOMES, i, REPO)" for i
    by (simp add: source_key_of_def outcome_evidence_def role_evidence_def)
  show "resolve_fact pair_context (CIFact red) fact_spelling REPO = resolved_as sample_repository ''acme/old''"
    "resolve_fact pair_context (CIFact green) fact_spelling REPO = resolved_as sample_repository ''acme/old''"
    by (simp_all add: resolve_fact_def e k pair_context_def resolve_source_def fm_get_def fmap_of_list.rep_eq resolved_as_def Let_def)
qed

lemma sample_shas_normal:
  "normalize_commit_sha fix_sha = Inr fix_sha"
proof -
  have "py_strip fix_sha = fix_sha"
    by (rule py_strip_id) (simp add: fix_sha_def py_isspace_def cp_def)
  moreover have "py_lower fix_sha = fix_sha"
    by (simp add: fix_sha_def py_lower_def py_lower_char_def cp_def)
  ultimately show ?thesis
    by (simp add: normalize_commit_sha_def Let_def list_ex_iff) (simp add: fix_sha_def lower_hex_def)
qed

lemma pair_fields:
  "in_scope pair_context red" "in_scope pair_context green" "ci_id red = ''c1''" "ci_id green = ''c2''"
  "ci_commit_sha red = sample_sha" "ci_commit_sha green = fix_sha" "ci_org_id red = ''acme''" "ci_org_id green = ''acme''"
  "ci_captured_at red = 6" "ci_captured_at green = 6" "ci_result_of red = FAILED" "ci_result_of green = PASSED"
  "capture_order red = (6, ''c1'')" "capture_order green = (6, ''c2'')" "attempt_order red = (1, ''c1'')" "attempt_order green = (1, ''c2'')"
  "run_key red = [''acme'', ''jenkins'', ''legacy'', [], [], ''r1'']" "run_key green = [''acme'', ''jenkins'', ''legacy'', [], [], ''r2'']"
  "red \<noteq> green"
  by (simp_all add: in_scope_def red_def green_def sample_outcome_def pair_context_def capture_order_def attempt_order_def
      attempt_def run_key_def)

abbreviation red_commit :: commit_key where
  "red_commit \<equiv> CommitKey sample_repository sample_sha"

abbreviation green_commit :: commit_key where
  "green_commit \<equiv> CommitKey sample_repository fix_sha"

lemma pair_keys: "new_commit_key sample_repository sample_sha = Inr red_commit"
  "new_commit_key sample_repository fix_sha = Inr green_commit"
  by (simp_all only: new_commit_key_def sample_sha_normal sample_shas_normal bind_result_simps)

lemma pair_commits_ordered: "sample_sha < fix_sha" "sample_sha \<noteq> fix_sha" "fix_sha \<noteq> sample_sha"
proof -
  have "replicate (Suc n) CHR ''a'' < replicate (Suc n) CHR ''b''" for n by (simp add: less_char_def)
  from this[of 39] show "sample_sha < fix_sha" by (simp only: sample_sha_def fix_sha_def) simp
  then show "sample_sha \<noteq> fix_sha" "fix_sha \<noteq> sample_sha" by simp_all
qed

lemma pair_index:
  "index_ci_outcomes_by_commit_key_result [red, green] (Some pair_context) =
   Inr \<lparr>cx_outcomes_by_commit = [(red_commit, [red]), (green_commit, [green])], cx_skipped = ctr_empty, cx_declined_sources = {}\<rparr>"
proof -
  have i: "index_outcome True pair_context red = Inr (Inr red_commit)" "index_outcome True pair_context green = Inr (Inr green_commit)"
    by (simp_all add: index_outcome_def pair_resolved resolved_as_def pair_fields pair_keys)
  show ?thesis
    unfolding index_declared
    by (simp add: pair_fields i sorted_index_def empty_index_def dict_append_def dict_get_def commit_sort_key_def
        pair_commits_ordered less_imp_le)
qed

definition pair_workflow :: "string \<Rightarrow> string \<Rightarrow> ci_result \<Rightarrow> workflow_resolution" where
  "pair_workflow run outcome verdict =
     \<lparr>wr_provider = JENKINS, wr_run_id = run, wr_workflow_id = Some ''w'', wr_workflow_name = ''build'',
      wr_workflow_path = None, wr_branch = ''main'', wr_verdict = Some verdict, wr_reliability = Some 1,
      wr_suspected_flake = False, wr_source_outcome_ids = [outcome], wr_verdict_outcome_id = Some outcome,
      wr_non_verdict_outcome_ids = []\<rparr>"

lemma pair_runs: "sorted_runs [red, green] = [[red], [green]]"
  by (simp add: sorted_runs_def group_by_def pair_fields dict_append_def dict_get_def)

lemma pair_run_identity:
  "run_identity [red] = Some \<lparr>rv_branch = ''main'', rv_workflow_id = Some ''w'', rv_workflow_name = ''build'', rv_workflow_path = None\<rparr>"
  "run_identity [green] = Some \<lparr>rv_branch = ''main'', rv_workflow_id = Some ''w'', rv_workflow_name = ''build'', rv_workflow_path = None\<rparr>"
  by (simp_all add: run_identity_def Let_def present_values_def red_def green_def sample_outcome_def sole_def group_by_def
      dict_append_def dict_get_def attempt_def)

lemma pair_resolve_workflow:
  "resolve_workflow [red] default_ci_policy \<lparr>rv_branch = ''main'', rv_workflow_id = Some ''w'', rv_workflow_name = ''build'', rv_workflow_path = None\<rparr>
     = pair_workflow ''r1'' ''c1'' FAILED"
  "resolve_workflow [green] default_ci_policy \<lparr>rv_branch = ''main'', rv_workflow_id = Some ''w'', rv_workflow_name = ''build'', rv_workflow_path = None\<rparr>
     = pair_workflow ''r2'' ''c2'' PASSED"
  by (simp_all add: resolve_workflow_def Let_def verdict_outcomes_def non_verdicts_def is_verdict_def run_reliability_def
      suspected_flake_def pair_fields pair_workflow_def default_ci_policy_def) (simp_all add: red_def green_def sample_outcome_def)

abbreviation zero_digest :: string where
  "zero_digest \<equiv> replicate 64 CHR ''0''"

lemma pair_provenance: "new_provenance (cp_policy_version default_ci_policy) 0 (Some zero_digest)
   = Inr \<lparr>pr_policy_version = ''2'', pr_quarantine_revision = 0, pr_policy_digest = Some zero_digest\<rparr>"
  by (simp add: new_provenance_def default_ci_policy_def py_strip_def py_isspace_def cp_def list_ex_iff lower_hex_def)

lemma pair_resolutions:
  obtains ci where "derive_ci_resolution_result [red, green] default_ci_policy (Some zero_digest) 0 (Some pair_context) = Inr ci"
    "resolution_workflows (crr_resolutions ci) = [pair_workflow ''r1'' ''c1'' FAILED, pair_workflow ''r2'' ''c2'' PASSED]"
    "crr_skipped ci = ctr_empty"
proof -
  define idx where "idx = \<lparr>cx_outcomes_by_commit = [(red_commit, [red]), (green_commit, [green])],
     cx_skipped = (ctr_empty :: identity_skip_reason counter), cx_declined_sources = ({} :: (string \<times> string) set)\<rparr>"
  have k: "keys_by_source idx (source_id red) = {red_commit}" "keys_by_source idx (source_id green) = {green_commit}"
    by (simp_all add: keys_by_source_def idx_def source_id_def pair_fields)
  have i: "\<not> incomplete_source idx red" "\<not> incomplete_source idx green"
    by (simp_all add: incomplete_source_def k) (simp_all add: idx_def)
  have c: "run_commits idx [red] = {red_commit}" "run_commits idx [green] = {green_commit}"
    by (simp_all add: run_commits_def k)
  let ?pv = "\<lparr>pr_policy_version = ''2'', pr_quarantine_revision = 0, pr_policy_digest = Some zero_digest\<rparr>"
  let ?r = "fold (resolve_run idx default_ci_policy) [[red], [green]] (empty_result idx)"
  have b: "crr_by_commit ?r = [(red_commit, [pair_workflow ''r1'' ''c1'' FAILED]), (green_commit, [pair_workflow ''r2'' ''c2'' PASSED])]"
    and s: "crr_skipped ?r = ctr_empty" and e: "crr_resolutions ?r = []"
    by (simp_all add: resolve_run_def i c pair_run_identity pair_resolve_workflow Let_def empty_result_def dict_append_def
        dict_get_def pair_commits_ordered)
      (simp add: idx_def ctr_empty_def fun_eq_iff split: ci_skip_reason.splits)
  have o: "sort_key (\<lambda>(commit, ws). commit_sort_key commit) (crr_by_commit ?r) = crr_by_commit ?r"
    unfolding b by (simp add: commit_sort_key_def pair_commits_ordered less_imp_le)
  have "\<exists>ci. fold_result (resolve_commit (Some pair_context) ?pv) (crr_by_commit ?r) ?r = Inr ci"
    unfolding b by (simp add: resolve_commit_def commit_repo_def)
  then obtain ci where ci: "fold_result (resolve_commit (Some pair_context) ?pv) (crr_by_commit ?r) ?r = Inr ci" by blast
  have d: "derive_ci_resolution_result [red, green] default_ci_policy (Some zero_digest) 0 (Some pair_context) = Inr ci"
    using ci o by (simp add: derive_ci_resolution_result_def pair_provenance pair_fields pair_index Let_def pair_runs
        flip: idx_def)
  have v: "workflow_verdicts [pair_workflow run i v] = {v}" for run i v by (simp add: workflow_verdicts_def pair_workflow_def)
  have "cr_workflow_resolutions (resolution_of ?pv k repo [w]) = [w]" for k repo w by (simp add: resolution_of_def Let_def)
  moreover have "cr_verdict (resolution_of ?pv k repo [pair_workflow run i v]) \<noteq> None" for k repo run i v
    using v[of run i v] resolution_of_verdict[of ?pv k repo "[pair_workflow run i v]" v] by simp
  ultimately show ?thesis
    using that[OF d] fold_commits[OF ci] s e v unfolding b by (simp add: resolution_workflows_def ctr_add_def)
qed

definition pair_snapshot :: snapshot where
  "pair_snapshot = sample_snapshot\<lparr>sn_ci_outcomes := \<lambda>through limit. Inr [red, green]\<rparr>"

definition pair_mirrors :: mirrors where
  "pair_mirrors = (\<lambda>key. Some (sample_mirror\<lparr>rm_diff_range := \<lambda>base head. Some []\<rparr>))"

abbreviation pair_lineage :: lineage where
  "pair_lineage \<equiv> (sample_repository, ''main'', ''jenkins'', ''id'', ''w'')"

lemma pair_checked:
  "v_map (workflow_lineage pair_context (map_of (map (\<lambda>o'. (ci_id o', o')) (rev [red, green]))))
     [pair_workflow ''r1'' ''c1'' FAILED, pair_workflow ''r2'' ''c2'' PASSED]
   = Inr [Inr (pair_lineage, red), Inr (pair_lineage, green)]"
  by (simp add: workflow_lineage_def pair_workflow_def truthy_def pair_fields pair_resolved resolved_as_def Let_def)

lemma pair_evidence:
  "attribution_evidence_by_commit pair_snapshot pair_mirrors ''acme'' default_attribution_policy None pair_context
     = Inr ([], ctr_empty)"
proof -
  have t: "as_utc 10 = Inr 10" by (simp add: as_utc_def UTC_MIN_def UTC_MAX_def)
  have c: "rc_org_id pair_context = ''acme''" "rc_as_of pair_context = 10" by (simp_all add: pair_context_def)
  have q: "sn_observations pair_snapshot 10 = []" "sn_pushes pair_snapshot = []" "sn_quarantine_revision pair_snapshot = 0"
    by (simp_all add: pair_snapshot_def sample_snapshot_def)
  have p: "new_provenance (ap_policy_version default_attribution_policy) 0 None
      = Inr \<lparr>pr_policy_version = ''3'', pr_quarantine_revision = 0, pr_policy_digest = None\<rparr>"
    by (simp add: new_provenance_def default_attribution_policy_def py_strip_def py_isspace_def cp_def)
  show ?thesis
    by (simp add: attribution_evidence_by_commit_def bind_session_commit_keys_result_def c t q
        derive_attributions_def derive_attribution_result_def derive_in_context_def p scope_pushes_def order_pushes_def)
qed

lemma pair_repo: "repo_for pair_context sample_repository = Inr ''acme/old''"
  by (simp add: repo_for_def resolve_reference_def pair_context_def validator_eval resolved_as_def)

lemma pair_walk:
  "\<exists>r. lineage_step pair_context pair_mirrors ''acme'' [] [] default_recovery_policy pv (pair_lineage, [red, green]) r0 = Inr r
     \<and> length (vr_pairs r) = Suc (length (vr_pairs r0))"
proof -
  have t: "as_utc 6 = Inr 6" by (simp add: as_utc_def UTC_MIN_def UTC_MAX_def)
  have n: "diff_line_count [] = 0" by (simp add: diff_line_count_def u_splitlines.simps)
  show ?thesis
    by (simp add: lineage_step_def pair_repo pair_fields t pair_mirrors_def outcome_step_def try_pair_def sample_mirror_def
        pair_commits_ordered n default_recovery_policy_def lookup_commit_def pair_keys dict_get_def with_evidence_def)
qed

lemma pair_derive:
  obtains r where "derive_recovery_result pair_snapshot pair_mirrors ''acme'' default_recovery_policy zero_digest None
      (Some pair_context) NoBound = Inr r" "length (vr_pairs r) = 1"
proof (rule pair_resolutions)
  fix ci
  assume ci: "derive_ci_resolution_result [red, green] default_ci_policy (Some zero_digest) 0 (Some pair_context) = Inr ci"
    "resolution_workflows (crr_resolutions ci) = [pair_workflow ''r1'' ''c1'' FAILED, pair_workflow ''r2'' ''c2'' PASSED]"
    "crr_skipped ci = ctr_empty"
  have c: "rc_org_id pair_context = ''acme''" "rc_as_of pair_context = 10" by (simp_all add: pair_context_def)
  have t: "as_utc 6 = Inr 6" by (simp add: as_utc_def UTC_MIN_def UTC_MAX_def)
  let ?pv = "\<lparr>pr_policy_version = ''5'', pr_quarantine_revision = 0, pr_policy_digest = None\<rparr>"
  have p: "new_provenance ''5'' 0 None = Inr ?pv"
    by (simp add: new_provenance_def py_strip_def py_isspace_def cp_def)
  have q: "sn_ci_outcomes pair_snapshot None None = Inr [red, green]" "sn_quarantine_revision pair_snapshot = 0"
    by (simp_all add: pair_snapshot_def sample_snapshot_def)
  have pol: "vp_policy_version default_recovery_policy = ''5''" "vp_ci_resolution default_recovery_policy = default_ci_policy"
    "vp_attribution default_recovery_policy = default_attribution_policy"
    by (simp_all add: default_recovery_policy_def)
  have l: "lineages [(pair_lineage, red), (pair_lineage, green)] = [(pair_lineage, [red, green])]"
    by (simp add: lineages_def group_by_def dict_append_def dict_get_def)
  have bind_Inr: "bind_result x (fold_result f []) = x" for x :: "recovery_result result" and f
    by (cases x) simp_all
  have d: "derive_recovery_result pair_snapshot pair_mirrors ''acme'' default_recovery_policy zero_digest None
      (Some pair_context) NoBound
    = lineage_step pair_context pair_mirrors ''acme'' [] [] default_recovery_policy ?pv (pair_lineage, [red, green])
        \<lparr>vr_pairs = [], vr_skipped = ctr_update (lift_ci_skips ctr_empty) (lift_binding_skips ctr_empty),
         vr_max_recovery_diff_lines = vp_max_recovery_diff_lines default_recovery_policy,
         vr_kept_diff_line_counts = [], vr_dropped_diff_line_counts = []\<rparr>"
    using pair_checked bind_Inr
    by (simp add: derive_recovery_result_def recovery_context_def c p q t pol pair_fields ci pair_evidence completion_ids_def l
        count_workflow_def)
  show ?thesis
    using pair_walk[of ?pv "\<lparr>vr_pairs = [], vr_skipped = ctr_update (lift_ci_skips ctr_empty) (lift_binding_skips ctr_empty),
         vr_max_recovery_diff_lines = vp_max_recovery_diff_lines default_recovery_policy,
         vr_kept_diff_line_counts = [], vr_dropped_diff_line_counts = []\<rparr>"] that unfolding d by auto
qed

definition pair_start :: recovery_result where
  "pair_start = \<lparr>vr_pairs = [], vr_skipped = ctr_empty, vr_max_recovery_diff_lines = 200,
     vr_kept_diff_line_counts = [], vr_dropped_diff_line_counts = []\<rparr>"

theorem recovery_transitions_accounted_witness:
  "\<exists>r. lineage_step pair_context pair_mirrors ''acme'' [] [] default_recovery_policy
        \<lparr>pr_policy_version = ''5'', pr_quarantine_revision = 0, pr_policy_digest = None\<rparr> (pair_lineage, [red, green]) pair_start = Inr r
     \<and> vr_skipped r diff_oversized = length (vr_dropped_diff_line_counts r)"
proof -
  obtain r where r: "lineage_step pair_context pair_mirrors ''acme'' [] [] default_recovery_policy
      \<lparr>pr_policy_version = ''5'', pr_quarantine_revision = 0, pr_policy_digest = None\<rparr> (pair_lineage, [red, green]) pair_start = Inr r"
    using pair_walk by blast
  have "vr_skipped r diff_oversized = length (vr_dropped_diff_line_counts r)"
    using recovery_transitions_accounted[OF r] by (auto simp: pair_mirrors_def pair_start_def)
  with r show ?thesis by blast
qed


theorem recovery_order_independent_witness:
  "\<exists>r. derive_recovery_result (pair_snapshot\<lparr>sn_ci_outcomes := \<lambda>through limit. Inr [green, red]\<rparr>) pair_mirrors ''acme''
      default_recovery_policy zero_digest None (Some pair_context) NoBound = Inr r \<and> length (vr_pairs r) = 1"
proof -
  obtain r where r: "derive_recovery_result pair_snapshot pair_mirrors ''acme'' default_recovery_policy zero_digest None
      (Some pair_context) NoBound = Inr r" "length (vr_pairs r) = 1"
    by (rule pair_derive)
  have "inj_on ci_id (set [red, green])" "sn_ci_outcomes pair_snapshot None None = Inr [red, green]"
    by (simp_all add: pair_fields pair_snapshot_def)
  from recovery_order_independent[OF r(1) this(2,1), of "[green, red]"] r(2) show ?thesis
    by (simp add: add_mset_commute)
qed

theorem diff_line_count_changes_witness: "diff_line_count (diff_text [sample_change]) = 2"
  by (subst diff_line_count_changes)
    (simp_all add: sample_change_def one_line_def change_title_def name_tab_def lit_eval line_boundary_def
      hunk_header_def range_start_def dec.simps changed_lines_def)

end
