(* ===== verification/Rollout.thy ===== *)
theory Rollout
  imports Recovery Decision_Attachment
begin

text \<open>
  \<open>packages/derive/sediment_derive/rollout.py\<close>: Session rollouts. The calls of a Session, ordered by
  observation time, are cut into Segments where the next input does not replay the previous input
  and output; commits are bound to the Session by Git notes and captured observations, or by
  attribution where a Session has neither; the CI outcomes of those commits are the terminal
  evidence.

  Semantic values compare as Python compares the translated objects: numbers by value, objects
  regardless of key order, booleans apart from numbers, and a non-finite float equal to itself.
  What \<open>refs/notes/sediment\<close> lists and what a commit's note names are answers of the mirror. With a
  sink, finished rollouts are delivered to it in order and the result's list stays empty.
  \<open>skipped\<close> counts by \<open>rollout_skip\<close>; the repository reasons that several steps report under one
  string are one constructor.
\<close>

section \<open>Semantic values\<close>

datatype semantic = SNull | SBool bool | SNumber rat | SNonFinite string | SText string
  | SSeq "semantic list" | SMap "(string, semantic) fmap"

fun semantic_float :: "pyfloat \<Rightarrow> semantic" where
  "semantic_float (Finite q) = SNumber q"
| "semantic_float NaN = SNonFinite ''nan''"
| "semantic_float PosInf = SNonFinite ''inf''"
| "semantic_float NegInf = SNonFinite ''-inf''"

fun semantic_value :: "json \<Rightarrow> semantic" where
  "semantic_value (JObj kvs) = SMap (fmap_of_list (map (\<lambda>(k, v). (k, semantic_value v)) kvs))"
| "semantic_value (JList vs) = SSeq (map semantic_value vs)"
| "semantic_value (JBool b) = SBool b"
| "semantic_value (JFloat x) = semantic_float x"
| "semantic_value (JInt i) = SNumber (of_int i)"
| "semantic_value (JStr s) = SText s"
| "semantic_value JNull = SNull"

text \<open>\<open>part.model_dump(mode="python")\<close>\<close>

fun part_dump :: "part \<Rightarrow> json" where
  "part_dump (TextPart content) = JObj [(''type'', JStr ''text''), (''content'', JStr content)]"
| "part_dump (ReasoningPart content) = JObj [(''type'', JStr ''reasoning''), (''content'', JStr content)]"
| "part_dump (ToolCallPart i name arguments) =
     JObj [(''type'', JStr ''tool_call''), (''id'', JStr i), (''name'', JStr name), (''arguments'', JObj arguments)]"
| "part_dump (ToolCallResponsePart i res) =
     JObj [(''type'', JStr ''tool_call_response''), (''id'', JStr i), (''result'', res)]"

definition canonical_message :: "inference_message \<Rightarrow> string \<times> semantic list" where
  "canonical_message message = (msg_role message, map (\<lambda>p. semantic_value (part_dump p)) (msg_parts message))"

definition canonical_history :: "inference_message list \<Rightarrow> (string \<times> semantic list) list" where
  "canonical_history messages = map canonical_message messages"

section \<open>Turns and segments\<close>

datatype fragment_reason = prior_output_absent | input_history_changed | prior_output_not_replayed

fun part_has_output :: "part \<Rightarrow> bool" where
  "part_has_output (TextPart content) = (content \<noteq> [])"
| "part_has_output (ReasoningPart content) = (content \<noteq> [])"
| "part_has_output (ToolCallPart i n a) = True"
| "part_has_output (ToolCallResponsePart i r) = True"

definition fragment_reason_of :: "inference_call \<Rightarrow> inference_call \<Rightarrow> fragment_reason option" where
  "fragment_reason_of previous current =
     (if \<not> list_ex (\<lambda>message. list_ex part_has_output (msg_parts message)) (ic_output_messages previous)
      then Some prior_output_absent
      else
      let before = canonical_history (ic_input_messages previous);
          after = canonical_history (ic_input_messages current)
      in if take (length before) after \<noteq> before then Some input_history_changed
         else
         let expected = before @ canonical_history (ic_output_messages previous)
         in if take (length expected) after \<noteq> expected then Some prior_output_not_replayed else None)"

record turn =
  tn_new_messages :: "inference_message list"
  tn_completion :: string
  tn_decisions :: "developer_decision list"
  tn_inference_call_id :: string
  tn_tool_calls :: "part list"

type_synonym turn_entry = "inference_call \<times> inference_message list \<times> nat"

record turn_walk =
  tw_entries :: "turn_entry list"
  tw_segment :: nat
  tw_prev :: "inference_call option"
  tw_fragmented :: "fragment_reason counter"

definition turn_start :: turn_walk where
  "turn_start = \<lparr>tw_entries = [], tw_segment = 0, tw_prev = None, tw_fragmented = ctr_empty\<rparr>"

definition turn_step :: "inference_call \<Rightarrow> turn_walk \<Rightarrow> turn_walk" where
  "turn_step c w =
     (let messages = inference_input_messages c;
          reason = (case tw_prev w of None \<Rightarrow> None | Some prev \<Rightarrow> fragment_reason_of prev c)
      in if tw_prev w = None \<or> reason \<noteq> None then
           (let segment = (if reason \<noteq> None then tw_segment w + 1 else tw_segment w)
            in \<lparr>tw_entries = tw_entries w @ [(c, messages, segment)], tw_segment = segment, tw_prev = Some c,
                tw_fragmented = (case reason of None \<Rightarrow> tw_fragmented w | Some r \<Rightarrow> ctr_incr r (tw_fragmented w))\<rparr>)
         else
           w\<lparr>tw_entries := tw_entries w @
               [(c, drop (length (inference_input_messages (the (tw_prev w)))) messages, tw_segment w)],
             tw_prev := Some c\<rparr>)"

definition turn_of :: "(string \<times> developer_decision list) list \<Rightarrow> turn_entry \<Rightarrow> turn" where
  "turn_of decisions_for = (\<lambda>(c, new_messages, segment).
     \<lparr>tn_new_messages = new_messages, tn_completion = render_scoring_text c,
      tn_decisions = dict_get decisions_for (ic_id c) [], tn_inference_call_id = ic_id c,
      tn_tool_calls = inference_tool_calls c\<rparr>)"

record projected_turns =
  pt_segments :: "turn list list"
  pt_skipped :: "decision_skip_reason counter"
  pt_fragmented :: "fragment_reason counter"

definition project_session_turns :: "inference_call list \<Rightarrow> developer_decision list \<Rightarrow> projected_turns" where
  "project_session_turns completions decisions =
     (let ordered = sort_key call_order completions;
          w = fold turn_step ordered turn_start;
          attachment = join_decisions_by_call_id_result (map (\<lambda>(c, m, s). FullCall c) (tw_entries w)) decisions;
          by_segment = group_by (\<lambda>(c, m, s). s) (tw_entries w)
      in \<lparr>pt_segments = map (\<lambda>(s, entries). map (turn_of (da_decisions_by_completion attachment)) entries)
            (sort_key fst by_segment),
          pt_skipped = da_skipped attachment, pt_fragmented = tw_fragmented w\<rparr>)"

section \<open>Notes and commits\<close>

record commit_ref =
  cf_repo :: string
  cf_commit_sha :: string
  cf_repository_identity :: "repository_identity option"

datatype rollout_skip = RepositorySkip "identity_skip_reason option" | AttributionSkip attribution_skip
  | ResolutionSkip ci_skip_reason | DecisionSkip decision_skip_reason | attribution_note_unreadable

text \<open>A set of commits is a list without repetition; the code iterates it only to fill a dictionary or
  to sort it.\<close>

type_synonym session_commits = "(string \<times> commit_ref list) list"

definition dict_add :: "'k \<Rightarrow> 'v \<Rightarrow> ('k \<times> 'v list) list \<Rightarrow> ('k \<times> 'v list) list" where
  "dict_add k v d = AList.update k (let vs = dict_get d k [] in if v \<in> set vs then vs else vs @ [v]) d"

record notes_binding =
  nb_session_commits :: session_commits
  nb_skipped :: "rollout_skip counter"

text \<open>\<open>str.splitlines()\<close> and \<open>str.split()\<close>\<close>

definition py_splitlines :: "string \<Rightarrow> string list" where
  "py_splitlines s = map (map char_of) (u_splitlines (map cp s))"

function py_words :: "string \<Rightarrow> string list" where
  "py_words s =
     (let t = dropWhile py_isspace s
      in if t = [] then [] else takeWhile (\<lambda>c. \<not> py_isspace c) t # py_words (dropWhile (\<lambda>c. \<not> py_isspace c) t))"
  by pat_completeness auto
termination
proof (relation "measure length")
  fix s t
  assume t: "t = dropWhile py_isspace s" and n: "t \<noteq> []"
  then have "\<not> py_isspace (hd t)" by (metis hd_dropWhile)
  with n have "length (dropWhile (\<lambda>c. \<not> py_isspace c) t) < length t"
    using length_dropWhile_le[of "\<lambda>c. \<not> py_isspace c" "tl t"] by (cases t) auto
  moreover have "length t \<le> length s" unfolding t by (rule length_dropWhile_le)
  ultimately show "(dropWhile (\<lambda>c. \<not> py_isspace c) t, s) \<in> measure length" by simp
qed simp

declare py_words.simps [simp del]

definition note_line ::
  "repo_mirror \<Rightarrow> string \<Rightarrow> string \<Rightarrow> notes_binding \<Rightarrow> notes_binding" where
  "note_line mirror repo line r =
     (case py_words line of
        [note_object, commit_sha] \<Rightarrow>
          (case rm_note_sessions mirror commit_sha of
             None \<Rightarrow> r\<lparr>nb_skipped := ctr_incr attribution_note_unreadable (nb_skipped r)\<rparr>
           | Some sessions \<Rightarrow>
               r\<lparr>nb_session_commits :=
                   fold (\<lambda>session_id. dict_add session_id
                       \<lparr>cf_repo = repo, cf_commit_sha = commit_sha, cf_repository_identity = None\<rparr>)
                     (sorted_list_of_set sessions) (nb_session_commits r)\<rparr>)
      | _ \<Rightarrow> r)"

text \<open>The reading of one repository, through a declared context.\<close>

definition notes_of_repo ::
  "mirrors \<Rightarrow> string \<Rightarrow> repository_context \<Rightarrow> string \<Rightarrow> notes_binding \<Rightarrow> notes_binding" where
  "notes_of_repo mirrors org_id ctx repo r =
     (let resolved = resolve_reference ctx org_id repo None
      in case rs_key resolved of
        None \<Rightarrow> r\<lparr>nb_skipped := ctr_incr (RepositorySkip (rs_reason resolved)) (nb_skipped r)\<rparr>
      | Some key \<Rightarrow>
         (case mirrors key of
            None \<Rightarrow> r
          | Some mirror \<Rightarrow>
             (case rm_notes_list mirror of
                None \<Rightarrow> r
              | Some listing \<Rightarrow> fold (note_line mirror repo) (py_splitlines listing) r)))"

definition session_commits_from_notes_result ::
  "mirrors \<Rightarrow> string \<Rightarrow> string list \<Rightarrow> repository_context \<Rightarrow> notes_binding" where
  "session_commits_from_notes_result mirrors org_id repos ctx =
     fold (notes_of_repo mirrors org_id ctx) repos \<lparr>nb_session_commits = [], nb_skipped = ctr_empty\<rparr>"

definition commit_ref_of :: "commit_key \<Rightarrow> repository_context \<Rightarrow> commit_ref result" where
  "commit_ref_of commit ctx =
     bind_result (repo_for ctx (ck_repository commit)) (\<lambda>repo.
       Inr \<lparr>cf_repo = repo, cf_commit_sha = ck_commit_sha commit,
            cf_repository_identity = repository_key_identity (ck_repository commit)\<rparr>)"

definition commit_key_of :: "commit_ref \<Rightarrow> string \<Rightarrow> repository_context \<Rightarrow> commit_key option" where
  "commit_key_of commit org_id ctx =
     context_commit_key ctx org_id (cf_repo commit) (cf_commit_sha commit) (cf_repository_identity commit)"

text \<open>\<open>int(text)\<close> on a word: an optional sign, digits with single underscores between them, at most
  4300 digits.\<close>

fun digit_groups :: "bool \<Rightarrow> string \<Rightarrow> bool" where
  "digit_groups after_digit [] = after_digit"
| "digit_groups after_digit (c # cs) =
     (if c = CHR ''_'' then after_digit \<and> digit_groups False cs
      else CHR ''0'' \<le> c \<and> c \<le> CHR ''9'' \<and> digit_groups True cs)"

definition digits_of :: "string \<Rightarrow> string" where
  "digits_of s = filter (\<lambda>c. c \<noteq> CHR ''_'') s"

definition py_int :: "string \<Rightarrow> int option" where
  "py_int s =
     (let (sign, body) = (case s of
            CHR ''-'' # cs \<Rightarrow> (- 1, cs) | CHR ''+'' # cs \<Rightarrow> (1, cs) | _ \<Rightarrow> (1, s))
      in if digit_groups False body \<and> length (digits_of body) \<le> 4300
         then Some (sign * foldl (\<lambda>v c. v * 10 + (int (cp c) - 48)) 0 (digits_of body)) else None)"

definition commit_time :: "repo_mirror \<Rightarrow> string \<Rightarrow> int" where
  "commit_time mirror sha =
     (case rm_commit_time mirror sha of
        None \<Rightarrow> 0
      | Some raw \<Rightarrow> (case py_words raw of [] \<Rightarrow> 0 | w # ws \<Rightarrow> the_default 0 (py_int w)))"

definition trajectory_key :: "mirrors \<Rightarrow> commit_key \<Rightarrow> int \<times> string list" where
  "trajectory_key mirrors key =
     ((case mirrors (ck_repository key) of None \<Rightarrow> 0 | Some mirror \<Rightarrow> commit_time mirror (ck_commit_sha key)),
      commit_sort_key key)"

definition order_commits ::
  "mirrors \<Rightarrow> string \<Rightarrow> commit_ref list \<Rightarrow> repository_context \<Rightarrow> commit_ref list result" where
  "order_commits mirrors org_id commit_refs ctx =
     (let keys = remdups (List.map_filter (\<lambda>commit. commit_key_of commit org_id ctx) commit_refs)
      in v_map (\<lambda>key. commit_ref_of key ctx) (sort_key (trajectory_key mirrors) keys))"

section \<open>Rollouts\<close>

record rollout =
  ro_org_id :: string
  ro_session_id :: string
  ro_segments :: "turn list list"
  ro_commits :: "commit_ref list"
  ro_attribution_source :: attribution_source
  ro_terminal_outcomes :: "ci_outcome list"
  ro_provenance :: provenance
  ro_split :: split_label
  ro_session_commit_observations :: "session_commit_observation list"

record rollout_policy =
  op_attribution :: attribution_policy
  op_policy_version :: string
  op_eval_fraction :: rat

definition rollout_policy_ok :: "rollout_policy \<Rightarrow> bool" where
  "rollout_policy_ok p = (0 \<le> op_eval_fraction p \<and> op_eval_fraction p \<le> 1 / 2)"

record rollout_result =
  or_rollouts :: "rollout list"
  or_skipped :: "rollout_skip counter"
  or_fragmented :: "fragment_reason counter"
  or_delivered :: "rollout list"

definition terminal_outcomes ::
  "commit_ref list \<Rightarrow> (commit_key \<times> ci_outcome list) list \<Rightarrow> string \<Rightarrow> repository_context \<Rightarrow> ci_outcome list" where
  "terminal_outcomes commits ci_by_commit org_id ctx =
     concat (map (\<lambda>commit. sort_key ci_id
       (case commit_key_of commit org_id ctx of None \<Rightarrow> [] | Some key \<Rightarrow> dict_get ci_by_commit key [])) commits)"

definition lift_repository_skips :: "identity_skip_reason counter \<Rightarrow> rollout_skip counter" where
  "lift_repository_skips c = (\<lambda>r. case r of RepositorySkip (Some reason) \<Rightarrow> c reason | _ \<Rightarrow> 0)"

definition lift_attribution_skips :: "attribution_skip counter \<Rightarrow> rollout_skip counter" where
  "lift_attribution_skips c = (\<lambda>r. case r of
     RepositorySkip reason \<Rightarrow> c (IdentitySkip reason)
   | AttributionSkip (IdentitySkip reason) \<Rightarrow> 0
   | AttributionSkip skip \<Rightarrow> c skip
   | _ \<Rightarrow> 0)"

definition lift_resolution_skips :: "ci_skip_reason counter \<Rightarrow> rollout_skip counter" where
  "lift_resolution_skips c = (\<lambda>r. case r of
     RepositorySkip (Some reason) \<Rightarrow> c (repository_reason reason)
   | ResolutionSkip (repository_reason reason) \<Rightarrow> 0
   | ResolutionSkip skip \<Rightarrow> c skip
   | _ \<Rightarrow> 0)"

definition lift_decision_skips :: "decision_skip_reason counter \<Rightarrow> rollout_skip counter" where
  "lift_decision_skips c = (\<lambda>r. case r of DecisionSkip skip \<Rightarrow> c skip | _ \<Rightarrow> 0)"

text \<open>The supplements of the context read: the legacy observations that were handed in.\<close>

definition observation_supplements :: "session_commit_observation list option \<Rightarrow> identity_evidence result list" where
  "observation_supplements observations =
     map (\<lambda>item. repository_identity_evidence_of (ObservationFact item) fact_spelling REPO)
       (filter (\<lambda>item. rf_repository_id item = None) (the_default [] observations))"

text \<open>The boundary and context the rollouts are read at, with the call summaries and decisions read on
  the way: an implicit boundary is extended to the latest call or decision.\<close>

definition rollout_context ::
  "snapshot \<Rightarrow> string \<Rightarrow> session_commit_observation list option \<Rightarrow> repository_context option \<Rightarrow> time_bound
   \<Rightarrow> (repository_context \<times> instant \<times> call_summary list) result" where
  "rollout_context snapshot org_id observations repository_context as_of =
     (let implicit = (as_of = NoBound \<and> repository_context = None);
          as_of = (case (as_of, repository_context) of (NoBound, Some ctx) \<Rightarrow> Bound (rc_as_of ctx) | _ \<Rightarrow> as_of);
          supplements = observation_supplements observations
      in bind_result (case repository_context of
             Some ctx \<Rightarrow> Inr ctx | None \<Rightarrow> read_repository_context snapshot org_id as_of supplements) (\<lambda>ctx.
         if as_of = NaiveBound then Inl (ValueError ''as_of must be an aware datetime'')
         else
         bind_result (case as_of of Bound t \<Rightarrow> map_sum id Some (as_utc t) | _ \<Rightarrow> Inr None) (\<lambda>boundary.
         if rc_org_id ctx \<noteq> org_id \<or> (boundary \<noteq> None \<and> rc_as_of ctx \<noteq> the boundary)
         then Inl (ValueError ''repository context must match organization and boundary'')
         else
         bind_result (sn_call_summaries snapshot (Some 50000)) (\<lambda>summaries.
         if \<not> implicit then Inr (ctx, rc_as_of ctx, summaries)
         else
         bind_result (v_map (\<lambda>call. as_utc (cs_observed_at call)) summaries) (\<lambda>call_times.
         bind_result (v_map (\<lambda>row. as_utc (dd_captured_at row)) (sn_decisions snapshot)) (\<lambda>decision_times.
           let latest = Max (set (rc_as_of ctx # call_times @ decision_times))
           in if latest > rc_as_of ctx
              then bind_result (read_repository_context snapshot org_id (Bound latest) supplements) (\<lambda>ctx.
                     Inr (ctx, latest, summaries))
              else Inr (ctx, latest, summaries)))))))"

text \<open>The observations to bind. Handed-in ones without a context keep to the organization and the
  boundary, and an identified one is declined.\<close>

definition observation_facts ::
  "snapshot \<Rightarrow> string \<Rightarrow> session_commit_observation list option \<Rightarrow> bool \<Rightarrow> repository_context \<Rightarrow> instant
   \<Rightarrow> (session_commit_observation list \<times> nat) result" where
  "observation_facts snapshot org_id observations preloaded_without_context ctx as_of =
     (let facts = (case observations of None \<Rightarrow> sn_observations snapshot as_of | Some items \<Rightarrow> items)
      in if \<not> preloaded_without_context then Inr (facts, 0)
         else
         bind_result (v_map (\<lambda>item. bind_result (as_utc (sc_captured_at item)) (\<lambda>_. Inr item))
             (filter (\<lambda>item. sc_org_id item = org_id) facts)) (\<lambda>facts.
         let facts = filter (\<lambda>item. sc_captured_at item \<le> rc_as_of ctx) facts
         in Inr (filter (\<lambda>item. rf_repository_id item = None) facts,
                 length (filter (\<lambda>item. rf_repository_id item \<noteq> None) facts))))"

definition qualified_notes ::
  "session_commits \<Rightarrow> string \<Rightarrow> repository_context \<Rightarrow> (commit_key \<times> string list) list" where
  "qualified_notes notes org_id ctx =
     fold (\<lambda>(session_id, commits). fold (\<lambda>commit d. case commit_key_of commit org_id ctx of
         None \<Rightarrow> d | Some key \<Rightarrow> dict_add key session_id d) commits) notes []"

text \<open>The identified bindings, added to the notes of both directions.\<close>

definition add_binding ::
  "repository_context \<Rightarrow> commit_edge \<Rightarrow> (commit_key \<times> string list) list \<times> session_commits
   \<Rightarrow> ((commit_key \<times> string list) list \<times> session_commits) result" where
  "add_binding ctx = (\<lambda>(commit, session_id) (qualified, notes).
     if is_identified (Some (ck_repository commit))
     then bind_result (commit_ref_of commit ctx) (\<lambda>ref.
            Inr (dict_add commit session_id qualified, dict_add session_id ref notes))
     else Inr (qualified, notes))"

definition attributed_commits :: "attribution list \<Rightarrow> session_commits" where
  "attributed_commits attributions =
     fold (\<lambda>a. dict_add (at_session_id a)
         \<lparr>cf_repo = the_default [] (at_repo a), cf_commit_sha = at_commit_sha a,
          cf_repository_identity = at_repository_identity a\<rparr>) attributions []"

definition exact_rows :: "('a \<Rightarrow> string) \<Rightarrow> 'a list \<Rightarrow> 'a list \<Rightarrow> 'a list result" where
  "exact_rows fact_id stored rows =
     v_map (\<lambda>row. case map_of (map (\<lambda>x. (fact_id x, x)) (rev stored)) (fact_id row) of
         None \<Rightarrow> Inl (KeyError (fact_id row)) | Some x \<Rightarrow> Inr x) rows"

definition exact_turn :: "developer_decision list \<Rightarrow> turn \<Rightarrow> turn result" where
  "exact_turn stored t =
     bind_result (exact_rows dd_id stored (tn_decisions t)) (\<lambda>decisions. Inr (t\<lparr>tn_decisions := decisions\<rparr>))"

text \<open>What the loop over the sessions reads.\<close>

record rollout_inputs =
  rn_context :: repository_context
  rn_as_of :: instant
  rn_provenance :: provenance
  rn_bindings :: "(commit_edge \<times> session_commit_observation list) list"
  rn_decisions :: "(string \<times> developer_decision list) list"
  rn_notes :: session_commits
  rn_jaccard :: session_commits
  rn_ci_by_commit :: "(commit_key \<times> ci_outcome list) list"

definition session_binding :: "rollout_inputs \<Rightarrow> string \<Rightarrow> attribution_source \<times> commit_ref list" where
  "session_binding inp session_id =
     (let notes = dict_get (rn_notes inp) session_id []
      in if notes \<noteq> [] then (GIT_NOTES, notes) else (JACCARD, dict_get (rn_jaccard inp) session_id []))"

definition session_rollout ::
  "snapshot \<Rightarrow> mirrors \<Rightarrow> string \<Rightarrow> rollout_policy \<Rightarrow> rollout_inputs \<Rightarrow> string
   \<Rightarrow> (rollout \<times> decision_skip_reason counter \<times> fragment_reason counter) result" where
  "session_rollout snapshot mirrors org_id policy inp session_id =
     bind_result (sn_session_calls snapshot session_id (Some (rn_as_of inp))) (\<lambda>calls.
     let projected = project_session_turns calls (dict_get (rn_decisions inp) session_id []);
         (source, commit_refs) = session_binding inp session_id
     in bind_result (order_commits mirrors org_id commit_refs (rn_context inp)) (\<lambda>commits.
     let commit_keys = map (\<lambda>commit. commit_key_of commit org_id (rn_context inp)) commits;
         outcomes = terminal_outcomes commits (rn_ci_by_commit inp) org_id (rn_context inp);
         decision_ids = set (map dd_id (concat (map tn_decisions (concat (pt_segments projected)))))
     in bind_result (v_map (v_map (exact_turn (sn_decisions_by_ids snapshot decision_ids))) (pt_segments projected)) (\<lambda>segments.
        bind_result (exact_rows ci_id (sn_ci_outcomes_by_ids snapshot (set (map ci_id outcomes))) outcomes) (\<lambda>outcomes.
        Inr (\<lparr>ro_org_id = org_id, ro_session_id = session_id, ro_segments = segments, ro_commits = commits,
              ro_attribution_source = source, ro_terminal_outcomes = outcomes, ro_provenance = rn_provenance inp,
              ro_split = split_of session_id (op_eval_fraction policy),
              ro_session_commit_observations =
                concat (map snd (filter (\<lambda>((commit, session), items). session = session_id \<and> Some commit \<in> set commit_keys)
                  (rn_bindings inp)))\<rparr>,
             pt_skipped projected, pt_fragmented projected)))))"

definition session_step ::
  "snapshot \<Rightarrow> mirrors \<Rightarrow> string \<Rightarrow> rollout_policy \<Rightarrow> bool \<Rightarrow> rollout_inputs \<Rightarrow> string
   \<Rightarrow> rollout_result \<Rightarrow> rollout_result result" where
  "session_step snapshot mirrors org_id policy sink inp session_id r =
     bind_result (session_rollout snapshot mirrors org_id policy inp session_id) (\<lambda>(rollout, skips, fragmented).
       Inr (r\<lparr>or_rollouts := or_rollouts r @ (if sink then [] else [rollout]),
              or_delivered := or_delivered r @ (if sink then [rollout] else []),
              or_skipped := ctr_update (or_skipped r) (lift_decision_skips skips),
              or_fragmented := ctr_update (or_fragmented r) fragmented\<rparr>))"

text \<open>The sessions' commit bindings: notes first, and attribution when a session has none.\<close>

definition jaccard_bindings ::
  "snapshot \<Rightarrow> mirrors \<Rightarrow> string \<Rightarrow> rollout_policy \<Rightarrow> string option \<Rightarrow> repository_context \<Rightarrow> instant
   \<Rightarrow> (commit_key \<times> string list) list \<Rightarrow> session_commits \<Rightarrow> string set
   \<Rightarrow> (session_commits \<times> rollout_skip counter) result" where
  "jaccard_bindings snapshot mirrors org_id policy policy_digest ctx as_of qualified notes session_ids =
     (if \<exists>sid\<in>session_ids. dict_get notes sid [] = [] then
        bind_result (derive_attribution_result snapshot mirrors org_id (op_attribution policy) None jaccard_tokens
            policy_digest None None (Some (map (\<lambda>(key, sessions). (key, set sessions)) qualified)) (Some ctx) (Bound as_of))
          (\<lambda>r. Inr (attributed_commits (ar_attributions r), lift_attribution_skips (ar_skipped r)))
      else Inr ([], ctr_empty))"

definition derive_rollout_result ::
  "snapshot \<Rightarrow> mirrors \<Rightarrow> repository_key list result \<Rightarrow> string \<Rightarrow> rollout_policy \<Rightarrow> string \<Rightarrow> string option
   \<Rightarrow> string list option \<Rightarrow> session_commit_observation list option \<Rightarrow> time_bound \<Rightarrow> repository_context option
   \<Rightarrow> repository_key list option \<Rightarrow> bool \<Rightarrow> rollout_result result" where
  "derive_rollout_result snapshot mirrors mirrored org_id policy ci_digest policy_digest mirror_repos observations
     as_of repository_context mirror_repositories sink =
     (if mirror_repos \<noteq> None \<and> mirror_repositories \<noteq> None
      then Inl (ValueError ''choose one mirror repository inventory'')
      else
      bind_result (rollout_context snapshot org_id observations repository_context as_of) (\<lambda>(ctx, as_of, summaries).
      bind_result (new_provenance (op_policy_version policy) (sn_quarantine_revision snapshot) policy_digest) (\<lambda>provenance.
      bind_result (observation_facts snapshot org_id observations (observations \<noteq> None \<and> repository_context = None)
          ctx as_of) (\<lambda>(facts, declined_facts).
      bind_result (bind_session_commit_keys_result facts org_id (Some (rc_as_of ctx)) ctx) (\<lambda>bound.
      bind_result (v_map (\<lambda>call. bind_result (as_utc (cs_observed_at call)) (\<lambda>_. Inr call)) summaries) (\<lambda>summaries.
      let summaries = filter (\<lambda>call. cs_observed_at call \<le> as_of) summaries;
          skipped = ctr_update (ctr_add (RepositorySkip (Some repository_identity_unresolved)) declined_facts ctr_empty)
                      (lift_repository_skips (br_skipped bound));
          empty = \<lparr>or_rollouts = [], or_skipped = skipped, or_fragmented = ctr_empty, or_delivered = []\<rparr>
      in if summaries = [] then Inr empty
         else
         bind_result (v_map (\<lambda>row. bind_result (as_utc (dd_captured_at row)) (\<lambda>_. Inr row)) (sn_decisions snapshot)) (\<lambda>decisions.
         bind_result (sn_ci_outcomes snapshot (Some as_of) (Some REPOSITORY_IDENTITY_LIMIT)) (\<lambda>ci_outcomes.
         bind_result (case (mirror_repositories, mirror_repos) of
             (Some keys, _) \<Rightarrow> Inr keys
           | (None, Some repos) \<Rightarrow> v_map (\<lambda>repo. bind_result (OrgId org_id) (\<lambda>o'. bind_result (RequiredRepoSlug repo) (\<lambda>r'.
               Inr (LegacyRepositoryKey o' r')))) repos
           | (None, None) \<Rightarrow> mirrored) (\<lambda>keys.
         let legacy_repos = sort (map key_repo (filter (\<lambda>key. \<not> is_identified (Some key) \<and> key_org_id key = org_id) keys));
             session_ids = set (map cs_session_id summaries);
             notes_result = session_commits_from_notes_result mirrors org_id legacy_repos ctx
         in bind_result (fold_result (add_binding ctx) (map fst (br_bindings bound))
                (qualified_notes (nb_session_commits notes_result) org_id ctx, nb_session_commits notes_result)) (\<lambda>(qualified, notes).
            bind_result (jaccard_bindings snapshot mirrors org_id policy policy_digest ctx as_of qualified notes session_ids) (\<lambda>(jaccard, attribution_skips).
            bind_result (derive_ci_resolution_result ci_outcomes default_ci_policy (Some ci_digest) 0 (Some ctx)) (\<lambda>ci_index.
            fold_result (session_step snapshot mirrors org_id policy sink
                \<lparr>rn_context = ctx, rn_as_of = as_of, rn_provenance = provenance, rn_bindings = br_bindings bound,
                 rn_decisions = group_by dd_session_id (filter (\<lambda>row. dd_captured_at row \<le> as_of) decisions),
                 rn_notes = notes, rn_jaccard = jaccard, rn_ci_by_commit = crr_outcomes_by_commit ci_index\<rparr>)
              (sorted_list_of_set session_ids)
              (empty\<lparr>or_skipped := ctr_update (ctr_update (ctr_update skipped (nb_skipped notes_result)) attribution_skips)
                   (lift_resolution_skips (crr_skipped ci_index))\<rparr>)))))))))))))"

definition derive_rollouts ::
  "snapshot \<Rightarrow> mirrors \<Rightarrow> repository_key list result \<Rightarrow> string \<Rightarrow> rollout_policy \<Rightarrow> string \<Rightarrow> string option
   \<Rightarrow> time_bound \<Rightarrow> repository_context option \<Rightarrow> rollout list result" where
  "derive_rollouts snapshot mirrors mirrored org_id policy ci_digest policy_digest as_of repository_context =
     bind_result (derive_rollout_result snapshot mirrors mirrored org_id policy ci_digest policy_digest None None
       as_of repository_context None False) (\<lambda>r. Inr (or_rollouts r))"

end
