(* ===== verification/Rollout_Laws.thy ===== *)
theory Rollout_Laws
  imports Rollout Attribution_Laws
begin

text \<open>
  Laws of the rollout derivation. The indexed walk over a Session's calls is compared with
  \<open>call_chains\<close>, which appends each call to the last chain or opens a new one; the messages a chain
  keeps reconstruct its last input; turns do not depend on the order of calls and decisions; a
  sink receives exactly the rollouts the result would hold.
\<close>

section \<open>Chains\<close>

definition replays :: "inference_call \<Rightarrow> inference_call \<Rightarrow> bool" where
  "replays previous current = (fragment_reason_of previous current = None)"

definition add_call :: "inference_call list list \<Rightarrow> inference_call \<Rightarrow> inference_call list list" where
  "add_call cs c =
     (if cs \<noteq> [] \<and> replays (last (last cs)) c then butlast cs @ [last cs @ [c]] else cs @ [[c]])"

definition call_chains :: "inference_call list \<Rightarrow> inference_call list list" where
  "call_chains calls = foldl add_call [] calls"

fun chain_messages :: "inference_message list \<Rightarrow> inference_call list \<Rightarrow> inference_message list list" where
  "chain_messages previous [] = []"
| "chain_messages previous (c # cs) =
     drop (length previous) (ic_input_messages c) # chain_messages (ic_input_messages c) cs"

text \<open>The entries a chain contributes, each with the chain's index.\<close>

definition chain_entries :: "nat \<Rightarrow> inference_call list \<Rightarrow> turn_entry list" where
  "chain_entries i chain = map2 (\<lambda>c m. (c, m, i)) chain (chain_messages [] chain)"

lemma call_chains_Nil [simp]: "call_chains [] = []"
  by (simp add: call_chains_def)

lemma call_chains_snoc: "call_chains (cs @ [c]) = add_call (call_chains cs) c"
  by (simp add: call_chains_def)

lemma length_chain_messages [simp]: "length (chain_messages previous cs) = length cs"
  by (induction cs arbitrary: previous) simp_all

lemma chain_messages_snoc:
  "chain_messages previous (cs @ [c]) =
     chain_messages previous cs @
       [drop (length (if cs = [] then previous else ic_input_messages (last cs))) (ic_input_messages c)]"
  by (induction cs arbitrary: previous) simp_all

lemma chain_entries_snoc:
  "chain_entries i (cs @ [c]) = chain_entries i cs @
     [(c, drop (length (if cs = [] then [] else ic_input_messages (last cs))) (ic_input_messages c), i)]"
  by (simp add: chain_entries_def chain_messages_snoc)

lemma call_chains_props:
  "concat (call_chains cs) = cs" "[] \<notin> set (call_chains cs)" "cs \<noteq> [] \<Longrightarrow> last (last (call_chains cs)) = last cs"
  "call_chains cs = [] \<longleftrightarrow> cs = []"
proof (induction cs rule: rev_induct)
  case (snoc c cs)
  have split: "call_chains cs \<noteq> [] \<Longrightarrow> concat (butlast (call_chains cs)) @ last (call_chains cs) = concat (call_chains cs)"
    by (metis append_butlast_last_id concat_append concat.simps append_Nil2)
  { case 1 show ?case using snoc split by (auto simp: call_chains_snoc add_call_def) }
  { case 2 show ?case using snoc by (auto simp: call_chains_snoc add_call_def dest: in_set_butlastD) }
  { case 3 show ?case by (auto simp: call_chains_snoc add_call_def) }
  { case 4 show ?case by (auto simp: call_chains_snoc add_call_def) }
qed simp_all

lemma call_chains_single [simp]: "call_chains [c] = [[c]]"
  by (simp add: call_chains_def add_call_def)

definition entries_of :: "inference_call list list \<Rightarrow> turn_entry list" where
  "entries_of C = concat (map (\<lambda>(i, chain). chain_entries i chain) (enumerate 0 C))"

lemma entries_of_snoc: "entries_of (C @ [chain]) = entries_of C @ chain_entries (length C) chain"
  by (simp add: entries_of_def enumerate_append_eq)

lemma entries_of_extend:
  assumes "C \<noteq> []" "last C \<noteq> []"
  shows "entries_of (butlast C @ [last C @ [c]]) =
    entries_of C @ [(c, drop (length (ic_input_messages (last (last C)))) (ic_input_messages c), length C - 1)]"
proof -
  have "entries_of C = entries_of (butlast C) @ chain_entries (length C - 1) (last C)"
    using entries_of_snoc[of "butlast C" "last C"] assms(1) by simp
  then show ?thesis using assms by (simp add: entries_of_snoc chain_entries_snoc)
qed

text \<open>The three ways the walk takes a call: the first one, one that replays its predecessor, and one
  that opens a segment.\<close>

lemma turn_step_cases:
  "tw_prev w = None \<Longrightarrow> turn_step c w =
     w\<lparr>tw_entries := tw_entries w @ [(c, ic_input_messages c, tw_segment w)], tw_prev := Some c\<rparr>"
  "tw_prev w = Some p \<Longrightarrow> fragment_reason_of p c = None \<Longrightarrow> turn_step c w =
     w\<lparr>tw_entries := tw_entries w @ [(c, drop (length (ic_input_messages p)) (ic_input_messages c), tw_segment w)],
       tw_prev := Some c\<rparr>"
  "tw_prev w = Some p \<Longrightarrow> fragment_reason_of p c = Some r \<Longrightarrow> turn_step c w =
     w\<lparr>tw_entries := tw_entries w @ [(c, ic_input_messages c, tw_segment w + 1)], tw_segment := tw_segment w + 1,
       tw_prev := Some c, tw_fragmented := ctr_incr r (tw_fragmented w)\<rparr>"
  by (simp_all add: turn_step_def Let_def inference_input_messages_def)

abbreviation fragment_reasons :: "fragment_reason set" where
  "fragment_reasons \<equiv> {prior_output_absent, input_history_changed, prior_output_not_replayed}"

definition walked :: "inference_call list \<Rightarrow> turn_walk \<Rightarrow> bool" where
  "walked cs w \<longleftrightarrow> tw_entries w = entries_of (call_chains cs) \<and> tw_segment w = length (call_chains cs) - 1
     \<and> tw_prev w = (if cs = [] then None else Some (last cs))
     \<and> (\<Sum>r\<in>fragment_reasons. tw_fragmented w r) = length (call_chains cs) - 1"

lemma walked_step:
  assumes "walked cs w"
  shows "walked (cs @ [c]) (turn_step c w)"
proof (cases "cs = []")
  case True
  with assms have "turn_step c w = w\<lparr>tw_entries := [(c, ic_input_messages c, 0)], tw_prev := Some c\<rparr>"
    by (simp add: turn_step_cases(1) walked_def entries_of_def)
  with True assms show ?thesis by (simp add: walked_def entries_of_def chain_entries_def)
next
  case False
  let ?C = "call_chains cs"
  note C = call_chains_props[of cs]
  have C': "?C \<noteq> []" "last (last ?C) = last cs" "length ?C = Suc (length ?C - 1)"
    using False C by auto
  have ne: "last ?C \<noteq> []" using C(2) last_in_set[OF C'(1)] by metis
  have prev: "tw_prev w = Some (last cs)" using assms False by (simp add: walked_def)
  show ?thesis
  proof (cases "fragment_reason_of (last cs) c")
    case None
    have "call_chains (cs @ [c]) = butlast ?C @ [last ?C @ [c]]"
      using None C' by (simp add: call_chains_snoc add_call_def replays_def)
    then show ?thesis using assms entries_of_extend[OF C'(1) ne, of c] C'
      by (simp add: walked_def turn_step_cases(2)[OF prev None])
  next
    case (Some r)
    have "call_chains (cs @ [c]) = ?C @ [[c]]"
      using Some C' by (simp add: call_chains_snoc add_call_def replays_def)
    moreover have "entries_of (?C @ [[c]]) = entries_of ?C @ [(c, ic_input_messages c, length ?C)]"
      by (simp add: entries_of_snoc chain_entries_def)
    moreover have "r \<in> fragment_reasons" by (cases r) auto
    then have "(\<Sum>x\<in>fragment_reasons. ctr_incr r (tw_fragmented w) x) = (\<Sum>x\<in>fragment_reasons. tw_fragmented w x) + 1"
      by (intro sum_ctr_add) simp_all
    ultimately show ?thesis using assms C'(3)
      unfolding walked_def turn_step_cases(3)[OF prev Some] by simp
  qed
qed

lemma walked_calls: "walked cs (fold turn_step cs turn_start)"
  by (induction cs rule: rev_induct)
    (simp add: walked_def turn_start_def entries_of_def, simp add: walked_step)

lemma set_entries_segment: "[] \<notin> set C \<Longrightarrow> (\<lambda>e. snd (snd e)) ` set (entries_of C) = {0..<length C}"
proof (induction C rule: rev_induct)
  case (snoc chain C)
  then have "chain \<noteq> []" "[] \<notin> set C" by auto
  moreover have "(\<lambda>e. snd (snd e)) ` set (chain_entries i chain) = {i}" if "chain \<noteq> []" for i chain
    using that by (cases chain) (auto simp: chain_entries_def set_zip)
  ultimately show ?case using snoc.IH by (auto simp: entries_of_snoc image_Un)
qed (simp add: entries_of_def)

lemma filter_entries_segment:
  "filter (\<lambda>e. snd (snd e) = i) (entries_of C) = (if i < length C then chain_entries i (C ! i) else [])"
proof (induction C rule: rev_induct)
  case (snoc chain C)
  have own: "filter (\<lambda>e. snd (snd e) = i) (chain_entries j chain) = (if j = i then chain_entries j chain else [])" for j
    by (auto simp: chain_entries_def filter_empty_conv set_zip intro!: filter_True)
  consider "i < length C" | "i = length C" | "length C < i" by linarith
  then show ?case unfolding entries_of_snoc filter_append snoc.IH own by cases (simp_all add: nth_append)
qed (simp add: entries_of_def)

lemma calls_of_entries: "map (\<lambda>e. f (fst e)) (entries_of C) = map f (concat C)"
proof (induction C rule: rev_induct)
  case (snoc chain C)
  have "map (\<lambda>e. f (fst e)) (chain_entries i chain) = map f chain" for i
    by (rule nth_equalityI) (auto simp: chain_entries_def)
  with snoc show ?case by (simp add: entries_of_snoc)
qed (simp add: entries_of_def)

section \<open>Turns\<close>

text \<open>The turn of one call: the messages its chain keeps for it and the decisions attached to it.\<close>

definition session_turn ::
  "inference_call list \<Rightarrow> developer_decision list \<Rightarrow> inference_call \<Rightarrow> inference_message list \<Rightarrow> turn" where
  "session_turn ordered decisions c new_messages =
     \<lparr>tn_new_messages = new_messages, tn_completion = render_scoring_text c,
      tn_decisions = attached_to (map FullCall ordered) decisions (ic_id c), tn_inference_call_id = ic_id c,
      tn_tool_calls = inference_tool_calls c\<rparr>"

definition chain_turns ::
  "inference_call list \<Rightarrow> developer_decision list \<Rightarrow> inference_call list \<Rightarrow> turn list" where
  "chain_turns ordered decisions chain = map2 (session_turn ordered decisions) chain (chain_messages [] chain)"

lemma project_session_turns_eq:
  fixes calls decisions
  defines "ordered \<equiv> sort_key call_order calls"
  shows "pt_segments (project_session_turns calls decisions) = map (chain_turns ordered decisions) (call_chains ordered)"
    "pt_skipped (project_session_turns calls decisions) =
       da_skipped (join_decisions_by_call_id_result (map FullCall ordered) decisions)"
    "pt_fragmented (project_session_turns calls decisions) = tw_fragmented (fold turn_step ordered turn_start)"
proof -
  let ?C = "call_chains ordered"
  let ?att = "join_decisions_by_call_id_result (map FullCall ordered) decisions"
  have e: "tw_entries (fold turn_step ordered turn_start) = entries_of ?C" using walked_calls by (simp add: walked_def)
  have calls: "map (\<lambda>(c, m, s). FullCall c) (entries_of ?C) = map FullCall ordered"
    using calls_of_entries[of FullCall ?C] by (simp add: call_chains_props case_prod_unfold)
  have turn: "turn_of (da_decisions_by_completion ?att) (c, m, s) = session_turn ordered decisions c m" for c m s
    by (simp add: turn_of_def session_turn_def attached_to_def)
  have chain: "map (turn_of (da_decisions_by_completion ?att)) (chain_entries i ch) = chain_turns ordered decisions ch" for i ch
    by (simp add: chain_entries_def chain_turns_def turn comp_def split_def)
  have groups: "sort_key fst (group_by (\<lambda>(c, m, s). s) (entries_of ?C)) =
      map (\<lambda>i. (i, chain_entries i (?C ! i))) [0..<length ?C]"
    unfolding case_prod_unfold sort_groups_eq set_entries_segment[OF call_chains_props(2)]
    by (simp add: filter_entries_segment)
  have "pt_segments (project_session_turns calls decisions) =
      map (\<lambda>i. chain_turns ordered decisions (?C ! i)) [0..<length ?C]"
    unfolding project_session_turns_def Let_def ordered_def[symmetric] e calls groups by (simp add: chain comp_def)
  also have "\<dots> = map (chain_turns ordered decisions) ?C"
    by (rule nth_equalityI) simp_all
  finally show "pt_segments (project_session_turns calls decisions) = map (chain_turns ordered decisions) ?C" .
  show "pt_skipped (project_session_turns calls decisions) = da_skipped ?att"
    unfolding project_session_turns_def Let_def ordered_def[symmetric] e calls by simp
  show "pt_fragmented (project_session_turns calls decisions) = tw_fragmented (fold turn_step ordered turn_start)"
    by (simp add: project_session_turns_def Let_def ordered_def)
qed

lemma call_ids_chain_turns [simp]: "map tn_inference_call_id (chain_turns ordered decisions chain) = map ic_id chain"
  by (rule nth_equalityI) (auto simp: chain_turns_def session_turn_def)

lemma new_messages_chain_turns [simp]: "map tn_new_messages (chain_turns ordered decisions chain) = chain_messages [] chain"
  by (rule nth_equalityI) (auto simp: chain_turns_def session_turn_def)

lemma length_chain_turns [simp]: "length (chain_turns ordered decisions chain) = length chain"
  by (simp add: chain_turns_def)

text \<open>Within a chain each call replays its predecessor.\<close>

lemma call_chains_replay: "chain \<in> set (call_chains cs) \<Longrightarrow> successively replays chain"
proof (induction cs arbitrary: chain rule: rev_induct)
  case (snoc c cs)
  have "successively replays (last (call_chains cs))" if "call_chains cs \<noteq> []"
    using snoc.IH that by simp
  with snoc show ?case
    by (auto simp: call_chains_snoc add_call_def successively_append_iff dest: in_set_butlastD split: if_splits)
qed simp

lemma replays_prefix:
  assumes "replays previous current"
  shows "canonical_history (ic_input_messages current) =
      canonical_history (ic_input_messages previous)
        @ canonical_history (drop (length (ic_input_messages previous)) (ic_input_messages current))"
    and "prefix (canonical_history (ic_output_messages previous))
      (canonical_history (drop (length (ic_input_messages previous)) (ic_input_messages current)))"
proof -
  let ?b = "canonical_history (ic_input_messages previous)" and ?a = "canonical_history (ic_input_messages current)"
    and ?o = "canonical_history (ic_output_messages previous)"
  have t: "take (length ?b) ?a = ?b" "take (length (?b @ ?o)) ?a = ?b @ ?o"
    using assms by (auto simp: replays_def fragment_reason_of_def Let_def split: if_splits)
  have d: "canonical_history (drop (length (ic_input_messages previous)) (ic_input_messages current)) = drop (length ?b) ?a"
    by (simp add: canonical_history_def drop_map)
  show "?a = ?b @ canonical_history (drop (length (ic_input_messages previous)) (ic_input_messages current))"
    unfolding d using t(1) by (metis append_take_drop_id)
  have "take (length ?o) (drop (length ?b) ?a) = ?o"
    using arg_cong[OF t(2), of "drop (length ?b)"] by (simp add: drop_take)
  then show "prefix ?o (canonical_history (drop (length (ic_input_messages previous)) (ic_input_messages current)))"
    unfolding d by (metis take_is_prefix)
qed

lemma canonical_history_append: "canonical_history (xs @ ys) = canonical_history xs @ canonical_history ys"
  by (simp add: canonical_history_def)

lemma chain_messages_history:
  assumes "successively replays chain" "chain \<noteq> []"
  shows "canonical_history (concat (chain_messages [] chain)) = canonical_history (ic_input_messages (last chain))"
  using assms
proof (induction chain rule: rev_induct)
  case (snoc c chain)
  show ?case
  proof (cases "chain = []")
    case False
    with snoc have "replays (last chain) c" "successively replays chain"
      by (auto simp: successively_append_iff)
    with snoc.IH False show ?thesis
      by (simp add: chain_messages_snoc canonical_history_append replays_prefix(1)[of "last chain" c])
  qed simp
qed simp

lemma chain_messages_output:
  assumes "successively replays chain" "Suc i < length chain"
  shows "prefix (canonical_history (ic_output_messages (chain ! i))) (canonical_history (chain_messages previous chain ! Suc i))"
  using assms
proof (induction chain arbitrary: i previous)
  case (Cons c chain)
  show ?case
  proof (cases i)
    case 0
    with Cons.prems obtain d rest where "chain = d # rest" by (cases chain) auto
    with Cons.prems 0 show ?thesis using replays_prefix(2)[of c d] by simp
  next
    case (Suc j)
    have "successively replays chain" using Cons.prems(1) by (cases chain) auto
    with Cons Suc show ?thesis by simp
  qed
qed simp


text \<open>The laws of one Session's projection.\<close>

lemma project_session_turns_perm:
  assumes "mset calls = mset calls'" "mset decisions = mset decisions'"
    and "inj_on ic_id (set calls)" "inj_on dd_id (set decisions)"
  shows "project_session_turns calls decisions = project_session_turns calls' decisions'"
proof -
  have o: "sort_key call_order calls = sort_key call_order calls'"
    by (rule sort_key_perm_eq[OF assms(1)]) (use assms(3) in \<open>auto simp: inj_on_def call_order_def\<close>)
  have "attached_to xs decisions = attached_to xs decisions'" for xs
    by (rule attached_to_perm[OF refl assms(2,4)])
  then have t: "chain_turns xs decisions = chain_turns xs decisions'" for xs
    by (simp add: chain_turns_def session_turn_def fun_eq_iff)
  have "pt_segments (project_session_turns calls decisions) = pt_segments (project_session_turns calls' decisions')"
    "pt_skipped (project_session_turns calls decisions) = pt_skipped (project_session_turns calls' decisions')"
    "pt_fragmented (project_session_turns calls decisions) = pt_fragmented (project_session_turns calls' decisions')"
    unfolding project_session_turns_eq o t join_skipped_perm[OF refl assms(2)] by simp_all
  then show ?thesis by (intro projected_turns.equality) simp_all
qed

section \<open>The sessions of a result\<close>

text \<open>What a result becomes when its deliveries are collected instead.\<close>

definition collected :: "rollout_result \<Rightarrow> rollout_result" where
  "collected r = r\<lparr>or_rollouts := or_rollouts r @ or_delivered r, or_delivered := []\<rparr>"

lemma session_step_sink:
  assumes "or_rollouts r = []"
  shows "(\<exists>e. session_step sn ms org policy True inp sid r = Inl e
        \<and> session_step sn ms org policy False inp sid (collected r) = Inl e)
     \<or> (\<exists>r'. session_step sn ms org policy True inp sid r = Inr r' \<and> or_rollouts r' = []
        \<and> session_step sn ms org policy False inp sid (collected r) = Inr (collected r'))"
  using assms by (cases "session_rollout sn ms org policy inp sid")
    (auto simp: session_step_def collected_def split: prod.splits)

lemma session_steps_sink:
  assumes "or_rollouts r = []"
  shows "map_sum id collected (fold_result (session_step sn ms org policy True inp) sids r) =
     fold_result (session_step sn ms org policy False inp) sids (collected r)"
  using assms
proof (induction sids arbitrary: r)
  case (Cons sid sids)
  from session_step_sink[OF Cons.prems, of sn ms org policy inp sid] Cons.IH
  show ?case by auto
qed simp

lemma session_rollout_id:
  "session_rollout sn ms org policy inp sid = Inr (ro, skips, fragmented) \<Longrightarrow>
     ro_session_id ro = sid \<and> ro_org_id ro = org \<and> ro_split ro = split_of sid (op_eval_fraction policy)
     \<and> ro_attribution_source ro = fst (session_binding inp sid)
     \<and> order_commits ms org (snd (session_binding inp sid)) (rn_context inp) = Inr (ro_commits ro)"
  by (auto simp: session_rollout_def Let_def split: prod.splits)

lemma session_steps_ids:
  assumes "fold_result (session_step sn ms org policy sink inp) sids r = Inr r'"
    and "if sink then or_rollouts r = [] else or_delivered r = []"
  shows "map ro_session_id (or_rollouts r' @ or_delivered r') =
     map ro_session_id (or_rollouts r @ or_delivered r) @ sids"
  using assms
proof (induction sids arbitrary: r)
  case (Cons sid sids)
  then obtain ro skips fragmented where ro: "session_rollout sn ms org policy inp sid = Inr (ro, skips, fragmented)"
    by (cases "session_rollout sn ms org policy inp sid") (auto simp: session_step_def)
  show ?case using Cons session_rollout_id[OF ro] ro by (auto simp: session_step_def split: if_splits)
qed simp


lemma map_sum_bind: "map_sum id g (bind_result r f) = bind_result r (\<lambda>x. map_sum id g (f x))"
  by (cases r) simp_all

lemma collected_empty: "or_delivered r = [] \<Longrightarrow> collected r = r"
  by (simp add: collected_def)

text \<open>Everything before the loop over the sessions does not depend on the sink.\<close>

lemma derive_rollout_result_sink:
  "map_sum id collected (derive_rollout_result sn ms mirrored org policy cd pd repos obs bound ctx keys True) =
     derive_rollout_result sn ms mirrored org policy cd pd repos obs bound ctx keys False"
  unfolding derive_rollout_result_def Let_def
  by (simp add: map_sum_bind session_steps_sink collected_empty if_distrib[of "map_sum id collected"]
      case_prod_unfold cong: if_cong)


lemma derive_rollout_result_sessions:
  assumes "derive_rollout_result sn ms mirrored org policy cd pd repos obs bound context keys sink = Inr r"
    and "rollout_context sn org obs context bound = Inr (ctx, as_of, summaries)"
  shows "map ro_session_id (or_rollouts r @ or_delivered r) =
     sorted_list_of_set (cs_session_id ` {c \<in> set summaries. cs_observed_at c \<le> as_of})"
proof -
  have ids: "cs_session_id ` {c \<in> set summaries. cs_observed_at c \<le> as_of} =
      set (map cs_session_id (filter (\<lambda>c. cs_observed_at c \<le> as_of) summaries))" by auto
  note d = assms(1)[unfolded derive_rollout_result_def Let_def assms(2) bind_result_simps prod.case v_map_check]
  show ?thesis
    unfolding ids using d
    by (auto simp del: set_map split: if_splits prod.splits dest!: session_steps_ids)
qed


section \<open>Properties of the derivation\<close>

text \<open>C19. The segments of a Session are the reference chains of its calls in observation order: every
  call becomes one turn, in order, with the decisions attached to it; no segment is empty; and the
  fragmentation counts add up to the number of cuts.\<close>

theorem rollout_segments:
  "pt_segments (project_session_turns calls decisions) =
     map (chain_turns (sort_key call_order calls) decisions) (call_chains (sort_key call_order calls))
   \<and> map tn_inference_call_id (concat (pt_segments (project_session_turns calls decisions))) =
     map ic_id (sort_key call_order calls)
   \<and> [] \<notin> set (pt_segments (project_session_turns calls decisions))
   \<and> (\<Sum>r\<in>{prior_output_absent, input_history_changed, prior_output_not_replayed}.
        pt_fragmented (project_session_turns calls decisions) r) =
     length (pt_segments (project_session_turns calls decisions)) - 1"
proof -
  let ?o = "sort_key call_order calls"
  have "map tn_inference_call_id (concat (map (chain_turns ?o decisions) C)) = map ic_id (concat C)" for C
    by (induction C) simp_all
  moreover have "[] \<notin> set (map (chain_turns ?o decisions) (call_chains ?o))"
    using call_chains_props(2)[of ?o] by (auto simp: chain_turns_def) (metis length_0_conv length_chain_messages)
  ultimately show ?thesis
    using walked_calls[of ?o] by (simp add: project_session_turns_eq call_chains_props walked_def)
qed

text \<open>C20. A segment loses no message: the new messages of its turns, one after the other, are the input
  history of its last call, and every turn after the first opens with the output of the turn before
  it (messages compared as the derivation compares them).\<close>

theorem rollout_segment_history:
  assumes "segment \<in> set (pt_segments (project_session_turns calls decisions))"
  shows "\<exists>chain. chain \<noteq> [] \<and> set chain \<subseteq> set calls \<and> map tn_inference_call_id segment = map ic_id chain
     \<and> canonical_history (concat (map tn_new_messages segment)) = canonical_history (ic_input_messages (last chain))
     \<and> (\<forall>i. Suc i < length chain \<longrightarrow>
          prefix (canonical_history (ic_output_messages (chain ! i))) (canonical_history (tn_new_messages (segment ! Suc i))))"
proof -
  let ?o = "sort_key call_order calls"
  obtain chain where chain: "chain \<in> set (call_chains ?o)" and seg: "segment = chain_turns ?o decisions chain"
    using assms by (auto simp: project_session_turns_eq)
  have new: "tn_new_messages (segment ! j) = chain_messages [] chain ! j" if "j < length chain" for j
    using that new_messages_chain_turns[of ?o decisions chain] unfolding seg by (metis length_chain_turns nth_map)
  have "chain \<noteq> []" using chain call_chains_props(2) by metis
  moreover have "set chain \<subseteq> set calls"
    using chain arg_cong[OF call_chains_props(1)[of ?o], of set] by auto
  ultimately show ?thesis
    using chain_messages_history[OF call_chains_replay[OF chain]] chain_messages_output[OF call_chains_replay[OF chain]]
    by (intro exI[of _ chain]) (simp add: seg new[unfolded seg])
qed

text \<open>The turns are a function of the Facts: neither the order in which the store returns the calls
  of a Session nor that of its decisions changes a segment or a count.\<close>

theorem rollout_turns_order_independent:
  assumes "mset calls = mset calls'" "mset decisions = mset decisions'"
    and "inj_on ic_id (set calls)" "inj_on dd_id (set decisions)"
  shows "project_session_turns calls decisions = project_session_turns calls' decisions'"
  by (rule project_session_turns_perm[OF assms])

text \<open>Streaming changes nothing but the destination: with a sink the derivation fails with the same
  error, or delivers in order exactly the rollouts, with the same counts, that it returns without
  one.\<close>

theorem rollout_sink_equivalent:
  "map_sum id collected (derive_rollout_result sn ms mirrored org policy ci_digest digest repos obs bound context keys True) =
     derive_rollout_result sn ms mirrored org policy ci_digest digest repos obs bound context keys False"
  by (rule derive_rollout_result_sink)

text \<open>One rollout per Session: the rollouts are those of the Sessions with a call observed by the
  boundary, each once and in the order of their ids.\<close>

theorem rollout_sessions:
  assumes "derive_rollout_result sn ms mirrored org policy ci_digest digest repos obs bound context keys sink = Inr r"
    and "rollout_context sn org obs context bound = Inr (ctx, as_of, summaries)"
  shows "map ro_session_id (or_rollouts r @ or_delivered r) =
     sorted_list_of_set (cs_session_id ` {c \<in> set summaries. cs_observed_at c \<le> as_of})"
  by (rule derive_rollout_result_sessions[OF assms])

section \<open>Witnesses\<close>

definition sample_message :: "string \<Rightarrow> string \<Rightarrow> inference_message" where
  "sample_message role content = \<lparr>msg_role = role, msg_parts = [TextPart content], msg_finish_reason = None\<rparr>"

text \<open>Two calls, the second replaying the first.\<close>

definition sample_first :: inference_call where
  "sample_first = (fst (sample_candidate ''c1''))\<lparr>ic_input_messages := [sample_message ''user'' ''a''],
     ic_output_messages := [sample_message ''assistant'' ''b'']\<rparr>"

definition sample_second :: inference_call where
  "sample_second = (fst (sample_candidate ''c2''))\<lparr>ic_observed_at := 6, ic_input_messages :=
     [sample_message ''user'' ''a'', sample_message ''assistant'' ''b'', sample_message ''user'' ''c'']\<rparr>"

lemmas rollout_eval = sample_first_def sample_second_def sample_message_def sample_candidate_def
  project_session_turns_eq call_chains_def add_call_def replays_def fragment_reason_of_def canonical_history_def
  canonical_message_def call_order_def inference_observed_at_def

lemma sample_chains: "call_chains (sort_key call_order [sample_first, sample_second]) = [[sample_first, sample_second]]"
  by (simp add: rollout_eval)

theorem rollout_segment_history_witness:
  "\<exists>chain. length chain = 2 \<and> set chain \<subseteq> {sample_first, sample_second}
     \<and> canonical_history (concat (map tn_new_messages
         (chain_turns (sort_key call_order [sample_first, sample_second]) [] [sample_first, sample_second]))) =
       canonical_history (ic_input_messages (last chain))"
proof -
  let ?segment = "chain_turns (sort_key call_order [sample_first, sample_second]) [] [sample_first, sample_second]"
  have "?segment \<in> set (pt_segments (project_session_turns [sample_first, sample_second] []))"
    unfolding project_session_turns_eq sample_chains by simp
  from rollout_segment_history[OF this] obtain chain where chain: "set chain \<subseteq> set [sample_first, sample_second]"
    "map tn_inference_call_id ?segment = map ic_id chain"
    "canonical_history (concat (map tn_new_messages ?segment)) = canonical_history (ic_input_messages (last chain))" by blast
  have "length chain = 2" using arg_cong[OF chain(2), of length] by simp
  with chain(1,3) show ?thesis by (intro exI[of _ chain]) simp
qed

theorem rollout_turns_order_independent_witness:
  "project_session_turns [sample_second, sample_first] [sample_decision ''d1'' ''a.py'' 5, sample_decision ''d2'' ''b.py'' 4] =
   project_session_turns [sample_first, sample_second] [sample_decision ''d2'' ''b.py'' 4, sample_decision ''d1'' ''a.py'' 5]"
  by (rule rollout_turns_order_independent)
    (simp_all add: rollout_eval sample_defs add_mset_commute)

definition sample_rollout_snapshot :: snapshot where
  "sample_rollout_snapshot = sample_snapshot\<lparr>
     sn_call_summaries := (\<lambda>n. Inr [\<lparr>cs_id = ''c1'', cs_session_id = ''s1'', cs_observed_at = 5\<rparr>]),
     sn_session_calls := (\<lambda>s t. Inr [sample_second, sample_first])\<rparr>"


definition sample_rollout_policy :: rollout_policy where
  "sample_rollout_policy = \<lparr>op_attribution = default_attribution_policy, op_policy_version = ''1'', op_eval_fraction = 1 / 10\<rparr>"

abbreviation sample_digest :: string where
  "sample_digest \<equiv> replicate 64 CHR ''a''"

lemma rollout_provenance_sample: "new_provenance ''1'' 0 None = Inr \<lparr>pr_policy_version = ''1'', pr_quarantine_revision = 0, pr_policy_digest = None\<rparr>"
  by (simp add: new_provenance_def py_strip_def py_isspace_def cp_def)

lemma sample_rollout_context:
  "rollout_context sample_rollout_snapshot ''acme'' None (Some sample_context) NoBound =
     Inr (sample_context, 10, [\<lparr>cs_id = ''c1'', cs_session_id = ''s1'', cs_observed_at = 5\<rparr>])"
  by (simp add: rollout_context_def sample_scope as_utc_def UTC_MIN_def UTC_MAX_def sample_rollout_snapshot_def)

lemma rollout_bound_sample: "bind_session_commit_keys_result [] ''acme'' (Some 10) sample_context = Inr \<lparr>br_bindings = [], br_skipped = ctr_empty\<rparr>"
  by (simp add: bind_session_commit_keys_result_def as_utc_def UTC_MIN_def UTC_MAX_def sample_scope)

lemma sample_jaccard:
  "\<exists>r. derive_attribution_result sample_rollout_snapshot (\<lambda>key. None) ''acme'' default_attribution_policy None jaccard_tokens
      None None None (Some []) (Some sample_context) (Bound 10) = Inr r \<and> ar_attributions r = []"
  by (simp add: derive_attribution_result_def derive_in_context_def sample_scope as_utc_def UTC_MIN_def UTC_MAX_def sample_rollout_snapshot_def sample_snapshot_def
      default_attribution_policy_def new_provenance_def py_strip_def py_isspace_def cp_def scope_pushes_def order_pushes_def eligible_candidates_def)

lemma sample_ci: "\<exists>r. derive_ci_resolution_result [] default_ci_policy (Some sample_digest) 0 (Some sample_context) = Inr r"
  by (simp add: derive_ci_resolution_result_def new_provenance_def default_ci_policy_def lower_hex_def list_ex_iff py_strip_def py_isspace_def cp_def sample_scope sorted_runs_def
     index_ci_outcomes_by_commit_key_result_def empty_result_def sorted_index_def empty_index_def Let_def)


lemma sample_session:
  "\<exists>p. session_rollout sample_rollout_snapshot (\<lambda>key. None) ''acme'' sample_rollout_policy
     \<lparr>rn_context = sample_context, rn_as_of = 10,
      rn_provenance = \<lparr>pr_policy_version = ''1'', pr_quarantine_revision = 0, pr_policy_digest = None\<rparr>,
      rn_bindings = [], rn_decisions = [], rn_notes = [], rn_jaccard = [], rn_ci_by_commit = ci\<rparr> ''s1'' = Inr p"
proof -
  have "attached_to cs [] k = []" for cs k
    by (simp add: attached_to_eq drop_subsumed_codex_decisions_def)
  then show ?thesis
    by (simp add: session_rollout_def sample_rollout_snapshot_def sample_snapshot_def session_binding_def
        order_commits_def terminal_outcomes_def exact_rows_def exact_turn_def chain_turns_def
        session_turn_def rollout_eval dict_get_def map_filter_def Let_def)
qed

theorem rollout_sessions_witness:
  "\<exists>r. derive_rollout_result sample_rollout_snapshot (\<lambda>key. None) (Inr []) ''acme'' sample_rollout_policy sample_digest
      None None None NoBound (Some sample_context) None False = Inr r
     \<and> map ro_session_id (or_rollouts r @ or_delivered r) = [''s1'']"
proof -
  obtain a where a: "derive_attribution_result sample_rollout_snapshot (\<lambda>key. None) ''acme'' default_attribution_policy None
      jaccard_tokens None None None (Some []) (Some sample_context) (Bound 10) = Inr a" "ar_attributions a = []"
    using sample_jaccard by blast
  obtain ci where ci: "derive_ci_resolution_result [] default_ci_policy (Some sample_digest) 0 (Some sample_context) = Inr ci"
    using sample_ci by blast
  obtain p where p: "session_rollout sample_rollout_snapshot (\<lambda>key. None) ''acme'' sample_rollout_policy
     \<lparr>rn_context = sample_context, rn_as_of = 10,
      rn_provenance = \<lparr>pr_policy_version = ''1'', pr_quarantine_revision = 0, pr_policy_digest = None\<rparr>,
      rn_bindings = [], rn_decisions = [], rn_notes = [], rn_jaccard = [], rn_ci_by_commit = crr_outcomes_by_commit ci\<rparr> ''s1'' = Inr p"
    using sample_session by blast
  have s: "sn_quarantine_revision sample_rollout_snapshot = 0" "sn_observations sample_rollout_snapshot 10 = []"
    "sn_decisions sample_rollout_snapshot = []" "sn_ci_outcomes sample_rollout_snapshot t n = Inr []"
    "op_policy_version sample_rollout_policy = ''1''" "op_attribution sample_rollout_policy = default_attribution_policy" for t n
    by (simp_all add: sample_rollout_snapshot_def sample_snapshot_def sample_rollout_policy_def)
  have "\<exists>r. derive_rollout_result sample_rollout_snapshot (\<lambda>key. None) (Inr []) ''acme'' sample_rollout_policy sample_digest
      None None None NoBound (Some sample_context) None False = Inr r"
    using p a ci by (cases p) (simp add: derive_rollout_result_def sample_rollout_context rollout_provenance_sample s observation_facts_def
      rollout_bound_sample sample_scope as_utc_def UTC_MIN_def UTC_MAX_def session_commits_from_notes_result_def qualified_notes_def
      jaccard_bindings_def dict_get_def attributed_commits_def session_step_def)
  then obtain r where r: "derive_rollout_result sample_rollout_snapshot (\<lambda>key. None) (Inr []) ''acme'' sample_rollout_policy
      sample_digest None None None NoBound (Some sample_context) None False = Inr r" by blast
  have "{c \<in> set [\<lparr>cs_id = ''c1'', cs_session_id = ''s1'', cs_observed_at = 5\<rparr>]. cs_observed_at c \<le> (10 :: int)} =
      {\<lparr>cs_id = ''c1'', cs_session_id = ''s1'', cs_observed_at = 5\<rparr>}" by auto
  with rollout_sessions[OF r sample_rollout_context] r show ?thesis by simp
qed

end
