(* ===== verification/Mirror_Store.thy ===== *)
theory Mirror_Store
  imports Attribution "HOL-Library.Sublist"
begin

text \<open>
  The store of bare mirrors of \<open>packages/derive/sediment_derive/mirror.py\<close> (\<open>MirrorManager\<close>) and the
  retention of \<open>packages/derive/sediment_derive/gc.py\<close>.

  The base directory is the list of directories created under it, in the order a directory scan meets
  them; a path is its components below the base, and a parent directory exists where one of its
  children does. What Git and the operating system answer (whether \<open>git init\<close>, \<open>git config\<close> and
  \<open>git fetch\<close> succeed, what \<open>rmtree\<close> leaves behind when it fails) is a parameter; so are URL parsing,
  the registries of internal addresses and name resolution, which \<open>MirrorPolicy\<close> asks. A lock file is
  its name, and the file locks appear as the order each operation takes them in.

  A directory name that does not decode to characters below 256 is outside this model's strings and
  is not listed.
\<close>

section \<open>Percent quoting\<close>

definition unreserved :: "char \<Rightarrow> bool" where
  "unreserved c = (ascii_lower_alnum c \<or> 65 \<le> cp c \<and> cp c \<le> 90 \<or> c \<in> set ''_.-~'')"

definition hex_digit :: "nat \<Rightarrow> char" where
  "hex_digit n = ''0123456789ABCDEF'' ! n"

definition percent_byte :: "nat \<Rightarrow> string" where
  "percent_byte b = [CHR ''%'', hex_digit (b div 16), hex_digit (b mod 16)]"

text \<open>\<open>quote(s, safe="")\<close>\<close>

definition percent_char :: "char \<Rightarrow> string" where
  "percent_char c =
     (if unreserved c then [c]
      else if cp c < 128 then percent_byte (cp c)
      else percent_byte (192 + cp c div 64) @ percent_byte (128 + cp c mod 64))"

definition quote_name :: "string \<Rightarrow> string" where
  "quote_name s = concat (map percent_char s)"

definition hex_value :: "char \<Rightarrow> nat option" where
  "hex_value c =
     (if 48 \<le> cp c \<and> cp c \<le> 57 then Some (cp c - 48)
      else if 65 \<le> cp c \<and> cp c \<le> 70 then Some (cp c - 55)
      else if 97 \<le> cp c \<and> cp c \<le> 102 then Some (cp c - 87) else None)"

text \<open>\<open>unquote\<close>: within each run of ASCII characters the escapes become bytes, and the run is decoded
  as UTF-8.\<close>

fun unquote_bytes :: "string \<Rightarrow> nat list" where
  "unquote_bytes (c # cs) =
     (if c \<noteq> CHR ''%'' then cp c # unquote_bytes cs
      else case cs of
        a # b # rest \<Rightarrow>
          (case (hex_value a, hex_value b) of
             (Some x, Some y) \<Rightarrow> (16 * x + y) # unquote_bytes rest
           | _ \<Rightarrow> cp c # unquote_bytes cs)
      | _ \<Rightarrow> cp c # unquote_bytes cs)"
| "unquote_bytes [] = []"

definition is_ascii :: "char \<Rightarrow> bool" where
  "is_ascii c = (cp c < 128)"

function unquote_name :: "string \<Rightarrow> ustr option" where
  "unquote_name s =
     (if s = [] then Some []
      else if is_ascii (hd s) then
        (case (utf8_decode (unquote_bytes (takeWhile is_ascii s)), unquote_name (dropWhile is_ascii s)) of
           (Some x, Some y) \<Rightarrow> Some (x @ y) | _ \<Rightarrow> None)
      else map_option (Cons (cp (hd s))) (unquote_name (tl s)))"
  by pat_completeness auto
termination
proof (relation "measure length")
  fix s :: string
  assume "s \<noteq> []" "is_ascii (hd s)"
  then have "length (dropWhile is_ascii s) < length s"
    using length_dropWhile_le[of is_ascii "tl s"] by (cases s) auto
  then show "(dropWhile is_ascii s, s) \<in> measure length" by simp
qed auto

declare unquote_name.simps [simp del]

definition decoded_name :: "string \<Rightarrow> string option" where
  "decoded_name s =
     (case unquote_name s of Some u \<Rightarrow> if list_all (\<lambda>c. c < 256) u then Some (map char_of u) else None | None \<Rightarrow> None)"

section \<open>Paths\<close>

type_synonym disk_path = "string list"

definition IDENTIFIED_MIRROR_NAMESPACE :: string where
  "IDENTIFIED_MIRROR_NAMESPACE = ''repositories-v1''"

definition mirror_path :: "string \<Rightarrow> string \<Rightarrow> disk_path" where
  "mirror_path org_id repo = [quote_name (org_id @ ''/'' @ repo)]"

fun repository_path :: "repository_key \<Rightarrow> disk_path" where
  "repository_path (LegacyRepositoryKey org_id repo) = mirror_path org_id repo"
| "repository_path (IdentifiedRepositoryKey org_id i) =
     IDENTIFIED_MIRROR_NAMESPACE #
       map quote_name [org_id, forge_provider_value (ri_provider i), ri_host i, ri_repository_id i]"

text \<open>\<open>str(path.relative_to(base))\<close>\<close>

fun path_name :: "disk_path \<Rightarrow> string" where
  "path_name [] = ''.''"
| "path_name [c] = c"
| "path_name (c # cs) = c @ ''/'' @ path_name cs"

definition new_legacy_key :: "string \<Rightarrow> string \<Rightarrow> repository_key result" where
  "new_legacy_key org_id repo =
     bind_result (OrgId org_id) (\<lambda>org_id. bind_result (RequiredRepoSlug repo) (\<lambda>repo.
       Inr (LegacyRepositoryKey org_id repo)))"

definition new_identified_key :: "string \<Rightarrow> repository_identity \<Rightarrow> repository_key result" where
  "new_identified_key org_id i = bind_result (OrgId org_id) (\<lambda>org_id. Inr (IdentifiedRepositoryKey org_id i))"

section \<open>The directories\<close>

record mirror_dir =
  md_head :: bool
  md_origin :: "string option"
  md_fetch :: "string list"
  md_refs :: "(string \<times> string) list"

type_synonym disk = "(disk_path \<times> mirror_dir) list"

record mirror_base =
  mb_present :: bool
  mb_dirs :: disk

definition path_exists :: "disk \<Rightarrow> disk_path \<Rightarrow> bool" where
  "path_exists d p = list_ex (\<lambda>(q, m). prefix p q) d"

definition has_head :: "disk \<Rightarrow> disk_path \<Rightarrow> bool" where
  "has_head d p = (case map_of d p of Some m \<Rightarrow> md_head m | None \<Rightarrow> False)"

definition outside :: "disk_path \<Rightarrow> disk \<Rightarrow> disk" where
  "outside p d = filter (\<lambda>(q, m). \<not> prefix p q) d"

text \<open>Opening a lock file creates the base directory.\<close>

definition with_base :: "mirror_base \<Rightarrow> mirror_base" where
  "with_base b = b\<lparr>mb_present := True\<rparr>"

section \<open>Reading\<close>

text \<open>What a thread holds during a derivation: the lock names, and whether there was a base directory.\<close>

type_synonym held_snapshot = "(string set \<times> bool) option"

definition enter_read_snapshot ::
  "repository_key list \<Rightarrow> mirror_base \<Rightarrow> held_snapshot \<Rightarrow> held_snapshot result" where
  "enter_read_snapshot keys base held =
     (let names = set (map (path_name \<circ> repository_path) keys)
      in case held of
           Some (locks, present) \<Rightarrow>
             if \<not> names \<subseteq> locks
             then Inl (ValueError ''nested mirror snapshot cannot add repository locks'') else Inr held
         | None \<Rightarrow> Inr (Some (names, mb_present base)))"

definition snapshot_lacks_base :: "held_snapshot \<Rightarrow> bool" where
  "snapshot_lacks_base held = (case held of Some (locks, present) \<Rightarrow> \<not> present | None \<Rightarrow> False)"

definition open_repository :: "held_snapshot \<Rightarrow> mirror_base \<Rightarrow> repository_key \<Rightarrow> disk_path option" where
  "open_repository held base key =
     (let path = repository_path key
      in if snapshot_lacks_base held \<or> \<not> has_head (mb_dirs base) path then None else Some path)"

definition list_mirrored_repos :: "mirror_base \<Rightarrow> string \<Rightarrow> string list" where
  "list_mirrored_repos base org_id =
     (if \<not> mb_present base then []
      else concat (map (\<lambda>(p, m). case p of
          [entry] \<Rightarrow>
            if entry = ''.locks'' \<or> \<not> has_head (mb_dirs base) p then []
            else (case decoded_name entry of
                None \<Rightarrow> []
              | Some decoded \<Rightarrow>
                  if py_startswith decoded (org_id @ ''/'') then [drop (length org_id + 1) decoded] else [])
        | _ \<Rightarrow> []) (mb_dirs base)))"

text \<open>One directory of the identified layout, as the key it was made for.\<close>

definition identified_entry :: "string \<Rightarrow> disk_path \<Rightarrow> repository_key option" where
  "identified_entry org_id p =
     (case p of
        [namespace, org, provider, host, repository_id] \<Rightarrow>
          if namespace \<noteq> IDENTIFIED_MIRROR_NAMESPACE \<or> org \<noteq> quote_name org_id then None
          else (case (decoded_name provider, decoded_name host, decoded_name repository_id) of
              (Some provider, Some host, Some repository_id) \<Rightarrow>
                if provider \<noteq> forge_provider_value GITHUB then None
                else (case bind_result (new_repository_identity GITHUB host repository_id) (new_identified_key org_id) of
                    Inl _ \<Rightarrow> None
                  | Inr key \<Rightarrow> if repository_path key \<noteq> p then None else Some key)
            | _ \<Rightarrow> None)
      | _ \<Rightarrow> None)"

definition list_mirrored_repositories :: "mirror_base \<Rightarrow> string \<Rightarrow> repository_key list result" where
  "list_mirrored_repositories base org_id =
     bind_result (normalize_org_id org_id) (\<lambda>org_id.
       let legacy = concat (map (\<lambda>repo. case new_legacy_key org_id repo of Inl _ \<Rightarrow> [] | Inr key \<Rightarrow> [key])
             (list_mirrored_repos base org_id));
           identified = List.map_filter (\<lambda>(p, m). if has_head (mb_dirs base) p then identified_entry org_id p else None)
             (mb_dirs base)
       in Inr (sorted_list_of_set (set (legacy @ identified))))"

section \<open>Confinement of the clone URL\<close>

text \<open>\<open>urlparse\<close> as the policy reads it: the scheme and the host name.\<close>

record parsed_url =
  url_scheme :: string
  url_hostname :: "string option"

record mirror_policy =
  mp_enforce :: bool
  mp_allowed_hosts :: "string list"

definition ENFORCED_CLONE_SCHEMES :: "string list" where
  "ENFORCED_CLONE_SCHEMES = [''http'', ''https'', ''git'', ''ssh'']"

datatype clone_rejection = scheme_not_allowed string | clone_url_without_host | host_not_in_allowlist | internal_host

definition rejection_reason ::
  "mirror_policy \<Rightarrow> (string \<Rightarrow> parsed_url result) \<Rightarrow> (string \<Rightarrow> bool) \<Rightarrow> string \<Rightarrow> clone_rejection option result"
where
  "rejection_reason policy urlparse is_internal_host clone_url =
     (if \<not> mp_enforce policy then Inr None
      else
      bind_result (urlparse clone_url) (\<lambda>parsed.
        Inr (if url_scheme parsed \<notin> set ENFORCED_CLONE_SCHEMES then Some (scheme_not_allowed (url_scheme parsed))
             else case url_hostname parsed of
               None \<Rightarrow> Some clone_url_without_host
             | Some host \<Rightarrow>
                 if host = [] then Some clone_url_without_host
                 else if mp_allowed_hosts policy \<noteq> [] then
                   (if list_ex (\<lambda>allowed. host = py_lower allowed) (mp_allowed_hosts policy) then None
                    else Some host_not_in_allowlist)
                 else if is_internal_host host then Some internal_host else None)))"

section \<open>Refreshing\<close>

text \<open>What Git and the network answer. A failing \<open>git init\<close> may leave a directory behind, a failing
  fetch may have moved some refs.\<close>

record git_answers =
  ga_urlparse :: "string \<Rightarrow> parsed_url result"
  ga_internal_host :: "string \<Rightarrow> bool"
  ga_init :: "disk_path \<Rightarrow> mirror_dir option \<times> bool"
  ga_config :: "nat \<Rightarrow> bool"
  ga_fetch :: "string \<Rightarrow> string list \<Rightarrow> (string \<times> string) list \<Rightarrow> (string \<times> string) list \<times> bool"

datatype mirror_failure = Raised py_error | GitFailed | SourceDeclined "identity_skip_reason option"
  | CloneRejected clone_rejection

definition FETCH_REFSPECS :: "string list" where
  "FETCH_REFSPECS = [''+refs/heads/*:refs/heads/*'', ''+refs/notes/sediment*:refs/notes/sediment*'',
     ''+refs/pull/*/head:refs/pull/*/head'']"

definition refresh_target ::
  "git_answers \<Rightarrow> mirror_policy \<Rightarrow> push \<Rightarrow> repository_context option \<Rightarrow> string option \<Rightarrow> string option
   \<Rightarrow> mirror_failure + repository_key \<times> string \<times> string" where
  "refresh_target git policy push repository_context fetch_repo fetch_clone_url =
     (let repo = the_default (pu_repo push) fetch_repo;
          clone_url = the_default (pu_clone_url push) fetch_clone_url;
          target = (case repository_context of
              None \<Rightarrow>
                if rf_repository_id push \<noteq> None then Inl (SourceDeclined (Some repository_source_absent))
                else if repo \<noteq> pu_repo push then Inl (SourceDeclined (Some repository_mirror_identity_unresolved))
                else (case new_legacy_key (pu_org_id push) (pu_repo push) of
                    Inl e \<Rightarrow> Inl (Raised e) | Inr key \<Rightarrow> Inr key)
            | Some ctx \<Rightarrow>
                (let source = resolve_fact ctx (PushFact push) fact_spelling REPO
                 in if rs_key source = None then Inl (SourceDeclined (rs_reason source))
                    else
                    let target = mirror_refresh_resolution ctx PUSHES (pu_id push) repo
                    in case rs_key target of
                         None \<Rightarrow> Inl (SourceDeclined (rs_reason target)) | Some key \<Rightarrow> Inr key))
      in case target of
           Inl e \<Rightarrow> Inl e
         | Inr key \<Rightarrow>
             (case rejection_reason policy (ga_urlparse git) (ga_internal_host git) clone_url of
                Inl e \<Rightarrow> Inl (Raised e)
              | Inr (Some reason) \<Rightarrow> Inl (CloneRejected reason)
              | Inr None \<Rightarrow> Inr (key, repo, clone_url)))"

text \<open>\<open>git init --bare\<close> where there is no mirror yet.\<close>

definition init_mirror :: "git_answers \<Rightarrow> disk_path \<Rightarrow> disk \<Rightarrow> disk \<times> bool" where
  "init_mirror git path d =
     (if has_head d path then (d, True)
      else case ga_init git path of
        (left, ok) \<Rightarrow> ((case left of None \<Rightarrow> d | Some m \<Rightarrow> AList.update path m d), ok))"

text \<open>The four \<open>git config\<close> calls: the remote's URL, the first refspec in place of all others, the rest
  added. A failing call stops the refresh.\<close>

fun add_refspecs :: "git_answers \<Rightarrow> nat \<Rightarrow> string list \<Rightarrow> mirror_dir \<Rightarrow> mirror_dir \<times> bool" where
  "add_refspecs git i [] m = (m, True)"
| "add_refspecs git i (refspec # rest) m =
     (if ga_config git i then add_refspecs git (Suc i) rest (m\<lparr>md_fetch := md_fetch m @ [refspec]\<rparr>) else (m, False))"

definition configure_mirror :: "git_answers \<Rightarrow> string \<Rightarrow> mirror_dir \<Rightarrow> mirror_dir \<times> bool" where
  "configure_mirror git clone_url m =
     (if \<not> ga_config git 0 then (m, False)
      else
      let m = m\<lparr>md_origin := Some clone_url\<rparr>
      in if \<not> ga_config git 1 then (m, False)
         else add_refspecs git 2 (tl FETCH_REFSPECS) (m\<lparr>md_fetch := [hd FETCH_REFSPECS]\<rparr>))"

definition fetch_mirror :: "git_answers \<Rightarrow> mirror_dir \<Rightarrow> mirror_dir \<times> bool" where
  "fetch_mirror git m =
     (case ga_fetch git (the_default [] (md_origin m)) (md_fetch m) (md_refs m) of
        (refs, ok) \<Rightarrow> (m\<lparr>md_refs := refs\<rparr>, ok))"

text \<open>\<open>refresh_snapshot\<close> up to its \<open>yield\<close>, and \<open>ensure\<close>: the directories left, and the mirror or the
  error raised.\<close>

definition refresh_mirror ::
  "git_answers \<Rightarrow> disk_path \<Rightarrow> string \<Rightarrow> disk \<Rightarrow> disk \<times> (mirror_failure + disk_path)" where
  "refresh_mirror git path clone_url d =
     (case init_mirror git path d of
        (d, False) \<Rightarrow> (d, Inl GitFailed)
      | (d, True) \<Rightarrow>
         (case map_of d path of
            None \<Rightarrow> (d, Inl GitFailed)
          | Some m \<Rightarrow>
             (case configure_mirror git clone_url m of
                (m, False) \<Rightarrow> (AList.update path m d, Inl GitFailed)
              | (m, True) \<Rightarrow>
                  (case fetch_mirror git m of
                     (m, ok) \<Rightarrow> (AList.update path m d, if ok then Inr path else Inl GitFailed)))))"

definition ensure_mirror ::
  "git_answers \<Rightarrow> mirror_policy \<Rightarrow> push \<Rightarrow> repository_context option \<Rightarrow> string option \<Rightarrow> string option
   \<Rightarrow> mirror_base \<Rightarrow> mirror_base \<times> (mirror_failure + disk_path)" where
  "ensure_mirror git policy push repository_context fetch_repo fetch_clone_url base =
     (case refresh_target git policy push repository_context fetch_repo fetch_clone_url of
        Inl e \<Rightarrow> (base, Inl e)
      | Inr (key, repo, clone_url) \<Rightarrow>
         (case refresh_mirror git (repository_path key) clone_url (mb_dirs base) of
            (d, outcome) \<Rightarrow> (\<lparr>mb_present = True, mb_dirs = d\<rparr>, outcome)))"

section \<open>Removing and renaming\<close>

text \<open>\<open>shutil.rmtree\<close>: \<open>None\<close> when the tree is gone, otherwise what is left of the mirror when it raises.\<close>

type_synonym rmtree_answers = "disk_path \<Rightarrow> mirror_dir option"

definition remove_path :: "rmtree_answers \<Rightarrow> disk_path \<Rightarrow> mirror_base \<Rightarrow> mirror_base \<times> bool option" where
  "remove_path rmtree path base =
     (let d = mb_dirs base; base = with_base base
      in if \<not> path_exists d path then (base, Some False)
         else case rmtree path of
           None \<Rightarrow> (base\<lparr>mb_dirs := outside path d\<rparr>, Some True)
         | Some left \<Rightarrow> (base\<lparr>mb_dirs := outside path d @ [(path, left)]\<rparr>, None))"

definition remove_repository :: "rmtree_answers \<Rightarrow> repository_key \<Rightarrow> mirror_base \<Rightarrow> mirror_base \<times> bool option" where
  "remove_repository rmtree key base = remove_path rmtree (repository_path key) base"

definition move_path :: "disk_path \<Rightarrow> disk_path \<Rightarrow> disk_path \<Rightarrow> disk_path" where
  "move_path old new q = (if prefix old q then new @ drop (length old) q else q)"

definition rename_mirror :: "string \<Rightarrow> string \<Rightarrow> string \<Rightarrow> mirror_base \<Rightarrow> mirror_base \<times> bool" where
  "rename_mirror org_id old_repo new_repo base =
     (if old_repo = new_repo then (base, False)
      else
      let old = mirror_path org_id old_repo; new = mirror_path org_id new_repo; d = mb_dirs base; base = with_base base
      in if \<not> path_exists d old \<or> path_exists d new then (base, False)
         else (base\<lparr>mb_dirs := map (\<lambda>(q, m). (move_path old new q, m)) d\<rparr>, True))"

section \<open>Retention\<close>

datatype gc_action = KEPT | REMOVED

datatype gc_skip_reason = within_retention | quarantine_ambiguous | remove_failed

record mirror_gc_policy =
  gp_retention_days :: int
  gp_policy_version :: string

definition mirror_gc_policy_ok :: "mirror_gc_policy \<Rightarrow> bool" where
  "mirror_gc_policy_ok p = (1 \<le> gp_retention_days p)"

record push_gc_row =
  pg_repo :: string
  pg_captured_at :: instant
  pg_repository_provider :: "forge_provider option"
  pg_repository_host :: "string option"
  pg_repository_id :: "string option"

record mirror_gc_result =
  gr_org_id :: string
  gr_repo :: "string option"
  gr_action :: gc_action
  gr_last_push_captured_at :: "instant option"
  gr_skip_reason :: "gc_skip_reason option"
  gr_repository_identity :: "repository_identity option"

text \<open>The repository lifetime a stored Push counts for; a row with neither name nor identity counts for
  none.\<close>

definition gc_row_key :: "string \<Rightarrow> push_gc_row \<Rightarrow> repository_key option result" where
  "gc_row_key org_id push =
     bind_result (repository_identity_of (pg_repository_provider push) (pg_repository_host push) (pg_repository_id push))
       (\<lambda>identity.
       case identity of
         Some i \<Rightarrow> map_sum id Some (new_identified_key org_id i)
       | None \<Rightarrow> if pg_repo push = [] then Inr None else map_sum id Some (new_legacy_key org_id (pg_repo push)))"

definition last_push_step ::
  "string \<Rightarrow> push_gc_row \<Rightarrow> (repository_key \<times> instant) list \<Rightarrow> (repository_key \<times> instant) list result" where
  "last_push_step org_id push d =
     bind_result (gc_row_key org_id push) (\<lambda>key.
     case key of
       None \<Rightarrow> Inr d
     | Some key \<Rightarrow>
         bind_result (as_utc (pg_captured_at push)) (\<lambda>captured_at.
           Inr (case map_of d key of
               None \<Rightarrow> AList.update key captured_at d
             | Some current \<Rightarrow> if captured_at > current then AList.update key captured_at d else d)))"

text \<open>The loop asks the manager for one operation, \<open>remove_repository\<close>, whose failure is \<open>None\<close>; it is a
  parameter here, so that what the loop does follows from what that operation promises.\<close>

definition gc_verdict ::
  "bool \<Rightarrow> instant \<Rightarrow> (repository_key \<Rightarrow> 's \<Rightarrow> 's \<times> bool option) \<Rightarrow> instant option \<Rightarrow> repository_key \<Rightarrow> 's
   \<Rightarrow> 's \<times> gc_action \<times> gc_skip_reason option" where
  "gc_verdict dry_run cutoff remove last_push key base =
     (case last_push of
        None \<Rightarrow> (base, KEPT, Some quarantine_ambiguous)
      | Some t \<Rightarrow>
          if t \<ge> cutoff then (base, KEPT, Some within_retention)
          else if dry_run then (base, REMOVED, None)
          else case remove key base of
              (base, Some True) \<Rightarrow> (base, REMOVED, None)
            | (base, _) \<Rightarrow> (base, KEPT, Some remove_failed))"

definition gc_step ::
  "string \<Rightarrow> bool \<Rightarrow> instant \<Rightarrow> (repository_key \<Rightarrow> 's \<Rightarrow> 's \<times> bool option) \<Rightarrow> repository_context
   \<Rightarrow> (repository_key \<times> instant) list \<Rightarrow> repository_key \<Rightarrow> 's \<times> mirror_gc_result list \<Rightarrow> 's \<times> mirror_gc_result list" where
  "gc_step org_id dry_run cutoff remove ctx last_pushes key = (\<lambda>(base, results).
     let names = observed_repo_slugs ctx key;
         repo = (if names \<noteq> [] then Some (hd names)
                 else case key of LegacyRepositoryKey _ r \<Rightarrow> Some r | IdentifiedRepositoryKey _ _ \<Rightarrow> None);
         last_push = map_of last_pushes key
     in case gc_verdict dry_run cutoff remove last_push key base of
          (base, action, skip_reason) \<Rightarrow>
            (base, results @ [\<lparr>gr_org_id = org_id, gr_repo = repo, gr_action = action,
               gr_last_push_captured_at = last_push, gr_skip_reason = skip_reason,
               gr_repository_identity = (case key of IdentifiedRepositoryKey _ i \<Rightarrow> Some i | LegacyRepositoryKey _ _ \<Rightarrow> None)\<rparr>]))"

definition gc_mirrors ::
  "snapshot \<Rightarrow> push_gc_row list \<Rightarrow> rmtree_answers \<Rightarrow> string \<Rightarrow> mirror_gc_policy \<Rightarrow> instant option \<Rightarrow> bool
   \<Rightarrow> mirror_base \<Rightarrow> (mirror_base \<times> mirror_gc_result list) result" where
  "gc_mirrors snapshot rows rmtree org_id policy now dry_run base =
     (case now of
        None \<Rightarrow> Inl (ValueError ''mirror retention requires an aware boundary'')
      | Some now \<Rightarrow>
         bind_result (as_utc now) (\<lambda>utc.
         bind_result (as_utc (utc - gp_retention_days policy * 86400000000)) (\<lambda>cutoff.
         bind_result (sn_identities snapshot now) (\<lambda>evidence.
         bind_result (sn_renames snapshot now) (\<lambda>renames.
         bind_result (build_repository_context evidence renames org_id (Some now)) (\<lambda>ctx.
         bind_result (fold_result (last_push_step org_id) rows []) (\<lambda>last_pushes.
         bind_result (list_mirrored_repositories base org_id) (\<lambda>keys.
           Inr (fold (gc_step org_id dry_run cutoff (remove_repository rmtree) ctx last_pushes) keys (base, []))))))))))"

section \<open>Locks\<close>

text \<open>Lock files live in two directories; each operation takes its locks in one order and gives them
  back in the reverse one. \<open>ObservePush\<close> is a refresh within \<open>observation_capture\<close>.\<close>

type_synonym lock = "nat \<times> string"

definition observation_lock :: "disk_path \<Rightarrow> lock" where
  "observation_lock path = (0, path_name path)"

definition mirror_lock :: "disk_path \<Rightarrow> lock" where
  "mirror_lock path = (1, path_name path)"

datatype mirror_operation = ReadSnapshot "repository_key list" | Refresh repository_key
  | ObservePush repository_key | Remove repository_key | Rename string string string

fun lock_plan :: "mirror_operation \<Rightarrow> lock list" where
  "lock_plan (ReadSnapshot keys) = sorted_list_of_set (set (map (mirror_lock \<circ> repository_path) keys))"
| "lock_plan (Refresh key) = [mirror_lock (repository_path key)]"
| "lock_plan (ObservePush key) = [observation_lock (repository_path key), mirror_lock (repository_path key)]"
| "lock_plan (Remove key) = [mirror_lock (repository_path key)]"
| "lock_plan (Rename org_id old_repo new_repo) =
     (if old_repo = new_repo then []
      else sort [mirror_lock (mirror_path org_id old_repo), mirror_lock (mirror_path org_id new_repo)])"

record lock_holder =
  lh_held :: "lock list"
  lh_wanted :: "lock list"

definition lock_start :: "mirror_operation list \<Rightarrow> lock_holder list" where
  "lock_start operations = map (\<lambda>operation. \<lparr>lh_held = [], lh_wanted = lock_plan operation\<rparr>) operations"

text \<open>An operation takes its next lock when nobody holds it, and once it has all of them gives them back.\<close>

inductive lock_step :: "lock_holder list \<Rightarrow> lock_holder list \<Rightarrow> bool" where
  acquire: "i < length ps \<Longrightarrow> ps ! i = \<lparr>lh_held = hs, lh_wanted = l # ls\<rparr>
      \<Longrightarrow> l \<notin> (\<Union>p\<in>set ps. set (lh_held p))
      \<Longrightarrow> lock_step ps (ps[i := \<lparr>lh_held = hs @ [l], lh_wanted = ls\<rparr>])"
| release: "i < length ps \<Longrightarrow> ps ! i = \<lparr>lh_held = hs @ [l], lh_wanted = []\<rparr>
      \<Longrightarrow> lock_step ps (ps[i := \<lparr>lh_held = hs, lh_wanted = []\<rparr>])"

end
