(* ===== verification/Mirror_Laws.thy ===== *)
theory Mirror_Laws
  imports Mirror_Store Attribution_Laws
begin

text \<open>
  Laws of the mirror store. Quoting is undone by unquoting, so the paths of validated keys are
  apart: none lies within another, and none leaves the base. Over the invariant \<open>base_ok\<close> the
  directories are a set of keys, which the operations change as their names say and which a listing
  returns.
\<close>

section \<open>Quoting\<close>

lemma hex_digit_value: "n < 16 \<Longrightarrow> hex_value (hex_digit n) = Some n"
  by (simp add: hex_value_def hex_digit_def cp_def nth_Cons' split: if_splits)

lemma unquote_percent_byte: "b < 256 \<Longrightarrow> unquote_bytes (percent_byte b @ rest) = b # unquote_bytes rest"
  by (simp add: percent_byte_def hex_digit_value)

lemma unreserved_ascii: "unreserved c \<Longrightarrow> cp c < 128 \<and> c \<noteq> CHR ''%'' \<and> c \<noteq> CHR ''/''"
  by (auto simp: unreserved_def ascii_lower_alnum_def cp_def)

lemma cp_bounds: "cp c < 55296" "cp c < 2048" "192 + cp c div 64 < 256" "128 + cp c mod 64 < 256"
proof -
  note b = cp_less[of c]
  show "cp c < 55296" "cp c < 2048" by (rule less_le_trans[OF b], simp)+
  have "cp c div 64 \<le> 255 div 64" by (rule div_le_mono) (use b in linarith)
  then show "192 + cp c div 64 < 256" by simp
  have "cp c mod 64 < 64" by simp
  then show "128 + cp c mod 64 < 256" by linarith
qed

lemma cp_scalar: "scalar_value (cp c)"
  by (simp add: scalar_value_def cp_bounds)

lemma cp_bytes: "utf8_bytes (cp c) = (if cp c < 128 then [cp c] else [192 + cp c div 64, 128 + cp c mod 64])"
  by (simp add: utf8_bytes_def utf8_char_def cp_bounds)

lemma unquote_percent_char: "unquote_bytes (percent_char c @ rest) = utf8_bytes (cp c) @ unquote_bytes rest"
  using unreserved_ascii[of c] by (auto simp: percent_char_def cp_bytes unquote_percent_byte cp_bounds)

lemma unquote_quote_bytes: "unquote_bytes (quote_name s) = concat (map (utf8_bytes \<circ> cp) s)"
proof (induction s)
  case (Cons c s)
  then show ?case using unquote_percent_char[of c "quote_name s"] by (simp add: quote_name_def)
qed (simp add: quote_name_def)

lemma ascii_percent_byte: "b < 256 \<Longrightarrow> list_all is_ascii (percent_byte b)"
proof -
  have "is_ascii (hex_digit n)" if "n < 16" for n
    using that hex_digit_value[OF that] by (auto simp: is_ascii_def hex_value_def split: if_splits)
  then show "b < 256 \<Longrightarrow> ?thesis" by (simp add: percent_byte_def is_ascii_def[of "CHR ''%''"] cp_def)
qed

lemma ascii_quote: "list_all is_ascii (quote_name s)"
proof -
  have "list_all is_ascii (percent_char c)" for c
    using unreserved_ascii[of c] by (auto simp: percent_char_def is_ascii_def[of c] intro!: ascii_percent_byte cp_bounds)
  then show ?thesis by (induction s) (simp_all add: quote_name_def)
qed

lemma unquote_quote: "unquote_name (quote_name s) = Some (map cp s)"
proof (cases "quote_name s = []")
  case True
  then have "s = []" by (cases s) (auto simp: quote_name_def percent_char_def percent_byte_def split: if_splits)
  then show ?thesis by (simp add: quote_name_def unquote_name.simps[of "[]"])
next
  case False
  have all: "takeWhile is_ascii (quote_name s) = quote_name s" "dropWhile is_ascii (quote_name s) = []"
    using ascii_quote[of s] by (simp_all add: list_all_iff takeWhile_eq_all_conv dropWhile_eq_Nil_conv)
  have "is_ascii (hd (quote_name s))" using False ascii_quote[of s] by (cases "quote_name s") auto
  moreover have "utf8_decode (concat (map (utf8_bytes \<circ> cp) s)) = Some (map cp s)"
    using utf8_decode_encode[of "map cp s"] cp_scalar by (simp add: list_all_iff)
  ultimately show ?thesis
    by (subst unquote_name.simps) (simp add: False all unquote_quote_bytes unquote_name.simps[of "[]"])
qed

lemma decoded_quote [simp]: "decoded_name (quote_name s) = Some s"
  by (simp add: decoded_name_def unquote_quote list_all_iff cp_def comp_def)

lemma quote_inject [simp]: "quote_name s = quote_name t \<longleftrightarrow> s = t"
  by (metis decoded_quote option.inject)

lemma quote_unreserved: "list_all unreserved s \<Longrightarrow> quote_name s = s"
  by (induction s) (simp_all add: quote_name_def percent_char_def)

lemma quote_append: "quote_name (s @ t) = quote_name s @ quote_name t"
  by (simp add: quote_name_def)

lemma set_percent_byte: "b < 256 \<Longrightarrow> set (percent_byte b) \<subseteq> insert (CHR ''%'') (set ''0123456789ABCDEF'')"
  unfolding percent_byte_def hex_digit_def using nth_mem[of _ "''0123456789ABCDEF''"] by simp

text \<open>A quoted name has no separator, and the quoted separator marks a legacy directory.\<close>

lemma quote_no_slash: "CHR ''/'' \<notin> set (quote_name s)"
proof -
  have "CHR ''/'' \<notin> set (percent_char c)" for c
    using set_percent_byte[OF cp_less[of c]] set_percent_byte[OF cp_bounds(3)[of c]]
      set_percent_byte[OF cp_bounds(4)[of c]] unreserved_ascii[of c]
    by (auto simp: percent_char_def)
  then show ?thesis by (auto simp: quote_name_def)
qed

lemma quote_slash: "CHR ''%'' \<in> set (quote_name (org_id @ ''/'' @ repo))"
  by (simp add: quote_name_def percent_char_def unreserved_def ascii_lower_alnum_def cp_def percent_byte_def)

section \<open>Paths\<close>

text \<open>The keys the constructors build.\<close>

definition key_ok :: "repository_key \<Rightarrow> bool" where
  "key_ok key = (case key of
     LegacyRepositoryKey org_id repo \<Rightarrow> new_legacy_key org_id repo = Inr key
   | IdentifiedRepositoryKey org_id i \<Rightarrow>
       bind_result (new_repository_identity (ri_provider i) (ri_host i) (ri_repository_id i)) (new_identified_key org_id)
         = Inr key)"

lemma org_normal:
  assumes "normalize_org_id org_id = Inr org'"
  shows "list_all unreserved org'" "org' \<noteq> []" "ascii_lower_alnum (hd org')"
proof -
  have m: "org_id_match org'" using assms by (auto simp: normalize_org_id_def Let_def split: if_splits)
  then show "org' \<noteq> []" "ascii_lower_alnum (hd org')" by (auto simp: org_id_match_def)
  from m have "unreserved (hd org')" "list_all unreserved (tl org')" "org' \<noteq> []"
    by (auto simp: org_id_match_def unreserved_def org_id_char_def list_all_iff)
  then show "list_all unreserved org'" by (cases org') auto
qed

lemma org_ok:
  assumes "OrgId org_id = Inr org'"
  shows "list_all unreserved org'" "org' \<noteq> []" "ascii_lower_alnum (hd org')" "normalize_org_id org' = Inr org'"
proof -
  have n: "normalize_org_id org_id = Inr org'" using assms by (auto simp: v_then_def scalar_identity_def split: if_splits)
  then show "list_all unreserved org'" "org' \<noteq> []" "ascii_lower_alnum (hd org')" by (rule org_normal)+
  show "normalize_org_id org' = Inr org'" using normalize_org_id_fixed[OF n] .
qed

lemma list_all_split_on: "list_all P (split_on d s) \<Longrightarrow> (\<And>l. P l \<Longrightarrow> list_all Q l) \<Longrightarrow> Q d \<Longrightarrow> list_all Q s"
proof (induction s arbitrary: P)
  case (Cons c s)
  have ne: "split_on d t \<noteq> []" for t by (cases t) auto
  show ?case
  proof (cases "c = d")
    case True
    then show ?thesis using Cons by auto
  next
    case False
    with Cons.prems have "P (c # hd (split_on d s))" "list_all P (tl (split_on d s))" by auto
    with Cons.prems(2) have q: "Q c" "list_all Q (hd (split_on d s))" by force+
    have "list_all (list_all Q) (tl (split_on d s))"
      using \<open>list_all P (tl _)\<close> Cons.prems(2) by (auto simp: list_all_iff)
    with q(2) ne[of s] have "list_all (list_all Q) (split_on d s)" by (cases "split_on d s") auto
    from Cons.IH[OF this _ Cons.prems(3)] q(1) show ?thesis by simp
  qed
qed simp

lemma host_ok:
  assumes "ForgeHost host = Inr host'"
  shows "list_all unreserved host'" "host' \<noteq> []" "ascii_lower_alnum (hd host')"
proof -
  have h: "list_all dns_label (split_on CHR ''.'' host')"
    using assms by (auto simp: v_then_def scalar_identity_def forge_host_def Let_def split: if_splits)
  show "list_all unreserved host'"
    by (rule list_all_split_on[OF h]) (auto simp: dns_label_def list_all_iff unreserved_def)
  show "host' \<noteq> []" using h by (cases host') (auto simp: dns_label_def)
  show "ascii_lower_alnum (hd host')" using h by (cases host') (auto simp: dns_label_def split: if_splits)
qed

lemma id_ok:
  assumes "ProviderRepositoryId i = Inr i'"
  shows "list_all unreserved i'" "i' \<noteq> []" "ascii_lower_alnum (hd i')"
  using assms by (auto simp: v_then_def scalar_identity_def provider_repository_id_def list_all_iff ascii_digit_def
      unreserved_def ascii_lower_alnum_def split: if_splits)

lemma github_unreserved: "list_all unreserved (forge_provider_value p)"
  by (cases p) (simp add: unreserved_def ascii_lower_alnum_def cp_def)

text \<open>On a validated identified key quoting changes nothing.\<close>

lemma identified_parts:
  assumes "key_ok (IdentifiedRepositoryKey org_id i)"
  shows "\<forall>c\<in>{org_id, forge_provider_value (ri_provider i), ri_host i, ri_repository_id i}.
      list_all unreserved c \<and> c \<noteq> [] \<and> ascii_lower_alnum (hd c)"
proof -
  have new: "new_repository_identity (ri_provider i) (ri_host i) (ri_repository_id i) = Inr i" "OrgId org_id = Inr org_id"
    using assms by (auto simp: key_ok_def new_identified_key_def)
  then have "ForgeHost (ri_host i) = Inr (ri_host i)" "ProviderRepositoryId (ri_repository_id i) = Inr (ri_repository_id i)"
    by (auto simp: new_repository_identity_def dest: arg_cong[of _ i ri_host] arg_cong[of _ i ri_repository_id])
  note f = new(2) this
  show ?thesis using org_ok[OF f(1)] host_ok[OF f(2)] id_ok[OF f(3)] github_unreserved[of "ri_provider i"]
    by (cases "ri_provider i") (auto simp: ascii_lower_alnum_def cp_def)
qed

lemma legacy_parts:
  assumes "key_ok (LegacyRepositoryKey org_id repo)"
  shows "CHR ''/'' \<notin> set org_id" "org_id \<noteq> []" "normalize_org_id org_id = Inr org_id"
proof -
  have f: "OrgId org_id = Inr org_id" using assms by (auto simp: key_ok_def new_legacy_key_def)
  show "CHR ''/'' \<notin> set org_id" "org_id \<noteq> []" "normalize_org_id org_id = Inr org_id"
    using org_ok[OF f] unreserved_ascii by (auto simp: list_all_iff)
qed

lemma slash_split: "CHR ''/'' \<notin> set a \<Longrightarrow> CHR ''/'' \<notin> set b \<Longrightarrow> a @ ''/'' @ x = b @ ''/'' @ y \<Longrightarrow> a = b \<and> x = y"
proof -
  assume ab: "CHR ''/'' \<notin> set a" "CHR ''/'' \<notin> set b" and eq: "a @ ''/'' @ x = b @ ''/'' @ y"
  have t: "takeWhile (\<lambda>c. c \<noteq> CHR ''/'') (s @ ''/'' @ z) = s" if "CHR ''/'' \<notin> set s" for s z
    using that by (induction s) auto
  have "a = b" using arg_cong[OF eq, of "takeWhile (\<lambda>c. c \<noteq> CHR ''/'')"] t[OF ab(1)] t[OF ab(2)] by simp
  with eq show ?thesis by simp
qed

lemma namespace_plain: "CHR ''%'' \<notin> set IDENTIFIED_MIRROR_NAMESPACE"
  by (simp add: IDENTIFIED_MIRROR_NAMESPACE_def)

text \<open>No mirror lies at or below another one.\<close>

lemma paths_apart:
  assumes "key_ok k" "key_ok k'" "prefix (repository_path k) (repository_path k')"
  shows "k = k'"
proof (cases k; cases k')
  fix o1 r1 o2 r2 assume k: "k = LegacyRepositoryKey o1 r1" "k' = LegacyRepositoryKey o2 r2"
  then have "o1 @ ''/'' @ r1 = o2 @ ''/'' @ r2" using assms(3) by (simp add: mirror_path_def)
  then show ?thesis using slash_split[of o1 o2 r1 r2] legacy_parts(1) assms k by auto
next
  fix o1 i1 o2 i2 assume "k = IdentifiedRepositoryKey o1 i1" "k' = IdentifiedRepositoryKey o2 i2"
  then show ?thesis using assms(3) by (auto intro!: repository_identity.equality forge_provider_eq)
next
  fix o1 r1 o2 i2 assume "k = LegacyRepositoryKey o1 r1" "k' = IdentifiedRepositoryKey o2 i2"
  then show ?thesis using assms(3) quote_slash[of o1 r1] namespace_plain by (auto simp: mirror_path_def)
next
  fix o1 i1 o2 r2 assume "k = IdentifiedRepositoryKey o1 i1" "k' = LegacyRepositoryKey o2 r2"
  then show ?thesis using assms(3) by (simp add: mirror_path_def)
qed

section \<open>The invariant of the base directory\<close>

lemma path_components:
  assumes "key_ok k" "c \<in> set (repository_path k)"
  shows "c \<noteq> []" "CHR ''/'' \<notin> set c" "c \<notin> {''.'', ''..'', ''.locks'', ''.observation-locks''}"
proof -
  have dot: "\<not> ascii_lower_alnum (CHR ''.'')" by (simp add: ascii_lower_alnum_def cp_def)
  have "c \<noteq> [] \<and> CHR ''/'' \<notin> set c \<and> c \<notin> {''.'', ''..'', ''.locks'', ''.observation-locks''}"
  proof (cases k)
    case (LegacyRepositoryKey org_id repo)
    then show ?thesis using assms(2) quote_slash[of org_id repo] quote_no_slash by (auto simp: mirror_path_def)
  next
    case (IdentifiedRepositoryKey org_id i)
    consider "c = IDENTIFIED_MIRROR_NAMESPACE"
      | d where "d \<in> {org_id, forge_provider_value (ri_provider i), ri_host i, ri_repository_id i}" "c = quote_name d"
      using assms(2) IdentifiedRepositoryKey by auto
    then show ?thesis
    proof cases
      case (2 d)
      note d = identified_parts[OF assms(1)[unfolded IdentifiedRepositoryKey], THEN bspec, OF 2(1)]
      then have "c = d" using 2(2) by (simp add: quote_unreserved)
      then show ?thesis using d dot quote_no_slash[of d] 2(2) by auto
    qed (simp add: IDENTIFIED_MIRROR_NAMESPACE_def)
  qed
  then show "c \<noteq> []" "CHR ''/'' \<notin> set c" "c \<notin> {''.'', ''..'', ''.locks'', ''.observation-locks''}" by blast+
qed

definition base_ok :: "mirror_base \<Rightarrow> bool" where
  "base_ok base \<longleftrightarrow> distinct (map fst (mb_dirs base))
     \<and> fst ` set (mb_dirs base) \<subseteq> repository_path ` {k. key_ok k} \<and> (\<not> mb_present base \<longrightarrow> mb_dirs base = [])"

text \<open>The directory of a key, and the keys with a complete mirror.\<close>

definition mirror_of :: "mirror_base \<Rightarrow> repository_key \<Rightarrow> mirror_dir option" where
  "mirror_of base key = map_of (mb_dirs base) (repository_path key)"

definition mirrored :: "mirror_base \<Rightarrow> repository_key set" where
  "mirrored base = {k. key_ok k \<and> (case mirror_of base k of Some m \<Rightarrow> md_head m | None \<Rightarrow> False)}"

lemma has_head_mirrored: "key_ok k \<Longrightarrow> has_head (mb_dirs base) (repository_path k) \<longleftrightarrow> k \<in> mirrored base"
  by (simp add: has_head_def mirrored_def mirror_of_def)

lemma path_inject: "key_ok k \<Longrightarrow> key_ok k' \<Longrightarrow> repository_path k = repository_path k' \<longleftrightarrow> k = k'"
  using paths_apart by auto

lemma exists_mirror_of:
  assumes "base_ok base" "key_ok k"
  shows "path_exists (mb_dirs base) (repository_path k) \<longleftrightarrow> mirror_of base k \<noteq> None"
proof -
  have "prefix (repository_path k) q \<longleftrightarrow> q = repository_path k" if "q \<in> fst ` set (mb_dirs base)" for q
  proof -
    have "q \<in> repository_path ` {k. key_ok k}"
      by (rule subsetD[OF _ that]) (use assms(1) in \<open>simp add: base_ok_def\<close>)
    then obtain k' where k': "key_ok k'" "q = repository_path k'" by (auto elim!: imageE)
    have "repository_path k' = repository_path k" if "prefix (repository_path k) (repository_path k')"
      using paths_apart[OF assms(2) k'(1) that] by (rule arg_cong[OF sym])
    then show ?thesis unfolding k'(2) by (intro iffI) simp_all
  qed
  then have "(\<exists>q\<in>fst ` set (mb_dirs base). prefix (repository_path k) q) \<longleftrightarrow> repository_path k \<in> fst ` set (mb_dirs base)"
    by metis
  then have "path_exists (mb_dirs base) (repository_path k) \<longleftrightarrow> repository_path k \<in> fst ` set (mb_dirs base)"
    by (simp add: path_exists_def list_ex_iff case_prod_unfold)
  then show ?thesis by (simp add: mirror_of_def map_of_eq_None_iff)
qed

lemma map_of_outside: "map_of (outside p d) q = (if prefix p q then None else map_of d q)"
  by (induction d) (auto simp: outside_def)

lemma distinct_outside: "distinct (map fst d) \<Longrightarrow> distinct (map fst (outside p d))"
  by (induction d) (auto simp: outside_def image_iff)

lemma set_outside: "fst ` set (outside p d) \<subseteq> fst ` set d - {p}"
  by (auto simp: outside_def)

section \<open>Removing\<close>

lemma remove_repository_laws:
  assumes "base_ok base" "key_ok k" "remove_repository rmtree k base = (base', outcome)"
  shows "base_ok base'" "\<And>k'. key_ok k' \<Longrightarrow> k' \<noteq> k \<Longrightarrow> mirror_of base' k' = mirror_of base k'"
    "outcome = Some True \<Longrightarrow> mirror_of base k \<noteq> None \<and> mirror_of base' k = None"
    "outcome = Some False \<Longrightarrow> mirror_of base k = None \<and> mirror_of base' k = None"
    "outcome = None \<longleftrightarrow> mirror_of base k \<noteq> None \<and> rmtree (repository_path k) \<noteq> None"
proof -
  let ?p = "repository_path k"
  note ex = exists_mirror_of[OF assms(1,2)]
  have apart: "\<not> prefix ?p (repository_path k')" if "key_ok k'" "k' \<noteq> k" for k'
    using paths_apart[OF assms(2) that(1)] that(2) by blast
  then have ne: "repository_path k' \<noteq> ?p" if "key_ok k'" "k' \<noteq> k" for k'
    using that by (metis prefix_order.refl)
  consider (absent) "mirror_of base k = None" "base' = with_base base" "outcome = Some False"
    | (gone) "mirror_of base k \<noteq> None" "base' = (with_base base)\<lparr>mb_dirs := outside ?p (mb_dirs base)\<rparr>" "outcome = Some True"
        "rmtree ?p = None"
    | (left) m where "mirror_of base k \<noteq> None" "base' = (with_base base)\<lparr>mb_dirs := outside ?p (mb_dirs base) @ [(?p, m)]\<rparr>"
        "outcome = None" "rmtree ?p = Some m"
    using assms(3) ex by (auto simp: remove_repository_def remove_path_def Let_def split: if_splits option.splits)
  then have "base_ok base' \<and> (\<forall>k'. key_ok k' \<longrightarrow> k' \<noteq> k \<longrightarrow> mirror_of base' k' = mirror_of base k')
     \<and> (outcome = Some True \<longrightarrow> mirror_of base k \<noteq> None \<and> mirror_of base' k = None)
     \<and> (outcome = Some False \<longrightarrow> mirror_of base k = None \<and> mirror_of base' k = None)
     \<and> (outcome = None \<longleftrightarrow> mirror_of base k \<noteq> None \<and> rmtree ?p \<noteq> None)"
  proof cases
    case absent
    then show ?thesis using assms(1) by (simp add: base_ok_def with_base_def mirror_of_def)
  next
    case gone
    have "base_ok base'"
      using assms(1,2) gone(2) set_outside[of ?p "mb_dirs base"] distinct_outside[of "mb_dirs base" ?p]
      by (force simp: base_ok_def with_base_def)
    then show ?thesis using gone apart by (auto simp: with_base_def mirror_of_def map_of_outside)
  next
    case (left m)
    have "base_ok base'"
      using assms(1,2) left(2) set_outside[of ?p "mb_dirs base"] distinct_outside[of "mb_dirs base" ?p]
      by (force simp: base_ok_def with_base_def)
    then show ?thesis using left apart ne
      by (auto simp: with_base_def mirror_of_def map_of_outside map_add_def split: option.splits)
  qed
  then show "base_ok base'" "\<And>k'. key_ok k' \<Longrightarrow> k' \<noteq> k \<Longrightarrow> mirror_of base' k' = mirror_of base k'"
    "outcome = Some True \<Longrightarrow> mirror_of base k \<noteq> None \<and> mirror_of base' k = None"
    "outcome = Some False \<Longrightarrow> mirror_of base k = None \<and> mirror_of base' k = None"
    "outcome = None \<longleftrightarrow> mirror_of base k \<noteq> None \<and> rmtree ?p \<noteq> None"
    by blast+
qed


text \<open>Removal in terms of complete mirrors.\<close>

lemma mirrored_remove:
  assumes "base_ok base" "key_ok k" "remove_repository rmtree k base = (base', outcome)"
  shows "mirrored base' - {k} = mirrored base - {k}" "outcome = Some True \<Longrightarrow> k \<notin> mirrored base'"
    "k \<in> mirrored base \<Longrightarrow> rmtree (repository_path k) = None \<Longrightarrow> outcome = Some True"
proof -
  note laws = remove_repository_laws[OF assms]
  show "mirrored base' - {k} = mirrored base - {k}"
    using laws(2) by (auto simp: mirrored_def)
  show "outcome = Some True \<Longrightarrow> k \<notin> mirrored base'"
    using laws(3) by (simp add: mirrored_def)
  show "k \<in> mirrored base \<Longrightarrow> rmtree (repository_path k) = None \<Longrightarrow> outcome = Some True"
    using laws(4,5) by (cases outcome) (auto simp: mirrored_def split: option.splits)
qed

section \<open>Listing\<close>

lemma has_head_in: "has_head d p \<Longrightarrow> \<exists>m. (p, m) \<in> set d"
  by (auto simp: has_head_def split: option.splits dest: map_of_SomeD)

lemma map_filter_set: "set (List.map_filter f xs) = {y. \<exists>x\<in>set xs. f x = Some y}"
  by (induction xs) (auto simp: List.map_filter_simps split: option.splits)

lemma base_path: "base_ok base \<Longrightarrow> (p, m) \<in> set (mb_dirs base) \<Longrightarrow> \<exists>k. key_ok k \<and> p = repository_path k"
  unfolding base_ok_def by (metis (mono_tags, lifting) fst_conv image_eqI image_iff mem_Collect_eq subsetD)

lemma startswith_slash:
  assumes "CHR ''/'' \<notin> set a" "CHR ''/'' \<notin> set b"
  shows "py_startswith (a @ ''/'' @ x) (b @ ''/'') \<longleftrightarrow> a = b"
proof
  assume "py_startswith (a @ ''/'' @ x) (b @ ''/'')"
  then have "a @ ''/'' @ x = b @ ''/'' @ drop (length b + 1) (a @ ''/'' @ x)"
    unfolding py_startswith_def by (metis append_assoc append_take_drop_id length_append length_Cons list.size(3) One_nat_def)
  from slash_split[OF assms this] show "a = b" by simp
qed (simp add: py_startswith_def)

text \<open>What one directory contributes to the listing of an organization.\<close>

definition legacy_keys :: "mirror_base \<Rightarrow> string \<Rightarrow> repository_key list" where
  "legacy_keys base org_id = concat (map (\<lambda>repo. case new_legacy_key org_id repo of Inl _ \<Rightarrow> [] | Inr key \<Rightarrow> [key])
     (list_mirrored_repos base org_id))"

definition identified_keys :: "mirror_base \<Rightarrow> string \<Rightarrow> repository_key list" where
  "identified_keys base org_id =
     List.map_filter (\<lambda>(p, m). if has_head (mb_dirs base) p then identified_entry org_id p else None) (mb_dirs base)"

lemma list_repositories_eq:
  "normalize_org_id org = Inr org_id \<Longrightarrow>
     list_mirrored_repositories base org = Inr (sorted_list_of_set (set (legacy_keys base org_id @ identified_keys base org_id)))"
  by (simp add: list_mirrored_repositories_def legacy_keys_def identified_keys_def Let_def)

lemma set_listed_repos:
  assumes "base_ok base" "CHR ''/'' \<notin> set org_id"
  shows "set (list_mirrored_repos base org_id) = {repo. LegacyRepositoryKey org_id repo \<in> mirrored base}"
proof (intro set_eqI iffI)
  fix repo
  assume "repo \<in> set (list_mirrored_repos base org_id)"
  then obtain entry m decoded where e: "([entry], m) \<in> set (mb_dirs base)" "has_head (mb_dirs base) [entry]"
      "decoded_name entry = Some decoded" "py_startswith decoded (org_id @ ''/'')" "repo = drop (length org_id + 1) decoded"
    unfolding list_mirrored_repos_def
    by (auto split: list.splits if_splits option.splits) (metis (no_types) eq_commute)
  obtain k where k: "key_ok k" "[entry] = repository_path k" using base_path[OF assms(1) e(1)] by blast
  then obtain o1 r1 where leg: "k = LegacyRepositoryKey o1 r1" "entry = quote_name (o1 @ ''/'' @ r1)"
    by (cases k) (auto simp: mirror_path_def)
  have "o1 = org_id"
    using e(3,4) startswith_slash[OF legacy_parts(1)[OF k(1)[unfolded leg(1)]] assms(2), of r1] by (auto simp: leg(2))
  moreover have "repo = r1" using e(3,5) \<open>o1 = org_id\<close> by (auto simp: leg(2))
  ultimately show "repo \<in> {repo. LegacyRepositoryKey org_id repo \<in> mirrored base}"
    using e(2) k leg(1) has_head_mirrored[OF k(1), of base] by simp
next
  fix repo
  assume "repo \<in> {repo. LegacyRepositoryKey org_id repo \<in> mirrored base}"
  then have k: "key_ok (LegacyRepositoryKey org_id repo)" "LegacyRepositoryKey org_id repo \<in> mirrored base"
    by (auto simp: mirrored_def)
  let ?e = "quote_name (org_id @ ''/'' @ repo)"
  have h: "has_head (mb_dirs base) [?e]"
    using has_head_mirrored[OF k(1), of base] k(2) by (simp add: mirror_path_def)
  obtain m where m: "([?e], m) \<in> set (mb_dirs base)" using has_head_in[OF h] by blast
  have "mb_present base" using assms(1) m by (auto simp: base_ok_def)
  moreover have "?e \<noteq> ''.locks''" using quote_slash[of org_id repo] by auto
  ultimately show "repo \<in> set (list_mirrored_repos base org_id)"
    using m h startswith_slash[OF assms(2,2), of repo]
    by (force simp: list_mirrored_repos_def)
qed

lemma set_legacy_keys:
  assumes "base_ok base" "CHR ''/'' \<notin> set org_id"
  shows "set (legacy_keys base org_id) = {k \<in> mirrored base. key_org_id k = org_id \<and> \<not> is_identified (Some k)}"
proof -
  have new: "new_legacy_key org_id repo = Inr (LegacyRepositoryKey org_id repo)" if "LegacyRepositoryKey org_id repo \<in> mirrored base" for repo
    using that by (simp add: mirrored_def key_ok_def)
  have "set (legacy_keys base org_id) = LegacyRepositoryKey org_id ` {repo. LegacyRepositoryKey org_id repo \<in> mirrored base}"
    unfolding legacy_keys_def set_concat set_map set_listed_repos[OF assms] image_image using new by auto
  also have "\<dots> = {k \<in> mirrored base. key_org_id k = org_id \<and> \<not> is_identified (Some k)}"
  proof -
    have "k = LegacyRepositoryKey org_id (key_repo k)" if "key_org_id k = org_id" "\<not> is_identified (Some k)" for k
      using that by (cases k) (auto simp: is_identified_def)
    then show ?thesis by (auto simp: image_iff is_identified_def) (metis)
  qed
  finally show ?thesis .
qed

lemma identified_entry_path:
  assumes "key_ok k"
  shows "identified_entry org_id (repository_path k) = (if key_org_id k = org_id \<and> is_identified (Some k) then Some k else None)"
proof (cases k)
  case (LegacyRepositoryKey o1 r1)
  then show ?thesis by (simp add: identified_entry_def mirror_path_def is_identified_def)
next
  case (IdentifiedRepositoryKey o1 i)
  have new: "new_repository_identity GITHUB (ri_host i) (ri_repository_id i) = Inr i" "new_identified_key o1 i = Inr k"
    using assms IdentifiedRepositoryKey forge_provider_eq[of GITHUB "ri_provider i"]
    by (auto simp: key_ok_def new_identified_key_def)
  show ?thesis
  proof (cases "o1 = org_id")
    case True
    then have "new_identified_key org_id i = Inr k" using new(2) by simp
    then show ?thesis
      using new(1) forge_provider_eq[of GITHUB "ri_provider i"] True
      by (simp add: identified_entry_def IdentifiedRepositoryKey is_identified_def)
  qed (simp add: identified_entry_def IdentifiedRepositoryKey is_identified_def)
qed

lemma set_identified_keys:
  assumes "base_ok base"
  shows "set (identified_keys base org_id) = {k \<in> mirrored base. key_org_id k = org_id \<and> is_identified (Some k)}"
proof (intro set_eqI iffI)
  fix k
  assume "k \<in> set (identified_keys base org_id)"
  then obtain p m where p: "(p, m) \<in> set (mb_dirs base)" "has_head (mb_dirs base) p" "identified_entry org_id p = Some k"
    by (auto simp: identified_keys_def map_filter_set split: if_splits)
  obtain k' where "key_ok k'" "p = repository_path k'" using base_path[OF assms p(1)] by blast
  then show "k \<in> {k \<in> mirrored base. key_org_id k = org_id \<and> is_identified (Some k)}"
    using p(2,3) has_head_mirrored by (auto simp: identified_entry_path split: if_splits)
next
  fix k
  assume k: "k \<in> {k \<in> mirrored base. key_org_id k = org_id \<and> is_identified (Some k)}"
  then have ok: "key_ok k" by (simp add: mirrored_def)
  have h: "has_head (mb_dirs base) (repository_path k)" using has_head_mirrored[OF ok] k by simp
  then obtain m where "(repository_path k, m) \<in> set (mb_dirs base)" using has_head_in by blast
  then show "k \<in> set (identified_keys base org_id)"
    using h k by (force simp: identified_keys_def map_filter_set identified_entry_path[OF ok])
qed

lemma list_mirrored:
  assumes "base_ok base" "normalize_org_id org = Inr org_id"
  shows "list_mirrored_repositories base org = Inr (sorted_list_of_set {k \<in> mirrored base. key_org_id k = org_id})"
proof -
  have "CHR ''/'' \<notin> set org_id" using org_normal(1)[OF assms(2)] unreserved_ascii by (auto simp: list_all_iff)
  then have "set (legacy_keys base org_id @ identified_keys base org_id) = {k \<in> mirrored base. key_org_id k = org_id}"
    using set_legacy_keys[OF assms(1)] set_identified_keys[OF assms(1)] by auto
  then show ?thesis using list_repositories_eq[OF assms(2), of base] by simp
qed

section \<open>Refreshing\<close>

definition git_ok :: "git_answers \<Rightarrow> bool" where
  "git_ok git \<longleftrightarrow> (\<forall>p. snd (ga_init git p) \<longrightarrow> (\<exists>m. fst (ga_init git p) = Some m \<and> md_head m))"

lemma add_refspecs_laws:
  "add_refspecs git i refspecs m = (m', ok) \<Longrightarrow>
     md_head m' = md_head m \<and> md_origin m' = md_origin m \<and> (ok \<longrightarrow> md_fetch m' = md_fetch m @ refspecs)"
  by (induction refspecs arbitrary: i m) (auto split: if_splits dest: sym)

lemma configure_mirror_laws:
  assumes "configure_mirror git url m = (m', ok)"
  shows "md_head m' = md_head m" "ok \<Longrightarrow> md_origin m' = Some url \<and> md_fetch m' = FETCH_REFSPECS"
  using assms by (auto simp: configure_mirror_def Let_def FETCH_REFSPECS_def split: if_splits dest: add_refspecs_laws)

lemma keys_update: "fst ` set (AList.update p m d) = insert p (fst ` set d)"
  using dom_update[of p m d] by (simp add: dom_map_of_conv_image_fst)

lemma init_mirror_laws:
  assumes "init_mirror git p d = (d', ok)"
  shows "q \<noteq> p \<Longrightarrow> map_of d' q = map_of d q" "fst ` set d' \<subseteq> insert p (fst ` set d)"
    "distinct (map fst d) \<Longrightarrow> distinct (map fst d')" "has_head d p \<Longrightarrow> has_head d' p \<and> ok"
    "git_ok git \<Longrightarrow> ok \<Longrightarrow> has_head d' p"
proof -
  have "has_head d p \<and> d' = d \<and> ok \<or> \<not> has_head d p \<and> (d' = d \<and> fst (ga_init git p) = None
      \<or> (\<exists>m. fst (ga_init git p) = Some m \<and> d' = AList.update p m d)) \<and> ok = snd (ga_init git p)"
    using assms by (auto simp: init_mirror_def split: if_splits option.splits prod.splits)
  note cases = this
  from cases show "fst ` set d' \<subseteq> insert p (fst ` set d)"
    by (elim disjE conjE exE) (simp_all add: keys_update subset_insertI)
  from cases show "q \<noteq> p \<Longrightarrow> map_of d' q = map_of d q"
    "distinct (map fst d) \<Longrightarrow> distinct (map fst d')" "has_head d p \<Longrightarrow> has_head d' p \<and> ok"
    "git_ok git \<Longrightarrow> ok \<Longrightarrow> has_head d' p"
    by (auto simp: update_conv' keys_update distinct_update git_ok_def has_head_def)
qed

lemma refresh_mirror_laws:
  assumes "refresh_mirror git p url d = (d', outcome)"
  shows "q \<noteq> p \<Longrightarrow> map_of d' q = map_of d q" "fst ` set d' \<subseteq> insert p (fst ` set d)"
    "distinct (map fst d) \<Longrightarrow> distinct (map fst d')" "has_head d p \<Longrightarrow> has_head d' p"
    "git_ok git \<Longrightarrow> outcome = Inl GitFailed \<or> outcome = Inr p \<and>
       (\<exists>m. map_of d' p = Some m \<and> md_head m \<and> md_origin m = Some url \<and> md_fetch m = FETCH_REFSPECS)"
proof -
  obtain d1 ok where i: "init_mirror git p d = (d1, ok)" by (cases "init_mirror git p d")
  note init = init_mirror_laws[OF i]
  consider (stop) "d' = d1" "outcome = Inl GitFailed"
    | (conf) m m' where "map_of d1 p = Some m" "configure_mirror git url m = (m', False)" "d' = AList.update p m' d1"
        "outcome = Inl GitFailed"
    | (fetch) m m' refs ok' where "ok" "map_of d1 p = Some m" "configure_mirror git url m = (m', True)"
        "d' = AList.update p (m'\<lparr>md_refs := refs\<rparr>) d1" "outcome = (if ok' then Inr p else Inl GitFailed)"
  proof (cases "ok \<and> map_of d1 p \<noteq> None")
    case False
    then have "d' = d1" "outcome = Inl GitFailed"
      using assms i by (auto simp: refresh_mirror_def split: bool.splits option.splits)
    then show ?thesis by (rule stop)
  next
    case True
    then obtain m where m: "ok" "map_of d1 p = Some m" by auto
    obtain m' ok' where c: "configure_mirror git url m = (m', ok')" by (cases "configure_mirror git url m")
    show ?thesis
    proof (cases ok')
      case False
      then show ?thesis using assms i m c by (intro conf[of m m']) (simp_all add: refresh_mirror_def)
    next
      case True
      obtain refs ok2 where f: "ga_fetch git (the_default [] (md_origin m')) (md_fetch m') (md_refs m') = (refs, ok2)"
        by (cases "ga_fetch git (the_default [] (md_origin m')) (md_fetch m') (md_refs m')")
      show ?thesis using assms i m c True f by (intro fetch[of m m' refs ok2]) (simp_all add: refresh_mirror_def fetch_mirror_def)
    qed
  qed
  then have "(\<forall>q. q \<noteq> p \<longrightarrow> map_of d' q = map_of d q) \<and> fst ` set d' \<subseteq> insert p (fst ` set d)
     \<and> (distinct (map fst d) \<longrightarrow> distinct (map fst d')) \<and> (has_head d p \<longrightarrow> has_head d' p)
     \<and> (git_ok git \<longrightarrow> outcome = Inl GitFailed \<or> outcome = Inr p \<and>
       (\<exists>m. map_of d' p = Some m \<and> md_head m \<and> md_origin m = Some url \<and> md_fetch m = FETCH_REFSPECS))"
  proof cases
    case stop
    then show ?thesis using init by auto
  next
    case (conf m m')
    then show ?thesis using init(1-4) configure_mirror_laws(1)[OF conf(2)]
      by (auto simp: update_conv' keys_update distinct_update has_head_def)
  next
    case (fetch m m' refs ok')
    then show ?thesis using init configure_mirror_laws[OF fetch(3)]
      by (auto simp: update_conv' keys_update distinct_update has_head_def)
  qed
  then show "q \<noteq> p \<Longrightarrow> map_of d' q = map_of d q" "fst ` set d' \<subseteq> insert p (fst ` set d)"
    "distinct (map fst d) \<Longrightarrow> distinct (map fst d')" "has_head d p \<Longrightarrow> has_head d' p"
    "git_ok git \<Longrightarrow> outcome = Inl GitFailed \<or> outcome = Inr p \<and>
       (\<exists>m. map_of d' p = Some m \<and> md_head m \<and> md_origin m = Some url \<and> md_fetch m = FETCH_REFSPECS)"
    by blast+
qed

text \<open>A refresh is a step of the base that concerns its own key.\<close>

lemma refresh_base:
  assumes "base_ok base" "key_ok key" "refresh_mirror git (repository_path key) url (mb_dirs base) = (d, outcome)"
  shows "base_ok \<lparr>mb_present = True, mb_dirs = d\<rparr>"
    "key_ok k \<Longrightarrow> k \<noteq> key \<Longrightarrow> mirror_of \<lparr>mb_present = True, mb_dirs = d\<rparr> k = mirror_of base k"
    "key \<in> mirrored base \<Longrightarrow> key \<in> mirrored \<lparr>mb_present = True, mb_dirs = d\<rparr>"
proof -
  note laws = refresh_mirror_laws[OF assms(3)]
  show "base_ok \<lparr>mb_present = True, mb_dirs = d\<rparr>"
    using assms(1,2) laws(2,3) by (auto simp: base_ok_def)
  show "key_ok k \<Longrightarrow> k \<noteq> key \<Longrightarrow> mirror_of \<lparr>mb_present = True, mb_dirs = d\<rparr> k = mirror_of base k"
    using laws(1)[of "repository_path k"] path_inject[OF _ assms(2)] by (simp add: mirror_of_def)
  show "key \<in> mirrored base \<Longrightarrow> key \<in> mirrored \<lparr>mb_present = True, mb_dirs = d\<rparr>"
    using laws(4) has_head_mirrored[OF assms(2), of base] has_head_mirrored[OF assms(2), of "\<lparr>mb_present = True, mb_dirs = d\<rparr>"]
    by simp
qed

section \<open>Renaming\<close>

lemma move_path_of_key:
  assumes "key_ok old" "key_ok k"
  shows "move_path (repository_path old) new (repository_path k) = (if k = old then new else repository_path k)"
proof (cases "k = old")
  case False
  then have "\<not> prefix (repository_path old) (repository_path k)" using paths_apart[OF assms] by blast
  with False show ?thesis by (simp add: move_path_def)
qed (simp add: move_path_def)

lemma map_of_map_keys:
  assumes "inj_on f S" "fst ` set d \<subseteq> S" "q \<in> S"
  shows "map_of (map (\<lambda>(q, m). (f q, m)) d) (f q) = map_of d q"
  using assms(2)
proof (induction d)
  case (Cons x d)
  then have "f (fst x) = f q \<longleftrightarrow> fst x = q" using assms(1,3) by (auto simp: inj_on_def)
  then show ?case using Cons by (cases x) auto
qed simp

lemma rename_laws:
  assumes "base_ok base" "key_ok (LegacyRepositoryKey org_id old)" "key_ok (LegacyRepositoryKey org_id new)"
    and "rename_mirror org_id old new base = (base', True)"
  shows "base_ok base'" "key_ok k \<Longrightarrow> mirror_of base' k =
      (if k = LegacyRepositoryKey org_id new then mirror_of base (LegacyRepositoryKey org_id old)
       else if k = LegacyRepositoryKey org_id old then None else mirror_of base k)"
proof -
  let ?k = "LegacyRepositoryKey org_id old" and ?k' = "LegacyRepositoryKey org_id new"
  let ?p = "repository_path ?k" and ?p' = "repository_path ?k'"
  let ?move = "move_path ?p ?p'" and ?S = "repository_path ` {k. key_ok k \<and> k \<noteq> ?k'}"
  have go: "?k \<noteq> ?k'" "mirror_of base ?k' = None"
    "base' = (with_base base)\<lparr>mb_dirs := map (\<lambda>(q, m). (?move q, m)) (mb_dirs base)\<rparr>"
    using assms(4) exists_mirror_of[OF assms(1,3)]
    by (auto simp: rename_mirror_def Let_def split: if_splits)
  have paths: "fst ` set (mb_dirs base) \<subseteq> ?S"
  proof
    fix q assume q: "q \<in> fst ` set (mb_dirs base)"
    then obtain k where k: "key_ok k" "q = repository_path k" using base_path[OF assms(1)] by fastforce
    have "?p' \<notin> fst ` set (mb_dirs base)" using go(2) by (simp add: mirror_of_def map_of_eq_None_iff)
    then have "q \<noteq> ?p'" using q by blast
    with k show "q \<in> ?S" by auto
  qed
  have moves: "?move (repository_path k) = (if k = ?k then ?p' else repository_path k)" if "key_ok k" for k
    by (rule move_path_of_key[OF assms(2) that])
  have inj: "inj_on ?move ?S"
  proof (rule inj_onI)
    fix q r assume "q \<in> ?S" "r \<in> ?S" and eq: "?move q = ?move r"
    then obtain k l where k: "key_ok k" "k \<noteq> ?k'" "q = repository_path k" and l: "key_ok l" "l \<noteq> ?k'" "r = repository_path l"
      by auto
    show "q = r" using eq moves[OF k(1)] moves[OF l(1)] path_inject[OF k(1) assms(3)] path_inject[OF l(1) assms(3)] k l
      by (auto split: if_splits)
  qed
  have dirs: "fst ` set (mb_dirs base') = ?move ` fst ` set (mb_dirs base)"
    by (simp add: go(3) image_image case_prod_unfold)
  have valid: "?move ` ?S \<subseteq> repository_path ` {k. key_ok k}"
  proof
    fix q assume "q \<in> ?move ` ?S"
    then obtain k where "key_ok k" "q = ?move (repository_path k)" by auto
    then have "q = ?p' \<or> q = repository_path k" using moves[of k] by auto
    then show "q \<in> repository_path ` {k. key_ok k}" using assms(3) \<open>key_ok k\<close> by (metis imageI mem_Collect_eq)
  qed
  have "distinct (map fst (mb_dirs base'))"
    using inj_on_subset[OF inj paths] assms(1)
    by (simp add: go(3) base_ok_def comp_def case_prod_unfold distinct_map inj_on_def)
  then show "base_ok base'"
    using dirs image_mono[OF paths, of ?move] valid by (auto simp: base_ok_def go(3) with_base_def)
  have lookup: "map_of (mb_dirs base') (?move q) = map_of (mb_dirs base) q" if "q \<in> ?S" for q
    using map_of_map_keys[OF inj paths that] by (simp add: go(3))
  show "mirror_of base' k = (if k = ?k' then mirror_of base ?k else if k = ?k then None else mirror_of base k)" if k: "key_ok k"
  proof -
    consider "k = ?k'" | "k = ?k" | "k \<noteq> ?k'" "k \<noteq> ?k" by blast
    then show ?thesis
    proof cases
      case 1
      have "?p \<in> ?S" by (rule imageI) (use assms(2) go(1) in simp)
      with 1 show ?thesis using lookup[of ?p] moves[OF assms(2)] assms(2) go(1) by (simp add: mirror_of_def)
    next
      case 2
      have "?p \<notin> ?move ` ?S"
      proof
        assume "?p \<in> ?move ` ?S"
        then obtain l where l: "key_ok l" "?p = ?move (repository_path l)" by auto
        then show False using moves[OF l(1)] path_inject[OF assms(2,3)] path_inject[OF assms(2) l(1)] go(1)
          by (auto split: if_splits)
      qed
      then have "?p \<notin> fst ` set (mb_dirs base')" using dirs image_mono[OF paths, of ?move] by blast
      then show ?thesis using 2 go(1) by (simp add: mirror_of_def map_of_eq_None_iff)
    next
      case 3
      then show ?thesis using lookup[of "repository_path k"] moves[OF k] k by (simp add: mirror_of_def)
    qed
  qed
qed

lemma rename_refused: "rename_mirror org_id old new base = (base', False) \<Longrightarrow> mb_dirs base' = mb_dirs base"
  by (auto simp: rename_mirror_def Let_def with_base_def split: if_splits)

section \<open>Reachable bases\<close>

text \<open>What an operation of the manager does to the base, with validated keys and any answers of Git and the
  operating system.\<close>

inductive manager_step :: "mirror_base \<Rightarrow> mirror_base \<Rightarrow> bool" where
  refreshed: "key_ok key \<Longrightarrow> refresh_mirror git (repository_path key) url (mb_dirs base) = (d, outcome)
      \<Longrightarrow> manager_step base \<lparr>mb_present = True, mb_dirs = d\<rparr>"
| removed: "key_ok key \<Longrightarrow> remove_repository rmtree key base = (base', removal) \<Longrightarrow> manager_step base base'"
| renamed: "key_ok (LegacyRepositoryKey org_id old) \<Longrightarrow> key_ok (LegacyRepositoryKey org_id new)
      \<Longrightarrow> rename_mirror org_id old new base = (base', moved) \<Longrightarrow> manager_step base base'"

definition no_base :: mirror_base where
  "no_base = \<lparr>mb_present = False, mb_dirs = []\<rparr>"

lemma with_base_ok: "base_ok base \<Longrightarrow> base_ok (with_base base)"
  by (simp add: base_ok_def with_base_def)

lemma manager_step_ok: "manager_step base base' \<Longrightarrow> base_ok base \<Longrightarrow> base_ok base'"
proof (induction rule: manager_step.induct)
  case (renamed org_id old new base base' moved)
  show ?case
  proof (cases moved)
    case False
    then have "base' = base \<or> base' = with_base base"
      using renamed(3) by (auto simp: rename_mirror_def Let_def split: if_splits)
    then show ?thesis using renamed(4) with_base_ok by blast
  next
    case True
    then have "rename_mirror org_id old new base = (base', True)" using renamed(3) by simp
    then show ?thesis by (rule rename_laws(1)[OF renamed(4,1,2)])
  qed
qed (auto intro: refresh_base(1) remove_repository_laws(1))

lemma no_base_ok: "base_ok no_base"
  by (simp add: no_base_def base_ok_def)

lemma reachable_ok: "manager_step\<^sup>*\<^sup>* no_base base \<Longrightarrow> base_ok base"
  by (induction rule: rtranclp_induct) (simp_all add: no_base_ok manager_step_ok)

section \<open>Properties of the store\<close>

text \<open>C28. Mirrors stay apart and inside the base: the directory of one validated repository key never lies
  at, above or below that of another, and no component of a mirror's path is empty, a dot name, a
  lock directory or holds a separator.\<close>

theorem mirror_paths_confined:
  assumes "key_ok k" "key_ok k'"
  shows "(prefix (repository_path k) (repository_path k') \<longleftrightarrow> k = k')
     \<and> (\<forall>c\<in>set (repository_path k). c \<noteq> [] \<and> CHR ''/'' \<notin> set c \<and> c \<notin> {''.'', ''..'', ''.locks'', ''.observation-locks''})"
  using paths_apart[OF assms] path_components[OF assms(1)] by blast

text \<open>C29. In every base the manager's operations can leave, whatever Git and the operating system answered
  on the way, the listing of an organization is exactly its keys with a complete mirror, in key order,
  and those are the mirrors that open.\<close>

theorem mirror_listing_exact:
  assumes "manager_step\<^sup>*\<^sup>* no_base base" "normalize_org_id org = Inr org_id"
  shows "\<exists>keys. list_mirrored_repositories base org = Inr keys \<and> sorted_wrt (<) keys
     \<and> set keys = {k. key_ok k \<and> key_org_id k = org_id \<and> open_repository None base k \<noteq> None}"
proof -
  have ok: "base_ok base" by (rule reachable_ok[OF assms(1)])
  let ?K = "{k \<in> mirrored base. key_org_id k = org_id}"
  have "?K \<subseteq> set (legacy_keys base org_id @ identified_keys base org_id)"
    using set_legacy_keys[OF ok, of org_id] set_identified_keys[OF ok, of org_id] org_normal(1)[OF assms(2)] unreserved_ascii
    by (auto simp: list_all_iff)
  then have fin: "finite ?K" by (rule finite_subset) simp
  have "?K = {k. key_ok k \<and> key_org_id k = org_id \<and> open_repository None base k \<noteq> None}"
    using has_head_mirrored[of _ base]
    by (auto simp: open_repository_def snapshot_lacks_base_def Let_def mirrored_def)
  then show ?thesis
    using list_mirrored[OF ok assms(2)] fin by (intro exI[of _ "sorted_list_of_set ?K"]) (simp add: strict_sorted_list_of_set)
qed

text \<open>C30. A refresh concerns its own repository only: every other mirror keeps its directory, the refreshed
  one is never lost, and when the refresh succeeds the mirror is complete, fetches from the
  URL of this push and with exactly the three refspecs, whatever an earlier crash had left. A
  declined push, or a clone URL the policy rejects, leaves the base as it was.\<close>

theorem mirror_refresh_exact:
  assumes "base_ok base" "git_ok git"
    and "ensure_mirror git policy push context fetch_repo fetch_url base = (base', outcome)"
    and "\<And>key repo url. refresh_target git policy push context fetch_repo fetch_url = Inr (key, repo, url) \<Longrightarrow> key_ok key"
  shows "base_ok base' \<and> (case refresh_target git policy push context fetch_repo fetch_url of
      Inl e \<Rightarrow> base' = base \<and> outcome = Inl e
    | Inr (key, repo, url) \<Rightarrow>
        (\<forall>k. key_ok k \<longrightarrow> k \<noteq> key \<longrightarrow> mirror_of base' k = mirror_of base k) \<and> (key \<in> mirrored base \<longrightarrow> key \<in> mirrored base')
        \<and> (outcome = Inl GitFailed \<or> outcome = Inr (repository_path key) \<and>
            (\<exists>m. mirror_of base' key = Some m \<and> md_head m \<and> md_origin m = Some url \<and> md_fetch m = FETCH_REFSPECS)))"
proof (cases "refresh_target git policy push context fetch_repo fetch_url")
  case (Inl e)
  with assms(1,3) show ?thesis by (simp add: ensure_mirror_def)
next
  case (Inr t)
  obtain key repo url where t: "t = (key, repo, url)" by (cases t)
  obtain d where d: "refresh_mirror git (repository_path key) url (mb_dirs base) = (d, outcome)"
      "base' = \<lparr>mb_present = True, mb_dirs = d\<rparr>"
    using assms(3) Inr t by (auto simp: ensure_mirror_def split: prod.splits)
  have key: "key_ok key" using assms(4) Inr t by simp
  show ?thesis
    using refresh_base[OF assms(1) key d(1)] refresh_mirror_laws(5)[OF d(1) assms(2)]
    by (simp add: Inr t d(2) mirror_of_def)
qed

section \<open>Witnesses\<close>

definition sample_key :: repository_key where
  "sample_key = LegacyRepositoryKey ''acme'' ''acme/old''"

lemma sample_key_ok: "key_ok sample_key"
  by (simp add: sample_key_def key_ok_def new_legacy_key_def sample_org v_then_def scalar_identity_def scalar_ok_def
      normalize_repo_slug_def py_partition_def non_empty_id_def string_eval Let_def)

definition sample_git :: git_answers where
  "sample_git = \<lparr>ga_urlparse = (\<lambda>url. Inr \<lparr>url_scheme = ''https'', url_hostname = Some ''github.com''\<rparr>),
     ga_internal_host = (\<lambda>host. False),
     ga_init = (\<lambda>p. (Some \<lparr>md_head = True, md_origin = None, md_fetch = [], md_refs = []\<rparr>, True)),
     ga_config = (\<lambda>i. True), ga_fetch = (\<lambda>url specs refs. ([(''refs/heads/main'', sample_sha)], True))\<rparr>"

lemma sample_git_ok: "git_ok sample_git"
  by (simp add: git_ok_def sample_git_def)

definition sample_base :: mirror_base where
  "sample_base = \<lparr>mb_present = True, mb_dirs = [(repository_path sample_key,
     \<lparr>md_head = True, md_origin = Some ''u'', md_fetch = FETCH_REFSPECS, md_refs = [(''refs/heads/main'', sample_sha)]\<rparr>)]\<rparr>"

lemma sample_refresh:
  "refresh_mirror sample_git (repository_path sample_key) ''u'' [] = (mb_dirs sample_base, Inr (repository_path sample_key))"
  by (simp add: refresh_mirror_def init_mirror_def has_head_def sample_git_def configure_mirror_def fetch_mirror_def
      FETCH_REFSPECS_def sample_base_def numeral_2_eq_2)

lemma sample_reachable: "manager_step\<^sup>*\<^sup>* no_base sample_base"
  using manager_step.refreshed[OF sample_key_ok, of sample_git "''u''" no_base] sample_refresh
  by (simp add: no_base_def sample_base_def r_into_rtranclp)

lemma sample_mirrored: "sample_key \<in> mirrored sample_base"
  by (simp add: mirrored_def sample_key_ok mirror_of_def sample_base_def)

theorem mirror_paths_confined_witness:
  "prefix (repository_path sample_key) (repository_path sample_key)"
  using mirror_paths_confined[OF sample_key_ok sample_key_ok] by simp

theorem mirror_listing_exact_witness:
  "\<exists>keys. list_mirrored_repositories sample_base ''acme'' = Inr keys \<and> sample_key \<in> set keys"
proof -
  have "normalize_org_id ''acme'' = Inr ''acme''" using legacy_parts(3)[of "''acme''"] sample_key_ok by (simp add: sample_key_def)
  from mirror_listing_exact[OF sample_reachable this] show ?thesis
    using has_head_mirrored[OF sample_key_ok, of sample_base] sample_mirrored sample_key_ok
    by (auto simp: open_repository_def snapshot_lacks_base_def) (simp add: sample_key_def)
qed

theorem mirror_refresh_exact_witness:
  "base_ok (fst (ensure_mirror sample_git \<lparr>mp_enforce = True, mp_allowed_hosts = []\<rparr> (sample_stored_push ''p1'' 10) None None
      (Some ''u'') sample_base))"
proof -
  have target: "refresh_target sample_git \<lparr>mp_enforce = True, mp_allowed_hosts = []\<rparr> (sample_stored_push ''p1'' 10) None None
      (Some ''u'') = Inr (sample_key, ''acme/old'', ''u'')"
    using sample_key_ok
    by (simp add: refresh_target_def sample_stored_push_def key_ok_def sample_key_def rejection_reason_def sample_git_def
        ENFORCED_CLONE_SCHEMES_def the_default_def Let_def)
  obtain base' outcome where e: "ensure_mirror sample_git \<lparr>mp_enforce = True, mp_allowed_hosts = []\<rparr> (sample_stored_push ''p1'' 10)
      None None (Some ''u'') sample_base = (base', outcome)" by (metis surj_pair)
  show ?thesis
    using mirror_refresh_exact[OF reachable_ok[OF sample_reachable] sample_git_ok e] target sample_key_ok by (simp add: e)
qed

end
