(* ===== verification/Retention_Laws.thy ===== *)
theory Retention_Laws
  imports Mirror_Laws
begin

text \<open>
  What retention (\<open>gc.py\<close>) may remove. The loop is proved in the locale \<open>mirror_remover\<close> from the
  promises of the one operation it calls, and the model of the manager is an instance; when removals
  cannot fail (\<open>reliable_remover\<close>) a dry run tells what the real one does.
\<close>

section \<open>Retention over what removal promises\<close>

text \<open>The state holds a set of keys; \<open>remove\<close> takes at most the named one out of it, and says when it did.\<close>

locale mirror_remover =
  fixes state_ok :: "'s \<Rightarrow> bool" and holds :: "'s \<Rightarrow> repository_key set"
    and valid :: "repository_key \<Rightarrow> bool" and remove :: "repository_key \<Rightarrow> 's \<Rightarrow> 's \<times> bool option"
  assumes remove_ok: "state_ok s \<Longrightarrow> valid k \<Longrightarrow> state_ok (fst (remove k s))"
    and remove_others: "state_ok s \<Longrightarrow> valid k \<Longrightarrow> holds (fst (remove k s)) - {k} = holds s - {k}"
    and remove_gone: "state_ok s \<Longrightarrow> valid k \<Longrightarrow> snd (remove k s) = Some True \<Longrightarrow> k \<notin> holds (fst (remove k s))"
begin

definition expired :: "instant \<Rightarrow> (repository_key \<times> instant) list \<Rightarrow> repository_key \<Rightarrow> bool" where
  "expired cutoff last_pushes k \<longleftrightarrow> (\<exists>t. map_of last_pushes k = Some t \<and> t < cutoff)"

lemma gc_verdict_laws:
  assumes "state_ok s" "valid k" "gc_verdict dry_run cutoff remove (map_of last_pushes k) k s = (s', action, skip)"
  shows "state_ok s'" "holds s' - {k} = holds s - {k}" "\<not> expired cutoff last_pushes k \<or> dry_run \<Longrightarrow> s' = s"
    "action = REMOVED \<Longrightarrow> expired cutoff last_pushes k \<and> (dry_run \<or> k \<notin> holds s')"
    "skip = None \<longleftrightarrow> action = REMOVED" "\<not> expired cutoff last_pushes k \<Longrightarrow> action = KEPT"
proof -
  obtain s1 o1 where r: "remove k s = (s1, o1)" by (cases "remove k s")
  note laws = remove_ok[OF assms(1,2)] remove_others[OF assms(1,2)] remove_gone[OF assms(1,2)]
  have "state_ok s' \<and> holds s' - {k} = holds s - {k} \<and> (\<not> expired cutoff last_pushes k \<or> dry_run \<longrightarrow> s' = s)
     \<and> (action = REMOVED \<longrightarrow> expired cutoff last_pushes k \<and> (dry_run \<or> k \<notin> holds s'))
     \<and> (skip = None \<longleftrightarrow> action = REMOVED) \<and> (\<not> expired cutoff last_pushes k \<longrightarrow> action = KEPT)"
    using assms(1,3) laws r
    by (auto simp: gc_verdict_def expired_def not_less split: option.splits if_splits bool.splits)
  then show "state_ok s'" "holds s' - {k} = holds s - {k}" "\<not> expired cutoff last_pushes k \<or> dry_run \<Longrightarrow> s' = s"
    "action = REMOVED \<Longrightarrow> expired cutoff last_pushes k \<and> (dry_run \<or> k \<notin> holds s')"
    "skip = None \<longleftrightarrow> action = REMOVED" "\<not> expired cutoff last_pushes k \<Longrightarrow> action = KEPT"
    by blast+
qed

text \<open>The loop, with one result per key.\<close>

lemma gc_fold:
  assumes "state_ok s" "\<forall>k\<in>set ks. valid k" "distinct ks"
    and "fold (gc_step org_id dry_run cutoff remove ctx last_pushes) ks (s, rs) = (s', rs')"
  shows "state_ok s' \<and> holds s' - set ks = holds s - set ks
     \<and> (\<forall>k. \<not> expired cutoff last_pushes k \<longrightarrow> (k \<in> holds s' \<longleftrightarrow> k \<in> holds s)) \<and> (dry_run \<longrightarrow> s' = s)
     \<and> (\<exists>new. rs' = rs @ new \<and> list_all2 (\<lambda>k r. gr_last_push_captured_at r = map_of last_pushes k
          \<and> (gr_skip_reason r = None \<longleftrightarrow> gr_action r = REMOVED) \<and> (\<not> expired cutoff last_pushes k \<longrightarrow> gr_action r = KEPT)
          \<and> (gr_action r = REMOVED \<longrightarrow> dry_run \<or> k \<notin> holds s')) ks new)"
  using assms
proof (induction ks arbitrary: s rs)
  case (Cons k ks)
  obtain s1 action skip where v: "gc_verdict dry_run cutoff remove (map_of last_pushes k) k s = (s1, action, skip)"
    by (cases "gc_verdict dry_run cutoff remove (map_of last_pushes k) k s")
  note laws = gc_verdict_laws[OF Cons.prems(1) _ v]
  have k: "valid k" using Cons.prems(2) by simp
  obtain r where r: "gc_step org_id dry_run cutoff remove ctx last_pushes k (s, rs) = (s1, rs @ [r])"
      "gr_last_push_captured_at r = map_of last_pushes k" "gr_action r = action" "gr_skip_reason r = skip"
    by (simp add: gc_step_def Let_def v)
  have rest: "fold (gc_step org_id dry_run cutoff remove ctx last_pushes) ks (s1, rs @ [r]) = (s', rs')"
    using Cons.prems(4) r(1) by simp
  note IH = Cons.IH[OF laws(1)[OF k] _ _ rest]
  have "\<forall>k\<in>set ks. valid k" "distinct ks" "k \<notin> set ks" using Cons.prems by auto
  note IH = IH[OF this(1,2)] this
  from IH(1) obtain new where new: "rs' = rs @ [r] @ new"
    "list_all2 (\<lambda>k r. gr_last_push_captured_at r = map_of last_pushes k
          \<and> (gr_skip_reason r = None \<longleftrightarrow> gr_action r = REMOVED) \<and> (\<not> expired cutoff last_pushes k \<longrightarrow> gr_action r = KEPT)
          \<and> (gr_action r = REMOVED \<longrightarrow> dry_run \<or> k \<notin> holds s')) ks new" by auto
  have h: "holds s' - set ks = holds s1 - set ks" "holds s1 - {k} = holds s - {k}"
    using IH(1) laws(2)[OF k] by auto
  have "k \<in> holds s' \<longleftrightarrow> k \<in> holds s1" using h(1) IH(4) by auto
  moreover have "j \<in> holds s1 \<longleftrightarrow> j \<in> holds s" if "\<not> expired cutoff last_pushes j" for j
    using h(2) laws(3)[OF k] that by (cases "j = k") auto
  moreover have "holds s' - set (k # ks) = holds s - set (k # ks)" using h by auto
  ultimately show ?case
    using IH(1) new r laws(3-6)[OF k] by (intro conjI exI[of _ "r # new"]) auto
qed simp

end


text \<open>A remover that succeeds on every key it holds.\<close>

locale reliable_remover = mirror_remover +
  assumes remove_succeeds: "state_ok s \<Longrightarrow> k \<in> holds s \<Longrightarrow> snd (remove k s) = Some True"
    and holds_valid: "k \<in> holds s \<Longrightarrow> valid k"
begin

lemma gc_step_dry:
  assumes "state_ok s" "k \<in> holds s"
  shows "\<exists>s' r. gc_step org_id False cutoff remove ctx last_pushes k (s, rs) = (s', rs @ [r])
     \<and> gc_step org_id True cutoff remove ctx last_pushes k (s0, rs) = (s0, rs @ [r])
     \<and> state_ok s' \<and> holds s' - {k} = holds s - {k}"
proof -
  obtain s1 where r: "remove k s = (s1, Some True)" using remove_succeeds[OF assms] by (cases "remove k s") simp
  have "state_ok s1" "holds s1 - {k} = holds s - {k}"
    using remove_ok[OF assms(1) holds_valid[OF assms(2)]] remove_others[OF assms(1) holds_valid[OF assms(2)]] r by simp_all
  then show ?thesis using assms(1) r by (auto simp: gc_step_def gc_verdict_def Let_def split: option.split)
qed

lemma gc_dry_run:
  assumes "state_ok s" "set ks \<subseteq> holds s" "distinct ks"
  shows "snd (fold (gc_step org_id True cutoff remove ctx last_pushes) ks (s0, rs)) =
     snd (fold (gc_step org_id False cutoff remove ctx last_pushes) ks (s, rs))"
  using assms
proof (induction ks arbitrary: s rs)
  case (Cons k ks)
  then obtain s' r where s: "gc_step org_id False cutoff remove ctx last_pushes k (s, rs) = (s', rs @ [r])"
      "gc_step org_id True cutoff remove ctx last_pushes k (s0, rs) = (s0, rs @ [r])"
      "state_ok s'" "holds s' - {k} = holds s - {k}"
    using gc_step_dry[of s k org_id cutoff ctx last_pushes rs s0] by auto
  have "set ks \<subseteq> holds s'" using Cons.prems s(4) by auto
  then show ?case using Cons.IH[OF s(3)] Cons.prems s(1,2) by simp
qed simp

end

section \<open>The last push of a repository\<close>

definition push_times :: "string \<Rightarrow> push_gc_row list \<Rightarrow> repository_key \<Rightarrow> instant list" where
  "push_times org_id rows k = map pg_captured_at (filter (\<lambda>row. gc_row_key org_id row = Inr (Some k)) rows)"

definition last_push :: "string \<Rightarrow> push_gc_row list \<Rightarrow> repository_key \<Rightarrow> instant option" where
  "last_push org_id rows k =
     (if push_times org_id rows k = [] then None else Some (Max (set (push_times org_id rows k))))"

lemma last_push_step_Inr:
  assumes "last_push_step org_id row d = Inr d'"
  shows "map_of d' k = (if gc_row_key org_id row = Inr (Some k)
      then Some (case map_of d k of None \<Rightarrow> pg_captured_at row | Some t \<Rightarrow> max t (pg_captured_at row)) else map_of d k)"
  using assms by (auto simp: last_push_step_def update_conv' as_utc_Inr max_def split: option.splits if_splits)

lemma Max_insert_max: "finite A \<Longrightarrow> Max (insert (max a b) A) = max (a :: instant) (Max (insert b A))"
  by (cases "A = {}") (simp_all add: max.assoc)

lemma last_pushes_eq:
  assumes "fold_result (last_push_step org_id) rows [] = Inr d"
  shows "map_of d k = last_push org_id rows k"
proof -
  have "map_of d k = (case map_of d0 k of None \<Rightarrow> last_push org_id rows k
      | Some t \<Rightarrow> Some (Max (insert t (set (push_times org_id rows k)))))"
    if "fold_result (last_push_step org_id) rows d0 = Inr d" for d0
    using that
  proof (induction rows arbitrary: d0)
    case (Cons row rows)
    then obtain d1 where d1: "last_push_step org_id row d0 = Inr d1" "fold_result (last_push_step org_id) rows d1 = Inr d" by auto
    show ?case
      using Cons.IH[OF d1(2)] last_push_step_Inr[OF d1(1), of k]
      by (cases "push_times org_id rows k = []")
        (auto simp: last_push_def push_times_def Max_insert_max split: option.splits if_splits)
  qed (simp add: last_push_def push_times_def split: option.split)
  from this[OF assms] show ?thesis by simp
qed

lemma map_sum_snd_bind: "map_sum id g (bind_result r f) = bind_result r (\<lambda>x. map_sum id g (f x))"
  by (cases r) simp_all

section \<open>Properties of retention\<close>

interpretation store: mirror_remover base_ok mirrored key_ok "remove_repository rmtree" for rmtree
proof unfold_locales
  fix s k assume a: "base_ok s" "key_ok k"
  obtain s' removal where r: "remove_repository rmtree k s = (s', removal)" by (cases "remove_repository rmtree k s")
  show "base_ok (fst (remove_repository rmtree k s))"
    "mirrored (fst (remove_repository rmtree k s)) - {k} = mirrored s - {k}"
    "snd (remove_repository rmtree k s) = Some True \<Longrightarrow> k \<notin> mirrored (fst (remove_repository rmtree k s))"
    using remove_repository_laws(1)[OF a r] mirrored_remove[OF a r] by (simp_all add: r)
qed

interpretation reliable_store: reliable_remover base_ok mirrored key_ok "remove_repository (\<lambda>path. None)"
proof unfold_locales
  fix s k assume a: "base_ok s" "k \<in> mirrored s"
  obtain s' removal where r: "remove_repository (\<lambda>path. None) k s = (s', removal)"
    by (cases "remove_repository (\<lambda>path. None) k s")
  have "key_ok k" using a(2) by (simp add: mirrored_def)
  then show "snd (remove_repository (\<lambda>path. None) k s) = Some True"
    using mirrored_remove(3)[OF a(1) _ r a(2)] by (simp add: r)
qed (simp add: mirrored_def)

abbreviation retention_cutoff :: "mirror_gc_policy \<Rightarrow> instant \<Rightarrow> instant" where
  "retention_cutoff policy now \<equiv> now - gp_retention_days policy * 86400000000"

abbreviation gc_keys :: "mirror_base \<Rightarrow> string \<Rightarrow> repository_key list" where
  "gc_keys base org_id \<equiv> sorted_list_of_set {k \<in> mirrored base. key_org_id k = org_id}"

lemma gc_keys_props:
  assumes "base_ok base" "normalize_org_id org = Inr org_id"
  shows "set (gc_keys base org_id) = {k \<in> mirrored base. key_org_id k = org_id}" "distinct (gc_keys base org_id)"
    "\<forall>k\<in>set (gc_keys base org_id). key_ok k"
proof -
  have "{k \<in> mirrored base. key_org_id k = org_id} \<subseteq> set (legacy_keys base org_id @ identified_keys base org_id)"
    using set_legacy_keys[OF assms(1), of org_id] set_identified_keys[OF assms(1), of org_id] org_normal(1)[OF assms(2)]
      unreserved_ascii by (auto simp: list_all_iff)
  then have fin: "finite {k \<in> mirrored base. key_org_id k = org_id}" by (rule finite_subset) simp
  then show "set (gc_keys base org_id) = {k \<in> mirrored base. key_org_id k = org_id}" by simp
  then show "\<forall>k\<in>set (gc_keys base org_id). key_ok k" by (auto simp: mirrored_def)
  show "distinct (gc_keys base org_id)" by simp
qed

lemma gc_mirrors_cases:
  assumes "base_ok base" "gc_mirrors snapshot rows rmtree org policy (Some now) dry_run base = Inr (base', results)"
  shows "\<exists>org_id ctx d. normalize_org_id org = Inr org_id \<and> fold_result (last_push_step org) rows [] = Inr d
     \<and> fold (gc_step org dry_run (retention_cutoff policy now) (remove_repository rmtree) ctx d) (gc_keys base org_id) (base, [])
         = (base', results)"
proof -
  obtain ctx d keys where g: "fold_result (last_push_step org) rows [] = Inr d" "list_mirrored_repositories base org = Inr keys"
    "fold (gc_step org dry_run (retention_cutoff policy now) (remove_repository rmtree) ctx d) keys (base, []) = (base', results)"
    using assms(2) by (auto simp: gc_mirrors_def as_utc_Inr)
  then obtain org_id where n: "normalize_org_id org = Inr org_id" by (auto simp: list_mirrored_repositories_def)
  with g list_mirrored[OF assms(1) n] show ?thesis by auto
qed

lemma expired_iff:
  assumes "fold_result (last_push_step org) rows [] = Inr d"
  shows "store.expired cutoff d k \<longleftrightarrow> push_times org rows k \<noteq> [] \<and> (\<forall>t\<in>set (push_times org rows k). t < cutoff)"
  by (simp add: store.expired_def last_pushes_eq[OF assms] last_push_def)


text \<open>Every mirror of the organization gets one verdict, in key order: it names the last stored push,
  keeps the mirror with one reason unless it is reported removed, never reports an unexpired one
  removed, and does not report removed a mirror that is still there.\<close>

theorem mirror_gc_accounted:
  assumes "base_ok base" "normalize_org_id org = Inr org_id"
    and "gc_mirrors snapshot rows rmtree org policy (Some now) dry_run base = Inr (base', results)"
  shows "list_all2 (\<lambda>k r. gr_last_push_captured_at r = last_push org rows k
        \<and> (gr_skip_reason r = None \<longleftrightarrow> gr_action r = REMOVED)
        \<and> (gr_action r = REMOVED \<longrightarrow> (\<exists>t. last_push org rows k = Some t \<and> t < retention_cutoff policy now)
             \<and> (dry_run \<or> k \<notin> mirrored base')))
      (sorted_list_of_set {k \<in> mirrored base. key_org_id k = org_id}) results"
proof -
  obtain ctx d where g: "fold_result (last_push_step org) rows [] = Inr d"
    "fold (gc_step org dry_run (retention_cutoff policy now) (remove_repository rmtree) ctx d) (gc_keys base org_id) (base, [])
       = (base', results)" using gc_mirrors_cases[OF assms(1,3)] assms(2) by auto
  note keys = gc_keys_props[OF assms(1,2)]
  show ?thesis
    using store.gc_fold[OF assms(1) keys(3,2) g(2)] last_pushes_eq[OF g(1)]
    by (auto simp: store.expired_def elim!: list_all2_mono)
qed

text \<open>A dry run tells the truth: where the file system removes what it is asked to, the verdicts of a
  dry run are those of the real one, errors included.\<close>

theorem mirror_gc_dry_run:
  assumes "base_ok base"
  shows "map_sum id snd (gc_mirrors snapshot rows (\<lambda>path. None) org policy now True base) =
     map_sum id snd (gc_mirrors snapshot rows (\<lambda>path. None) org policy now False base)"
proof -
  have "snd (fold (gc_step org True cutoff (remove_repository (\<lambda>path. None)) ctx d) keys (base, [])) =
      snd (fold (gc_step org False cutoff (remove_repository (\<lambda>path. None)) ctx d) keys (base, []))"
    if l: "list_mirrored_repositories base org = Inr keys" for cutoff ctx d keys
  proof -
    obtain org_id where n: "normalize_org_id org = Inr org_id"
      using l by (auto simp: list_mirrored_repositories_def)
    then have k: "keys = gc_keys base org_id" using l list_mirrored[OF assms n] by simp
    show ?thesis using reliable_store.gc_dry_run[OF assms _ gc_keys_props(2)[OF assms n]] gc_keys_props(1)[OF assms n]
      unfolding k by (metis (no_types, lifting) mem_Collect_eq subsetI)
  qed
  then show ?thesis
    by (cases now; cases "list_mirrored_repositories base org")
      (simp_all add: gc_mirrors_def map_sum_snd_bind del: fold_simps)
qed

section \<open>Witnesses\<close>

definition sample_gc_policy :: mirror_gc_policy where
  "sample_gc_policy = \<lparr>gp_retention_days = 30, gp_policy_version = ''1''\<rparr>"

definition sample_gc_snapshot :: snapshot where
  "sample_gc_snapshot = sample_snapshot\<lparr>sn_identities := \<lambda>t. Inr sample_population\<rparr>"

text \<open>A push of thirty-one days ago.\<close>

definition sample_gc_row :: push_gc_row where
  "sample_gc_row = \<lparr>pg_repo = ''acme/old'', pg_captured_at = - 31 * 86400000000, pg_repository_provider = None,
     pg_repository_host = None, pg_repository_id = None\<rparr>"

lemma sample_gc_key: "gc_row_key ''acme'' sample_gc_row = Inr (Some sample_key)"
  using sample_key_ok
  by (simp add: gc_row_key_def sample_gc_row_def repository_identity_of.simps key_ok_def sample_key_def)

lemma sample_gc_org: "normalize_org_id ''acme'' = Inr ''acme''"
  using legacy_parts(3)[of "''acme''"] sample_key_ok by (simp add: sample_key_def)

lemma sample_only: "{k \<in> mirrored sample_base. key_org_id k = ''acme''} = {sample_key}"
  using sample_mirrored path_inject[OF _ sample_key_ok]
  by (auto simp: mirrored_def mirror_of_def sample_base_def sample_key_def split: if_splits)

lemma sample_gc:
  "\<exists>base' results. gc_mirrors sample_gc_snapshot [sample_gc_row] (\<lambda>path. None) ''acme'' sample_gc_policy (Some 10) False sample_base
     = Inr (base', results) \<and> mb_dirs base' = []"
proof -
  have "map_of (mb_dirs sample_base) (repository_path sample_key) \<noteq> None" by (simp add: sample_base_def)
  then have rm: "remove_repository (\<lambda>path. None) sample_key sample_base = (sample_base\<lparr>mb_dirs := []\<rparr>, Some True)"
    by (simp add: remove_repository_def remove_path_def path_exists_def outside_def with_base_def sample_base_def)
  have row: "last_push_step ''acme'' sample_gc_row [] = Inr [(sample_key, - 31 * 86400000000)]"
    by (simp add: last_push_step_def sample_gc_key) (simp add: sample_gc_row_def as_utc_def UTC_MIN_def UTC_MAX_def)
  have list: "list_mirrored_repositories sample_base ''acme'' = Inr [sample_key]"
    using list_mirrored[OF reachable_ok[OF sample_reachable] sample_gc_org] by (simp add: sample_only)
  have build: "sn_identities sample_gc_snapshot 10 = Inr sample_population" "sn_renames sample_gc_snapshot 10 = Inr []"
    by (simp_all add: sample_gc_snapshot_def sample_snapshot_def)
  show ?thesis
    unfolding gc_mirrors_def option.case build bind_result_simps sample_build list
    by (simp add: as_utc_def UTC_MIN_def UTC_MAX_def sample_gc_policy_def row gc_step_def gc_verdict_def rm Let_def)
qed


theorem mirror_gc_accounted_witness:
  "\<exists>base' r. gc_mirrors sample_gc_snapshot [sample_gc_row] (\<lambda>path. None) ''acme'' sample_gc_policy (Some 10) False sample_base
     = Inr (base', [r]) \<and> gr_last_push_captured_at r = last_push ''acme'' [sample_gc_row] sample_key"
proof -
  obtain base' results where g: "gc_mirrors sample_gc_snapshot [sample_gc_row] (\<lambda>path. None) ''acme'' sample_gc_policy (Some 10)
      False sample_base = Inr (base', results)" using sample_gc by blast
  from mirror_gc_accounted[OF reachable_ok[OF sample_reachable] sample_gc_org g] g show ?thesis
    unfolding sample_only by (auto simp: list_all2_Cons1)
qed

theorem mirror_gc_dry_run_witness:
  "map_sum id snd (gc_mirrors sample_gc_snapshot [sample_gc_row] (\<lambda>path. None) ''acme'' sample_gc_policy (Some 10) True sample_base) =
   map_sum id snd (gc_mirrors sample_gc_snapshot [sample_gc_row] (\<lambda>path. None) ''acme'' sample_gc_policy (Some 10) False sample_base)"
  by (rule mirror_gc_dry_run[OF reachable_ok[OF sample_reachable]])

end
