(* ===== verification/Lock_Laws.thy ===== *)
theory Lock_Laws
  imports Mirror_Laws
begin

text \<open>
  The file locks of the mirror manager. Whatever plans of locks the operations follow, if every plan
  ascends (\<open>ordered_locks\<close>) no schedule of takes and releases gets stuck; the plans of the manager's
  operations do.
\<close>

section \<open>Ordered acquisition\<close>

text \<open>A holder's locks ascend, and no two holders share one.\<close>

definition holder_ok :: "lock_holder \<Rightarrow> bool" where
  "holder_ok p \<longleftrightarrow> sorted_wrt (<) (lh_held p @ lh_wanted p)"

definition exclusive :: "lock_holder list \<Rightarrow> bool" where
  "exclusive ps \<longleftrightarrow> (\<forall>i<length ps. \<forall>j<length ps. i \<noteq> j \<longrightarrow> set (lh_held (ps ! i)) \<inter> set (lh_held (ps ! j)) = {})"

definition holder_work :: "lock_holder \<Rightarrow> nat" where
  "holder_work p = 2 * length (lh_wanted p) + length (lh_held p)"

definition lock_work :: "lock_holder list \<Rightarrow> nat" where
  "lock_work ps = sum_list (map holder_work ps)"

abbreviation finished :: "lock_holder \<Rightarrow> bool" where
  "finished p \<equiv> lh_held p = [] \<and> lh_wanted p = []"

inductive_cases lock_stepE [consumes 1, case_names acquire release]: "lock_step ps ps'"

lemma lock_work_update:
  "i < length ps \<Longrightarrow> holder_work (ps ! i) = Suc (holder_work p) \<Longrightarrow> Suc (lock_work (ps[i := p])) = lock_work ps"
proof (induction ps arbitrary: i)
  case (Cons q ps)
  then show ?case by (cases i) (fastforce simp: lock_work_def)+
qed simp

lemma lock_step_work: "lock_step ps ps' \<Longrightarrow> Suc (lock_work ps') = lock_work ps"
  by (elim lock_stepE) (simp_all add: lock_work_update holder_work_def)

lemma holder_ok_update: "\<forall>p\<in>set ps. holder_ok p \<Longrightarrow> holder_ok p \<Longrightarrow> \<forall>p\<in>set (ps[i := p]). holder_ok p"
  using set_update_subset_insert[of ps i p] by auto

lemma lock_step_ok:
  assumes "lock_step ps ps'" "\<forall>p\<in>set ps. holder_ok p"
  shows "\<forall>p\<in>set ps'. holder_ok p"
  using assms(1)
proof (cases rule: lock_stepE)
  case (acquire i hs l ls)
  then have "holder_ok (ps ! i)" using assms(2) nth_mem by blast
  then have "holder_ok \<lparr>lh_held = hs @ [l], lh_wanted = ls\<rparr>" using acquire by (simp add: holder_ok_def)
  then show ?thesis using acquire holder_ok_update[OF assms(2)] by simp
next
  case (release i hs l)
  then have "holder_ok (ps ! i)" using assms(2) nth_mem by blast
  then have "holder_ok \<lparr>lh_held = hs, lh_wanted = []\<rparr>" using release by (simp add: holder_ok_def sorted_wrt_append)
  then show ?thesis using release holder_ok_update[OF assms(2)] by simp
qed

lemma lock_step_exclusive:
  assumes "lock_step ps ps'" "exclusive ps"
  shows "exclusive ps'"
  using assms(1)
proof (cases rule: lock_stepE)
  case (acquire i hs l ls)
  moreover have "l \<notin> set (lh_held (ps ! j))" if "j < length ps" for j using acquire(4) that by auto
  ultimately show ?thesis using assms(2) by (fastforce simp: exclusive_def nth_list_update)
next
  case (release i hs l)
  then show ?thesis using assms(2) by (fastforce simp: exclusive_def nth_list_update)
qed

text \<open>Whoever holds the greatest lock waits for none that is held.\<close>

lemma lock_progress:
  assumes "\<forall>p\<in>set ps. holder_ok p" "\<exists>p\<in>set ps. \<not> finished p"
  shows "\<exists>ps'. lock_step ps ps'"
proof (cases "\<exists>p\<in>set ps. lh_wanted p = [] \<and> lh_held p \<noteq> []")
  case True
  then obtain i where i: "i < length ps" "lh_wanted (ps ! i) = []" "lh_held (ps ! i) \<noteq> []" by (metis in_set_conv_nth)
  then have "ps ! i = \<lparr>lh_held = butlast (lh_held (ps ! i)) @ [last (lh_held (ps ! i))], lh_wanted = []\<rparr>" by simp
  from lock_step.release[OF i(1) this] show ?thesis by blast
next
  case False
  let ?H = "\<Union>p\<in>set ps. set (lh_held p)"
  have "\<exists>p\<in>set ps. lh_wanted p \<noteq> [] \<and> hd (lh_wanted p) \<notin> ?H"
  proof (cases "?H = {}")
    case True
    then show ?thesis using assms(2) by auto
  next
    case False
    have "Max ?H \<in> ?H" using False by (intro Max_in) auto
    then obtain p where p: "p \<in> set ps" "Max ?H \<in> set (lh_held p)" by blast
    then have w: "lh_wanted p \<noteq> []" using \<open>\<not> (\<exists>p\<in>set ps. lh_wanted p = [] \<and> lh_held p \<noteq> [])\<close> by auto
    then have "Max ?H < hd (lh_wanted p)"
      using p assms(1) by (auto simp: holder_ok_def sorted_wrt_append)
    then have "hd (lh_wanted p) \<notin> ?H" using Max_ge[of ?H] by (meson finite_UN finite_set leD)
    with p(1) w show ?thesis by blast
  qed
  then obtain i where i: "i < length ps" "lh_wanted (ps ! i) \<noteq> []" "hd (lh_wanted (ps ! i)) \<notin> ?H" by (metis in_set_conv_nth)
  then have "ps ! i = \<lparr>lh_held = lh_held (ps ! i), lh_wanted = hd (lh_wanted (ps ! i)) # tl (lh_wanted (ps ! i))\<rparr>" by simp
  from lock_step.acquire[OF i(1) this i(3)] show ?thesis by blast
qed

locale ordered_locks =
  fixes plan :: "'o \<Rightarrow> lock list"
  assumes plan_ascends: "sorted_wrt (<) (plan operation)"
begin

lemma no_deadlock:
  assumes "(lock_step ^^ n) (map (\<lambda>operation. \<lparr>lh_held = [], lh_wanted = plan operation\<rparr>) operations) ps"
  shows "exclusive ps \<and> n + lock_work ps = 2 * length (concat (map plan operations))
     \<and> ((\<forall>p\<in>set ps. finished p) \<or> (\<exists>ps'. lock_step ps ps'))"
proof -
  have "exclusive ps \<and> (\<forall>p\<in>set ps. holder_ok p) \<and> n + lock_work ps = 2 * length (concat (map plan operations))"
    using assms
  proof (induction n arbitrary: ps)
    case 0
    have "lock_work ps = 2 * length (concat (map plan operations))"
      using 0 by (auto simp: lock_work_def holder_work_def length_concat comp_def sum_list_const_mult)
    with 0 show ?case using plan_ascends by (auto simp: exclusive_def holder_ok_def)
  next
    case (Suc n)
    then obtain qs where "(lock_step ^^ n) (map (\<lambda>operation. \<lparr>lh_held = [], lh_wanted = plan operation\<rparr>) operations) qs"
      "lock_step qs ps" by auto
    then show ?case using Suc.IH lock_step_work lock_step_ok lock_step_exclusive by fastforce
  qed
  then show ?thesis using lock_progress by blast
qed

end

section \<open>The manager's plans\<close>

lemma mirror_lock_inject: "mirror_lock (mirror_path org_id a) = mirror_lock (mirror_path org_id b) \<longleftrightarrow> a = b"
  by (simp add: mirror_lock_def path_name.simps mirror_path_def)

interpretation manager: ordered_locks lock_plan
proof unfold_locales
  show "sorted_wrt (<) (lock_plan operation)" for operation
  proof (cases operation)
    case (Rename org_id old_repo new_repo)
    then show ?thesis using mirror_lock_inject[of org_id old_repo new_repo] by (auto simp: not_le order.strict_iff_order)
  next
    case (ReadSnapshot keys)
    then show ?thesis by simp
  qed (simp_all add: observation_lock_def mirror_lock_def)
qed

text \<open>C32. Concurrent mirror operations never deadlock: after any number of steps in any order, no two
  operations hold the same lock, and either all of them are through or some one can go on; each lock
  of a plan is taken once and given back once, so a schedule ends after twice their number of steps.\<close>

theorem mirror_locks_progress:
  assumes "(lock_step ^^ n) (lock_start operations) ps"
  shows "(\<forall>i<length ps. \<forall>j<length ps. i \<noteq> j \<longrightarrow> set (lh_held (ps ! i)) \<inter> set (lh_held (ps ! j)) = {})
     \<and> n \<le> 2 * length (concat (map lock_plan operations))
     \<and> ((\<forall>p\<in>set ps. lh_held p = [] \<and> lh_wanted p = []) \<and> n = 2 * length (concat (map lock_plan operations))
          \<or> (\<exists>ps'. lock_step ps ps'))"
proof -
  note laws = manager.no_deadlock[OF assms[unfolded lock_start_def]]
  have "lock_work ps = 0" if "\<forall>p\<in>set ps. finished p" using that by (auto simp: lock_work_def holder_work_def)
  then show ?thesis using laws unfolding exclusive_def by auto
qed

text \<open>A rename and a refresh of the repository it renames.\<close>

theorem mirror_locks_progress_witness:
  "\<exists>ps. lock_step (lock_start [mirror_operation.Rename ''acme'' ''a'' ''b'', Refresh (LegacyRepositoryKey ''acme'' ''a'')]) ps
     \<and> (\<exists>ps'. lock_step ps ps')"
proof -
  let ?ops = "[mirror_operation.Rename ''acme'' ''a'' ''b'', Refresh (LegacyRepositoryKey ''acme'' ''a'')]"
  let ?l = "mirror_lock (mirror_path ''acme'' ''a'')"
  let ?ps = "(lock_start ?ops)[1 := \<lparr>lh_held = [?l], lh_wanted = []\<rparr>]"
  have "lock_step (lock_start ?ops) ?ps"
    using lock_step.acquire[of 1 "lock_start ?ops" "[]" ?l "[]"] by (simp add: lock_start_def)
  then have "(lock_step ^^ 1) (lock_start ?ops) ?ps" by (simp only: relpowp_1)
  note laws = mirror_locks_progress[OF this]
  have "\<exists>p\<in>set ?ps. lh_held p \<noteq> []" by (simp add: lock_start_def)
  then show ?thesis using laws \<open>lock_step (lock_start ?ops) ?ps\<close> by blast
qed

end
