(* ===== verification/Fact_Store.thy ===== *)
theory Fact_Store
  imports Mirror_Store
begin

text \<open>
  The Fact store of \<open>store.py\<close>, over the tables of \<open>postgres_schema.py\<close>: one list of rows per Fact
  table, the Sessions, the aliases of the calls and the quarantine log. Every \<open>store_*\<close> operation is one
  transaction: what it raises leaves the database as it was. \<open>redact_fact\<close> is an argument of the
  operations that call it.
\<close>

section \<open>Rows and unique indexes\<close>

text \<open>\<open>INSERT \<dots> ON CONFLICT DO NOTHING RETURNING\<close>: the row is declined when its primary key or its key in
  the unique index is taken. A row outside the predicate of a partial index, or with a \<open>NULL\<close> in the
  key, has no key there.\<close>

definition index_conflict :: "('f \<Rightarrow> string) \<Rightarrow> ('f \<Rightarrow> 'k option) \<Rightarrow> 'f \<Rightarrow> 'f \<Rightarrow> bool" where
  "index_conflict pk ix f g \<longleftrightarrow> pk g = pk f \<or> ix g \<noteq> None \<and> ix g = ix f"

definition insert_or_nothing :: "('f \<Rightarrow> string) \<Rightarrow> ('f \<Rightarrow> 'k option) \<Rightarrow> 'f \<Rightarrow> 'f list \<Rightarrow> 'f list \<times> bool" where
  "insert_or_nothing pk ix f rows =
     (if list_ex (index_conflict pk ix f) rows then (rows, False) else (rows @ [f], True))"

definition components :: "'a repository_fact_scheme \<Rightarrow> forge_provider option \<times> string option \<times> string option" where
  "components f = (rf_repository_provider f, rf_repository_host f, rf_repository_id f)"

text \<open>The key of an identified row, absent when a component is \<open>NULL\<close>.\<close>

definition identified :: "'a repository_fact_scheme \<Rightarrow> (forge_provider \<times> string \<times> string) option" where
  "identified f = (case components f of (Some p, Some h, Some i) \<Rightarrow> Some (p, h, i) | _ \<Rightarrow> None)"

text \<open>A table with one index for the legacy rows and one for the identified ones.\<close>

definition split_index ::
  "'a repository_fact_scheme \<Rightarrow> 'l \<Rightarrow> (forge_provider \<times> string \<times> string \<Rightarrow> 'i) \<Rightarrow> ('l + 'i) option" where
  "split_index f legacy key =
     (if rf_repository_id f = None then Some (Inl legacy) else map_option (\<lambda>c. Inr (key c)) (identified f))"

definition call_index :: "inference_call \<Rightarrow> (string \<times> gateway_provider \<times> string) option" where
  "call_index c = map_option (\<lambda>m. (ic_org_id c, ic_gateway_provider c, m)) (ic_model_call_id c)"

type_synonym keyed_decision = "string \<times> string \<times> bool \<times> bool \<times> interaction_mode \<times> instant \<times> string"

definition decision_index ::
  "developer_decision \<Rightarrow> (keyed_decision + agent_harness \<times> string \<times> int \<times> keyed_decision) option" where
  "decision_index d =
     (let key = (\<lambda>call_id. (dd_org_id d, dd_session_id d, dd_accepted d, dd_explicit d, dd_interaction_mode d,
            dd_occurred_at d, call_id))
      in case dd_call_id d of
           Some call_id \<Rightarrow>
             if dd_agent_harness d = CLAUDE_CODE then Some (Inl (key call_id))
             else Some (Inr (dd_agent_harness d, dd_file_path d, the_default (-1) (dd_observation_delay_ms d), key call_id))
         | None \<Rightarrow> Some (Inr (dd_agent_harness d, dd_file_path d, the_default (-1) (dd_observation_delay_ms d), key [])))"

definition edit_index :: "edit_observation \<Rightarrow> (string \<times> agent_harness \<times> string \<times> string) option" where
  "edit_index e = Some (eo_org_id e, eo_agent_harness e, eo_session_id e, eo_call_id e)"

definition rejected_index :: "rejected_edit \<Rightarrow> (string \<times> agent_harness \<times> string \<times> string) option" where
  "rejected_index e = Some (re_org_id e, re_agent_harness e, re_session_id e, re_call_id e)"

definition linkage_index ::
  "retry_linkage \<Rightarrow> (string \<times> agent_harness \<times> string \<times> tool_name \<times> string \<times> string \<times> string) option" where
  "linkage_index l = Some (rl_org_id l, rl_agent_harness l, rl_session_id l, rl_tool_name l, rl_file_path l,
     rl_rejected_call_id l, rl_accepted_call_id l)"

definition allocation_index ::
  "compute_allocation \<Rightarrow> (string \<times> string \<times> instant \<times> compute_allocation_source \<times> int \<times> int) option" where
  "allocation_index a = Some (ca_org_id a, ca_session_id a, ca_occurred_at a, ca_allocation_source a,
     the_default 0 (ca_cpu_millicores a), the_default 0 (ca_memory_bytes a))"

definition outcome_index ::
  "ci_outcome \<Rightarrow> (string \<times> ci_provider \<times> string \<times> int
     + string \<times> forge_provider \<times> string \<times> ci_provider \<times> string \<times> int) option" where
  "outcome_index c =
     (let attempt = the_default 0 (ci_run_attempt c)
      in split_index c (ci_org_id c, ci_provider_of c, ci_run_id c, attempt)
           (\<lambda>(p, h, i). (ci_org_id c, p, h, ci_provider_of c, ci_run_id c, attempt)))"

definition push_index ::
  "push \<Rightarrow> (string \<times> string \<times> string \<times> string \<times> string
     + string \<times> (forge_provider \<times> string \<times> string) \<times> string \<times> string \<times> string) option" where
  "push_index p = split_index p (pu_org_id p, pu_repo p, pu_ref p, pu_before_sha p, pu_after_sha p)
     (\<lambda>c. (pu_org_id p, c, pu_ref p, pu_before_sha p, pu_after_sha p))"

definition observation_index ::
  "session_commit_observation \<Rightarrow> (string \<times> string \<times> string \<times> string
     + string \<times> (forge_provider \<times> string \<times> string) \<times> string \<times> string) option" where
  "observation_index s = split_index s (sc_org_id s, sc_repo s, sc_commit_sha s, sc_session_id s)
     (\<lambda>c. (sc_org_id s, c, sc_commit_sha s, sc_session_id s))"

definition merge_index ::
  "pull_request_merge \<Rightarrow> (string \<times> forge_provider \<times> string \<times> int
     + string \<times> (forge_provider \<times> string \<times> string) \<times> int) option" where
  "merge_index m = split_index m (hr_org_id m, hr_provider m, hr_repo m, hr_pr_number m)
     (\<lambda>c. (hr_org_id m, c, hr_pr_number m))"

definition revision_index ::
  "pull_request_revision \<Rightarrow> (string \<times> forge_provider \<times> string \<times> int \<times> string \<times> string
     + string \<times> (forge_provider \<times> string \<times> string) \<times> int \<times> string \<times> string) option" where
  "revision_index v =
     split_index v (hr_org_id v, hr_provider v, hr_repo v, hr_pr_number v, hr_head_sha v, hr_base_sha v)
     (\<lambda>c. (hr_org_id v, c, hr_pr_number v, hr_head_sha v, hr_base_sha v))"

definition rename_index :: "repository_rename \<Rightarrow> (string \<times> forge_provider \<times> string \<times> string) option" where
  "rename_index r =
     map_option (\<lambda>event. (rr_org_id r, rr_repository_provider r, rr_repository_host r, event)) (rr_source_event_id r)"

section \<open>The database\<close>

record session_record =
  se_user_id :: "string option"
  se_user_id_conflict :: bool
  se_first_observed_at :: instant
  se_last_observed_at :: instant

record call_alias =
  al_call :: string
  al_org_id :: string
  al_ordinal :: nat
  al_call_id :: string

record fact_db =
  db_calls :: "inference_call list"
  db_decisions :: "developer_decision list"
  db_edits :: "edit_observation list"
  db_rejected :: "rejected_edit list"
  db_linkages :: "retry_linkage list"
  db_allocations :: "compute_allocation list"
  db_outcomes :: "ci_outcome list"
  db_pushes :: "push list"
  db_observations :: "session_commit_observation list"
  db_merges :: "pull_request_merge list"
  db_revisions :: "pull_request_revision list"
  db_renames :: "repository_rename list"
  db_aliases :: "call_alias list"
  db_sessions :: "(string \<times> string, session_record) fmap"
  db_quarantine :: "(int \<times> quarantine_record) list"

definition empty_db :: fact_db where
  "empty_db = \<lparr>db_calls = [], db_decisions = [], db_edits = [], db_rejected = [], db_linkages = [],
     db_allocations = [], db_outcomes = [], db_pushes = [], db_observations = [], db_merges = [],
     db_revisions = [], db_renames = [], db_aliases = [], db_sessions = fmempty, db_quarantine = []\<rparr>"

section \<open>Sessions\<close>

text \<open>\<open>ON CONFLICT (org_id, session_id) DO UPDATE\<close>: the bounds widen, and two different users leave none.\<close>

definition merge_session :: "session_record \<Rightarrow> session_record \<Rightarrow> session_record" where
  "merge_session old excluded =
     (let conflict = (se_user_id old \<noteq> None \<and> se_user_id excluded \<noteq> None \<and> se_user_id old \<noteq> se_user_id excluded)
      in \<lparr>se_user_id =
            (if se_user_id_conflict old then None
             else if se_user_id_conflict excluded then None
             else if conflict then None
             else if se_user_id old \<noteq> None then se_user_id old else se_user_id excluded),
          se_user_id_conflict = (se_user_id_conflict old \<or> se_user_id_conflict excluded \<or> conflict),
          se_first_observed_at = min (se_first_observed_at old) (se_first_observed_at excluded),
          se_last_observed_at = max (se_last_observed_at old) (se_last_observed_at excluded)\<rparr>)"

definition session_upsert_values ::
  "string \<times> string \<Rightarrow> session_record \<Rightarrow> (string \<times> string, session_record) fmap \<Rightarrow> (string \<times> string, session_record) fmap"
where
  "session_upsert_values key row sessions =
     fmupd key (case fmlookup sessions key of None \<Rightarrow> row | Some old \<Rightarrow> merge_session old row) sessions"

definition observed_session :: "string option \<Rightarrow> instant \<Rightarrow> session_record" where
  "observed_session user_id observed_at =
     \<lparr>se_user_id = user_id, se_user_id_conflict = False, se_first_observed_at = observed_at, se_last_observed_at = observed_at\<rparr>"

definition session_upsert ::
  "string \<Rightarrow> string \<Rightarrow> string option \<Rightarrow> instant \<Rightarrow> fact_db \<Rightarrow> fact_db" where
  "session_upsert org_id session_id user_id observed_at db =
     db\<lparr>db_sessions := session_upsert_values (org_id, session_id) (observed_session user_id observed_at) (db_sessions db)\<rparr>"

section \<open>Facts of a Session\<close>

definition call_aliases :: "inference_call \<Rightarrow> string list" where
  "call_aliases call = sorted_list_of_set (set (map part_id (inference_tool_calls call))
     \<union> (case ic_model_call_id call of None \<Rightarrow> {} | Some m \<Rightarrow> {m}))"

definition alias_rows :: "inference_call \<Rightarrow> call_alias list" where
  "alias_rows call = map (\<lambda>(ordinal, alias). \<lparr>al_call = ic_id call, al_org_id = ic_org_id call,
     al_ordinal = ordinal, al_call_id = alias\<rparr>) (enumerate 0 (call_aliases call))"

definition call_identity_match :: "inference_call \<Rightarrow> inference_call \<Rightarrow> bool" where
  "call_identity_match call row \<longleftrightarrow> ic_id row = ic_id call
     \<or> ic_model_call_id call \<noteq> None \<and> ic_org_id row = ic_org_id call
       \<and> ic_gateway_provider row = ic_gateway_provider call \<and> ic_model_call_id row = ic_model_call_id call"

text \<open>The receipt is the retained id and whether the row was inserted.\<close>

definition store_inference_call_receipt ::
  "(inference_call \<Rightarrow> inference_call) \<Rightarrow> inference_call \<Rightarrow> fact_db \<Rightarrow> (fact_db \<times> string \<times> bool) result" where
  "store_inference_call_receipt redact call db =
     (let call = redact call
      in case insert_or_nothing ic_id call_index call (db_calls db) of
           (rows, True) \<Rightarrow>
             let db = session_upsert (ic_org_id call) (ic_session_id call) (ic_user_id call) (ic_observed_at call)
                   (db\<lparr>db_calls := rows\<rparr>)
             in Inr (db\<lparr>db_aliases := db_aliases db @ alias_rows call\<rparr>, ic_id call, True)
         | (_, False) \<Rightarrow>
             (case filter (call_identity_match call) (db_calls db) of
                [row] \<Rightarrow>
                  if (ic_org_id row, ic_gateway_provider row, ic_model_call_id row)
                      \<noteq> (ic_org_id call, ic_gateway_provider call, ic_model_call_id call)
                  then Inl (ValueError ''Inference call identity conflicts with stored evidence'')
                  else Inr (db, ic_id row, False)
              | _ \<Rightarrow> Inl (ValueError ''Inference call identity conflicts with stored evidence'')))"

definition store_edit_observation ::
  "(edit_observation \<Rightarrow> edit_observation) \<Rightarrow> edit_observation \<Rightarrow> fact_db \<Rightarrow> fact_db \<times> bool" where
  "store_edit_observation redact observation db =
     (let observation = redact observation
      in case insert_or_nothing eo_id edit_index observation (db_edits db) of
           (rows, True) \<Rightarrow> (session_upsert (eo_org_id observation) (eo_session_id observation) (eo_user_id observation)
              (eo_captured_at observation) (db\<lparr>db_edits := rows\<rparr>), True)
         | (_, False) \<Rightarrow> (db, False))"

definition store_rejected_edit ::
  "(rejected_edit \<Rightarrow> rejected_edit) \<Rightarrow> rejected_edit \<Rightarrow> fact_db \<Rightarrow> fact_db \<times> bool" where
  "store_rejected_edit redact rejected db =
     (let rejected = redact rejected
      in case insert_or_nothing re_id rejected_index rejected (db_rejected db) of
           (rows, True) \<Rightarrow> (session_upsert (re_org_id rejected) (re_session_id rejected) (re_user_id rejected)
              (re_captured_at rejected) (db\<lparr>db_rejected := rows\<rparr>), True)
         | (_, False) \<Rightarrow> (db, False))"

definition store_retry_linkage ::
  "(retry_linkage \<Rightarrow> retry_linkage) \<Rightarrow> retry_linkage \<Rightarrow> fact_db \<Rightarrow> fact_db \<times> bool" where
  "store_retry_linkage redact linkage db =
     (let linkage = redact linkage
      in case insert_or_nothing rl_id linkage_index linkage (db_linkages db) of
           (rows, True) \<Rightarrow> (session_upsert (rl_org_id linkage) (rl_session_id linkage) (rl_user_id linkage)
              (rl_captured_at linkage) (db\<lparr>db_linkages := rows\<rparr>), True)
         | (_, False) \<Rightarrow> (db, False))"

definition allocation_content :: "compute_allocation \<Rightarrow> string \<times> string \<times> instant \<times> compute_allocation_source \<times> int \<times> int" where
  "allocation_content a = (ca_org_id a, ca_session_id a, ca_occurred_at a, ca_allocation_source a,
     the_default 0 (ca_cpu_millicores a), the_default 0 (ca_memory_bytes a))"

definition store_compute_allocation_receipt ::
  "compute_allocation \<Rightarrow> fact_db \<Rightarrow> (fact_db \<times> string \<times> bool) result" where
  "store_compute_allocation_receipt allocation db =
     (case insert_or_nothing ca_id allocation_index allocation (db_allocations db) of
        (rows, True) \<Rightarrow> Inr (session_upsert (ca_org_id allocation) (ca_session_id allocation) None
           (ca_captured_at allocation) (db\<lparr>db_allocations := rows\<rparr>), ca_id allocation, True)
      | (_, False) \<Rightarrow>
          (case filter (\<lambda>row. allocation_content row = allocation_content allocation) (db_allocations db) of
             [] \<Rightarrow> Inl (ValueError ''Compute allocation ID conflicts with a retained Fact'')
           | row # _ \<Rightarrow> Inr (db, ca_id row, False)))"

text \<open>The unique index admits one such row.\<close>

section \<open>Batches of decisions\<close>

text \<open>One statement inserts a chunk row by row; \<open>RETURNING\<close> gives the inserted ones, without their raw
  payload, and the walk over the chunk counts them down.\<close>

type_synonym decision_row_key = developer_decision

definition decision_row_key :: "developer_decision \<Rightarrow> decision_row_key" where
  "decision_row_key d = d\<lparr>dd_raw := []\<rparr>"

fun insert_chunk :: "developer_decision list \<Rightarrow> developer_decision list \<Rightarrow> developer_decision list \<times> decision_row_key list" where
  "insert_chunk [] rows = (rows, [])"
| "insert_chunk (d # ds) rows =
     (case insert_or_nothing dd_id decision_index d rows of
        (rows, did) \<Rightarrow> (case insert_chunk ds rows of
          (rows, returned) \<Rightarrow> (rows, if did then decision_row_key d # returned else returned)))"

fun match_returned :: "developer_decision list \<Rightarrow> decision_row_key list \<Rightarrow> bool list" where
  "match_returned [] returned = []"
| "match_returned (d # ds) returned =
     (let did_store = 0 < count_list returned (decision_row_key d)
      in did_store # match_returned ds (if did_store then remove1 (decision_row_key d) returned else returned))"

definition ROWS_PER_STATEMENT :: nat where
  "ROWS_PER_STATEMENT = 60000 div 16"

definition store_chunk :: "developer_decision list \<Rightarrow> developer_decision list \<times> bool list \<Rightarrow> developer_decision list \<times> bool list" where
  "store_chunk chunk = (\<lambda>(rows, stored).
     case insert_chunk chunk rows of (rows, returned) \<Rightarrow> (rows, stored @ match_returned chunk returned))"

text \<open>\<open>_session_metadata\<close>: one row per Session of the inserted decisions.\<close>

definition session_metadata :: "developer_decision list \<Rightarrow> ((string \<times> string) \<times> session_record) list" where
  "session_metadata decisions =
     map (\<lambda>key.
       let group = filter (\<lambda>d. (dd_org_id d, dd_session_id d) = key) decisions;
           identities = remdups (List.map_filter dd_user_id group)
       in (key, \<lparr>se_user_id = (case identities of [user] \<Rightarrow> Some user | _ \<Rightarrow> None),
             se_user_id_conflict = (1 < length identities),
             se_first_observed_at = Min (set (map dd_captured_at group)),
             se_last_observed_at = Max (set (map dd_captured_at group))\<rparr>))
       (sorted_list_of_set ((\<lambda>d. (dd_org_id d, dd_session_id d)) ` set decisions))"

definition store_decisions ::
  "(developer_decision \<Rightarrow> developer_decision) \<Rightarrow> developer_decision list \<Rightarrow> fact_db \<Rightarrow> fact_db \<times> bool list" where
  "store_decisions redact decisions db =
     (let redacted = map redact decisions
      in case fold store_chunk (chunks ROWS_PER_STATEMENT redacted) (db_decisions db, []) of
           (rows, stored) \<Rightarrow>
             (db\<lparr>db_decisions := rows,
                db_sessions := fold (\<lambda>(key, row). session_upsert_values key row)
                  (session_metadata (map fst (filter snd (zip redacted stored)))) (db_sessions db)\<rparr>, stored))"

definition store_decision ::
  "(developer_decision \<Rightarrow> developer_decision) \<Rightarrow> developer_decision \<Rightarrow> fact_db \<Rightarrow> fact_db \<times> bool" where
  "store_decision redact decision db = (case store_decisions redact [decision] db of (db, stored) \<Rightarrow> (db, hd stored))"

section \<open>Repository Facts\<close>

record 'f fact_receipt =
  fr_fact_id :: string
  fr_stored :: bool
  fr_fact :: 'f

abbreviation identity_conflict :: "py_error" where
  "identity_conflict \<equiv> ValueError ''repository Fact identity conflicts with retained evidence''"

text \<open>A declined row is looked up by its primary key and by its natural conditions, whatever its quarantine;
  the one row found must agree with the Fact in the fields that identify it.\<close>

definition repository_receipt ::
  "('f \<Rightarrow> string) \<Rightarrow> ('f \<Rightarrow> 'k option) \<Rightarrow> ('f \<Rightarrow> 'f \<Rightarrow> bool) \<Rightarrow> ('f \<Rightarrow> 'f \<Rightarrow> bool) \<Rightarrow> ('f \<Rightarrow> 'f result) \<Rightarrow> 'f \<Rightarrow> 'f list
   \<Rightarrow> ('f list \<times> 'f fact_receipt) result" where
  "repository_receipt pk ix natural agrees validate new rows =
     (case insert_or_nothing pk ix new rows of
        (rows, True) \<Rightarrow> Inr (rows, \<lparr>fr_fact_id = pk new, fr_stored = True, fr_fact = new\<rparr>)
      | (_, False) \<Rightarrow>
          (case filter (\<lambda>row. pk row = pk new \<or> natural new row) rows of
             [row] \<Rightarrow> bind_result (validate row) (\<lambda>retained.
               if \<not> agrees new retained then Inl identity_conflict
               else Inr (rows, \<lparr>fr_fact_id = pk retained, fr_stored = False, fr_fact = retained\<rparr>))
           | _ \<Rightarrow> Inl identity_conflict))"

text \<open>The conditions every repository Fact but a rename starts with.\<close>

definition same_repository :: "('a repository_fact_scheme \<Rightarrow> string) \<Rightarrow> 'a repository_fact_scheme \<Rightarrow> 'a repository_fact_scheme \<Rightarrow> bool" where
  "same_repository repo new row \<longleftrightarrow>
     (if rf_repository_id new = None then rf_repository_id row = None \<and> repo row = repo new
      else components row = components new \<and> rf_repository_id row \<noteq> None)"

definition same_identity :: "('a repository_fact_scheme \<Rightarrow> string) \<Rightarrow> 'a repository_fact_scheme \<Rightarrow> 'a repository_fact_scheme \<Rightarrow> bool" where
  "same_identity repo new retained \<longleftrightarrow> components new = components retained
     \<and> (rf_repository_id new = None \<longrightarrow> repo new = repo retained)"

definition outcome_natural :: "ci_outcome \<Rightarrow> ci_outcome \<Rightarrow> bool" where
  "outcome_natural new row \<longleftrightarrow> ci_org_id row = ci_org_id new
     \<and> (if rf_repository_id new = None then rf_repository_id row = None
        else rf_repository_provider row = rf_repository_provider new
          \<and> rf_repository_host row = rf_repository_host new \<and> rf_repository_id row \<noteq> None)
     \<and> ci_provider_of row = ci_provider_of new \<and> ci_run_id row = ci_run_id new
     \<and> the_default 0 (ci_run_attempt row) = the_default 0 (ci_run_attempt new)"

definition outcome_agrees :: "ci_outcome \<Rightarrow> ci_outcome \<Rightarrow> bool" where
  "outcome_agrees new retained \<longleftrightarrow> ci_org_id new = ci_org_id retained \<and> same_identity ci_repo new retained
     \<and> ci_provider_of new = ci_provider_of retained \<and> ci_run_id new = ci_run_id retained
     \<and> ci_run_attempt new = ci_run_attempt retained \<and> ci_commit_sha new = ci_commit_sha retained
     \<and> ci_workflow_id new = ci_workflow_id retained \<and> ci_workflow_path new = ci_workflow_path retained"

definition push_natural :: "push \<Rightarrow> push \<Rightarrow> bool" where
  "push_natural new row \<longleftrightarrow> pu_org_id row = pu_org_id new \<and> same_repository pu_repo new row
     \<and> pu_ref row = pu_ref new \<and> pu_before_sha row = pu_before_sha new \<and> pu_after_sha row = pu_after_sha new"

definition push_agrees :: "push \<Rightarrow> push \<Rightarrow> bool" where
  "push_agrees new retained \<longleftrightarrow> pu_org_id new = pu_org_id retained \<and> same_identity pu_repo new retained
     \<and> pu_provider new = pu_provider retained \<and> pu_ref new = pu_ref retained
     \<and> pu_before_sha new = pu_before_sha retained \<and> pu_after_sha new = pu_after_sha retained"

definition observation_natural :: "session_commit_observation \<Rightarrow> session_commit_observation \<Rightarrow> bool" where
  "observation_natural new row \<longleftrightarrow> sc_org_id row = sc_org_id new \<and> same_repository sc_repo new row
     \<and> sc_commit_sha row = sc_commit_sha new \<and> sc_session_id row = sc_session_id new"

definition observation_agrees :: "session_commit_observation \<Rightarrow> session_commit_observation \<Rightarrow> bool" where
  "observation_agrees new retained \<longleftrightarrow> sc_org_id new = sc_org_id retained \<and> same_identity sc_repo new retained
     \<and> sc_commit_sha new = sc_commit_sha retained \<and> sc_session_id new = sc_session_id retained"

definition head_natural :: "'a head_repository_fact_scheme \<Rightarrow> 'a head_repository_fact_scheme \<Rightarrow> bool" where
  "head_natural new row \<longleftrightarrow> hr_org_id row = hr_org_id new \<and> same_repository hr_repo new row
     \<and> hr_provider row = hr_provider new \<and> hr_pr_number row = hr_pr_number new"

definition head_agrees :: "'a head_repository_fact_scheme \<Rightarrow> 'a head_repository_fact_scheme \<Rightarrow> bool" where
  "head_agrees new retained \<longleftrightarrow> hr_org_id new = hr_org_id retained \<and> same_identity hr_repo new retained
     \<and> hr_provider new = hr_provider retained \<and> hr_pr_number new = hr_pr_number retained
     \<and> hr_head_sha new = hr_head_sha retained \<and> hr_base_sha new = hr_base_sha retained
     \<and> hr_head_repository_provider new = hr_head_repository_provider retained
     \<and> hr_head_repository_host new = hr_head_repository_host retained
     \<and> hr_head_repository_id new = hr_head_repository_id retained
     \<and> (hr_head_repository_id new = None \<longrightarrow> hr_head_repo new = hr_head_repo retained)"

definition merge_agrees :: "pull_request_merge \<Rightarrow> pull_request_merge \<Rightarrow> bool" where
  "merge_agrees new retained \<longleftrightarrow> head_agrees new retained \<and> pm_merge_commit_sha new = pm_merge_commit_sha retained"

definition revision_natural :: "pull_request_revision \<Rightarrow> pull_request_revision \<Rightarrow> bool" where
  "revision_natural new row \<longleftrightarrow> head_natural new row \<and> hr_head_sha row = hr_head_sha new \<and> hr_base_sha row = hr_base_sha new"

definition rename_natural :: "repository_rename \<Rightarrow> repository_rename \<Rightarrow> bool" where
  "rename_natural new row \<longleftrightarrow> rr_org_id row = rr_org_id new
     \<and> (if rr_source_event_id new = None then rr_id row = rr_id new
        else rr_repository_provider row = rr_repository_provider new
          \<and> rr_repository_host row = rr_repository_host new \<and> rr_source_event_id row = rr_source_event_id new)"

definition rename_agrees :: "repository_rename \<Rightarrow> repository_rename \<Rightarrow> bool" where
  "rename_agrees new retained \<longleftrightarrow> rr_org_id new = rr_org_id retained
     \<and> rr_repository_provider new = rr_repository_provider retained \<and> rr_repository_host new = rr_repository_host retained
     \<and> rr_repository_id new = rr_repository_id retained \<and> rr_old_repo new = rr_old_repo retained
     \<and> rr_new_repo new = rr_new_repo retained \<and> rr_source_event_id new = rr_source_event_id retained
     \<and> rr_occurred_at new = rr_occurred_at retained"

definition store_ci_outcome_receipt ::
  "(ci_outcome \<Rightarrow> ci_outcome) \<Rightarrow> ci_outcome \<Rightarrow> fact_db \<Rightarrow> (fact_db \<times> ci_outcome fact_receipt) result" where
  "store_ci_outcome_receipt redact outcome db =
     bind_result (repository_receipt ci_id outcome_index outcome_natural outcome_agrees validate_ci_outcome
         (redact outcome) (db_outcomes db))
       (\<lambda>(rows, receipt). Inr (db\<lparr>db_outcomes := rows\<rparr>, receipt))"

definition store_push_receipt :: "push \<Rightarrow> fact_db \<Rightarrow> (fact_db \<times> push fact_receipt) result" where
  "store_push_receipt push db =
     bind_result (repository_receipt pu_id push_index push_natural push_agrees validate_push push (db_pushes db))
       (\<lambda>(rows, receipt). Inr (db\<lparr>db_pushes := rows\<rparr>, receipt))"

definition store_pull_request_merge_receipt ::
  "pull_request_merge \<Rightarrow> fact_db \<Rightarrow> (fact_db \<times> pull_request_merge fact_receipt) result" where
  "store_pull_request_merge_receipt merge db =
     bind_result (repository_receipt pm_id merge_index head_natural merge_agrees validate_pull_request_merge
         merge (db_merges db))
       (\<lambda>(rows, receipt). Inr (db\<lparr>db_merges := rows\<rparr>, receipt))"

definition store_pull_request_revision_receipt ::
  "pull_request_revision \<Rightarrow> fact_db \<Rightarrow> (fact_db \<times> pull_request_revision fact_receipt) result" where
  "store_pull_request_revision_receipt revision db =
     bind_result (repository_receipt pv_id revision_index revision_natural head_agrees validate_pull_request_revision
         revision (db_revisions db))
       (\<lambda>(rows, receipt). Inr (db\<lparr>db_revisions := rows\<rparr>, receipt))"

definition store_repository_rename_receipt ::
  "repository_rename \<Rightarrow> fact_db \<Rightarrow> (fact_db \<times> repository_rename fact_receipt) result" where
  "store_repository_rename_receipt rename db =
     bind_result (repository_receipt rr_id rename_index rename_natural rename_agrees validate_repository_rename
         rename (db_renames db))
       (\<lambda>(rows, receipt). Inr (db\<lparr>db_renames := rows\<rparr>, receipt))"

text \<open>An identified observation needs its source Push, under the same identity.\<close>

definition store_session_commit_observation ::
  "session_commit_observation \<Rightarrow> fact_db \<Rightarrow> (fact_db \<times> bool) result" where
  "store_session_commit_observation observation db =
     (let source = find (\<lambda>p. pu_org_id p = sc_org_id observation \<and> pu_id p = sc_source_push_id observation) (db_pushes db)
      in if rf_repository_id observation \<noteq> None
            \<and> (case source of None \<Rightarrow> True | Some p \<Rightarrow> components p \<noteq> components observation)
         then Inl (ValueError ''observation source Push identity is absent or contradictory'')
         else
         bind_result (repository_receipt sc_id observation_index observation_natural observation_agrees
             validate_session_commit_observation observation (db_observations db))
           (\<lambda>(rows, receipt).
             let db = db\<lparr>db_observations := rows\<rparr>
             in Inr (if fr_stored receipt
                     then session_upsert (sc_org_id observation) (sc_session_id observation) None (sc_captured_at observation) db
                     else db, fr_stored receipt)))"

text \<open>\<open>read_stored_push_id\<close>, whose statement returns at most one row.\<close>

definition read_stored_push_id :: "push \<Rightarrow> fact_db \<Rightarrow> string option" where
  "read_stored_push_id push db = map_option pu_id (find (push_natural push) (db_pushes db))"

section \<open>Quarantine\<close>

text \<open>The log only grows; revisions ascend. The new record carries the id and the time that are generated
  for it, \<open>at_head\<close> tells whether the schema is the current one.\<close>

definition next_revision :: "fact_db \<Rightarrow> int" where
  "next_revision db = (if db_quarantine db = [] then 1 else fst (last (db_quarantine db)) + 1)"

fun enumerate_from :: "int \<Rightarrow> 'a list \<Rightarrow> (int \<times> 'a) list" where
  "enumerate_from n [] = []"
| "enumerate_from n (x # xs) = (n, x) # enumerate_from (n + 1) xs"

definition append_quarantine :: "bool \<Rightarrow> quarantine_record \<Rightarrow> fact_db \<Rightarrow> fact_db result" where
  "append_quarantine at_head record db =
     (if \<not> at_head then Inl (RuntimeError ''the database schema is not at head'')
      else bind_result (validate_quarantine_record record) (\<lambda>record.
        Inr (db\<lparr>db_quarantine := db_quarantine db @ [(next_revision db, record)]\<rparr>)))"

definition quarantine_fact ::
  "bool \<Rightarrow> string \<Rightarrow> instant \<Rightarrow> string \<Rightarrow> fact_table \<Rightarrow> string \<Rightarrow> string \<Rightarrow> fact_db \<Rightarrow> fact_db result" where
  "quarantine_fact at_head new_id now org_id fact_table fact_id reason =
     append_quarantine at_head \<lparr>qr_id = new_id, qr_org_id = org_id, qr_fact_table = fact_table, qr_fact_id = fact_id,
       qr_action = QUARANTINE, qr_reason = reason, qr_recorded_at = now\<rparr>"

definition release_fact ::
  "bool \<Rightarrow> string \<Rightarrow> instant \<Rightarrow> string \<Rightarrow> fact_table \<Rightarrow> string \<Rightarrow> string \<Rightarrow> fact_db \<Rightarrow> fact_db result" where
  "release_fact at_head new_id now org_id fact_table fact_id reason =
     append_quarantine at_head \<lparr>qr_id = new_id, qr_org_id = org_id, qr_fact_table = fact_table, qr_fact_id = fact_id,
       qr_action = RELEASE, qr_reason = reason, qr_recorded_at = now\<rparr>"

text \<open>\<open>quarantine_inference_calls_where\<close>: one record per matching call, in the order of their ids as the
  database collates them.\<close>

definition quarantine_inference_calls_where ::
  "bool \<Rightarrow> (string \<Rightarrow> string) \<Rightarrow> (string \<Rightarrow> string) \<Rightarrow> (string \<Rightarrow> instant) \<Rightarrow> string \<Rightarrow> (instant \<times> instant) option
   \<Rightarrow> string option \<Rightarrow> gateway_provider option \<Rightarrow> string \<Rightarrow> bool \<Rightarrow> fact_db \<Rightarrow> (fact_db \<times> nat) result" where
  "quarantine_inference_calls_where at_head collate new_id now org_id captured_between session_id provider reason dry_run db =
     (let record = (\<lambda>fact_id. \<lparr>qr_id = new_id fact_id, qr_org_id = org_id, qr_fact_table = INFERENCE_CALLS,
            qr_fact_id = fact_id, qr_action = QUARANTINE, qr_reason = reason, qr_recorded_at = now fact_id\<rparr>)
      in
      bind_result (validate_quarantine_record (record ''bulk-validation'')) (\<lambda>_.
      if \<not> dry_run \<and> \<not> at_head then Inl (RuntimeError ''the database schema is not at head'')
      else
        let fact_ids = sort_key collate (map ic_id (filter (\<lambda>c. ic_org_id c = org_id
              \<and> (case captured_between of None \<Rightarrow> True
                 | Some (lower, upper) \<Rightarrow> lower \<le> ic_observed_at c \<and> ic_observed_at c \<le> upper)
              \<and> (case session_id of None \<Rightarrow> True | Some s \<Rightarrow> ic_session_id c = s)
              \<and> (case provider of None \<Rightarrow> True | Some p \<Rightarrow> ic_gateway_provider c = p)) (db_calls db)))
        in if dry_run \<or> fact_ids = [] then Inr (db, length fact_ids)
           else bind_result (v_map (validate_quarantine_record \<circ> record) fact_ids) (\<lambda>records.
             Inr (db\<lparr>db_quarantine := db_quarantine db @ enumerate_from (next_revision db) records\<rparr>, length fact_ids))))"

end
