(* ===== verification/Fact_Reads.thy ===== *)
theory Fact_Reads
  imports Fact_Store
begin

text \<open>
  The read operations of \<open>store.py\<close>. Every default read sees the Facts of one organization whose latest
  quarantine action is not \<open>quarantine\<close>. \<open>collate\<close> is the sort key the database's collation gives a text.
\<close>

section \<open>Visibility\<close>

text \<open>The latest action on a Fact, by revision.\<close>

definition latest_action ::
  "(int \<times> quarantine_record) list \<Rightarrow> string \<Rightarrow> fact_table \<Rightarrow> string \<Rightarrow> quarantine_action option" where
  "latest_action entries org_id fact_table fact_id =
     (case filter (\<lambda>(revision, q). qr_org_id q = org_id \<and> qr_fact_table q = fact_table \<and> qr_fact_id q = fact_id) entries of
        [] \<Rightarrow> None
      | found \<Rightarrow> Some (qr_action (snd (last (sort_key fst found)))))"

text \<open>\<open>_fact_conditions\<close>\<close>

definition fact_conditions ::
  "fact_db \<Rightarrow> string \<Rightarrow> fact_table \<Rightarrow> ('f \<Rightarrow> string) \<Rightarrow> ('f \<Rightarrow> string) \<Rightarrow> bool \<Rightarrow> 'f \<Rightarrow> bool" where
  "fact_conditions db org_id fact_table org pk include_quarantined f \<longleftrightarrow> org f = org_id
     \<and> (include_quarantined \<or> latest_action (db_quarantine db) org_id fact_table (pk f) \<noteq> Some QUARANTINE)"

definition read_quarantine_log :: "fact_db \<Rightarrow> string \<Rightarrow> quarantine_record list result" where
  "read_quarantine_log db org_id =
     v_map validate_quarantine_record (map snd (sort_key fst (filter (\<lambda>(revision, q). qr_org_id q = org_id) (db_quarantine db))))"

definition quarantine_revision :: "fact_db \<Rightarrow> string \<Rightarrow> int" where
  "quarantine_revision db org_id =
     (case filter (\<lambda>(revision, q). qr_org_id q = org_id) (db_quarantine db) of
        [] \<Rightarrow> 0 | entries \<Rightarrow> Max (set (map fst entries)))"

section \<open>Filters and limits\<close>

definition in_filter :: "'a set option \<Rightarrow> 'a \<Rightarrow> bool" where
  "in_filter keys x = (case keys of None \<Rightarrow> True | Some keys \<Rightarrow> x \<in> keys)"

text \<open>A \<open>NULL\<close> is in no list.\<close>

definition in_null_filter :: "'a set option \<Rightarrow> 'a option \<Rightarrow> bool" where
  "in_null_filter keys x = (case keys of None \<Rightarrow> True | Some keys \<Rightarrow> (case x of None \<Rightarrow> False | Some x \<Rightarrow> x \<in> keys))"

definition through :: "instant option \<Rightarrow> instant \<Rightarrow> bool" where
  "through bound t = (case bound of None \<Rightarrow> True | Some bound \<Rightarrow> t \<le> bound)"

definition validate_bounded_fact_read :: "int option \<Rightarrow> string \<Rightarrow> unit result" where
  "validate_bounded_fact_read limit label =
     (case limit of None \<Rightarrow> Inr () | Some n \<Rightarrow> if n \<le> 0 then Inl (ValueError (label @ '' limit must be positive'')) else Inr ())"

definition bounded_fact_rows :: "int option \<Rightarrow> string \<Rightarrow> 'f list \<Rightarrow> 'f list result" where
  "bounded_fact_rows limit label rows =
     (case limit of
        None \<Rightarrow> Inr rows
      | Some n \<Rightarrow>
          let rows = take (nat (n + 1)) rows
          in if int (length rows) > n then Inl (LimitExceeded (label @ '' cohort exceeds its limit'')) else Inr rows)"

definition COMPOSITE_FILTER_KEY_LIMIT :: nat where
  "COMPOSITE_FILTER_KEY_LIMIT = 30000"

definition REPOSITORY_FILTER_KEY_LIMIT :: nat where
  "REPOSITORY_FILTER_KEY_LIMIT = 15000"

text \<open>The adapters of the qualified keys; a value is a commit hash or a pull request number.\<close>

fun validate_read_key :: "read_key \<Rightarrow> read_key result" where
  "validate_read_key (SlugRead repo) = map_sum id SlugRead (RequiredRepoSlug repo)"
| "validate_read_key (IdentityRead provider host repository_id) =
     bind_result (ForgeHost host) (\<lambda>host. bind_result (ProviderRepositoryId repository_id) (\<lambda>repository_id.
       Inr (IdentityRead provider host repository_id)))"

definition validate_qualified_key :: "('v \<Rightarrow> 'v result) \<Rightarrow> read_key \<times> 'v \<Rightarrow> (read_key \<times> 'v) result" where
  "validate_qualified_key validate_value = (\<lambda>(key, v).
     case validate_read_key key of
       Inl _ \<Rightarrow> Inl (ValueError ''invalid qualified repository filter'')
     | Inr key \<Rightarrow>
        (case validate_value v of
           Inl _ \<Rightarrow> Inl (ValueError ''invalid qualified repository filter'')
         | Inr v \<Rightarrow> Inr (key, v)))"

fun read_key_matches :: "('f \<Rightarrow> string) \<Rightarrow> ('f \<Rightarrow> forge_provider option \<times> string option \<times> string option) \<Rightarrow> read_key \<Rightarrow> 'f \<Rightarrow> bool" where
  "read_key_matches repo parts (SlugRead slug) f \<longleftrightarrow> snd (snd (parts f)) = None \<and> repo f = slug"
| "read_key_matches repo parts (IdentityRead provider host repository_id) f \<longleftrightarrow>
     parts f = (Some provider, Some host, Some repository_id)"

definition is_slug :: "read_key \<times> 'v \<Rightarrow> bool" where
  "is_slug key = (case fst key of SlugRead _ \<Rightarrow> True | IdentityRead _ _ _ \<Rightarrow> False)"

text \<open>\<open>_repository_composite_condition\<close>: the filter as a predicate on rows. The key sets are lists without
  repetitions.\<close>

definition repository_composite_condition ::
  "('f \<Rightarrow> string) \<Rightarrow> ('f \<Rightarrow> forge_provider option \<times> string option \<times> string option) \<Rightarrow> ('f \<Rightarrow> 'v) \<Rightarrow> ('v \<Rightarrow> 'v result)
   \<Rightarrow> (string \<times> 'v) list option \<Rightarrow> (read_key \<times> 'v) list option \<Rightarrow> nat \<Rightarrow> ('f \<Rightarrow> bool) result" where
  "repository_composite_condition repo parts val validate_value literal_keys qualified_keys extra_bindings =
     (if literal_keys \<noteq> None \<and> qualified_keys \<noteq> None
      then Inl (ValueError ''literal and qualified repository filters cannot be combined'')
      else case qualified_keys of
        None \<Rightarrow>
          (case literal_keys of
             None \<Rightarrow> Inr (\<lambda>f. True)
           | Some keys \<Rightarrow>
               if length keys > COMPOSITE_FILTER_KEY_LIMIT then Inl (LimitExceeded ''composite filter exceeds 30000 keys'')
               else if 2 * length keys + extra_bindings > 60000
               then Inl (LimitExceeded ''Repository filter exceeds parameter bound'')
               else Inr (\<lambda>f. (repo f, val f) \<in> set keys))
      | Some keys \<Rightarrow>
          if length keys > REPOSITORY_FILTER_KEY_LIMIT then Inl (LimitExceeded ''Repository filter exceeds 15000 keys'')
          else bind_result (v_map (validate_qualified_key validate_value) keys) (\<lambda>keys.
            let legacy = set (filter is_slug keys); identified = set (filter (\<lambda>k. \<not> is_slug k) keys)
            in if 2 * card legacy + 4 * card identified + extra_bindings > 60000
               then Inl (LimitExceeded ''Repository filter exceeds parameter bound'')
               else Inr (\<lambda>f. list_ex (\<lambda>(key, v). read_key_matches repo parts key f \<and> val f = v) keys)))"

section \<open>Facts of a Session\<close>

abbreviation read_page ::
  "fact_db \<Rightarrow> string \<Rightarrow> fact_table \<Rightarrow> ('f \<Rightarrow> string) \<Rightarrow> ('f \<Rightarrow> string) \<Rightarrow> bool \<Rightarrow> ('f \<Rightarrow> bool) \<Rightarrow> ('f \<Rightarrow> 'k :: linorder) \<Rightarrow> 'f list \<Rightarrow> 'f list"
where
  "read_page db org_id fact_table org pk include_quarantined condition key rows \<equiv>
     sort_key key (filter (\<lambda>f. fact_conditions db org_id fact_table org pk include_quarantined f \<and> condition f) rows)"

definition read_inference_calls ::
  "(string \<Rightarrow> string) \<Rightarrow> fact_db \<Rightarrow> string \<Rightarrow> bool \<Rightarrow> string set option \<Rightarrow> instant option \<Rightarrow> inference_call list result" where
  "read_inference_calls collate db org_id include_quarantined inference_call_ids observed_after =
     v_map validate_inference_call
       (read_page db org_id INFERENCE_CALLS ic_org_id ic_id include_quarantined
         (\<lambda>c. in_filter inference_call_ids (ic_id c)
            \<and> (case observed_after of None \<Rightarrow> True | Some t \<Rightarrow> t \<le> ic_observed_at c))
         (\<lambda>c. (ic_observed_at c, collate (ic_id c))) (db_calls db))"

definition read_decisions ::
  "(string \<Rightarrow> string) \<Rightarrow> fact_db \<Rightarrow> string \<Rightarrow> bool \<Rightarrow> string set option \<Rightarrow> instant option \<Rightarrow> string set option
   \<Rightarrow> string set option \<Rightarrow> int option \<Rightarrow> developer_decision list result" where
  "read_decisions collate db org_id include_quarantined decision_ids captured_through session_ids call_ids limit =
     bind_result (validate_bounded_fact_read limit ''Developer decision'') (\<lambda>_.
     if session_ids = Some {} \<or> call_ids = Some {} then Inr []
     else bind_result (bounded_fact_rows limit ''Developer decision''
         (read_page db org_id DEVELOPER_DECISIONS dd_org_id dd_id include_quarantined
           (\<lambda>d. in_filter decision_ids (dd_id d) \<and> through captured_through (dd_captured_at d)
              \<and> in_filter session_ids (dd_session_id d) \<and> in_null_filter call_ids (dd_call_id d))
           (\<lambda>d. (dd_occurred_at d, collate (dd_id d))) (db_decisions db)))
       (v_map validate_developer_decision))"

definition read_edit_observations ::
  "(string \<Rightarrow> string) \<Rightarrow> fact_db \<Rightarrow> string \<Rightarrow> bool \<Rightarrow> instant option \<Rightarrow> string set option \<Rightarrow> string set option \<Rightarrow> int option
   \<Rightarrow> edit_observation list result" where
  "read_edit_observations collate db org_id include_quarantined captured_through session_ids call_ids limit =
     bind_result (validate_bounded_fact_read limit ''Edit observation'') (\<lambda>_.
     if session_ids = Some {} \<or> call_ids = Some {} then Inr []
     else bind_result (bounded_fact_rows limit ''Edit observation''
         (read_page db org_id EDIT_OBSERVATIONS eo_org_id eo_id include_quarantined
           (\<lambda>e. through captured_through (eo_captured_at e) \<and> in_filter session_ids (eo_session_id e)
              \<and> in_filter call_ids (eo_call_id e))
           (\<lambda>e. (eo_occurred_at e, collate (eo_id e))) (db_edits db)))
       (v_map validate_edit_observation))"

definition read_rejected_edits ::
  "(string \<Rightarrow> string) \<Rightarrow> fact_db \<Rightarrow> string \<Rightarrow> bool \<Rightarrow> rejected_edit list result" where
  "read_rejected_edits collate db org_id include_quarantined =
     v_map validate_rejected_edit
       (read_page db org_id REJECTED_EDITS re_org_id re_id include_quarantined (\<lambda>e. True)
         (\<lambda>e. (re_occurred_at e, collate (re_id e))) (db_rejected db))"

definition read_retry_linkages ::
  "(string \<Rightarrow> string) \<Rightarrow> fact_db \<Rightarrow> string \<Rightarrow> bool \<Rightarrow> instant option \<Rightarrow> string set option \<Rightarrow> int option
   \<Rightarrow> retry_linkage list result" where
  "read_retry_linkages collate db org_id include_quarantined captured_through session_ids limit =
     bind_result (validate_bounded_fact_read limit ''Retry linkage'') (\<lambda>_.
     if session_ids = Some {} then Inr []
     else bind_result (bounded_fact_rows limit ''Retry linkage''
         (read_page db org_id RETRY_LINKAGES rl_org_id rl_id include_quarantined
           (\<lambda>l. through captured_through (rl_captured_at l) \<and> in_filter session_ids (rl_session_id l))
           (\<lambda>l. (rl_occurred_at l, collate (rl_id l))) (db_linkages db)))
       (v_map validate_retry_linkage))"

definition read_compute_allocations ::
  "(string \<Rightarrow> string) \<Rightarrow> fact_db \<Rightarrow> string \<Rightarrow> bool \<Rightarrow> instant option \<Rightarrow> string set option \<Rightarrow> int option
   \<Rightarrow> compute_allocation list result" where
  "read_compute_allocations collate db org_id include_quarantined captured_through session_ids limit =
     bind_result (validate_bounded_fact_read limit ''Compute allocation'') (\<lambda>_.
     if session_ids = Some {} then Inr []
     else bind_result (bounded_fact_rows limit ''Compute allocation''
         (read_page db org_id COMPUTE_ALLOCATIONS ca_org_id ca_id include_quarantined
           (\<lambda>a. through captured_through (ca_captured_at a) \<and> in_filter session_ids (ca_session_id a))
           (\<lambda>a. (collate (ca_session_id a), ca_occurred_at a, collate (ca_id a))) (db_allocations db)))
       (v_map validate_compute_allocation))"

section \<open>Repository Facts\<close>

text \<open>A commit hash filter is normalized first.\<close>

definition commit_filter :: "string option \<Rightarrow> string option result" where
  "commit_filter commit_sha =
     (case commit_sha of None \<Rightarrow> Inr None | Some sha \<Rightarrow> map_sum id Some (normalize_commit_sha sha))"

definition commit_condition :: "string option \<Rightarrow> string \<Rightarrow> bool" where
  "commit_condition commit_sha sha = (case commit_sha of None \<Rightarrow> True | Some c \<Rightarrow> sha = c)"

definition filter_size :: "'a set option \<Rightarrow> nat" where
  "filter_size keys = (case keys of None \<Rightarrow> 0 | Some keys \<Rightarrow> card keys)"

definition read_ci_outcomes ::
  "(string \<Rightarrow> string) \<Rightarrow> fact_db \<Rightarrow> string \<Rightarrow> bool \<Rightarrow> string set option \<Rightarrow> instant option \<Rightarrow> string option
   \<Rightarrow> (string \<times> string) list option \<Rightarrow> (read_key \<times> string) list option \<Rightarrow> int option \<Rightarrow> ci_outcome list result" where
  "read_ci_outcomes collate db org_id include_quarantined outcome_ids captured_through commit_sha repo_commits
      repository_commits limit =
     bind_result (validate_bounded_fact_read limit ''CI outcome'') (\<lambda>_.
     bind_result (repository_composite_condition ci_repo components ci_commit_sha normalize_commit_sha repo_commits
         repository_commits (filter_size outcome_ids + (if commit_sha \<noteq> None then 1 else 0))) (\<lambda>condition.
     bind_result (commit_filter commit_sha) (\<lambda>commit_sha.
     bind_result (bounded_fact_rows limit ''CI outcome''
         (read_page db org_id CI_OUTCOMES ci_org_id ci_id include_quarantined
           (\<lambda>c. in_filter outcome_ids (ci_id c) \<and> through captured_through (ci_captured_at c)
              \<and> commit_condition commit_sha (ci_commit_sha c) \<and> condition c)
           (\<lambda>c. (ci_captured_at c, collate (ci_id c))) (db_outcomes db)))
       (v_map validate_ci_outcome))))"

definition read_pushes ::
  "(string \<Rightarrow> string) \<Rightarrow> fact_db \<Rightarrow> string \<Rightarrow> bool \<Rightarrow> (instant \<times> instant) option \<Rightarrow> (read_key \<times> string) list option
   \<Rightarrow> instant option \<Rightarrow> int option \<Rightarrow> push list result" where
  "read_pushes collate db org_id include_quarantined captured_between repository_commits captured_through limit =
     bind_result (validate_bounded_fact_read limit ''Push cohort'') (\<lambda>_.
     bind_result (repository_composite_condition pu_repo components pu_after_sha normalize_commit_sha None
         repository_commits 0) (\<lambda>condition.
     if (case captured_between of None \<Rightarrow> False | Some (lower, upper) \<Rightarrow> upper \<le> lower)
     then Inl (ValueError ''captured_between lower bound must precede upper bound'')
     else
     bind_result (bounded_fact_rows limit ''Push''
         (read_page db org_id PUSHES pu_org_id pu_id include_quarantined
           (\<lambda>p. condition p \<and> through captured_through (pu_captured_at p)
              \<and> (case captured_between of None \<Rightarrow> True
                 | Some (lower, upper) \<Rightarrow> lower \<le> pu_captured_at p \<and> pu_captured_at p < upper))
           (\<lambda>p. (pu_captured_at p, collate (pu_id p))) (db_pushes db)))
       (v_map validate_push)))"

definition read_session_commit_observations ::
  "(string \<Rightarrow> string) \<Rightarrow> fact_db \<Rightarrow> string \<Rightarrow> bool \<Rightarrow> instant option \<Rightarrow> string option \<Rightarrow> (string \<times> string) list option
   \<Rightarrow> (read_key \<times> string) list option \<Rightarrow> string set option \<Rightarrow> int option \<Rightarrow> session_commit_observation list result" where
  "read_session_commit_observations collate db org_id include_quarantined as_of commit_sha repo_commits
      repository_commits session_ids limit =
     bind_result (validate_bounded_fact_read limit ''Session commit observation'') (\<lambda>_.
     bind_result (repository_composite_condition sc_repo components sc_commit_sha normalize_commit_sha repo_commits
         repository_commits (filter_size session_ids + (if commit_sha \<noteq> None then 1 else 0))) (\<lambda>condition.
     bind_result (commit_filter commit_sha) (\<lambda>commit_sha.
     bind_result (bounded_fact_rows limit ''Session commit observation''
         (read_page db org_id SESSION_COMMIT_OBSERVATIONS sc_org_id sc_id include_quarantined
           (\<lambda>s. through as_of (sc_captured_at s) \<and> commit_condition commit_sha (sc_commit_sha s) \<and> condition s
              \<and> in_filter session_ids (sc_session_id s))
           (\<lambda>s. (sc_captured_at s, collate (sc_repo s), collate (sc_commit_sha s), collate (sc_session_id s), collate (sc_id s)))
           (db_observations db)))
       (v_map validate_session_commit_observation))))"

text \<open>A pull request number of a qualified key is a positive 64-bit integer.\<close>

definition validate_pr_number :: "int \<Rightarrow> int result" where
  "validate_pr_number n = (if 1 \<le> n \<and> n \<le> 2 ^ 63 - 1 then Inr n else Inl (ValueError ''pull request number''))"

definition read_pull_request_merges ::
  "(string \<Rightarrow> string) \<Rightarrow> fact_db \<Rightarrow> string \<Rightarrow> bool \<Rightarrow> instant option \<Rightarrow> instant option \<Rightarrow> (string \<times> int) list option
   \<Rightarrow> (read_key \<times> int) list option \<Rightarrow> int option \<Rightarrow> pull_request_merge list result" where
  "read_pull_request_merges collate db org_id include_quarantined captured_through merged_through repo_prs
      repository_prs limit =
     bind_result (validate_bounded_fact_read limit ''Pull request merge'') (\<lambda>_.
     bind_result (repository_composite_condition hr_repo components hr_pr_number validate_pr_number repo_prs
         repository_prs 0) (\<lambda>condition.
     bind_result (bounded_fact_rows limit ''Pull request merge''
         (read_page db org_id PULL_REQUEST_MERGES hr_org_id pm_id include_quarantined
           (\<lambda>m. through captured_through (hr_captured_at m) \<and> through merged_through (pm_merged_at m) \<and> condition m)
           (\<lambda>m. (pm_merged_at m, collate (hr_repo m), hr_pr_number m, collate (pm_id m))) (db_merges db)))
       (v_map validate_pull_request_merge)))"

definition read_pull_request_revisions ::
  "(string \<Rightarrow> string) \<Rightarrow> fact_db \<Rightarrow> string \<Rightarrow> bool \<Rightarrow> instant option \<Rightarrow> (string \<times> int) list option
   \<Rightarrow> (read_key \<times> int) list option \<Rightarrow> int option \<Rightarrow> pull_request_revision list result" where
  "read_pull_request_revisions collate db org_id include_quarantined captured_through repo_prs repository_prs limit =
     bind_result (validate_bounded_fact_read limit ''Pull request revision'') (\<lambda>_.
     bind_result (repository_composite_condition hr_repo components hr_pr_number validate_pr_number repo_prs
         repository_prs 0) (\<lambda>condition.
     bind_result (bounded_fact_rows limit ''Pull request revision''
         (read_page db org_id PULL_REQUEST_REVISIONS hr_org_id pv_id include_quarantined
           (\<lambda>v. through captured_through (hr_captured_at v) \<and> condition v)
           (\<lambda>v. (collate (hr_repo v), hr_pr_number v, collate (hr_head_sha v), collate (hr_base_sha v), collate (pv_id v)))
           (db_revisions db)))
       (v_map validate_pull_request_revision)))"

definition read_repository_renames ::
  "(string \<Rightarrow> string) \<Rightarrow> fact_db \<Rightarrow> string \<Rightarrow> bool \<Rightarrow> instant option \<Rightarrow> int option \<Rightarrow> repository_rename list result" where
  "read_repository_renames collate db org_id include_quarantined captured_through limit =
     (let limit = the_default (int REPOSITORY_IDENTITY_LIMIT) limit
      in if \<not> (1 \<le> limit \<and> limit \<le> int REPOSITORY_IDENTITY_LIMIT)
         then Inl (ValueError ''repository evidence limit must be 1..50000'')
         else bind_result (bounded_fact_rows (Some limit) ''Repository rename''
             (read_page db org_id REPOSITORY_RENAMES rr_org_id rr_id include_quarantined
               (\<lambda>r. through captured_through (rr_captured_at r))
               (\<lambda>r. (rr_captured_at r, collate (rr_id r))) (db_renames db)))
           (v_map validate_repository_rename))"

section \<open>Narrow reads\<close>

text \<open>The byte budget of a projection: the octets of the encoded content columns of a row.\<close>

definition INFERENCE_CALL_ROW_BYTES_LIMIT :: int where
  "INFERENCE_CALL_ROW_BYTES_LIMIT = 64 * 1024 * 1024"

definition INFERENCE_PROJECTION_BYTES_LIMIT :: int where
  "INFERENCE_PROJECTION_BYTES_LIMIT = 256 * 1024 * 1024"

definition check_inference_payload_budget ::
  "(inference_call \<Rightarrow> int) \<Rightarrow> string \<Rightarrow> int option \<Rightarrow> int option \<Rightarrow> inference_call list \<Rightarrow> unit result" where
  "check_inference_payload_budget encoded_bytes label limit total_bytes_limit rows =
     (if (case limit of None \<Rightarrow> False | Some n \<Rightarrow> int (length rows) > n) then Inl (LimitExceeded (label @ '' exceeds its limit''))
      else if list_ex (\<lambda>c. encoded_bytes c > INFERENCE_CALL_ROW_BYTES_LIMIT) rows
      then Inl (LimitExceeded (label @ '' row exceeds its encoded content bytes''))
      else if (case total_bytes_limit of None \<Rightarrow> False | Some n \<Rightarrow> rows \<noteq> [] \<and> sum_list (map encoded_bytes rows) > n)
      then Inl (LimitExceeded (label @ '' exceeds its encoded content bytes''))
      else Inr ())"

text \<open>\<open>_validated_identity_filter\<close>: the requested ids, given without repetitions.\<close>

definition validated_identity_filter :: "string list \<Rightarrow> string set result" where
  "validated_identity_filter identifiers =
     (if length identifiers > COMPOSITE_FILTER_KEY_LIMIT
      then Inl (LimitExceeded ''Inference call identity filter exceeds 30000 keys'')
      else map_sum id set (v_map NonEmptyId identifiers))"

definition optional_identity_filter :: "string list option \<Rightarrow> string set option result" where
  "optional_identity_filter identifiers =
     (case identifiers of None \<Rightarrow> Inr None | Some ids \<Rightarrow> map_sum id Some (validated_identity_filter ids))"

definition limited :: "int option \<Rightarrow> 'f list \<Rightarrow> 'f list" where
  "limited limit rows = (case limit of None \<Rightarrow> rows | Some n \<Rightarrow> take (nat (n + 1)) rows)"

definition summary_of :: "inference_call \<Rightarrow> call_summary" where
  "summary_of c = \<lparr>cs_id = ic_id c, cs_session_id = ic_session_id c, cs_observed_at = ic_observed_at c\<rparr>"

definition read_inference_call_summaries ::
  "(string \<Rightarrow> string) \<Rightarrow> fact_db \<Rightarrow> string \<Rightarrow> (instant \<times> instant) option \<Rightarrow> string list option \<Rightarrow> string list option
   \<Rightarrow> int option \<Rightarrow> call_summary list result" where
  "read_inference_call_summaries collate db org_id observed_between inference_call_ids session_ids limit =
     bind_result (validate_bounded_fact_read limit ''Inference call cohort'') (\<lambda>_.
     bind_result (optional_identity_filter inference_call_ids) (\<lambda>selected_ids.
     bind_result (optional_identity_filter session_ids) (\<lambda>selected_sessions.
     if (case observed_between of None \<Rightarrow> False | Some (lower, upper) \<Rightarrow> upper \<le> lower)
     then Inl (ValueError ''observed_between lower bound must precede upper bound'')
     else
     bind_result (bounded_fact_rows limit ''Inference call''
         (read_page db org_id INFERENCE_CALLS ic_org_id ic_id False
           (\<lambda>c. in_filter selected_ids (ic_id c) \<and> in_filter selected_sessions (ic_session_id c)
              \<and> (case observed_between of None \<Rightarrow> True
                 | Some (lower, upper) \<Rightarrow> lower \<le> ic_observed_at c \<and> ic_observed_at c < upper))
           (\<lambda>c. (ic_observed_at c, collate (ic_id c))) (db_calls db)))
       (\<lambda>rows. Inr (map summary_of rows)))))"

text \<open>\<open>_messages\<close>: the messages of a stored row are validated again.\<close>

definition identity_of_row :: "inference_call \<Rightarrow> inference_call_identity result" where
  "identity_of_row c =
     bind_result (v_map validate_message (ic_output_messages c)) (\<lambda>messages.
       Inr \<lparr>ii_id = ic_id c, ii_org_id = ic_org_id c, ii_session_id = ic_session_id c, ii_observed_at = ic_observed_at c,
         ii_call_ids = call_aliases (c\<lparr>ic_output_messages := messages\<rparr>)\<rparr>)"

definition read_inference_call_identities ::
  "(string \<Rightarrow> string) \<Rightarrow> (inference_call \<Rightarrow> int) \<Rightarrow> fact_db \<Rightarrow> string \<Rightarrow> instant \<Rightarrow> int \<Rightarrow> inference_call_identity list result"
where
  "read_inference_call_identities collate output_bytes db org_id observed_through limit =
     bind_result (validate_bounded_fact_read (Some limit) ''Inference call identity'') (\<lambda>_.
       let rows = limited (Some limit) (read_page db org_id INFERENCE_CALLS ic_org_id ic_id False
             (\<lambda>c. ic_observed_at c \<le> observed_through) (\<lambda>c. (ic_observed_at c, collate (ic_id c))) (db_calls db))
       in bind_result (check_inference_payload_budget output_bytes ''Inference call identity population'' (Some limit) None rows)
            (\<lambda>_. v_map identity_of_row rows))"

text \<open>\<open>read_inference_call_identity_witnesses\<close> by the alias table: at most two owners of each requested id.\<close>

definition alias_owners ::
  "(string \<Rightarrow> string) \<Rightarrow> fact_db \<Rightarrow> string \<Rightarrow> instant \<Rightarrow> string \<Rightarrow> inference_call list" where
  "alias_owners collate db org_id observed_through call_id =
     take 2 (sort_key (\<lambda>c. collate (ic_id c)) (filter (\<lambda>c.
        list_ex (\<lambda>a. al_call a = ic_id c \<and> al_org_id a = org_id \<and> al_call_id a = call_id) (db_aliases db)
        \<and> fact_conditions db org_id INFERENCE_CALLS ic_org_id ic_id False c \<and> ic_observed_at c \<le> observed_through)
      (db_calls db)))"

definition read_inference_call_identity_witnesses ::
  "(string \<Rightarrow> string) \<Rightarrow> fact_db \<Rightarrow> string \<Rightarrow> string list \<Rightarrow> instant \<Rightarrow> inference_call_identity list result" where
  "read_inference_call_identity_witnesses collate db org_id call_ids observed_through =
     bind_result (OrgId org_id) (\<lambda>org_id.
     bind_result (validated_identity_filter call_ids) (\<lambda>identifiers.
     bind_result (as_utc observed_through) (\<lambda>observed_through.
       let identifiers = sorted_list_of_set identifiers;
           owned = concat (map (\<lambda>call_id. map (\<lambda>c. (c, call_id)) (alias_owners collate db org_id observed_through call_id)) identifiers)
       in Inr (sort_key (\<lambda>i. (ii_observed_at i, ii_id i))
            (map (\<lambda>c. \<lparr>ii_id = ic_id c, ii_org_id = ic_org_id c, ii_session_id = ic_session_id c,
                 ii_observed_at = ic_observed_at c,
                 ii_call_ids = sorted_list_of_set (set (map snd (filter (\<lambda>(c', _). ic_id c' = ic_id c) owned)))\<rparr>)
              (remdups (map fst owned)))))))"

section \<open>Pushes for retention and attribution\<close>

definition gc_row :: "push \<Rightarrow> push_gc_row" where
  "gc_row p = \<lparr>pg_repo = pu_repo p, pg_captured_at = pu_captured_at p, pg_repository_provider = rf_repository_provider p,
     pg_repository_host = rf_repository_host p, pg_repository_id = rf_repository_id p\<rparr>"

definition after_cursor :: "('f \<Rightarrow> 'k :: linorder) \<Rightarrow> 'k option \<Rightarrow> 'f \<Rightarrow> bool" where
  "after_cursor key cursor f = (case cursor of None \<Rightarrow> True | Some c \<Rightarrow> c < key f)"

text \<open>One query per page, after the last row of the page before; the snapshot answers all of them.\<close>

function iter_pages :: "('f \<Rightarrow> 'k :: linorder) \<Rightarrow> nat \<Rightarrow> 'f list \<Rightarrow> 'k option \<Rightarrow> 'f list" where
  "iter_pages key batch_size rows cursor =
     (let page = take batch_size (sort_key key (filter (after_cursor key cursor) rows))
      in if page = [] then [] else page @ iter_pages key batch_size rows (Some (key (last page))))"
  by pat_completeness auto
termination
proof (relation "measure (\<lambda>(key, n, rows, cursor). length (filter (after_cursor key cursor) rows))")
  fix key :: "'f \<Rightarrow> 'k :: linorder" and n rows cursor page
  assume page: "page = take n (sort_key key (filter (after_cursor key cursor) rows))" "page \<noteq> []"
  have "set page \<subseteq> set (filter (after_cursor key cursor) rows)"
    using set_take_subset[of n "sort_key key (filter (after_cursor key cursor) rows)"] page(1) by auto
  then have l: "last page \<in> set (filter (after_cursor key cursor) rows)" using page(2) by (meson last_in_set subsetD)
  have "filter (after_cursor key (Some (key (last page)))) rows
      = filter (\<lambda>f. key (last page) < key f) (filter (after_cursor key cursor) rows)"
    using l by (auto simp: after_cursor_def filter_filter intro!: filter_cong split: option.splits)
  moreover have "length (filter (\<lambda>f. key (last page) < key f) (filter (after_cursor key cursor) rows))
      < length (filter (after_cursor key cursor) rows)"
    by (rule length_filter_less[OF l]) simp
  ultimately show "((key, n, rows, Some (key (last page))), key, n, rows, cursor)
      \<in> measure (\<lambda>(key, n, rows, cursor). length (filter (after_cursor key cursor) rows))" by simp
qed simp

declare iter_pages.simps [simp del]

definition iter_push_gc_rows :: "(string \<Rightarrow> string) \<Rightarrow> fact_db \<Rightarrow> string \<Rightarrow> int \<Rightarrow> push_gc_row list result" where
  "iter_push_gc_rows collate db org_id batch_size =
     (if batch_size < 1 then Inl (ValueError ''batch_size must be at least 1'')
      else Inr (map gc_row (iter_pages (\<lambda>p. (pu_captured_at p, collate (pu_id p))) (nat batch_size)
         (filter (fact_conditions db org_id PUSHES pu_org_id pu_id False) (db_pushes db)) None)))"

text \<open>Here the collation is \<open>C\<close>.\<close>

definition iter_attribution_pushes :: "fact_db \<Rightarrow> string \<Rightarrow> instant \<Rightarrow> read_key \<Rightarrow> push list result" where
  "iter_attribution_pushes db org_id captured_through repository_key =
     bind_result (OrgId org_id) (\<lambda>org_id.
       case validate_read_key repository_key of
         Inl _ \<Rightarrow> Inl (ValueError ''invalid repository selector'')
       | Inr key \<Rightarrow> Inr (read_page db org_id PUSHES pu_org_id pu_id False
           (\<lambda>p. pu_captured_at p \<le> captured_through \<and> read_key_matches pu_repo components key p)
           (\<lambda>p. (pu_captured_at p, pu_id p)) (db_pushes db)))"

section \<open>Identity evidence\<close>

text \<open>The evidence of the visible Facts, table by table; \<open>spelled\<close> is how the driver spells an instant.\<close>

definition visible_evidence ::
  "(string \<Rightarrow> string) \<Rightarrow> (instant \<Rightarrow> spelling) \<Rightarrow> fact_db \<Rightarrow> string \<Rightarrow> instant \<Rightarrow> fact_table \<Rightarrow> repository_role
   \<Rightarrow> ('f \<Rightarrow> string) \<Rightarrow> ('f \<Rightarrow> string) \<Rightarrow> ('f \<Rightarrow> instant) \<Rightarrow> ('f \<Rightarrow> repository_source) \<Rightarrow> 'f list \<Rightarrow> identity_evidence result list"
where
  "visible_evidence collate spelled db org_id captured_through fact_table role org pk captured_at source rows =
     map (\<lambda>f. project_fact (source f) (spelled (captured_at f)) role)
       (read_page db org_id fact_table org pk False (\<lambda>f. captured_at f \<le> captured_through)
         (\<lambda>f. (captured_at f, collate (pk f))) rows)"

definition REPOSITORY_SOURCE_ROLES :: "(fact_table \<times> repository_role) list" where
  "REPOSITORY_SOURCE_ROLES = [(PUSHES, REPO), (CI_OUTCOMES, REPO), (SESSION_COMMIT_OBSERVATIONS, REPO),
     (PULL_REQUEST_MERGES, REPO), (PULL_REQUEST_MERGES, HEAD_REPO), (PULL_REQUEST_REVISIONS, REPO),
     (PULL_REQUEST_REVISIONS, HEAD_REPO)]"

fun source_evidence ::
  "(string \<Rightarrow> string) \<Rightarrow> (instant \<Rightarrow> spelling) \<Rightarrow> fact_db \<Rightarrow> string \<Rightarrow> instant \<Rightarrow> fact_table \<times> repository_role
   \<Rightarrow> identity_evidence result list" where
  "source_evidence collate spelled db org_id t (PUSHES, role) =
     visible_evidence collate spelled db org_id t PUSHES role pu_org_id pu_id pu_captured_at PushFact (db_pushes db)"
| "source_evidence collate spelled db org_id t (CI_OUTCOMES, role) =
     visible_evidence collate spelled db org_id t CI_OUTCOMES role ci_org_id ci_id ci_captured_at CIFact (db_outcomes db)"
| "source_evidence collate spelled db org_id t (SESSION_COMMIT_OBSERVATIONS, role) =
     visible_evidence collate spelled db org_id t SESSION_COMMIT_OBSERVATIONS role sc_org_id sc_id sc_captured_at
       ObservationFact (db_observations db)"
| "source_evidence collate spelled db org_id t (PULL_REQUEST_MERGES, role) =
     visible_evidence collate spelled db org_id t PULL_REQUEST_MERGES role hr_org_id pm_id hr_captured_at MergeFact
       (db_merges db)"
| "source_evidence collate spelled db org_id t (PULL_REQUEST_REVISIONS, role) =
     visible_evidence collate spelled db org_id t PULL_REQUEST_REVISIONS role hr_org_id pv_id hr_captured_at RevisionFact
       (db_revisions db)"
| "source_evidence collate spelled db org_id t (_, role) = []"

definition repository_population ::
  "(string \<Rightarrow> string) \<Rightarrow> (instant \<Rightarrow> spelling) \<Rightarrow> fact_db \<Rightarrow> string \<Rightarrow> instant \<Rightarrow> identity_evidence result list" where
  "repository_population collate spelled db org_id t = concat (map (source_evidence collate spelled db org_id t) REPOSITORY_SOURCE_ROLES)"

definition read_repository_identities ::
  "(string \<Rightarrow> string) \<Rightarrow> (instant \<Rightarrow> spelling) \<Rightarrow> fact_db \<Rightarrow> string \<Rightarrow> instant \<Rightarrow> int \<Rightarrow> identity_evidence list result" where
  "read_repository_identities collate spelled db org_id captured_through limit =
     (if \<not> (1 \<le> limit \<and> limit \<le> int REPOSITORY_IDENTITY_LIMIT)
      then Inl (ValueError ''repository evidence limit must be 1..50000'')
      else
      let population = repository_population collate spelled db org_id captured_through
      in bind_result (v_map id (take (nat (limit + 1)) population)) (\<lambda>rows.
           if int (length population) > limit then Inl (LimitExceeded ''Repository identity population exceeds its limit'')
           else Inr (sort_key evidence_sort_key rows)))"

section \<open>Sessions and counts\<close>

text \<open>The Sessions of an organization, by their first observation.\<close>

definition read_sessions :: "(string \<Rightarrow> string) \<Rightarrow> fact_db \<Rightarrow> string \<Rightarrow> (string \<times> session_record) list" where
  "read_sessions collate db org_id =
     sort_key (\<lambda>(session_id, s). (se_first_observed_at s, collate session_id))
       (map (\<lambda>key. (snd key, the (fmlookup (db_sessions db) key)))
         (sorted_list_of_set (Set.filter (\<lambda>key. fst key = org_id) (fmdom' (db_sessions db)))))"

definition count_visible ::
  "fact_db \<Rightarrow> string \<Rightarrow> fact_table \<Rightarrow> ('f \<Rightarrow> string) \<Rightarrow> ('f \<Rightarrow> string) \<Rightarrow> bool \<Rightarrow> 'f list \<Rightarrow> nat" where
  "count_visible db org_id fact_table org pk include_quarantined rows =
     length (filter (fact_conditions db org_id fact_table org pk include_quarantined) rows)"

fun count_facts :: "fact_db \<Rightarrow> string \<Rightarrow> fact_table \<Rightarrow> bool \<Rightarrow> nat" where
  "count_facts db org_id INFERENCE_CALLS q = count_visible db org_id INFERENCE_CALLS ic_org_id ic_id q (db_calls db)"
| "count_facts db org_id DEVELOPER_DECISIONS q = count_visible db org_id DEVELOPER_DECISIONS dd_org_id dd_id q (db_decisions db)"
| "count_facts db org_id EDIT_OBSERVATIONS q = count_visible db org_id EDIT_OBSERVATIONS eo_org_id eo_id q (db_edits db)"
| "count_facts db org_id REJECTED_EDITS q = count_visible db org_id REJECTED_EDITS re_org_id re_id q (db_rejected db)"
| "count_facts db org_id RETRY_LINKAGES q = count_visible db org_id RETRY_LINKAGES rl_org_id rl_id q (db_linkages db)"
| "count_facts db org_id COMPUTE_ALLOCATIONS q = count_visible db org_id COMPUTE_ALLOCATIONS ca_org_id ca_id q (db_allocations db)"
| "count_facts db org_id CI_OUTCOMES q = count_visible db org_id CI_OUTCOMES ci_org_id ci_id q (db_outcomes db)"
| "count_facts db org_id PUSHES q = count_visible db org_id PUSHES pu_org_id pu_id q (db_pushes db)"
| "count_facts db org_id SESSION_COMMIT_OBSERVATIONS q =
     count_visible db org_id SESSION_COMMIT_OBSERVATIONS sc_org_id sc_id q (db_observations db)"
| "count_facts db org_id PULL_REQUEST_MERGES q = count_visible db org_id PULL_REQUEST_MERGES hr_org_id pm_id q (db_merges db)"
| "count_facts db org_id PULL_REQUEST_REVISIONS q = count_visible db org_id PULL_REQUEST_REVISIONS hr_org_id pv_id q (db_revisions db)"
| "count_facts db org_id REPOSITORY_RENAMES q = count_visible db org_id REPOSITORY_RENAMES rr_org_id rr_id q (db_renames db)"

end
