(* ===== verification/Store_Laws.thy ===== *)
theory Store_Laws
  imports Fact_Reads
begin

text \<open>
  What the store promises. Tables only grow and keep their unique keys; a declined insertion finds the row
  that took its key; the Sessions are the summary of the Facts stored for them.
\<close>

section \<open>Tables\<close>

definition table_ok :: "('f \<Rightarrow> string) \<Rightarrow> ('f \<Rightarrow> 'k option) \<Rightarrow> 'f list \<Rightarrow> bool" where
  "table_ok pk ix rows \<longleftrightarrow> sorted_wrt (\<lambda>f g. \<not> index_conflict pk ix f g) rows"

lemma index_conflict_sym: "index_conflict pk ix f g \<longleftrightarrow> index_conflict pk ix g f"
  unfolding index_conflict_def by metis

lemma index_conflict_refl [simp]: "index_conflict pk ix f f"
  by (simp add: index_conflict_def)

lemma table_ok_Nil [simp]: "table_ok pk ix []"
  by (simp add: table_ok_def)

lemma table_ok_snoc: "table_ok pk ix (rows @ [f]) \<longleftrightarrow> table_ok pk ix rows \<and> (\<forall>g\<in>set rows. \<not> index_conflict pk ix f g)"
  using index_conflict_sym[of pk ix f] by (auto simp: table_ok_def sorted_wrt_append)

lemma insert_cases:
  assumes "insert_or_nothing pk ix f rows = (rows', inserted)"
  obtains (inserted) "inserted" "rows' = rows @ [f]" "\<And>g. g \<in> set rows \<Longrightarrow> \<not> index_conflict pk ix f g"
  | (declined) g where "\<not> inserted" "rows' = rows" "g \<in> set rows" "index_conflict pk ix f g"
  using assms by (auto simp: insert_or_nothing_def list_ex_iff split: if_splits)

lemma insert_ok: "insert_or_nothing pk ix f rows = (rows', inserted) \<Longrightarrow> table_ok pk ix rows \<Longrightarrow> table_ok pk ix rows'"
  by (elim insert_cases) (simp_all add: table_ok_snoc)

lemma table_ok_unique:
  assumes "table_ok pk ix rows" "f \<in> set rows" "g \<in> set rows" "index_conflict pk ix f g"
  shows "f = g"
  using assms(1-3)
proof (induction rows)
  case (Cons h rows)
  then show ?case using assms(4) index_conflict_sym[of pk ix f g] by (auto simp: table_ok_def)
qed simp

section \<open>Receipts of repository Facts\<close>

definition wholly_qualified :: "'a repository_fact_scheme \<Rightarrow> bool" where
  "wholly_qualified f \<longleftrightarrow> components f = (None, None, None) \<or> identified f \<noteq> None"

text \<open>The specification of a receipt, by the rows whose key is taken: none, one that agrees, or a conflict.\<close>

definition receipt_by_index ::
  "('f \<Rightarrow> string) \<Rightarrow> ('f \<Rightarrow> 'k option) \<Rightarrow> ('f \<Rightarrow> 'f \<Rightarrow> bool) \<Rightarrow> 'f \<Rightarrow> 'f list \<Rightarrow> ('f list \<times> 'f fact_receipt) result" where
  "receipt_by_index pk ix agrees f rows =
     (case filter (index_conflict pk ix f) rows of
        [] \<Rightarrow> Inr (rows @ [f], \<lparr>fr_fact_id = pk f, fr_stored = True, fr_fact = f\<rparr>)
      | [g] \<Rightarrow> if agrees f g then Inr (rows, \<lparr>fr_fact_id = pk g, fr_stored = False, fr_fact = g\<rparr>) else Inl identity_conflict
      | _ \<Rightarrow> Inl identity_conflict)"

text \<open>What the conflict lookup relies on: it finds exactly the rows whose key is taken.\<close>

locale receipt_table =
  fixes pk :: "'f \<Rightarrow> string" and ix :: "'f \<Rightarrow> 'k option" and natural agrees :: "'f \<Rightarrow> 'f \<Rightarrow> bool"
    and validate :: "'f \<Rightarrow> 'f result" and whole :: "'f \<Rightarrow> bool"
  assumes lookup: "whole f \<Longrightarrow> whole g \<Longrightarrow> pk g = pk f \<or> natural f g \<longleftrightarrow> index_conflict pk ix f g"
    and agrees_refl: "agrees f f"
    and validated_whole: "validate f = Inr g \<Longrightarrow> whole g"
begin

abbreviation receipt where "receipt \<equiv> repository_receipt pk ix natural agrees validate"

lemma receipt_eq:
  assumes "validate f = Inr f" "\<forall>g\<in>set rows. validate g = Inr g"
  shows "receipt f rows = receipt_by_index pk ix agrees f rows"
proof (cases "list_ex (index_conflict pk ix f) rows")
  case False
  then have "filter (index_conflict pk ix f) rows = []" by (auto simp: list_ex_iff filter_empty_conv)
  then show ?thesis using False by (simp add: repository_receipt_def insert_or_nothing_def receipt_by_index_def)
next
  case True
  have w: "whole f" "\<And>g. g \<in> set rows \<Longrightarrow> whole g" using validated_whole assms by blast+
  have "filter (\<lambda>h. pk h = pk f \<or> natural f h) rows = filter (index_conflict pk ix f) rows"
    using lookup[OF w(1) w(2)] by (intro filter_cong) auto
  moreover have "filter (index_conflict pk ix f) rows \<noteq> []" using True by (auto simp: list_ex_iff filter_empty_conv)
  moreover have "validate g = Inr g" if "filter (index_conflict pk ix f) rows = g # gs" for g gs
    using assms(2) that by (metis filter_is_subset list.set_intros(1) subsetD)
  ultimately show ?thesis using True
    by (auto simp: repository_receipt_def insert_or_nothing_def receipt_by_index_def split: list.splits)
qed

text \<open>Delivering a Fact again changes nothing and names the same Fact.\<close>

lemma receipt_twice:
  assumes "validate f = Inr f" "\<forall>g\<in>set rows. validate g = Inr g" "receipt f rows = Inr (rows', r)"
  shows "receipt f rows' = Inr (rows', r\<lparr>fr_stored := False\<rparr>)"
proof -
  consider (inserted) "filter (index_conflict pk ix f) rows = []" "rows' = rows @ [f]" "r = \<lparr>fr_fact_id = pk f, fr_stored = True, fr_fact = f\<rparr>"
    | (named) "rows' = rows" "\<not> fr_stored r"
    using assms(3) unfolding receipt_eq[OF assms(1,2)] receipt_by_index_def by (auto split: list.splits if_splits)
  then show ?thesis
  proof cases
    case inserted
    then show ?thesis using receipt_eq[OF assms(1), of rows'] assms(1,2) agrees_refl by (simp add: receipt_by_index_def)
  next
    case named
    then have "r\<lparr>fr_stored := False\<rparr> = r" by (cases r) simp
    then show ?thesis using named assms(3) by simp
  qed
qed

end

section \<open>The repository tables\<close>

lemma v_all_append: "v_all (fs @ gs) r = Inr r' \<longleftrightarrow> (\<exists>s. v_all fs r = Inr s \<and> v_all gs s = Inr r')"
  by (induction fs arbitrary: r) (auto elim!: bind_result_Inr)

lemma components_ok_qualified:
  "repository_components_ok v forge (rf_repository_provider f) (rf_repository_host f) (rf_repository_id f) \<Longrightarrow> wholly_qualified f"
  by (auto simp: repository_components_ok_def wholly_qualified_def components_def identified_def Let_def split: option.splits)

text \<open>The last checks of a validator leave a Fact with all three components or none.\<close>

lemma validated_last: "v_all fs r = Inr f \<Longrightarrow> fs \<noteq> [] \<Longrightarrow> last fs = v_require P msg \<Longrightarrow> P f"
  using v_all_append[of "butlast fs" "[last fs]" r f] append_butlast_last_id[of fs] by (auto simp: v_require_Inr)

lemma validated_qualified:
  assumes "v_all fs r = Inr f" "fs \<noteq> []" "last fs = require_repository_components forge"
  shows "wholly_qualified f"
  using validated_last[OF assms(1,2) assms(3)[unfolded require_repository_components_def]]
  by (rule components_ok_qualified)

lemma split_index_eq:
  assumes "wholly_qualified f" "wholly_qualified g" "\<And>c d. key' c = key d \<longleftrightarrow> c = d \<and> rest"
  shows "split_index g legacy' key' \<noteq> None \<and> split_index g legacy' key' = split_index f legacy key \<longleftrightarrow>
    (if rf_repository_id f = None then rf_repository_id g = None \<and> legacy' = legacy
     else components g = components f \<and> rf_repository_id g \<noteq> None \<and> rest)"
  using assms(1,2)
  by (auto simp: assms(3) split_index_def wholly_qualified_def components_def identified_def split: option.splits)

interpretation pushes: receipt_table pu_id push_index push_natural push_agrees validate_push wholly_qualified
proof unfold_locales
  fix f g :: push assume "wholly_qualified f" "wholly_qualified g"
  then show "pu_id g = pu_id f \<or> push_natural f g \<longleftrightarrow> index_conflict pu_id push_index f g"
    unfolding index_conflict_def push_index_def
    by (subst split_index_eq[where rest = "pu_org_id g = pu_org_id f \<and> pu_ref g = pu_ref f
          \<and> pu_before_sha g = pu_before_sha f \<and> pu_after_sha g = pu_after_sha f"])
      (auto simp: push_natural_def same_repository_def)
next
  show "wholly_qualified g" if "validate_push f = Inr g" for f g
    using validated_qualified[OF that[unfolded validate_push_def]] by simp
qed (simp add: push_agrees_def same_identity_def)

lemma validated_qualified2:
  assumes "v_all fs r = Inr f" "butlast fs \<noteq> []" "last (butlast fs) = require_repository_components forge"
    and "last fs = v_require P msg"
  shows "wholly_qualified f"
proof -
  have "fs \<noteq> []" using assms(2) by auto
  then have "v_all (butlast fs @ [v_require P msg]) r = Inr f" using assms(1,4) append_butlast_last_id[of fs] by simp
  then have "v_all (butlast fs) r = Inr f" by (auto simp: v_all_append v_require_Inr)
  from validated_qualified[OF this assms(2,3)] show ?thesis .
qed

interpretation outcomes: receipt_table ci_id outcome_index outcome_natural outcome_agrees validate_ci_outcome wholly_qualified
proof unfold_locales
  fix f g :: ci_outcome assume "wholly_qualified f" "wholly_qualified g"
  then show "ci_id g = ci_id f \<or> outcome_natural f g \<longleftrightarrow> index_conflict ci_id outcome_index f g"
    by (auto simp: index_conflict_def outcome_index_def outcome_natural_def split_index_def wholly_qualified_def
        components_def identified_def Let_def split: option.splits)
next
  show "wholly_qualified g" if "validate_ci_outcome f = Inr g" for f g
    using validated_qualified[OF that[unfolded validate_ci_outcome_def]] by simp
qed (simp add: outcome_agrees_def same_identity_def)

interpretation observations: receipt_table sc_id observation_index observation_natural observation_agrees
  validate_session_commit_observation wholly_qualified
proof unfold_locales
  fix f g :: session_commit_observation assume "wholly_qualified f" "wholly_qualified g"
  then show "sc_id g = sc_id f \<or> observation_natural f g \<longleftrightarrow> index_conflict sc_id observation_index f g"
    unfolding index_conflict_def observation_index_def
    by (subst split_index_eq[where rest = "sc_org_id g = sc_org_id f \<and> sc_commit_sha g = sc_commit_sha f
          \<and> sc_session_id g = sc_session_id f"])
      (auto simp: observation_natural_def same_repository_def)
next
  show "wholly_qualified g" if "validate_session_commit_observation f = Inr g" for f g
    using validated_qualified[OF that[unfolded validate_session_commit_observation_def]] by simp
qed (simp add: observation_agrees_def same_identity_def)

interpretation merges: receipt_table pm_id merge_index head_natural merge_agrees validate_pull_request_merge wholly_qualified
proof unfold_locales
  fix f g :: pull_request_merge assume "wholly_qualified f" "wholly_qualified g"
  then show "pm_id g = pm_id f \<or> head_natural f g \<longleftrightarrow> index_conflict pm_id merge_index f g"
    unfolding index_conflict_def merge_index_def
    by (subst split_index_eq[where rest = "hr_org_id g = hr_org_id f \<and> hr_pr_number g = hr_pr_number f"])
      (auto simp: head_natural_def same_repository_def intro: forge_provider_eq)
next
  show "wholly_qualified g" if "validate_pull_request_merge f = Inr g" for f g
    using validated_qualified2[OF that[unfolded validate_pull_request_merge_def]]
    by (simp add: require_head_repository_components_def butlast_append)
qed (simp add: merge_agrees_def head_agrees_def same_identity_def)

interpretation revisions: receipt_table pv_id revision_index revision_natural head_agrees validate_pull_request_revision
  wholly_qualified
proof unfold_locales
  fix f g :: pull_request_revision assume "wholly_qualified f" "wholly_qualified g"
  then show "pv_id g = pv_id f \<or> revision_natural f g \<longleftrightarrow> index_conflict pv_id revision_index f g"
    unfolding index_conflict_def revision_index_def
    by (subst split_index_eq[where rest = "hr_org_id g = hr_org_id f \<and> hr_pr_number g = hr_pr_number f
          \<and> hr_head_sha g = hr_head_sha f \<and> hr_base_sha g = hr_base_sha f"])
      (auto simp: revision_natural_def head_natural_def same_repository_def intro: forge_provider_eq)
next
  show "wholly_qualified g" if "validate_pull_request_revision f = Inr g" for f g
    using validated_qualified2[OF that[unfolded validate_pull_request_revision_def]]
    by (simp add: require_head_repository_components_def butlast_append)
qed (simp add: head_agrees_def same_identity_def)

interpretation renames: receipt_table rr_id rename_index rename_natural rename_agrees validate_repository_rename "\<lambda>r. True"
proof unfold_locales
  fix f g :: repository_rename
  show "rr_id g = rr_id f \<or> rename_natural f g \<longleftrightarrow> index_conflict rr_id rename_index f g"
    by (auto simp: index_conflict_def rename_index_def rename_natural_def)
qed (simp_all add: rename_agrees_def)

end
