(* ===== verification/Store_Steps.thy ===== *)
theory Store_Steps
  imports Store_Laws "HOL-Library.Sublist"
begin

text \<open>
  The operations of the store as steps of the database, and the invariant they keep: every row is a valid
  Fact, no two rows share a key, the aliases are those of the stored calls, an identified observation names
  a stored Push of its repository, and the revisions of the quarantine log ascend.
\<close>

section \<open>The steps\<close>

text \<open>A step is one committed call. The Facts are validated when they are built; where the store redacts a
  Fact first, the redacted one is.\<close>

inductive store_step :: "fact_db \<Rightarrow> fact_db \<Rightarrow> bool" where
  call_step: "store_step db db'"
    if "store_inference_call_receipt redact f db = Inr (db', r)" "validate_inference_call (redact f) = Inr (redact f)"
| decisions_step: "store_step db db'"
    if "store_decisions redact fs db = (db', r)" "\<forall>f\<in>set fs. validate_developer_decision (redact f) = Inr (redact f)"
| edit_step: "store_step db db'"
    if "store_edit_observation redact f db = (db', r)" "validate_edit_observation (redact f) = Inr (redact f)"
| rejected_step: "store_step db db'"
    if "store_rejected_edit redact f db = (db', r)" "validate_rejected_edit (redact f) = Inr (redact f)"
| linkage_step: "store_step db db'"
    if "store_retry_linkage redact f db = (db', r)" "validate_retry_linkage (redact f) = Inr (redact f)"
| allocation_step: "store_step db db'"
    if "store_compute_allocation_receipt f db = Inr (db', r)" "validate_compute_allocation f = Inr f"
| outcome_step: "store_step db db'"
    if "store_ci_outcome_receipt redact f db = Inr (db', r)" "validate_ci_outcome (redact f) = Inr (redact f)"
| push_step: "store_step db db'"
    if "store_push_receipt f db = Inr (db', r)" "validate_push f = Inr f"
| observation_step: "store_step db db'"
    if "store_session_commit_observation f db = Inr (db', r)" "validate_session_commit_observation f = Inr f"
| merge_step: "store_step db db'"
    if "store_pull_request_merge_receipt f db = Inr (db', r)" "validate_pull_request_merge f = Inr f"
| revision_step: "store_step db db'"
    if "store_pull_request_revision_receipt f db = Inr (db', r)" "validate_pull_request_revision f = Inr f"
| rename_step: "store_step db db'"
    if "store_repository_rename_receipt f db = Inr (db', r)" "validate_repository_rename f = Inr f"
| quarantine_step: "store_step db db'"
    if "append_quarantine at_head q db = Inr db'"
| bulk_step: "store_step db db'"
    if "quarantine_inference_calls_where at_head collate new_id now org_id between session provider reason dry_run db = Inr (db', n)"

definition reachable :: "fact_db \<Rightarrow> bool" where
  "reachable db \<longleftrightarrow> store_step\<^sup>*\<^sup>* empty_db db"

section \<open>What a step changes\<close>

text \<open>The row is inserted together with what goes with it, or nothing changes.\<close>

lemma receipt_change:
  "repository_receipt pk ix natural agrees validate f rows = Inr (rows', r)
   \<Longrightarrow> rows' = rows \<and> \<not> fr_stored r
     \<or> rows' = rows @ [f] \<and> fr_stored r \<and> insert_or_nothing pk ix f rows = (rows @ [f], True)"
  by (auto simp: repository_receipt_def insert_or_nothing_def split: if_splits list.splits elim!: bind_result_Inr)

lemma insert_declined: "insert_or_nothing pk ix f rows = (rows', False) \<Longrightarrow> rows' = rows"
  by (simp add: insert_or_nothing_def split: if_splits)

lemma insert_inserted: "insert_or_nothing pk ix f rows = (rows', True) \<Longrightarrow> rows' = rows @ [f]"
  by (simp add: insert_or_nothing_def split: if_splits)

lemma call_change:
  assumes "store_inference_call_receipt redact f db = Inr (db', r)"
  obtains "db' = db"
  | "insert_or_nothing ic_id call_index (redact f) (db_calls db) = (db_calls db @ [redact f], True)"
    "db' = (session_upsert (ic_org_id (redact f)) (ic_session_id (redact f)) (ic_user_id (redact f))
        (ic_observed_at (redact f)) db)\<lparr>db_calls := db_calls db @ [redact f], db_aliases := db_aliases db @ alias_rows (redact f)\<rparr>"
  using assms by (auto simp: store_inference_call_receipt_def session_upsert_def Let_def
    split: prod.splits bool.splits list.splits if_splits dest: insert_inserted)

lemma edit_change:
  assumes "store_edit_observation redact f db = (db', r)"
  obtains "db' = db"
  | "insert_or_nothing eo_id edit_index (redact f) (db_edits db) = (db_edits db @ [redact f], True)"
    "db' = (session_upsert (eo_org_id (redact f)) (eo_session_id (redact f)) (eo_user_id (redact f))
        (eo_captured_at (redact f)) db)\<lparr>db_edits := db_edits db @ [redact f]\<rparr>"
  using assms by (auto simp: store_edit_observation_def session_upsert_def Let_def
    split: prod.splits bool.splits dest: insert_inserted)

lemma rejected_change:
  assumes "store_rejected_edit redact f db = (db', r)"
  obtains "db' = db"
  | "insert_or_nothing re_id rejected_index (redact f) (db_rejected db) = (db_rejected db @ [redact f], True)"
    "db' = (session_upsert (re_org_id (redact f)) (re_session_id (redact f)) (re_user_id (redact f))
        (re_captured_at (redact f)) db)\<lparr>db_rejected := db_rejected db @ [redact f]\<rparr>"
  using assms by (auto simp: store_rejected_edit_def session_upsert_def Let_def
    split: prod.splits bool.splits dest: insert_inserted)

lemma linkage_change:
  assumes "store_retry_linkage redact f db = (db', r)"
  obtains "db' = db"
  | "insert_or_nothing rl_id linkage_index (redact f) (db_linkages db) = (db_linkages db @ [redact f], True)"
    "db' = (session_upsert (rl_org_id (redact f)) (rl_session_id (redact f)) (rl_user_id (redact f))
        (rl_captured_at (redact f)) db)\<lparr>db_linkages := db_linkages db @ [redact f]\<rparr>"
  using assms by (auto simp: store_retry_linkage_def session_upsert_def Let_def
    split: prod.splits bool.splits dest: insert_inserted)

lemma allocation_change:
  assumes "store_compute_allocation_receipt f db = Inr (db', r)"
  obtains "db' = db"
  | "insert_or_nothing ca_id allocation_index f (db_allocations db) = (db_allocations db @ [f], True)"
    "db' = (session_upsert (ca_org_id f) (ca_session_id f) None (ca_captured_at f) db)
        \<lparr>db_allocations := db_allocations db @ [f]\<rparr>"
  using assms by (auto simp: store_compute_allocation_receipt_def session_upsert_def Let_def
    split: prod.splits bool.splits list.splits dest: insert_inserted)

text \<open>The tables of repository Facts have no Session; an observation has one.\<close>

lemma outcome_change:
  assumes "store_ci_outcome_receipt redact f db = Inr (db', r)"
  obtains "db' = db"
  | "insert_or_nothing ci_id outcome_index (redact f) (db_outcomes db) = (db_outcomes db @ [redact f], True)"
    "db' = db\<lparr>db_outcomes := db_outcomes db @ [redact f]\<rparr>"
  using assms by (auto simp: store_ci_outcome_receipt_def elim!: bind_result_Inr dest!: receipt_change)

lemma push_change:
  assumes "store_push_receipt f db = Inr (db', r)"
  obtains "db' = db"
  | "insert_or_nothing pu_id push_index f (db_pushes db) = (db_pushes db @ [f], True)"
    "db' = db\<lparr>db_pushes := db_pushes db @ [f]\<rparr>"
  using assms by (auto simp: store_push_receipt_def elim!: bind_result_Inr dest!: receipt_change)

lemma merge_change:
  assumes "store_pull_request_merge_receipt f db = Inr (db', r)"
  obtains "db' = db"
  | "insert_or_nothing pm_id merge_index f (db_merges db) = (db_merges db @ [f], True)"
    "db' = db\<lparr>db_merges := db_merges db @ [f]\<rparr>"
  using assms by (auto simp: store_pull_request_merge_receipt_def elim!: bind_result_Inr dest!: receipt_change)

lemma revision_change:
  assumes "store_pull_request_revision_receipt f db = Inr (db', r)"
  obtains "db' = db"
  | "insert_or_nothing pv_id revision_index f (db_revisions db) = (db_revisions db @ [f], True)"
    "db' = db\<lparr>db_revisions := db_revisions db @ [f]\<rparr>"
  using assms by (auto simp: store_pull_request_revision_receipt_def elim!: bind_result_Inr dest!: receipt_change)

lemma rename_change:
  assumes "store_repository_rename_receipt f db = Inr (db', r)"
  obtains "db' = db"
  | "insert_or_nothing rr_id rename_index f (db_renames db) = (db_renames db @ [f], True)"
    "db' = db\<lparr>db_renames := db_renames db @ [f]\<rparr>"
  using assms by (auto simp: store_repository_rename_receipt_def elim!: bind_result_Inr dest!: receipt_change)

text \<open>An identified observation has found its Push.\<close>

definition names_push :: "session_commit_observation \<Rightarrow> push list \<Rightarrow> bool" where
  "names_push f pushes \<longleftrightarrow> (rf_repository_id f \<noteq> None \<longrightarrow>
     list_ex (\<lambda>p. pu_org_id p = sc_org_id f \<and> pu_id p = sc_source_push_id f \<and> components p = components f) pushes)"

lemma observation_change:
  assumes "store_session_commit_observation f db = Inr (db', r)"
  obtains "db' = db"
  | "insert_or_nothing sc_id observation_index f (db_observations db) = (db_observations db @ [f], True)"
    "names_push f (db_pushes db)"
    "db' = (session_upsert (sc_org_id f) (sc_session_id f) None (sc_captured_at f) db)
        \<lparr>db_observations := db_observations db @ [f]\<rparr>"
proof -
  obtain rows receipt where rows: "repository_receipt sc_id observation_index observation_natural observation_agrees
        validate_session_commit_observation f (db_observations db) = Inr (rows, receipt)"
      "db' = (if fr_stored receipt then session_upsert (sc_org_id f) (sc_session_id f) None (sc_captured_at f)
          (db\<lparr>db_observations := rows\<rparr>) else db\<lparr>db_observations := rows\<rparr>)"
    and push: "names_push f (db_pushes db)"
    using assms
    by (auto simp: store_session_commit_observation_def Let_def names_push_def list_ex_iff find_Some_iff
        split: if_splits option.splits elim!: bind_result_Inr) (metis nth_mem)+
  show thesis using receipt_change[OF rows(1)] rows(2) push that by (auto simp: session_upsert_def)
qed

section \<open>A batch of decisions, one by one\<close>

text \<open>The reference: the rows one after another, each with the answer whether it was inserted.\<close>

fun insert_each :: "developer_decision list \<Rightarrow> developer_decision list \<Rightarrow> developer_decision list \<times> bool list" where
  "insert_each [] rows = (rows, [])"
| "insert_each (d # ds) rows =
     (case insert_or_nothing dd_id decision_index d rows of
        (rows, stored) \<Rightarrow> (case insert_each ds rows of (rows, flags) \<Rightarrow> (rows, stored # flags)))"

lemma insert_each_append: "insert_each (ds @ es) rows =
    (case insert_each ds rows of (rows, flags) \<Rightarrow> (case insert_each es rows of (rows, flags') \<Rightarrow> (rows, flags @ flags')))"
  by (induction ds arbitrary: rows) (auto split: prod.splits)

lemma insert_each_length: "length (snd (insert_each ds rows)) = length ds"
  by (induction ds arbitrary: rows) (auto split: prod.splits, metis snd_conv)

lemma insert_chunk_rows: "fst (insert_chunk ds rows) = fst (insert_each ds rows)"
  by (induction ds arbitrary: rows) (auto split: prod.splits, metis fst_conv)

text \<open>Decisions that differ in their raw payload only have the same keys.\<close>

lemma row_key_conflict:
  assumes "decision_row_key d = decision_row_key e"
  shows "index_conflict dd_id decision_index d g \<longleftrightarrow> index_conflict dd_id decision_index e g"
proof -
  have "decision_index (d\<lparr>dd_raw := r\<rparr>) = decision_index d" for d r
    by (cases "dd_call_id d") (simp_all add: decision_index_def)
  then have "index_conflict dd_id decision_index (d\<lparr>dd_raw := r\<rparr>) g \<longleftrightarrow> index_conflict dd_id decision_index d g" for d r
    by (simp add: index_conflict_def)
  then show ?thesis using assms unfolding decision_row_key_def by metis
qed

lemma insert_chunk_returned:
  "k \<in> set (snd (insert_chunk ds rows)) \<Longrightarrow>
     \<exists>e\<in>set ds. decision_row_key e = k \<and> (\<forall>g\<in>set rows. \<not> index_conflict dd_id decision_index e g)"
proof (induction ds arbitrary: rows)
  case (Cons d ds)
  obtain rows1 did where i: "insert_or_nothing dd_id decision_index d rows = (rows1, did)" by fastforce
  obtain rows2 returned where c: "insert_chunk ds rows1 = (rows2, returned)" by fastforce
  have "set rows \<subseteq> set rows1" using i by (auto simp: insert_or_nothing_def split: if_splits)
  moreover have "k = decision_row_key d \<and> did \<or> k \<in> set returned" using Cons.prems i c by (auto split: if_splits)
  moreover have "did \<Longrightarrow> \<forall>g\<in>set rows. \<not> index_conflict dd_id decision_index d g"
    using i by (auto simp: insert_or_nothing_def list_ex_iff split: if_splits)
  ultimately show ?case using Cons.IH[of rows1] c by (simp, blast)
qed simp

lemma match_insert_chunk: "match_returned ds (snd (insert_chunk ds rows)) = snd (insert_each ds rows)"
proof (induction ds arbitrary: rows)
  case (Cons d ds)
  obtain rows1 did where i: "insert_or_nothing dd_id decision_index d rows = (rows1, did)" by fastforce
  obtain rows2 returned where c: "insert_chunk ds rows1 = (rows2, returned)" by fastforce
  have rec: "match_returned ds returned = snd (insert_each ds rows1)" using Cons.IH[of rows1] c by simp
  have "decision_row_key d \<notin> set returned" if "\<not> did"
  proof
    assume "decision_row_key d \<in> set returned"
    then obtain e where e: "decision_row_key e = decision_row_key d" "\<forall>g\<in>set rows1. \<not> index_conflict dd_id decision_index e g"
      using insert_chunk_returned[of "decision_row_key d" ds rows1] c by auto
    then have "\<forall>g\<in>set rows1. \<not> index_conflict dd_id decision_index d g" using row_key_conflict by blast
    then show False using i that by (auto simp: insert_or_nothing_def list_ex_iff split: if_splits)
  qed
  then show ?case using i c rec by (auto simp: Let_def count_list_0_iff split: prod.splits)
qed simp

lemma fold_store_chunk:
  "fold store_chunk cs (rows, flags) =
     (fst (insert_each (concat cs) rows), flags @ snd (insert_each (concat cs) rows))"
proof (induction cs arbitrary: rows flags)
  case (Cons c cs)
  have "store_chunk c (rows, flags) = (fst (insert_each c rows), flags @ snd (insert_each c rows))"
    using insert_chunk_rows[of c rows] match_insert_chunk[of c rows] by (auto simp: store_chunk_def split: prod.splits)
  then show ?case using Cons.IH by (auto simp: insert_each_append split: prod.splits)
qed simp

lemma store_decisions_rows:
  "store_decisions redact ds db =
     (let (rows, flags) = insert_each (map redact ds) (db_decisions db)
      in (db\<lparr>db_decisions := rows,
            db_sessions := fold (\<lambda>(key, row). session_upsert_values key row)
              (session_metadata (map fst (filter snd (zip (map redact ds) flags)))) (db_sessions db)\<rparr>, flags))"
  by (simp add: store_decisions_def fold_store_chunk concat_chunks ROWS_PER_STATEMENT_def case_prod_beta Let_def)

section \<open>The invariant\<close>

definition facts_ok :: "('f \<Rightarrow> 'f result) \<Rightarrow> ('f \<Rightarrow> string) \<Rightarrow> ('f \<Rightarrow> 'k option) \<Rightarrow> 'f list \<Rightarrow> bool" where
  "facts_ok validate pk ix rows \<longleftrightarrow> table_ok pk ix rows \<and> (\<forall>f\<in>set rows. validate f = Inr f)"

lemma facts_ok_Nil [simp]: "facts_ok validate pk ix []"
  by (simp add: facts_ok_def)

lemma facts_ok_insert:
  "insert_or_nothing pk ix f rows = (rows', b) \<Longrightarrow> facts_ok validate pk ix rows \<Longrightarrow> validate f = Inr f
   \<Longrightarrow> facts_ok validate pk ix rows'"
  using insert_ok[of pk ix f rows rows' b] by (auto simp: facts_ok_def elim!: insert_cases)

definition log_ok :: "(int \<times> quarantine_record) list \<Rightarrow> bool" where
  "log_ok entries \<longleftrightarrow> sorted_wrt (<) (map fst entries) \<and> (\<forall>e\<in>set entries. validate_quarantine_record (snd e) = Inr (snd e))"

definition db_ok :: "fact_db \<Rightarrow> bool" where
  "db_ok db \<longleftrightarrow> facts_ok validate_inference_call ic_id call_index (db_calls db)
     \<and> facts_ok validate_developer_decision dd_id decision_index (db_decisions db)
     \<and> facts_ok validate_edit_observation eo_id edit_index (db_edits db)
     \<and> facts_ok validate_rejected_edit re_id rejected_index (db_rejected db)
     \<and> facts_ok validate_retry_linkage rl_id linkage_index (db_linkages db)
     \<and> facts_ok validate_compute_allocation ca_id allocation_index (db_allocations db)
     \<and> facts_ok validate_ci_outcome ci_id outcome_index (db_outcomes db)
     \<and> facts_ok validate_push pu_id push_index (db_pushes db)
     \<and> facts_ok validate_session_commit_observation sc_id observation_index (db_observations db)
     \<and> facts_ok validate_pull_request_merge pm_id merge_index (db_merges db)
     \<and> facts_ok validate_pull_request_revision pv_id revision_index (db_revisions db)
     \<and> facts_ok validate_repository_rename rr_id rename_index (db_renames db)
     \<and> db_aliases db = concat (map alias_rows (db_calls db))
     \<and> (\<forall>f\<in>set (db_observations db). names_push f (db_pushes db))
     \<and> log_ok (db_quarantine db)"

lemma insert_each_ok:
  "facts_ok validate dd_id decision_index rows \<Longrightarrow> \<forall>d\<in>set ds. validate d = Inr d
   \<Longrightarrow> facts_ok validate dd_id decision_index (fst (insert_each ds rows))"
  by (induction ds arbitrary: rows) (auto split: prod.splits dest: facts_ok_insert, metis facts_ok_insert fst_conv)

lemma names_push_append: "names_push f pushes \<Longrightarrow> names_push f (pushes @ later)"
  by (auto simp: names_push_def)

text \<open>New revisions follow the last one.\<close>

lemma enumerate_from_ascending:
  "sorted_wrt (<) (map fst (enumerate_from n xs)) \<and> (\<forall>e\<in>set (enumerate_from n xs). n \<le> fst e \<and> snd e \<in> set xs)"
  by (induction n xs rule: enumerate_from.induct) fastforce+

lemma next_revision_above:
  assumes "sorted_wrt (<) (map fst (db_quarantine db))" "e \<in> set (db_quarantine db)"
  shows "fst e < next_revision db"
proof -
  obtain old new where log: "db_quarantine db = old @ [new]" using assms(2) by (metis empty_iff list.set(1) rev_exhaust)
  show ?thesis using assms by (auto simp: log next_revision_def sorted_wrt_append)
qed

lemma log_ok_enumerate:
  assumes "log_ok (db_quarantine db)" "\<forall>q\<in>set qs. validate_quarantine_record q = Inr q"
  shows "log_ok (db_quarantine db @ enumerate_from (next_revision db) qs)"
  using assms next_revision_above[of db] enumerate_from_ascending[of "next_revision db" qs]
  unfolding log_ok_def by (fastforce simp: sorted_wrt_append)

lemma v_map_set: "v_map f xs = Inr ys \<Longrightarrow> y \<in> set ys \<Longrightarrow> \<exists>x\<in>set xs. f x = Inr y"
  by (induction xs arbitrary: ys) (auto elim!: bind_result_Inr)

lemma validated_log:
  "log_ok (db_quarantine db) \<Longrightarrow> validate_quarantine_record q = Inr q'
     \<Longrightarrow> log_ok (db_quarantine db @ [(next_revision db, q')])"
  using log_ok_enumerate[of db "[q']"] quarantine_record_fact.fixed_point by simp

lemma validated_logs:
  assumes "log_ok (db_quarantine db)" "v_map (validate_quarantine_record \<circ> record_of) ids = Inr qs"
  shows "log_ok (db_quarantine db @ enumerate_from (next_revision db) qs)"
  using assms(1) by (rule log_ok_enumerate) (auto dest!: v_map_set[OF assms(2)] quarantine_record_fact.fixed_point)

text \<open>Every step keeps the invariant.\<close>

lemmas keeps_ok = db_ok_def session_upsert_def facts_ok_insert names_push_append

lemma step_ok: "store_step db db' \<Longrightarrow> db_ok db \<Longrightarrow> db_ok db'"
proof (induction rule: store_step.induct)
  case (call_step redact f db db' r)
  from call_step(1) show ?case
    by (rule call_change) (use call_step in \<open>auto simp: keeps_ok\<close>)
next
  case (edit_step redact f db db' r)
  from edit_step(1) show ?case
    by (rule edit_change) (use edit_step in \<open>auto simp: keeps_ok\<close>)
next
  case (rejected_step redact f db db' r)
  from rejected_step(1) show ?case
    by (rule rejected_change) (use rejected_step in \<open>auto simp: keeps_ok\<close>)
next
  case (linkage_step redact f db db' r)
  from linkage_step(1) show ?case
    by (rule linkage_change) (use linkage_step in \<open>auto simp: keeps_ok\<close>)
next
  case (allocation_step f db db' r)
  from allocation_step(1) show ?case
    by (rule allocation_change) (use allocation_step in \<open>auto simp: keeps_ok\<close>)
next
  case (outcome_step redact f db db' r)
  from outcome_step(1) show ?case
    by (rule outcome_change) (use outcome_step in \<open>auto simp: keeps_ok\<close>)
next
  case (push_step f db db' r)
  from push_step(1) show ?case
    by (rule push_change) (use push_step in \<open>auto simp: keeps_ok\<close>)
next
  case (observation_step f db db' r)
  from observation_step(1) show ?case
    by (rule observation_change) (use observation_step in \<open>auto simp: keeps_ok\<close>)
next
  case (merge_step f db db' r)
  from merge_step(1) show ?case
    by (rule merge_change) (use merge_step in \<open>auto simp: keeps_ok\<close>)
next
  case (revision_step f db db' r)
  from revision_step(1) show ?case
    by (rule revision_change) (use revision_step in \<open>auto simp: keeps_ok\<close>)
next
  case (rename_step f db db' r)
  from rename_step(1) show ?case
    by (rule rename_change) (use rename_step in \<open>auto simp: keeps_ok\<close>)
next
  case (decisions_step redact fs db db' r)
  then show ?case
    using insert_each_ok[of validate_developer_decision "db_decisions db" "map redact fs"]
    by (auto simp: store_decisions_rows db_ok_def Let_def split: prod.splits)
next
  case (quarantine_step at_head q db db')
  then show ?case
    by (auto simp: append_quarantine_def db_ok_def validated_log split: if_splits elim!: bind_result_Inr)
next
  case (bulk_step at_head collate new_id now org_id between session provider reason dry_run db db' n)
  then show ?case
    by (auto simp: quarantine_inference_calls_where_def db_ok_def Let_def validated_logs
        split: if_splits elim!: bind_result_Inr)
qed

lemma store_reachable_ok: "reachable db \<Longrightarrow> db_ok db"
  unfolding reachable_def
proof (induction rule: rtranclp_induct)
  case base
  show ?case by (simp add: db_ok_def empty_db_def log_ok_def)
next
  case (step db db')
  then show ?case by (blast intro: step_ok)
qed

section \<open>Nothing is lost\<close>

definition widens :: "session_record \<Rightarrow> session_record \<Rightarrow> bool" where
  "widens s s' \<longleftrightarrow> se_first_observed_at s' \<le> se_first_observed_at s \<and> se_last_observed_at s \<le> se_last_observed_at s'
     \<and> (se_user_id_conflict s \<longrightarrow> se_user_id_conflict s')"

definition sessions_widen ::
  "(string \<times> string, session_record) fmap \<Rightarrow> (string \<times> string, session_record) fmap \<Rightarrow> bool" where
  "sessions_widen m m' \<longleftrightarrow> (\<forall>key s. fmlookup m key = Some s \<longrightarrow> (\<exists>s'. fmlookup m' key = Some s' \<and> widens s s'))"

lemma sessions_widen_refl [simp]: "sessions_widen m m"
  by (simp add: sessions_widen_def widens_def)

lemma sessions_widen_trans: "sessions_widen m m' \<Longrightarrow> sessions_widen m' m'' \<Longrightarrow> sessions_widen m m''"
  unfolding sessions_widen_def widens_def by (meson order_trans)

lemma session_upsert_values_widen [simp]: "sessions_widen m (session_upsert_values key row m)"
  by (auto simp: sessions_widen_def widens_def session_upsert_values_def merge_session_def Let_def)

lemma fold_session_upsert_widen: "sessions_widen m (fold (\<lambda>(key, row). session_upsert_values key row) rows m)"
  by (induction rows arbitrary: m) (auto intro: sessions_widen_trans[OF session_upsert_values_widen])

text \<open>The database extends the one before it.\<close>

definition db_extends :: "fact_db \<Rightarrow> fact_db \<Rightarrow> bool" where
  "db_extends db db' \<longleftrightarrow> prefix (db_calls db) (db_calls db') \<and> prefix (db_decisions db) (db_decisions db')
     \<and> prefix (db_edits db) (db_edits db') \<and> prefix (db_rejected db) (db_rejected db')
     \<and> prefix (db_linkages db) (db_linkages db') \<and> prefix (db_allocations db) (db_allocations db')
     \<and> prefix (db_outcomes db) (db_outcomes db') \<and> prefix (db_pushes db) (db_pushes db')
     \<and> prefix (db_observations db) (db_observations db') \<and> prefix (db_merges db) (db_merges db')
     \<and> prefix (db_revisions db) (db_revisions db') \<and> prefix (db_renames db) (db_renames db')
     \<and> prefix (db_aliases db) (db_aliases db') \<and> prefix (db_quarantine db) (db_quarantine db')
     \<and> sessions_widen (db_sessions db) (db_sessions db')"

lemma db_extends_refl [simp]: "db_extends db db"
  by (simp add: db_extends_def)

lemma db_extends_trans: "db_extends db db' \<Longrightarrow> db_extends db' db'' \<Longrightarrow> db_extends db db''"
  unfolding db_extends_def by (blast intro: prefix_order.order_trans sessions_widen_trans)

lemma insert_each_prefix: "prefix rows (fst (insert_each ds rows))"
proof (induction ds arbitrary: rows)
  case (Cons d ds)
  obtain rows1 stored where i: "insert_or_nothing dd_id decision_index d rows = (rows1, stored)" by fastforce
  then have "prefix rows rows1" by (auto simp: insert_or_nothing_def split: if_splits)
  then show ?case using Cons.IH[of rows1] i by (auto split: prod.splits intro: prefix_order.order_trans)
qed simp

lemma step_extends: "store_step db db' \<Longrightarrow> db_extends db db'"
proof (induction rule: store_step.induct)
  case (call_step redact f db db' r)
  from call_step(1) show ?case by (rule call_change) (auto simp: db_extends_def session_upsert_def)
next
  case (edit_step redact f db db' r)
  from edit_step(1) show ?case by (rule edit_change) (auto simp: db_extends_def session_upsert_def)
next
  case (rejected_step redact f db db' r)
  from rejected_step(1) show ?case by (rule rejected_change) (auto simp: db_extends_def session_upsert_def)
next
  case (linkage_step redact f db db' r)
  from linkage_step(1) show ?case by (rule linkage_change) (auto simp: db_extends_def session_upsert_def)
next
  case (allocation_step f db db' r)
  from allocation_step(1) show ?case by (rule allocation_change) (auto simp: db_extends_def session_upsert_def)
next
  case (outcome_step redact f db db' r)
  from outcome_step(1) show ?case by (rule outcome_change) (auto simp: db_extends_def session_upsert_def)
next
  case (push_step f db db' r)
  from push_step(1) show ?case by (rule push_change) (auto simp: db_extends_def session_upsert_def)
next
  case (observation_step f db db' r)
  from observation_step(1) show ?case by (rule observation_change) (auto simp: db_extends_def session_upsert_def)
next
  case (merge_step f db db' r)
  from merge_step(1) show ?case by (rule merge_change) (auto simp: db_extends_def session_upsert_def)
next
  case (revision_step f db db' r)
  from revision_step(1) show ?case by (rule revision_change) (auto simp: db_extends_def session_upsert_def)
next
  case (rename_step f db db' r)
  from rename_step(1) show ?case by (rule rename_change) (auto simp: db_extends_def session_upsert_def)
next
  case (decisions_step redact fs db db' r)
  then show ?case
    using insert_each_prefix[of "db_decisions db" "map redact fs"]
    by (auto simp: store_decisions_rows db_extends_def Let_def fold_session_upsert_widen split: prod.splits)
next
  case (quarantine_step at_head q db db')
  then show ?case by (auto simp: append_quarantine_def db_extends_def split: if_splits elim!: bind_result_Inr)
next
  case (bulk_step at_head collate new_id now org_id between session provider reason dry_run db db' n)
  then show ?case
    by (auto simp: quarantine_inference_calls_where_def db_extends_def Let_def split: if_splits elim!: bind_result_Inr)
qed

section \<open>A sample store\<close>

definition stored_push :: push where
  "stored_push = \<lparr>rf_schema_version = 2, rf_repository_provider = Some GITHUB, rf_repository_host = Some ''github.com'',
     rf_repository_id = Some ''42'', pu_id = ''p1'', pu_org_id = ''acme'', pu_provider = GITHUB, pu_repo = ''acme/app'',
     pu_clone_url = ''x'', pu_ref = ''main'', pu_before_sha = sample_sha, pu_after_sha = sample_sha, pu_forced = False,
     pu_captured_at = 5\<rparr>"

definition stored_observation :: session_commit_observation where
  "stored_observation = \<lparr>rf_schema_version = 2, rf_repository_provider = Some GITHUB, rf_repository_host = Some ''github.com'',
     rf_repository_id = Some ''42'', sc_id = ''o1'', sc_org_id = ''acme'', sc_repo = ''acme/app'',
     sc_commit_sha = sample_sha, sc_session_id = ''s1'', sc_source_push_id = ''p1'', sc_captured_at = 7\<rparr>"

definition stored_edit :: "string \<Rightarrow> string option \<Rightarrow> instant \<Rightarrow> rejected_edit" where
  "stored_edit i user t = \<lparr>re_id = i, re_org_id = ''acme'', re_session_id = ''s1'', re_user_id = user,
     re_agent_harness = CLAUDE_CODE, re_file_path = ''f'', re_call_id = i, re_proposed = ''x'',
     re_occurred_at = t, re_captured_at = t, re_raw = []\<rparr>"

definition stored_log :: quarantine_record where
  "stored_log = \<lparr>qr_id = ''q'', qr_org_id = ''acme'', qr_fact_table = PUSHES, qr_fact_id = ''p1'',
     qr_action = QUARANTINE, qr_reason = ''r'', qr_recorded_at = 1\<rparr>"

definition sample_db :: fact_db where
  "sample_db = empty_db\<lparr>db_pushes := [stored_push], db_observations := [stored_observation],
     db_rejected := [stored_edit ''e1'' (Some ''u'') 3],
     db_sessions := fmupd (''acme'', ''s1'') \<lparr>se_user_id = Some ''u'', se_user_id_conflict = False,
        se_first_observed_at = 3, se_last_observed_at = 7\<rparr> fmempty, db_quarantine := [(1, stored_log)]\<rparr>"

lemmas fact_eval = validator_eval validate_repository_fields_def require_repository_components_def
  repository_components_ok_def sample_sha_normal sample_slugs char_of_eq_iff take_bit_eq_mod

lemma stored_push_valid: "validate_push stored_push = Inr stored_push"
  by (simp add: validate_push_def stored_push_def fact_eval)

lemma stored_observation_valid: "validate_session_commit_observation stored_observation = Inr stored_observation"
  by (simp add: validate_session_commit_observation_def stored_observation_def fact_eval)

lemma stored_edit_valid: "validate_rejected_edit (stored_edit ''e1'' (Some ''u'') 3) = Inr (stored_edit ''e1'' (Some ''u'') 3)"
  by (simp add: validate_rejected_edit_def stored_edit_def fact_eval)

lemma stored_log_valid: "validate_quarantine_record stored_log = Inr stored_log"
  by (simp add: validate_quarantine_record_def stored_log_def fact_eval)

definition push_db :: fact_db where
  "push_db = empty_db\<lparr>db_pushes := [stored_push]\<rparr>"

lemma sample_first: "store_step empty_db push_db"
  by (rule push_step[OF _ stored_push_valid])
    (simp add: store_push_receipt_def repository_receipt_def insert_or_nothing_def empty_db_def push_db_def)

lemma sample_later: "store_step\<^sup>*\<^sup>* push_db sample_db"
proof -
  define db2 where "db2 = push_db\<lparr>db_rejected := [stored_edit ''e1'' (Some ''u'') 3],
     db_sessions := fmupd (''acme'', ''s1'') (observed_session (Some ''u'') 3) fmempty\<rparr>"
  define db3 where "db3 = sample_db\<lparr>db_quarantine := []\<rparr>"
  have 2: "store_step push_db db2"
    by (rule rejected_step[where redact = id, simplified, OF _ stored_edit_valid])
      (simp add: store_rejected_edit_def insert_or_nothing_def empty_db_def push_db_def db2_def session_upsert_def
        session_upsert_values_def Let_def stored_edit_def)
  have 3: "store_step db2 db3"
    by (rule observation_step[OF _ stored_observation_valid])
      (simp add: store_session_commit_observation_def repository_receipt_def insert_or_nothing_def empty_db_def push_db_def db2_def
        db3_def sample_db_def session_upsert_def session_upsert_values_def merge_session_def observed_session_def Let_def
        components_def stored_push_def stored_observation_def)
  have 4: "store_step db3 sample_db"
    by (rule quarantine_step[where at_head = True and q = stored_log])
      (simp add: append_quarantine_def stored_log_valid db3_def sample_db_def next_revision_def empty_db_def)
  show ?thesis using 2 3 4 by (meson converse_rtranclp_into_rtranclp rtranclp.rtrancl_refl)
qed
lemma sample_db_reachable: "store_step\<^sup>*\<^sup>* empty_db sample_db"
  using sample_first sample_later by (rule converse_rtranclp_into_rtranclp)

section \<open>Properties\<close>

text \<open>C1. Whatever is stored, in whatever order, the store stays well formed: every row of every table is a
  valid Fact, no two rows share an id or a unique key, the alias table is the aliases of the stored calls,
  every identified observation names a stored Push of its organization and repository, and the quarantine
  log is a valid log of ascending revisions.
\<close>

theorem store_invariant: "store_step\<^sup>*\<^sup>* empty_db db \<Longrightarrow> db_ok db"
  using store_reachable_ok[unfolded reachable_def] by simp

theorem store_invariant_witness: "db_ok sample_db"
  by (rule store_invariant[OF sample_db_reachable])

text \<open>C2. The store is append-only: a later database extends an earlier one in every Fact table, in the aliases
  and in the quarantine log, and a Session keeps its row, whose bounds only widen and whose user conflict
  stays.
\<close>

theorem store_append_only: "store_step\<^sup>*\<^sup>* db db' \<Longrightarrow> db_extends db db'"
proof (induction rule: rtranclp_induct)
  case (step db' db'')
  then show ?case by (blast intro: db_extends_trans step_extends)
qed simp

theorem store_append_only_witness: "db_extends push_db sample_db"
  by (rule store_append_only[OF sample_later])

section \<open>Deliveries\<close>

text \<open>On a stored Fact every insertion is declined.\<close>

lemma insert_twice: "f \<in> set rows \<Longrightarrow> insert_or_nothing pk ix f rows = (rows, False)"
  by (auto simp: insert_or_nothing_def list_ex_iff intro!: bexI[of _ f])

lemma call_match: "call_identity_match c row \<longleftrightarrow> index_conflict ic_id call_index c row"
  by (cases "ic_model_call_id c") (auto simp: call_identity_match_def index_conflict_def call_index_def)

lemma call_twice:
  assumes "store_inference_call_receipt redact f db = Inr (db', i, b)"
  shows "store_inference_call_receipt redact f db' = Inr (db', i, False)"
proof (cases b)
  case True
  have "i = ic_id (redact f)" "db_calls db' = db_calls db @ [redact f]" "\<forall>g\<in>set (db_calls db). \<not> index_conflict ic_id call_index (redact f) g"
    using assms True
    by (auto simp: store_inference_call_receipt_def insert_or_nothing_def list_ex_iff session_upsert_def Let_def
        split: if_splits list.splits)
  moreover from this have "filter (call_identity_match (redact f)) (db_calls db') = [redact f]"
    by (simp add: call_match filter_empty_conv)
  ultimately show ?thesis by (simp add: store_inference_call_receipt_def insert_twice Let_def)
next
  case False
  then have "db' = db" using assms
    by (auto simp: store_inference_call_receipt_def Let_def split: prod.splits bool.splits list.splits if_splits)
  then show ?thesis using assms False by simp
qed

lemma allocation_twice:
  assumes "store_compute_allocation_receipt f db = Inr (db', i, b)"
  shows "store_compute_allocation_receipt f db' = Inr (db', i, False)"
proof (cases b)
  case True
  have "i = ca_id f" "db_allocations db' = db_allocations db @ [f]"
    "\<forall>g\<in>set (db_allocations db). \<not> index_conflict ca_id allocation_index f g"
    using assms True
    by (auto simp: store_compute_allocation_receipt_def insert_or_nothing_def list_ex_iff session_upsert_def
        split: if_splits list.splits)
  moreover from this have "filter (\<lambda>row. allocation_content row = allocation_content f) (db_allocations db') = [f]"
    by (auto simp: filter_empty_conv index_conflict_def allocation_index_def allocation_content_def)
  ultimately show ?thesis by (simp add: store_compute_allocation_receipt_def insert_twice)
next
  case False
  then have "db' = db" using assms
    by (auto simp: store_compute_allocation_receipt_def split: prod.splits bool.splits list.splits)
  then show ?thesis using assms False by simp
qed

lemma edit_twice: "store_edit_observation redact f db = (db', b) \<Longrightarrow> store_edit_observation redact f db' = (db', False)"
  by (auto simp: store_edit_observation_def session_upsert_def insert_or_nothing_def Let_def split: if_splits)

lemma rejected_twice: "store_rejected_edit redact f db = (db', b) \<Longrightarrow> store_rejected_edit redact f db' = (db', False)"
  by (auto simp: store_rejected_edit_def session_upsert_def insert_or_nothing_def Let_def split: if_splits)

lemma linkage_twice: "store_retry_linkage redact f db = (db', b) \<Longrightarrow> store_retry_linkage redact f db' = (db', False)"
  by (auto simp: store_retry_linkage_def session_upsert_def insert_or_nothing_def Let_def split: if_splits)

lemma session_metadata_Nil: "session_metadata [] = []"
  by (simp add: session_metadata_def)

lemma store_decision_declined:
  "insert_or_nothing dd_id decision_index (redact d) (db_decisions db) = (rows, False) \<Longrightarrow> store_decision redact d db = (db, False)"
  using insert_declined[of dd_id decision_index "redact d" "db_decisions db" rows]
  by (auto simp: store_decision_def store_decisions_rows session_metadata_Nil)

lemma decision_twice:
  assumes "store_decision redact d db = (db', b)"
  shows "store_decision redact d db' = (db', False)"
proof (cases "insert_or_nothing dd_id decision_index (redact d) (db_decisions db)")
  case (Pair rows stored)
  show ?thesis
  proof (cases stored)
    case True
    then have "db_decisions db' = db_decisions db @ [redact d]"
      using Pair assms insert_inserted by (auto simp: store_decision_def store_decisions_rows)
    then show ?thesis by (intro store_decision_declined[where rows = "db_decisions db'"]) (simp add: insert_twice)
  next
    case False
    then show ?thesis using Pair assms store_decision_declined by fastforce
  qed
qed

text \<open>The repository Facts, through their contract.\<close>

lemma outcome_twice:
  assumes "db_ok db" "validate_ci_outcome (redact f) = Inr (redact f)" "store_ci_outcome_receipt redact f db = Inr (db', r)"
  shows "store_ci_outcome_receipt redact f db' = Inr (db', r\<lparr>fr_stored := False\<rparr>)"
proof -
  have "\<forall>g\<in>set (db_outcomes db). validate_ci_outcome g = Inr g" using assms(1) by (simp add: db_ok_def facts_ok_def)
  with assms(3) show ?thesis
    by (auto simp: store_ci_outcome_receipt_def elim!: bind_result_Inr dest: outcomes.receipt_twice[OF assms(2)])
qed

lemma push_twice:
  assumes "db_ok db" "validate_push f = Inr f" "store_push_receipt f db = Inr (db', r)"
  shows "store_push_receipt f db' = Inr (db', r\<lparr>fr_stored := False\<rparr>)"
proof -
  have "\<forall>g\<in>set (db_pushes db). validate_push g = Inr g" using assms(1) by (simp add: db_ok_def facts_ok_def)
  with assms(3) show ?thesis
    by (auto simp: store_push_receipt_def elim!: bind_result_Inr dest: pushes.receipt_twice[OF assms(2)])
qed

lemma merge_twice:
  assumes "db_ok db" "validate_pull_request_merge f = Inr f" "store_pull_request_merge_receipt f db = Inr (db', r)"
  shows "store_pull_request_merge_receipt f db' = Inr (db', r\<lparr>fr_stored := False\<rparr>)"
proof -
  have "\<forall>g\<in>set (db_merges db). validate_pull_request_merge g = Inr g" using assms(1) by (simp add: db_ok_def facts_ok_def)
  with assms(3) show ?thesis
    by (auto simp: store_pull_request_merge_receipt_def elim!: bind_result_Inr dest: merges.receipt_twice[OF assms(2)])
qed

lemma revision_twice:
  assumes "db_ok db" "validate_pull_request_revision f = Inr f" "store_pull_request_revision_receipt f db = Inr (db', r)"
  shows "store_pull_request_revision_receipt f db' = Inr (db', r\<lparr>fr_stored := False\<rparr>)"
proof -
  have "\<forall>g\<in>set (db_revisions db). validate_pull_request_revision g = Inr g" using assms(1) by (simp add: db_ok_def facts_ok_def)
  with assms(3) show ?thesis
    by (auto simp: store_pull_request_revision_receipt_def elim!: bind_result_Inr dest: revisions.receipt_twice[OF assms(2)])
qed

lemma rename_twice:
  assumes "db_ok db" "validate_repository_rename f = Inr f" "store_repository_rename_receipt f db = Inr (db', r)"
  shows "store_repository_rename_receipt f db' = Inr (db', r\<lparr>fr_stored := False\<rparr>)"
proof -
  have "\<forall>g\<in>set (db_renames db). validate_repository_rename g = Inr g" using assms(1) by (simp add: db_ok_def facts_ok_def)
  with assms(3) show ?thesis
    by (auto simp: store_repository_rename_receipt_def elim!: bind_result_Inr dest: renames.receipt_twice[OF assms(2)])
qed

lemma observation_twice:
  assumes "db_ok db" "validate_session_commit_observation f = Inr f" "store_session_commit_observation f db = Inr (db', b)"
  shows "store_session_commit_observation f db' = Inr (db', False)"
proof -
  have "\<forall>g\<in>set (db_observations db). validate_session_commit_observation g = Inr g"
    using assms(1) by (simp add: db_ok_def facts_ok_def)
  with assms(3) show ?thesis
    by (auto simp: store_session_commit_observation_def session_upsert_def Let_def split: if_splits
        elim!: bind_result_Inr dest: observations.receipt_twice[OF assms(2)])
qed

text \<open>C3. Capture may deliver a Fact any number of times: every store call that succeeded succeeds again on the
  database it left, changes nothing more, stores nothing, and names the same retained Fact - for all twelve
  kinds of Fact, whether the first delivery inserted the Fact or found it retained.
\<close>

theorem redelivery_idempotent:
  assumes "store_step\<^sup>*\<^sup>* empty_db db"
  shows "(store_inference_call_receipt redact_c c db = Inr (db1, i, b)
      \<longrightarrow> store_inference_call_receipt redact_c c db1 = Inr (db1, i, False))
    \<and> (store_decision redact_d d db = (db1, b) \<longrightarrow> store_decision redact_d d db1 = (db1, False))
    \<and> (store_edit_observation redact_e e db = (db1, b) \<longrightarrow> store_edit_observation redact_e e db1 = (db1, False))
    \<and> (store_rejected_edit redact_r x db = (db1, b) \<longrightarrow> store_rejected_edit redact_r x db1 = (db1, False))
    \<and> (store_retry_linkage redact_l l db = (db1, b) \<longrightarrow> store_retry_linkage redact_l l db1 = (db1, False))
    \<and> (store_compute_allocation_receipt a db = Inr (db1, i, b) \<longrightarrow> store_compute_allocation_receipt a db1 = Inr (db1, i, False))
    \<and> (validate_ci_outcome (redact_o o') = Inr (redact_o o') \<and> store_ci_outcome_receipt redact_o o' db = Inr (db1, r1)
      \<longrightarrow> store_ci_outcome_receipt redact_o o' db1 = Inr (db1, r1\<lparr>fr_stored := False\<rparr>))
    \<and> (validate_push p = Inr p \<and> store_push_receipt p db = Inr (db1, r2)
      \<longrightarrow> store_push_receipt p db1 = Inr (db1, r2\<lparr>fr_stored := False\<rparr>))
    \<and> (validate_session_commit_observation s = Inr s \<and> store_session_commit_observation s db = Inr (db1, b)
      \<longrightarrow> store_session_commit_observation s db1 = Inr (db1, False))
    \<and> (validate_pull_request_merge m = Inr m \<and> store_pull_request_merge_receipt m db = Inr (db1, r3)
      \<longrightarrow> store_pull_request_merge_receipt m db1 = Inr (db1, r3\<lparr>fr_stored := False\<rparr>))
    \<and> (validate_pull_request_revision v = Inr v \<and> store_pull_request_revision_receipt v db = Inr (db1, r4)
      \<longrightarrow> store_pull_request_revision_receipt v db1 = Inr (db1, r4\<lparr>fr_stored := False\<rparr>))
    \<and> (validate_repository_rename n = Inr n \<and> store_repository_rename_receipt n db = Inr (db1, r5)
      \<longrightarrow> store_repository_rename_receipt n db1 = Inr (db1, r5\<lparr>fr_stored := False\<rparr>))"
proof -
  have ok: "db_ok db" by (rule store_reachable_ok[unfolded reachable_def, OF assms])
  show ?thesis
    by (intro conjI impI; (elim conjE)?;
        rule call_twice decision_twice edit_twice rejected_twice linkage_twice allocation_twice outcome_twice[OF ok]
          push_twice[OF ok] observation_twice[OF ok] merge_twice[OF ok] revision_twice[OF ok] rename_twice[OF ok]; assumption)
qed

text \<open>The stored Push of the sample, delivered again.\<close>

theorem redelivery_idempotent_witness:
  "store_push_receipt stored_push push_db
   = Inr (push_db, \<lparr>fr_fact_id = ''p1'', fr_stored = False, fr_fact = stored_push\<rparr>)"
proof -
  have first: "store_push_receipt stored_push empty_db = Inr (push_db, \<lparr>fr_fact_id = ''p1'', fr_stored = True, fr_fact = stored_push\<rparr>)"
    by (simp add: store_push_receipt_def repository_receipt_def insert_or_nothing_def empty_db_def push_db_def stored_push_def)
  have "store_step\<^sup>*\<^sup>* empty_db empty_db" by simp
  from redelivery_idempotent[OF this, of id undefined push_db] first stored_push_valid show ?thesis by fastforce
qed

text \<open>C4. A repository Fact is refused exactly when it contradicts what is retained: with no stored row on its id
  or its unique key it is inserted; with one such row it is answered by that row when they agree on the
  fields that identify the Fact; otherwise - the row disagrees, or its id and its key belong to different
  rows - the call raises and stores nothing. The lookup by natural conditions thus agrees with the unique
  indexes of the schema, legacy and identified rows alike.
\<close>

theorem repository_receipts_by_index:
  assumes "store_step\<^sup>*\<^sup>* empty_db db"
  shows "(validate_ci_outcome (redact o') = Inr (redact o') \<longrightarrow> store_ci_outcome_receipt redact o' db =
      bind_result (receipt_by_index ci_id outcome_index outcome_agrees (redact o') (db_outcomes db)) (\<lambda>(rows, r). Inr (db\<lparr>db_outcomes := rows\<rparr>, r)))
    \<and> (validate_push p = Inr p \<longrightarrow> store_push_receipt p db =
      bind_result (receipt_by_index pu_id push_index push_agrees p (db_pushes db)) (\<lambda>(rows, r). Inr (db\<lparr>db_pushes := rows\<rparr>, r)))
    \<and> (validate_pull_request_merge m = Inr m \<longrightarrow> store_pull_request_merge_receipt m db =
      bind_result (receipt_by_index pm_id merge_index merge_agrees m (db_merges db)) (\<lambda>(rows, r). Inr (db\<lparr>db_merges := rows\<rparr>, r)))
    \<and> (validate_pull_request_revision v = Inr v \<longrightarrow> store_pull_request_revision_receipt v db =
      bind_result (receipt_by_index pv_id revision_index head_agrees v (db_revisions db)) (\<lambda>(rows, r). Inr (db\<lparr>db_revisions := rows\<rparr>, r)))
    \<and> (validate_repository_rename n = Inr n \<longrightarrow> store_repository_rename_receipt n db =
      bind_result (receipt_by_index rr_id rename_index rename_agrees n (db_renames db)) (\<lambda>(rows, r). Inr (db\<lparr>db_renames := rows\<rparr>, r)))"
proof -
  have "db_ok db" by (rule store_reachable_ok[unfolded reachable_def, OF assms])
  then have "\<forall>g\<in>set (db_outcomes db). validate_ci_outcome g = Inr g" "\<forall>g\<in>set (db_pushes db). validate_push g = Inr g"
    "\<forall>g\<in>set (db_merges db). validate_pull_request_merge g = Inr g"
    "\<forall>g\<in>set (db_revisions db). validate_pull_request_revision g = Inr g"
    "\<forall>g\<in>set (db_renames db). validate_repository_rename g = Inr g" by (simp_all add: db_ok_def facts_ok_def)
  then show ?thesis
    by (simp add: store_ci_outcome_receipt_def store_push_receipt_def store_pull_request_merge_receipt_def
        store_pull_request_revision_receipt_def store_repository_rename_receipt_def
        outcomes.receipt_eq pushes.receipt_eq merges.receipt_eq revisions.receipt_eq renames.receipt_eq)
qed

text \<open>A Push with the id of the stored one and another ref is refused.\<close>

theorem repository_receipts_by_index_witness:
  "store_push_receipt (stored_push\<lparr>pu_ref := ''dev''\<rparr>) sample_db = Inl identity_conflict"
proof -
  have "validate_push (stored_push\<lparr>pu_ref := ''dev''\<rparr>) = Inr (stored_push\<lparr>pu_ref := ''dev''\<rparr>)"
    by (simp add: validate_push_def stored_push_def fact_eval)
  with repository_receipts_by_index[OF sample_db_reachable, of id undefined "stored_push\<lparr>pu_ref := ''dev''\<rparr>"]
  have "store_push_receipt (stored_push\<lparr>pu_ref := ''dev''\<rparr>) sample_db =
      bind_result (receipt_by_index pu_id push_index push_agrees (stored_push\<lparr>pu_ref := ''dev''\<rparr>) (db_pushes sample_db))
        (\<lambda>(rows, r). Inr (sample_db\<lparr>db_pushes := rows\<rparr>, r))" by blast
  then show ?thesis
    by (simp add: sample_db_def receipt_by_index_def index_conflict_def push_agrees_def stored_push_def)
qed

end
