(* ===== verification/Session_Laws.thy ===== *)
theory Session_Laws
  imports Store_Steps
begin

text \<open>
  The Sessions of the store against their specification: the row of a Session is the summary of the Facts
  stored for it. Merging rows is a semilattice, so the order of the Facts and the way they are batched do
  not matter.
\<close>

section \<open>The specification\<close>

text \<open>An observation of a Session: the user a Fact names, and when it was taken.\<close>

type_synonym session_event = "string option \<times> instant"

definition event_users :: "session_event list \<Rightarrow> string list" where
  "event_users events = remdups (List.map_filter fst events)"

definition summarize :: "session_event list \<Rightarrow> session_record" where
  "summarize events =
     \<lparr>se_user_id = (case event_users events of [user] \<Rightarrow> Some user | _ \<Rightarrow> None),
      se_user_id_conflict = (1 < length (event_users events)),
      se_first_observed_at = Min (set (map snd events)), se_last_observed_at = Max (set (map snd events))\<rparr>"

definition events_of ::
  "('f \<Rightarrow> string) \<Rightarrow> ('f \<Rightarrow> string) \<Rightarrow> ('f \<Rightarrow> session_event) \<Rightarrow> string \<times> string \<Rightarrow> 'f list \<Rightarrow> session_event list" where
  "events_of org session event key rows = map event (filter (\<lambda>f. (org f, session f) = key) rows)"

definition session_events :: "fact_db \<Rightarrow> string \<times> string \<Rightarrow> session_event list" where
  "session_events db key =
     events_of ic_org_id ic_session_id (\<lambda>c. (ic_user_id c, ic_observed_at c)) key (db_calls db)
     @ events_of dd_org_id dd_session_id (\<lambda>d. (dd_user_id d, dd_captured_at d)) key (db_decisions db)
     @ events_of eo_org_id eo_session_id (\<lambda>e. (eo_user_id e, eo_captured_at e)) key (db_edits db)
     @ events_of re_org_id re_session_id (\<lambda>e. (re_user_id e, re_captured_at e)) key (db_rejected db)
     @ events_of rl_org_id rl_session_id (\<lambda>l. (rl_user_id l, rl_captured_at l)) key (db_linkages db)
     @ events_of ca_org_id ca_session_id (\<lambda>a. (None, ca_captured_at a)) key (db_allocations db)
     @ events_of sc_org_id sc_session_id (\<lambda>s. (None, sc_captured_at s)) key (db_observations db)"

definition session_spec :: "session_event list \<Rightarrow> session_record option" where
  "session_spec events = (if events = [] then None else Some (summarize events))"

section \<open>Merging summaries\<close>

lemma event_users_set: "set (event_users events) = {u. (Some u) \<in> fst ` set events}"
  by (force simp: event_users_def List.map_filter_def)

lemma event_users_distinct: "distinct (event_users events)"
  by (simp add: event_users_def)

lemma distinct_singleton: "distinct xs \<Longrightarrow> (case xs of [x] \<Rightarrow> Some x | _ \<Rightarrow> None) = Some u \<longleftrightarrow> set xs = {u}"
  by (cases xs rule: remdups_adj.cases) auto

lemma distinct_many: "distinct xs \<Longrightarrow> 1 < length xs \<longleftrightarrow> (\<exists>u v. u \<noteq> v \<and> {u, v} \<subseteq> set xs)"
  by (cases xs rule: remdups_adj.cases) auto

lemma summarize_user: "se_user_id (summarize events) = Some u \<longleftrightarrow> set (event_users events) = {u}"
  by (simp add: summarize_def distinct_singleton[OF event_users_distinct])

lemma summarize_conflict:
  "se_user_id_conflict (summarize events) \<longleftrightarrow> (\<exists>u v. u \<noteq> v \<and> {u, v} \<subseteq> set (event_users events))"
  by (simp add: summarize_def distinct_many[OF event_users_distinct, simplified])

lemma summarize_cong:
  assumes "set events = set events'"
  shows "summarize events = summarize events'"
proof (rule session_record.equality)
  have users: "set (event_users events) = set (event_users events')" by (simp add: event_users_set assms)
  show "se_user_id (summarize events) = se_user_id (summarize events')"
    by (rule option.expand) (use users summarize_user in \<open>metis option.collapse option.discI\<close>)+
qed (use assms in \<open>simp_all add: summarize_conflict event_users_set\<close>, simp_all add: summarize_def assms)

lemma event_users_append: "set (event_users (a @ b)) = set (event_users a) \<union> set (event_users b)"
  by (auto simp: event_users_set)

text \<open>No user, one user, or a conflict.\<close>

lemma summarize_none: "set (event_users events) = {} \<Longrightarrow>
    se_user_id (summarize events) = None \<and> \<not> se_user_id_conflict (summarize events)"
  by (simp add: summarize_def)

lemma summarize_one: "set (event_users events) = {u} \<Longrightarrow>
    se_user_id (summarize events) = Some u \<and> \<not> se_user_id_conflict (summarize events)"
  using summarize_user[of events u] summarize_conflict[of events] by auto

lemma summarize_many:
  assumes "u \<in> set (event_users events)" "v \<in> set (event_users events)" "u \<noteq> v"
  shows "se_user_id (summarize events) = None \<and> se_user_id_conflict (summarize events)"
proof -
  have "set (event_users events) \<noteq> {w}" for w using assms by (metis singletonD)
  then have "se_user_id (summarize events) \<noteq> Some w" for w by (simp add: summarize_user)
  then have "se_user_id (summarize events) = None" by (meson not_Some_eq)
  moreover have "se_user_id_conflict (summarize events)"
    unfolding summarize_conflict using assms by (intro exI[of _ u] exI[of _ v]) simp
  ultimately show ?thesis by simp
qed

lemma users_cases:
  obtains (none) "set (event_users events) = {}" | (one) u where "set (event_users events) = {u}"
  | (many) u v where "u \<in> set (event_users events)" "v \<in> set (event_users events)" "u \<noteq> v"
  by (cases "event_users events" rule: remdups_adj.cases)
    (use event_users_distinct[of events] in \<open>auto dest: that\<close>)

lemma merge_users:
  "se_user_id (merge_session (summarize a) (summarize b)) = se_user_id (summarize (a @ b))
   \<and> se_user_id_conflict (merge_session (summarize a) (summarize b)) = se_user_id_conflict (summarize (a @ b))"
proof (cases a rule: users_cases)
  case a: none
  show ?thesis
    by (cases b rule: users_cases)
      (use a summarize_none[of a] summarize_none[of b] summarize_one[of b] summarize_many[of _ b] event_users_append[of a b]
        summarize_none[of "a @ b"] summarize_one[of "a @ b"] summarize_many[of _ "a @ b"]
       in \<open>auto simp: merge_session_def Let_def\<close>)
next
  case a: (one u)
  show ?thesis
  proof (cases b rule: users_cases)
    case b: none
    then show ?thesis using a summarize_one[OF a] summarize_none[OF b] summarize_one[of "a @ b" u]
      by (simp add: merge_session_def Let_def event_users_append)
  next
    case b: (one v)
    then show ?thesis
      using a summarize_one[OF a] summarize_one[OF b] summarize_one[of "a @ b" u] summarize_many[of u "a @ b" v]
      by (cases "u = v") (simp_all add: merge_session_def Let_def event_users_append)
  next
    case b: (many v w)
    then show ?thesis using summarize_one[OF a] summarize_many[OF b] summarize_many[of v "a @ b" w]
      by (simp add: merge_session_def Let_def event_users_append)
  qed
next
  case a: (many u v)
  then have "se_user_id (summarize (a @ b)) = None \<and> se_user_id_conflict (summarize (a @ b))"
    by (intro summarize_many[of u _ v]) (simp_all add: event_users_append)
  then show ?thesis using summarize_many[OF a] by (simp add: merge_session_def Let_def)
qed

lemma merge_summaries:
  assumes "a \<noteq> []" "b \<noteq> []"
  shows "merge_session (summarize a) (summarize b) = summarize (a @ b)"
proof (rule session_record.equality)
  show "se_first_observed_at (merge_session (summarize a) (summarize b)) = se_first_observed_at (summarize (a @ b))"
    "se_last_observed_at (merge_session (summarize a) (summarize b)) = se_last_observed_at (summarize (a @ b))"
    using assms by (simp_all add: merge_session_def Let_def, simp_all add: summarize_def Min_Un Max_Un image_Un)
qed (use merge_users[of a b] in simp_all)

section \<open>The Sessions refine their specification\<close>

definition sessions_ok :: "fact_db \<Rightarrow> bool" where
  "sessions_ok db \<longleftrightarrow> (\<forall>key. fmlookup (db_sessions db) key = session_spec (session_events db key))"

lemma session_spec_cong: "set events = set events' \<Longrightarrow> session_spec events = session_spec events'"
  using summarize_cong[of events events'] by (auto simp: session_spec_def)

lemma session_upsert_lookup:
  "fmlookup (session_upsert_values key row m) k =
     (if k = key then Some (case fmlookup m key of None \<Rightarrow> row | Some old \<Rightarrow> merge_session old row) else fmlookup m k)"
  by (simp add: session_upsert_values_def)

lemma observed_summary: "observed_session user t = summarize [(user, t)]"
  by (cases user) (simp_all add: observed_session_def summarize_def event_users_def List.map_filter_def)

lemma upsert_spec:
  assumes "b \<noteq> []" "set c = set a \<union> set b"
  shows "Some (case session_spec a of None \<Rightarrow> summarize b | Some old \<Rightarrow> merge_session old (summarize b)) = session_spec c"
proof (cases "a = []")
  case True
  then show ?thesis using assms summarize_cong[of c b] by (auto simp: session_spec_def)
next
  case False
  then show ?thesis using assms merge_summaries[of a b] summarize_cong[of c "a @ b"] by (auto simp: session_spec_def)
qed

lemma upsert_ok:
  assumes "sessions_ok db" "db_sessions db' = session_upsert_values key (observed_session user t) (db_sessions db)"
    and "\<And>k. set (session_events db' k) = set (session_events db k) \<union> (if k = key then {(user, t)} else {})"
  shows "sessions_ok db'"
  unfolding sessions_ok_def
proof
  fix k :: "string \<times> string"
  have old: "fmlookup (db_sessions db) k = session_spec (session_events db k)"
    using assms(1) unfolding sessions_ok_def by blast
  show "fmlookup (db_sessions db') k = session_spec (session_events db' k)"
  proof (cases "k = key")
    case True
    then show ?thesis
      using upsert_spec[of "[(user, t)]" "session_events db' k" "session_events db k"] assms(3)[of k] old
      by (simp add: assms(2) session_upsert_lookup observed_summary)
  next
    case False
    then show ?thesis using assms(3)[of k] old session_spec_cong[of "session_events db' k" "session_events db k"]
      by (simp add: assms(2) session_upsert_lookup)
  qed
qed

text \<open>Every Session of a batch gets one row, the summary of the decisions inserted for it.\<close>

lemma fold_upsert_lookup:
  "distinct ks \<Longrightarrow> fmlookup (fold (\<lambda>(key, row). session_upsert_values key row) (map (\<lambda>k. (k, row k)) ks) m) k =
     (if k \<in> set ks then Some (case fmlookup m k of None \<Rightarrow> row k | Some old \<Rightarrow> merge_session old (row k)) else fmlookup m k)"
  by (induction ks arbitrary: m) (auto simp: session_upsert_lookup)

abbreviation decision_events where
  "decision_events \<equiv> events_of dd_org_id dd_session_id (\<lambda>d. (dd_user_id d, dd_captured_at d))"

lemma session_metadata_rows:
  "session_metadata ds = map (\<lambda>key. (key, summarize (decision_events key ds)))
     (sorted_list_of_set ((\<lambda>d. (dd_org_id d, dd_session_id d)) ` set ds))"
proof -
  have "List.map_filter fst (map (\<lambda>d. (dd_user_id d, dd_captured_at d)) xs) = List.map_filter dd_user_id xs"
    for xs :: "developer_decision list"
    by (induction xs) (simp_all add: List.map_filter_def)
  then show ?thesis by (simp add: session_metadata_def summarize_def event_users_def events_of_def Let_def image_image)
qed

lemma insert_each_rows: "fst (insert_each ds rows) = rows @ map fst (filter snd (zip ds (snd (insert_each ds rows))))"
proof (induction ds arbitrary: rows)
  case (Cons d ds)
  obtain rows1 stored where i: "insert_or_nothing dd_id decision_index d rows = (rows1, stored)" by fastforce
  obtain rows2 flags where e: "insert_each ds rows1 = (rows2, flags)" by fastforce
  show ?case using Cons.IH[of rows1] i e by (auto simp: insert_or_nothing_def split: if_splits)
qed simp

lemma decision_events_append: "decision_events key (xs @ ys) = decision_events key xs @ decision_events key ys"
  by (simp add: events_of_def)

lemma decisions_ok:
  assumes "sessions_ok db" "store_decisions redact ds db = (db', r)"
  shows "sessions_ok db'"
  unfolding sessions_ok_def
proof
  fix k :: "string \<times> string"
  define new where "new = map fst (filter snd (zip (map redact ds) (snd (insert_each (map redact ds) (db_decisions db)))))"
  have db': "db' = db\<lparr>db_decisions := db_decisions db @ new,
      db_sessions := fold (\<lambda>(key, row). session_upsert_values key row) (session_metadata new) (db_sessions db)\<rparr>"
    using assms(2) insert_each_rows[of "map redact ds" "db_decisions db"]
    by (auto simp: store_decisions_rows new_def Let_def split: prod.splits)
  have old: "fmlookup (db_sessions db) k = session_spec (session_events db k)"
    using assms(1) unfolding sessions_ok_def by blast
  have events: "set (session_events db' k) = set (session_events db k) \<union> set (decision_events k new)"
    by (auto simp: db' session_events_def decision_events_append)
  have none: "decision_events k new = [] \<longleftrightarrow> k \<notin> (\<lambda>d. (dd_org_id d, dd_session_id d)) ` set new"
    by (auto simp: events_of_def filter_empty_conv)
  have upserted: "fmlookup (db_sessions db') k = (if decision_events k new = [] then fmlookup (db_sessions db) k
     else Some (case fmlookup (db_sessions db) k of None \<Rightarrow> summarize (decision_events k new)
       | Some s \<Rightarrow> merge_session s (summarize (decision_events k new))))"
    by (simp add: db' session_metadata_rows fold_upsert_lookup none)
  show "fmlookup (db_sessions db') k = session_spec (session_events db' k)"
    using upsert_spec[of "decision_events k new" "session_events db' k" "session_events db k"]
      session_spec_cong[of "session_events db' k" "session_events db k"] events old
    by (simp add: upserted)
qed

lemmas session_changes = session_events_def session_upsert_def events_of_def

lemma step_sessions_ok: "store_step db db' \<Longrightarrow> sessions_ok db \<Longrightarrow> sessions_ok db'"
proof (induction rule: store_step.induct)
  case (call_step redact f db db' r)
  show ?case
    by (rule call_change[OF call_step(1)], use call_step(3) in simp,
        rule upsert_ok[OF call_step(3), of _ "(ic_org_id (redact f), ic_session_id (redact f))" "ic_user_id (redact f)" "ic_observed_at (redact f)"])
      (auto simp: session_changes)
next
  case (edit_step redact f db db' r)
  show ?case
    by (rule edit_change[OF edit_step(1)], use edit_step(3) in simp,
        rule upsert_ok[OF edit_step(3), of _ "(eo_org_id (redact f), eo_session_id (redact f))" "eo_user_id (redact f)" "eo_captured_at (redact f)"])
      (auto simp: session_changes)
next
  case (rejected_step redact f db db' r)
  show ?case
    by (rule rejected_change[OF rejected_step(1)], use rejected_step(3) in simp,
        rule upsert_ok[OF rejected_step(3), of _ "(re_org_id (redact f), re_session_id (redact f))" "re_user_id (redact f)" "re_captured_at (redact f)"])
      (auto simp: session_changes)
next
  case (linkage_step redact f db db' r)
  show ?case
    by (rule linkage_change[OF linkage_step(1)], use linkage_step(3) in simp,
        rule upsert_ok[OF linkage_step(3), of _ "(rl_org_id (redact f), rl_session_id (redact f))" "rl_user_id (redact f)" "rl_captured_at (redact f)"])
      (auto simp: session_changes)
next
  case (allocation_step f db db' r)
  show ?case
    by (rule allocation_change[OF allocation_step(1)], use allocation_step(3) in simp,
        rule upsert_ok[OF allocation_step(3), of _ "(ca_org_id f, ca_session_id f)" "None" "ca_captured_at f"])
      (auto simp: session_changes)
next
  case (observation_step f db db' r)
  show ?case
    by (rule observation_change[OF observation_step(1)], use observation_step(3) in simp,
        rule upsert_ok[OF observation_step(3), of _ "(sc_org_id f, sc_session_id f)" "None" "sc_captured_at f"])
      (auto simp: session_changes)
next
  case (outcome_step redact f db db' r)
  from outcome_step(1) show ?case
    by (rule outcome_change) (use outcome_step(3) in \<open>auto simp: sessions_ok_def session_events_def\<close>)
next
  case (push_step f db db' r)
  from push_step(1) show ?case
    by (rule push_change) (use push_step(3) in \<open>auto simp: sessions_ok_def session_events_def\<close>)
next
  case (merge_step f db db' r)
  from merge_step(1) show ?case
    by (rule merge_change) (use merge_step(3) in \<open>auto simp: sessions_ok_def session_events_def\<close>)
next
  case (revision_step f db db' r)
  from revision_step(1) show ?case
    by (rule revision_change) (use revision_step(3) in \<open>auto simp: sessions_ok_def session_events_def\<close>)
next
  case (rename_step f db db' r)
  from rename_step(1) show ?case
    by (rule rename_change) (use rename_step(3) in \<open>auto simp: sessions_ok_def session_events_def\<close>)
next
  case (decisions_step redact fs db db' r)
  then show ?case using decisions_ok by blast
next
  case (quarantine_step at_head q db db')
  then show ?case
    by (auto simp: append_quarantine_def sessions_ok_def session_events_def split: if_splits elim!: bind_result_Inr)
next
  case (bulk_step at_head collate new_id now org_id between session provider reason dry_run db db' n)
  then show ?case
    by (auto simp: quarantine_inference_calls_where_def sessions_ok_def session_events_def Let_def
        split: if_splits elim!: bind_result_Inr)
qed

lemma reachable_sessions_ok: "store_step\<^sup>*\<^sup>* empty_db db \<Longrightarrow> sessions_ok db"
proof (induction rule: rtranclp_induct)
  case base
  show ?case by (simp add: sessions_ok_def session_spec_def session_changes empty_db_def)
next
  case (step db' db'')
  then show ?case by (blast intro: step_sessions_ok)
qed

text \<open>C5. The Session rows refine their specification: whatever sequence of store calls, batches and quarantine
  actions led to a database, the row of each Session is the summary of the Facts stored for it - the
  smallest and the largest observation time, the one user they name, or no user and a conflict when they
  name several - and a Session without Facts has no row.
\<close>

theorem sessions_refine:
  "store_step\<^sup>*\<^sup>* empty_db db \<Longrightarrow> fmlookup (db_sessions db) key = session_spec (session_events db key)"
  using reachable_sessions_ok unfolding sessions_ok_def by blast

theorem sessions_refine_witness:
  "fmlookup (db_sessions sample_db) (''acme'', ''s1'') = session_spec (session_events sample_db (''acme'', ''s1''))"
  by (rule sessions_refine[OF sample_db_reachable])

section \<open>Batches\<close>

text \<open>One decision at a time.\<close>

definition store_each ::
  "(developer_decision \<Rightarrow> developer_decision) \<Rightarrow> developer_decision \<Rightarrow> fact_db \<times> bool list \<Rightarrow> fact_db \<times> bool list" where
  "store_each redact d = (\<lambda>(db, flags). case store_decision redact d db of (db, stored) \<Rightarrow> (db, flags @ [stored]))"

lemma sessions_determined:
  assumes "sessions_ok db" "sessions_ok db'" "db' = db\<lparr>db_sessions := m\<rparr>"
  shows "db' = db"
proof -
  have "session_events db' = session_events db" by (rule ext) (simp add: assms(3) session_events_def)
  then have "db_sessions db' = db_sessions db"
    by (intro fmap_ext) (use assms(1,2) in \<open>metis sessions_ok_def\<close>)
  then show ?thesis using assms(3) by simp
qed

lemma store_decision_row:
  assumes "insert_or_nothing dd_id decision_index (redact d) (db_decisions db) = (rows, stored)"
  obtains m where "store_decision redact d db = (db\<lparr>db_decisions := rows, db_sessions := m\<rparr>, stored)"
  using assms by (simp add: store_decision_def store_decisions_rows)

lemma store_each_fold:
  assumes "sessions_ok db"
  shows "\<exists>m. fold (store_each redact) ds (db, flags) =
      (db\<lparr>db_decisions := fst (insert_each (map redact ds) (db_decisions db)), db_sessions := m\<rparr>,
       flags @ snd (insert_each (map redact ds) (db_decisions db)))
    \<and> sessions_ok (fst (fold (store_each redact) ds (db, flags)))"
  using assms
proof (induction ds arbitrary: db flags)
  case Nil
  show ?case by (rule exI[of _ "db_sessions db"]) (use Nil in simp)
next
  case (Cons d ds)
  obtain rows stored where i: "insert_or_nothing dd_id decision_index (redact d) (db_decisions db) = (rows, stored)"
    by fastforce
  obtain m1 where one: "store_decision redact d db = (db\<lparr>db_decisions := rows, db_sessions := m1\<rparr>, stored)"
    using store_decision_row[of redact d db] i by blast
  define db1 where "db1 = db\<lparr>db_decisions := rows, db_sessions := m1\<rparr>"
  have "store_decisions redact [d] db = (db1, snd (store_decisions redact [d] db))"
    using one by (auto simp: store_decision_def db1_def split: prod.splits)
  then have "sessions_ok db1" using decisions_ok Cons.prems by blast
  from Cons.IH[OF this, of "flags @ [stored]"] obtain m where
    "fold (store_each redact) ds (db1, flags @ [stored]) =
      (db1\<lparr>db_decisions := fst (insert_each (map redact ds) (db_decisions db1)), db_sessions := m\<rparr>,
       (flags @ [stored]) @ snd (insert_each (map redact ds) (db_decisions db1)))"
    "sessions_ok (fst (fold (store_each redact) ds (db1, flags @ [stored])))" by blast
  moreover have "store_each redact d (db, flags) = (db1, flags @ [stored])" by (simp add: store_each_def one db1_def)
  ultimately show ?case by (intro exI[of _ m]) (simp add: i db1_def case_prod_beta)
qed

text \<open>C6. A batch of decisions does exactly what storing them one by one does, whatever its length: the same
  rows, the same Session rows, and for each decision the same answer whether it was inserted - although the
  batch is inserted in statements of 3,750 rows, reads back only the keys of the inserted rows, counts
  repeated keys down and upserts one summary per Session.
\<close>

theorem decisions_batch_sequential:
  "store_step\<^sup>*\<^sup>* empty_db db \<Longrightarrow> store_decisions redact ds db = fold (store_each redact) ds (db, [])"
proof -
  assume "store_step\<^sup>*\<^sup>* empty_db db"
  then have ok: "sessions_ok db" by (rule reachable_sessions_ok)
  let ?batch = "store_decisions redact ds db" and ?each = "fold (store_each redact) ds (db, [])"
  obtain m where each: "?each = (db\<lparr>db_decisions := fst (insert_each (map redact ds) (db_decisions db)), db_sessions := m\<rparr>,
      snd (insert_each (map redact ds) (db_decisions db)))" and ok': "sessions_ok (fst ?each)"
    using store_each_fold[OF ok, of redact ds "[]"] by auto
  have ok'': "sessions_ok (fst ?batch)" using decisions_ok[OF ok] by (metis prod.collapse)
  have "fst ?each = (fst ?batch)\<lparr>db_sessions := m\<rparr>" and flags: "snd ?each = snd ?batch"
    by (simp_all add: each store_decisions_rows Let_def case_prod_beta)
  from sessions_determined[OF ok'' ok' this(1)] flags show ?thesis by (simp add: prod_eq_iff)
qed

definition sample_decision :: "string \<Rightarrow> string option \<Rightarrow> instant \<Rightarrow> developer_decision" where
  "sample_decision i user t = \<lparr>dd_id = i, dd_org_id = ''acme'', dd_session_id = ''s1'', dd_user_id = user,
     dd_agent_harness = CLAUDE_CODE, dd_file_path = ''f'', dd_accepted = True, dd_explicit = True,
     dd_interaction_mode = AGENT, dd_commit_sha = None, dd_call_id = None, dd_edit_retention_score = None,
     dd_observation_delay_ms = None, dd_occurred_at = t, dd_captured_at = t, dd_raw = []\<rparr>"

theorem decisions_batch_sequential_witness:
  "store_decisions id [sample_decision ''d1'' (Some ''v'') 1, sample_decision ''d1'' None 2, sample_decision ''d3'' None 9] sample_db
   = fold (store_each id) [sample_decision ''d1'' (Some ''v'') 1, sample_decision ''d1'' None 2, sample_decision ''d3'' None 9]
       (sample_db, [])"
  by (rule decisions_batch_sequential[OF sample_db_reachable])

end
