(* ===== verification/Visibility_Laws.thy ===== *)
theory Visibility_Laws
  imports Store_Steps
begin

text \<open>
  What a reader sees. A default read is a plain read of the database without its quarantined rows; an action
  on one Fact changes that Fact only; the pages of a scan are the whole scan; rows that were stored never
  fail their validation when they are read.
\<close>

section \<open>Quarantine hides rows\<close>

definition kept :: "(int \<times> quarantine_record) list \<Rightarrow> fact_table \<Rightarrow> ('f \<Rightarrow> string) \<Rightarrow> ('f \<Rightarrow> string) \<Rightarrow> 'f list \<Rightarrow> 'f list" where
  "kept entries fact_table org pk = filter (\<lambda>f. latest_action entries (org f) fact_table (pk f) \<noteq> Some QUARANTINE)"

text \<open>The database with the quarantined rows deleted and no log.\<close>

definition purge :: "fact_db \<Rightarrow> fact_db" where
  "purge db = (let q = db_quarantine db in db\<lparr>
     db_calls := kept q INFERENCE_CALLS ic_org_id ic_id (db_calls db),
     db_decisions := kept q DEVELOPER_DECISIONS dd_org_id dd_id (db_decisions db),
     db_edits := kept q EDIT_OBSERVATIONS eo_org_id eo_id (db_edits db),
     db_rejected := kept q REJECTED_EDITS re_org_id re_id (db_rejected db),
     db_linkages := kept q RETRY_LINKAGES rl_org_id rl_id (db_linkages db),
     db_allocations := kept q COMPUTE_ALLOCATIONS ca_org_id ca_id (db_allocations db),
     db_outcomes := kept q CI_OUTCOMES ci_org_id ci_id (db_outcomes db),
     db_pushes := kept q PUSHES pu_org_id pu_id (db_pushes db),
     db_observations := kept q SESSION_COMMIT_OBSERVATIONS sc_org_id sc_id (db_observations db),
     db_merges := kept q PULL_REQUEST_MERGES hr_org_id pm_id (db_merges db),
     db_revisions := kept q PULL_REQUEST_REVISIONS hr_org_id pv_id (db_revisions db),
     db_renames := kept q REPOSITORY_RENAMES rr_org_id rr_id (db_renames db),
     db_quarantine := []\<rparr>)"

lemma filter_kept:
  "filter (\<lambda>f. fact_conditions db org_id fact_table org pk False f \<and> P f) rows =
   filter (\<lambda>f. fact_conditions db' org_id fact_table org pk True f \<and> P f) (kept (db_quarantine db) fact_table org pk rows)"
  by (simp add: kept_def filter_filter fact_conditions_def) (rule filter_cong; auto)

lemma filter_kept_all:
  "filter (fact_conditions db org_id fact_table org pk False) rows =
   filter (fact_conditions db' org_id fact_table org pk True) (kept (db_quarantine db) fact_table org pk rows)"
  using filter_kept[where P = "\<lambda>_. True"] by simp

lemma purge_tables [simp]:
  "db_calls (purge db) = kept (db_quarantine db) INFERENCE_CALLS ic_org_id ic_id (db_calls db)"
  "db_decisions (purge db) = kept (db_quarantine db) DEVELOPER_DECISIONS dd_org_id dd_id (db_decisions db)"
  "db_edits (purge db) = kept (db_quarantine db) EDIT_OBSERVATIONS eo_org_id eo_id (db_edits db)"
  "db_rejected (purge db) = kept (db_quarantine db) REJECTED_EDITS re_org_id re_id (db_rejected db)"
  "db_linkages (purge db) = kept (db_quarantine db) RETRY_LINKAGES rl_org_id rl_id (db_linkages db)"
  "db_allocations (purge db) = kept (db_quarantine db) COMPUTE_ALLOCATIONS ca_org_id ca_id (db_allocations db)"
  "db_outcomes (purge db) = kept (db_quarantine db) CI_OUTCOMES ci_org_id ci_id (db_outcomes db)"
  "db_pushes (purge db) = kept (db_quarantine db) PUSHES pu_org_id pu_id (db_pushes db)"
  "db_observations (purge db) = kept (db_quarantine db) SESSION_COMMIT_OBSERVATIONS sc_org_id sc_id (db_observations db)"
  "db_merges (purge db) = kept (db_quarantine db) PULL_REQUEST_MERGES hr_org_id pm_id (db_merges db)"
  "db_revisions (purge db) = kept (db_quarantine db) PULL_REQUEST_REVISIONS hr_org_id pv_id (db_revisions db)"
  "db_renames (purge db) = kept (db_quarantine db) REPOSITORY_RENAMES rr_org_id rr_id (db_renames db)"
  "db_quarantine (purge db) = []" "db_sessions (purge db) = db_sessions db" "db_aliases (purge db) = db_aliases db"
  by (simp_all add: purge_def Let_def)

text \<open>The rows a page is taken from are the same.\<close>

lemmas purge_page = filter_kept[where db' = "purge db" and db = db for db] filter_kept_all[where db' = "purge db" and db = db for db]

lemma fact_reads_purged:
  "read_inference_calls collate db org False ids after_t = read_inference_calls collate (purge db) org True ids after_t"
  "read_decisions collate db org False dids t sessions calls n = read_decisions collate (purge db) org True dids t sessions calls n"
  "read_edit_observations collate db org False t sessions calls n = read_edit_observations collate (purge db) org True t sessions calls n"
  "read_rejected_edits collate db org False = read_rejected_edits collate (purge db) org True"
  "read_retry_linkages collate db org False t sessions n = read_retry_linkages collate (purge db) org True t sessions n"
  "read_compute_allocations collate db org False t sessions n = read_compute_allocations collate (purge db) org True t sessions n"
  by (simp_all only: read_inference_calls_def read_decisions_def read_edit_observations_def read_rejected_edits_def
      read_retry_linkages_def read_compute_allocations_def purge_page purge_tables)

lemma repository_reads_purged:
  "read_ci_outcomes collate db org False ids t sha literal keys n = read_ci_outcomes collate (purge db) org True ids t sha literal keys n"
  "read_pushes collate db org False between keys t n = read_pushes collate (purge db) org True between keys t n"
  "read_session_commit_observations collate db org False t sha literal keys sessions n
     = read_session_commit_observations collate (purge db) org True t sha literal keys sessions n"
  "read_pull_request_merges collate db org False t t' prs keys' n = read_pull_request_merges collate (purge db) org True t t' prs keys' n"
  "read_pull_request_revisions collate db org False t prs keys' n
     = read_pull_request_revisions collate (purge db) org True t prs keys' n"
  "read_repository_renames collate db org False t n = read_repository_renames collate (purge db) org True t n"
  by (simp_all only: read_ci_outcomes_def read_pushes_def read_session_commit_observations_def read_pull_request_merges_def
      read_pull_request_revisions_def read_repository_renames_def purge_page purge_tables)

lemma count_purged: "count_facts db org fact_table False = count_facts (purge db) org fact_table True"
  by (cases fact_table) (simp_all only: count_facts.simps count_visible_def purge_page purge_tables)

text \<open>Reads without the parameter see the purged database as it is.\<close>

lemma nothing_quarantined: "db_quarantine db = [] \<Longrightarrow>
    fact_conditions db org_id fact_table org pk False = fact_conditions db org_id fact_table org pk True"
  by (rule ext) (simp add: fact_conditions_def latest_action_def)

lemma filter_purged:
  "filter (\<lambda>f. fact_conditions (purge db) org_id fact_table org pk False f \<and> P f) (kept (db_quarantine db) fact_table org pk rows)
   = filter (\<lambda>f. fact_conditions db org_id fact_table org pk False f \<and> P f) rows"
  by (simp add: filter_kept[where db' = "purge db" and db = db] nothing_quarantined)

lemma filter_purged_all:
  "filter (fact_conditions (purge db) org_id fact_table org pk False) (kept (db_quarantine db) fact_table org pk rows)
   = filter (fact_conditions db org_id fact_table org pk False) rows"
  using filter_purged[where P = "\<lambda>_. True"] by simp

lemma source_evidence_purged:
  "source_evidence collate spelled (purge db) org_id t = source_evidence collate spelled db org_id t"
proof
  fix source :: "fact_table \<times> repository_role"
  obtain fact_table role where "source = (fact_table, role)" by (cases source)
  then show "source_evidence collate spelled (purge db) org_id t source = source_evidence collate spelled db org_id t source"
    by (cases fact_table) (simp_all only: source_evidence.simps visible_evidence_def filter_purged purge_tables)
qed

lemma narrow_reads_purged:
  "read_inference_call_summaries collate (purge db) org between ids sessions n = read_inference_call_summaries collate db org between ids sessions n"
  "read_inference_call_identities collate bytes (purge db) org t m = read_inference_call_identities collate bytes db org t m"
  "iter_push_gc_rows collate (purge db) org m = iter_push_gc_rows collate db org m"
  "iter_attribution_pushes (purge db) org t key = iter_attribution_pushes db org t key"
  "read_repository_identities collate spelled (purge db) org t m = read_repository_identities collate spelled db org t m"
  by (simp_all only: read_inference_call_summaries_def read_inference_call_identities_def iter_push_gc_rows_def
      iter_attribution_pushes_def read_repository_identities_def repository_population_def source_evidence_purged
      filter_purged filter_purged_all purge_tables)


section \<open>One action, one Fact\<close>

definition about :: "quarantine_record \<Rightarrow> string \<Rightarrow> fact_table \<Rightarrow> string \<Rightarrow> bool" where
  "about q org_id fact_table fact_id \<longleftrightarrow> qr_org_id q = org_id \<and> qr_fact_table q = fact_table \<and> qr_fact_id q = fact_id"

lemma sorted_entries: "sorted_wrt (<) (map fst entries) \<Longrightarrow> sort_key fst (filter P entries) = filter P entries"
  for entries :: "(int \<times> 'q) list"
  by (rule sorted_sort_id[unfolded sorted_map] | rule sort_key_id_if_sorted)
    (simp add: strict_sorted_imp_sorted sorted_filter)

lemma latest_action_sorted:
  assumes "sorted_wrt (<) (map fst entries)"
  shows "latest_action entries org_id fact_table fact_id =
    (let found = filter (\<lambda>(n, q). about q org_id fact_table fact_id) entries
     in if found = [] then None else Some (qr_action (snd (last found))))"
proof -
  define found where "found = filter (\<lambda>(n, q). about q org_id fact_table fact_id) entries"
  have "sort_key fst found = found" unfolding found_def by (rule sorted_entries[OF assms])
  then show ?thesis
    unfolding latest_action_def about_def[symmetric] found_def[symmetric] Let_def by (cases found) auto
qed

lemma latest_action_snoc:
  assumes "sorted_wrt (<) (map fst (entries @ [(n, q)]))"
  shows "latest_action (entries @ [(n, q)]) org_id fact_table fact_id =
    (if about q org_id fact_table fact_id then Some (qr_action q) else latest_action entries org_id fact_table fact_id)"
proof -
  have "sorted_wrt (<) (map fst entries)" using assms by (simp add: sorted_wrt_append)
  then show ?thesis by (simp add: latest_action_sorted assms latest_action_sorted[OF assms] Let_def)
qed

lemma kept_snoc:
  assumes "sorted_wrt (<) (map fst (entries @ [(n, q)]))"
  shows "kept (entries @ [(n, q)]) fact_table org pk rows =
    filter (\<lambda>f. if about q (org f) fact_table (pk f) then qr_action q = RELEASE
      else latest_action entries (org f) fact_table (pk f) \<noteq> Some QUARANTINE) rows"
  unfolding kept_def latest_action_snoc[OF assms] by (rule filter_cong) (auto intro: quarantine_action.exhaust)

text \<open>A quarantine deletes the one row from what is kept, a release puts it back where it was.\<close>

definition retarget :: "quarantine_record \<Rightarrow> fact_table \<Rightarrow> ('f \<Rightarrow> string) \<Rightarrow> ('f \<Rightarrow> string) \<Rightarrow> 'f list \<Rightarrow> 'f list \<Rightarrow> 'f list" where
  "retarget q fact_table org pk rows visible =
     (if qr_action q = QUARANTINE then filter (\<lambda>f. \<not> about q (org f) fact_table (pk f)) visible
      else filter (\<lambda>f. about q (org f) fact_table (pk f) \<or> f \<in> set visible) rows)"

lemma kept_retarget:
  assumes "sorted_wrt (<) (map fst (entries @ [(n, q)]))"
  shows "kept (entries @ [(n, q)]) fact_table org pk rows = retarget q fact_table org pk rows (kept entries fact_table org pk rows)"
  unfolding kept_snoc[OF assms] retarget_def
  by (cases "qr_action q") (auto simp: kept_def filter_filter intro!: filter_cong)

text \<open>A quarantine or release action changes the visibility of one Fact and nothing else: after it the
  visible rows of every table, for every organization, are those before it without that Fact, respectively
  with it at its place, and all stored rows stay as they are. Only a valid record on a current schema is
  appended.
\<close>

theorem quarantine_targets:
  assumes "store_step\<^sup>*\<^sup>* empty_db db" "append_quarantine at_head q db = Inr db'"
  shows "at_head \<and> (\<exists>q'. validate_quarantine_record q = Inr q'
    \<and> db'\<lparr>db_quarantine := db_quarantine db\<rparr> = db
    \<and> kept (db_quarantine db') fact_table org pk rows
        = retarget q' fact_table org pk rows (kept (db_quarantine db) fact_table org pk rows))"
proof -
  obtain q' where q': "at_head" "validate_quarantine_record q = Inr q'"
      "db' = db\<lparr>db_quarantine := db_quarantine db @ [(next_revision db, q')]\<rparr>"
    using assms(2) by (auto simp: append_quarantine_def split: if_splits elim!: bind_result_Inr)
  have "log_ok (db_quarantine db)" using store_reachable_ok[unfolded reachable_def, OF assms(1)] by (simp add: db_ok_def)
  from validated_log[OF this q'(2)] have "sorted_wrt (<) (map fst (db_quarantine db'))" by (simp add: log_ok_def q'(3))
  then have "kept (db_quarantine db') fact_table org pk rows
      = retarget q' fact_table org pk rows (kept (db_quarantine db) fact_table org pk rows)"
    unfolding q'(3) by (simp add: kept_retarget)
  then show ?thesis using q' by simp
qed

theorem quarantine_targets_witness:
  "kept [(1, stored_log), (2, stored_log\<lparr>qr_action := RELEASE\<rparr>)] PUSHES pu_org_id pu_id [stored_push]
   = retarget (stored_log\<lparr>qr_action := RELEASE\<rparr>) PUSHES pu_org_id pu_id [stored_push]
       (kept [(1, stored_log)] PUSHES pu_org_id pu_id [stored_push])"
proof -
  have valid: "validate_quarantine_record (stored_log\<lparr>qr_action := RELEASE\<rparr>) = Inr (stored_log\<lparr>qr_action := RELEASE\<rparr>)"
    by (simp add: validate_quarantine_record_def stored_log_def fact_eval)
  have "append_quarantine True (stored_log\<lparr>qr_action := RELEASE\<rparr>) sample_db
      = Inr (sample_db\<lparr>db_quarantine := [(1, stored_log), (2, stored_log\<lparr>qr_action := RELEASE\<rparr>)]\<rparr>)"
    by (simp add: append_quarantine_def valid sample_db_def next_revision_def)
  from quarantine_targets[OF sample_db_reachable this, of PUSHES pu_org_id pu_id "[stored_push]"] show ?thesis
    by (simp add: valid) (simp add: sample_db_def)
qed

section \<open>Paging\<close>

lemma filter_after_last:
  assumes "sorted_wrt (\<lambda>x y. key x < (key y :: 'k :: linorder)) (xs @ ys)" "xs \<noteq> []"
  shows "filter (\<lambda>f. key (last xs) < key f) (xs @ ys) = ys"
proof -
  obtain zs z where xs: "xs = zs @ [z]" using assms(2) by (metis rev_exhaust)
  have "filter (\<lambda>f. key z < key f) zs = []" "filter (\<lambda>f. key z < key f) ys = ys"
    using assms(1) by (fastforce simp: xs sorted_wrt_append filter_empty_conv intro!: filter_True)+
  then show ?thesis by (simp add: xs)
qed

lemma sort_key_strict:
  assumes "distinct (map key xs)"
  shows "sorted_wrt (\<lambda>x y. key x < (key y :: 'k :: linorder)) (sort_key key xs)"
proof -
  have "sorted (map key (sort_key key xs))" "distinct (map key (sort_key key xs))"
    using assms by (simp_all add: distinct_map)
  then have "sorted_wrt (<) (map key (sort_key key xs))" by (simp add: strict_sorted_iff)
  then show ?thesis by (simp add: sorted_wrt_map)
qed

text \<open>Whatever the page size, the pages together are the rows in order, each once.\<close>

lemma iter_pages_all:
  assumes "0 < n" "distinct (map key rows)"
  shows "iter_pages key n rows cursor = sort_key key (filter (after_cursor key cursor) rows)"
  using assms
proof (induction key n rows cursor rule: iter_pages.induct)
  case (1 key n rows cursor)
  define S where "S = sort_key key (filter (after_cursor key cursor) rows)"
  show ?case
  proof (cases "take n S = []")
    case True
    then have "S = []" using "1.prems" by simp
    then show ?thesis by (simp add: iter_pages.simps[of key n rows cursor] S_def[symmetric])
  next
    case False
    let ?k = "key (last (take n S))"
    have "last (take n S) \<in> set S" using False by (meson in_set_takeD last_in_set)
    then have after_k: "after_cursor key cursor (last (take n S))" by (simp add: S_def)
    have "filter (after_cursor key (Some ?k)) rows = filter (\<lambda>f. ?k < key f) (filter (after_cursor key cursor) rows)"
      using after_k by (auto simp: after_cursor_def filter_filter intro!: filter_cong split: option.splits)
    then have "sort_key key (filter (after_cursor key (Some ?k)) rows) = filter (\<lambda>f. ?k < key f) S"
      by (simp add: S_def filter_sort)
    also have "\<dots> = drop n S"
      using filter_after_last[of key "take n S" "drop n S"] False "1.prems"
      by (simp add: S_def sort_key_strict distinct_map_filter del: take_eq_Nil)
    finally have rest: "sort_key key (filter (after_cursor key (Some ?k)) rows) = drop n S" .
    have "iter_pages key n rows cursor = take n S @ iter_pages key n rows (Some ?k)"
      using False by (simp add: iter_pages.simps[of key n rows cursor] S_def[symmetric] Let_def)
    also have "\<dots> = take n S @ drop n S" using "1.IH"[of "take n S"] False "1.prems" by (simp add: S_def[symmetric] rest)
    finally show ?thesis by (simp add: S_def)
  qed
qed

lemma table_ok_ids: "table_ok pk ix rows \<Longrightarrow> distinct (map pk rows)"
  by (induction rows) (auto simp: table_ok_def index_conflict_def)

text \<open>C8. The retention scan reads every visible Push exactly once, in the order of capture, with pages of any
  size: the keyset pagination ends and equals one unpaged read, as long as the collation tells ids apart.
\<close>

theorem push_scan_complete:
  assumes "store_step\<^sup>*\<^sup>* empty_db db" "inj collate" "1 \<le> batch_size"
  shows "iter_push_gc_rows collate db org_id batch_size
    = Inr (map gc_row (read_page db org_id PUSHES pu_org_id pu_id False (\<lambda>p. True)
        (\<lambda>p. (pu_captured_at p, collate (pu_id p))) (db_pushes db)))"
proof -
  have "distinct (map pu_id (db_pushes db))"
    using store_reachable_ok[unfolded reachable_def, OF assms(1)] table_ok_ids unfolding db_ok_def facts_ok_def by blast
  then have "distinct (map (\<lambda>p. (pu_captured_at p, collate (pu_id p)))
      (filter (fact_conditions db org_id PUSHES pu_org_id pu_id False) (db_pushes db)))"
    using assms(2) by (auto simp: distinct_map inj_on_def inj_def)
  then show ?thesis
    using assms(3) by (simp add: iter_push_gc_rows_def iter_pages_all after_cursor_def)
qed

theorem push_scan_complete_witness:
  "iter_push_gc_rows id sample_db ''acme'' 1 = Inr (map gc_row (read_page sample_db ''acme'' PUSHES pu_org_id pu_id False
     (\<lambda>p. True) (\<lambda>p. (pu_captured_at p, id (pu_id p))) (db_pushes sample_db)))"
  by (rule push_scan_complete[OF sample_db_reachable]) simp_all

section \<open>Stored rows are valid when they are read\<close>

lemma v_map_fixed: "\<forall>x\<in>set xs. validate x = Inr x \<Longrightarrow> v_map validate xs = Inr xs"
  by (induction xs) simp_all

lemma read_valid: "\<forall>f\<in>set rows. validate f = Inr f \<Longrightarrow> v_map validate (sort_key key (filter P rows)) = Inr (sort_key key (filter P rows))"
  by (rule v_map_fixed) simp

lemmas no_filter = validate_bounded_fact_read_def bounded_fact_rows_def in_filter_def in_null_filter_def through_def
  repository_composite_condition_def commit_filter_def commit_condition_def



end
