(* ===== verification/Fact_Projections.thy ===== *)
theory Fact_Projections
  imports Fact_Reads "HOL-Library.AList"
begin

text \<open>
  The narrow reads of \<open>store.py\<close>: projections that leave the raw payload or the message bodies in the
  database, the content reads under a byte budget, the counts of a Session, and the witnesses of a
  repository context. \<open>bytes\<close> gives the octets of the encoded content columns a statement selects.
\<close>

section \<open>Inference calls\<close>

definition INFERENCE_REPORT_ROW_LIMIT :: int where
  "INFERENCE_REPORT_ROW_LIMIT = 50000"

definition INFERENCE_SESSION_BYTES_LIMIT :: int where
  "INFERENCE_SESSION_BYTES_LIMIT = 256 * 1024 * 1024"

abbreviation call_order_key :: "(string \<Rightarrow> string) \<Rightarrow> inference_call \<Rightarrow> instant \<times> string" where
  "call_order_key collate c \<equiv> (ic_observed_at c, collate (ic_id c))"

text \<open>The messages of a row are validated again when they are decoded. A projection is the call without the
  columns it leaves out, as the derivations take it.\<close>

definition decoded :: "bool \<Rightarrow> bool \<Rightarrow> inference_call \<Rightarrow> inference_call result" where
  "decoded with_input with_output c =
     bind_result (if with_input then v_map validate_message (ic_input_messages c) else Inr []) (\<lambda>input.
     bind_result (if with_output then v_map validate_message (ic_output_messages c) else Inr []) (\<lambda>output.
       Inr (c\<lparr>ic_input_messages := input, ic_output_messages := output, ic_raw := []\<rparr>)))"

text \<open>\<open>_inference_content_conditions\<close>\<close>

definition content_conditions ::
  "fact_db \<Rightarrow> string \<Rightarrow> string set option \<Rightarrow> instant option \<Rightarrow> (inference_call \<Rightarrow> bool) result" where
  "content_conditions db org_id inference_call_ids observed_through =
     (if (case inference_call_ids of None \<Rightarrow> False | Some ids \<Rightarrow> card ids > 50000)
      then Inl (LimitExceeded ''Inference call selection exceeds 50000 IDs'')
      else Inr (\<lambda>c. fact_conditions db org_id INFERENCE_CALLS ic_org_id ic_id False c
        \<and> in_filter inference_call_ids (ic_id c) \<and> through observed_through (ic_observed_at c)))"

text \<open>The window, or the second window for the Sessions that notes name.\<close>

definition read_attribution_candidates ::
  "(string \<Rightarrow> string) \<Rightarrow> (inference_call \<Rightarrow> int) \<Rightarrow> fact_db \<Rightarrow> string \<Rightarrow> instant \<times> instant \<Rightarrow> int option
   \<Rightarrow> string list option \<Rightarrow> (instant \<times> instant) option \<Rightarrow> inference_call list result" where
  "read_attribution_candidates collate output_bytes db org_id observed_between limit note_session_ids notes_observed_between =
     bind_result (OrgId org_id) (\<lambda>org_id.
     let (lower, upper) = observed_between
     in if upper < lower then Inl (ValueError ''observed_between lower bound must not exceed upper'')
     else if (case limit of None \<Rightarrow> False | Some n \<Rightarrow> n \<le> 0)
     then Inl (ValueError ''Attribution candidate limit must be positive'')
     else if (note_session_ids = None) \<noteq> (notes_observed_between = None)
     then Inl (ValueError ''note Sessions and their observation window are required together'')
     else
     bind_result (case (note_session_ids, notes_observed_between) of
         (Some ids, Some (note_lower, note_upper)) \<Rightarrow>
           bind_result (validated_identity_filter ids) (\<lambda>ids.
             if note_upper < note_lower
             then Inl (ValueError ''notes_observed_between lower bound must not exceed upper'')
             else Inr (\<lambda>c. ic_session_id c \<in> ids \<and> note_lower \<le> ic_observed_at c \<and> ic_observed_at c \<le> note_upper))
       | _ \<Rightarrow> Inr (\<lambda>c. False)) (\<lambda>noted.
     let rows = limited limit (read_page db org_id INFERENCE_CALLS ic_org_id ic_id False
           (\<lambda>c. lower \<le> ic_observed_at c \<and> ic_observed_at c \<le> upper \<or> noted c) (call_order_key collate) (db_calls db))
     in bind_result (check_inference_payload_budget output_bytes ''Attribution candidate cohort'' limit
           (Some INFERENCE_PROJECTION_BYTES_LIMIT) rows)
          (\<lambda>_. v_map (decoded False True) rows)))"

definition read_report_inference_calls ::
  "(string \<Rightarrow> string) \<Rightarrow> (inference_call \<Rightarrow> int) \<Rightarrow> fact_db \<Rightarrow> string \<Rightarrow> string set option \<Rightarrow> instant option \<Rightarrow> int option
   \<Rightarrow> inference_call list result" where
  "read_report_inference_calls collate output_bytes db org_id inference_call_ids observed_through limit =
     (let limit = Some (the_default INFERENCE_REPORT_ROW_LIMIT limit)
      in bind_result (validate_bounded_fact_read limit ''Inference call report'') (\<lambda>_.
      if inference_call_ids = Some {} then Inr []
      else bind_result (content_conditions db org_id inference_call_ids observed_through) (\<lambda>condition.
      let rows = limited limit (sort_key (call_order_key collate) (filter condition (db_calls db)))
      in bind_result (check_inference_payload_budget output_bytes ''Inference call report cohort'' limit
            (Some INFERENCE_PROJECTION_BYTES_LIMIT) rows)
           (\<lambda>_. v_map (decoded False True) rows))))"

definition read_session_inference_calls ::
  "(string \<Rightarrow> string) \<Rightarrow> (inference_call \<Rightarrow> int) \<Rightarrow> fact_db \<Rightarrow> string \<Rightarrow> string \<Rightarrow> instant option \<Rightarrow> inference_call list result"
where
  "read_session_inference_calls collate content_bytes db org_id session_id observed_through =
     bind_result (content_conditions db org_id None observed_through) (\<lambda>condition.
     let rows = sort_key (call_order_key collate) (filter (\<lambda>c. condition c \<and> ic_session_id c = session_id) (db_calls db))
     in bind_result (check_inference_payload_budget content_bytes ''Inference call Session'' None
           (Some INFERENCE_SESSION_BYTES_LIMIT) rows)
          (\<lambda>_. v_map (decoded True True) rows))"

definition read_rollout_inference_calls ::
  "(string \<Rightarrow> string) \<Rightarrow> (inference_call \<Rightarrow> int) \<Rightarrow> fact_db \<Rightarrow> string \<Rightarrow> inference_call list result" where
  "read_rollout_inference_calls collate content_bytes db org_id =
     (let rows = read_page db org_id INFERENCE_CALLS ic_org_id ic_id False (\<lambda>c. True) (call_order_key collate) (db_calls db)
      in bind_result (check_inference_payload_budget content_bytes ''Rollout Inference call'' None None rows)
           (\<lambda>_. v_map (decoded True True) rows))"

text \<open>The generator read to its end.\<close>

definition iter_inference_calls_by_ids ::
  "(string \<Rightarrow> string) \<Rightarrow> (inference_call \<Rightarrow> int) \<Rightarrow> fact_db \<Rightarrow> string \<Rightarrow> string set \<Rightarrow> inference_call list result" where
  "iter_inference_calls_by_ids collate row_bytes db org_id inference_call_ids =
     (if inference_call_ids = {} then Inr []
      else bind_result (content_conditions db org_id (Some inference_call_ids) None) (\<lambda>condition.
      let rows = sort_key (call_order_key collate) (filter condition (db_calls db))
      in bind_result (check_inference_payload_budget row_bytes ''Inference call'' None None rows)
           (\<lambda>_. v_map validate_inference_call rows)))"

record reconciliation_row =
  rq_id :: string
  rq_model_call_id :: "string option"
  rq_gateway_provider :: gateway_provider
  rq_model_provider :: "string option"
  rq_model :: "string option"
  rq_input_tokens :: "int option"
  rq_output_tokens :: "int option"
  rq_duration_ms :: "int option"

definition reconciliation_of :: "inference_call \<Rightarrow> reconciliation_row" where
  "reconciliation_of c =
     \<lparr>rq_id = ic_id c, rq_model_call_id = ic_model_call_id c, rq_gateway_provider = ic_gateway_provider c,
      rq_model_provider = ic_model_provider c, rq_model = ic_model c, rq_input_tokens = ic_input_tokens c,
      rq_output_tokens = ic_output_tokens c, rq_duration_ms = ic_duration_ms c\<rparr>"

abbreviation session_calls ::
  "(string \<Rightarrow> string) \<Rightarrow> fact_db \<Rightarrow> string \<Rightarrow> string \<Rightarrow> int \<Rightarrow> inference_call list" where
  "session_calls collate db org_id session_id limit \<equiv> limited (Some limit)
     (read_page db org_id INFERENCE_CALLS ic_org_id ic_id False (\<lambda>c. ic_session_id c = session_id)
       (call_order_key collate) (db_calls db))"

definition read_inference_call_reconciliation ::
  "(string \<Rightarrow> string) \<Rightarrow> fact_db \<Rightarrow> string \<Rightarrow> string \<Rightarrow> int \<Rightarrow> reconciliation_row list result" where
  "read_inference_call_reconciliation collate db org_id session_id limit =
     (let rows = session_calls collate db org_id session_id limit
      in if int (length rows) > limit then Inl (ValueError ''Session exceeds the reconciliation limit'')
         else Inr (map reconciliation_of rows))"

text \<open>The tool-call ids of each response.\<close>

definition tool_call_ids_of_row :: "inference_call \<Rightarrow> string list result" where
  "tool_call_ids_of_row c =
     bind_result (v_map validate_message (ic_output_messages c)) (\<lambda>messages.
       Inr (sorted_list_of_set (set (map part_id (inference_tool_calls (c\<lparr>ic_output_messages := messages\<rparr>))))))"

definition read_compatibility_inference_evidence ::
  "(string \<Rightarrow> string) \<Rightarrow> fact_db \<Rightarrow> string \<Rightarrow> string \<Rightarrow> int \<Rightarrow> string list list result" where
  "read_compatibility_inference_evidence collate db org_id session_id limit =
     (let rows = session_calls collate db org_id session_id limit
      in if int (length rows) > limit then Inl (ValueError ''Session exceeds the compatibility limit'')
         else v_map tool_call_ids_of_row rows)"

section \<open>Decisions, edits and CI outcomes\<close>

definition read_decision_projections :: "(string \<Rightarrow> string) \<Rightarrow> fact_db \<Rightarrow> string \<Rightarrow> developer_decision list" where
  "read_decision_projections collate db org_id =
     map (\<lambda>d. d\<lparr>dd_raw := []\<rparr>)
       (read_page db org_id DEVELOPER_DECISIONS dd_org_id dd_id False (\<lambda>d. True)
         (\<lambda>d. (dd_occurred_at d, collate (dd_id d))) (db_decisions db))"

definition read_edit_observation_projections :: "(string \<Rightarrow> string) \<Rightarrow> fact_db \<Rightarrow> string \<Rightarrow> edit_observation list" where
  "read_edit_observation_projections collate db org_id =
     map (\<lambda>e. e\<lparr>eo_raw := []\<rparr>)
       (read_page db org_id EDIT_OBSERVATIONS eo_org_id eo_id False (\<lambda>e. True)
         (\<lambda>e. (eo_occurred_at e, collate (eo_id e))) (db_edits db))"

definition ci_outcome_projection :: "ci_outcome \<Rightarrow> ci_outcome" where
  "ci_outcome_projection c = c\<lparr>ci_raw := []\<rparr>"

definition read_ci_outcome_projections ::
  "(string \<Rightarrow> string) \<Rightarrow> fact_db \<Rightarrow> string \<Rightarrow> instant option \<Rightarrow> int option \<Rightarrow> ci_outcome list result" where
  "read_ci_outcome_projections collate db org_id captured_through limit =
     bind_result (validate_bounded_fact_read limit ''CI outcome'') (\<lambda>_.
     bind_result (bounded_fact_rows limit ''CI outcome''
         (read_page db org_id CI_OUTCOMES ci_org_id ci_id False (\<lambda>c. through captured_through (ci_captured_at c))
           (\<lambda>c. (ci_captured_at c, collate (ci_id c))) (db_outcomes db)))
       (\<lambda>rows. Inr (map ci_outcome_projection rows)))"

text \<open>\<open>_repository_selector_condition\<close>\<close>

definition repository_selector_condition :: "read_key option \<Rightarrow> (ci_outcome \<Rightarrow> bool) result" where
  "repository_selector_condition key =
     (case key of
        None \<Rightarrow> Inr (\<lambda>c. True)
      | Some key \<Rightarrow> (case validate_read_key key of
          Inl _ \<Rightarrow> Inl (ValueError ''invalid repository selector'')
        | Inr key \<Rightarrow> Inr (read_key_matches ci_repo components key)))"

definition read_ci_outcome_by_run ::
  "fact_db \<Rightarrow> string \<Rightarrow> ci_provider \<Rightarrow> string \<Rightarrow> int option \<Rightarrow> read_key option \<Rightarrow> instant option \<Rightarrow> ci_outcome option result" where
  "read_ci_outcome_by_run db org_id provider run_id run_attempt repository_key captured_through =
     bind_result (repository_selector_condition repository_key) (\<lambda>selected.
       case filter (\<lambda>c. fact_conditions db org_id CI_OUTCOMES ci_org_id ci_id False c
           \<and> ci_provider_of c = provider \<and> ci_run_id c = run_id
           \<and> the_default 0 (ci_run_attempt c) = the_default 0 run_attempt
           \<and> selected c \<and> through captured_through (ci_captured_at c)) (db_outcomes db) of
         [] \<Rightarrow> Inr None
       | [c] \<Rightarrow> Inr (Some (ci_outcome_projection c))
       | _ \<Rightarrow> Inl RepositoryReadAmbiguous)"

text \<open>The newest outcomes first, before the cursor of the page above.\<close>

definition read_ci_outcome_summaries ::
  "(string \<Rightarrow> string) \<Rightarrow> fact_db \<Rightarrow> string \<Rightarrow> string option \<Rightarrow> read_key option \<Rightarrow> ci_result \<Rightarrow> instant \<times> instant \<Rightarrow> int
   \<Rightarrow> instant option \<Rightarrow> (instant \<times> string) option \<Rightarrow> string option \<Rightarrow> int option \<Rightarrow> ci_outcome list result" where
  "read_ci_outcome_summaries collate db org_id repo repository_key ci_result captured_between limit captured_through before
      workflow_name pr_number =
     (let (captured_after, captured_before) = captured_between; order = (\<lambda>c. (ci_captured_at c, collate (ci_id c)))
      in if \<not> (1 \<le> limit \<and> limit \<le> 101) then Inl (ValueError ''limit must be between 1 and 101'')
      else if repo \<noteq> None \<and> repository_key \<noteq> None
      then Inl (ValueError ''literal and qualified repository filters cannot be combined'')
      else if repo = None \<and> repository_key = None then Inl (ValueError ''CI summaries require a repository selector'')
      else if captured_before \<le> captured_after then Inl (ValueError ''captured_after must precede captured_before'')
      else bind_result (repository_selector_condition repository_key) (\<lambda>selected.
        Inr (map ci_outcome_projection (take (nat limit) (rev (sort_key order (filter (\<lambda>c.
            fact_conditions db org_id CI_OUTCOMES ci_org_id ci_id False c \<and> selected c
            \<and> (case repo of None \<Rightarrow> True | Some repo \<Rightarrow> ci_repo c = repo) \<and> ci_result_of c = ci_result
            \<and> captured_after \<le> ci_captured_at c \<and> ci_captured_at c < captured_before
            \<and> through captured_through (ci_captured_at c)
            \<and> (case before of None \<Rightarrow> True | Some (t, i) \<Rightarrow> order c < (t, collate i))
            \<and> (case workflow_name of None \<Rightarrow> True | Some w \<Rightarrow> ci_workflow_name c = w)
            \<and> (case pr_number of None \<Rightarrow> True | Some n \<Rightarrow> ci_pr_number c = Some n)) (db_outcomes db))))))))"

definition read_inference_calls_by_ids ::
  "(string \<Rightarrow> string) \<Rightarrow> fact_db \<Rightarrow> string \<Rightarrow> string set \<Rightarrow> inference_call list result" where
  "read_inference_calls_by_ids collate db org_id ids =
     (if ids = {} then Inr [] else read_inference_calls collate db org_id False (Some ids) None)"

definition read_decisions_by_ids ::
  "(string \<Rightarrow> string) \<Rightarrow> fact_db \<Rightarrow> string \<Rightarrow> string set \<Rightarrow> developer_decision list result" where
  "read_decisions_by_ids collate db org_id ids =
     (if ids = {} then Inr [] else read_decisions collate db org_id False (Some ids) None None None None)"

definition read_ci_outcomes_by_ids ::
  "(string \<Rightarrow> string) \<Rightarrow> fact_db \<Rightarrow> string \<Rightarrow> string set \<Rightarrow> ci_outcome list result" where
  "read_ci_outcomes_by_ids collate db org_id ids =
     (if ids = {} then Inr [] else read_ci_outcomes collate db org_id False (Some ids) None None None None None)"

record decision_evidence =
  de_agent_harness :: agent_harness
  de_accepted :: bool
  de_explicit :: bool
  de_interaction_mode :: interaction_mode
  de_call_id :: "string option"

definition decision_evidence_of :: "developer_decision \<Rightarrow> decision_evidence" where
  "decision_evidence_of d =
     \<lparr>de_agent_harness = dd_agent_harness d, de_accepted = dd_accepted d, de_explicit = dd_explicit d,
      de_interaction_mode = dd_interaction_mode d, de_call_id = dd_call_id d\<rparr>"

definition read_compatibility_evidence ::
  "(string \<Rightarrow> string) \<Rightarrow> fact_db \<Rightarrow> string \<Rightarrow> string \<Rightarrow> int
   \<Rightarrow> (decision_evidence list \<times> (agent_harness \<times> string) list) result" where
  "read_compatibility_evidence collate db org_id session_id limit =
     (let decisions = limited (Some limit) (read_page db org_id DEVELOPER_DECISIONS dd_org_id dd_id False
            (\<lambda>d. dd_session_id d = session_id) (\<lambda>d. (dd_occurred_at d, collate (dd_id d))) (db_decisions db));
          observations = limited (Some limit) (read_page db org_id EDIT_OBSERVATIONS eo_org_id eo_id False
            (\<lambda>e. eo_session_id e = session_id) (\<lambda>e. (eo_occurred_at e, collate (eo_id e))) (db_edits db))
      in if int (length decisions) > limit \<or> int (length observations) > limit
         then Inl (ValueError ''Session exceeds the compatibility limit'')
         else Inr (map decision_evidence_of decisions, map (\<lambda>e. (eo_agent_harness e, eo_call_id e)) observations))"

section \<open>Counts\<close>

text \<open>The tables of Session Facts; other tables are refused.\<close>

fun count_session_facts :: "fact_db \<Rightarrow> string \<Rightarrow> fact_table \<Rightarrow> string \<Rightarrow> bool \<Rightarrow> nat result" where
  "count_session_facts db org_id INFERENCE_CALLS s q =
     Inr (count_visible db org_id INFERENCE_CALLS ic_org_id ic_id q (filter (\<lambda>f. ic_session_id f = s) (db_calls db)))"
| "count_session_facts db org_id DEVELOPER_DECISIONS s q =
     Inr (count_visible db org_id DEVELOPER_DECISIONS dd_org_id dd_id q (filter (\<lambda>f. dd_session_id f = s) (db_decisions db)))"
| "count_session_facts db org_id EDIT_OBSERVATIONS s q =
     Inr (count_visible db org_id EDIT_OBSERVATIONS eo_org_id eo_id q (filter (\<lambda>f. eo_session_id f = s) (db_edits db)))"
| "count_session_facts db org_id REJECTED_EDITS s q =
     Inr (count_visible db org_id REJECTED_EDITS re_org_id re_id q (filter (\<lambda>f. re_session_id f = s) (db_rejected db)))"
| "count_session_facts db org_id RETRY_LINKAGES s q =
     Inr (count_visible db org_id RETRY_LINKAGES rl_org_id rl_id q (filter (\<lambda>f. rl_session_id f = s) (db_linkages db)))"
| "count_session_facts db org_id COMPUTE_ALLOCATIONS s q =
     Inr (count_visible db org_id COMPUTE_ALLOCATIONS ca_org_id ca_id q (filter (\<lambda>f. ca_session_id f = s) (db_allocations db)))"
| "count_session_facts db org_id fact_table s q = Inl (ValueError ''not a session-scoped fact table'')"

definition count_sessions :: "fact_db \<Rightarrow> string \<Rightarrow> nat" where
  "count_sessions db org_id = card (Set.filter (\<lambda>key. fst key = org_id) (fmdom' (db_sessions db)))"

section \<open>Witnesses of a repository context\<close>

text \<open>\<open>DISTINCT ON\<close>: of the rows with one state the first by its id.\<close>

definition distinct_on :: "('a \<Rightarrow> 's) \<Rightarrow> ('a \<Rightarrow> 'o :: linorder) \<Rightarrow> 'a list \<Rightarrow> 'a list" where
  "distinct_on state order rows =
     map (\<lambda>s. hd (sort_key order (filter (\<lambda>r. state r = s) rows))) (remdups (map state rows))"

text \<open>The source Push an observation is joined with.\<close>

definition anchor_of :: "identity_evidence list \<Rightarrow> identity_evidence \<Rightarrow> identity_evidence option" where
  "anchor_of anchors row =
     (if ev_source_table row \<noteq> SESSION_COMMIT_OBSERVATIONS then None
      else case ev_source_push_id row of None \<Rightarrow> None | Some i \<Rightarrow> find (\<lambda>p. ev_source_fact_id p = i) anchors)"

type_synonym scalar_state = "forge_provider option \<times> string option \<times> string option \<times> string"

definition scalar_state :: "identity_evidence \<Rightarrow> scalar_state" where
  "scalar_state row = (ev_repository_provider row, ev_repository_host row, ev_repository_id row, ev_repo row)"

definition witness_state :: "identity_evidence list \<Rightarrow> identity_evidence \<Rightarrow> scalar_state \<times> scalar_state option" where
  "witness_state anchors row = (scalar_state row, map_option scalar_state (anchor_of anchors row))"

text \<open>What one query retains: its rows, each observation with its anchor. A query that is cut off at the limit
  has more sources than the limit admits.\<close>

definition retained_rows :: "identity_evidence list \<Rightarrow> int \<Rightarrow> identity_evidence list \<Rightarrow> identity_evidence list" where
  "retained_rows anchors limit rows =
     concat (map (\<lambda>row. row # (case anchor_of anchors row of None \<Rightarrow> [] | Some p \<Rightarrow> [p])) (take (nat (limit + 1)) rows))"

definition validate_source_key :: "source_key \<Rightarrow> source_key result" where
  "validate_source_key = (\<lambda>(fact_table, fact_id, role).
     bind_result (NonEmptyId fact_id) (\<lambda>fact_id.
       if (fact_table, role) \<notin> set REPOSITORY_SOURCE_ROLES then Inl (ValueError ''invalid repository source role'')
       else Inr (fact_table, fact_id, role)))"

definition witness_branch ::
  "(string \<Rightarrow> string) \<Rightarrow> identity_evidence list \<Rightarrow> int \<Rightarrow> source_key list \<Rightarrow> fact_table \<times> repository_role
   \<Rightarrow> identity_evidence list \<Rightarrow> identity_evidence list" where
  "witness_branch collate anchors limit requested source rows =
     (let ids = map (\<lambda>(fact_table, fact_id, role). fact_id)
            (filter (\<lambda>(fact_table, fact_id, role). (fact_table, role) = source) requested);
          order = (\<lambda>r. collate (ev_source_fact_id r))
      in retained_rows anchors limit (distinct_on (witness_state anchors) order rows)
         @ retained_rows anchors limit (sort_key order (filter (\<lambda>r. ev_source_fact_id r \<in> set ids) rows)))"

definition rename_state ::
  "repository_rename \<Rightarrow> forge_provider \<times> string \<times> string \<times> string \<times> string" where
  "rename_state r =
     (rr_repository_provider r, rr_repository_host r, rr_repository_id r, rr_old_repo r, rr_new_repo r)"

text \<open>The dictionary of sources only grows, so its size is checked once, at the end. The requested keys are a
  set.\<close>

definition read_repository_context_witnesses ::
  "(string \<Rightarrow> string) \<Rightarrow> (instant \<Rightarrow> spelling) \<Rightarrow> fact_db \<Rightarrow> string \<Rightarrow> instant \<Rightarrow> source_key list \<Rightarrow> int
   \<Rightarrow> (identity_evidence list \<times> repository_rename list) result" where
  "read_repository_context_witnesses collate spelled db org_id captured_through source_keys limit =
     bind_result (OrgId org_id) (\<lambda>org_id.
     if \<not> (1 \<le> limit \<and> limit \<le> int REPOSITORY_IDENTITY_LIMIT)
     then Inl (ValueError ''repository evidence limit must be 1..50000'')
     else if length source_keys > REPOSITORY_IDENTITY_LIMIT
     then Inl (LimitExceeded ''Repository source filter exceeds its keys'')
     else
     bind_result (v_map validate_source_key source_keys) (\<lambda>requested.
     bind_result (v_map id (source_evidence collate spelled db org_id captured_through (PUSHES, REPO))) (\<lambda>anchors.
     bind_result (v_map (\<lambda>source. map_sum id (witness_branch collate anchors limit requested source)
         (v_map id (source_evidence collate spelled db org_id captured_through source))) REPOSITORY_SOURCE_ROLES) (\<lambda>found.
     let sources = fold (\<lambda>item. AList.update (source_key_of item) item) (concat found) []
     in if int (length sources) > limit
        then Inl (LimitExceeded ''Repository identity witness population exceeds its limit'')
        else
        bind_result (bounded_fact_rows (Some limit) ''Repository rename witness''
            (distinct_on rename_state (\<lambda>r. collate (rr_id r))
              (filter (\<lambda>r. fact_conditions db org_id REPOSITORY_RENAMES rr_org_id rr_id False r
                 \<and> rr_captured_at r \<le> captured_through) (db_renames db)))) (\<lambda>rename_rows.
        bind_result (v_map validate_repository_rename rename_rows) (\<lambda>renames.
          Inr (sort_key evidence_sort_key (map snd sources), sort_key (\<lambda>r. (rr_captured_at r, rr_id r)) renames)))))))"

text \<open>\<open>repository_context.py\<close>: the context of the witnesses.\<close>

definition read_repository_witness_context ::
  "(string \<Rightarrow> string) \<Rightarrow> (instant \<Rightarrow> spelling) \<Rightarrow> fact_db \<Rightarrow> string \<Rightarrow> instant \<Rightarrow> source_key list \<Rightarrow> repository_context result" where
  "read_repository_witness_context collate spelled db org_id as_of source_keys =
     bind_result (read_repository_context_witnesses collate spelled db org_id as_of source_keys (int REPOSITORY_IDENTITY_LIMIT))
       (\<lambda>(evidence, renames). build_repository_context evidence renames org_id (Some as_of))"

end
