(* ===== verification/Witness_Laws.thy ===== *)
theory Witness_Laws
  imports Repository_Laws
begin

text \<open>
  The witnesses of a repository context against its whole population. A context built from one source per
  scalar state, the source Pushes of those and the requested sources resolves names, references and the
  requested sources as the context of all sources does.
\<close>

section \<open>Populations without conflicting copies\<close>

lemma no_conflicts: "inj_on source_key_of (set E) \<Longrightarrow> conflicting (set E) = {}"
  by (force simp: clash_def inj_on_def)

lemma kept_in:
  assumes "inj_on source_key_of (set E)"
  shows "fmlookup (kept_sources E) k = Some r \<longleftrightarrow> r \<in> set E \<and> source_key_of r = k"
proof
  show "fmlookup (kept_sources E) k = Some r \<Longrightarrow> r \<in> set E \<and> source_key_of r = k"
    using kept_SomeD by blast
next
  assume r: "r \<in> set E \<and> source_key_of r = k"
  then have "k \<in> fmdom' (kept_sources E)" by (auto simp: kept_dom no_conflicts[OF assms])
  then obtain r' where r': "fmlookup (kept_sources E) k = Some r'" by (auto simp: fmlookup_dom'_iff)
  then have "r' \<in> set E" "source_key_of r' = k" using kept_SomeD by blast+
  then have "r' = r" using assms r unfolding inj_on_def by blast
  then show "fmlookup (kept_sources E) k = Some r" using r' by simp
qed

lemma source_list_all: "inj_on source_key_of (set E) \<Longrightarrow> set (source_list (scan_rows E)) = set E"
  unfolding source_list_set by (simp add: kept_in del: split_paired_Ex)

text \<open>The source Push of an observation in a population.\<close>

definition anchor_in :: "identity_evidence list \<Rightarrow> identity_evidence \<Rightarrow> identity_evidence option" where
  "anchor_in E row =
     (if ev_source_table row \<noteq> SESSION_COMMIT_OBSERVATIONS then None
      else case ev_source_push_id row of None \<Rightarrow> None | Some i \<Rightarrow> fmlookup (kept_sources E) (PUSHES, i, REPO))"

definition naming :: "identity_evidence \<Rightarrow> repository_identity option \<times> string" where
  "naming row = (evidence_identity row, ev_repo row)"

text \<open>What the resolver reads of a source: its names, and those of its anchor.\<close>

definition state_in :: "identity_evidence list \<Rightarrow> identity_evidence \<Rightarrow> bool \<times> (repository_identity option \<times> string) \<times> (repository_identity option \<times> string) option" where
  "state_in E row =
     (ev_source_table row = SESSION_COMMIT_OBSERVATIONS, naming row, map_option naming (anchor_in E row))"

definition verdict :: "source_outcome \<Rightarrow> repository_identity option \<times> identity_skip_reason option" where
  "verdict = (\<lambda>(identity, proof, reason). (identity, reason))"

lemma outcome_anchor:
  assumes "inj_on source_key_of (set E)"
  shows "outcome_in E row =
    (let identity = evidence_identity row;
         absent = (identity, [row], if identity \<noteq> None then Some repository_source_absent else None)
     in if ev_source_table row \<noteq> SESSION_COMMIT_OBSERVATIONS then (identity, [row], None)
        else case anchor_in E row of
          None \<Rightarrow> absent
        | Some push \<Rightarrow>
            (let proof = sort_key evidence_sort_key [row, push]
             in case evidence_identity push of
               None \<Rightarrow>
                 if identity \<noteq> None then (None, proof, Some repository_identity_unresolved)
                 else if ev_repo row \<noteq> ev_repo push then (None, proof, Some repository_identity_conflict)
                 else (None, proof, None)
             | Some source \<Rightarrow>
                 if identity \<noteq> None \<and> Some source \<noteq> identity
                 then (None, proof, Some repository_identity_conflict) else (Some source, proof, None)))"
  unfolding outcome_in_def source_identity_def no_conflicts[OF assms] anchor_in_def Let_def
  by (auto split: option.splits)

lemma outcome_state:
  assumes "inj_on source_key_of (set E)" "state_in E r = state_in E w"
  shows "verdict (outcome_in E r) = verdict (outcome_in E w)"
  using assms(2) unfolding outcome_anchor[OF assms(1)]
  by (auto simp: state_in_def naming_def verdict_def Let_def split: option.splits)

section \<open>A population of witnesses\<close>

definition witnesses :: "identity_evidence list \<Rightarrow> identity_evidence list \<Rightarrow> bool" where
  "witnesses E W \<longleftrightarrow> set W \<subseteq> set E
     \<and> (\<forall>w\<in>set W. \<forall>p. anchor_in E w = Some p \<longrightarrow> p \<in> set W)
     \<and> (\<forall>r\<in>set E. \<exists>w\<in>set W. state_in E w = state_in E r)"

lemma witnesses_subset: "witnesses E W \<Longrightarrow> set W \<subseteq> set E"
  by (simp add: witnesses_def)

lemma witnesses_state: "witnesses E W \<Longrightarrow> r \<in> set E \<Longrightarrow> \<exists>w\<in>set W. state_in E w = state_in E r"
  by (simp add: witnesses_def)

lemma witnesses_inj: "witnesses E W \<Longrightarrow> inj_on source_key_of (set E) \<Longrightarrow> inj_on source_key_of (set W)"
  by (auto simp: witnesses_def intro: inj_on_subset)

lemma witness_anchor:
  assumes "witnesses E W" "inj_on source_key_of (set E)" "w \<in> set W"
  shows "anchor_in W w = anchor_in E w"
proof (cases "anchor_in E w")
  case None
  have "fmlookup (kept_sources W) k = None" if "fmlookup (kept_sources E) k = None" for k
  proof (rule ccontr)
    assume "fmlookup (kept_sources W) k \<noteq> None"
    then obtain p where "p \<in> set W" "source_key_of p = k" using kept_in[OF witnesses_inj[OF assms(1,2)]] by blast
    then have "fmlookup (kept_sources E) k = Some p" using assms(1) kept_in[OF assms(2)] by (auto simp: witnesses_def)
    then show False using that by simp
  qed
  then show ?thesis using None by (auto simp: anchor_in_def split: option.splits if_splits)
next
  case (Some p)
  then have p: "p \<in> set W" using assms(1,3) by (auto simp: witnesses_def)
  obtain i where i: "ev_source_table w = SESSION_COMMIT_OBSERVATIONS" "ev_source_push_id w = Some i"
      "fmlookup (kept_sources E) (PUSHES, i, REPO) = Some p"
    using Some by (auto simp: anchor_in_def split: if_splits option.splits)
  then have "source_key_of p = (PUSHES, i, REPO)" using kept_SomeD(2) by blast
  then have "fmlookup (kept_sources W) (PUSHES, i, REPO) = Some p"
    using p kept_in[OF witnesses_inj[OF assms(1,2)]] by blast
  then show ?thesis using Some i by (simp add: anchor_in_def)
qed

lemma witness_outcome:
  assumes "witnesses E W" "inj_on source_key_of (set E)" "w \<in> set W"
  shows "outcome_in W w = outcome_in E w"
  unfolding outcome_anchor[OF assms(2)] outcome_anchor[OF witnesses_inj[OF assms(1,2)]] witness_anchor[OF assms] ..

section \<open>What the loops make of the witnesses\<close>

definition entry :: "identity_evidence list \<Rightarrow> identity_evidence \<Rightarrow> (repository_identity option \<times> string) \<times> repository_identity option \<times> identity_skip_reason option" where
  "entry E row = (naming row, verdict (outcome_in E row))"

lemma entries_eq:
  assumes "witnesses E W" "inj_on source_key_of (set E)"
  shows "entry E ` set E = entry W ` set W"
proof -
  have "entry W w = entry E w" if "w \<in> set W" for w
    using witness_outcome[OF assms that] by (simp add: entry_def)
  then have 1: "entry W ` set W = entry E ` set W" by (rule image_cong[OF refl])
  have 2: "entry E ` set E \<subseteq> entry E ` set W"
  proof
    fix x assume "x \<in> entry E ` set E"
    then obtain r where r: "r \<in> set E" "x = entry E r" by blast
    then obtain w where w: "w \<in> set W" "state_in E w = state_in E r"
      using witnesses_state[OF assms(1)] by blast
    then have "entry E w = x" using outcome_state[OF assms(2) w(2)] r(2) by (simp add: entry_def state_in_def)
    then show "x \<in> entry E ` set W" using w(1) by blast
  qed
  have 3: "entry E ` set W \<subseteq> entry E ` set E" using witnesses_subset[OF assms(1)] by (rule image_mono)
  show ?thesis unfolding 1 using 2 3 by (rule subset_antisym)
qed

text \<open>The entries a source adds to the names and to the claims are those of its entry.\<close>

type_synonym source_entry = "(repository_identity option \<times> string) \<times> repository_identity option \<times> identity_skip_reason option"

definition entry_names :: "string \<Rightarrow> source_entry \<Rightarrow> (repository_key \<times> string) list" where
  "entry_names org_id = (\<lambda>((i, repo), identity, reason).
     if reason \<noteq> None \<or> repo = [] then []
     else [(case identity of Some i \<Rightarrow> IdentifiedRepositoryKey org_id i | None \<Rightarrow> LegacyRepositoryKey org_id repo, repo)])"

lemma name_entry_eq: "name_entry org_id row (outcome_in E row) = entry_names org_id (entry E row)"
  by (cases "outcome_in E row") (simp add: name_entry_def entry_names_def entry_def naming_def verdict_def)

definition entry_claims :: "source_entry \<Rightarrow> (string \<times> repository_identity) list" where
  "entry_claims = (\<lambda>((i, repo), identity, reason).
     (case i of Some j \<Rightarrow> if repo \<noteq> [] then [(repo, j)] else [] | None \<Rightarrow> [])
     @ (if reason \<noteq> None \<or> repo = [] then [] else (case identity of Some j \<Rightarrow> [(repo, j)] | None \<Rightarrow> [])))"

lemma claims_eq: "captured_claim row @ resolved_claim (row, outcome_in E row) = entry_claims (entry E row)"
  by (cases "outcome_in E row")
    (simp add: captured_claim_def resolved_claim_def entry_claims_def entry_def naming_def verdict_def)

lemma claims_set:
  "set (entry_claims (entry E row)) = set (captured_claim row) \<union> set (resolved_claim (row, outcome_in E row))"
  unfolding claims_eq[symmetric] by simp

lemma names_of_witnesses:
  assumes "witnesses E W" "inj_on source_key_of (set E)" "set renames = set renames'"
  shows "context_names org_id renames (resolved_rows (scan_rows E)) = context_names org_id renames' (resolved_rows (scan_rows W))"
proof -
  have n: "set (concat (map (\<lambda>(row, r). name_entry org_id row r) (resolved_rows (scan_rows X)))) = (\<Union>x\<in>entry X ` set X. set (entry_names org_id x))"
    if "inj_on source_key_of (set X)" for X
    unfolding resolved_rows_eq by (simp add: source_list_all[OF that] name_entry_eq)
  have "set (concat (map g renames)) = set (concat (map g renames'))" for g :: "_ \<Rightarrow> (repository_key \<times> string) list"
    by (simp add: assms(3))
  then show ?thesis
    unfolding context_names_def
    by (intro fm_add_all_cong) (simp only: set_append n[OF assms(2)] n[OF witnesses_inj[OF assms(1,2)]] entries_eq[OF assms(1,2)])
qed

lemma claims_of_witnesses:
  assumes "witnesses E W" "inj_on source_key_of (set E)" "rename_claims rows = rename_claims rows'"
  shows "context_claims rows (concat (map snd (es_copies (scan_rows E)))) (resolved_rows (scan_rows E))
       = context_claims rows' (concat (map snd (es_copies (scan_rows W)))) (resolved_rows (scan_rows W))"
proof -
  have n: "set (concat (map captured_claim (concat (map snd (es_copies (scan_rows X)))))
        @ concat (map resolved_claim (resolved_rows (scan_rows X)))) = (\<Union>x\<in>entry X ` set X. set (entry_claims x))"
    if "inj_on source_key_of (set X)" for X
    using claims_set[of X] unfolding resolved_rows_eq set_append by (simp add: source_list_all[OF that] scan_copies_set[simplified] UN_Un_distrib)
  show ?thesis
    unfolding context_claims_def assms(3)
    by (rule fm_add_all_cong) (simp only: n[OF assms(2)] n[OF witnesses_inj[OF assms(1,2)]] entries_eq[OF assms(1,2)])
qed

lemma witness_fields:
  assumes "witnesses E W" "inj_on source_key_of (set E)"
    and "rename_conflicts rows = {}" "rename_conflicts rows' = {}"
    and "set (valid_renames rows {}) = set (valid_renames rows' {})" "rename_claims rows = rename_claims rows'"
  shows "rc_org_id (base_context o' t (scan_rows E) rows) = rc_org_id (base_context o' t (scan_rows W) rows')"
    "rc_names (base_context o' t (scan_rows E) rows) = rc_names (base_context o' t (scan_rows W) rows')"
    "rc_claims (base_context o' t (scan_rows E) rows) = rc_claims (base_context o' t (scan_rows W) rows')"
    "rc_unsafe_slugs (base_context o' t (scan_rows E) rows) = {}"
    "rc_unsafe_slugs (base_context o' t (scan_rows W) rows') = {}"
  using assms
  by (simp_all add: base_context_def Let_def names_of_witnesses[OF assms(1,2,5)] claims_of_witnesses[OF assms(1,2,6)]
      scan_conflicts no_conflicts witnesses_inj[OF assms(1,2)] unsafe_rename_slugs_def)

lemma source_result_fields:
  assumes "rc_org_id c = rc_org_id c'" "rc_names c = rc_names c'" "rc_claims c = rc_claims c'"
    "rc_unsafe_slugs c = rc_unsafe_slugs c'"
  shows "source_result c r = source_result c' r"
  unfolding source_result_def resolve_reference_def observed_repo_slugs_def assms ..

lemma assembled_fields:
  "rc_names (assemble_context o' t scan rows) = rc_names (base_context o' t scan rows)"
  "rc_claims (assemble_context o' t scan rows) = rc_claims (base_context o' t scan rows)"
  "rc_unsafe_slugs (assemble_context o' t scan rows) = rc_unsafe_slugs (base_context o' t scan rows)"
  "rc_resolutions (assemble_context o' t scan rows) = context_results scan (base_context o' t scan rows)"
  by (simp_all add: assemble_context_def Let_def)

text \<open>A source in the witnesses resolves as it does in the population.\<close>

lemma witness_source:
  assumes "witnesses E W" "inj_on source_key_of (set E)"
    and "rename_conflicts rows = {}" "rename_conflicts rows' = {}"
    and "set (valid_renames rows {}) = set (valid_renames rows' {})" "rename_claims rows = rename_claims rows'"
    and "k \<in> source_key_of ` set E \<longrightarrow> k \<in> source_key_of ` set W"
  shows "resolve_source (assemble_context o' t (scan_rows W) rows') k = resolve_source (assemble_context o' t (scan_rows E) rows) k"
proof -
  note f = witness_fields[OF assms(1-6), of o' t]
  have r: "source_result (base_context o' t (scan_rows W) rows') x = source_result (base_context o' t (scan_rows E) rows) x" for x
    by (rule source_result_fields) (simp_all add: f)
  have "fmlookup (context_results (scan_rows W) (base_context o' t (scan_rows W) rows')) k
      = fmlookup (context_results (scan_rows E) (base_context o' t (scan_rows E) rows)) k"
  proof (cases "fmlookup (kept_sources E) k")
    case (Some row)
    then have row: "row \<in> set E" "source_key_of row = k" using kept_in[OF assms(2), of k row] by simp_all
    have "k \<in> source_key_of ` set E" using row by blast
    then have "k \<in> source_key_of ` set W" using assms(7) by (rule mp[rotated])
    then obtain w where w: "w \<in> set W" "source_key_of w = k" by blast
    then have "w = row" using row inj_onD[OF assms(2), of w row] witnesses_subset[OF assms(1)] by auto
    then have "fmlookup (kept_sources W) k = Some row"
      using w kept_in[OF witnesses_inj[OF assms(1,2)], of k row] by simp
    then show ?thesis unfolding context_results_lookup using Some w \<open>w = row\<close> witness_outcome[OF assms(1,2) w(1)]
      by (simp add: r)
  next
    case None
    have "fmlookup (kept_sources W) k = None"
    proof (rule ccontr)
      assume "fmlookup (kept_sources W) k \<noteq> None"
      then obtain p where "p \<in> set W" "source_key_of p = k" using kept_in[OF witnesses_inj[OF assms(1,2)], of k] by auto
      then have "fmlookup (kept_sources E) k = Some p" using witnesses_subset[OF assms(1)] kept_in[OF assms(2), of k p] by auto
      then show False using None by simp
    qed
    then show ?thesis unfolding context_results_lookup
      using None by (simp add: no_conflicts[OF assms(2)] no_conflicts[OF witnesses_inj[OF assms(1,2)]])
  qed
  then show ?thesis by (simp add: resolve_source_def assembled_fields fm_get_def)
qed

end
