(* ===== verification/Witness_Reads.thy ===== *)
theory Witness_Reads
  imports Fact_Projections Store_Steps Witness_Laws
begin

text \<open>
  The witness read of the store against the full reads: the witnesses of a reachable database name and
  resolve as its whole evidence does.
\<close>

section \<open>Rows of a source\<close>

lemma v_map_id: "v_map id rs = Inr xs \<longleftrightarrow> rs = map Inr xs"
proof -
  have "v_map (\<lambda>x. x) rs = Inr xs \<longleftrightarrow> rs = map Inr xs"
  proof (induction rs arbitrary: xs)
    case (Cons r rs)
    then show ?case by (cases r; cases "v_map (\<lambda>x. x) rs") (auto simp: map_eq_Cons_conv Cons_eq_map_conv)
  qed auto
  then show ?thesis by (simp add: id_def)
qed

lemma table_ok_distinct: "table_ok pk ix rows \<Longrightarrow> distinct (map pk rows)"
  by (induction rows) (auto simp: table_ok_def index_conflict_def)

definition evidence_of :: "fact_table \<times> repository_role \<Rightarrow> string \<Rightarrow> instant \<Rightarrow> identity_evidence \<Rightarrow> bool" where
  "evidence_of source org_id t e \<longleftrightarrow>
     (ev_source_table e, ev_role e) = source \<and> ev_org_id e = org_id \<and> ev_captured_at e \<le> t"

lemma visible_rows:
  assumes ok: "table_ok pk ix rows"
    and rows: "visible_evidence collate spelled db org_id t fact_table role org pk captured_at source rows = map Inr es"
    and project: "\<And>f sp e. project_fact (source f) sp role = Inr e \<Longrightarrow> source_key_of e = (fact_table, pk f, role)
        \<and> ev_org_id e = org f \<and> ev_captured_at e = captured_at f"
  shows "distinct (map source_key_of es) \<and> (\<forall>e\<in>set es. evidence_of (fact_table, role) org_id t e)"
proof -
  define page where "page = read_page db org_id fact_table org pk False (\<lambda>f. captured_at f \<le> t) (\<lambda>f. (captured_at f, collate (pk f))) rows"
  have "list_all2 (\<lambda>f e. project_fact (source f) (spelled (captured_at f)) role = Inr e) page es"
    using rows by (simp add: visible_evidence_def page_def list_all2_conv_all_nth list_eq_iff_nth_eq)
  then have l: "list_all2 (\<lambda>f e. source_key_of e = (fact_table, pk f, role) \<and> ev_org_id e = org f \<and> ev_captured_at e = captured_at f) page es"
    by (rule list_all2_mono) (rule project)
  then have "map source_key_of es = map (\<lambda>f. (fact_table, pk f, role)) page"
    by (induction rule: list_all2_induct) simp_all
  moreover have "distinct (map (\<lambda>f. (fact_table, pk f, role)) page)"
    using table_ok_distinct[OF ok] by (auto simp: page_def distinct_map inj_on_def)
  moreover have "evidence_of (fact_table, role) org_id t e" if e: "e \<in> set es" for e
  proof -
    obtain i where "i < length es" "es ! i = e" using e by (auto simp: in_set_conv_nth)
    then have "page ! i \<in> set page" "source_key_of e = (fact_table, pk (page ! i), role)" "ev_org_id e = org (page ! i)"
        "ev_captured_at e = captured_at (page ! i)" using l by (auto simp: list_all2_conv_all_nth)
    then show ?thesis by (auto simp: evidence_of_def source_key_of_def page_def fact_conditions_def)
  qed
  ultimately show ?thesis by simp
qed

lemma source_rows:
  assumes "db_ok db" "source \<in> set REPOSITORY_SOURCE_ROLES" "source_evidence collate spelled db org_id t source = map Inr es"
  shows "distinct (map source_key_of es) \<and> (\<forall>e\<in>set es. evidence_of source org_id t e)"
proof -
  note ok = assms(1)[unfolded db_ok_def facts_ok_def]
  have tables: "table_ok pu_id push_index (db_pushes db)" "table_ok ci_id outcome_index (db_outcomes db)"
    "table_ok sc_id observation_index (db_observations db)" "table_ok pm_id merge_index (db_merges db)"
    "table_ok pv_id revision_index (db_revisions db)" using ok by blast+
  have "source = (PUSHES, REPO) \<or> source = (CI_OUTCOMES, REPO) \<or> source = (SESSION_COMMIT_OBSERVATIONS, REPO)
      \<or> (\<exists>role. source = (PULL_REQUEST_MERGES, role)) \<or> (\<exists>role. source = (PULL_REQUEST_REVISIONS, role))"
    using assms(2) by (auto simp: REPOSITORY_SOURCE_ROLES_def)
  then show ?thesis
    using assms(3)
    by (elim disjE exE; hypsubst; unfold source_evidence.simps)
      (erule visible_rows[OF tables(1)] visible_rows[OF tables(2)] visible_rows[OF tables(3)] visible_rows[OF tables(4)]
          visible_rows[OF tables(5)];
        auto simp: role_evidence_def head_role_evidence_def source_key_of_def split: if_splits repository_role.splits)+
qed

definition source_rows_of ::
  "(string \<Rightarrow> string) \<Rightarrow> (instant \<Rightarrow> spelling) \<Rightarrow> fact_db \<Rightarrow> string \<Rightarrow> instant \<Rightarrow> fact_table \<times> repository_role \<Rightarrow> identity_evidence list" where
  "source_rows_of collate spelled db org_id t source = map projr (source_evidence collate spelled db org_id t source)"

text \<open>The whole evidence of an organization at a boundary, where every row of it is well-formed.\<close>

lemma read_identities:
  assumes "read_repository_identities collate spelled db org_id t limit = Inr E"
  shows "(\<forall>source\<in>set REPOSITORY_SOURCE_ROLES. source_evidence collate spelled db org_id t source
        = map Inr (source_rows_of collate spelled db org_id t source))
    \<and> set E = (\<Union>source\<in>set REPOSITORY_SOURCE_ROLES. set (source_rows_of collate spelled db org_id t source))"
proof -
  define P where "P = repository_population collate spelled db org_id t"
  obtain rows where rows: "v_map id (take (nat (limit + 1)) P) = Inr rows" "int (length P) \<le> limit" "E = sort_key evidence_sort_key rows"
    using assms by (auto simp: read_repository_identities_def P_def[symmetric] Let_def split: if_splits elim!: bind_result_Inr)
  then have P: "P = map Inr rows" by (simp add: v_map_id)
  have each: "source_evidence collate spelled db org_id t source = map Inr (source_rows_of collate spelled db org_id t source)"
    if "source \<in> set REPOSITORY_SOURCE_ROLES" for source
  proof -
    have "set (source_evidence collate spelled db org_id t source) \<subseteq> set P"
      using that by (auto simp: P_def repository_population_def)
    then have "\<forall>r\<in>set (source_evidence collate spelled db org_id t source). Inr (projr r) = r" by (auto simp: P)
    then show ?thesis unfolding source_rows_of_def map_map by (simp add: map_idI)
  qed
  have "set rows = projr ` set P" by (simp add: P image_image)
  also have "\<dots> = (\<Union>source\<in>set REPOSITORY_SOURCE_ROLES. set (source_rows_of collate spelled db org_id t source))"
    by (simp add: P_def repository_population_def source_rows_of_def image_UN)
  finally show ?thesis using each rows(3) by simp
qed

lemma evidence_inj:
  assumes "db_ok db" "\<forall>source\<in>set REPOSITORY_SOURCE_ROLES. source_evidence collate spelled db org_id t source
        = map Inr (rows source)"
  shows "inj_on source_key_of (\<Union>source\<in>set REPOSITORY_SOURCE_ROLES. set (rows source))"
proof (rule inj_onI)
  fix e e' assume e: "e \<in> (\<Union>source\<in>set REPOSITORY_SOURCE_ROLES. set (rows source))" "e' \<in> (\<Union>source\<in>set REPOSITORY_SOURCE_ROLES. set (rows source))"
    and key: "source_key_of e = source_key_of e'"
  then obtain s s' where s: "s \<in> set REPOSITORY_SOURCE_ROLES" "e \<in> set (rows s)" "s' \<in> set REPOSITORY_SOURCE_ROLES" "e' \<in> set (rows s')" by blast
  note r = source_rows[OF assms(1) s(1)] and r' = source_rows[OF assms(1) s(3)]
  have "evidence_of s org_id t e" "evidence_of s' org_id t e'" using r r' s assms(2) by blast+
  then have "s = s'" using key by (simp add: evidence_of_def source_key_of_def)
  moreover have "inj_on source_key_of (set (rows s))" using r[of collate spelled org_id t "rows s"] s(1) assms(2) by (simp add: distinct_map)
  ultimately show "e = e'" using key s(2,4) by (auto dest: inj_onD)
qed

section \<open>The retained rows\<close>

lemma distinct_on_state: "s \<in> state ` set rows \<Longrightarrow>
    hd (sort_key order (filter (\<lambda>r. state r = s) rows)) \<in> set rows \<and> state (hd (sort_key order (filter (\<lambda>r. state r = s) rows))) = s"
proof -
  assume "s \<in> state ` set rows"
  then obtain r where "r \<in> set rows" "state r = s" by blast
  then have "r \<in> set (sort_key order (filter (\<lambda>r. state r = s) rows))" by simp
  then have "sort_key order (filter (\<lambda>r. state r = s) rows) \<noteq> []" by (cases "sort_key order (filter (\<lambda>r. state r = s) rows)") auto
  then have "hd (sort_key order (filter (\<lambda>r. state r = s) rows)) \<in> set (sort_key order (filter (\<lambda>r. state r = s) rows))" by (rule hd_in_set)
  then show ?thesis by simp
qed

lemma distinct_on_rows:
  "distinct (distinct_on state order rows)" "set (distinct_on state order rows) \<subseteq> set rows"
  "r \<in> set rows \<Longrightarrow> \<exists>w\<in>set (distinct_on state order rows). state w = state r"
proof -
  show "distinct (distinct_on state order rows)"
    using distinct_on_state[of _ state rows order] unfolding distinct_on_def
    by (auto simp: distinct_map intro: inj_on_inverseI[of _ state])
  show "set (distinct_on state order rows) \<subseteq> set rows"
    using distinct_on_state[of _ state rows order] unfolding distinct_on_def by auto
  show "\<exists>w\<in>set (distinct_on state order rows). state w = state r" if "r \<in> set rows"
    using distinct_on_state[of "state r" state rows order] that unfolding distinct_on_def by auto
qed

text \<open>Rows that all found room were not cut off.\<close>

lemma retained_complete:
  assumes "distinct rows" "set (retained_rows anchors limit rows) \<subseteq> X" "finite X" "int (card X) \<le> limit"
  shows "take (nat (limit + 1)) rows = rows"
proof (rule ccontr)
  assume "take (nat (limit + 1)) rows \<noteq> rows"
  then have "card (set (take (nat (limit + 1)) rows)) = nat (limit + 1)"
    using assms(1) by (simp add: distinct_card)
  moreover have "set (take (nat (limit + 1)) rows) \<subseteq> X" using assms(2) by (auto simp: retained_rows_def)
  then have "card (set (take (nat (limit + 1)) rows)) \<le> card X" by (rule card_mono[OF assms(3)])
  ultimately show False using assms(4) by simp
qed

text \<open>The dictionary of the sources, by their keys.\<close>

lemma update_all:
  assumes "inj_on key (set xs)"
  shows "set (map snd (fold (\<lambda>x. AList.update (key x) x) xs [])) = set xs
    \<and> length (fold (\<lambda>x. AList.update (key x) x) xs []) = card (set xs)"
proof -
  define d where "d = fold (\<lambda>x. AList.update (key x) x) xs []"
  have "distinct (map fst d)"
  proof -
    have "distinct (map fst (fold (\<lambda>x. AList.update (key x) x) xs al))" if "distinct (map fst al)" for al
      using that by (induction xs arbitrary: al) (simp_all add: distinct_update)
    then show ?thesis by (simp add: d_def)
  qed
  moreover have "map_of d k = Some x \<longleftrightarrow> x \<in> set xs \<and> key x = k" for k x
    using assms unfolding d_def
  proof (induction xs rule: rev_induct)
    case (snoc y ys)
    then have "inj_on key (set ys)" by simp
    then show ?case using snoc by (auto simp: update_conv inj_on_def)
  qed simp
  ultimately have d: "set d = (\<lambda>x. (key x, x)) ` set xs"
    using map_of_eq_Some_iff[OF \<open>distinct (map fst d)\<close>] by (intro set_eqI) (auto simp: image_iff)
  have "length d = card (set d)" using \<open>distinct (map fst d)\<close> by (simp add: distinct_card distinct_map)
  also have "\<dots> = card (set xs)" unfolding d by (rule card_image) (simp add: inj_on_def)
  finally show ?thesis using d unfolding d_def[symmetric] by (simp add: image_image)
qed

section \<open>The witness read\<close>

lemma v_map_branches:
  "v_map (\<lambda>s. map_sum id (branch s) (v_map id (rows s))) ss = Inr found \<Longrightarrow>
     (\<forall>s\<in>set ss. rows s = map Inr (map projr (rows s))) \<and> found = map (\<lambda>s. branch s (map projr (rows s))) ss"
proof (induction ss arbitrary: found)
  case (Cons s ss)
  then obtain r rest where r: "v_map id (rows s) = Inr r" "found = branch s r # rest"
    "v_map (\<lambda>s. map_sum id (branch s) (v_map id (rows s))) ss = Inr rest"
    by (cases "v_map (\<lambda>x. x) (rows s)") (auto simp: id_def elim!: bind_result_Inr)
  then have "rows s = map Inr r" by (simp only: v_map_id)
  then have "rows s = map Inr (map projr (rows s))" "map projr (rows s) = r" by (simp_all add: comp_def)
  then show ?case using Cons.IH[OF r(3)] r(2) by auto
qed simp

definition retained ::
  "(string \<Rightarrow> string) \<Rightarrow> (fact_table \<times> repository_role \<Rightarrow> identity_evidence list) \<Rightarrow> int \<Rightarrow> source_key list \<Rightarrow> identity_evidence list" where
  "retained collate rows limit requested =
     concat (map (\<lambda>source. witness_branch collate (rows (PUSHES, REPO)) limit requested source (rows source)) REPOSITORY_SOURCE_ROLES)"

definition sources_by_key :: "identity_evidence list \<Rightarrow> (source_key \<times> identity_evidence) list" where
  "sources_by_key items = fold (\<lambda>item. AList.update (source_key_of item) item) items []"

definition visible_renames :: "fact_db \<Rightarrow> string \<Rightarrow> instant \<Rightarrow> repository_rename list" where
  "visible_renames db org_id t =
     filter (\<lambda>r. fact_conditions db org_id REPOSITORY_RENAMES rr_org_id rr_id False r \<and> rr_captured_at r \<le> t) (db_renames db)"

lemma read_witnesses:
  assumes "read_repository_context_witnesses collate spelled db org_id t keys limit = Inr (W, Q)" "OrgId org_id = Inr org_id"
  obtains requested kept renames where "v_map validate_source_key keys = Inr requested"
    "W = sort_key evidence_sort_key (map snd (sources_by_key (retained collate (source_rows_of collate spelled db org_id t) limit requested)))"
    "int (length (sources_by_key (retained collate (source_rows_of collate spelled db org_id t) limit requested))) \<le> limit"
    "1 \<le> limit" "limit \<le> int REPOSITORY_IDENTITY_LIMIT"
    "bounded_fact_rows (Some limit) ''Repository rename witness''
        (distinct_on rename_state (\<lambda>r. collate (rr_id r)) (visible_renames db org_id t)) = Inr kept"
    "v_map validate_repository_rename kept = Inr renames" "Q = sort_key (\<lambda>r. (rr_captured_at r, rr_id r)) renames"
proof -
  let ?rows = "source_evidence collate spelled db org_id t"
  obtain requested anchors found kept renames where r: "v_map validate_source_key keys = Inr requested"
    "v_map id (?rows (PUSHES, REPO)) = Inr anchors"
    "v_map (\<lambda>source. map_sum id (witness_branch collate anchors limit requested source) (v_map id (?rows source))) REPOSITORY_SOURCE_ROLES = Inr found"
    "\<not> int (length (sources_by_key (concat found))) > limit" "1 \<le> limit" "limit \<le> int REPOSITORY_IDENTITY_LIMIT"
    "W = sort_key evidence_sort_key (map snd (sources_by_key (concat found)))"
    "bounded_fact_rows (Some limit) ''Repository rename witness''
        (distinct_on rename_state (\<lambda>r. collate (rr_id r)) (visible_renames db org_id t)) = Inr kept"
    "v_map validate_repository_rename kept = Inr renames" "Q = sort_key (\<lambda>r. (rr_captured_at r, rr_id r)) renames"
    using assms unfolding read_repository_context_witnesses_def sources_by_key_def[symmetric] visible_renames_def[symmetric] Let_def
    by (auto split: if_splits elim!: bind_result_Inr)
  have a: "anchors = source_rows_of collate spelled db org_id t (PUSHES, REPO)"
    using r(2) by (simp add: v_map_id source_rows_of_def comp_def)
  have f: "concat found = retained collate (source_rows_of collate spelled db org_id t) limit requested"
    using v_map_branches[OF r(3)] unfolding a by (simp add: retained_def source_rows_of_def)
  show thesis by (rule that[OF r(1) _ _ r(5,6) r(8-10)]) (use r(4,7) f in simp_all)
qed

lemma validate_source_key_role: "validate_source_key key = Inr (fact_table, fact_id, role) \<Longrightarrow> (fact_table, role) \<in> set REPOSITORY_SOURCE_ROLES"
  by (cases key) (auto simp: validate_source_key_def split: if_splits elim!: bind_result_Inr)

text \<open>What a source contributes: nothing was cut off.\<close>

definition chosen ::
  "(string \<Rightarrow> string) \<Rightarrow> (fact_table \<times> repository_role \<Rightarrow> identity_evidence list) \<Rightarrow> source_key list \<Rightarrow> fact_table \<times> repository_role
   \<Rightarrow> identity_evidence set" where
  "chosen collate rows requested source =
     set (distinct_on (witness_state (rows (PUSHES, REPO))) (\<lambda>r. collate (ev_source_fact_id r)) (rows source))
     \<union> {r \<in> set (rows source). source_key_of r \<in> set requested}"

lemma set_retained_rows:
  "set (retained_rows anchors limit rows) =
     (let taken = set (take (nat (limit + 1)) rows) in taken \<union> {p. \<exists>r\<in>taken. anchor_of anchors r = Some p})"
  by (auto simp: retained_rows_def Let_def split: option.splits)

lemma set_retained:
  assumes "\<And>source. source \<in> set REPOSITORY_SOURCE_ROLES \<Longrightarrow> distinct (rows source)"
    and evidence: "\<And>source e. source \<in> set REPOSITORY_SOURCE_ROLES \<Longrightarrow> e \<in> set (rows source) \<Longrightarrow> (ev_source_table e, ev_role e) = source"
    and "int (card (set (retained collate rows limit requested))) \<le> limit"
  shows "set (retained collate rows limit requested) =
    (let kept = \<Union>source\<in>set REPOSITORY_SOURCE_ROLES. chosen collate rows requested source
     in kept \<union> {p. \<exists>r\<in>kept. anchor_of (rows (PUSHES, REPO)) r = Some p})"
proof -
  let ?X = "set (retained collate rows limit requested)"
  have branch: "set (witness_branch collate (rows (PUSHES, REPO)) limit requested source (rows source)) =
      chosen collate rows requested source \<union> {p. \<exists>r\<in>chosen collate rows requested source. anchor_of (rows (PUSHES, REPO)) r = Some p}"
    if source: "source \<in> set REPOSITORY_SOURCE_ROLES" for source
  proof -
    let ?ids = "map (\<lambda>(fact_table, fact_id, role). fact_id) (filter (\<lambda>(fact_table, fact_id, role). (fact_table, role) = source) requested)"
    let ?order = "\<lambda>r. collate (ev_source_fact_id r)"
    let ?states = "distinct_on (witness_state (rows (PUSHES, REPO))) ?order (rows source)"
    let ?asked = "sort_key ?order (filter (\<lambda>r. ev_source_fact_id r \<in> set ?ids) (rows source))"
    have sub: "set (witness_branch collate (rows (PUSHES, REPO)) limit requested source (rows source)) \<subseteq> ?X"
      using source by (auto simp: retained_def)
    have "take (nat (limit + 1)) ?states = ?states"
      by (rule retained_complete[where X = ?X and anchors = "rows (PUSHES, REPO)"])
        (use sub assms(3) in \<open>simp_all add: distinct_on_rows witness_branch_def Let_def\<close>)
    moreover have "take (nat (limit + 1)) ?asked = ?asked"
      by (rule retained_complete[where X = ?X and anchors = "rows (PUSHES, REPO)"])
        (use sub assms(1)[OF source] assms(3) in \<open>simp_all add: witness_branch_def Let_def\<close>)
    moreover have "ev_source_fact_id r \<in> set ?ids \<longleftrightarrow> source_key_of r \<in> set requested" if "r \<in> set (rows source)" for r
      using evidence[OF source that] by (force simp: source_key_of_def)
    then have "set ?asked = {r \<in> set (rows source). source_key_of r \<in> set requested}"
      unfolding set_sort set_filter by (intro Collect_cong conj_cong refl)
    ultimately show ?thesis
      unfolding witness_branch_def Let_def set_append set_retained_rows chosen_def by auto
  qed
  show ?thesis unfolding retained_def set_concat set_map image_image Let_def
    using branch by auto
qed

text \<open>The resolver reads of a row what the query compares.\<close>

lemma naming_state: "scalar_state r = scalar_state r' \<Longrightarrow> naming r = naming r'"
  by (simp add: scalar_state_def naming_def evidence_identity_def evidence_identity_of_def)

lemma naming_of_state:
  assumes "witness_state anchors w = witness_state anchors r"
  shows "naming w = naming r" "map_option naming (anchor_of anchors w) = map_option naming (anchor_of anchors r)"
proof -
  show "naming w = naming r" by (rule naming_state) (use assms in \<open>simp add: witness_state_def\<close>)
  have m: "map_option scalar_state (anchor_of anchors w) = map_option scalar_state (anchor_of anchors r)"
    using assms by (simp add: witness_state_def)
  show "map_option naming (anchor_of anchors w) = map_option naming (anchor_of anchors r)"
    by (cases "anchor_of anchors w"; cases "anchor_of anchors r") (use m in \<open>auto intro: naming_state\<close>)
qed

lemma retained_witnesses:
  assumes ok: "db_ok db"
    and rows: "\<forall>source\<in>set REPOSITORY_SOURCE_ROLES. source_evidence collate spelled db org_id t source = map Inr (rows source)"
    and E: "set E = (\<Union>source\<in>set REPOSITORY_SOURCE_ROLES. set (rows source))"
    and W: "set W = (let kept = \<Union>source\<in>set REPOSITORY_SOURCE_ROLES. chosen collate rows requested source
     in kept \<union> {p. \<exists>r\<in>kept. anchor_of (rows (PUSHES, REPO)) r = Some p})"
  shows "witnesses E W" "source_key_of ` set E \<inter> set requested \<subseteq> source_key_of ` set W"
proof -
  let ?kept = "\<Union>source\<in>set REPOSITORY_SOURCE_ROLES. chosen collate rows requested source"
  have inj: "inj_on source_key_of (set E)" unfolding E by (rule evidence_inj[OF ok rows])
  have pushes: "(PUSHES, REPO) \<in> set REPOSITORY_SOURCE_ROLES" by (simp add: REPOSITORY_SOURCE_ROLES_def)
  have ev: "evidence_of source org_id t e" if "source \<in> set REPOSITORY_SOURCE_ROLES" "e \<in> set (rows source)" for source e
    using source_rows[OF ok that(1)] rows that by blast
  have anchor: "anchor_of (rows (PUSHES, REPO)) r = anchor_in E r" for r
  proof -
    have "find (\<lambda>p. ev_source_fact_id p = i) (rows (PUSHES, REPO)) = fmlookup (kept_sources E) (PUSHES, i, REPO)" for i
    proof (cases "find (\<lambda>p. ev_source_fact_id p = i) (rows (PUSHES, REPO))")
      case (Some p)
      then have "p \<in> set (rows (PUSHES, REPO))" "ev_source_fact_id p = i" by (auto simp: find_Some_iff in_set_conv_nth)
      then have "p \<in> set E \<and> source_key_of p = (PUSHES, i, REPO)"
        using ev[OF pushes] pushes by (auto simp: E evidence_of_def source_key_of_def)
      then show ?thesis using Some kept_in[OF inj, of "(PUSHES, i, REPO)" p] by simp
    next
      case None
      have "fmlookup (kept_sources E) (PUSHES, i, REPO) = None"
      proof (rule ccontr)
        assume "fmlookup (kept_sources E) (PUSHES, i, REPO) \<noteq> None"
        then obtain p where p: "p \<in> set E" "source_key_of p = (PUSHES, i, REPO)" using kept_in[OF inj] by auto
        then obtain source where source: "source \<in> set REPOSITORY_SOURCE_ROLES" "p \<in> set (rows source)" unfolding E by blast
        then have "source = (PUSHES, REPO)" using ev[OF source] p(2) by (auto simp: evidence_of_def source_key_of_def)
        then have "p \<in> set (rows (PUSHES, REPO))" using source(2) by simp
        then show False using None p(2) by (auto simp: find_None_iff source_key_of_def)
      qed
      then show ?thesis using None by simp
    qed
    then show ?thesis by (simp add: anchor_of_def anchor_in_def split: option.splits)
  qed
  have kept: "?kept \<subseteq> set E" unfolding E chosen_def using distinct_on_rows(2) by fastforce
  have sub: "set W \<subseteq> set E" using kept kept_SomeD(1)
    unfolding W Let_def anchor by (auto simp: anchor_in_def split: if_splits option.splits)
  show "witnesses E W" unfolding witnesses_def
  proof (intro conjI ballI allI impI sub)
    fix w p assume w: "w \<in> set W" "anchor_in E w = Some p"
    show "p \<in> set W"
    proof (cases "w \<in> ?kept")
      case True
      then show ?thesis using w(2) unfolding W Let_def anchor by blast
    next
      case False
      then obtain r where "anchor_in E r = Some w" using w(1) unfolding W Let_def anchor by blast
      then have "ev_source_table w = PUSHES"
        using kept_SomeD(2) by (fastforce simp: anchor_in_def source_key_of_def split: if_splits option.splits)
      then show ?thesis using w(2) by (simp add: anchor_in_def)
    qed
  next
    fix r assume "r \<in> set E"
    then obtain source where source: "source \<in> set REPOSITORY_SOURCE_ROLES" "r \<in> set (rows source)" unfolding E by blast
    let ?states = "distinct_on (witness_state (rows (PUSHES, REPO))) (\<lambda>r. collate (ev_source_fact_id r)) (rows source)"
    obtain w where w: "w \<in> set ?states" "witness_state (rows (PUSHES, REPO)) w = witness_state (rows (PUSHES, REPO)) r"
      using distinct_on_rows(3)[OF source(2)] by blast
    then have "w \<in> set (rows source)"
      using distinct_on_rows(2)[of "witness_state (rows (PUSHES, REPO))" "\<lambda>r. collate (ev_source_fact_id r)" "rows source"] by blast
    then have "ev_source_table w = ev_source_table r" using ev[OF source(1)] source(2) by (auto simp: evidence_of_def)
    moreover have "naming w = naming r" "map_option naming (anchor_in E w) = map_option naming (anchor_in E r)"
      using naming_of_state[OF w(2)] unfolding anchor by simp_all
    ultimately have "state_in E w = state_in E r" by (simp add: state_in_def)
    moreover have "w \<in> set W" unfolding W Let_def chosen_def using source(1) w(1) by blast
    ultimately show "\<exists>w\<in>set W. state_in E w = state_in E r" by blast
  qed
  show "source_key_of ` set E \<inter> set requested \<subseteq> source_key_of ` set W"
    unfolding E W Let_def chosen_def by blast
qed

section \<open>Renames\<close>

lemma no_rename_conflicts:
  assumes "table_ok rr_id rename_index renames" "set rows \<subseteq> set renames" "\<forall>r\<in>set rows. rr_org_id r = org_id"
  shows "rename_conflicts rows = {}"
proof -
  have one: "r = r'" if "r \<in> set rows" "r' \<in> set rows"
      "rr_id r = rr_id r' \<or> rr_source_event_id r \<noteq> None \<and> rename_delivery r = rename_delivery r'" for r r'
  proof (rule table_ok_unique[OF assms(1)])
    show "r \<in> set renames" "r' \<in> set renames" using that assms(2) by auto
    show "index_conflict rr_id rename_index r r'"
      using that assms(3) by (auto simp: index_conflict_def rename_index_def rename_delivery_def)
  qed
  have "clash rr_id rename_signature (set rows) = {}" using one unfolding clash_def by blast
  moreover have "card (delivery_signature ` {r'\<in>set rows. rr_source_event_id r' \<noteq> None \<and> rename_delivery r' = rename_delivery r}) \<le> 1"
    if "r \<in> set rows" for r
  proof -
    have "{r'\<in>set rows. rr_source_event_id r' \<noteq> None \<and> rename_delivery r' = rename_delivery r} \<subseteq> {r}"
      using one that by blast
    then have "delivery_signature ` {r'\<in>set rows. rr_source_event_id r' \<noteq> None \<and> rename_delivery r' = rename_delivery r}
        \<subseteq> {delivery_signature r}" by blast
    then have "card (delivery_signature ` {r'\<in>set rows. rr_source_event_id r' \<noteq> None \<and> rename_delivery r' = rename_delivery r})
        \<le> card {delivery_signature r}" by (rule card_mono[rotated]) simp
    then show ?thesis by simp
  qed
  then have "delivery_conflicts rows = {}" unfolding delivery_conflicts_eq Let_def by (simp add: not_less[symmetric])
  ultimately show ?thesis by (simp add: rename_conflicts_eq)
qed

lemma visible_renames_rows:
  "db_ok db \<Longrightarrow> r \<in> set (visible_renames db org_id t) \<Longrightarrow> validate_repository_rename r = Inr r \<and> rr_org_id r = org_id \<and> rr_captured_at r \<le> t"
  by (auto simp: visible_renames_def db_ok_def facts_ok_def fact_conditions_def)

lemma renames_table: "db_ok db \<Longrightarrow> table_ok rr_id rename_index (db_renames db)"
  by (simp add: db_ok_def facts_ok_def)

lemma bounded_rows: "bounded_fact_rows (Some n) label rows = Inr kept \<Longrightarrow> 0 \<le> n \<Longrightarrow> kept = rows"
  by (auto simp: bounded_fact_rows_def Let_def min_def split: if_splits)

lemma v_map_valid:
  "v_map validate xs = Inr ys \<Longrightarrow> \<forall>x\<in>set xs. validate x = Inr x \<Longrightarrow> ys = xs"
  by (induction xs arbitrary: ys) (auto elim!: bind_result_Inr)

lemma renames_read:
  assumes "read_repository_renames collate db org_id False (Some t) (Some limit) = Inr R" "db_ok db"
  shows "set R = set (visible_renames db org_id t)"
proof -
  let ?rows = "read_page db org_id REPOSITORY_RENAMES rr_org_id rr_id False (\<lambda>r. rr_captured_at r \<le> t)
      (\<lambda>r. (rr_captured_at r, collate (rr_id r))) (db_renames db)"
  obtain kept where "bounded_fact_rows (Some limit) ''Repository rename'' ?rows = Inr kept"
      "v_map validate_repository_rename kept = Inr R" "1 \<le> limit"
    using assms(1) by (auto simp: read_repository_renames_def the_default_def through_def Let_def split: if_splits elim!: bind_result_Inr)
  then have kept: "kept = ?rows" by (intro bounded_rows[of limit "''Repository rename''"]) linarith+
  have "R = kept"
  proof (rule v_map_valid)
    show "v_map validate_repository_rename kept = Inr R" by fact
    show "\<forall>r\<in>set kept. validate_repository_rename r = Inr r"
      using visible_renames_rows[OF assms(2), of _ org_id t] unfolding kept visible_renames_def by simp
  qed
  then show ?thesis by (simp add: kept visible_renames_def)
qed

text \<open>The names and claims of renames are those of their states.\<close>

lemma rename_states:
  assumes "rename_state ` set rows = rename_state ` set rows'"
  shows "set (valid_renames rows {}) = set (valid_renames rows' {})" "rename_claims rows = rename_claims rows'"
proof -
  let ?f = "\<lambda>(p, h, i, old, new). (\<lparr>ri_provider = p, ri_host = h, ri_repository_id = i\<rparr>, old, new)"
  have "set (valid_renames rows {}) = ?f ` rename_state ` set rows" for rows
    by (simp add: valid_renames_def rename_state_def rename_identity_def image_image)
  then show "set (valid_renames rows {}) = set (valid_renames rows' {})" by (simp only: assms)
  have "set (concat (map (\<lambda>row. [(rr_old_repo row, rename_identity row), (rr_new_repo row, rename_identity row)]) (rename_rows rows)))
      = (\<Union>(p, h, i, old, new)\<in>rename_state ` set rows. {(old, \<lparr>ri_provider = p, ri_host = h, ri_repository_id = i\<rparr>),
          (new, \<lparr>ri_provider = p, ri_host = h, ri_repository_id = i\<rparr>)})" for rows
    by (simp add: rename_state_def rename_identity_def)
  then show "rename_claims rows = rename_claims rows'"
    unfolding rename_claims_def by (intro fm_add_all_cong) (simp only: assms)
qed

lemma witness_renames:
  assumes "db_ok db" "1 \<le> limit"
    and "bounded_fact_rows (Some limit) label (distinct_on rename_state order (visible_renames db org_id t)) = Inr kept"
    and "v_map validate_repository_rename kept = Inr renames" "Q = sort_key key renames"
  shows "set Q \<subseteq> set (visible_renames db org_id t)" "rename_state ` set Q = rename_state ` set (visible_renames db org_id t)"
    "int (length Q) \<le> limit"
proof -
  let ?states = "distinct_on rename_state order (visible_renames db org_id t)"
  have kept: "kept = ?states" by (rule bounded_rows[OF assms(3)]) (use assms(2) in linarith)
  have "renames = kept"
  proof (rule v_map_valid)
    show "v_map validate_repository_rename kept = Inr renames" by fact
    show "\<forall>r\<in>set kept. validate_repository_rename r = Inr r"
      using visible_renames_rows[OF assms(1), of _ org_id t] distinct_on_rows(2)[of rename_state order "visible_renames db org_id t"]
      unfolding kept by blast
  qed
  then have Q: "set Q = set ?states" "length Q = length ?states" by (simp_all add: assms(5) kept)
  show sub: "set Q \<subseteq> set (visible_renames db org_id t)" unfolding Q by (rule distinct_on_rows(2))
  show "rename_state ` set Q = rename_state ` set (visible_renames db org_id t)"
  proof
    show "rename_state ` set Q \<subseteq> rename_state ` set (visible_renames db org_id t)" using sub by (rule image_mono)
    show "rename_state ` set (visible_renames db org_id t) \<subseteq> rename_state ` set Q"
    proof
      fix x assume "x \<in> rename_state ` set (visible_renames db org_id t)"
      then obtain r where "r \<in> set (visible_renames db org_id t)" "x = rename_state r" by blast
      then show "x \<in> rename_state ` set Q"
        using distinct_on_rows(3)[of r "visible_renames db org_id t" rename_state order] unfolding Q by (metis image_eqI)
    qed
  qed
  show "int (length Q) \<le> limit" using assms(3) unfolding Q(2)
    by (auto simp: bounded_fact_rows_def Let_def min_def split: if_splits)
qed

lemma valid_before:
  assumes "\<forall>r\<in>R. validate_repository_rename r = Inr r \<and> rr_org_id r = org_id \<and> rr_captured_at r \<le> t"
  shows "renames_before org_id t R = R"
  using assms by (force simp: renames_before_def)

section \<open>The rows of the witness read\<close>

lemma retained_subset:
  "set (retained collate rows limit requested) \<subseteq> (\<Union>source\<in>set REPOSITORY_SOURCE_ROLES. set (rows source))"
proof -
  have pushes: "(PUSHES, REPO) \<in> set REPOSITORY_SOURCE_ROLES" by (simp add: REPOSITORY_SOURCE_ROLES_def)
  have anchors: "p \<in> set (rows (PUSHES, REPO))" if "anchor_of (rows (PUSHES, REPO)) r = Some p" for r p
    using that by (auto simp: anchor_of_def find_Some_iff split: if_splits option.splits)
  have "set (retained_rows (rows (PUSHES, REPO)) limit xs) \<subseteq> set xs \<union> set (rows (PUSHES, REPO))" for xs
    using anchors set_take_subset[of _ xs] unfolding set_retained_rows Let_def by blast
  then have "set (witness_branch collate (rows (PUSHES, REPO)) limit requested source (rows source))
      \<subseteq> set (rows source) \<union> set (rows (PUSHES, REPO))" for source
    using distinct_on_rows(2)[of "witness_state (rows (PUSHES, REPO))" "\<lambda>r. collate (ev_source_fact_id r)" "rows source"]
    unfolding witness_branch_def Let_def set_append by fastforce
  then show ?thesis using pushes unfolding retained_def set_concat set_map image_image by blast
qed

lemma witness_rows:
  assumes ok: "db_ok db"
    and rows: "\<forall>source\<in>set REPOSITORY_SOURCE_ROLES. source_evidence collate spelled db org_id t source = map Inr (rows source)"
    and E: "set E = (\<Union>source\<in>set REPOSITORY_SOURCE_ROLES. set (rows source))"
    and W: "W = sort_key key (map snd (sources_by_key (retained collate rows limit requested)))"
    and limit: "int (length (sources_by_key (retained collate rows limit requested))) \<le> limit"
  shows "witnesses E W" "source_key_of ` set E \<inter> set requested \<subseteq> source_key_of ` set W" "int (length W) \<le> limit"
proof -
  let ?items = "retained collate rows limit requested"
  have "set ?items \<subseteq> set E" unfolding E by (rule retained_subset)
  then have "inj_on source_key_of (set ?items)" using inj_on_subset[OF evidence_inj[OF ok rows]] E by blast
  note u = update_all[OF this, folded sources_by_key_def]
  have W': "set W = set ?items" using u by (simp add: W)
  have ev: "distinct (rows source) \<and> (\<forall>e\<in>set (rows source). (ev_source_table e, ev_role e) = source)"
    if "source \<in> set REPOSITORY_SOURCE_ROLES" for source
    using source_rows[OF ok that, of collate spelled org_id t "rows source"] rows that by (auto simp: distinct_map evidence_of_def)
  have "set W = (let kept = \<Union>source\<in>set REPOSITORY_SOURCE_ROLES. chosen collate rows requested source
     in kept \<union> {p. \<exists>r\<in>kept. anchor_of (rows (PUSHES, REPO)) r = Some p})"
    unfolding W' by (rule set_retained) (use ev u limit in auto)
  note r = retained_witnesses[OF ok rows E this]
  show "witnesses E W" "source_key_of ` set E \<inter> set requested \<subseteq> source_key_of ` set W" by (rule r)+
  show "int (length W) \<le> limit" using limit by (simp add: W)
qed

lemma identities_length: "read_repository_identities collate spelled db org_id t (int n) = Inr E \<Longrightarrow> length E \<le> n"
proof -
  assume "read_repository_identities collate spelled db org_id t (int n) = Inr E"
  then obtain rows where "v_map id (take (nat (int n + 1)) (repository_population collate spelled db org_id t)) = Inr rows"
      "int (length (repository_population collate spelled db org_id t)) \<le> int n" "E = sort_key evidence_sort_key rows"
    by (auto simp: read_repository_identities_def Let_def split: if_splits elim!: bind_result_Inr)
  moreover then have "length rows \<le> length (repository_population collate spelled db org_id t)"
    unfolding v_map_id by (metis length_map length_take min.cobounded1)
  ultimately show ?thesis by simp
qed

lemma renames_length:
  "read_repository_renames collate db org_id False (Some t) (Some (int n)) = Inr R \<Longrightarrow> length (visible_renames db org_id t) \<le> n"
  by (auto simp: read_repository_renames_def the_default_def through_def Let_def bounded_fact_rows_def visible_renames_def
      split: if_splits elim!: bind_result_Inr)

lemma v_map_cong: "(\<And>x. x \<in> set xs \<Longrightarrow> f x = g x) \<Longrightarrow> v_map f xs = v_map g xs"
  by (induction xs) simp_all

lemma v_map_all: "\<forall>x\<in>set xs. f x = Inr x \<Longrightarrow> v_map f xs = Inr xs"
  by (induction xs) simp_all

section \<open>The witnesses stand for the population\<close>

lemma build_contextE':
  assumes "build_repository_context E R org_id (Some t) = Inr ctx" "OrgId org_id = Inr org_id"
  obtains rows where "as_utc t = Inr t" "ctx = assemble_context org_id t (scan_rows (eligible_evidence org_id t E)) rows"
    "set rows = renames_before org_id t (set R)" "\<forall>row\<in>set E. validate_evidence row = Inr row" "\<forall>row\<in>set R. rename_ok org_id t row"
proof -
  obtain t' org rows E' where c: "Some t = Some t'" "OrgId org_id = Inr org" "E' = eligible_evidence org t' E"
    "set rows = renames_before org t' (set R)" "eligible_renames R org t' = Inr rows" "ctx = assemble_context org t' (scan_rows E') rows"
    "\<forall>row\<in>set E. validate_evidence row = Inr row" by (rule build_contextE[OF assms(1)])
  have "as_utc t = Inr t" using assms(1) by (auto simp: build_repository_context_def Let_def as_utc_def split: if_splits)
  then show thesis using that[of rows] c assms(2) eligible_renames_Inr(2)[OF c(5)] by simp
qed

lemma v_map_mem: "v_map f xs = Inr ys \<Longrightarrow> x \<in> set xs \<Longrightarrow> f x = Inr y \<Longrightarrow> y \<in> set ys"
  by (induction xs arbitrary: ys) (auto elim!: bind_result_Inr)

lemma witness_context_equivalent:
  assumes "reachable db" "OrgId org_id = Inr org_id"
    and "read_repository_identities collate spelled db org_id t limit = Inr E"
    and "read_repository_renames collate db org_id False (Some t) (Some rename_limit) = Inr R"
    and "read_repository_context_witnesses collate spelled db org_id t keys witness_limit = Inr (W, Q)"
    and "build_repository_context E R org_id (Some t) = Inr ctx"
  shows "\<exists>ctx'. build_repository_context W Q org_id (Some t) = Inr ctx'
    \<and> rc_names ctx' = rc_names ctx \<and> rc_claims ctx' = rc_claims ctx \<and> rc_unsafe_slugs ctx' = rc_unsafe_slugs ctx
    \<and> (\<forall>key\<in>set keys. \<forall>key'. validate_source_key key = Inr key' \<longrightarrow> resolve_source ctx' key' = resolve_source ctx key')"
proof -
  note ok = store_reachable_ok[OF assms(1)]
  let ?rows = "source_rows_of collate spelled db org_id t"
  note full = read_identities[OF assms(3)]
  obtain requested kept renames where w: "v_map validate_source_key keys = Inr requested"
    "W = sort_key evidence_sort_key (map snd (sources_by_key (retained collate ?rows witness_limit requested)))"
    "int (length (sources_by_key (retained collate ?rows witness_limit requested))) \<le> witness_limit"
    "1 \<le> witness_limit" "witness_limit \<le> int REPOSITORY_IDENTITY_LIMIT"
    "bounded_fact_rows (Some witness_limit) ''Repository rename witness''
        (distinct_on rename_state (\<lambda>r. collate (rr_id r)) (visible_renames db org_id t)) = Inr kept"
    "v_map validate_repository_rename kept = Inr renames" "Q = sort_key (\<lambda>r. (rr_captured_at r, rr_id r)) renames"
    by (rule read_witnesses[OF assms(5,2)])
  have rows: "\<forall>source\<in>set REPOSITORY_SOURCE_ROLES. source_evidence collate spelled db org_id t source = map Inr (?rows source)"
    and E: "set E = (\<Union>source\<in>set REPOSITORY_SOURCE_ROLES. set (?rows source))" using full by blast+
  have inj: "inj_on source_key_of (set E)" unfolding E by (rule evidence_inj[OF ok rows])
  note W = witness_rows[OF ok rows E w(2,3)]
  note Q = witness_renames[OF ok w(4,6-8)]
  note visible = visible_renames_rows[OF ok, of _ org_id t]
  have R: "set R = set (visible_renames db org_id t)" by (rule renames_read[OF assms(4) ok])
  obtain rows where c: "as_utc t = Inr t" "ctx = assemble_context org_id t (scan_rows (eligible_evidence org_id t E)) rows"
    "set rows = renames_before org_id t (set R)" "\<forall>row\<in>set E. validate_evidence row = Inr row" "\<forall>row\<in>set R. rename_ok org_id t row"
    using assms(2) by (rule build_contextE'[OF assms(6)])
  have rows_R: "set rows = set R" unfolding c(3) R by (rule valid_before) (use visible in blast)
  have E': "eligible_evidence org_id t E = E"
    unfolding eligible_evidence_def filter_id_conv E using source_rows[OF ok, of _ collate spelled org_id t] rows
    by (auto simp: evidence_of_def)
  have W': "eligible_evidence org_id t W = W" using E' witnesses_subset[OF W(1)]
    unfolding eligible_evidence_def filter_id_conv by blast
  obtain rows' where q: "eligible_renames Q org_id t = Inr rows'" "set rows' = renames_before org_id t (set Q)"
    using eligible_renames_Inr(1)[of Q org_id t] c(5) Q(1) R by blast
  have rows_Q: "set rows' = set Q" unfolding q(2) by (rule valid_before) (use visible Q(1) in blast)
  have none: "rename_conflicts rows = {}" "rename_conflicts rows' = {}"
    by (rule no_rename_conflicts[of "db_renames db" _ org_id, OF renames_table[OF ok]];
        use visible Q(1) in \<open>auto simp: rows_R rows_Q R visible_renames_def\<close>)+
  note states = rename_states[of rows rows', unfolded rows_R rows_Q R, OF Q(2)[symmetric]]
  let ?ctx = "assemble_context org_id t (scan_rows W) rows'"
  have "build_repository_context W Q org_id (Some t) = Inr ?ctx"
    using W(3) Q(3) w(5) c q(1) assms(2) W' witnesses_subset[OF W(1)] by (subst build_context_Inr) auto
  moreover note f = witness_fields[OF W(1) inj none states, of org_id t]
  moreover have "resolve_source ?ctx key' = resolve_source ctx key'" if "key \<in> set keys" "validate_source_key key = Inr key'" for key key'
  proof -
    have "key' \<in> set requested" using w(1) that by (rule v_map_mem)
    then have "key' \<in> source_key_of ` set E \<longrightarrow> key' \<in> source_key_of ` set W" using W(2) by blast
    then show ?thesis unfolding c(2) E' by (rule witness_source[OF W(1) inj none states])
  qed
  ultimately show ?thesis by (intro exI[of _ ?ctx]) (simp add: c(2) E' assembled_fields)
qed

text \<open>Where the full reads fit their limits, so does the witness read.\<close>

lemma v_map_sum: "v_map (\<lambda>s. Inr (f s)) ss = Inr (map f ss)"
  by (induction ss) simp_all

lemma witness_read_succeeds:
  assumes ok: "db_ok db" and "OrgId org_id = Inr org_id"
    and E: "read_repository_identities collate spelled db org_id t (int REPOSITORY_IDENTITY_LIMIT) = Inr E"
    and R: "read_repository_renames collate db org_id False (Some t) (Some (int REPOSITORY_IDENTITY_LIMIT)) = Inr R"
    and keys: "v_map validate_source_key keys = Inr requested" "length keys \<le> REPOSITORY_IDENTITY_LIMIT"
  shows "\<exists>W Q. read_repository_context_witnesses collate spelled db org_id t keys (int REPOSITORY_IDENTITY_LIMIT) = Inr (W, Q)"
proof -
  let ?L = "int REPOSITORY_IDENTITY_LIMIT" and ?rows = "source_rows_of collate spelled db org_id t"
  note full = read_identities[OF E]
  let ?found = "map (\<lambda>s. witness_branch collate (?rows (PUSHES, REPO)) ?L requested s (?rows s)) REPOSITORY_SOURCE_ROLES"
  have rows: "v_map id (source_evidence collate spelled db org_id t source) = Inr (?rows source)"
    if "source \<in> set REPOSITORY_SOURCE_ROLES" for source using full that by (simp add: v_map_id)
  have branches: "v_map (\<lambda>source. map_sum id (witness_branch collate (?rows (PUSHES, REPO)) ?L requested source)
      (v_map id (source_evidence collate spelled db org_id t source))) REPOSITORY_SOURCE_ROLES = Inr ?found"
    unfolding v_map_sum[symmetric] by (rule v_map_cong) (simp only: rows map_sum.simps)
  have items: "set (concat ?found) \<subseteq> set E"
    using retained_subset[of collate ?rows ?L requested] full unfolding retained_def by simp
  then have "inj_on source_key_of (set (concat ?found))"
    using evidence_inj[OF ok conjunct1[OF full]] conjunct2[OF full] by (auto intro: inj_on_subset)
  then have "length (sources_by_key (concat ?found)) = card (set (concat ?found))" by (simp only: update_all sources_by_key_def)
  also have "\<dots> \<le> length E" using card_mono[OF _ items] card_length[of E] by fastforce
  also have "length E \<le> REPOSITORY_IDENTITY_LIMIT" by (rule identities_length[OF E])
  finally have fits: "\<not> int (length (sources_by_key (concat ?found))) > ?L" by simp
  let ?renames = "distinct_on rename_state (\<lambda>r. collate (rr_id r)) (visible_renames db org_id t)"
  have "length ?renames \<le> length (visible_renames db org_id t)"
    unfolding distinct_on_def by (simp add: order_trans[OF length_remdups_leq])
  also have "\<dots> \<le> REPOSITORY_IDENTITY_LIMIT" by (rule renames_length[OF R])
  finally have kept: "bounded_fact_rows (Some ?L) ''Repository rename witness'' ?renames = Inr ?renames"
    by (simp add: bounded_fact_rows_def Let_def)
  have valid: "v_map validate_repository_rename ?renames = Inr ?renames"
    using visible_renames_rows[OF ok, of _ org_id t] distinct_on_rows(2)[of rename_state "\<lambda>r. collate (rr_id r)" "visible_renames db org_id t"]
    by (intro v_map_all) blast
  have push: "(PUSHES, REPO) \<in> set REPOSITORY_SOURCE_ROLES" by (simp add: REPOSITORY_SOURCE_ROLES_def)
  have bounds: "1 \<le> ?L" "\<not> length keys > REPOSITORY_IDENTITY_LIMIT" using keys(2) by (simp_all add: REPOSITORY_IDENTITY_LIMIT_def)
  show ?thesis
    unfolding read_repository_context_witnesses_def sources_by_key_def[symmetric] visible_renames_def[symmetric] Let_def
      assms(2) keys(1) rows[OF push] bind_result_simps branches valid
    using bounds fits kept valid by (simp del: concat.simps)
qed

text \<open>C10. The compact reads lose nothing a resolver asks for: over every reachable database whose visible evidence and
  renames fit the limit, \<open>read_repository_witness_context\<close>, which reads one source per scalar state, each
  observation with its source Push, one rename per state, and the requested sources, returns a context with the same
  names, the same claims and the same unsafe slugs as the context of the whole visible evidence, and resolves
  every requested source as that one does.\<close>

theorem witness_context_complete:
  assumes "reachable db" "OrgId org_id = Inr org_id"
    and "read_repository_identities collate spelled db org_id t (int REPOSITORY_IDENTITY_LIMIT) = Inr E"
    and "read_repository_renames collate db org_id False (Some t) (Some (int REPOSITORY_IDENTITY_LIMIT)) = Inr R"
    and "build_repository_context E R org_id (Some t) = Inr ctx"
    and "v_map validate_source_key keys = Inr requested" "length keys \<le> REPOSITORY_IDENTITY_LIMIT"
  shows "\<exists>ctx'. read_repository_witness_context collate spelled db org_id t keys = Inr ctx'
    \<and> rc_names ctx' = rc_names ctx \<and> rc_claims ctx' = rc_claims ctx \<and> rc_unsafe_slugs ctx' = rc_unsafe_slugs ctx
    \<and> (\<forall>key\<in>set requested. resolve_source ctx' key = resolve_source ctx key)"
proof -
  obtain W Q where w: "read_repository_context_witnesses collate spelled db org_id t keys (int REPOSITORY_IDENTITY_LIMIT) = Inr (W, Q)"
    using witness_read_succeeds[OF store_reachable_ok[OF assms(1)] assms(2-4,6,7)] by blast
  obtain ctx' where c: "build_repository_context W Q org_id (Some t) = Inr ctx'"
    "rc_names ctx' = rc_names ctx" "rc_claims ctx' = rc_claims ctx" "rc_unsafe_slugs ctx' = rc_unsafe_slugs ctx"
    "\<forall>key\<in>set keys. \<forall>key'. validate_source_key key = Inr key' \<longrightarrow> resolve_source ctx' key' = resolve_source ctx key'"
    using witness_context_equivalent[OF assms(1-4) w assms(5)] by blast
  have "resolve_source ctx' key' = resolve_source ctx key'" if "key' \<in> set requested" for key'
    using v_map_set[OF assms(6) that] c(5) by blast
  then show ?thesis using c by (intro exI[of _ ctx']) (simp add: read_repository_witness_context_def w)
qed

section \<open>A sample read\<close>

definition observed_db :: fact_db where
  "observed_db = push_db\<lparr>db_observations := [stored_observation],
     db_sessions := fmupd (''acme'', ''s1'') (observed_session None 7) fmempty\<rparr>"

lemma observed_db_reachable: "reachable observed_db"
proof -
  have "store_step push_db observed_db"
    by (rule observation_step[OF _ stored_observation_valid])
      (simp add: store_session_commit_observation_def repository_receipt_def insert_or_nothing_def empty_db_def push_db_def
        observed_db_def session_upsert_def session_upsert_values_def Let_def components_def stored_push_def stored_observation_def)
  then show ?thesis unfolding reachable_def using sample_first by (meson converse_rtranclp_into_rtranclp rtranclp.rtrancl_refl)
qed

definition stored_sources :: "identity_evidence list" where
  "stored_sources =
    [role_evidence PUSHES ''p1'' REPO ''acme'' ''acme/app'' (Some GITHUB) (Some ''github.com'') (Some ''42'') 5 ([], ''UTC'', 0) None,
     role_evidence SESSION_COMMIT_OBSERVATIONS ''o1'' REPO ''acme'' ''acme/app'' (Some GITHUB) (Some ''github.com'') (Some ''42'') 7
       ([], ''UTC'', 0) (Some ''p1'')]"

abbreviation utc_spelling :: "instant \<Rightarrow> spelling" where
  "utc_spelling \<equiv> \<lambda>t. ([], ''UTC'', 0)"

lemmas observed_eval = observed_db_def push_db_def empty_db_def stored_push_def stored_observation_def stored_sources_def
  REPOSITORY_SOURCE_ROLES_def visible_evidence_def fact_conditions_def latest_action_def Let_def REPOSITORY_IDENTITY_LIMIT_def

lemma observed_identities: "read_repository_identities id utc_spelling observed_db ''acme'' 10 (int REPOSITORY_IDENTITY_LIMIT) = Inr stored_sources"
  by (simp add: read_repository_identities_def repository_population_def observed_eval role_evidence_def evidence_sort_key_def)

lemma observed_renames: "read_repository_renames id observed_db ''acme'' False (Some 10) (Some (int REPOSITORY_IDENTITY_LIMIT)) = Inr []"
  by (simp add: read_repository_renames_def observed_eval bounded_fact_rows_def the_default_def)

lemma observed_keys: "v_map validate_source_key [(SESSION_COMMIT_OBSERVATIONS, ''o1'', REPO)]
    = Inr [(SESSION_COMMIT_OBSERVATIONS, ''o1'', REPO)]"
  by (simp add: validate_source_key_def validator_eval REPOSITORY_SOURCE_ROLES_def)

lemma stored_sources_valid: "\<forall>row\<in>set stored_sources. validate_evidence row = Inr row"
  by (simp add: stored_sources_def role_evidence_def validator_eval char_of_eq_iff take_bit_eq_mod)

lemma observed_context: "build_repository_context stored_sources [] ''acme'' (Some 10) =
    Inr (assemble_context ''acme'' 10 (scan_rows (eligible_evidence ''acme'' 10 stored_sources)) [])"
  by (subst build_context_Inr)
    (use stored_sources_valid in \<open>simp_all add: sample_org REPOSITORY_IDENTITY_LIMIT_def as_utc_def UTC_MIN_def UTC_MAX_def,
      simp add: stored_sources_def\<close>)

theorem witness_context_complete_witness:
  "\<exists>ctx'. read_repository_witness_context id utc_spelling observed_db ''acme'' 10 [(SESSION_COMMIT_OBSERVATIONS, ''o1'', REPO)] = Inr ctx'
     \<and> resolve_source ctx' (SESSION_COMMIT_OBSERVATIONS, ''o1'', REPO) = resolve_source (assemble_context ''acme'' 10
           (scan_rows (eligible_evidence ''acme'' 10 stored_sources)) []) (SESSION_COMMIT_OBSERVATIONS, ''o1'', REPO)"
  using witness_context_complete[OF observed_db_reachable sample_org observed_identities observed_renames observed_context
      observed_keys] by (auto simp: REPOSITORY_IDENTITY_LIMIT_def)

end
