(* ===== verification/Abandonment.thy ===== *)
theory Abandonment
  imports Rollout Mirror_Store Attribution_Laws
begin

text \<open>
  \<open>packages/derive/sediment_derive/abandonment.py\<close>: the status of the Sessions with accepted work. Only a
  captured Session-to-commit observation establishes that a Session reached a commit; where none is found the
  status stays unavailable.

  The mirrors and the legacy arguments (\<open>attributions\<close>, \<open>session_commits\<close>) are not read by the code. Of an
  inference call only the time of its observation is.
\<close>

section \<open>Policy and result\<close>

record abandonment_policy =
  ab_attribution :: attribution_policy
  ab_mirror_gc :: mirror_gc_policy
  ab_grace_horizon_days :: int
  ab_policy_version :: string

definition abandonment_policy_ok :: "abandonment_policy \<Rightarrow> bool" where
  "abandonment_policy_ok p =
     (1 \<le> ab_grace_horizon_days p \<and> attribution_policy_ok (ab_attribution p) \<and> mirror_gc_policy_ok (ab_mirror_gc p))"

definition new_abandonment_policy :: "attribution_policy \<Rightarrow> mirror_gc_policy \<Rightarrow> int \<Rightarrow> string \<Rightarrow> abandonment_policy result" where
  "new_abandonment_policy attribution mirror_gc days version =
     (if days < 1 then Inl (ValueError ''AbandonmentPolicy.grace_horizon_days must be >= 1'')
      else Inr \<lparr>ab_attribution = attribution, ab_mirror_gc = mirror_gc, ab_grace_horizon_days = days, ab_policy_version = version\<rparr>)"

definition default_mirror_gc_policy :: mirror_gc_policy where
  "default_mirror_gc_policy = \<lparr>gp_retention_days = 90, gp_policy_version = ''1''\<rparr>"

definition default_abandonment_policy :: abandonment_policy where
  "default_abandonment_policy =
     \<lparr>ab_attribution = default_attribution_policy, ab_mirror_gc = default_mirror_gc_policy, ab_grace_horizon_days = 14,
      ab_policy_version = ''6''\<rparr>"

datatype accepted_session_status = committed | abandoned | in_flight | attribution_unavailable

datatype abandonment_skip = no_accepted_decision | reached_a_commit | session_commit_unobserved
  | BindingSkip identity_skip_reason

record session_abandonment =
  sa_org_id :: string
  sa_session_id :: string
  sa_accepted_decisions :: nat
  sa_explicit_accepted_decisions :: nat
  sa_last_decision_at :: instant
  sa_as_of :: instant
  sa_provenance :: provenance

record accepted_session_outcome =
  ao_org_id :: string
  ao_session_id :: string
  ao_accepted_decisions :: nat
  ao_explicit_accepted_decisions :: nat
  ao_last_decision_at :: instant
  ao_as_of :: instant
  ao_status :: accepted_session_status
  ao_provenance :: provenance

record abandonment_result =
  ar_sessions :: "session_abandonment list"
  ar_skipped :: "abandonment_skip counter"
  ar_as_of :: "instant option"
  ar_provenance :: provenance
  ar_outcomes :: "accepted_session_outcome list"

section \<open>The boundary\<close>

text \<open>\<open>_as_of\<close>: the newest timestamp of the Facts, in the order the code lists them.\<close>

definition fact_stamps :: "developer_decision list \<Rightarrow> push list \<Rightarrow> call_summary list \<Rightarrow> instant list" where
  "fact_stamps decisions pushes completions =
     concat (map (\<lambda>d. [dd_occurred_at d, dd_captured_at d]) decisions)
     @ map pu_captured_at pushes @ map cs_observed_at completions"

definition newest_stamp :: "developer_decision list \<Rightarrow> push list \<Rightarrow> call_summary list \<Rightarrow> instant option result" where
  "newest_stamp decisions pushes completions =
     (case fact_stamps decisions pushes completions of
        [] \<Rightarrow> Inr None
      | stamps \<Rightarrow> bind_result (v_map as_utc stamps) (\<lambda>stamps. Inr (Some (Max (set stamps)))))"

text \<open>The items of an organization captured by the boundary. The organization is compared first, so a time
  out of range raises only there.\<close>

definition captured_by :: "('f \<Rightarrow> string) \<Rightarrow> ('f \<Rightarrow> instant) \<Rightarrow> string \<Rightarrow> instant \<Rightarrow> 'f list \<Rightarrow> 'f list result" where
  "captured_by org captured org_id boundary items =
     bind_result (v_map (\<lambda>x. bind_result (as_utc (captured x)) (\<lambda>_. Inr x)) (filter (\<lambda>x. org x = org_id) items))
       (\<lambda>items. Inr (filter (\<lambda>x. captured x \<le> boundary) items))"

section \<open>The derivation\<close>

definition session_decisions :: "developer_decision list \<Rightarrow> (string \<times> developer_decision list) list" where
  "session_decisions decisions = sort_key fst (group_by dd_session_id decisions)"

definition outcome_step ::
  "string \<Rightarrow> instant \<Rightarrow> provenance \<Rightarrow> string set \<Rightarrow> string \<times> developer_decision list \<Rightarrow> abandonment_result
   \<Rightarrow> abandonment_result result" where
  "outcome_step org_id as_of prov observed_sessions = (\<lambda>(session_id, decs) r.
     let accepted = filter dd_accepted decs
     in if accepted = [] then Inr (r\<lparr>ar_skipped := ctr_incr no_accepted_decision (ar_skipped r)\<rparr>)
        else
        let observed = session_id \<in> observed_sessions;
            reason = (if observed then reached_a_commit else session_commit_unobserved)
        in bind_result (v_map (\<lambda>d. as_utc (dd_occurred_at d)) decs) (\<lambda>times.
             Inr (r\<lparr>ar_skipped := ctr_incr reason (ar_skipped r),
                ar_outcomes := ar_outcomes r @
                  [\<lparr>ao_org_id = org_id, ao_session_id = session_id, ao_accepted_decisions = length accepted,
                    ao_explicit_accepted_decisions = length (filter dd_explicit accepted),
                    ao_last_decision_at = Max (set times), ao_as_of = as_of,
                    ao_status = (if observed then committed else attribution_unavailable), ao_provenance = prov\<rparr>]\<rparr>)))"

definition binding_skips :: "identity_skip_reason counter \<Rightarrow> abandonment_skip counter" where
  "binding_skips c = (\<lambda>r. case r of BindingSkip reason \<Rightarrow> c reason | _ \<Rightarrow> 0)"

text \<open>What follows once the boundary and the context are fixed.\<close>

definition classify_sessions ::
  "string \<Rightarrow> instant \<Rightarrow> provenance \<Rightarrow> repository_context \<Rightarrow> session_commit_observation list \<Rightarrow> nat
   \<Rightarrow> developer_decision list \<Rightarrow> abandonment_result result" where
  "classify_sessions org_id as_of prov ctx observations identified decisions =
     bind_result (bind_session_commit_keys_result observations org_id (Some as_of) ctx) (\<lambda>binding.
     bind_result (captured_by dd_org_id dd_captured_at org_id as_of decisions) (\<lambda>decisions.
       let observed_sessions = (\<lambda>((commit, session_id), items). session_id) ` set (br_bindings binding);
           skipped = ctr_update (ctr_add (BindingSkip repository_identity_unresolved) identified ctr_empty)
             (binding_skips (br_skipped binding))
       in fold_result (outcome_step org_id as_of prov observed_sessions) (session_decisions decisions)
            \<lparr>ar_sessions = [], ar_skipped = skipped, ar_as_of = Some as_of, ar_provenance = prov, ar_outcomes = []\<rparr>))"

text \<open>The boundary and context: an implicit boundary is the newest of the repository population and the Facts.\<close>

definition abandonment_context ::
  "snapshot \<Rightarrow> string \<Rightarrow> time_bound \<Rightarrow> repository_context option \<Rightarrow> identity_evidence result list
   \<Rightarrow> developer_decision list \<Rightarrow> push list \<Rightarrow> call_summary list \<Rightarrow> (repository_context \<times> instant) result" where
  "abandonment_context snapshot org_id as_of repository_context supplements decisions pushes completions =
     bind_result (case repository_context of Some ctx \<Rightarrow> Inr ctx
         | None \<Rightarrow> read_repository_context snapshot org_id as_of supplements) (\<lambda>ctx.
     bind_result (case as_of of Bound t \<Rightarrow> Inr t
         | _ \<Rightarrow> bind_result (newest_stamp decisions pushes completions) (\<lambda>newest.
             case newest of None \<Rightarrow> Inl (TypeError ''no timestamp'') | Some t \<Rightarrow> Inr (max (rc_as_of ctx) t))) (\<lambda>boundary.
     if rc_as_of ctx \<noteq> boundary
     then bind_result (read_repository_context snapshot org_id (Bound boundary) supplements) (\<lambda>ctx. Inr (ctx, boundary))
     else Inr (ctx, boundary)))"

definition derive_abandonment_in ::
  "snapshot \<Rightarrow> string \<Rightarrow> provenance \<Rightarrow> developer_decision list \<Rightarrow> push list option \<Rightarrow> call_summary list option
   \<Rightarrow> session_commit_observation list option \<Rightarrow> repository_context option \<Rightarrow> time_bound \<Rightarrow> abandonment_result result" where
  "derive_abandonment_in snapshot org_id prov decisions pushes completions observations repository_context as_of =
     (let pushes = the_default (sn_pushes snapshot) pushes
      in bind_result (case completions of None \<Rightarrow> sn_call_summaries snapshot None | Some calls \<Rightarrow> Inr calls) (\<lambda>completions.
         let facts = (case observations of
               None \<Rightarrow> sn_observations snapshot (case as_of of Bound t \<Rightarrow> t | _ \<Rightarrow> UTC_MAX)
             | Some items \<Rightarrow> items);
             preloaded_without_context = (observations \<noteq> None \<and> repository_context = None);
             supplements = (if preloaded_without_context then observation_supplements observations else [])
         in bind_result (abandonment_context snapshot org_id as_of repository_context supplements decisions pushes completions)
              (\<lambda>(ctx, boundary).
            if \<not> preloaded_without_context then classify_sessions org_id boundary prov ctx facts 0 decisions
            else bind_result (captured_by sc_org_id sc_captured_at org_id boundary
                (filter (\<lambda>item. rf_repository_id item \<noteq> None) facts)) (\<lambda>identified.
              classify_sessions org_id boundary prov ctx (filter (\<lambda>item. rf_repository_id item = None) facts)
                (length identified) decisions))))"

definition derive_abandonment ::
  "snapshot \<Rightarrow> string \<Rightarrow> abandonment_policy option \<Rightarrow> developer_decision list option \<Rightarrow> push list option
   \<Rightarrow> call_summary list option \<Rightarrow> time_bound \<Rightarrow> string option \<Rightarrow> session_commit_observation list option
   \<Rightarrow> repository_context option \<Rightarrow> abandonment_result result" where
  "derive_abandonment snapshot org_id policy decisions pushes completions as_of policy_digest observations repository_context =
     (if as_of = NaiveBound then Inl (ValueError ''as_of must be an aware datetime'')
      else
      bind_result (case repository_context of
          None \<Rightarrow> Inr as_of
        | Some ctx \<Rightarrow>
            bind_result (case (rc_org_id ctx = org_id, as_of) of (True, Bound t) \<Rightarrow> map_sum id Some (as_utc t) | _ \<Rightarrow> Inr None)
              (\<lambda>boundary.
                if rc_org_id ctx \<noteq> org_id \<or> (boundary \<noteq> None \<and> boundary \<noteq> Some (rc_as_of ctx))
                then Inl (ValueError ''repository context must match organization and boundary'')
                else Inr (Bound (rc_as_of ctx)))) (\<lambda>as_of.
      let policy = the_default default_abandonment_policy policy
      in bind_result (new_provenance (ab_policy_version policy) (sn_quarantine_revision snapshot) policy_digest) (\<lambda>prov.
         let decisions = the_default (sn_decisions snapshot) decisions
         in if decisions = []
            then Inr \<lparr>ar_sessions = [], ar_skipped = ctr_empty, ar_as_of = (case as_of of Bound t \<Rightarrow> Some t | _ \<Rightarrow> None),
                      ar_provenance = prov, ar_outcomes = []\<rparr>
            else derive_abandonment_in snapshot org_id prov decisions pushes completions observations repository_context as_of)))"

section \<open>Laws\<close>

definition session_outcome ::
  "string \<Rightarrow> instant \<Rightarrow> provenance \<Rightarrow> string set \<Rightarrow> string \<times> developer_decision list \<Rightarrow> accepted_session_outcome" where
  "session_outcome org_id t prov observed = (\<lambda>(session_id, decs).
     \<lparr>ao_org_id = org_id, ao_session_id = session_id, ao_accepted_decisions = length (filter dd_accepted decs),
      ao_explicit_accepted_decisions = length (filter dd_explicit (filter dd_accepted decs)),
      ao_last_decision_at = Max (set (map dd_occurred_at decs)), ao_as_of = t,
      ao_status = (if session_id \<in> observed then committed else attribution_unavailable), ao_provenance = prov\<rparr>)"

definition has_accept :: "string \<times> developer_decision list \<Rightarrow> bool" where
  "has_accept = (\<lambda>(session_id, decs). \<exists>d\<in>set decs. dd_accepted d)"

lemma as_utc_all: "v_map (\<lambda>d. as_utc (f d)) ds = Inr ts \<Longrightarrow> ts = map f ds"
  by (induction ds arbitrary: ts) (auto simp: as_utc_def split: if_splits elim!: bind_result_Inr)

lemma outcome_step_Inr:
  assumes "outcome_step org_id t prov observed g r = Inr r'"
  shows "ar_sessions r' = ar_sessions r \<and> ar_as_of r' = ar_as_of r
    \<and> ar_outcomes r' = ar_outcomes r @ (if has_accept g then [session_outcome org_id t prov observed g] else [])
    \<and> ar_skipped r' = ctr_incr (if \<not> has_accept g then no_accepted_decision
        else if fst g \<in> observed then reached_a_commit else session_commit_unobserved) (ar_skipped r)"
proof -
  obtain s decs where g: "g = (s, decs)" by fastforce
  show ?thesis using assms
    by (auto simp: outcome_step_def g has_accept_def session_outcome_def filter_empty_conv Let_def
        split: if_splits elim!: bind_result_Inr dest!: as_utc_all)
qed

lemma outcome_fold:
  assumes "fold_result (outcome_step org_id t prov observed) G r = Inr r'"
  shows "ar_sessions r' = ar_sessions r \<and> ar_as_of r' = ar_as_of r
    \<and> ar_outcomes r' = ar_outcomes r @ map (session_outcome org_id t prov observed) (filter has_accept G)
    \<and> ar_skipped r' no_accepted_decision = ar_skipped r no_accepted_decision + length (filter (\<lambda>g. \<not> has_accept g) G)
    \<and> ar_skipped r' reached_a_commit = ar_skipped r reached_a_commit + length (filter (\<lambda>g. has_accept g \<and> fst g \<in> observed) G)
    \<and> ar_skipped r' session_commit_unobserved
        = ar_skipped r session_commit_unobserved + length (filter (\<lambda>g. has_accept g \<and> fst g \<notin> observed) G)
    \<and> (\<forall>reason. ar_skipped r' (BindingSkip reason) = ar_skipped r (BindingSkip reason))"
  using assms
proof (induction G arbitrary: r)
  case (Cons g G)
  then obtain r1 where r1: "outcome_step org_id t prov observed g r = Inr r1"
    "fold_result (outcome_step org_id t prov observed) G r1 = Inr r'" by (auto elim!: bind_result_Inr)
  show ?case using outcome_step_Inr[OF r1(1)] Cons.IH[OF r1(2)] by auto
qed simp

lemma captured_by_Inr:
  "captured_by org captured org_id t items = Inr kept \<Longrightarrow> kept = filter (\<lambda>x. org x = org_id \<and> captured x \<le> t) items"
proof -
  assume "captured_by org captured org_id t items = Inr kept"
  then obtain ok where ok: "v_map (\<lambda>x. bind_result (as_utc (captured x)) (\<lambda>_. Inr x)) (filter (\<lambda>x. org x = org_id) items) = Inr ok"
    "kept = filter (\<lambda>x. captured x \<le> t) ok" by (auto simp: captured_by_def elim!: bind_result_Inr)
  have "v_map (\<lambda>x. bind_result (as_utc (captured x)) (\<lambda>_. Inr x)) xs = Inr ys \<Longrightarrow> ys = xs" for xs ys
    by (induction xs arbitrary: ys) (auto elim!: bind_result_Inr)
  from this[OF ok(1)] show ?thesis using ok(2) by (simp add: conj_commute)
qed

text \<open>The Sessions a commit is observed for.\<close>

definition observed_by :: "repository_context \<Rightarrow> string \<Rightarrow> instant \<Rightarrow> session_commit_observation \<Rightarrow> bool" where
  "observed_by ctx org_id t item \<longleftrightarrow>
     eligible_observation org_id t item \<and> rs_key (resolve_fact ctx (ObservationFact item) fact_spelling REPO) \<noteq> None"

lemma bound_sessions:
  assumes "bind_session_commit_keys_result observations org_id (Some t) ctx = Inr b"
  shows "(\<lambda>((commit, session_id), items). session_id) ` set (br_bindings b) = sc_session_id ` set (filter (observed_by ctx org_id t) observations)"
proof -
  let ?xs = "filter (eligible_observation org_id t) observations"
  obtain boundary P where P': "Some t = Some boundary"
    "P = map (\<lambda>item. (item, projr (bind_outcome ctx item))) (filter (eligible_observation org_id boundary) observations)"
    "\<forall>item\<in>set (filter (eligible_observation org_id boundary) observations). \<exists>x. bind_outcome ctx item = Inr x"
    "br_bindings b = sort_key (\<lambda>(edge, items). edge_sort_key edge)
       (map (\<lambda>(k, ps). (k, sort_key observation_order (map fst ps)))
         (group_by (\<lambda>p. projr (snd p)) (filter (\<lambda>p. \<not> isl (snd p)) P)))"
    by (rule bind_result_cases[OF assms])
  then have P: "P = map (\<lambda>item. (item, projr (bind_outcome ctx item))) ?xs"
    "\<forall>item\<in>set ?xs. \<exists>x. bind_outcome ctx item = Inr x" by simp_all
  have outcome: "(\<not> isl (projr (bind_outcome ctx item)) \<longleftrightarrow> rs_key (resolve_fact ctx (ObservationFact item) fact_spelling REPO) \<noteq> None)
      \<and> (\<not> isl (projr (bind_outcome ctx item)) \<longrightarrow> snd (projr (projr (bind_outcome ctx item))) = sc_session_id item)"
    if item: "item \<in> set ?xs" for item
  proof -
    obtain x where x: "bind_outcome ctx item = Inr x" using P(2) item by blast
    then show ?thesis
      by (cases "rs_key (resolve_fact ctx (ObservationFact item) fact_spelling REPO)")
        (auto simp: bind_outcome_def Let_def elim!: bind_result_Inr)
  qed
  have "(\<lambda>((commit, session_id), items). session_id) ` set (br_bindings b) = snd ` fst ` set (br_bindings b)"
    by (simp add: image_image case_prod_beta)
  also have "fst ` set (br_bindings b) = fst ` set (group_by (\<lambda>p. projr (snd p)) (filter (\<lambda>p. \<not> isl (snd p)) P))"
    by (simp add: P'(4) image_image case_prod_beta)
  also have "\<dots> = (\<lambda>p. projr (snd p)) ` set (filter (\<lambda>p. \<not> isl (snd p)) P)" by (rule keys_group_by)
  also have "snd ` \<dots> = (\<lambda>item. snd (projr (projr (bind_outcome ctx item)))) ` {item \<in> set ?xs. \<not> isl (projr (bind_outcome ctx item))}"
    by (auto simp: P(1) image_iff)
  also have "\<dots> = sc_session_id ` {item \<in> set ?xs. \<not> isl (projr (bind_outcome ctx item))}"
    using outcome by (intro image_cong) simp_all
  also have "{item \<in> set ?xs. \<not> isl (projr (bind_outcome ctx item))} = set (filter (observed_by ctx org_id t) observations)"
    using outcome by (auto simp: observed_by_def)
  finally show ?thesis .
qed

lemma session_decisions_eq:
  "session_decisions ds = map (\<lambda>s. (s, filter (\<lambda>d. dd_session_id d = s) ds)) (sorted_list_of_set (dd_session_id ` set ds))"
  unfolding session_decisions_def by (rule sort_groups_eq)

lemma accepted_sessions:
  "map fst (filter has_accept (session_decisions ds)) = sorted_list_of_set (dd_session_id ` set (filter dd_accepted ds))"
proof (rule sorted_distinct_set_unique)
  have "sorted (map fst (session_decisions ds))" "distinct (map fst (session_decisions ds))"
    by (simp_all add: session_decisions_eq comp_def)
  then show "sorted (map fst (filter has_accept (session_decisions ds)))" "distinct (map fst (filter has_accept (session_decisions ds)))"
    by (simp_all add: sorted_filter distinct_map_filter)
  show "set (map fst (filter has_accept (session_decisions ds))) = set (sorted_list_of_set (dd_session_id ` set (filter dd_accepted ds)))"
    by (force simp: session_decisions_eq has_accept_def image_iff)
qed simp_all

text \<open>What the sessions come to, as one list.\<close>

lemma classified:
  assumes "classify_sessions org_id t prov ctx observations n decisions = Inr r"
  defines "ds \<equiv> filter (\<lambda>d. dd_org_id d = org_id \<and> dd_captured_at d \<le> t) decisions"
  defines "observed \<equiv> sc_session_id ` set (filter (observed_by ctx org_id t) observations)"
  shows "ar_sessions r = [] \<and> ar_as_of r = Some t
    \<and> ar_outcomes r = map (\<lambda>s. session_outcome org_id t prov observed (s, filter (\<lambda>d. dd_session_id d = s) ds))
        (sorted_list_of_set (dd_session_id ` set (filter dd_accepted ds)))
    \<and> ar_skipped r no_accepted_decision = card (dd_session_id ` set ds) - card (dd_session_id ` set (filter dd_accepted ds))
    \<and> ar_skipped r reached_a_commit = card (dd_session_id ` set (filter dd_accepted ds) \<inter> observed)
    \<and> ar_skipped r session_commit_unobserved = card (dd_session_id ` set (filter dd_accepted ds) - observed)"
proof -
  obtain b kept where b: "bind_session_commit_keys_result observations org_id (Some t) ctx = Inr b"
    "captured_by dd_org_id dd_captured_at org_id t decisions = Inr kept"
    "fold_result (outcome_step org_id t prov ((\<lambda>((commit, session_id), items). session_id) ` set (br_bindings b))) (session_decisions kept)
       \<lparr>ar_sessions = [], ar_skipped = ctr_update (ctr_add (BindingSkip repository_identity_unresolved) n ctr_empty)
             (binding_skips (br_skipped b)), ar_as_of = Some t, ar_provenance = prov, ar_outcomes = []\<rparr> = Inr r"
    using assms(1) by (auto simp: classify_sessions_def Let_def elim!: bind_result_Inr)
  have kept: "kept = ds" using captured_by_Inr[OF b(2)] by (simp add: ds_def)
  let ?G = "session_decisions ds"
  note f = outcome_fold[OF b(3)[unfolded bound_sessions[OF b(1)] kept], folded observed_def]
  have d: "distinct (map fst ?G)" by (simp add: session_decisions_eq comp_def)
  have members: "filter has_accept ?G = map (\<lambda>s. (s, filter (\<lambda>d. dd_session_id d = s) ds)) (map fst (filter has_accept ?G))"
    by (auto simp: session_decisions_eq intro!: map_idI[symmetric])
  have count: "length (filter (\<lambda>g. has_accept g \<and> P (fst g)) ?G) = card {s \<in> dd_session_id ` set (filter dd_accepted ds). P s}" for P
  proof -
    have "filter (\<lambda>g. has_accept g \<and> P (fst g)) ?G = filter (\<lambda>g. P (fst g)) (filter has_accept ?G)" by (simp add: conj_commute)
    then have "length (filter (\<lambda>g. has_accept g \<and> P (fst g)) ?G) = length (filter P (map fst (filter has_accept ?G)))"
      by (simp add: filter_map comp_def)
    also have "\<dots> = card (set (filter P (map fst (filter has_accept ?G))))"
      using d by (metis distinct_card distinct_filter distinct_map_filter)
    finally show ?thesis unfolding accepted_sessions by (simp add: Collect_conj_eq Int_commute)
  qed
  have all: "length ?G = card (dd_session_id ` set ds)" by (simp add: session_decisions_eq)
  have "length (filter (\<lambda>g. \<not> has_accept g) ?G) = length ?G - length (filter has_accept ?G)"
    using sum_length_filter_compl[of has_accept ?G] by simp
  then have none: "length (filter (\<lambda>g. \<not> has_accept g) ?G)
      = card (dd_session_id ` set ds) - card (dd_session_id ` set (filter dd_accepted ds))"
    using count[of "\<lambda>s. True"] all by simp
  have "map f (filter has_accept ?G) = map (\<lambda>s. f (s, filter (\<lambda>d. dd_session_id d = s) ds)) (map fst (filter has_accept ?G))"
    for f :: "_ \<Rightarrow> accepted_session_outcome" by (subst members) (simp add: comp_def)
  note outcomes = this[unfolded accepted_sessions]
  show ?thesis
    using f none outcomes count[of "\<lambda>s. s \<in> observed"] count[of "\<lambda>s. s \<notin> observed"]
    by (simp add: ctr_add_def binding_skips_def Int_def set_diff_eq)
qed

lemma classified_statuses:
  assumes "classify_sessions org_id t prov ctx observations n decisions = Inr r"
  defines "sessions \<equiv> dd_session_id ` set (filter (\<lambda>d. dd_org_id d = org_id \<and> dd_captured_at d \<le> t) decisions)"
    and "accepting \<equiv> dd_session_id ` set (filter (\<lambda>d. dd_org_id d = org_id \<and> dd_captured_at d \<le> t \<and> dd_accepted d) decisions)"
  shows "ar_as_of r = Some t \<and> ar_sessions r = [] \<and> map ao_session_id (ar_outcomes r) = sorted_list_of_set accepting
    \<and> (\<forall>x\<in>set (ar_outcomes r). ao_status x = (if \<exists>item\<in>set observations. observed_by ctx org_id t item \<and> sc_session_id item = ao_session_id x
          then committed else attribution_unavailable))
    \<and> ar_skipped r reached_a_commit = length (filter (\<lambda>x. ao_status x = committed) (ar_outcomes r))
    \<and> ar_skipped r no_accepted_decision + ar_skipped r reached_a_commit + ar_skipped r session_commit_unobserved = card sessions"
proof -
  let ?observed = "sc_session_id ` set (filter (observed_by ctx org_id t) observations)"
  have accepting: "accepting = dd_session_id ` set (filter dd_accepted (filter (\<lambda>d. dd_org_id d = org_id \<and> dd_captured_at d \<le> t) decisions))"
    unfolding accepting_def by (rule image_cong) auto
  note c = classified[OF assms(1), folded accepting sessions_def]
  let ?f = "\<lambda>s. session_outcome org_id t prov ?observed (s, filter (\<lambda>d. dd_session_id d = s)
      (filter (\<lambda>d. dd_org_id d = org_id \<and> dd_captured_at d \<le> t) decisions))"
  have fin: "finite accepting" "finite sessions" "accepting \<subseteq> sessions" by (auto simp: accepting_def sessions_def)
  have outcomes: "ar_outcomes r = map ?f (sorted_list_of_set accepting)" using c by blast
  have f: "ao_session_id (?f s) = s" "ao_as_of (?f s) = t"
    "ao_status (?f s) = (if s \<in> ?observed then committed else attribution_unavailable)" for s
    by (simp_all add: session_outcome_def)
  have ids: "map ao_session_id (ar_outcomes r) = sorted_list_of_set accepting" by (simp only: outcomes map_map comp_def f) simp
  have status: "\<forall>x\<in>set (ar_outcomes r). ao_status x = (if \<exists>item\<in>set observations. observed_by ctx org_id t item \<and> sc_session_id item = ao_session_id x
          then committed else attribution_unavailable)"
  proof
    fix x assume "x \<in> set (ar_outcomes r)"
    then obtain s where "x = ?f s" unfolding outcomes by auto
    then show "ao_status x = (if \<exists>item\<in>set observations. observed_by ctx org_id t item \<and> sc_session_id item = ao_session_id x
          then committed else attribution_unavailable)" unfolding \<open>x = ?f s\<close> f by (auto simp: image_iff)
  qed
  have "filter (\<lambda>x. ao_status x = committed) (ar_outcomes r) = map ?f (filter (\<lambda>s. s \<in> ?observed) (sorted_list_of_set accepting))"
    unfolding outcomes filter_map by (rule arg_cong[of _ _ "map ?f"], rule filter_cong[OF refl], unfold comp_def f, simp)
  then have "length (filter (\<lambda>x. ao_status x = committed) (ar_outcomes r)) = length (filter (\<lambda>s. s \<in> ?observed) (sorted_list_of_set accepting))"
    by simp
  also have "\<dots> = card (set (filter (\<lambda>s. s \<in> ?observed) (sorted_list_of_set accepting)))" by (rule distinct_card[symmetric]) simp
  also have "\<dots> = card (accepting \<inter> ?observed)" using fin by (auto intro!: arg_cong[of _ _ card])
  finally have reached: "ar_skipped r reached_a_commit = length (filter (\<lambda>x. ao_status x = committed) (ar_outcomes r))"
    using c by simp
  have "card (accepting \<inter> ?observed) + card (accepting - ?observed) = card accepting"
    using fin(1) by (metis card_Int_Diff)
  moreover have "card accepting \<le> card sessions" using fin card_mono by blast
  ultimately have total: "ar_skipped r no_accepted_decision + ar_skipped r reached_a_commit + ar_skipped r session_commit_unobserved = card sessions"
    using c by simp
  show ?thesis using c ids status reached total by blast
qed

text \<open>The boundary a read without handed-in observations is made at.\<close>

definition observation_boundary :: "repository_context option \<Rightarrow> time_bound \<Rightarrow> instant" where
  "observation_boundary repository_context as_of =
     (case repository_context of Some ctx \<Rightarrow> rc_as_of ctx | None \<Rightarrow> (case as_of of Bound t \<Rightarrow> t | _ \<Rightarrow> UTC_MAX))"

lemma abandonment_cases:
  assumes "derive_abandonment snapshot org_id policy decisions pushes completions as_of digest observations repository_context = Inr r"
    and "the_default (sn_decisions snapshot) decisions \<noteq> []"
  obtains t prov ctx n where "classify_sessions org_id t prov ctx
      (filter (\<lambda>item. observations = None \<or> repository_context \<noteq> None \<or> rf_repository_id item = None)
        (the_default (sn_observations snapshot (observation_boundary repository_context as_of)) observations))
      n (the_default (sn_decisions snapshot) decisions) = Inr r"
proof -
  show thesis
    using assms that
    by (auto simp: derive_abandonment_def derive_abandonment_in_def observation_boundary_def the_default_def Let_def
        split: if_splits option.splits elim!: bind_result_Inr)
qed

section \<open>Properties\<close>


definition accepted_edit :: developer_decision where
  "accepted_edit = \<lparr>dd_id = ''d1'', dd_org_id = ''acme'', dd_session_id = ''s1'', dd_user_id = None, dd_agent_harness = CLAUDE_CODE,
     dd_file_path = ''f'', dd_accepted = True, dd_explicit = True, dd_interaction_mode = AGENT, dd_commit_sha = None,
     dd_call_id = None, dd_edit_retention_score = None, dd_observation_delay_ms = None, dd_occurred_at = 4, dd_captured_at = 5,
     dd_raw = []\<rparr>"

lemma sample_abandonment:
  "\<exists>r. derive_abandonment sample_snapshot ''acme'' None (Some [accepted_edit]) (Some []) (Some []) NoBound None
      (Some [sample_session_commit]) (Some sample_context) = Inr r"
  by (simp add: derive_abandonment_def derive_abandonment_in_def abandonment_context_def sample_scope the_default_def Let_def
      default_abandonment_policy_def new_provenance_def sample_snapshot_def py_strip_def py_isspace_def cp_def
      classify_sessions_def sample_bound captured_by_def accepted_edit_def as_utc_def UTC_MIN_def UTC_MAX_def session_decisions_def
      group_by_def dict_append_def dict_get_def outcome_step_def)


end
