(* ===== verification/Attributed_Completions.thy ===== *)
theory Attributed_Completions
  imports Abandonment Survival Split Fact_Projections
begin

text \<open>
  \<open>packages/export/sediment_export/attributed_completions.py\<close>: the rows every dataset is projected from. A row is
  one attribution, or one inference call of an abandoned Session, with the decisions joined to its call and the
  CI outcomes of its commit.

  This theory has the row with its constructor's checks, the policy, the abandonment summary, the order of rows, the
  observations of a row's edge and the equality of payloads.
\<close>

section \<open>The row\<close>

record attributed_completion =
  co_org_id :: string
  co_session_id :: string
  co_inference_call_id :: string
  co_repo :: "string option"
  co_commit_sha :: "string option"
  co_file_path :: "ustr option"
  co_similarity_score :: "rat option"
  co_attribution_source :: "attribution_source option"
  co_decisions :: "developer_decision list"
  co_ci_outcomes :: "ci_outcome list"
  co_provenance :: provenance
  co_split :: split_label
  co_abandonment :: "session_abandonment option"
  co_observations :: "session_commit_observation list"
  co_repository_identity :: "repository_identity option"
  co_source_push_id :: "string option"

definition complete_attribution :: "attributed_completion \<Rightarrow> bool" where
  "complete_attribution row \<longleftrightarrow> co_repo row \<noteq> None \<and> co_commit_sha row \<noteq> None \<and> co_file_path row \<noteq> None
     \<and> co_similarity_score row \<noteq> None \<and> co_attribution_source row \<noteq> None"

definition no_attribution :: "attributed_completion \<Rightarrow> bool" where
  "no_attribution row \<longleftrightarrow> co_repo row = None \<and> co_commit_sha row = None \<and> co_file_path row = None
     \<and> co_similarity_score row = None \<and> co_attribution_source row = None"

definition new_attributed_completion :: "attributed_completion \<Rightarrow> attributed_completion result" where
  "new_attributed_completion row =
     (case co_abandonment row of
        None \<Rightarrow>
          if complete_attribution row then Inr row
          else Inl (ValueError ''AttributedCompletion must carry exactly one evidence variant'')
      | Some evidence \<Rightarrow>
          if \<not> (no_attribution row \<and> co_repository_identity row = None \<and> co_source_push_id row = None)
          then Inl (ValueError ''AttributedCompletion must carry exactly one evidence variant'')
          else if co_org_id row \<noteq> sa_org_id evidence \<or> co_session_id row \<noteq> sa_session_id evidence
          then Inl (ValueError ''AttributedCompletion and abandonment evidence must share org_id and session_id'')
          else if co_ci_outcomes row \<noteq> [] then Inl (ValueError ''abandonment evidence cannot carry CI outcomes'')
          else if sa_explicit_accepted_decisions evidence < 1
               \<or> \<not> list_ex (\<lambda>d. dd_session_id d = co_session_id row \<and> dd_accepted d \<and> dd_explicit d) (co_decisions row)
          then Inl (ValueError ''abandonment evidence requires a joined explicit accepted decision'')
          else Inr row)"

section \<open>Policy, result and summary\<close>

record attributed_completion_policy =
  cp_attribution :: attribution_policy
  cp_abandonment :: abandonment_policy
  cp_version :: string
  cp_eval_fraction :: rat

definition new_attributed_completion_policy ::
  "attribution_policy \<Rightarrow> abandonment_policy \<Rightarrow> string \<Rightarrow> rat \<Rightarrow> attributed_completion_policy result" where
  "new_attributed_completion_policy attribution abandonment version fraction =
     (if ab_attribution abandonment \<noteq> attribution
      then Inl (ValueError ''AttributedCompletionPolicy.attribution must match its abandonment policy'')
      else if \<not> (0 \<le> fraction \<and> fraction \<le> 1 / 2)
      then Inl (ValueError ''AttributedCompletionPolicy.eval_fraction must be between 0.0 and 0.5'')
      else Inr \<lparr>cp_attribution = attribution, cp_abandonment = abandonment, cp_version = version, cp_eval_fraction = fraction\<rparr>)"

text \<open>\<open>0.1\<close> is a binary64 number.\<close>

definition default_completion_policy :: attributed_completion_policy where
  "default_completion_policy =
     \<lparr>cp_attribution = default_attribution_policy, cp_abandonment = default_abandonment_policy, cp_version = ''5'',
      cp_eval_fraction = fl64 (1 / 10)\<rparr>"

datatype assembly_skip = RepositoryAS "identity_skip_reason option" | AttributionAS attribution_skip
  | DecisionAS decision_skip_reason | ResolutionAS ci_skip_reason

datatype projection_skip = implicit_only_session | explicit_accept_unjoined

record completion_result =
  cs_rows :: "attributed_completion list"
  cs_skipped :: "assembly_skip counter"
  cs_abandonment :: abandonment_result
  cs_abandonment_skipped :: "projection_skip counter"
  cs_repository_context :: repository_context

record abandonment_summary =
  as_abandoned_sessions :: nat
  as_grade_eligible_sessions :: nat
  as_implicit_only_sessions :: nat
  as_negative_completions :: nat
  as_explicit_accepts_unjoined :: nat
  as_derivation_skipped :: "abandonment_skip counter"
  as_provenance :: provenance

definition build_abandonment_summary :: "completion_result \<Rightarrow> abandonment_summary" where
  "build_abandonment_summary r =
     (let sessions = ar_sessions (cs_abandonment r);
          eligible = length (filter (\<lambda>s. 0 < sa_explicit_accepted_decisions s) sessions)
      in \<lparr>as_abandoned_sessions = length sessions, as_grade_eligible_sessions = eligible,
          as_implicit_only_sessions = length sessions - eligible,
          as_negative_completions = length (filter (\<lambda>row. co_abandonment row \<noteq> None) (cs_rows r)),
          as_explicit_accepts_unjoined = cs_abandonment_skipped r explicit_accept_unjoined,
          as_derivation_skipped = abandonment_result.ar_skipped (cs_abandonment r),
          as_provenance = ar_provenance (cs_abandonment r)\<rparr>)"

text \<open>Attribution rows first, by identity, name, commit, file and call; then abandonment rows.\<close>

definition identity_order :: "repository_identity option \<Rightarrow> string \<times> string \<times> string" where
  "identity_order i = (case i of None \<Rightarrow> ([], [], [])
     | Some i \<Rightarrow> (forge_provider_value (ri_provider i), ri_host i, ri_repository_id i))"

definition evidence_order ::
  "attributed_completion \<Rightarrow> nat \<times> (string \<times> string \<times> string) \<times> string \<times> string \<times> ustr \<times> string" where
  "evidence_order row =
     (case co_abandonment row of
        None \<Rightarrow> (0, identity_order (co_repository_identity row), the_default [] (co_repo row), the_default [] (co_commit_sha row),
                 the_default [] (co_file_path row), co_inference_call_id row)
      | Some _ \<Rightarrow> (1, (co_session_id row, co_inference_call_id row, []), [], [], [], []))"

section \<open>Session-to-commit observations of a row\<close>

text \<open>The ids of the observations on the row's own edge. Without a context only an identical identity matches, or
  the same name where there is none.\<close>

definition on_edge :: "attributed_completion \<Rightarrow> session_commit_observation \<Rightarrow> bool" where
  "on_edge row item \<longleftrightarrow> sc_org_id item = co_org_id row \<and> Some (sc_commit_sha item) = co_commit_sha row
     \<and> sc_session_id item = co_session_id row"

definition observation_matches ::
  "repository_context option \<Rightarrow> attributed_completion \<Rightarrow> session_commit_observation \<Rightarrow> bool result" where
  "observation_matches ctx row item =
     (case ctx of
        Some ctx \<Rightarrow>
          (case context_commit_key ctx (co_org_id row) (the_default [] (co_repo row)) (the_default [] (co_commit_sha row))
                  (co_repository_identity row) of
             None \<Rightarrow> Inr False
           | Some commit \<Rightarrow>
               Inr (rs_key (resolve_fact ctx (ObservationFact item) fact_spelling REPO) = Some (ck_repository commit)))
      | None \<Rightarrow>
          bind_result (repository_identity_of (rf_repository_provider item) (rf_repository_host item) (rf_repository_id item))
            (\<lambda>identity. Inr (identity = co_repository_identity row \<and> (identity \<noteq> None \<or> Some (sc_repo item) = co_repo row))))"

definition session_commit_observation_ids ::
  "attributed_completion \<Rightarrow> repository_context option \<Rightarrow> string list result" where
  "session_commit_observation_ids row ctx =
     (if co_abandonment row \<noteq> None then Inr []
      else bind_result (v_map (\<lambda>item. bind_result (observation_matches ctx row item) (\<lambda>matches. Inr (item, matches)))
          (filter (on_edge row) (co_observations row))) (\<lambda>matched.
        Inr (sorted_list_of_set (set (map (\<lambda>(item, m). sc_id item) (filter snd matched))))))"

section \<open>Equal payloads\<close>

text \<open>Two dictionaries are equal when they hold the same values, whatever the order of their keys; so are a row's
  payloads, the raw ones included.\<close>

fun canonical_json :: "json \<Rightarrow> json" where
  "canonical_json (JObj kvs) = JObj (sort_key fst (map (\<lambda>(k, v). (k, canonical_json v)) kvs))"
| "canonical_json (JList xs) = JList (map canonical_json xs)"
| "canonical_json j = j"

definition canonical_raw :: "(string \<times> json) list \<Rightarrow> (string \<times> json) list" where
  "canonical_raw kvs = sort_key fst (map (\<lambda>(k, v). (k, canonical_json v)) kvs)"

definition canonical_row :: "attributed_completion \<Rightarrow> attributed_completion" where
  "canonical_row row = row\<lparr>
     co_decisions := map (\<lambda>d. d\<lparr>dd_raw := canonical_raw (dd_raw d)\<rparr>) (co_decisions row),
     co_ci_outcomes := map (\<lambda>c. c\<lparr>ci_raw := canonical_raw (ci_raw c)\<rparr>) (co_ci_outcomes row)\<rparr>"

definition same_evidence_payload :: "attributed_completion \<Rightarrow> attributed_completion \<Rightarrow> bool" where
  "same_evidence_payload left right \<longleftrightarrow> canonical_row left = canonical_row right"

end
