(* ===== verification/Py_Float.thy ===== *)
theory Py_Float
  imports Similarity Fact_Models
begin

text \<open>
  The arithmetic of Python's \<open>float\<close> over its whole range: a sum, difference or product is the exact one rounded
  to binary64, infinite from \<open>2 ^ 1024\<close> on, and not a number where the operands leave it undefined. The sign of a
  zero is not represented; the code divides by no float.
\<close>

section \<open>Operations\<close>

definition fl_round :: "rat \<Rightarrow> rat" where
  "fl_round x = (if x < 0 then - fl64 (- x) else fl64 x)"

definition pf_of_rat :: "rat \<Rightarrow> pyfloat" where
  "pf_of_rat x = (let y = fl_round x in if 2 ^ 1024 \<le> y then PosInf else if y \<le> - (2 ^ 1024) then NegInf else Finite y)"

fun pf_add :: "pyfloat \<Rightarrow> pyfloat \<Rightarrow> pyfloat" where
  "pf_add (Finite a) (Finite b) = pf_of_rat (a + b)"
| "pf_add NaN y = NaN"
| "pf_add x NaN = NaN"
| "pf_add PosInf NegInf = NaN"
| "pf_add NegInf PosInf = NaN"
| "pf_add PosInf y = PosInf"
| "pf_add x PosInf = PosInf"
| "pf_add NegInf y = NegInf"
| "pf_add x NegInf = NegInf"

fun pf_neg :: "pyfloat \<Rightarrow> pyfloat" where
  "pf_neg (Finite a) = Finite (- a)"
| "pf_neg PosInf = NegInf"
| "pf_neg NegInf = PosInf"
| "pf_neg NaN = NaN"

definition pf_sub :: "pyfloat \<Rightarrow> pyfloat \<Rightarrow> pyfloat" where
  "pf_sub x y = pf_add x (pf_neg y)"

fun pf_sign :: "pyfloat \<Rightarrow> int" where
  "pf_sign (Finite a) = (if 0 < a then 1 else if a < 0 then -1 else 0)"
| "pf_sign PosInf = 1"
| "pf_sign NegInf = -1"
| "pf_sign NaN = 0"

text \<open>An infinity times zero is not a number.\<close>

fun pf_mul :: "pyfloat \<Rightarrow> pyfloat \<Rightarrow> pyfloat" where
  "pf_mul (Finite a) (Finite b) = pf_of_rat (a * b)"
| "pf_mul x y = (let s = pf_sign x * pf_sign y in if s = 0 then NaN else if 0 < s then PosInf else NegInf)"

text \<open>Every comparison with a NaN is false.\<close>

fun pf_less :: "pyfloat \<Rightarrow> pyfloat \<Rightarrow> bool" where
  "pf_less (Finite a) (Finite b) = (a < b)"
| "pf_less NaN y = False"
| "pf_less x NaN = False"
| "pf_less PosInf y = False"
| "pf_less x NegInf = False"
| "pf_less x y = True"

fun pf_eq :: "pyfloat \<Rightarrow> pyfloat \<Rightarrow> bool" where
  "pf_eq (Finite a) (Finite b) = (a = b)"
| "pf_eq PosInf PosInf = True"
| "pf_eq NegInf NegInf = True"
| "pf_eq x y = False"

definition pf_le :: "pyfloat \<Rightarrow> pyfloat \<Rightarrow> bool" where
  "pf_le x y \<longleftrightarrow> pf_less x y \<or> pf_eq x y"

text \<open>\<open>min(a, b)\<close> and \<open>max(a, b)\<close> keep the first unless the second compares beyond it.\<close>

definition pf_min :: "pyfloat \<Rightarrow> pyfloat \<Rightarrow> pyfloat" where
  "pf_min a b = (if pf_less b a then b else a)"

definition pf_max :: "pyfloat \<Rightarrow> pyfloat \<Rightarrow> pyfloat" where
  "pf_max a b = (if pf_less a b then b else a)"

section \<open>Laws\<close>

lemma fl_round_nonneg: "0 \<le> x \<Longrightarrow> fl_round x = fl64 x"
  by (simp add: fl_round_def)

lemma fl_round_0 [simp]: "fl_round 0 = 0" by (simp add: fl_round_def)

lemma fl_round_mono: "x \<le> y \<Longrightarrow> fl_round x \<le> fl_round y"
proof -
  assume xy: "x \<le> y"
  consider "0 \<le> x" | "x < 0" "0 \<le> y" | "y < 0" by linarith
  then show ?thesis
  proof cases
    case 1
    then show ?thesis using xy by (simp add: fl_round_def fl64_mono)
  next
    case 2
    have "- fl64 (- x) \<le> 0" using fl64_nonneg by simp
    also have "0 \<le> fl64 y" by simp
    finally show ?thesis using 2 by (simp add: fl_round_def)
  next
    case 3
    then show ?thesis using xy fl64_mono[of "- y" "- x"] by (simp add: fl_round_def)
  qed
qed

text \<open>A value already in binary64 rounds to itself.\<close>

lemma fl_round_between:
  assumes "fl_round a = a" "fl_round b = b" "a \<le> x" "x \<le> b"
  shows "a \<le> fl_round x" "fl_round x \<le> b"
  using fl_round_mono[of a x] fl_round_mono[of x b] assms by auto

lemma fl64_power2 [simp]: "fl64 (2 ^ k) = 2 ^ k"
proof -
  let ?x = "2 ^ k :: rat"
  have pos: "0 < ?x" by simp
  have p: "?x = 2 powi int k" by simp
  have lo: "(2::rat) powi (ilog2 ?x) < 2 powi (int k + 1)" "(2::rat) powi (int k) < 2 powi (ilog2 ?x + 1)"
    using ilog2_bounds[OF pos] unfolding p by (simp_all add: power_int_add)
  have "ilog2 ?x = int k"
  proof (rule ccontr)
    assume "ilog2 ?x \<noteq> int k"
    then consider "ilog2 ?x \<ge> int k + 1" | "ilog2 ?x + 1 \<le> int k" by linarith
    then show False
    proof cases
      case 1
      then have "(2::rat) powi (int k + 1) \<le> 2 powi (ilog2 ?x)" by (intro power_int_increasing) auto
      with lo show ?thesis by simp
    next
      case 2
      then have "(2::rat) powi (ilog2 ?x + 1) \<le> 2 powi (int k)" by (intro power_int_increasing) auto
      with lo show ?thesis by simp
    qed
  qed
  then have q: "fl_quantum ?x = 2 powi (int k - 52)" by (simp add: fl_quantum_def)
  have "(2::rat) powi int k = 2 powi 52 * 2 powi (int k - 52)" by (subst power_int_add [symmetric]) auto
  also have "(2::rat) powi 52 = of_int (2 ^ 52)" by simp
  finally have g: "?x = of_int (2 ^ 52) * fl_quantum ?x" unfolding q p [symmetric] .
  show ?thesis
    using fl64_le_grid[OF pos, of "2 ^ 52"] fl64_ge_grid[OF pos, of "2 ^ 52"] g by (metis order_antisym order_refl)
qed

text \<open>Two finite values in order, below a power of two: operations that stay below \<open>2 ^ 1024\<close> keep the order.\<close>

definition pf_within :: "nat \<Rightarrow> pyfloat \<Rightarrow> pyfloat \<Rightarrow> bool" where
  "pf_within k a b \<longleftrightarrow> (\<exists>x y. a = Finite x \<and> b = Finite y \<and> 0 \<le> x \<and> x \<le> y \<and> y \<le> 2 ^ k)"

lemma pf_withinE:
  assumes "pf_within k a b"
  obtains x y where "a = Finite x" "b = Finite y" "0 \<le> x" "x \<le> y" "y \<le> 2 ^ k"
  using assms by (auto simp: pf_within_def)

lemma pf_within_Finite [simp]: "pf_within k (Finite x) (Finite y) \<longleftrightarrow> 0 \<le> x \<and> x \<le> y \<and> y \<le> 2 ^ k"
  by (simp add: pf_within_def)

lemma pf_within_refl: "pf_within k a b \<Longrightarrow> pf_within k a a" "pf_within k a b \<Longrightarrow> pf_within k b b"
  by (auto elim!: pf_withinE)

lemma pf_within_trans: "pf_within k a b \<Longrightarrow> pf_within k b c \<Longrightarrow> pf_within k a c"
  by (auto elim!: pf_withinE)

lemma pf_within_less: "pf_within j a b \<Longrightarrow> j \<le> k \<Longrightarrow> pf_within k a b"
proof -
  assume "pf_within j a b" "j \<le> k"
  moreover have "(2::rat) ^ j \<le> 2 ^ k" using \<open>j \<le> k\<close> by (intro power_increasing) auto
  ultimately show "pf_within k a b" by (auto simp del: power_increasing_iff elim!: pf_withinE intro: order_trans)
qed

lemma pf_of_rat_within:
  assumes "0 \<le> x" "x \<le> y" "y \<le> 2 ^ k" "k < 1024"
  shows "pf_within k (pf_of_rat x) (pf_of_rat y)"
proof -
  have k: "(2::rat) ^ k < 2 ^ 1024" using assms(4) by (intro power_strict_increasing) auto
  have y: "fl64 y \<le> 2 ^ k" using fl64_mono[OF assms(3)] by (simp only: fl64_power2)
  have xy: "fl64 x \<le> fl64 y" by (rule fl64_mono[OF assms(2)])
  have f: "pf_of_rat z = Finite (fl64 z)" if "0 \<le> z" "fl64 z \<le> 2 ^ k" for z
  proof -
    have "\<not> 2 ^ 1024 \<le> fl64 z" using that k by linarith
    moreover have "- (2 ^ 1024) < (0::rat)" by simp
    then have "\<not> fl64 z \<le> - (2 ^ 1024)" 
      unfolding not_le by (rule less_le_trans) simp
    ultimately show ?thesis using that by (simp add: pf_of_rat_def fl_round_nonneg Let_def)
  qed
  show ?thesis using assms xy y by (simp add: f)
qed

lemma pf_mul_within:
  assumes "pf_within j a a'" "pf_within k b b'" "j + k < 1024"
  shows "pf_within (j + k) (pf_mul a b) (pf_mul a' b')"
  using assms by (auto simp: power_add elim!: pf_withinE intro!: pf_of_rat_within mult_mono)

lemma pf_add_within:
  assumes "pf_within k a a'" "pf_within k b b'" "Suc k < 1024"
  shows "pf_within (Suc k) (pf_add a b) (pf_add a' b')"
  using assms by (auto elim!: pf_withinE intro!: pf_of_rat_within)

lemma pf_sub_within:
  assumes "pf_within k a b" "k < 1024"
  shows "pf_within k (pf_sub b a) (pf_sub b a)"
  using assms by (auto simp: pf_sub_def elim!: pf_withinE intro!: pf_of_rat_within)

lemma pf_mul_0: "pf_within k a a \<Longrightarrow> pf_mul (Finite 0) a = Finite 0"
  by (auto simp: pf_of_rat_def elim!: pf_withinE)

lemma pf_le_within: "pf_within k a b \<Longrightarrow> pf_le a b"
  by (auto simp: pf_le_def elim!: pf_withinE)

lemma pf_clamp_unit:
  "\<exists>q. pf_max (Finite 0) (pf_min (Finite 1) x) = Finite q \<and> 0 \<le> q \<and> q \<le> 1"
  by (cases x) (auto simp: pf_max_def pf_min_def)

lemma pf_clamp_Finite: "pf_max (Finite 0) (pf_min (Finite 1) (Finite q)) = Finite (max 0 (min 1 q))"
  by (auto simp: pf_max_def pf_min_def)

lemma pf_clamp_NaN: "pf_max (Finite 0) (pf_min (Finite 1) NaN) = Finite 1"
  by (simp add: pf_max_def pf_min_def)

end
