(* ===== verification/Label_Confidence.thy ===== *)
theory Label_Confidence
  imports Attributed_Completions CI_Laws Py_Float
begin

text \<open>
  \<open>packages/export/sediment_export/label_confidence.py\<close>: the confidence a row is labelled with, from its decisions,
  the resolution of its commit's CI outcomes, and its attribution's similarity.
\<close>

section \<open>Policy\<close>

record label_confidence_policy =
  lc_explicit_accept_confidence :: pyfloat
  lc_explicit_reject_confidence :: pyfloat
  lc_baseline_confidence :: pyfloat
  lc_implicit_accept_multiplier :: pyfloat
  lc_implicit_reject_multiplier :: pyfloat
  lc_ci_pass_multiplier :: pyfloat
  lc_ci_fail_multiplier :: pyfloat
  lc_ci_resolution :: ci_resolution_policy
  lc_policy_version :: string

definition confidence_ok :: "pyfloat \<Rightarrow> bool" where
  "confidence_ok v \<longleftrightarrow> pf_le (Finite 0) v \<and> pf_le v (Finite 1)"

definition multiplier_ok :: "pyfloat \<Rightarrow> bool" where
  "multiplier_ok v \<longleftrightarrow> \<not> pf_less v (Finite 0)"

definition new_label_confidence_policy :: "label_confidence_policy \<Rightarrow> label_confidence_policy result" where
  "new_label_confidence_policy p =
     (if \<not> confidence_ok (lc_explicit_accept_confidence p)
      then Inl (ValueError ''LabelConfidencePolicy.explicit_accept_confidence must be in [0.0, 1.0]'')
      else if \<not> confidence_ok (lc_explicit_reject_confidence p)
      then Inl (ValueError ''LabelConfidencePolicy.explicit_reject_confidence must be in [0.0, 1.0]'')
      else if \<not> confidence_ok (lc_baseline_confidence p)
      then Inl (ValueError ''LabelConfidencePolicy.baseline_confidence must be in [0.0, 1.0]'')
      else if \<not> multiplier_ok (lc_implicit_accept_multiplier p)
      then Inl (ValueError ''LabelConfidencePolicy.implicit_accept_multiplier must be >= 0.0'')
      else if \<not> multiplier_ok (lc_implicit_reject_multiplier p)
      then Inl (ValueError ''LabelConfidencePolicy.implicit_reject_multiplier must be >= 0.0'')
      else if \<not> multiplier_ok (lc_ci_pass_multiplier p)
      then Inl (ValueError ''LabelConfidencePolicy.ci_pass_multiplier must be >= 0.0'')
      else if \<not> multiplier_ok (lc_ci_fail_multiplier p)
      then Inl (ValueError ''LabelConfidencePolicy.ci_fail_multiplier must be >= 0.0'')
      else Inr p)"

definition default_label_confidence_policy :: label_confidence_policy where
  "default_label_confidence_policy =
     \<lparr>lc_explicit_accept_confidence = Finite 1, lc_explicit_reject_confidence = Finite 0,
      lc_baseline_confidence = Finite (fl64 (6 / 10)), lc_implicit_accept_multiplier = Finite (fl64 (11 / 10)),
      lc_implicit_reject_multiplier = Finite (fl64 (9 / 10)), lc_ci_pass_multiplier = Finite (fl64 (11 / 10)),
      lc_ci_fail_multiplier = Finite (fl64 (7 / 10)), lc_ci_resolution = default_ci_policy, lc_policy_version = ''4''\<rparr>"

section \<open>The decision ladder\<close>

definition lerp :: "pyfloat \<Rightarrow> pyfloat \<Rightarrow> pyfloat \<Rightarrow> pyfloat" where
  "lerp low high t = pf_add low (pf_mul (pf_sub high low) t)"

datatype decision_branch = branch_abandoned | branch_no_decision | branch_explicit_reject | branch_explicit_accept
  | branch_implicit_reject | branch_codex_neutral | branch_implicit_accept

definition decision_branch_of :: "attributed_completion \<Rightarrow> decision_branch" where
  "decision_branch_of row =
     (if co_abandonment row \<noteq> None then branch_abandoned
      else if co_decisions row = [] then branch_no_decision
      else let explicit = filter dd_explicit (co_decisions row)
      in if explicit \<noteq> [] then
           (if list_ex (\<lambda>d. \<not> dd_accepted d) explicit then branch_explicit_reject else branch_explicit_accept)
         else if list_ex (\<lambda>d. \<not> dd_accepted d) (co_decisions row) then branch_implicit_reject
         else if list_all (\<lambda>d. dd_agent_harness d = CODEX) (co_decisions row) then branch_codex_neutral
         else branch_implicit_accept)"

definition retention_scores :: "developer_decision list \<Rightarrow> rat list" where
  "retention_scores decisions =
     concat (map (\<lambda>d. case dd_edit_retention_score d of None \<Rightarrow> [] | Some s \<Rightarrow> [s]) decisions)"

definition decision_factor :: "attributed_completion \<Rightarrow> label_confidence_policy \<Rightarrow> pyfloat option" where
  "decision_factor row policy =
     (if co_decisions row = [] then None
      else Some (case decision_branch_of row of
          branch_abandoned \<Rightarrow> lc_explicit_reject_confidence policy
        | branch_explicit_reject \<Rightarrow> lc_explicit_reject_confidence policy
        | branch_explicit_accept \<Rightarrow> lc_explicit_accept_confidence policy
        | branch_implicit_reject \<Rightarrow> pf_mul (lc_baseline_confidence policy) (lc_implicit_reject_multiplier policy)
        | branch_codex_neutral \<Rightarrow> lc_baseline_confidence policy
        | _ \<Rightarrow>
            let scores = retention_scores (co_decisions row)
            in if scores \<noteq> [] then
                 pf_mul (lc_baseline_confidence policy)
                   (lerp (lc_implicit_reject_multiplier policy) (lc_implicit_accept_multiplier policy)
                      (Finite (Min (set scores))))
               else pf_mul (lc_baseline_confidence policy) (lc_implicit_accept_multiplier policy)))"

section \<open>CI evidence\<close>

definition resolve_ci_resolution_result ::
  "attributed_completion \<Rightarrow> ci_resolution_policy \<Rightarrow> ci_outcome list option \<Rightarrow> repository_context option
   \<Rightarrow> ci_resolution_result result" where
  "resolve_ci_resolution_result row policy outcomes ctx =
     derive_ci_resolution_result (the_default (co_ci_outcomes row) outcomes) policy None
       (pr_quarantine_revision (co_provenance row)) ctx"

definition resolves_row :: "attributed_completion \<Rightarrow> ci_resolution \<Rightarrow> bool" where
  "resolves_row row r \<longleftrightarrow> cr_repository_identity r = co_repository_identity row
     \<and> (cr_repository_identity r \<noteq> None \<or> Some (cr_repo r) = co_repo row)
     \<and> Some (cr_commit_sha r) = co_commit_sha row"

definition resolve_ci_resolution ::
  "attributed_completion \<Rightarrow> ci_resolution_policy \<Rightarrow> repository_context option \<Rightarrow> ci_resolution option result" where
  "resolve_ci_resolution row policy ctx =
     bind_result (resolve_ci_resolution_result row policy None ctx) (\<lambda>result.
       if co_repo row = None \<or> co_commit_sha row = None then Inr None
       else Inr (find (resolves_row row) (crr_resolutions result)))"

definition has_verdict :: "ci_result \<Rightarrow> ci_resolution option \<Rightarrow> bool" where
  "has_verdict v r = (case r of None \<Rightarrow> False | Some r \<Rightarrow> cr_verdict r = Some v)"

definition ci_passed :: "attributed_completion \<Rightarrow> ci_resolution_policy \<Rightarrow> repository_context option \<Rightarrow> bool result" where
  "ci_passed row policy ctx = map_sum id (has_verdict PASSED) (resolve_ci_resolution row policy ctx)"

definition ci_failed :: "attributed_completion \<Rightarrow> ci_resolution_policy \<Rightarrow> repository_context option \<Rightarrow> bool result" where
  "ci_failed row policy ctx = map_sum id (has_verdict FAILED) (resolve_ci_resolution row policy ctx)"

section \<open>Confidence\<close>

record confidence_breakdown =
  cb_decision_factor :: pyfloat
  cb_ci_factor :: pyfloat
  cb_ci_reliability :: pyfloat
  cb_similarity_discount :: pyfloat
  cb_final :: pyfloat

definition no_signal :: "attributed_completion \<Rightarrow> bool" where
  "no_signal row \<longleftrightarrow> co_abandonment row = None \<and> co_decisions row = [] \<and> co_ci_outcomes row = []"

definition ladder_factor :: "attributed_completion \<Rightarrow> label_confidence_policy \<Rightarrow> pyfloat" where
  "ladder_factor row policy = the_default (lc_baseline_confidence policy) (decision_factor row policy)"

definition ci_factors :: "label_confidence_policy \<Rightarrow> ci_resolution option \<Rightarrow> (pyfloat \<times> pyfloat) result" where
  "ci_factors policy resolution =
     (case resolution of None \<Rightarrow> Inr (Finite 1, Finite 1)
      | Some r \<Rightarrow>
          (case (cr_verdict r, cr_reliability r) of
             (Some PASSED, Some reliability) \<Rightarrow> Inr (lc_ci_pass_multiplier policy, Finite reliability)
           | (Some FAILED, Some reliability) \<Rightarrow> Inr (lc_ci_fail_multiplier policy, Finite reliability)
           | (Some PASSED, None) \<Rightarrow> Inl AssertionError
           | (Some FAILED, None) \<Rightarrow> Inl AssertionError
           | _ \<Rightarrow> Inr (Finite 1, Finite 1)))"

definition similarity_discount :: "attributed_completion \<Rightarrow> pyfloat result" where
  "similarity_discount row =
     (if co_attribution_source row = Some JACCARD
      then (case co_similarity_score row of None \<Rightarrow> Inl (TypeError ''unsupported operand'') | Some s \<Rightarrow> Inr (Finite s))
      else Inr (Finite 1))"

definition clamp_unit :: "pyfloat \<Rightarrow> pyfloat" where
  "clamp_unit x = pf_max (Finite 0) (pf_min (Finite 1) x)"

definition resolve_confidence_breakdown ::
  "attributed_completion \<Rightarrow> label_confidence_policy option \<Rightarrow> repository_context option
   \<Rightarrow> confidence_breakdown option result" where
  "resolve_confidence_breakdown row policy ctx =
     (let policy = the_default default_label_confidence_policy policy
      in if no_signal row then Inr None
         else
         bind_result (resolve_ci_resolution row (lc_ci_resolution policy) ctx) (\<lambda>resolution.
         bind_result (ci_factors policy resolution) (\<lambda>(factor, reliability).
         bind_result (similarity_discount row) (\<lambda>discount.
           Inr (Some \<lparr>cb_decision_factor = ladder_factor row policy, cb_ci_factor = factor,
             cb_ci_reliability = reliability, cb_similarity_discount = discount,
             cb_final = clamp_unit
               (pf_mul (pf_mul (pf_mul (ladder_factor row policy) factor) reliability) discount)\<rparr>)))))"

definition resolve_confidence ::
  "attributed_completion \<Rightarrow> label_confidence_policy option \<Rightarrow> repository_context option \<Rightarrow> pyfloat option result" where
  "resolve_confidence row policy ctx = map_sum id (map_option cb_final) (resolve_confidence_breakdown row policy ctx)"

text \<open>The confidence of policy version 3: any pass is the verdict, and no reliability factor.\<close>

definition resolve_policy_v3_confidence ::
  "attributed_completion \<Rightarrow> label_confidence_policy option \<Rightarrow> pyfloat option result" where
  "resolve_policy_v3_confidence row policy =
     (let policy = the_default default_label_confidence_policy policy;
          results = ci_result_of ` set (co_ci_outcomes row);
          factor = (if PASSED \<in> results then lc_ci_pass_multiplier policy
                    else if FAILED \<in> results then lc_ci_fail_multiplier policy else Finite 1)
      in if no_signal row then Inr None
         else bind_result (similarity_discount row) (\<lambda>discount.
           Inr (Some (clamp_unit (pf_mul (pf_mul (ladder_factor row policy) factor) discount)))))"

section \<open>Laws\<close>

lemma clamp_unit_unit: "\<exists>q. clamp_unit x = Finite q \<and> 0 \<le> q \<and> q \<le> 1"
  unfolding clamp_unit_def by (rule pf_clamp_unit)

lemma clamp_unit_mono: "pf_within k a b \<Longrightarrow> pf_le (clamp_unit a) (clamp_unit b)"
  by (auto simp: clamp_unit_def pf_clamp_Finite pf_le_def elim!: pf_withinE)

lemma clamp_unit_0 [simp]: "clamp_unit (Finite 0) = Finite 0"
  by (simp add: clamp_unit_def pf_clamp_Finite)

text \<open>A multiplier the constructor accepts may be infinite or NaN; a tame policy's are ordered and below \<open>2 ^ 100\<close>.\<close>

definition tame_policy :: "label_confidence_policy \<Rightarrow> bool" where
  "tame_policy p \<longleftrightarrow> new_label_confidence_policy p = Inr p \<and> ci_policy_ok (lc_ci_resolution p)
     \<and> pf_within 100 (lc_implicit_reject_multiplier p) (lc_implicit_accept_multiplier p)
     \<and> pf_within 100 (lc_ci_fail_multiplier p) (lc_ci_pass_multiplier p)"

lemma confidence_ok_within: "confidence_ok v \<longleftrightarrow> pf_within 0 v v"
  by (cases v) (auto simp: confidence_ok_def pf_le_def pf_within_def)

lemma accepted_policy:
  assumes "new_label_confidence_policy p = Inr p'"
  shows "pf_within 0 (lc_explicit_accept_confidence p) (lc_explicit_accept_confidence p)"
    "pf_within 0 (lc_explicit_reject_confidence p) (lc_explicit_reject_confidence p)"
    "pf_within 0 (lc_baseline_confidence p) (lc_baseline_confidence p)"
  using assms by (auto simp: new_label_confidence_policy_def confidence_ok_within split: if_splits)

definition unit_scores :: "developer_decision list \<Rightarrow> bool" where
  "unit_scores ds \<longleftrightarrow> (\<forall>s\<in>set (retention_scores ds). 0 \<le> s \<and> s \<le> 1)"

lemma lerp_within:
  assumes "pf_within 100 low high" "0 \<le> s" "s \<le> s'" "s' \<le> 1"
  shows "pf_within 101 (lerp low high (Finite s)) (lerp low high (Finite s'))"
proof -
  have "pf_within 100 (pf_sub high low) (pf_sub high low)" using assms by (intro pf_sub_within) auto
  then have "pf_within (100 + 0) (pf_mul (pf_sub high low) (Finite s)) (pf_mul (pf_sub high low) (Finite s'))"
    using assms by (intro pf_mul_within) auto
  then have "pf_within (Suc 100) (lerp low high (Finite s)) (lerp low high (Finite s'))"
    unfolding lerp_def using assms pf_within_refl by (intro pf_add_within) auto
  then show ?thesis by simp
qed

text \<open>The same row with other retention scores.\<close>

definition regraded :: "(rat \<Rightarrow> rat) \<Rightarrow> attributed_completion \<Rightarrow> attributed_completion" where
  "regraded g row = row\<lparr>co_decisions :=
     map (\<lambda>d. d\<lparr>dd_edit_retention_score := map_option g (dd_edit_retention_score d)\<rparr>) (co_decisions row)\<rparr>"

lemma regraded_simps [simp]:
  "co_abandonment (regraded g row) = co_abandonment row" "co_ci_outcomes (regraded g row) = co_ci_outcomes row"
  "co_attribution_source (regraded g row) = co_attribution_source row"
  "co_similarity_score (regraded g row) = co_similarity_score row"
  "co_repo (regraded g row) = co_repo row" "co_commit_sha (regraded g row) = co_commit_sha row"
  "co_provenance (regraded g row) = co_provenance row" "co_repository_identity (regraded g row) = co_repository_identity row"
  "retention_scores (co_decisions (regraded g row)) = map g (retention_scores (co_decisions row))"
  "co_decisions (regraded g row) = [] \<longleftrightarrow> co_decisions row = []"
  by (simp_all add: regraded_def retention_scores_def map_concat comp_def)
    (rule arg_cong[of _ _ concat], simp split: option.splits)

lemma regraded_same [simp]: "regraded (\<lambda>s. s) row = row"
  by (simp add: regraded_def option.map_ident)

lemma regraded_branch [simp]: "decision_branch_of (regraded g row) = decision_branch_of row"
  by (simp add: decision_branch_of_def regraded_def Let_def filter_map comp_def list_ex_iff list_all_iff)

lemma resolve_ci_cong:
  "resolve_ci_resolution (regraded g row) policy ctx = resolve_ci_resolution row policy ctx"
  "resolve_ci_resolution (row\<lparr>co_attribution_source := a\<rparr>) policy ctx = resolve_ci_resolution row policy ctx"
proof -
  have "resolves_row (regraded g row) = resolves_row row"
    "resolves_row (row\<lparr>co_attribution_source := a\<rparr>) = resolves_row row"
    by (simp_all add: fun_eq_iff resolves_row_def)
  then show "resolve_ci_resolution (regraded g row) policy ctx = resolve_ci_resolution row policy ctx"
    "resolve_ci_resolution (row\<lparr>co_attribution_source := a\<rparr>) policy ctx = resolve_ci_resolution row policy ctx"
    by (simp_all add: resolve_ci_resolution_def resolve_ci_resolution_result_def cong: if_cong)
qed

lemma ladder_within:
  assumes p: "tame_policy p" and g: "\<And>s. s \<le> g s"
    and u: "unit_scores (co_decisions row)" "unit_scores (co_decisions (regraded g row))"
  shows "pf_within 201 (ladder_factor row p) (ladder_factor (regraded g row) p)"
proof -
  let ?b = "lc_baseline_confidence p" and ?S = "retention_scores (co_decisions row)"
  have ok: "new_label_confidence_policy p = Inr p"
    and mult: "pf_within 100 (lc_implicit_reject_multiplier p) (lc_implicit_accept_multiplier p)"
    using p by (auto simp: tame_policy_def)
  note conf = accepted_policy[OF ok]
  have base: "pf_within 201 x x" if "pf_within 0 x x" for x using pf_within_less[OF that] by simp
  have prod: "pf_within 201 (pf_mul ?b m) (pf_mul ?b m')" if "pf_within 101 m m'" for m m'
    using pf_within_less[OF pf_mul_within[OF conf(3) that], of 201] by simp
  have acc: "pf_within 101 x x" if "pf_within 100 x x" for x using pf_within_less[OF that] by simp
  have graded: "pf_within 101 (lerp (lc_implicit_reject_multiplier p) (lc_implicit_accept_multiplier p) (Finite (Min (set ?S))))
      (lerp (lc_implicit_reject_multiplier p) (lc_implicit_accept_multiplier p) (Finite (Min (g ` set ?S))))"
    if ne: "?S \<noteq> []"
  proof (rule lerp_within[OF mult])
    have "Min (g ` set ?S) \<in> g ` set ?S" using ne by (intro Min_in) auto
    then obtain s where s: "s \<in> set ?S" "Min (g ` set ?S) = g s" by auto
    then have "Min (set ?S) \<le> s" by simp
    then show "Min (set ?S) \<le> Min (g ` set ?S)" using g[of s] s(2) by simp
    show "Min (g ` set ?S) \<le> 1" using u(2) s by (simp add: unit_scores_def)
    have "Min (set ?S) \<in> set ?S" using ne by (intro Min_in) auto
    then show "0 \<le> Min (set ?S)" using u(1) by (simp add: unit_scores_def)
  qed
  show ?thesis
    using base[OF conf(1)] base[OF conf(2)] base[OF conf(3)] prod[OF graded]
      prod[OF acc[OF pf_within_refl(1)[OF mult]]] prod[OF acc[OF pf_within_refl(2)[OF mult]]]
    by (auto simp: ladder_factor_def decision_factor_def Let_def the_default_def
 split: decision_branch.split)
qed

lemma product_within:
  assumes "pf_within 201 d d'" "pf_within 100 f f'" "pf_within 0 r r'" "pf_within 0 s s'"
  shows "pf_within 301 (pf_mul (pf_mul (pf_mul d f) r) s) (pf_mul (pf_mul (pf_mul d' f') r') s')"
  using pf_mul_within[OF pf_mul_within[OF pf_mul_within[OF assms(1,2)] assms(3)] assms(4)] by simp

lemma resolution_reliability:
  assumes policy: "ci_policy_ok policy" and r: "resolve_ci_resolution row policy ctx = Inr (Some r)"
    and v: "cr_verdict r = Some v"
  shows "\<exists>q. cr_reliability r = Some q \<and> 0 \<le> q \<and> q \<le> 1"
proof -
  obtain result where d: "derive_ci_resolution_result (co_ci_outcomes row) policy None
        (pr_quarantine_revision (co_provenance row)) ctx = Inr result" and "r \<in> set (crr_resolutions result)"
    using r by (auto simp: resolve_ci_resolution_def resolve_ci_resolution_result_def the_default_def find_Some_iff split: if_splits)
  moreover obtain pv idx where "crr_resolutions result
      = map (\<lambda>(commit, ws). resolution_of pv commit (projr (commit_repo ctx (ck_repository commit))) ws)
          (commit_workflows idx policy (declared_scope ctx (co_ci_outcomes row)))"
    by (rule derive_ci_cases[OF d])
  ultimately obtain commit ws where cw: "(commit, ws) \<in> set (commit_workflows idx policy (declared_scope ctx (co_ci_outcomes row)))"
      and res: "r = resolution_of pv commit (projr (commit_repo ctx (ck_repository commit))) ws"
    by auto
  have vs: "workflow_verdicts ws = {v}" using v by (simp add: res resolution_of_verdict)
  have run: "\<exists>run. wr_reliability w = run_reliability policy run \<and> (wr_verdict w \<noteq> None \<longrightarrow> verdict_outcomes run \<noteq> [])"
    if "w \<in> set ws" for w
    by (rule commit_workflows_run[OF cw that]) (auto simp: run_workflow_def resolve_workflow_def Let_def)
  have bounds: "0 \<le> q \<and> q \<le> 1" if q: "q \<in> workflow_reliabilities ws" for q
  proof -
    obtain w where w: "w \<in> set ws" "wr_reliability w = Some q"
      using q by (auto simp: workflow_reliabilities_def split: option.splits)
    obtain run where "run_reliability policy run = Some q" using run[OF w(1)] w(2) by auto
    then show ?thesis by (rule run_reliability_bounds[OF policy])
  qed
  obtain w where w: "w \<in> set ws" "wr_verdict w = Some v"
    using vs by (force simp: workflow_verdicts_def split: option.splits)
  obtain run where "wr_reliability w = run_reliability policy run" "verdict_outcomes run \<noteq> []" using run[OF w(1)] w(2) by auto
  then have "wr_reliability w \<noteq> None" by (auto simp: run_reliability_def Let_def)
  with w have ne: "workflow_reliabilities ws \<noteq> {}"
    by (force simp: workflow_reliabilities_def split: option.splits)
  have sorted: "workflow_verdicts (sort_key workflow_key ws) = workflow_verdicts ws"
    "workflow_reliabilities (sort_key workflow_key ws) = workflow_reliabilities ws"
    by (auto simp: workflow_verdicts_def workflow_reliabilities_def)
  have "finite (workflow_reliabilities ws)" unfolding workflow_reliabilities_def by (rule finite_set)
  then have "Min (workflow_reliabilities ws) \<in> workflow_reliabilities ws" using ne by (rule Min_in)
  moreover have "cr_reliability r = Some (Min (workflow_reliabilities ws))"
    by (simp add: res resolution_of_def Let_def sorted vs)
  ultimately show ?thesis using bounds by blast
qed

lemma ci_factors_within:
  assumes p: "tame_policy p" and r: "resolve_ci_resolution row (lc_ci_resolution p) ctx = Inr resolution"
  shows "\<exists>f q. ci_factors p resolution = Inr (f, Finite q) \<and> pf_within 100 f f \<and> 0 \<le> q \<and> q \<le> 1
     \<and> (has_verdict FAILED resolution \<longrightarrow> f = lc_ci_fail_multiplier p)
     \<and> (has_verdict PASSED resolution \<longrightarrow> f = lc_ci_pass_multiplier p)
     \<and> (\<not> has_verdict FAILED resolution \<and> \<not> has_verdict PASSED resolution \<longrightarrow> f = Finite 1 \<and> q = 1)"
proof -
  have ok: "ci_policy_ok (lc_ci_resolution p)"
    and m: "pf_within 100 (lc_ci_fail_multiplier p) (lc_ci_fail_multiplier p)"
      "pf_within 100 (lc_ci_pass_multiplier p) (lc_ci_pass_multiplier p)"
    using p pf_within_refl[of 100 "lc_ci_fail_multiplier p" "lc_ci_pass_multiplier p"] by (simp_all add: tame_policy_def)
  show ?thesis
  proof (cases "has_verdict FAILED resolution \<or> has_verdict PASSED resolution")
    case True
    then obtain x v where x: "resolution = Some x" "cr_verdict x = Some v" "v = FAILED \<or> v = PASSED"
      by (auto simp: has_verdict_def split: option.splits)
    obtain q where "cr_reliability x = Some q" "0 \<le> q" "q \<le> 1"
      using resolution_reliability[OF ok _ x(2)] r x(1) by blast
    then show ?thesis using x m by (auto simp: ci_factors_def has_verdict_def)
  next
    case False
    then show ?thesis
      by (cases resolution) (auto simp: ci_factors_def has_verdict_def split: option.splits ci_result.splits)
  qed
qed

lemma ci_factors_ok:
  assumes "tame_policy p" "resolve_ci_resolution row (lc_ci_resolution p) ctx = Inr resolution" "ci_factors p resolution = Inr (f, q)"
  shows "pf_within 100 f f" "pf_within 0 q q"
proof -
  obtain f' q' where "ci_factors p resolution = Inr (f', Finite q')" "pf_within 100 f' f'" "0 \<le> q'" "q' \<le> 1"
    using ci_factors_within[OF assms(1,2)] by blast
  then show "pf_within 100 f f" "pf_within 0 q q" using assms(3) by auto
qed

text \<open>The confidence of a row with a signal, from its factors.\<close>

lemma resolve_confidence_cases:
  assumes "resolve_confidence row (Some p) ctx = Inr c" "\<not> no_signal row"
  obtains resolution f q s where "resolve_ci_resolution row (lc_ci_resolution p) ctx = Inr resolution"
    "ci_factors p resolution = Inr (f, q)" "similarity_discount row = Inr s"
    "c = Some (clamp_unit (pf_mul (pf_mul (pf_mul (ladder_factor row p) f) q) s))"
  using assms by (cases "resolve_confidence_breakdown row (Some p) ctx")
    (auto simp: resolve_confidence_def resolve_confidence_breakdown_def the_default_def)

lemma resolve_confidence_factors:
  assumes "\<not> no_signal row" "resolve_ci_resolution row (lc_ci_resolution p) ctx = Inr resolution"
    "ci_factors p resolution = Inr (f, q)" "similarity_discount row = Inr s"
  shows "resolve_confidence row (Some p) ctx
    = Inr (Some (clamp_unit (pf_mul (pf_mul (pf_mul (ladder_factor row p) f) q) s)))"
  using assms by (simp add: resolve_confidence_def resolve_confidence_breakdown_def the_default_def)

definition unit_similarity :: "attributed_completion \<Rightarrow> bool" where
  "unit_similarity row \<longleftrightarrow> (\<forall>s. co_similarity_score row = Some s \<longrightarrow> 0 \<le> s \<and> s \<le> 1)"

lemma similarity_within:
  "unit_similarity row \<Longrightarrow> similarity_discount row = Inr s \<Longrightarrow> pf_within 0 s s \<and> pf_within 0 s (Finite 1)"
  by (auto simp: similarity_discount_def unit_similarity_def split: if_splits option.splits)

lemma confidence_weaker:
  assumes p: "tame_policy p" and u: "unit_similarity row" "unit_similarity row'"
    and c: "resolve_confidence row (Some p) ctx = Inr (Some c)" and signal: "\<not> no_signal row" "\<not> no_signal row'"
    and ci: "resolve_ci_resolution row' (lc_ci_resolution p) ctx = resolve_ci_resolution row (lc_ci_resolution p) ctx"
    and d: "pf_within 201 (ladder_factor row p) (ladder_factor row' p)"
    and s: "\<And>x. similarity_discount row = Inr x \<Longrightarrow> \<exists>y. similarity_discount row' = Inr y \<and> pf_within 0 x y"
  shows "\<exists>c'. resolve_confidence row' (Some p) ctx = Inr (Some c') \<and> pf_le c c'"
proof -
  obtain resolution f q x where r: "resolve_ci_resolution row (lc_ci_resolution p) ctx = Inr resolution"
      and f: "ci_factors p resolution = Inr (f, q)" and x: "similarity_discount row = Inr x"
      and cc: "c = clamp_unit (pf_mul (pf_mul (pf_mul (ladder_factor row p) f) q) x)"
    by (rule resolve_confidence_cases[OF c signal(1)]) simp
  obtain y where y: "similarity_discount row' = Inr y" "pf_within 0 x y" using s[OF x] by blast
  have "resolve_ci_resolution row' (lc_ci_resolution p) ctx = Inr resolution" using ci r by simp
  from resolve_confidence_factors[OF signal(2) this f y(1)] show ?thesis
    using clamp_unit_mono[OF product_within[OF d ci_factors_ok[OF p r f] y(2)]] cc by blast
qed

lemma rejected_branch:
  assumes "co_abandonment row \<noteq> None \<and> co_decisions row \<noteq> [] \<or> (\<exists>d\<in>set (co_decisions row). dd_explicit d \<and> \<not> dd_accepted d)"
  shows "decision_branch_of row \<in> {branch_abandoned, branch_explicit_reject} \<and> co_decisions row \<noteq> []"
  using assms by (auto simp: decision_branch_of_def Let_def list_ex_iff filter_empty_conv)


definition rejected_row :: attributed_completion where
  "rejected_row = \<lparr>co_org_id = ''acme'', co_session_id = ''s1'', co_inference_call_id = ''k1'', co_repo = Some ''acme/app'',
     co_commit_sha = Some sample_sha, co_file_path = Some [], co_similarity_score = Some (1 / 2),
     co_attribution_source = Some JACCARD, co_decisions = [accepted_edit\<lparr>dd_accepted := False\<rparr>], co_ci_outcomes = [],
     co_provenance = \<lparr>pr_policy_version = ''5'', pr_quarantine_revision = 0, pr_policy_digest = None\<rparr>, co_split = TRAIN,
     co_abandonment = None, co_observations = [], co_repository_identity = None, co_source_push_id = None\<rparr>"

lemma default_policy_tame: "tame_policy default_label_confidence_policy"
proof -
  have "fl64 (7 / 10) \<le> fl64 (11 / 10)" "fl64 (9 / 10) \<le> fl64 (11 / 10)" "fl64 (6 / 10) \<le> fl64 1" "fl64 (11 / 10) \<le> fl64 (2 ^ 1)"
    by (intro fl64_mono; simp)+
  then show ?thesis
    unfolding fl64_power2
    by (simp add: tame_policy_def new_label_confidence_policy_def default_label_confidence_policy_def confidence_ok_within
        multiplier_ok_def sample_policy_ok not_less)
qed

lemma no_outcomes:
  assumes "new_provenance (cp_policy_version policy) revision digest = Inr pv"
  shows "\<exists>r. derive_ci_resolution_result [] policy digest revision None = Inr r \<and> crr_resolutions r = []"
  using assms by (simp add: derive_ci_resolution_result_def index_ci_outcomes_by_commit_key_result_def local_contexts_def
      group_by_def sorted_index_def empty_index_def sorted_runs_def empty_result_def)


text \<open>The constructor accepts an infinite multiplier, and the cap maps what is not a number to one: a passing run
  then turns an explicit reject into full confidence.\<close>

lemma infinite_multiplier_accepts_reject:
  assumes branch: "decision_branch_of row = branch_explicit_reject" and p: "lc_explicit_reject_confidence p = Finite 0"
      "lc_ci_pass_multiplier p = PosInf"
    and r: "resolve_ci_resolution row (lc_ci_resolution p) ctx = Inr (Some r)" "cr_verdict r = Some PASSED"
      "cr_reliability r = Some q" and s: "similarity_discount row = Inr s"
  shows "resolve_confidence row (Some p) ctx = Inr (Some (Finite 1))"
proof -
  have "co_decisions row \<noteq> []" using branch by (auto simp: decision_branch_of_def Let_def split: if_splits)
  then have "\<not> no_signal row" "ladder_factor row p = Finite 0"
    using branch p by (auto simp: no_signal_def ladder_factor_def decision_factor_def the_default_def)
  moreover have "ci_factors p (Some r) = Inr (PosInf, Finite q)" using r p by (simp add: ci_factors_def)
  moreover have "pf_mul (pf_mul (pf_mul (Finite 0) PosInf) (Finite q)) s = NaN" by (cases s) simp_all
  ultimately show ?thesis
    using resolve_confidence_factors[OF _ r(1) _ s] by (simp add: clamp_unit_def pf_clamp_NaN)
qed

lemma infinite_multiplier_accepted:
  "new_label_confidence_policy (default_label_confidence_policy\<lparr>lc_ci_pass_multiplier := PosInf\<rparr>)
     = Inr (default_label_confidence_policy\<lparr>lc_ci_pass_multiplier := PosInf\<rparr>)"
  using default_policy_tame
  by (auto simp: tame_policy_def new_label_confidence_policy_def multiplier_ok_def split: if_splits)

end
