(* ===== verification/Json_Text.thy ===== *)
theory Json_Text
  imports Inference_Call
begin

text \<open>
  The texts the projections compare and emit: \<open>json.dumps\<close> of a JSON value with sorted keys and unescaped
  characters, as \<open>packages/export/sediment_export/trainer.py\<close> and \<open>dpo.py\<close> and
  \<open>packages/derive/sediment_derive/inference_call.py\<close> call it.

  A float is written as the shortest decimal that reads back as it, the closest of those to it.
\<close>

section \<open>Numbers\<close>

definition digit :: "int \<Rightarrow> char" where
  "digit d = char_of (nat (48 + d))"

fun nat_digits :: "int \<Rightarrow> string" where
  "nat_digits n = (if n < 10 then [digit n] else nat_digits (n div 10) @ [digit (n mod 10)])"

declare nat_digits.simps [simp del]

definition int_repr :: "int \<Rightarrow> string" where
  "int_repr n = (if n < 0 then CHR ''-'' # nat_digits (- n) else nat_digits n)"

text \<open>The largest exponent with \<open>10 ^ e \<le> x\<close>, for a positive \<open>x\<close>.\<close>

definition ilog10 :: "rat \<Rightarrow> int" where
  "ilog10 x = (if 1 \<le> x then int (length (nat_digits \<lfloor>x\<rfloor>)) - 1 else - int (length (nat_digits (\<lceil>1 / x\<rceil> - 1))))"

text \<open>The \<open>p\<close>-digit decimals around \<open>x\<close> that read back as it, as digits and the power of ten they count.\<close>

definition decimals_at :: "rat \<Rightarrow> nat \<Rightarrow> (int \<times> int) list" where
  "decimals_at x p =
     (let k = ilog10 x - int p + 1; y = x / 10 powi k;
          below = (\<lfloor>y\<rfloor>, k); above = (\<lceil>y\<rceil>, k);
          ordered = (if y - of_int \<lfloor>y\<rfloor> \<le> of_int \<lceil>y\<rceil> - y then [below, above] else [above, below])
      in filter (\<lambda>(n, k). fl64 (of_int n * 10 powi k) = x) ordered)"

definition shortest_decimal :: "rat \<Rightarrow> int \<times> int" where
  "shortest_decimal x = hd (concat (map (decimals_at x) [1..<18]))"

definition strip_zeros :: "string \<Rightarrow> string" where
  "strip_zeros s = rev (dropWhile (\<lambda>c. c = CHR ''0'') (rev s))"

definition zeros :: "int \<Rightarrow> string" where
  "zeros n = replicate (nat n) (CHR ''0'')"

definition exponent_repr :: "int \<Rightarrow> string" where
  "exponent_repr e =
     (let digits = nat_digits \<bar>e\<bar>
      in (if e < 0 then CHR ''-'' else CHR ''+'') # (if length digits < 2 then CHR ''0'' # digits else digits))"

text \<open>The digits and the position of the point, in fixed notation from \<open>1e-4\<close> up to \<open>1e16\<close>.\<close>

definition float_digits :: "string \<Rightarrow> int \<Rightarrow> string" where
  "float_digits digits point =
     (if point \<le> - 4 \<or> 16 < point then
        hd digits # (if tl digits = [] then [] else CHR ''.'' # tl digits) @ CHR ''e'' # exponent_repr (point - 1)
      else if point \<le> 0 then ''0.'' @ zeros (- point) @ digits
      else if int (length digits) \<le> point then digits @ zeros (point - int (length digits)) @ ''.0''
      else take (nat point) digits @ CHR ''.'' # drop (nat point) digits)"

definition float_repr :: "rat \<Rightarrow> string" where
  "float_repr x =
     (if x = 0 then ''0.0''
      else let (n, k) = shortest_decimal \<bar>x\<bar>; digits = nat_digits n
           in (if x < 0 then ''-'' else []) @ float_digits (strip_zeros digits) (int (length digits) + k))"

section \<open>Strings\<close>

definition hex_digit :: "nat \<Rightarrow> char" where
  "hex_digit d = (if d < 10 then char_of (48 + d) else char_of (87 + d))"

definition escaped :: "char \<Rightarrow> string" where
  "escaped c =
     (if c = CHR 0x22 then [CHR 0x5C, CHR 0x22]
      else if c = CHR 0x5C then [CHR 0x5C, CHR 0x5C]
      else if c = CHR 0x0A then [CHR 0x5C, CHR ''n'']
      else if c = CHR 0x0D then [CHR 0x5C, CHR ''r'']
      else if c = CHR 0x09 then [CHR 0x5C, CHR ''t'']
      else if c = CHR 0x0C then [CHR 0x5C, CHR ''f'']
      else if c = CHR 0x08 then [CHR 0x5C, CHR ''b'']
      else if cp c < 32 then CHR 0x5C # ''u00'' @ [hex_digit (cp c div 16), hex_digit (cp c mod 16)]
      else [c])"

definition string_text :: "string \<Rightarrow> string" where
  "string_text s = CHR 0x22 # concat (map escaped s) @ [CHR 0x22]"

section \<open>Values\<close>

fun joined :: "string \<Rightarrow> string list \<Rightarrow> string" where
  "joined sep [] = []"
| "joined sep [x] = x"
| "joined sep (x # y # ys) = x @ sep @ joined sep (y # ys)"

text \<open>The separators are the ones between items and after a key. An integer of more than 4300 digits is not
  converted to text.\<close>

definition int_text_limit :: int where
  "int_text_limit = 10 ^ 4300"

fun printable :: "json \<Rightarrow> bool" where
  "printable (JInt i) \<longleftrightarrow> \<bar>i\<bar> < int_text_limit"
| "printable (JList xs) \<longleftrightarrow> list_all printable xs"
| "printable (JObj kvs) \<longleftrightarrow> list_all (\<lambda>(k, v). printable v) kvs"
| "printable j \<longleftrightarrow> True"

fun json_text :: "string \<Rightarrow> string \<Rightarrow> json \<Rightarrow> string" where
  "json_text item key JNull = ''null''"
| "json_text item key (JBool b) = (if b then ''true'' else ''false'')"
| "json_text item key (JInt i) = int_repr i"
| "json_text item key (JFloat (Finite x)) = float_repr x"
| "json_text item key (JFloat PosInf) = ''Infinity''"
| "json_text item key (JFloat NegInf) = ''-Infinity''"
| "json_text item key (JFloat NaN) = ''NaN''"
| "json_text item key (JStr s) = string_text s"
| "json_text item key (JList xs) = CHR ''['' # joined item (map (json_text item key) xs) @ '']''"
| "json_text item key (JObj kvs) =
     CHR ''{'' # joined item (map (\<lambda>(k, t). string_text k @ key @ t)
        (sort_key fst (map (\<lambda>(k, v). (k, json_text item key v)) kvs))) @ ''}''"

definition json_dumps :: "string \<Rightarrow> string \<Rightarrow> json \<Rightarrow> string result" where
  "json_dumps item key j =
     (if printable j then Inr (json_text item key j)
      else Inl (ValueError ''Exceeds the limit (4300 digits) for integer string conversion''))"

definition compact_dumps :: "json \<Rightarrow> string result" where
  "compact_dumps = json_dumps '','' '':''"

section \<open>The prompt key\<close>

text \<open>\<open>model_dump(exclude_none=True)\<close>: the fields that are not \<open>None\<close>, in declaration order.\<close>

fun part_dump :: "part \<Rightarrow> json" where
  "part_dump (TextPart content) = JObj [(''type'', JStr ''text''), (''content'', JStr content)]"
| "part_dump (ReasoningPart content) = JObj [(''type'', JStr ''reasoning''), (''content'', JStr content)]"
| "part_dump (ToolCallPart call_id name arguments) =
     JObj [(''type'', JStr ''tool_call''), (''id'', JStr call_id), (''name'', JStr name), (''arguments'', JObj arguments)]"
| "part_dump (ToolCallResponsePart call_id result) =
     JObj ([(''type'', JStr ''tool_call_response''), (''id'', JStr call_id)]
       @ (if result = JNull then [] else [(''result'', result)]))"

definition message_dump :: "inference_message \<Rightarrow> json" where
  "message_dump m = JObj ([(''role'', JStr (msg_role m)), (''parts'', JList (map part_dump (msg_parts m)))]
     @ (case msg_finish_reason m of None \<Rightarrow> [] | Some r \<Rightarrow> [(''finish_reason'', JStr r)]))"

definition inference_prompt :: "inference_call \<Rightarrow> json list" where
  "inference_prompt call = map message_dump (ic_input_messages call)"

definition inference_prompt_key :: "inference_call \<Rightarrow> string result" where
  "inference_prompt_key call = json_dumps '', '' '': '' (JList (inference_prompt call))"

end
