(* ===== verification/Trainer.thy ===== *)
theory Trainer
  imports Json_Text
begin

text \<open>
  \<open>packages/export/sediment_export/trainer.py\<close>: the conversation a trainer reads, from the messages of an
  inference call. What it cannot represent without changing the meaning it declines with one reason.

  A \<open>TypedDict\<close> of the assistant has the keys that are present; here an absent text is \<open>None\<close>, and absent
  tool calls the empty list (the code adds neither key when empty).
\<close>

section \<open>Declines\<close>

datatype trainer_skip = non_finite_number | unrepresentable_unicode | completionless | duplicate_tool_call_id
  | empty_message | non_string_tool_result | unrepresentable_part_order | unresolved_tool_call
  | unsupported_completion_role | unsupported_message_role | unsupported_role_part

type_synonym 'a mapped = "trainer_skip + 'a"

definition t_bind :: "'a mapped \<Rightarrow> ('a \<Rightarrow> 'b mapped) \<Rightarrow> 'b mapped" where
  "t_bind r f = (case r of Inl e \<Rightarrow> Inl e | Inr x \<Rightarrow> f x)"

lemma t_bind_simps [simp]: "t_bind (Inl e) f = Inl e" "t_bind (Inr x) f = f x"
  by (simp_all add: t_bind_def)

lemma t_bind_Inr [elim!]:
  assumes "t_bind r f = Inr y"
  obtains x where "r = Inr x" "f x = Inr y"
  using assms by (cases r) auto

text \<open>The first failing check, in the order the values are visited.\<close>

primrec t_all :: "('a \<Rightarrow> unit mapped) \<Rightarrow> 'a list \<Rightarrow> unit mapped" where
  "t_all f [] = Inr ()"
| "t_all f (x # xs) = t_bind (f x) (\<lambda>_. t_all f xs)"

lemma t_all_cong [fundef_cong]: "xs = ys \<Longrightarrow> (\<And>x. x \<in> set ys \<Longrightarrow> f x = g x) \<Longrightarrow> t_all f xs = t_all g ys"
  by (induction xs arbitrary: ys) auto

lemma t_bind_cong [fundef_cong]: "r = r' \<Longrightarrow> (\<And>x. r' = Inr x \<Longrightarrow> f x = g x) \<Longrightarrow> t_bind r f = t_bind r' g"
  by (cases r') auto

lemma t_all_Inr: "t_all f xs = Inr u \<longleftrightarrow> (\<forall>x\<in>set xs. f x = Inr ())"
  by (induction xs) (auto simp: t_bind_def split: sum.splits)

section \<open>Representable values\<close>

text \<open>\<open>value.encode("utf-8")\<close> fails on a surrogate code point.\<close>

definition representable_text :: "string \<Rightarrow> unit mapped" where
  "representable_text s =
     (if list_ex (\<lambda>c. 0xD800 \<le> cp c \<and> cp c \<le> 0xDFFF) s then Inl unrepresentable_unicode else Inr ())"

definition representable_float :: "pyfloat \<Rightarrow> unit mapped" where
  "representable_float x = (case x of Finite q \<Rightarrow> Inr () | _ \<Rightarrow> Inl non_finite_number)"

fun representable :: "json \<Rightarrow> unit mapped" where
  "representable (JFloat x) = representable_float x"
| "representable (JStr s) = representable_text s"
| "representable (JList xs) = t_all representable xs"
| "representable (JObj kvs) = t_all (\<lambda>(k, v). t_bind (representable_text k) (\<lambda>_. representable v)) kvs"
| "representable j = Inr ()"

section \<open>Messages\<close>

record trainer_tool_call =
  tc_id :: string
  tc_name :: string
  tc_arguments :: "(string \<times> json) list"

datatype trainer_message =
    TrainerText (tm_role: string) (tm_content: string)
  | TrainerAssistant (tm_thinking: "string option") (tm_visible: "string option") (tm_calls: "trainer_tool_call list")
  | TrainerTool (tm_name: string) (tm_call_id: string) (tm_result: string)

record trainer_conversation =
  tv_prompt :: "trainer_message list"
  tv_completion :: "trainer_message list"
  tv_tools :: "unit list"

definition representable_call :: "trainer_tool_call \<Rightarrow> unit mapped" where
  "representable_call c =
     t_bind (representable_text (tc_id c)) (\<lambda>_.
     t_bind (representable_text (tc_name c)) (\<lambda>_. representable (JObj (tc_arguments c))))"

definition representable_option :: "string option \<Rightarrow> unit mapped" where
  "representable_option s = (case s of None \<Rightarrow> Inr () | Some s \<Rightarrow> representable_text s)"

fun representable_message :: "trainer_message \<Rightarrow> unit mapped" where
  "representable_message (TrainerText role content) =
     t_bind (representable_text role) (\<lambda>_. representable_text content)"
| "representable_message (TrainerAssistant thinking content calls) =
     t_bind (representable_option thinking) (\<lambda>_.
     t_bind (representable_option content) (\<lambda>_. t_all representable_call calls))"
| "representable_message (TrainerTool name call_id result) =
     t_bind (representable_text name) (\<lambda>_. t_bind (representable_text call_id) (\<lambda>_. representable_text result))"

definition validate_conversation :: "trainer_conversation \<Rightarrow> unit mapped" where
  "validate_conversation c =
     t_bind (t_all representable_message (tv_prompt c)) (\<lambda>_. t_all representable_message (tv_completion c))"

section \<open>Tool results\<close>

text \<open>A JSON value reads back equal from its text, so the code's comparison with \<open>json.loads\<close> only fails where
  the text cannot be written.\<close>

definition tool_result_text :: "json \<Rightarrow> string mapped" where
  "tool_result_text result =
     t_bind (representable result) (\<lambda>_.
       case result of JStr s \<Rightarrow> Inr s
       | _ \<Rightarrow> (case compact_dumps result of Inl e \<Rightarrow> Inl non_string_tool_result | Inr encoded \<Rightarrow> Inr encoded))"

section \<open>The mapping\<close>

text \<open>The names of the tool calls seen so far are threaded through the messages.\<close>

type_synonym tool_names = "(string \<times> string) list"

record response_walk =
  rw_mapped :: "trainer_message list"
  rw_text :: "string list"

definition flush_text :: "response_walk \<Rightarrow> response_walk" where
  "flush_text w =
     (if rw_text w = [] then w
      else w\<lparr>rw_mapped := rw_mapped w @ [TrainerText ''user'' (concat (rw_text w))], rw_text := []\<rparr>)"

definition response_part :: "string \<Rightarrow> tool_names \<Rightarrow> part \<Rightarrow> response_walk \<Rightarrow> response_walk mapped" where
  "response_part role names p w =
     (if is_TextPart p \<and> role = ''user'' then Inr (w\<lparr>rw_text := rw_text w @ [part_text p]\<rparr>)
      else case p of
        ToolCallResponsePart call_id result \<Rightarrow>
          let w = flush_text w
          in (case map_of names call_id of
                None \<Rightarrow> Inl unresolved_tool_call
              | Some name \<Rightarrow> t_bind (tool_result_text result) (\<lambda>content.
                  Inr (w\<lparr>rw_mapped := rw_mapped w @ [TrainerTool name call_id content]\<rparr>)))
      | _ \<Rightarrow> Inl unrepresentable_part_order)"

primrec t_fold :: "('a \<Rightarrow> 's \<Rightarrow> 's mapped) \<Rightarrow> 'a list \<Rightarrow> 's \<Rightarrow> 's mapped" where
  "t_fold f [] s = Inr s"
| "t_fold f (x # xs) s = t_bind (f x s) (t_fold f xs)"

definition map_responses :: "string \<Rightarrow> tool_names \<Rightarrow> part list \<Rightarrow> trainer_message list mapped" where
  "map_responses role names parts =
     (if role \<noteq> ''tool'' \<and> role \<noteq> ''user'' then Inl unsupported_role_part
      else t_bind (t_fold (response_part role names) parts \<lparr>rw_mapped = [], rw_text = []\<rparr>)
        (\<lambda>w. Inr (rw_mapped (flush_text w))))"

record assistant_walk =
  aw_phase :: int
  aw_text :: "string list"
  aw_thinking :: "string list"
  aw_calls :: "trainer_tool_call list"
  aw_names :: tool_names

fun part_phase :: "part \<Rightarrow> int" where
  "part_phase (ReasoningPart content) = 0"
| "part_phase (TextPart content) = 1"
| "part_phase (ToolCallPart call_id name arguments) = 2"
| "part_phase (ToolCallResponsePart call_id result) = 3"

definition assistant_part :: "part \<Rightarrow> assistant_walk \<Rightarrow> assistant_walk mapped" where
  "assistant_part p w =
     t_bind (case p of
         ReasoningPart content \<Rightarrow> Inr (w\<lparr>aw_thinking := aw_thinking w @ [content]\<rparr>)
       | TextPart content \<Rightarrow> Inr (w\<lparr>aw_text := aw_text w @ [content]\<rparr>)
       | ToolCallPart call_id name arguments \<Rightarrow>
           if map_of (aw_names w) call_id \<noteq> None then Inl duplicate_tool_call_id
           else Inr (w\<lparr>aw_names := (call_id, name) # aw_names w,
                       aw_calls := aw_calls w @ [\<lparr>tc_id = call_id, tc_name = name, tc_arguments = arguments\<rparr>]\<rparr>)
       | ToolCallResponsePart call_id result \<Rightarrow> Inl unsupported_role_part) (\<lambda>w.
       if part_phase p < aw_phase w then Inl unrepresentable_part_order else Inr (w\<lparr>aw_phase := part_phase p\<rparr>))"

definition joined_text :: "string list \<Rightarrow> string option" where
  "joined_text xs = (if xs = [] then None else Some (concat xs))"

definition map_assistant :: "tool_names \<Rightarrow> part list \<Rightarrow> (trainer_message list \<times> tool_names) mapped" where
  "map_assistant names parts =
     t_bind (t_fold assistant_part parts \<lparr>aw_phase = -1, aw_text = [], aw_thinking = [], aw_calls = [], aw_names = names\<rparr>)
       (\<lambda>w. Inr ([TrainerAssistant (joined_text (aw_thinking w)) (joined_text (aw_text w)) (aw_calls w)], aw_names w))"

definition map_message ::
  "bool \<Rightarrow> inference_message \<Rightarrow> tool_names \<Rightarrow> (trainer_message list \<times> tool_names) mapped" where
  "map_message completion message names =
     (let role = msg_role message; parts = msg_parts message
      in if parts = [] then Inl empty_message
         else if completion \<and> role \<noteq> ''assistant'' then Inl unsupported_completion_role
         else if list_ex is_ToolCallResponsePart parts
         then t_bind (map_responses role names parts) (\<lambda>mapped. Inr (mapped, names))
         else if role \<notin> {''developer'', ''system'', ''user'', ''assistant''} then Inl unsupported_message_role
         else if role \<noteq> ''assistant'' then
           (if \<not> list_all is_TextPart parts then Inl unsupported_role_part
            else Inr ([TrainerText role (concat (map part_text parts))], names))
         else map_assistant names parts)"

definition message_step ::
  "bool \<Rightarrow> inference_message \<Rightarrow> trainer_message list \<times> tool_names \<Rightarrow> (trainer_message list \<times> tool_names) mapped" where
  "message_step completion message = (\<lambda>(mapped, names).
     t_bind (map_message completion message names) (\<lambda>(new, names). Inr (mapped @ new, names)))"

definition map_messages ::
  "bool \<Rightarrow> inference_message list \<Rightarrow> tool_names \<Rightarrow> (trainer_message list \<times> tool_names) mapped" where
  "map_messages completion messages names = t_fold (message_step completion) messages ([], names)"

definition map_inference_prompt :: "inference_call \<Rightarrow> trainer_message list mapped" where
  "map_inference_prompt call =
     t_bind (map_messages False (ic_input_messages call) []) (\<lambda>(prompt, names).
     t_bind (t_all representable_message prompt) (\<lambda>_. Inr prompt))"

definition map_inference_call :: "inference_call \<Rightarrow> trainer_conversation mapped" where
  "map_inference_call call =
     t_bind (map_messages False (ic_input_messages call) []) (\<lambda>(prompt, names).
     t_bind (map_messages True (ic_output_messages call) names) (\<lambda>(completion, names).
     if completion = [] then Inl completionless
     else let conversation = \<lparr>tv_prompt = prompt, tv_completion = completion, tv_tools = []\<rparr>
          in t_bind (validate_conversation conversation) (\<lambda>_. Inr conversation)))"

section \<open>What was said\<close>

text \<open>A conversation as the sequence of its characters, calls and results: how it is cut into messages and parts
  does not matter.\<close>

datatype utterance = Thought char | Said string char | Called string string "(string \<times> json) list" | Returned string string

fun part_said :: "string \<Rightarrow> part \<Rightarrow> utterance list" where
  "part_said role (TextPart s) = map (Said role) s"
| "part_said role (ReasoningPart s) = map Thought s"
| "part_said role (ToolCallPart i n a) = [Called i n a]"
| "part_said role (ToolCallResponsePart i r) = [Returned i (case tool_result_text r of Inl e \<Rightarrow> [] | Inr t \<Rightarrow> t)]"

definition message_said :: "inference_message \<Rightarrow> utterance list" where
  "message_said m = concat (map (part_said (msg_role m)) (msg_parts m))"

definition option_text :: "string option \<Rightarrow> string" where
  "option_text s = (case s of None \<Rightarrow> [] | Some s \<Rightarrow> s)"

fun trainer_said :: "trainer_message \<Rightarrow> utterance list" where
  "trainer_said (TrainerText role s) = map (Said role) s"
| "trainer_said (TrainerAssistant thinking visible calls) =
     map Thought (option_text thinking) @ map (Said ''assistant'') (option_text visible)
       @ map (\<lambda>c. Called (tc_id c) (tc_name c) (tc_arguments c)) calls"
| "trainer_said (TrainerTool name i r) = [Returned i r]"

definition said :: "trainer_message list \<Rightarrow> utterance list" where
  "said ms = concat (map trainer_said ms)"

lemma said_simps [simp]: "said [] = []" "said (xs @ ys) = said xs @ said ys" "said (m # ms) = trainer_said m @ said ms"
  by (simp_all add: said_def)

lemma joined_text_said [simp]: "option_text (joined_text xs) = concat xs"
  by (simp add: joined_text_def option_text_def)

lemma t_fold_Inr_induct:
  assumes "t_fold f xs s = Inr s'" and "\<And>x s s'. x \<in> set xs \<Longrightarrow> f x s = Inr s' \<Longrightarrow> I s \<Longrightarrow> I s' \<and> g s' = g s @ h x" and "I s"
  shows "I s' \<and> g s' = g s @ concat (map h xs)"
  using assms
proof (induction xs arbitrary: s)
  case (Cons x xs)
  obtain s1 where s1: "f x s = Inr s1" "t_fold f xs s1 = Inr s'" using Cons.prems(1) by auto
  have step: "I s1 \<and> g s1 = g s @ h x" using Cons.prems(2)[OF _ s1(1) Cons.prems(3)] by simp
  have "I s' \<and> g s' = g s1 @ concat (map h xs)"
    by (rule Cons.IH[OF s1(2)]) (use Cons.prems(2) step in auto)
  then show ?case using step by simp
qed simp

lemma response_part_said:
  assumes "response_part role names p w = Inr w'" "role = ''tool'' \<or> role = ''user''"
  shows "said (rw_mapped w') @ map (Said ''user'') (concat (rw_text w'))
     = (said (rw_mapped w) @ map (Said ''user'') (concat (rw_text w))) @ part_said role p"
  using assms
  by (cases p) (auto simp: response_part_def flush_text_def Let_def split: if_splits option.splits)

lemma map_responses_said:
  assumes "map_responses role names parts = Inr ms"
  shows "said ms = concat (map (part_said role) parts)"
proof -
  have role: "role = ''tool'' \<or> role = ''user''" using assms by (auto simp: map_responses_def split: if_splits)
  obtain w where w: "t_fold (response_part role names) parts \<lparr>rw_mapped = [], rw_text = []\<rparr> = Inr w"
      and ms: "ms = rw_mapped (flush_text w)"
    using assms by (auto simp: map_responses_def split: if_splits)
  have "said (rw_mapped w) @ map (Said ''user'') (concat (rw_text w)) = concat (map (part_said role) parts)"
    using t_fold_Inr_induct[OF w, of "\<lambda>_. True" "\<lambda>w. said (rw_mapped w) @ map (Said ''user'') (concat (rw_text w))"
        "part_said role"] response_part_said[OF _ role] by simp
  then show ?thesis by (cases "rw_text w") (simp_all add: ms flush_text_def)
qed

definition walk_said :: "assistant_walk \<Rightarrow> utterance list" where
  "walk_said w = map Thought (concat (aw_thinking w)) @ map (Said ''assistant'') (concat (aw_text w))
     @ map (\<lambda>c. Called (tc_id c) (tc_name c) (tc_arguments c)) (aw_calls w)"

definition walk_ordered :: "assistant_walk \<Rightarrow> bool" where
  "walk_ordered w \<longleftrightarrow> (aw_phase w < 1 \<longrightarrow> aw_text w = []) \<and> (aw_phase w < 2 \<longrightarrow> aw_calls w = [])"

lemma assistant_part_said:
  assumes "assistant_part p w = Inr w'" "walk_ordered w"
  shows "walk_ordered w' \<and> walk_said w' = walk_said w @ part_said ''assistant'' p"
  using assms
  by (cases p) (auto simp: assistant_part_def walk_ordered_def walk_said_def split: if_splits)

lemma map_assistant_said:
  assumes "map_assistant names parts = Inr (ms, names')"
  shows "said ms = concat (map (part_said ''assistant'') parts)"
proof -
  let ?w = "\<lparr>aw_phase = -1, aw_text = [], aw_thinking = [], aw_calls = [], aw_names = names\<rparr>"
  obtain w where w: "t_fold assistant_part parts ?w = Inr w"
      and ms: "ms = [TrainerAssistant (joined_text (aw_thinking w)) (joined_text (aw_text w)) (aw_calls w)]"
    using assms by (auto simp: map_assistant_def)
  have "walk_said w = walk_said ?w @ concat (map (part_said ''assistant'') parts)"
    using t_fold_Inr_induct[OF w, of walk_ordered walk_said] assistant_part_said by (simp add: walk_ordered_def)
  then show ?thesis by (simp add: ms walk_said_def)
qed

lemma map_message_said:
  assumes "map_message completion m names = Inr (ms, names')"
  shows "said ms = message_said m"
proof -
  have texts: "concat (map (part_said role) parts) = map (Said role) (concat (map part_text parts))"
    if "list_all is_TextPart parts" for role parts
    using that by (induction parts) (auto simp: is_TextPart_def)
  show ?thesis
    using assms map_responses_said map_assistant_said texts
    by (auto simp: map_message_def message_said_def Let_def split: if_splits)
qed

lemma map_messages_said:
  assumes "map_messages completion messages names = Inr (ms, names')"
  shows "said ms = concat (map message_said messages)"
proof -
  have "said (fst (ms, names')) = said (fst ([], names)) @ concat (map message_said messages)"
    by (rule t_fold_Inr_induct[OF assms[unfolded map_messages_def], of "\<lambda>_. True", THEN conjunct2])
      (auto simp: message_step_def dest: map_message_said)
  then show ?thesis by simp
qed

text \<open>Every tool result answers a call made before it, by the call's name.\<close>

fun calls_of :: "trainer_message \<Rightarrow> trainer_tool_call list" where
  "calls_of (TrainerAssistant thinking visible calls) = calls"
| "calls_of m = []"

definition calls_in :: "trainer_message list \<Rightarrow> trainer_tool_call list" where
  "calls_in ms = concat (map calls_of ms)"

lemma calls_in_simps [simp]: "calls_in [] = []" "calls_in (xs @ ys) = calls_in xs @ calls_in ys" "calls_in (m # ms) = calls_of m @ calls_in ms"
  by (simp_all add: calls_in_def)

definition answers :: "trainer_tool_call list \<Rightarrow> trainer_message \<Rightarrow> bool" where
  "answers calls m \<longleftrightarrow> (case m of TrainerTool name i r \<Rightarrow> \<exists>c\<in>set calls. tc_id c = i \<and> tc_name c = name | _ \<Rightarrow> True)"

fun answered :: "trainer_tool_call list \<Rightarrow> trainer_message list \<Rightarrow> bool" where
  "answered calls [] \<longleftrightarrow> True"
| "answered calls (m # ms) \<longleftrightarrow> answers calls m \<and> answered (calls @ calls_of m) ms"

lemma answered_append [simp]:
  "answered calls (xs @ ys) \<longleftrightarrow> answered calls xs \<and> answered (calls @ calls_in xs) ys"
  by (induction xs arbitrary: calls) auto

definition named :: "trainer_tool_call list \<Rightarrow> tool_names \<Rightarrow> bool" where
  "named calls names \<longleftrightarrow> names = rev (map (\<lambda>c. (tc_id c, tc_name c)) calls) \<and> distinct (map tc_id calls)"

lemma named_lookup: "named calls names \<Longrightarrow> map_of names i = Some n \<Longrightarrow> \<exists>c\<in>set calls. tc_id c = i \<and> tc_name c = n"
  by (auto simp: named_def dest!: map_of_SomeD)

lemma named_absent: "named calls names \<Longrightarrow> map_of names i = None \<Longrightarrow> i \<notin> tc_id ` set calls"
  by (auto simp: named_def map_of_eq_None_iff image_iff)

lemma map_responses_answered:
  assumes "map_responses role names parts = Inr ms" "named calls names"
  shows "answered calls ms \<and> calls_in ms = []"
proof -
  obtain w where w: "t_fold (response_part role names) parts \<lparr>rw_mapped = [], rw_text = []\<rparr> = Inr w"
      and ms: "ms = rw_mapped (flush_text w)"
    using assms by (auto simp: map_responses_def split: if_splits)
  have "answered calls (rw_mapped w) \<and> calls_in (rw_mapped w) = []"
    by (rule t_fold_Inr_induct[OF w, of "\<lambda>w. answered calls (rw_mapped w) \<and> calls_in (rw_mapped w) = []"
        "\<lambda>_. []" "\<lambda>_. []", THEN conjunct1])
      (use named_lookup[OF assms(2)] in \<open>auto simp: response_part_def flush_text_def answers_def Let_def
        split: if_splits option.splits part.splits\<close>)
  then show ?thesis by (simp add: ms flush_text_def answers_def)
qed

lemma map_assistant_answered:
  assumes "map_assistant names parts = Inr (ms, names')" "named calls names"
  shows "answered calls ms \<and> named (calls @ calls_in ms) names'"
proof -
  let ?w = "\<lparr>aw_phase = -1, aw_text = [], aw_thinking = [], aw_calls = [], aw_names = names\<rparr>"
  obtain w where w: "t_fold assistant_part parts ?w = Inr w" and names: "names' = aw_names w"
      and ms: "ms = [TrainerAssistant (joined_text (aw_thinking w)) (joined_text (aw_text w)) (aw_calls w)]"
    using assms by (auto simp: map_assistant_def)
  have step: "named (calls @ aw_calls w') (aw_names w')" if "assistant_part p w = Inr w'" "named (calls @ aw_calls w) (aw_names w)" for p w w'
  proof (cases "is_ToolCallPart p")
    case False
    then have "aw_calls w' = aw_calls w" "aw_names w' = aw_names w"
      using that(1) by (cases p; auto simp: assistant_part_def split: if_splits)+
    then show ?thesis using that(2) by simp
  next
    case True
    then obtain i n a where p: "p = ToolCallPart i n a" by (cases p) auto
    have new: "map_of (aw_names w) i = None" "aw_names w' = (i, n) # aw_names w"
      "aw_calls w' = aw_calls w @ [\<lparr>tc_id = i, tc_name = n, tc_arguments = a\<rparr>]"
      using that(1) by (auto simp: p assistant_part_def split: if_splits)
    then have "i \<notin> tc_id ` set (calls @ aw_calls w)" using named_absent[OF that(2)] by simp
    then show ?thesis using that(2) by (auto simp: new named_def)
  qed
  have "named (calls @ aw_calls w) (aw_names w)"
    by (rule t_fold_Inr_induct[OF w, of "\<lambda>w. named (calls @ aw_calls w) (aw_names w)" "\<lambda>_. []" "\<lambda>_. []", THEN conjunct1])
      (use step assms(2) in auto)
  then show ?thesis by (simp add: ms names answers_def)
qed

lemma map_message_answered:
  assumes "map_message completion m names = Inr (ms, names')" "named calls names"
  shows "answered calls ms \<and> named (calls @ calls_in ms) names'"
  using assms(1) map_responses_answered[OF _ assms(2)] map_assistant_answered[OF _ assms(2)] assms(2)
  by (auto simp: map_message_def Let_def answers_def split: if_splits)

lemma map_messages_answered:
  assumes "map_messages completion messages names = Inr (ms, names')" "named calls names"
  shows "answered calls ms \<and> named (calls @ calls_in ms) names'"
proof -
  have "answered calls (fst (ms, names')) \<and> named (calls @ calls_in (fst (ms, names'))) (snd (ms, names'))"
    by (rule t_fold_Inr_induct[OF assms(1)[unfolded map_messages_def],
        of "\<lambda>s. answered calls (fst s) \<and> named (calls @ calls_in (fst s)) (snd s)" "\<lambda>_. []" "\<lambda>_. []", THEN conjunct1])
      (use assms(2) in \<open>auto simp: message_step_def dest: map_message_answered\<close>)
  then show ?thesis by simp
qed

lemma completion_assistant:
  assumes "map_messages True messages names = Inr (ms, names')"
  shows "\<forall>m\<in>set ms. is_TrainerAssistant m"
proof -
  have message: "\<forall>m\<in>set new. is_TrainerAssistant m" if "map_message True m names = Inr (new, names')" for m names new names'
    using that by (auto simp: map_message_def map_responses_def map_assistant_def Let_def split: if_splits)
  have "\<forall>m\<in>set (fst (ms, names')). is_TrainerAssistant m"
    by (rule t_fold_Inr_induct[OF assms[unfolded map_messages_def], of "\<lambda>s. \<forall>m\<in>set (fst s). is_TrainerAssistant m"
        "\<lambda>_. []" "\<lambda>_. []", THEN conjunct1])
      (use message in \<open>fastforce simp: message_step_def\<close>)+
  then show ?thesis by simp
qed

text \<open>C27. A mapped conversation says exactly what the call's messages say, character by character and in order: the
  prompt its input, the completion its output. The completion is a non-empty list of assistant messages, no call id
  occurs twice, every tool result answers an earlier call under that call's name, and every value in it is
  representable.\<close>

theorem conversation_faithful:
  assumes "map_inference_call call = Inr c"
  shows "said (tv_prompt c) = concat (map message_said (ic_input_messages call))
    \<and> said (tv_completion c) = concat (map message_said (ic_output_messages call))
    \<and> tv_completion c \<noteq> [] \<and> (\<forall>m\<in>set (tv_completion c). is_TrainerAssistant m)
    \<and> distinct (map tc_id (calls_in (tv_prompt c @ tv_completion c)))
    \<and> answered [] (tv_prompt c @ tv_completion c)
    \<and> (\<forall>m\<in>set (tv_prompt c @ tv_completion c). representable_message m = Inr ())"
proof -
  obtain prompt names completion names' where p: "map_messages False (ic_input_messages call) [] = Inr (prompt, names)"
      and q: "map_messages True (ic_output_messages call) names = Inr (completion, names')" and ne: "completion \<noteq> []"
      and c: "c = \<lparr>tv_prompt = prompt, tv_completion = completion, tv_tools = []\<rparr>"
      and v: "validate_conversation c = Inr ()"
    using assms by (auto simp: map_inference_call_def Let_def split: if_splits)
  have a: "answered [] prompt \<and> named ([] @ calls_in prompt) names"
    by (rule map_messages_answered[OF p]) (simp add: named_def)
  then have b: "answered (calls_in prompt) completion \<and> named (calls_in prompt @ calls_in completion) names'"
    using map_messages_answered[OF q] by simp
  have "\<forall>m\<in>set (prompt @ completion). representable_message m = Inr ()"
    using v by (auto simp: validate_conversation_def c t_all_Inr)
  then show ?thesis
    using a b ne map_messages_said[OF p] map_messages_said[OF q] completion_assistant[OF q] by (simp add: c named_def)
qed

definition sample_call :: inference_call where
  "sample_call =
     \<lparr>ic_schema_version = 1, ic_id = ''k1'', ic_org_id = ''acme'', ic_session_id = ''s1'', ic_user_id = None,
      ic_gateway_provider = LITELLM, ic_model_provider = None, ic_model = Some ''m'',
      ic_input_messages =
        [\<lparr>msg_role = ''user'', msg_parts = [TextPart ''hi''], msg_finish_reason = None\<rparr>,
         \<lparr>msg_role = ''assistant'', msg_parts = [ReasoningPart ''a'', TextPart ''b'', ToolCallPart ''t1'' ''ls'' []],
          msg_finish_reason = None\<rparr>,
         \<lparr>msg_role = ''tool'', msg_parts = [ToolCallResponsePart ''t1'' (JBool True)], msg_finish_reason = None\<rparr>],
      ic_output_messages = [\<lparr>msg_role = ''assistant'', msg_parts = [TextPart ''ok''], msg_finish_reason = None\<rparr>],
      ic_input_tokens = None, ic_output_tokens = None, ic_duration_ms = None, ic_model_call_id = None,
      ic_observed_at = 1, ic_raw = []\<rparr>"

definition sample_conversation :: trainer_conversation where
  "sample_conversation =
     \<lparr>tv_prompt = [TrainerText ''user'' ''hi'',
        TrainerAssistant (Some ''a'') (Some ''b'') [\<lparr>tc_id = ''t1'', tc_name = ''ls'', tc_arguments = []\<rparr>],
        TrainerTool ''ls'' ''t1'' ''true''],
      tv_completion = [TrainerAssistant None (Some ''ok'') []], tv_tools = []\<rparr>"

lemma sample_mapped: "map_inference_call sample_call = Inr sample_conversation"
  by (simp add: map_inference_call_def sample_call_def sample_conversation_def map_messages_def message_step_def map_message_def
      map_assistant_def assistant_part_def map_responses_def response_part_def tool_result_text_def compact_dumps_def json_dumps_def
      flush_text_def joined_text_def validate_conversation_def representable_text_def representable_option_def
      representable_call_def cp_def)

theorem conversation_faithful_witness:
  "\<exists>c. map_inference_call sample_call = Inr c
     \<and> said (tv_completion c) = [Said ''assistant'' (CHR ''o''), Said ''assistant'' (CHR ''k'')]"
  using conversation_faithful[OF sample_mapped] sample_mapped
  by (simp add: sample_call_def message_said_def)

end
