(* ===== verification/Training_Rows.thy ===== *)
theory Training_Rows
  imports Label_Confidence Trainer
begin

text \<open>
  What the two projections of \<open>packages/export/sediment_export\<close>, \<open>sft.py\<close> and \<open>dpo.py\<close>, share: the texts of a row's
  provenance and identity that must be representable, and the key rows are ordered by. It ends with an accepted row the examples use.
\<close>

type_synonym evidence_key = "nat \<times> (string \<times> string \<times> string) \<times> string \<times> string \<times> ustr \<times> string"

definition representable_identity :: "repository_identity option \<Rightarrow> unit mapped" where
  "representable_identity i = (case i of None \<Rightarrow> Inr ()
     | Some i \<Rightarrow> t_bind (representable_text (ri_host i)) (\<lambda>_. representable_text (ri_repository_id i)))"

definition representable_provenance :: "provenance \<Rightarrow> unit mapped" where
  "representable_provenance p =
     t_bind (representable_text (pr_policy_version p)) (\<lambda>_. representable_option (pr_policy_digest p))"

lemma fold_result_inv:
  assumes "fold_result f xs s = Inr s'" and "\<And>x s s'. x \<in> set xs \<Longrightarrow> f x s = Inr s' \<Longrightarrow> I s \<Longrightarrow> I s'" and "I s"
  shows "I s'"
  using assms
proof (induction xs arbitrary: s)
  case (Cons x xs)
  obtain s1 where s1: "f x s = Inr s1" "fold_result f xs s1 = Inr s'" using Cons.prems(1) by auto
  have "I s1" using Cons.prems(2)[OF _ s1(1) Cons.prems(3)] by simp
  then show ?case using Cons.IH[OF s1(2)] Cons.prems(2) by auto
qed simp

section \<open>A sample\<close>

definition accepted_row :: attributed_completion where
  "accepted_row = rejected_row\<lparr>co_decisions := [accepted_edit], co_attribution_source := Some GIT_NOTES\<rparr>"

lemma accepted_row_ci:
  "\<exists>r. resolve_ci_resolution_result accepted_row default_ci_policy None None = Inr r \<and> crr_resolutions r = []"
  "resolve_ci_resolution accepted_row default_ci_policy None = Inr None"
proof -
  obtain r where r: "derive_ci_resolution_result [] default_ci_policy None 0 None = Inr r" "crr_resolutions r = []"
    using no_outcomes[OF sample_provenance] by blast
  then show "\<exists>r. resolve_ci_resolution_result accepted_row default_ci_policy None None = Inr r \<and> crr_resolutions r = []"
    "resolve_ci_resolution accepted_row default_ci_policy None = Inr None"
    by (simp_all add: resolve_ci_resolution_def resolve_ci_resolution_result_def the_default_def accepted_row_def rejected_row_def)
qed

lemma pf_of_rat_1: "pf_of_rat 1 = Finite 1"
  by (simp add: pf_of_rat_def fl_round_def)

lemma default_ci_resolution [simp]: "lc_ci_resolution default_label_confidence_policy = default_ci_policy"
  by (simp add: default_label_confidence_policy_def)

lemma accepted_row_confidence: "resolve_confidence accepted_row (Some default_label_confidence_policy) None = Inr (Some (Finite 1))"
proof -
  have "\<not> no_signal accepted_row" "similarity_discount accepted_row = Inr (Finite 1)"
    "ladder_factor accepted_row default_label_confidence_policy = Finite 1"
    by (simp_all add: no_signal_def similarity_discount_def ladder_factor_def decision_factor_def decision_branch_of_def the_default_def
        accepted_row_def rejected_row_def accepted_edit_def default_label_confidence_policy_def)
  then show ?thesis
    using resolve_confidence_factors[of accepted_row default_label_confidence_policy None None "Finite 1" "Finite 1" "Finite 1"]
    by (simp add: accepted_row_ci ci_factors_def pf_of_rat_1 clamp_unit_def pf_clamp_Finite)
qed

lemma sample_model: "ic_model sample_call = Some ''m''"
  by (simp add: sample_call_def)

end
