(* ===== verification/SFT_Projection.thy ===== *)
theory SFT_Projection
  imports Training_Rows
begin

text \<open>
  \<open>packages/export/sediment_export/sft.py\<close>: the supervised training samples of one evidence recipe, at most one
  per inference call.

  The schema id and version every sample carries are constants and left out. A float of the evidence rows is a
  binary64 number in the unit interval, so of a sample's values only texts can be unrepresentable.
\<close>

section \<open>Policy and rows\<close>

datatype sft_recipe = sft_curated | sft_verified

datatype sft_source = source_explicit_accept | source_edit_retention | source_resolved_ci_pass

datatype sft_skip = SftCI ci_skip_reason | SftTrainer trainer_skip | sft_abandoned | sft_explicit_reject
  | resolved_ci_failure | no_eligibility_source | sft_unreliable_ci_resolution | no_reward_signal
  | below_confidence_floor | sft_inference_call_not_found | sft_model_absent | duplicate_completion | conflicting_evidence

record sft_policy =
  sf_label_confidence :: label_confidence_policy
  sf_min_confidence :: pyfloat
  sf_recipe :: sft_recipe

definition new_sft_policy :: "label_confidence_policy \<Rightarrow> pyfloat \<Rightarrow> sft_recipe \<Rightarrow> sft_policy result" where
  "new_sft_policy label_confidence min_confidence recipe =
     (if \<not> confidence_ok min_confidence then Inl (ValueError ''SFTPolicy.min_confidence must be in [0.0, 1.0]'')
      else Inr \<lparr>sf_label_confidence = label_confidence, sf_min_confidence = min_confidence, sf_recipe = recipe\<rparr>)"

definition default_sft_policy :: sft_policy where
  "default_sft_policy =
     \<lparr>sf_label_confidence = default_label_confidence_policy, sf_min_confidence = Finite (fl64 (6 / 10)), sf_recipe = sft_curated\<rparr>"

definition STRONG_RETENTION :: rat where
  "STRONG_RETENTION = fl64 (8 / 10)"

definition SFT_RECIPE_VERSION :: nat where
  "SFT_RECIPE_VERSION = 1"

record sft_metadata =
  sm_org_id :: string
  sm_source_model :: string
  sm_completion_id :: string
  sm_recipe :: sft_recipe
  sm_recipe_version :: nat
  sm_eligibility_source :: sft_source
  sm_label_confidence :: pyfloat
  sm_ci_reliability :: "rat option"
  sm_provenance :: provenance
  sm_split :: split_label
  sm_repository_identity :: "repository_identity option"
  sm_attribution_source :: "attribution_source option"
  sm_observation_ids :: "string list"

record sft_sample =
  ss_prompt :: "trainer_message list"
  ss_completion :: "trainer_message list"
  ss_metadata :: sft_metadata

record sft_projection =
  sf_rows :: "sft_sample list"
  sf_skipped :: "sft_skip counter"

section \<open>Eligibility\<close>

definition explicitly_accepted :: "attributed_completion \<Rightarrow> bool" where
  "explicitly_accepted row = list_ex (\<lambda>d. dd_explicit d \<and> dd_accepted d) (co_decisions row)"

definition explicitly_rejected :: "attributed_completion \<Rightarrow> bool" where
  "explicitly_rejected row = list_ex (\<lambda>d. dd_explicit d \<and> \<not> dd_accepted d) (co_decisions row)"

definition strongly_retained :: "attributed_completion \<Rightarrow> bool" where
  "strongly_retained row = list_ex (\<lambda>d. dd_accepted d \<and>
     (case dd_edit_retention_score d of None \<Rightarrow> False | Some s \<Rightarrow> STRONG_RETENTION \<le> s)) (co_decisions row)"

definition failed_workflow :: "ci_resolution option \<Rightarrow> bool" where
  "failed_workflow r = (case r of None \<Rightarrow> False
     | Some r \<Rightarrow> list_ex (\<lambda>w. wr_verdict w = Some FAILED) (cr_workflow_resolutions r))"

definition eligibility_source ::
  "attributed_completion \<Rightarrow> sft_policy \<Rightarrow> repository_context option \<Rightarrow> (sft_skip + sft_source) result" where
  "eligibility_source row policy ctx =
     (if co_abandonment row \<noteq> None then Inr (Inl sft_abandoned)
      else if explicitly_rejected row then Inr (Inl sft_explicit_reject)
      else bind_result (resolve_ci_resolution row (lc_ci_resolution (sf_label_confidence policy)) ctx) (\<lambda>resolution.
        if failed_workflow resolution then Inr (Inl resolved_ci_failure)
        else case sf_recipe policy of
          sft_verified \<Rightarrow>
            (case resolution of
               None \<Rightarrow> Inr (Inl no_eligibility_source)
             | Some r \<Rightarrow>
                 if cr_verdict r \<noteq> Some PASSED then Inr (Inl no_eligibility_source)
                 else if cr_suspected_flake r then Inr (Inl sft_unreliable_ci_resolution)
                 else Inr (Inr source_resolved_ci_pass))
        | sft_curated \<Rightarrow>
            if explicitly_accepted row then Inr (Inr source_explicit_accept)
            else if strongly_retained row then Inr (Inr source_edit_retention)
            else Inr (Inl no_eligibility_source)))"

section \<open>Samples\<close>

definition representable_sample :: "sft_sample \<Rightarrow> unit mapped" where
  "representable_sample s =
     (let md = ss_metadata s
      in t_bind (t_all representable_message (ss_prompt s)) (\<lambda>_.
         t_bind (t_all representable_message (ss_completion s)) (\<lambda>_.
         t_bind (t_all representable_text [sm_org_id md, sm_source_model md, sm_completion_id md]) (\<lambda>_.
         t_bind (representable_float (sm_label_confidence md)) (\<lambda>_.
         t_bind (representable_provenance (sm_provenance md)) (\<lambda>_.
         t_bind (representable_identity (sm_repository_identity md)) (\<lambda>_.
         t_all representable_text (sm_observation_ids md))))))))"

definition sft_sample_of ::
  "attributed_completion \<Rightarrow> sft_policy \<Rightarrow> repository_context option \<Rightarrow> sft_source \<Rightarrow> pyfloat \<Rightarrow> string
   \<Rightarrow> trainer_conversation \<Rightarrow> sft_sample result" where
  "sft_sample_of row policy ctx source confidence model conversation =
     bind_result (resolve_ci_resolution row (lc_ci_resolution (sf_label_confidence policy)) ctx) (\<lambda>resolution.
     bind_result (session_commit_observation_ids row ctx) (\<lambda>ids.
       Inr \<lparr>ss_prompt = tv_prompt conversation, ss_completion = tv_completion conversation, ss_metadata =
         \<lparr>sm_org_id = co_org_id row, sm_source_model = model, sm_completion_id = co_inference_call_id row,
          sm_recipe = sf_recipe policy, sm_recipe_version = SFT_RECIPE_VERSION, sm_eligibility_source = source,
          sm_label_confidence = confidence, sm_ci_reliability = Option.bind resolution cr_reliability,
          sm_provenance = co_provenance row, sm_split = co_split row, sm_repository_identity = co_repository_identity row,
          sm_attribution_source = co_attribution_source row, sm_observation_ids = ids\<rparr>\<rparr>))"

text \<open>What follows eligibility: the floor, the call and its model, the mapping, the representation.\<close>

definition admit_sample ::
  "attributed_completion \<Rightarrow> (string \<Rightarrow> inference_call option) \<Rightarrow> sft_policy \<Rightarrow> repository_context option \<Rightarrow> sft_source
   \<Rightarrow> (sft_skip + pyfloat \<times> sft_sample) result" where
  "admit_sample row calls policy ctx source =
     bind_result (resolve_confidence row (Some (sf_label_confidence policy)) ctx) (\<lambda>confidence.
       case confidence of None \<Rightarrow> Inr (Inl no_reward_signal) | Some confidence \<Rightarrow>
       if pf_less confidence (sf_min_confidence policy) then Inr (Inl below_confidence_floor)
       else case calls (co_inference_call_id row) of None \<Rightarrow> Inr (Inl sft_inference_call_not_found) | Some call \<Rightarrow>
       (case ic_model call of None \<Rightarrow> Inr (Inl sft_model_absent) | Some model \<Rightarrow>
       (case map_inference_call call of Inl reason \<Rightarrow> Inr (Inl (SftTrainer reason)) | Inr conversation \<Rightarrow>
         bind_result (sft_sample_of row policy ctx source confidence model conversation) (\<lambda>sample.
           case representable_sample sample of Inl reason \<Rightarrow> Inr (Inl (SftTrainer reason))
           | Inr _ \<Rightarrow> Inr (Inr (confidence, sample))))))"

section \<open>The projection\<close>

type_synonym sft_rank = "pyfloat \<times> evidence_key"

text \<open>Python compares tuples at the first unequal component.\<close>

definition rank_greater :: "sft_rank \<Rightarrow> sft_rank \<Rightarrow> bool" where
  "rank_greater a b \<longleftrightarrow> pf_less (fst b) (fst a) \<or> (pf_eq (fst a) (fst b) \<and> snd b < snd a)"

record sft_walk =
  sw_best :: "(string \<times> (sft_rank \<times> sft_sample)) list"
  sw_skipped :: "sft_skip counter"

definition count_skip :: "sft_skip \<Rightarrow> sft_walk \<Rightarrow> sft_walk" where
  "count_skip reason w = w\<lparr>sw_skipped := ctr_incr reason (sw_skipped w)\<rparr>"

definition retain_sample :: "string \<Rightarrow> sft_rank \<Rightarrow> sft_sample \<Rightarrow> sft_walk \<Rightarrow> sft_walk" where
  "retain_sample call_id rank sample w =
     (case map_of (sw_best w) call_id of
        None \<Rightarrow> w\<lparr>sw_best := AList.update call_id (rank, sample) (sw_best w)\<rparr>
      | Some (held, other) \<Rightarrow>
          let w = count_skip duplicate_completion w
          in if rank_greater rank held then w\<lparr>sw_best := AList.update call_id (rank, sample) (sw_best w)\<rparr> else w)"

definition lift_ci_skips :: "ci_skip_reason counter \<Rightarrow> sft_skip counter" where
  "lift_ci_skips c = (\<lambda>r. case r of SftCI reason \<Rightarrow> c reason | _ \<Rightarrow> 0)"

definition sft_step ::
  "string set \<Rightarrow> (string \<Rightarrow> inference_call option) \<Rightarrow> sft_policy \<Rightarrow> repository_context option
   \<Rightarrow> attributed_completion \<Rightarrow> sft_walk \<Rightarrow> sft_walk result" where
  "sft_step declined_calls calls policy ctx row w =
     (if co_inference_call_id row \<in> declined_calls then Inr w
      else if co_abandonment row \<noteq> None then Inr (count_skip sft_abandoned w)
      else if explicitly_rejected row then Inr (count_skip sft_explicit_reject w)
      else bind_result (resolve_ci_resolution_result row (lc_ci_resolution (sf_label_confidence policy)) None ctx) (\<lambda>ci.
        let w = w\<lparr>sw_skipped := ctr_update (sw_skipped w) (lift_ci_skips (crr_skipped ci))\<rparr>
        in bind_result (eligibility_source row policy ctx) (\<lambda>eligible.
           case eligible of Inl reason \<Rightarrow> Inr (count_skip reason w) | Inr source \<Rightarrow>
           bind_result (admit_sample row calls policy ctx source) (\<lambda>admitted.
             case admitted of Inl reason \<Rightarrow> Inr (count_skip reason w)
             | Inr (confidence, sample) \<Rightarrow>
                 Inr (retain_sample (co_inference_call_id row) (confidence, evidence_order row) sample w)))))"

text \<open>The calls for which two rows of the same identity carry different payloads. A row is compared with the
  first of its identity.\<close>

definition row_identity :: "attributed_completion \<Rightarrow> string \<times> evidence_key" where
  "row_identity row = (co_org_id row, evidence_order row)"

definition conflicting_calls :: "attributed_completion list \<Rightarrow> string set" where
  "conflicting_calls rows =
     set (map co_inference_call_id (filter (\<lambda>row.
       case find (\<lambda>other. row_identity other = row_identity row) rows of
         None \<Rightarrow> False | Some held \<Rightarrow> \<not> same_evidence_payload held row) rows))"

definition project_sft ::
  "attributed_completion list \<Rightarrow> (string \<Rightarrow> inference_call option) \<Rightarrow> sft_policy option \<Rightarrow> repository_context option
   \<Rightarrow> sft_projection result" where
  "project_sft rows calls policy ctx =
     (let policy = the_default default_sft_policy policy;
          declined_calls = conflicting_calls rows
      in bind_result (fold_result (sft_step declined_calls calls policy ctx) rows
           \<lparr>sw_best = [], sw_skipped = ctr_add conflicting_evidence (card declined_calls) ctr_empty\<rparr>) (\<lambda>w.
         Inr \<lparr>sf_rows = map (\<lambda>(call_id, rank, sample). sample) (sort_key fst (sw_best w)), sf_skipped = sw_skipped w\<rparr>))"

end
