(* ===== verification/SFT_Laws.thy ===== *)
theory SFT_Laws
  imports SFT_Projection
begin

text \<open>
  The samples of \<open>project_sft\<close>: each is the mapped call of an eligible row, the best row of its call, and every
  other row is counted once.
\<close>

section \<open>The outcome of a row\<close>

definition sft_outcome ::
  "(string \<Rightarrow> inference_call option) \<Rightarrow> sft_policy \<Rightarrow> repository_context option \<Rightarrow> attributed_completion
   \<Rightarrow> (sft_skip + pyfloat \<times> sft_sample) result" where
  "sft_outcome calls policy ctx row =
     (if co_abandonment row \<noteq> None then Inr (Inl sft_abandoned)
      else if explicitly_rejected row then Inr (Inl sft_explicit_reject)
      else bind_result (eligibility_source row policy ctx) (\<lambda>eligible.
        case eligible of Inl reason \<Rightarrow> Inr (Inl reason) | Inr source \<Rightarrow> admit_sample row calls policy ctx source))"

lemma confidence_finite:
  assumes c: "resolve_confidence row (Some p) ctx = Inr (Some c)"
  shows "\<exists>q. c = Finite q \<and> 0 \<le> q \<and> q \<le> 1"
proof -
  have "\<not> no_signal row" using c by (auto simp: resolve_confidence_def resolve_confidence_breakdown_def)
  from resolve_confidence_cases[OF c this] show ?thesis using clamp_unit_unit by (metis option.inject)
qed

text \<open>What an admitted row proves.\<close>

lemma admitted_row:
  assumes "admit_sample row calls policy ctx source = Inr (Inr (c, s))"
  obtains call conversation q where "resolve_confidence row (Some (sf_label_confidence policy)) ctx = Inr (Some c)"
    "\<not> pf_less c (sf_min_confidence policy)" "calls (co_inference_call_id row) = Some call"
    "map_inference_call call = Inr conversation" "ss_prompt s = tv_prompt conversation"
    "ss_completion s = tv_completion conversation" "sm_completion_id (ss_metadata s) = co_inference_call_id row"
    "sm_org_id (ss_metadata s) = co_org_id row" "sm_label_confidence (ss_metadata s) = c"
    "sm_eligibility_source (ss_metadata s) = source" "sm_split (ss_metadata s) = co_split row"
    "ic_model call = Some (sm_source_model (ss_metadata s))" "c = Finite q"
  using assms confidence_finite[of row "sf_label_confidence policy" ctx c]
  by (auto simp: admit_sample_def sft_sample_of_def split: option.splits if_splits sum.splits)

section \<open>The best sample of each call\<close>

lemma rank_greater_Finite [simp]: "rank_greater (Finite a, k) (Finite b, l) \<longleftrightarrow> (b, l) < (a, k)"
  by (auto simp: rank_greater_def less_prod_def)

type_synonym outcomes = "attributed_completion \<Rightarrow> (sft_skip + pyfloat \<times> sft_sample)"

text \<open>Every kept sample is some row's, and no row of its call outranks it.\<close>

definition sourced :: "outcomes \<Rightarrow> attributed_completion list \<Rightarrow> (string \<times> (sft_rank \<times> sft_sample)) list \<Rightarrow> bool" where
  "sourced out rows best \<longleftrightarrow> (\<forall>i q k s. map_of best i = Some ((q, k), s) \<longrightarrow>
     (\<exists>row\<in>set rows. co_inference_call_id row = i \<and> evidence_order row = k \<and> out row = Inr (q, s)))"

definition outranked :: "(string \<times> (sft_rank \<times> sft_sample)) list \<Rightarrow> attributed_completion \<Rightarrow> pyfloat \<Rightarrow> bool" where
  "outranked best row q \<longleftrightarrow>
     (\<exists>held s'. map_of best (co_inference_call_id row) = Some (held, s') \<and> \<not> rank_greater (q, evidence_order row) held)"

definition dominated :: "outcomes \<Rightarrow> attributed_completion list \<Rightarrow> (string \<times> (sft_rank \<times> sft_sample)) list \<Rightarrow> bool" where
  "dominated out rows best \<longleftrightarrow> (\<forall>row\<in>set rows. \<forall>q s. out row = Inr (q, s) \<longrightarrow> outranked best row q)"

lemma sourced_mono: "sourced out rows best \<Longrightarrow> set rows \<subseteq> set rows' \<Longrightarrow> sourced out rows' best"
  unfolding sourced_def by blast

lemma sourced_update:
  assumes "sourced out rows best" "out row = Inr (q, s)"
  shows "sourced out (rows @ [row]) (AList.update (co_inference_call_id row) ((q, evidence_order row), s) best)"
  using assms by (fastforce simp: sourced_def update_conv')

lemma dominated_snoc: "dominated out (rows @ [row]) best \<longleftrightarrow>
    dominated out rows best \<and> (\<forall>q s. out row = Inr (q, s) \<longrightarrow> outranked best row q)"
  by (auto simp: dominated_def)

lemma dominated_update:
  assumes "dominated out rows best" and finite: "\<And>row c s. out row = Inr (c, s) \<Longrightarrow> \<exists>q. c = Finite q"
    and above: "\<And>c l s'. map_of best (co_inference_call_id row) = Some ((c, l), s') \<Longrightarrow> \<exists>b. c = Finite b \<and> (b, l) < (q, k)"
  shows "dominated out rows (AList.update (co_inference_call_id row) ((Finite q, k), s) best)"
  unfolding dominated_def
proof (intro ballI allI impI)
  fix x c t assume x: "x \<in> set rows" "out x = Inr (c, t)"
  obtain a where a: "c = Finite a" using finite[OF x(2)] by blast
  have old: "outranked best x c" using assms(1) x by (simp add: dominated_def)
  show "outranked (AList.update (co_inference_call_id row) ((Finite q, k), s) best) x c"
  proof (cases "co_inference_call_id x = co_inference_call_id row")
    case True
    obtain d l s' where held: "map_of best (co_inference_call_id row) = Some ((d, l), s')"
        "\<not> rank_greater (c, evidence_order x) (d, l)"
      using old True by (auto simp: outranked_def)
    then obtain b where b: "d = Finite b" "(b, l) < (q, k)" using above[OF held(1)] by blast
    have "\<not> (b, l) < (a, evidence_order x)" using held(2) by (simp add: a b)
    then have "\<not> (q, k) < (a, evidence_order x)" using b(2) less_trans by blast
    then show ?thesis using True by (simp add: outranked_def update_conv' a)
  qed (use old in \<open>simp add: outranked_def update_conv'\<close>)
qed

lemma retain_laws:
  assumes d: "distinct (map fst (sw_best w))" and so: "sourced out rows (sw_best w)" and dom: "dominated out rows (sw_best w)"
    and out: "out row = Inr (Finite q, s)" and finite: "\<And>row c s. out row = Inr (c, s) \<Longrightarrow> \<exists>q. c = Finite q"
  defines "w' \<equiv> retain_sample (co_inference_call_id row) (Finite q, evidence_order row) s w"
  shows "distinct (map fst (sw_best w')) \<and> sourced out (rows @ [row]) (sw_best w') \<and> dominated out (rows @ [row]) (sw_best w')"
proof -
  let ?i = "co_inference_call_id row" and ?k = "evidence_order row"
  let ?update = "AList.update ?i ((Finite q, ?k), s) (sw_best w)"
  have updated: ?thesis if b: "sw_best w' = ?update"
      and above: "\<And>c l s'. map_of (sw_best w) ?i = Some ((c, l), s') \<Longrightarrow> \<exists>b. c = Finite b \<and> (b, l) < (q, ?k)"
  proof -
    have "outranked ?update row c" if "out row = Inr (c, t)" for c t
      using that out by (auto simp: outranked_def update_conv')
    moreover have "dominated out rows ?update" using finite above by (intro dominated_update[OF dom]) blast+
    ultimately show ?thesis
      using distinct_update[OF d, of ?i "((Finite q, ?k), s)"] sourced_update[of out rows "sw_best w" row, OF so out]
      unfolding b dominated_snoc by blast
  qed
  show ?thesis
  proof (cases "map_of (sw_best w) ?i")
    case None
    then show ?thesis by (intro updated) (simp_all add: w'_def retain_sample_def)
  next
    case (Some held)
    obtain c l s' where held: "held = ((c, l), s')" by (metis surj_pair)
    obtain b where b: "c = Finite b" using so Some finite unfolding held sourced_def by blast
    show ?thesis
    proof (cases "(b, l) < (q, ?k)")
      case True
      then show ?thesis using Some by (intro updated) (auto simp: w'_def retain_sample_def held b count_skip_def)
    next
      case False
      then have b': "sw_best w' = sw_best w" using Some by (auto simp: w'_def retain_sample_def held b count_skip_def Let_def)
      have "outranked (sw_best w) row c'" if "out row = Inr (c', t)" for c' t
        using that out Some False by (auto simp: outranked_def held b)
      then show ?thesis using d dom sourced_mono[OF so, of "rows @ [row]"] unfolding b' dominated_snoc by auto
    qed
  qed
qed

section \<open>The walk\<close>

definition outcome_of ::
  "string set \<Rightarrow> (string \<Rightarrow> inference_call option) \<Rightarrow> sft_policy \<Rightarrow> repository_context option \<Rightarrow> outcomes" where
  "outcome_of declined_calls calls policy ctx row =
     (if co_inference_call_id row \<in> declined_calls then Inl conflicting_evidence
      else case sft_outcome calls policy ctx row of Inr x \<Rightarrow> x | Inl _ \<Rightarrow> Inl no_reward_signal)"

lemma outcome_finite:
  assumes "outcome_of D calls policy ctx row = Inr (c, s)"
  shows "\<exists>q. c = Finite q"
proof -
  have "sft_outcome calls policy ctx row = Inr (Inr (c, s))"
    using assms by (auto simp: outcome_of_def split: if_splits sum.splits)
  then obtain source where "admit_sample row calls policy ctx source = Inr (Inr (c, s))"
    by (auto simp: sft_outcome_def split: if_splits sum.splits)
  then show ?thesis by (rule admitted_row) blast
qed

text \<open>The reasons that stop a row.\<close>

definition row_skips :: "sft_skip list" where
  "row_skips = map SftTrainer [non_finite_number, unrepresentable_unicode, completionless, duplicate_tool_call_id,
       empty_message, non_string_tool_result, unrepresentable_part_order, unresolved_tool_call,
       unsupported_completion_role, unsupported_message_role, unsupported_role_part]
     @ [sft_abandoned, sft_explicit_reject, resolved_ci_failure, no_eligibility_source, sft_unreliable_ci_resolution,
        no_reward_signal, below_confidence_floor, sft_inference_call_not_found, sft_model_absent, duplicate_completion]"

definition accounted :: "sft_walk \<Rightarrow> nat" where
  "accounted w = length (sw_best w) + sum_list (map (sw_skipped w) row_skips)"

lemma set_row_skips: "reason \<in> set row_skips \<longleftrightarrow> reason \<noteq> conflicting_evidence \<and> (\<forall>r. reason \<noteq> SftCI r)"
proof (cases reason)
  case (SftTrainer t)
  then show ?thesis by (cases t) (auto simp: row_skips_def)
qed (auto simp: row_skips_def)

lemma sum_count: "reason \<notin> set rs \<Longrightarrow> (\<Sum>r\<leftarrow>rs. c r + (if reason = r then 1 else 0)) = (\<Sum>r\<leftarrow>rs. c r :: nat)"
  by (induction rs) auto

lemma sum_incr:
  assumes "distinct rs" "reason \<in> set rs"
  shows "sum_list (map (ctr_incr reason c) rs) = Suc (sum_list (map c rs))"
proof -
  have "(\<Sum>r\<leftarrow>rs. c r + (if reason = r then 1 else 0)) = Suc (sum_list (map c rs))"
    using assms by (induction rs) (auto simp: sum_count)
  moreover have "map (ctr_incr reason c) rs = map (\<lambda>r. c r + (if reason = r then 1 else 0)) rs" by simp
  ultimately show ?thesis by (simp only:)
qed

lemma accounted_skip:
  assumes "reason \<in> set row_skips"
  shows "accounted (count_skip reason w) = Suc (accounted w)"
proof -
  have "sum_list (map (ctr_incr reason (sw_skipped w)) row_skips) = Suc (sum_list (map (sw_skipped w) row_skips))"
    by (rule sum_incr[OF _ assms]) (simp add: row_skips_def)
  moreover have "sw_skipped (count_skip reason w) = ctr_incr reason (sw_skipped w)" "sw_best (count_skip reason w) = sw_best w"
    by (simp_all add: count_skip_def)
  ultimately show ?thesis unfolding accounted_def by (simp only:)
qed

lemma length_update: "length (AList.update i v al) = length al + (if i \<in> fst ` set al then 0 else 1)"
  by (induction al) auto

lemma accounted_retain: "accounted (retain_sample i rank s w) = Suc (accounted w)"
proof (cases "map_of (sw_best w) i")
  case None
  then have "retain_sample i rank s w = w\<lparr>sw_best := AList.update i (rank, s) (sw_best w)\<rparr>" by (simp add: retain_sample_def)
  moreover have "i \<notin> fst ` set (sw_best w)" using None by (simp add: map_of_eq_None_iff)
  ultimately show ?thesis by (simp add: accounted_def length_update)
next
  case (Some held)
  have "i \<in> fst ` set (sw_best w)" using Some by (metis domI dom_map_of_conv_image_fst)
  then have "length (AList.update i (rank, s) (sw_best w)) = length (sw_best w)" by (simp add: length_update)
  then have "accounted (w'\<lparr>sw_best := AList.update i (rank, s) (sw_best w)\<rparr>) = accounted w'" if "sw_best w' = sw_best w" for w'
    using that by (simp add: accounted_def)
  moreover have "accounted (count_skip duplicate_completion w) = Suc (accounted w)"
    by (rule accounted_skip) (simp add: row_skips_def)
  moreover have "sw_best (count_skip duplicate_completion w) = sw_best w" by (simp add: count_skip_def)
  ultimately show ?thesis using Some by (auto simp: retain_sample_def Let_def split: prod.splits)
qed

lemma best_count_skip [simp]: "sw_best (count_skip reason w) = sw_best w"
  by (simp add: count_skip_def)

lemma accounted_ci: "accounted (w\<lparr>sw_skipped := ctr_update (sw_skipped w) (lift_ci_skips c)\<rparr>) = accounted w"
  by (simp add: accounted_def row_skips_def lift_ci_skips_def)

lemma eligibility_reason:
  "eligibility_source row policy ctx = Inr (Inl reason) \<Longrightarrow> reason \<in> set row_skips"
  by (auto simp: eligibility_source_def set_row_skips split: if_splits sft_recipe.splits option.splits)

lemma admission_reason:
  "admit_sample row calls policy ctx source = Inr (Inl reason) \<Longrightarrow> reason \<in> set row_skips"
  by (auto simp: admit_sample_def set_row_skips split: if_splits option.splits sum.splits)

text \<open>A step either counts the row once or offers its sample.\<close>

lemma sft_step_cases:
  assumes step: "sft_step D calls policy ctx row w = Inr w'"
  obtains (skip) reason where "outcome_of D calls policy ctx row = Inl reason" "sw_best w' = sw_best w"
      "accounted w' = accounted w + (if co_inference_call_id row \<in> D then 0 else 1)"
    | (offer) q s w0 where "outcome_of D calls policy ctx row = Inr (Finite q, s)" "sw_best w0 = sw_best w"
      "w' = retain_sample (co_inference_call_id row) (Finite q, evidence_order row) s w0" "accounted w0 = accounted w"
      "co_inference_call_id row \<notin> D"
proof -
  let ?out = "outcome_of D calls policy ctx row"
  have counted: thesis if "?out = Inl reason" "reason \<in> set row_skips" "w' = count_skip reason w0" "sw_best w0 = sw_best w"
      "accounted w0 = accounted w" "co_inference_call_id row \<notin> D" for reason w0
    using that by (intro skip) (simp_all add: accounted_skip)
  show thesis
  proof (cases "co_inference_call_id row \<in> D")
    case True
    then show thesis using step by (intro skip) (simp_all add: sft_step_def outcome_of_def)
  next
    case D: False
    show thesis
    proof (cases "co_abandonment row \<noteq> None \<or> explicitly_rejected row")
      case True
      then show thesis using step D
        by (intro counted[of "if co_abandonment row \<noteq> None then sft_abandoned else sft_explicit_reject" w])
          (auto simp: sft_step_def outcome_of_def sft_outcome_def row_skips_def)
    next
      case False
      obtain ci eligible where ci: "resolve_ci_resolution_result row (lc_ci_resolution (sf_label_confidence policy)) None ctx = Inr ci"
          and e: "eligibility_source row policy ctx = Inr eligible"
        using step D False by (auto simp: sft_step_def Let_def)
      define w0 where "w0 = w\<lparr>sw_skipped := ctr_update (sw_skipped w) (lift_ci_skips (crr_skipped ci))\<rparr>"
      have w0: "sw_best w0 = sw_best w" "accounted w0 = accounted w" by (simp_all add: w0_def accounted_ci)
      show thesis
      proof (cases eligible)
        case (Inl reason)
        then show thesis using step D False ci e w0 eligibility_reason[of row policy ctx reason]
          by (intro counted[of reason w0]) (auto simp: sft_step_def outcome_of_def sft_outcome_def Let_def w0_def)
      next
        case (Inr source)
        obtain admitted where a: "admit_sample row calls policy ctx source = Inr admitted"
            and w': "w' = (case admitted of Inl reason \<Rightarrow> count_skip reason w0
               | Inr (confidence, sample) \<Rightarrow> retain_sample (co_inference_call_id row) (confidence, evidence_order row) sample w0)"
          using step D False ci e Inr
          by (auto simp: sft_step_def Let_def w0_def split: sum.splits prod.splits)
        have out: "?out = admitted" using D False e Inr a by (simp add: outcome_of_def sft_outcome_def)
        show thesis
        proof (cases admitted)
          case (Inl reason)
          then show thesis using D out w0 w' a admission_reason[of row calls policy ctx source reason]
            by (intro counted[of reason w0]) auto
        next
          case (Inr x)
          obtain c s where x: "x = (c, s)" by (cases x)
          obtain q where "c = Finite q" using outcome_finite[of D calls policy ctx row c s] out Inr x by auto
          then show thesis using D out w0 w' Inr x by (intro offer[of q s w0]) auto
        qed
      qed
    qed
  qed
qed

lemma walk_laws:
  assumes w: "fold_result (sft_step D calls policy ctx) rows w0 = Inr w"
    and init: "distinct (map fst (sw_best w0))" "sourced (outcome_of D calls policy ctx) done_rows (sw_best w0)" "dominated (outcome_of D calls policy ctx) done_rows (sw_best w0)"
  shows "distinct (map fst (sw_best w)) \<and> sourced (outcome_of D calls policy ctx) (done_rows @ rows) (sw_best w) \<and> dominated (outcome_of D calls policy ctx) (done_rows @ rows) (sw_best w)
     \<and> accounted w = accounted w0 + length (filter (\<lambda>row. co_inference_call_id row \<notin> D) rows)"
  using w init
proof (induction rows arbitrary: w0 done_rows)
  case (Cons row rows)
  obtain w1 where step: "sft_step D calls policy ctx row w0 = Inr w1"
      and rest: "fold_result (sft_step D calls policy ctx) rows w1 = Inr w" using Cons.prems(1) by auto
  let ?n = "if co_inference_call_id row \<in> D then 0 else 1 :: nat"
  have one: "distinct (map fst (sw_best w1)) \<and> sourced (outcome_of D calls policy ctx) (done_rows @ [row]) (sw_best w1)
      \<and> dominated (outcome_of D calls policy ctx) (done_rows @ [row]) (sw_best w1) \<and> accounted w1 = accounted w0 + ?n"
  proof (cases rule: sft_step_cases[OF step])
    case (1 reason)
    then show ?thesis
      using Cons.prems sourced_mono[OF Cons.prems(3), of "done_rows @ [row]"] unfolding dominated_snoc by auto
  next
    case (2 q s w')
    have "distinct (map fst (sw_best w1)) \<and> sourced (outcome_of D calls policy ctx) (done_rows @ [row]) (sw_best w1) \<and> dominated (outcome_of D calls policy ctx) (done_rows @ [row]) (sw_best w1)"
      unfolding 2(3) by (rule retain_laws) (use 2 Cons.prems outcome_finite in auto)
    then show ?thesis using 2 by (simp add: accounted_retain)
  qed
  then show ?case using Cons.IH[OF rest, of "done_rows @ [row]"] by auto
qed simp

text \<open>What a source of eligibility proves.\<close>

definition recipe_evidence :: "sft_recipe \<Rightarrow> attributed_completion \<Rightarrow> ci_resolution option \<Rightarrow> bool" where
  "recipe_evidence recipe row resolution =
     (case recipe of
        sft_curated \<Rightarrow> (\<exists>d\<in>set (co_decisions row). dd_accepted d
            \<and> (dd_explicit d \<or> (\<exists>s. dd_edit_retention_score d = Some s \<and> STRONG_RETENTION \<le> s)))
      | sft_verified \<Rightarrow> (\<exists>r. resolution = Some r \<and> cr_verdict r = Some PASSED \<and> \<not> cr_suspected_flake r))"

lemma eligible_row:
  assumes "eligibility_source row policy ctx = Inr (Inr source)"
  shows "co_abandonment row = None \<and> (\<forall>d\<in>set (co_decisions row). dd_explicit d \<longrightarrow> dd_accepted d)
    \<and> (\<exists>resolution. resolve_ci_resolution row (lc_ci_resolution (sf_label_confidence policy)) ctx = Inr resolution
        \<and> \<not> failed_workflow resolution \<and> recipe_evidence (sf_recipe policy) row resolution)"
  using assms
  by (auto simp: eligibility_source_def recipe_evidence_def explicitly_rejected_def explicitly_accepted_def strongly_retained_def
      list_ex_iff split: if_splits sft_recipe.splits option.splits; blast)

lemma admitted_outcome:
  assumes "outcome_of D calls policy ctx row = Inr (c, s)"
  obtains source where "co_inference_call_id row \<notin> D" "eligibility_source row policy ctx = Inr (Inr source)"
    "admit_sample row calls policy ctx source = Inr (Inr (c, s))"
  using assms by (auto simp: outcome_of_def sft_outcome_def split: if_splits sum.splits elim!: bind_result_Inr)

text \<open>The row a sample is the projection of.\<close>

definition sample_row ::
  "(string \<Rightarrow> inference_call option) \<Rightarrow> sft_policy \<Rightarrow> repository_context option \<Rightarrow> sft_sample \<Rightarrow> attributed_completion \<Rightarrow> bool" where
  "sample_row calls policy ctx s row \<longleftrightarrow>
     co_inference_call_id row = sm_completion_id (ss_metadata s) \<and> co_org_id row = sm_org_id (ss_metadata s)
     \<and> co_split row = sm_split (ss_metadata s)
     \<and> co_abandonment row = None \<and> (\<forall>d\<in>set (co_decisions row). dd_explicit d \<longrightarrow> dd_accepted d)
     \<and> (\<exists>resolution. resolve_ci_resolution row (lc_ci_resolution (sf_label_confidence policy)) ctx = Inr resolution
          \<and> \<not> failed_workflow resolution \<and> recipe_evidence (sf_recipe policy) row resolution)
     \<and> resolve_confidence row (Some (sf_label_confidence policy)) ctx = Inr (Some (sm_label_confidence (ss_metadata s)))
     \<and> \<not> pf_less (sm_label_confidence (ss_metadata s)) (sf_min_confidence policy)
     \<and> (\<exists>call conversation. calls (co_inference_call_id row) = Some call \<and> ic_model call = Some (sm_source_model (ss_metadata s))
          \<and> map_inference_call call = Inr conversation \<and> ss_prompt s = tv_prompt conversation
          \<and> ss_completion s = tv_completion conversation)"

lemma admitted_sample_row:
  assumes "outcome_of D calls policy ctx row = Inr (c, s)"
  shows "sample_row calls policy ctx s row \<and> c = sm_label_confidence (ss_metadata s)"
proof (rule admitted_outcome[OF assms])
  fix source
  assume e: "eligibility_source row policy ctx = Inr (Inr source)" and a: "admit_sample row calls policy ctx source = Inr (Inr (c, s))"
  show ?thesis
    by (rule admitted_row[OF a]) (use eligible_row[OF e] in \<open>auto simp: sample_row_def\<close>)
qed

text \<open>C24. The samples are sorted by call, one per call, and none belongs to a call with contradicting evidence. Each is
  the mapped conversation of an unrejected, unabandoned row of its call whose resolved workflows did not fail and
  whose decisions or CI carry what the recipe asks for, with the row's confidence, at or above the floor; no other
  admitted row of the call has a higher one. Every row of the other calls is a sample or counted once.\<close>

theorem sft_samples_sound:
  assumes "project_sft rows calls (Some policy) ctx = Inr out"
  shows "sorted_wrt (<) (map (\<lambda>s. sm_completion_id (ss_metadata s)) (sf_rows out))
    \<and> (\<forall>s\<in>set (sf_rows out). sm_completion_id (ss_metadata s) \<notin> conflicting_calls rows
        \<and> (\<exists>row\<in>set rows. sample_row calls policy ctx s row)
        \<and> (\<forall>row\<in>set rows. \<forall>c s'. co_inference_call_id row = sm_completion_id (ss_metadata s)
             \<and> sft_outcome calls policy ctx row = Inr (Inr (c, s')) \<longrightarrow> pf_le c (sm_label_confidence (ss_metadata s))))
    \<and> length (sf_rows out) + sum_list (map (sf_skipped out) row_skips)
        = length (filter (\<lambda>row. co_inference_call_id row \<notin> conflicting_calls rows) rows)"
proof -
  let ?D = "conflicting_calls rows"
  let ?w0 = "\<lparr>sw_best = [], sw_skipped = ctr_add conflicting_evidence (card ?D) ctr_empty\<rparr>"
  obtain w where w: "fold_result (sft_step ?D calls policy ctx) rows ?w0 = Inr w"
      and out: "out = \<lparr>sf_rows = map (\<lambda>(call_id, rank, sample). sample) (sort_key fst (sw_best w)), sf_skipped = sw_skipped w\<rparr>"
    using assms by (auto simp: project_sft_def the_default_def Let_def)
  have laws: "distinct (map fst (sw_best w)) \<and> sourced (outcome_of ?D calls policy ctx) rows (sw_best w)
      \<and> dominated (outcome_of ?D calls policy ctx) rows (sw_best w)
      \<and> accounted w = length (filter (\<lambda>row. co_inference_call_id row \<notin> ?D) rows)"
    using walk_laws[OF w, of "[]"] by (simp add: sourced_def dominated_def accounted_def row_skips_def)
  have entry: "\<exists>row\<in>set rows. co_inference_call_id row = i \<and> outcome_of ?D calls policy ctx row = Inr (q, s)
      \<and> i \<notin> ?D \<and> sample_row calls policy ctx s row \<and> i = sm_completion_id (ss_metadata s) \<and> q = sm_label_confidence (ss_metadata s)"
    if "(i, (q, k), s) \<in> set (sw_best w)" for i q k s
  proof -
    have "map_of (sw_best w) i = Some ((q, k), s)" using that laws by simp
    then obtain row where row: "row \<in> set rows" "co_inference_call_id row = i" "outcome_of ?D calls policy ctx row = Inr (q, s)"
      using laws unfolding sourced_def by blast
    moreover have "i \<notin> ?D" using row by (auto simp: outcome_of_def split: if_splits)
    ultimately show ?thesis using admitted_sample_row[OF row(3)] by (auto simp: sample_row_def)
  qed
  have best: "pf_le c q"
    if e: "(i, (q, k), s) \<in> set (sw_best w)" and row: "row \<in> set rows" "co_inference_call_id row = i"
      "sft_outcome calls policy ctx row = Inr (Inr (c, s'))" for i q k s row c s'
  proof -
    obtain x where "i \<notin> ?D" "outcome_of ?D calls policy ctx x = Inr (q, s)" using entry[OF e] by blast
    then have o': "outcome_of ?D calls policy ctx row = Inr (c, s')" and "\<exists>b. q = Finite b"
      using row outcome_finite by (auto simp: outcome_of_def)
    moreover obtain a where "c = Finite a" using outcome_finite[OF o'] by blast
    moreover have "map_of (sw_best w) i = Some ((q, k), s)" using e laws by simp
    moreover have "outranked (sw_best w) row c" using laws o' row unfolding dominated_def by blast
    ultimately show ?thesis using row(2) by (auto simp: outranked_def pf_le_def)
  qed
  have ids: "map (\<lambda>s. sm_completion_id (ss_metadata s)) (sf_rows out) = map fst (sort_key fst (sw_best w))"
    unfolding out by (auto dest!: entry)
  have sorted: "sorted_wrt (<) (map fst (sort_key fst (sw_best w)))"
    using laws by (simp add: strict_sorted_iff distinct_map)
  have sample: "sm_completion_id (ss_metadata s) \<notin> ?D \<and> (\<exists>row\<in>set rows. sample_row calls policy ctx s row)
      \<and> (\<forall>row\<in>set rows. \<forall>c s'. co_inference_call_id row = sm_completion_id (ss_metadata s)
           \<and> sft_outcome calls policy ctx row = Inr (Inr (c, s')) \<longrightarrow> pf_le c (sm_label_confidence (ss_metadata s)))"
    if s: "s \<in> set (sf_rows out)" for s
  proof -
    obtain i q k where e: "(i, (q, k), s) \<in> set (sw_best w)" using s unfolding out by force
    from entry[OF e] best[OF e] show ?thesis by auto
  qed
  show ?thesis unfolding ids using laws sorted sample by (simp add: out accounted_def)
qed

section \<open>A sample\<close>

lemma default_min_confidence: "\<not> pf_less (Finite 1) (sf_min_confidence default_sft_policy)"
proof -
  have "fl64 (6 / 10) \<le> fl64 1" by (intro fl64_mono) simp
  then show ?thesis by (simp add: default_sft_policy_def)
qed

definition sample_calls :: "string \<Rightarrow> inference_call option" where
  "sample_calls i = (if i = ''k1'' then Some sample_call else None)"

lemma sample_projection:
  "\<exists>out. project_sft [accepted_row] sample_calls (Some default_sft_policy) None = Inr out \<and> length (sf_rows out) = 1"
proof -
  obtain ci where ci: "resolve_ci_resolution_result accepted_row default_ci_policy None None = Inr ci"
    using accepted_row_ci by blast
  have row: "co_inference_call_id accepted_row = ''k1''" "co_abandonment accepted_row = None" "\<not> explicitly_rejected accepted_row"
    "explicitly_accepted accepted_row" "co_observations accepted_row = []" "co_org_id accepted_row = ''acme''"
    "co_provenance accepted_row = \<lparr>pr_policy_version = ''5'', pr_quarantine_revision = 0, pr_policy_digest = None\<rparr>"
    "co_repository_identity accepted_row = None"
    by (simp_all add: accepted_row_def rejected_row_def explicitly_rejected_def explicitly_accepted_def accepted_edit_def)
  have policy: "sf_label_confidence default_sft_policy = default_label_confidence_policy" "sf_recipe default_sft_policy = sft_curated"
    by (simp_all add: default_sft_policy_def)
  have e: "eligibility_source accepted_row default_sft_policy None = Inr (Inr source_explicit_accept)"
    using accepted_row_ci by (simp add: eligibility_source_def row policy failed_workflow_def)
  have "\<exists>s. admit_sample accepted_row sample_calls default_sft_policy None source_explicit_accept = Inr (Inr (Finite 1, s))"
    by (simp add: admit_sample_def policy accepted_row_confidence default_min_confidence sample_calls_def row sample_mapped
        accepted_row_ci sample_model sft_sample_of_def session_commit_observation_ids_def representable_sample_def sample_conversation_def
        representable_text_def representable_option_def representable_call_def representable_float_def
        representable_provenance_def representable_identity_def cp_def)
  then show ?thesis
    using ci e by (auto simp: project_sft_def conflicting_calls_def same_evidence_payload_def the_default_def sft_step_def row policy
        retain_sample_def)
qed

theorem sft_samples_sound_witness:
  "\<exists>out. project_sft [accepted_row] sample_calls (Some default_sft_policy) None = Inr out
     \<and> sum_list (map (sf_skipped out) row_skips) = 0"
proof -
  obtain out where out: "project_sft [accepted_row] sample_calls (Some default_sft_policy) None = Inr out" "length (sf_rows out) = 1"
    using sample_projection by blast
  have "conflicting_calls [accepted_row] = {}" by (simp add: conflicting_calls_def same_evidence_payload_def)
  then show ?thesis using sft_samples_sound[OF out(1)] out by auto
qed

end
