(* ===== verification/DPO_Projection.thy ===== *)
theory DPO_Projection
  imports Training_Rows
begin

text \<open>
  \<open>packages/export/sediment_export/dpo.py\<close>: the preference pairs of one evidence recipe, within the rows of one
  organization, model and prompt.

  The schema id and version every pair carries are constants and left out. As in \<open>SFT_Projection\<close>, of a pair's
  values outside its messages only texts and the two computed floats can be unrepresentable.
\<close>

section \<open>Policy and rows\<close>

datatype dpo_recipe = dpo_human | dpo_outcome

datatype dpo_label = Chosen | Rejected

datatype dpo_source = label_explicit_accept | label_explicit_reject | label_resolved_ci_pass | label_resolved_ci_fail

datatype dpo_skip = DpoCI ci_skip_reason | DpoTrainer trainer_skip | dpo_inference_call_not_found | promptless
  | dpo_model_absent | no_label_source | dpo_unreliable_ci_resolution | bucket_capped | identical_responses

record dpo_policy =
  dp_label_confidence :: label_confidence_policy
  dp_max_pairs_per_bucket :: int
  dp_recipe :: dpo_recipe

definition new_dpo_policy :: "label_confidence_policy \<Rightarrow> int \<Rightarrow> dpo_recipe \<Rightarrow> dpo_policy result" where
  "new_dpo_policy label_confidence max_pairs recipe =
     (if max_pairs < 1 then Inl (ValueError ''DPOPolicy.max_pairs_per_bucket must be >= 1'')
      else Inr \<lparr>dp_label_confidence = label_confidence, dp_max_pairs_per_bucket = max_pairs, dp_recipe = recipe\<rparr>)"

definition default_dpo_policy :: dpo_policy where
  "default_dpo_policy =
     \<lparr>dp_label_confidence = default_label_confidence_policy, dp_max_pairs_per_bucket = 3, dp_recipe = dpo_human\<rparr>"

definition DPO_RECIPE_VERSION :: nat where
  "DPO_RECIPE_VERSION = 2"

record dpo_provenance =
  dpp_chosen :: provenance
  dpp_rejected :: provenance

record dpo_metadata =
  dm_org_id :: string
  dm_source_model :: "string option"
  dm_chosen_completion_id :: string
  dm_rejected_completion_id :: string
  dm_recipe :: dpo_recipe
  dm_recipe_version :: nat
  dm_chosen_label_source :: dpo_source
  dm_rejected_label_source :: dpo_source
  dm_label_confidence :: pyfloat
  dm_ci_reliability :: "rat option"
  dm_confidence_margin :: pyfloat
  dm_provenance :: dpo_provenance
  dm_split :: split_label
  dm_chosen_repository_identity :: "repository_identity option"
  dm_rejected_repository_identity :: "repository_identity option"
  dm_chosen_attribution_source :: "attribution_source option"
  dm_rejected_attribution_source :: "attribution_source option"
  dm_chosen_observation_ids :: "string list"
  dm_rejected_observation_ids :: "string list"

record dpo_pair =
  dr_prompt :: "trainer_message list"
  dr_chosen :: "trainer_message list"
  dr_rejected :: "trainer_message list"
  dr_metadata :: dpo_metadata

record dpo_projection =
  do_rows :: "dpo_pair list"
  do_skipped :: "dpo_skip counter"

section \<open>Labels\<close>

definition classify_with_source ::
  "attributed_completion \<Rightarrow> ci_resolution_policy \<Rightarrow> dpo_recipe \<Rightarrow> repository_context option
   \<Rightarrow> (dpo_skip + dpo_label \<times> dpo_source) result" where
  "classify_with_source row policy recipe ctx =
     (case recipe of
        dpo_human \<Rightarrow>
          (case decision_branch_of row of
             branch_explicit_accept \<Rightarrow> Inr (Inr (Chosen, label_explicit_accept))
           | branch_explicit_reject \<Rightarrow> Inr (Inr (Rejected, label_explicit_reject))
           | _ \<Rightarrow> Inr (Inl no_label_source))
      | dpo_outcome \<Rightarrow>
          bind_result (resolve_ci_resolution row policy ctx) (\<lambda>resolution.
            case resolution of None \<Rightarrow> Inr (Inl no_label_source) | Some r \<Rightarrow>
            if cr_verdict r = None then Inr (Inl no_label_source)
            else if cr_suspected_flake r then Inr (Inl dpo_unreliable_ci_resolution)
            else
            bind_result (ci_passed row policy ctx) (\<lambda>passed.
              if passed then Inr (Inr (Chosen, label_resolved_ci_pass))
              else bind_result (ci_failed row policy ctx) (\<lambda>failed.
                if failed then Inr (Inr (Rejected, label_resolved_ci_fail)) else Inr (Inl no_label_source)))))"

definition classify ::
  "attributed_completion \<Rightarrow> ci_resolution_policy \<Rightarrow> dpo_recipe \<Rightarrow> repository_context option \<Rightarrow> dpo_label option result" where
  "classify row policy recipe ctx =
     map_sum id (case_sum (\<lambda>_. None) (\<lambda>(label, source). Some label)) (classify_with_source row policy recipe ctx)"

section \<open>One row per completion\<close>

type_synonym dpo_rank = "bool \<times> bool \<times> pyfloat \<times> evidence_key"

text \<open>Python compares tuples at the first unequal component.\<close>

definition dpo_rank_greater :: "dpo_rank \<Rightarrow> dpo_rank \<Rightarrow> bool" where
  "dpo_rank_greater = (\<lambda>(label, signal, c, k) (label', signal', c', k').
     if label \<noteq> label' then label
     else if signal \<noteq> signal' then signal
     else pf_less c' c \<or> (pf_eq c c' \<and> k' < k))"

definition dpo_rank_of ::
  "label_confidence_policy \<Rightarrow> dpo_recipe \<Rightarrow> repository_context option \<Rightarrow> attributed_completion \<Rightarrow> dpo_rank result" where
  "dpo_rank_of policy recipe ctx row =
     bind_result (classify row (lc_ci_resolution policy) recipe ctx) (\<lambda>label.
     bind_result (resolve_confidence row (Some policy) ctx) (\<lambda>confidence.
       Inr (label \<noteq> None, confidence \<noteq> None, the_default (Finite 0) confidence, evidence_order row)))"

definition dedup_step ::
  "label_confidence_policy \<Rightarrow> dpo_recipe \<Rightarrow> repository_context option \<Rightarrow> attributed_completion
   \<Rightarrow> (string \<times> (dpo_rank \<times> attributed_completion)) list
   \<Rightarrow> (string \<times> (dpo_rank \<times> attributed_completion)) list result" where
  "dedup_step policy recipe ctx row best =
     bind_result (dpo_rank_of policy recipe ctx row) (\<lambda>rank.
       case map_of best (co_inference_call_id row) of
         None \<Rightarrow> Inr (AList.update (co_inference_call_id row) (rank, row) best)
       | Some (held, other) \<Rightarrow>
           Inr (if dpo_rank_greater rank held then AList.update (co_inference_call_id row) (rank, row) best else best))"

definition dedup_by_completion ::
  "attributed_completion list \<Rightarrow> label_confidence_policy \<Rightarrow> dpo_recipe \<Rightarrow> repository_context option
   \<Rightarrow> (string \<times> attributed_completion) list result" where
  "dedup_by_completion rows policy recipe ctx =
     bind_result (fold_result (dedup_step policy recipe ctx) rows []) (\<lambda>best.
       Inr (map (\<lambda>(call_id, rank, row). (call_id, row)) best))"

section \<open>Buckets\<close>

type_synonym bucket_key = "string \<times> string \<times> string"

record candidates =
  cn_buckets :: "(bucket_key \<times> attributed_completion list) list"
  cn_conversations :: "(string \<times> trainer_conversation) list"
  cn_representation_skips :: "(string \<times> trainer_skip) list"
  cn_skipped :: "dpo_skip counter"

definition representation_reason :: "trainer_skip \<Rightarrow> bool" where
  "representation_reason r \<longleftrightarrow> r = non_finite_number \<or> r = unrepresentable_unicode"

definition count_candidate :: "dpo_skip \<Rightarrow> candidates \<Rightarrow> candidates" where
  "count_candidate reason c = c\<lparr>cn_skipped := ctr_incr reason (cn_skipped c)\<rparr>"

definition bucket_step ::
  "(string \<Rightarrow> inference_call option) \<Rightarrow> attributed_completion \<Rightarrow> candidates \<Rightarrow> candidates result" where
  "bucket_step calls row c =
     (let call_id = co_inference_call_id row
      in case calls call_id of None \<Rightarrow> Inr (count_candidate dpo_inference_call_not_found c) | Some call \<Rightarrow>
         if inference_prompt call = [] then Inr (count_candidate promptless c)
         else case ic_model call of None \<Rightarrow> Inr (count_candidate dpo_model_absent c) | Some model \<Rightarrow>
         (let retain = (\<lambda>c. bind_result (inference_prompt_key call) (\<lambda>key.
                Inr (c\<lparr>cn_buckets := dict_append (co_org_id row, model, key) row (cn_buckets c)\<rparr>)))
          in case map_inference_call call of
               Inl reason \<Rightarrow>
                 if \<not> representation_reason reason then Inr (count_candidate (DpoTrainer reason) c)
                 else retain (c\<lparr>cn_representation_skips := AList.update call_id reason (cn_representation_skips c)\<rparr>)
             | Inr conversation \<Rightarrow>
                 retain (c\<lparr>cn_conversations := AList.update call_id conversation (cn_conversations c)\<rparr>)))"

definition bucket_candidates ::
  "attributed_completion list \<Rightarrow> (string \<Rightarrow> inference_call option) \<Rightarrow> candidates result" where
  "bucket_candidates rows calls =
     fold_result (bucket_step calls) rows
       \<lparr>cn_buckets = [], cn_conversations = [], cn_representation_skips = [], cn_skipped = ctr_empty\<rparr>"

section \<open>Responses\<close>

definition call_json :: "trainer_tool_call \<Rightarrow> json" where
  "call_json c = JObj [(''id'', JStr (tc_id c)), (''type'', JStr ''function''),
     (''function'', JObj [(''name'', JStr (tc_name c)), (''arguments'', JObj (tc_arguments c))])]"

fun message_json :: "trainer_message \<Rightarrow> json" where
  "message_json (TrainerText role content) = JObj [(''role'', JStr role), (''content'', JStr content)]"
| "message_json (TrainerAssistant thinking content calls) =
     JObj ([(''role'', JStr ''assistant'')]
       @ (case thinking of None \<Rightarrow> [] | Some t \<Rightarrow> [(''thinking'', JStr t)])
       @ (case content of None \<Rightarrow> [] | Some t \<Rightarrow> [(''content'', JStr t)])
       @ (if calls = [] then [] else [(''tool_calls'', JList (map call_json calls))]))"
| "message_json (TrainerTool name call_id content) =
     JObj [(''role'', JStr ''tool''), (''name'', JStr name), (''tool_call_id'', JStr call_id), (''content'', JStr content)]"

definition response_key :: "trainer_message list \<Rightarrow> string result" where
  "response_key response = compact_dumps (JList (map message_json response))"

section \<open>The members of a bucket\<close>

record members =
  mb_chosen :: "string list"
  mb_rejected :: "string list"
  mb_sources :: "(string \<times> dpo_source) list"
  mb_skipped :: "dpo_skip counter"

definition lift_dpo_ci_skips :: "ci_skip_reason counter \<Rightarrow> dpo_skip counter" where
  "lift_dpo_ci_skips c = (\<lambda>r. case r of DpoCI reason \<Rightarrow> c reason | _ \<Rightarrow> 0)"

definition member_step ::
  "dpo_policy \<Rightarrow> repository_context option \<Rightarrow> string \<times> attributed_completion \<Rightarrow> members \<Rightarrow> members result" where
  "member_step policy ctx = (\<lambda>(call_id, row) m.
     let ci_policy = lc_ci_resolution (dp_label_confidence policy)
     in bind_result (resolve_ci_resolution_result row ci_policy None ctx) (\<lambda>ci.
        let m = m\<lparr>mb_skipped := ctr_update (mb_skipped m) (lift_dpo_ci_skips (crr_skipped ci))\<rparr>
        in bind_result (classify_with_source row ci_policy (dp_recipe policy) ctx) (\<lambda>label.
             case label of
               Inr (Chosen, source) \<Rightarrow>
                 Inr (m\<lparr>mb_chosen := mb_chosen m @ [call_id], mb_sources := AList.update call_id source (mb_sources m)\<rparr>)
             | Inr (Rejected, source) \<Rightarrow>
                 Inr (m\<lparr>mb_rejected := mb_rejected m @ [call_id], mb_sources := AList.update call_id source (mb_sources m)\<rparr>)
             | Inl reason \<Rightarrow> Inr (m\<lparr>mb_skipped := ctr_incr reason (mb_skipped m)\<rparr>))))"

section \<open>Pairs\<close>

definition present_reliabilities :: "ci_resolution option list \<Rightarrow> rat list" where
  "present_reliabilities rs =
     concat (map (\<lambda>r. case r of None \<Rightarrow> [] | Some r \<Rightarrow> (case cr_reliability r of None \<Rightarrow> [] | Some q \<Rightarrow> [q])) rs)"

definition representable_pair :: "dpo_pair \<Rightarrow> unit mapped" where
  "representable_pair p =
     (let md = dr_metadata p
      in t_bind (t_all representable_message (dr_prompt p)) (\<lambda>_.
         t_bind (t_all representable_message (dr_chosen p)) (\<lambda>_.
         t_bind (t_all representable_message (dr_rejected p)) (\<lambda>_.
         t_bind (representable_text (dm_org_id md)) (\<lambda>_.
         t_bind (representable_option (dm_source_model md)) (\<lambda>_.
         t_bind (t_all representable_text [dm_chosen_completion_id md, dm_rejected_completion_id md]) (\<lambda>_.
         t_bind (representable_float (dm_label_confidence md)) (\<lambda>_.
         t_bind (representable_float (dm_confidence_margin md)) (\<lambda>_.
         t_bind (representable_provenance (dpp_chosen (dm_provenance md))) (\<lambda>_.
         t_bind (representable_provenance (dpp_rejected (dm_provenance md))) (\<lambda>_.
         t_bind (representable_identity (dm_chosen_repository_identity md)) (\<lambda>_.
         t_bind (representable_identity (dm_rejected_repository_identity md)) (\<lambda>_.
         t_bind (t_all representable_text (dm_chosen_observation_ids md)) (\<lambda>_.
         t_all representable_text (dm_rejected_observation_ids md)))))))))))))))"

definition signal_confidence ::
  "attributed_completion \<Rightarrow> label_confidence_policy \<Rightarrow> repository_context option \<Rightarrow> pyfloat result" where
  "signal_confidence row policy ctx =
     bind_result (resolve_confidence row (Some policy) ctx) (\<lambda>c. case c of None \<Rightarrow> Inl AssertionError | Some c \<Rightarrow> Inr c)"

definition pair_of ::
  "dpo_policy \<Rightarrow> repository_context option \<Rightarrow> attributed_completion \<Rightarrow> attributed_completion \<Rightarrow> dpo_source \<Rightarrow> dpo_source
   \<Rightarrow> pyfloat \<Rightarrow> pyfloat \<Rightarrow> rat option \<Rightarrow> string option \<Rightarrow> trainer_conversation \<Rightarrow> trainer_conversation \<Rightarrow> dpo_pair result" where
  "pair_of policy ctx chosen rejected chosen_source rejected_source chosen_confidence rejected_confidence reliability model
     chosen_conversation rejected_conversation =
     bind_result (session_commit_observation_ids chosen ctx) (\<lambda>chosen_ids.
     bind_result (session_commit_observation_ids rejected ctx) (\<lambda>rejected_ids.
       Inr \<lparr>dr_prompt = tv_prompt chosen_conversation, dr_chosen = tv_completion chosen_conversation,
            dr_rejected = tv_completion rejected_conversation, dr_metadata =
         \<lparr>dm_org_id = co_org_id chosen, dm_source_model = model, dm_chosen_completion_id = co_inference_call_id chosen,
          dm_rejected_completion_id = co_inference_call_id rejected, dm_recipe = dp_recipe policy,
          dm_recipe_version = DPO_RECIPE_VERSION, dm_chosen_label_source = chosen_source,
          dm_rejected_label_source = rejected_source, dm_label_confidence = pf_min chosen_confidence rejected_confidence,
          dm_ci_reliability = reliability, dm_confidence_margin = pf_sub chosen_confidence rejected_confidence,
          dm_provenance = \<lparr>dpp_chosen = co_provenance chosen, dpp_rejected = co_provenance rejected\<rparr>,
          dm_split = (if co_split chosen = co_split rejected then co_split chosen else EVAL),
          dm_chosen_repository_identity = co_repository_identity chosen,
          dm_rejected_repository_identity = co_repository_identity rejected,
          dm_chosen_attribution_source = co_attribution_source chosen,
          dm_rejected_attribution_source = co_attribution_source rejected,
          dm_chosen_observation_ids = chosen_ids, dm_rejected_observation_ids = rejected_ids\<rparr>\<rparr>))"

text \<open>An absent dictionary entry would raise; every member of a bucket has a conversation or a representation skip,
  and every labelled one a source.\<close>

definition lookup :: "('k \<times> 'v) list \<Rightarrow> 'k \<Rightarrow> 'v result" where
  "lookup d k = (case map_of d k of None \<Rightarrow> Inl (KeyError ''absent'') | Some v \<Rightarrow> Inr v)"

definition emit_pair ::
  "(string \<Rightarrow> inference_call option) \<Rightarrow> dpo_policy \<Rightarrow> repository_context option \<Rightarrow> candidates \<Rightarrow> members
   \<Rightarrow> attributed_completion \<Rightarrow> attributed_completion \<Rightarrow> pyfloat \<Rightarrow> pyfloat \<Rightarrow> rat option \<Rightarrow> string \<Rightarrow> string
   \<Rightarrow> (dpo_skip + dpo_pair) result" where
  "emit_pair calls policy ctx c m chosen rejected chosen_confidence rejected_confidence reliability chosen_id rejected_id =
     bind_result (case calls chosen_id of None \<Rightarrow> Inl (KeyError ''absent'') | Some call \<Rightarrow> Inr call) (\<lambda>call.
     bind_result (lookup (cn_conversations c) chosen_id) (\<lambda>chosen_conversation.
     bind_result (lookup (cn_conversations c) rejected_id) (\<lambda>rejected_conversation.
     bind_result (lookup (mb_sources m) chosen_id) (\<lambda>chosen_source.
     bind_result (lookup (mb_sources m) rejected_id) (\<lambda>rejected_source.
     if chosen_source \<notin> {label_explicit_accept, label_resolved_ci_pass}
        \<or> rejected_source \<notin> {label_explicit_reject, label_resolved_ci_fail} then Inl AssertionError
     else
     bind_result (pair_of policy ctx chosen rejected chosen_source rejected_source chosen_confidence rejected_confidence
         reliability (ic_model call) chosen_conversation rejected_conversation) (\<lambda>pair.
       case representable_pair pair of Inl reason \<Rightarrow> Inr (Inl (DpoTrainer reason)) | Inr _ \<Rightarrow>
       bind_result (response_key (dr_chosen pair)) (\<lambda>chosen_key.
       bind_result (response_key (dr_rejected pair)) (\<lambda>rejected_key.
         Inr (if chosen_key = rejected_key then Inl identical_responses else Inr pair)))))))))"

definition evaluate_pair ::
  "(string \<Rightarrow> inference_call option) \<Rightarrow> dpo_policy \<Rightarrow> repository_context option \<Rightarrow> candidates \<Rightarrow> members
   \<Rightarrow> (string \<times> attributed_completion) list \<Rightarrow> string \<times> string \<Rightarrow> (dpo_skip + dpo_pair) result" where
  "evaluate_pair calls policy ctx c m deduped = (\<lambda>(chosen_id, rejected_id).
     bind_result (lookup deduped chosen_id) (\<lambda>chosen.
     bind_result (lookup deduped rejected_id) (\<lambda>rejected.
     bind_result (signal_confidence chosen (dp_label_confidence policy) ctx) (\<lambda>chosen_confidence.
     bind_result (signal_confidence rejected (dp_label_confidence policy) ctx) (\<lambda>rejected_confidence.
     bind_result (resolve_ci_resolution chosen (lc_ci_resolution (dp_label_confidence policy)) ctx) (\<lambda>chosen_ci.
     bind_result (resolve_ci_resolution rejected (lc_ci_resolution (dp_label_confidence policy)) ctx) (\<lambda>rejected_ci.
     let reliabilities = present_reliabilities [chosen_ci, rejected_ci];
         reliability = (if reliabilities = [] then None else Some (Min (set reliabilities)))
     in case (map_of (cn_representation_skips c) chosen_id, map_of (cn_representation_skips c) rejected_id) of
          (Some reason, _) \<Rightarrow> Inr (Inl (DpoTrainer reason))
        | (None, Some reason) \<Rightarrow> Inr (Inl (DpoTrainer reason))
        | (None, None) \<Rightarrow>
            emit_pair calls policy ctx c m chosen rejected chosen_confidence rejected_confidence reliability
              chosen_id rejected_id)))))))"

definition pair_step ::
  "(string \<times> string \<Rightarrow> (dpo_skip + dpo_pair) result) \<Rightarrow> string \<times> string \<Rightarrow> dpo_projection \<Rightarrow> dpo_projection result" where
  "pair_step evaluate ids out =
     bind_result (evaluate ids) (\<lambda>r. Inr (case r of
         Inl reason \<Rightarrow> out\<lparr>do_skipped := ctr_incr reason (do_skipped out)\<rparr>
       | Inr pair \<Rightarrow> out\<lparr>do_rows := do_rows out @ [pair]\<rparr>))"

definition bucket_project ::
  "(string \<Rightarrow> inference_call option) \<Rightarrow> dpo_policy \<Rightarrow> repository_context option \<Rightarrow> candidates
   \<Rightarrow> bucket_key \<times> attributed_completion list \<Rightarrow> dpo_projection \<Rightarrow> dpo_projection result" where
  "bucket_project calls policy ctx c = (\<lambda>(key, rows) out.
     bind_result (dedup_by_completion rows (dp_label_confidence policy) (dp_recipe policy) ctx) (\<lambda>deduped.
     bind_result (fold_result (member_step policy ctx) deduped
         \<lparr>mb_chosen = [], mb_rejected = [], mb_sources = [], mb_skipped = do_skipped out\<rparr>) (\<lambda>m.
       let out = out\<lparr>do_skipped := mb_skipped m\<rparr>;
           pairs = List.product (sort (mb_chosen m)) (sort (mb_rejected m));
           cap = nat (dp_max_pairs_per_bucket policy)
       in bind_result (fold_result (pair_step (evaluate_pair calls policy ctx c m deduped)) (take cap pairs) out) (\<lambda>out.
            Inr (if cap < length pairs then out\<lparr>do_skipped := ctr_incr bucket_capped (do_skipped out)\<rparr> else out)))))"

definition project_dpo ::
  "attributed_completion list \<Rightarrow> (string \<Rightarrow> inference_call option) \<Rightarrow> dpo_policy option \<Rightarrow> repository_context option
   \<Rightarrow> dpo_projection result" where
  "project_dpo rows calls policy ctx =
     bind_result (bucket_candidates rows calls) (\<lambda>c.
       fold_result (bucket_project calls (the_default default_dpo_policy policy) ctx c) (sort_key fst (cn_buckets c))
         \<lparr>do_rows = [], do_skipped = cn_skipped c\<rparr>)"

end
