(* ===== verification/DPO_Laws.thy ===== *)
theory DPO_Laws
  imports DPO_Projection
begin

text \<open>
  The pairs of \<open>project_dpo\<close>: two completions of one organization, model and prompt with opposite labels under one
  recipe, at most the policy's number for each prompt.
\<close>

section \<open>Candidates\<close>

definition in_bucket :: "(string \<Rightarrow> inference_call option) \<Rightarrow> bucket_key \<Rightarrow> attributed_completion \<Rightarrow> bool" where
  "in_bucket calls key row \<longleftrightarrow> (\<exists>call model k. calls (co_inference_call_id row) = Some call \<and> ic_model call = Some model
     \<and> inference_prompt call \<noteq> [] \<and> inference_prompt_key call = Inr k \<and> key = (co_org_id row, model, k))"

definition candidates_ok :: "attributed_completion list \<Rightarrow> (string \<Rightarrow> inference_call option) \<Rightarrow> candidates \<Rightarrow> bool" where
  "candidates_ok rows calls c \<longleftrightarrow> distinct (map fst (cn_buckets c))
     \<and> (\<forall>b\<in>set (cn_buckets c). \<forall>row\<in>set (snd b). row \<in> set rows \<and> in_bucket calls (fst b) row)
     \<and> (\<forall>i conversation. map_of (cn_conversations c) i = Some conversation \<longrightarrow>
          (\<exists>call. calls i = Some call \<and> map_inference_call call = Inr conversation))"

lemma set_update_sub: "set (AList.update k v al) \<subseteq> insert (k, v) (set al)"
  by (induction al) auto

lemma dict_append_members:
  assumes "(k, xs) \<in> set (dict_append k' x D)" "y \<in> set xs" "distinct (map fst D)"
  shows "(k = k' \<and> y = x) \<or> (\<exists>ys. (k, ys) \<in> set D \<and> y \<in> set ys)"
proof -
  have "map_of (dict_append k' x D) k = Some xs"
    using assms(1) distinct_update[OF assms(3)] unfolding dict_append_def by (intro map_of_is_SomeI) auto
  then have "(k = k' \<and> xs = dict_get D k' [] @ [x]) \<or> map_of D k = Some xs"
    by (auto simp: dict_append_def update_conv' split: if_splits)
  then show ?thesis using assms(2) by (auto simp: dict_get_def dest: map_of_SomeD split: option.splits)
qed

lemma bucket_step_ok:
  assumes step: "bucket_step calls row c = Inr c'" and ok: "candidates_ok rows calls c" and row: "row \<in> set rows"
  shows "candidates_ok rows calls c'"
proof -
  have count: "candidates_ok rows calls (count_candidate reason c)" for reason
    using ok by (simp add: candidates_ok_def count_candidate_def)
  have retain: "candidates_ok rows calls (c1\<lparr>cn_buckets := dict_append (co_org_id row, model, key) row (cn_buckets c1)\<rparr>)"
    if "candidates_ok rows calls c1" "calls (co_inference_call_id row) = Some call" "ic_model call = Some model"
      "inference_prompt call \<noteq> []" "inference_prompt_key call = Inr key" for c1 call model key
  proof -
    have new: "in_bucket calls (co_org_id row, model, key) row" using that by (auto simp: in_bucket_def)
    have d: "distinct (map fst (cn_buckets c1))" using that(1) by (simp add: candidates_ok_def)
    let ?D = "dict_append (co_org_id row, model, key) row (cn_buckets c1)"
    have "row' \<in> set rows \<and> in_bucket calls (fst b) row'" if b: "b \<in> set ?D" "row' \<in> set (snd b)" for b row'
      using dict_append_members[of "fst b" "snd b", OF _ b(2) d] b new row \<open>candidates_ok rows calls c1\<close>
      unfolding candidates_ok_def by (metis fst_conv snd_conv surjective_pairing)
    moreover have "distinct (map fst ?D)" unfolding dict_append_def by (rule distinct_update[OF d])
    ultimately show ?thesis using \<open>candidates_ok rows calls c1\<close> unfolding candidates_ok_def by simp
  qed
  have conversation: "candidates_ok rows calls (c\<lparr>cn_conversations := AList.update i conversation (cn_conversations c)\<rparr>)"
    if "calls i = Some call" "map_inference_call call = Inr conversation" for i call conversation
    using ok that by (simp add: candidates_ok_def update_conv')
  have skips: "candidates_ok rows calls (c\<lparr>cn_representation_skips := s\<rparr>)" for s
    using ok by (simp add: candidates_ok_def)
  show ?thesis
    using step count retain[OF skips, simplified] retain[OF conversation, simplified]
    by (auto simp: bucket_step_def Let_def split: option.splits if_splits sum.splits)
qed

lemma bucket_candidates_ok:
  assumes "bucket_candidates rows calls = Inr c"
  shows "candidates_ok rows calls c"
proof (rule fold_result_inv[OF assms[unfolded bucket_candidates_def], of "candidates_ok rows calls"])
  show "candidates_ok rows calls \<lparr>cn_buckets = [], cn_conversations = [], cn_representation_skips = [], cn_skipped = ctr_empty\<rparr>"
    by (simp add: candidates_ok_def)
qed (rule bucket_step_ok)

section \<open>Members\<close>

definition ranked_ok :: "attributed_completion list \<Rightarrow> (string \<times> (dpo_rank \<times> attributed_completion)) list \<Rightarrow> bool" where
  "ranked_ok rows best \<longleftrightarrow> distinct (map fst best)
     \<and> (\<forall>e\<in>set best. snd (snd e) \<in> set rows \<and> co_inference_call_id (snd (snd e)) = fst e)"

lemma dedup_step_ok:
  assumes step: "dedup_step policy recipe ctx row s = Inr s'" and ok: "ranked_ok rows s" and row: "row \<in> set rows"
  shows "ranked_ok rows s'"
proof -
  have "ranked_ok rows (AList.update (co_inference_call_id row) (rank, row) s)" for rank
    unfolding ranked_ok_def
  proof (intro conjI ballI)
    show "distinct (map fst (AList.update (co_inference_call_id row) (rank, row) s))"
      by (rule distinct_update) (use ok in \<open>simp add: ranked_ok_def\<close>)
    fix e assume e: "e \<in> set (AList.update (co_inference_call_id row) (rank, row) s)"
    have "e \<in> insert (co_inference_call_id row, (rank, row)) (set s)" by (rule subsetD[OF set_update_sub e])
    then consider "e = (co_inference_call_id row, (rank, row))" | "e \<in> set s" by blast
    then have "snd (snd e) \<in> set rows \<and> co_inference_call_id (snd (snd e)) = fst e"
      by cases (use ok row in \<open>simp_all add: ranked_ok_def\<close>)
    then show "snd (snd e) \<in> set rows" "co_inference_call_id (snd (snd e)) = fst e" by blast+
  qed
  note updated = this
  obtain rank where rank: "dpo_rank_of policy recipe ctx row = Inr rank" using step by (auto simp: dedup_step_def)
  have "s' = s \<or> s' = AList.update (co_inference_call_id row) (rank, row) s"
    using step by (auto simp: dedup_step_def rank split: option.splits if_splits)
  then show ?thesis by (elim disjE) (use updated[of rank] ok in simp_all)
qed

lemma dedup_rows:
  assumes "dedup_by_completion rows policy recipe ctx = Inr deduped"
  shows "distinct (map fst deduped)" "(i, row) \<in> set deduped \<Longrightarrow> row \<in> set rows \<and> co_inference_call_id row = i"
proof -
  obtain best where best: "fold_result (dedup_step policy recipe ctx) rows [] = Inr best"
      and d: "deduped = map (\<lambda>(call_id, rank, row). (call_id, row)) best"
    using assms by (auto simp: dedup_by_completion_def)
  have "ranked_ok rows best"
  proof (rule fold_result_inv[OF best])
    show "ranked_ok rows []" by (simp add: ranked_ok_def)
  qed (rule dedup_step_ok)
  moreover have "map fst deduped = map fst best" by (auto simp: d)
  ultimately have r: "distinct (map fst deduped)" "\<forall>e\<in>set best. snd (snd e) \<in> set rows \<and> co_inference_call_id (snd (snd e)) = fst e"
    by (simp_all add: ranked_ok_def)
  show "distinct (map fst deduped)" by (rule r)
  assume "(i, row) \<in> set deduped"
  then obtain rank where "(i, (rank, row)) \<in> set best" by (force simp: d)
  then show "row \<in> set rows \<and> co_inference_call_id row = i" using r(2) by fastforce
qed

text \<open>The two pools of a bucket hold the ids of its labelled rows.\<close>

definition labelled ::
  "dpo_policy \<Rightarrow> repository_context option \<Rightarrow> (string \<times> attributed_completion) list \<Rightarrow> dpo_label \<Rightarrow> string \<Rightarrow> bool" where
  "labelled policy ctx deduped label i \<longleftrightarrow> (\<exists>row source. (i, row) \<in> set deduped
     \<and> classify_with_source row (lc_ci_resolution (dp_label_confidence policy)) (dp_recipe policy) ctx = Inr (Inr (label, source)))"

lemma member_pools:
  assumes "fold_result (member_step policy ctx) deduped m = Inr m'" "mb_chosen m = []" "mb_rejected m = []"
  shows "(\<forall>i\<in>set (mb_chosen m'). labelled policy ctx deduped Chosen i) \<and> (\<forall>i\<in>set (mb_rejected m'). labelled policy ctx deduped Rejected i)"
proof (rule fold_result_inv[OF assms(1)])
  fix x s s'
  assume x: "x \<in> set deduped" and step: "member_step policy ctx x s = Inr s'"
    and IH: "(\<forall>i\<in>set (mb_chosen s). labelled policy ctx deduped Chosen i) \<and> (\<forall>i\<in>set (mb_rejected s). labelled policy ctx deduped Rejected i)"
  obtain i row where i: "x = (i, row)" by (cases x)
  have L: "labelled policy ctx deduped label i"
    if "classify_with_source row (lc_ci_resolution (dp_label_confidence policy)) (dp_recipe policy) ctx = Inr (Inr (label, source))" for label source
    using x that unfolding labelled_def i by blast
  show "(\<forall>i\<in>set (mb_chosen s'). labelled policy ctx deduped Chosen i) \<and> (\<forall>i\<in>set (mb_rejected s'). labelled policy ctx deduped Rejected i)"
    using step IH L by (auto simp: member_step_def i Let_def split: sum.splits dpo_label.splits)
qed (use assms in simp)

section \<open>Pairs\<close>

text \<open>What a label says of its row.\<close>

definition dpo_evidence ::
  "dpo_policy \<Rightarrow> repository_context option \<Rightarrow> dpo_label \<Rightarrow> attributed_completion \<Rightarrow> bool" where
  "dpo_evidence policy ctx label row \<longleftrightarrow>
     (case dp_recipe policy of
        dpo_human \<Rightarrow> co_abandonment row = None \<and> (\<exists>d\<in>set (co_decisions row). dd_explicit d)
          \<and> (label = Chosen \<longleftrightarrow> (\<forall>d\<in>set (co_decisions row). dd_explicit d \<longrightarrow> dd_accepted d))
      | dpo_outcome \<Rightarrow> (\<exists>r. resolve_ci_resolution row (lc_ci_resolution (dp_label_confidence policy)) ctx = Inr (Some r)
          \<and> \<not> cr_suspected_flake r \<and> cr_verdict r = Some (case label of Chosen \<Rightarrow> PASSED | Rejected \<Rightarrow> FAILED)))"

lemma classify_evidence:
  assumes "classify_with_source row (lc_ci_resolution (dp_label_confidence policy)) (dp_recipe policy) ctx = Inr (Inr (label, source))"
  shows "dpo_evidence policy ctx label row"
proof (cases "dp_recipe policy")
  case dpo_human
  then have "(label = Chosen \<and> decision_branch_of row = branch_explicit_accept)
      \<or> (label = Rejected \<and> decision_branch_of row = branch_explicit_reject)"
    using assms by (auto simp: classify_with_source_def split: decision_branch.splits)
  then show ?thesis using dpo_human
    by (auto simp: dpo_evidence_def decision_branch_of_def Let_def list_ex_iff filter_empty_conv split: if_splits)
next
  case dpo_outcome
  then show ?thesis using assms
    by (auto simp: classify_with_source_def dpo_evidence_def ci_passed_def ci_failed_def has_verdict_def
        split: option.splits if_splits)
qed

text \<open>A pair, the rows it was made of, and their conversations.\<close>

definition pair_members ::
  "(string \<Rightarrow> inference_call option) \<Rightarrow> dpo_policy \<Rightarrow> repository_context option \<Rightarrow> dpo_pair
   \<Rightarrow> attributed_completion \<Rightarrow> attributed_completion \<Rightarrow> bool" where
  "pair_members calls policy ctx p a b \<longleftrightarrow>
     (let md = dr_metadata p
      in co_inference_call_id a = dm_chosen_completion_id md \<and> co_inference_call_id b = dm_rejected_completion_id md
       \<and> co_inference_call_id a \<noteq> co_inference_call_id b
       \<and> co_org_id a = dm_org_id md \<and> co_org_id b = dm_org_id md
       \<and> dpo_evidence policy ctx Chosen a \<and> dpo_evidence policy ctx Rejected b
       \<and> dm_split md = (if co_split a = EVAL \<or> co_split b = EVAL then EVAL else TRAIN)
       \<and> (\<exists>x y. resolve_confidence a (Some (dp_label_confidence policy)) ctx = Inr (Some x)
            \<and> resolve_confidence b (Some (dp_label_confidence policy)) ctx = Inr (Some y) \<and> dm_label_confidence md = pf_min x y)
       \<and> (\<exists>call call' conversation conversation' key. calls (co_inference_call_id a) = Some call
            \<and> calls (co_inference_call_id b) = Some call'
            \<and> ic_model call = dm_source_model md \<and> ic_model call' = dm_source_model md
            \<and> inference_prompt_key call = Inr key \<and> inference_prompt_key call' = Inr key
            \<and> map_inference_call call = Inr conversation \<and> map_inference_call call' = Inr conversation'
            \<and> dr_prompt p = tv_prompt conversation \<and> dr_chosen p = tv_completion conversation
            \<and> dr_rejected p = tv_completion conversation' \<and> dr_chosen p \<noteq> dr_rejected p))"

definition bucket_of :: "(string \<Rightarrow> inference_call option) \<Rightarrow> dpo_pair \<Rightarrow> string \<times> string option \<times> string result option" where
  "bucket_of calls p = (dm_org_id (dr_metadata p), dm_source_model (dr_metadata p),
     map_option inference_prompt_key (calls (dm_chosen_completion_id (dr_metadata p))))"

definition lifted_key :: "bucket_key \<Rightarrow> string \<times> string option \<times> string result option" where
  "lifted_key = (\<lambda>(org, model, key). (org, Some model, Some (Inr key)))"

lemma lookup_Inr: "lookup d k = Inr v \<longleftrightarrow> map_of d k = Some v"
  by (auto simp: lookup_def split: option.splits)

lemma emit_pair_Inr:
  assumes "emit_pair calls policy ctx c m a b x y reliability i j = Inr (Inr p)"
  obtains call conversation conversation' s s' k k' where "calls i = Some call"
    "map_of (cn_conversations c) i = Some conversation" "map_of (cn_conversations c) j = Some conversation'"
    "pair_of policy ctx a b s s' x y reliability (ic_model call) conversation conversation' = Inr p"
    "response_key (dr_chosen p) = Inr k" "response_key (dr_rejected p) = Inr k'" "k \<noteq> k'"
  using assms by (auto simp: emit_pair_def lookup_Inr split: option.splits if_splits sum.splits)

lemma evaluate_pair_Inr:
  assumes "evaluate_pair calls policy ctx c m deduped (i, j) = Inr (Inr p)"
  obtains a b x y reliability where "map_of deduped i = Some a" "map_of deduped j = Some b"
    "resolve_confidence a (Some (dp_label_confidence policy)) ctx = Inr (Some x)"
    "resolve_confidence b (Some (dp_label_confidence policy)) ctx = Inr (Some y)"
    "emit_pair calls policy ctx c m a b x y reliability i j = Inr (Inr p)"
  using assms
  by (auto simp: evaluate_pair_def lookup_Inr signal_confidence_def Let_def split: option.splits)

lemma pair_sound:
  assumes c: "candidates_ok rows calls c" and b: "(key, rs) \<in> set (cn_buckets c)"
    and d: "dedup_by_completion rs (dp_label_confidence policy) (dp_recipe policy) ctx = Inr deduped"
    and i: "labelled policy ctx deduped Chosen i" and j: "labelled policy ctx deduped Rejected j"
    and e: "evaluate_pair calls policy ctx c m deduped (i, j) = Inr (Inr p)"
  shows "(\<exists>a\<in>set rows. \<exists>b\<in>set rows. pair_members calls policy ctx p a b) \<and> bucket_of calls p = lifted_key key"
proof -
  obtain a b x y reliability where ab: "map_of deduped i = Some a" "map_of deduped j = Some b"
      and x: "resolve_confidence a (Some (dp_label_confidence policy)) ctx = Inr (Some x)"
      and y: "resolve_confidence b (Some (dp_label_confidence policy)) ctx = Inr (Some y)"
      and emit: "emit_pair calls policy ctx c m a b x y reliability i j = Inr (Inr p)"
    by (rule evaluate_pair_Inr[OF e])
  obtain call conversation conversation' s s' k k' where call: "calls i = Some call"
      and conv: "map_of (cn_conversations c) i = Some conversation" "map_of (cn_conversations c) j = Some conversation'"
      and p: "pair_of policy ctx a b s s' x y reliability (ic_model call) conversation conversation' = Inr p"
      and keys: "response_key (dr_chosen p) = Inr k" "response_key (dr_rejected p) = Inr k'" "k \<noteq> k'"
    by (rule emit_pair_Inr[OF emit])
  have dist: "distinct (map fst deduped)" by (rule dedup_rows(1)[OF d])
  have mem: "(i, a) \<in> set deduped" "(j, b) \<in> set deduped" using ab by (auto dest: map_of_SomeD)
  note row = dedup_rows(2)[OF d mem(1)] dedup_rows(2)[OF d mem(2)]
  have ev: "dpo_evidence policy ctx Chosen a" "dpo_evidence policy ctx Rejected b"
    using i j mem dist classify_evidence unfolding labelled_def by (metis map_of_is_SomeI option.inject)+
  have "i \<noteq> j"
    using ev ab by (auto simp: dpo_evidence_def split: dpo_recipe.splits)
  have bucket: "a \<in> set rows" "b \<in> set rows" "in_bucket calls key a" "in_bucket calls key b"
    using c b row unfolding candidates_ok_def by fastforce+
  obtain call_a where a: "calls i = Some call_a" "map_inference_call call_a = Inr conversation"
    using c conv(1) unfolding candidates_ok_def by blast
  obtain call_b where b': "calls j = Some call_b" "map_inference_call call_b = Inr conversation'"
    using c conv(2) unfolding candidates_ok_def by blast
  have split: "(if co_split a = co_split b then co_split a else EVAL) = (if co_split a = EVAL \<or> co_split b = EVAL then EVAL else TRAIN)"
    by (cases "co_split a"; cases "co_split b") auto
  have differ: "dr_chosen p \<noteq> dr_rejected p" using keys by auto
  have "pair_members calls policy ctx p a b \<and> bucket_of calls p = lifted_key key"
    using p row bucket(3,4) a b' call x y ev \<open>i \<noteq> j\<close> split differ
    by (auto simp: pair_members_def pair_of_def in_bucket_def bucket_of_def lifted_key_def Let_def)
  then show ?thesis using bucket by blast
qed

lemma pair_fold:
  assumes "fold_result (pair_step ev) pairs out = Inr out'"
  shows "\<exists>new. do_rows out' = do_rows out @ new \<and> length new \<le> length pairs
    \<and> (\<forall>p\<in>set new. \<exists>ids\<in>set pairs. ev ids = Inr (Inr p))"
  using assms
proof (induction pairs arbitrary: out)
  case (Cons ids pairs)
  obtain r where r: "ev ids = Inr r" using Cons.prems by (auto simp: pair_step_def)
  define out1 where "out1 = (case r of Inl reason \<Rightarrow> out\<lparr>do_skipped := ctr_incr reason (do_skipped out)\<rparr>
       | Inr pair \<Rightarrow> out\<lparr>do_rows := do_rows out @ [pair]\<rparr>)"
  have "pair_step ev ids out = Inr out1" by (simp add: pair_step_def r out1_def)
  then have rest: "fold_result (pair_step ev) pairs out1 = Inr out'" using Cons.prems by simp
  obtain new where new: "do_rows out' = do_rows out1 @ new" "length new \<le> length pairs"
      "\<forall>p\<in>set new. \<exists>ids\<in>set pairs. ev ids = Inr (Inr p)"
    using Cons.IH[OF rest] by blast
  show ?case
  proof (cases r)
    case (Inl reason)
    then show ?thesis using new by (intro exI[of _ new]) (auto simp: out1_def)
  next
    case (Inr pair)
    then show ?thesis using new r by (intro exI[of _ "pair # new"]) (auto simp: out1_def)
  qed
qed simp

lemma bucket_adds:
  assumes c: "candidates_ok rows calls c" and b: "(key, rs) \<in> set (cn_buckets c)"
    and step: "bucket_project calls policy ctx c (key, rs) out = Inr out'"
  shows "\<exists>new. do_rows out' = do_rows out @ new \<and> length new \<le> nat (dp_max_pairs_per_bucket policy)
    \<and> (\<forall>p\<in>set new. (\<exists>a\<in>set rows. \<exists>b\<in>set rows. pair_members calls policy ctx p a b) \<and> bucket_of calls p = lifted_key key)"
proof -
  let ?m0 = "\<lparr>mb_chosen = [], mb_rejected = [], mb_sources = [], mb_skipped = do_skipped out\<rparr>"
  obtain deduped m out1 where d: "dedup_by_completion rs (dp_label_confidence policy) (dp_recipe policy) ctx = Inr deduped"
      and m: "fold_result (member_step policy ctx) deduped ?m0 = Inr m"
      and f: "fold_result (pair_step (evaluate_pair calls policy ctx c m deduped))
         (take (nat (dp_max_pairs_per_bucket policy)) (List.product (sort (mb_chosen m)) (sort (mb_rejected m))))
         (out\<lparr>do_skipped := mb_skipped m\<rparr>) = Inr out1" and out: "do_rows out' = do_rows out1"
    using step by (auto simp: bucket_project_def Let_def split: if_splits)
  have pools: "(\<forall>i\<in>set (mb_chosen m). labelled policy ctx deduped Chosen i) \<and> (\<forall>i\<in>set (mb_rejected m). labelled policy ctx deduped Rejected i)"
    using member_pools[OF m] by simp
  obtain new where new: "do_rows out1 = do_rows out @ new"
      "length new \<le> length (take (nat (dp_max_pairs_per_bucket policy)) (List.product (sort (mb_chosen m)) (sort (mb_rejected m))))"
      "\<forall>p\<in>set new. \<exists>ids\<in>set (take (nat (dp_max_pairs_per_bucket policy)) (List.product (sort (mb_chosen m)) (sort (mb_rejected m)))).
         evaluate_pair calls policy ctx c m deduped ids = Inr (Inr p)"
    using pair_fold[OF f] by auto
  have "(\<exists>a\<in>set rows. \<exists>b\<in>set rows. pair_members calls policy ctx p a b) \<and> bucket_of calls p = lifted_key key" if "p \<in> set new" for p
  proof -
    obtain i j where ids: "(i, j) \<in> set (List.product (sort (mb_chosen m)) (sort (mb_rejected m)))"
        and e: "evaluate_pair calls policy ctx c m deduped (i, j) = Inr (Inr p)"
    proof -
      obtain x where x: "x \<in> set (take (nat (dp_max_pairs_per_bucket policy)) (List.product (sort (mb_chosen m)) (sort (mb_rejected m))))"
        "evaluate_pair calls policy ctx c m deduped x = Inr (Inr p)" using new(3) \<open>p \<in> set new\<close> by blast
      obtain i j where ij: "x = (i, j)" by (cases x)
      show ?thesis using in_set_takeD[OF x(1)] x(2) unfolding ij by (rule that)
    qed
    then show ?thesis using pools by (intro pair_sound[OF c b d _ _ e]) auto
  qed
  then show ?thesis using new(1,2) out by (intro exI[of _ new]) auto
qed

lemma buckets_add:
  assumes c: "candidates_ok rows calls c" and bs: "set bs \<subseteq> set (cn_buckets c)" and dist: "distinct (map fst bs)"
    and f: "fold_result (bucket_project calls policy ctx c) bs out = Inr out'"
  shows "\<exists>new. do_rows out' = do_rows out @ new
    \<and> (\<forall>p\<in>set new. (\<exists>a\<in>set rows. \<exists>b\<in>set rows. pair_members calls policy ctx p a b) \<and> bucket_of calls p \<in> lifted_key ` fst ` set bs)
    \<and> (\<forall>k. length (filter (\<lambda>p. bucket_of calls p = k) new) \<le> nat (dp_max_pairs_per_bucket policy))"
  using bs dist f
proof (induction bs arbitrary: out)
  case (Cons b bs)
  obtain key rs where b: "b = (key, rs)" by (cases b)
  obtain out1 where step: "bucket_project calls policy ctx c (key, rs) out = Inr out1"
      and rest: "fold_result (bucket_project calls policy ctx c) bs out1 = Inr out'"
    using Cons.prems(3) by (auto simp: b)
  obtain new where new: "do_rows out1 = do_rows out @ new" "length new \<le> nat (dp_max_pairs_per_bucket policy)"
      "\<forall>p\<in>set new. (\<exists>a\<in>set rows. \<exists>b\<in>set rows. pair_members calls policy ctx p a b) \<and> bucket_of calls p = lifted_key key"
    using bucket_adds[OF c _ step] Cons.prems(1) by (auto simp: b)
  obtain more where more: "do_rows out' = do_rows out1 @ more"
      "\<forall>p\<in>set more. (\<exists>a\<in>set rows. \<exists>b\<in>set rows. pair_members calls policy ctx p a b) \<and> bucket_of calls p \<in> lifted_key ` fst ` set bs"
      "\<forall>k. length (filter (\<lambda>p. bucket_of calls p = k) more) \<le> nat (dp_max_pairs_per_bucket policy)"
    using Cons.IH[OF _ _ rest] Cons.prems by auto
  have "inj lifted_key" by (auto simp: inj_def lifted_key_def)
  then have key: "lifted_key key \<notin> lifted_key ` fst ` set bs" using Cons.prems(2) by (auto simp: b dest: injD)
  have count: "length (filter (\<lambda>p. bucket_of calls p = k) (new @ more)) \<le> nat (dp_max_pairs_per_bucket policy)" for k
  proof (cases "k = lifted_key key")
    case True
    have "\<forall>p\<in>set more. bucket_of calls p \<noteq> k"
    proof (intro ballI notI)
      fix p assume p: "p \<in> set more" "bucket_of calls p = k"
      have "bucket_of calls p \<in> lifted_key ` fst ` set bs" using more(2) p(1) by (auto dest: bspec)
      then show False using key p(2) True by simp
    qed
    then have "filter (\<lambda>p. bucket_of calls p = k) more = []" by (simp add: filter_empty_conv)
    then show ?thesis using le_trans[OF length_filter_le new(2)] by simp
  next
    case False
    then have "filter (\<lambda>p. bucket_of calls p = k) new = []" using new(3) by (auto simp: filter_empty_conv)
    then show ?thesis using spec[OF more(3), of k] by simp
  qed
  show ?case
    by (rule exI[of _ "new @ more"]) (use new more count b in auto)
qed simp

text \<open>C25. Every pair is made of two rows of the input with one organization, model and prompt key and different calls: the
  chosen one carries the accepting evidence of the recipe, the rejected one the rejecting evidence. Its prompt and
  responses are the mapped conversations of their calls, the responses differ, its confidence is the lower of the
  two, and it is held out when either Session is. No prompt of a model yields more pairs than the policy allows.\<close>

theorem dpo_pairs_sound:
  assumes "project_dpo rows calls (Some policy) ctx = Inr out"
  shows "(\<forall>p\<in>set (do_rows out). \<exists>a\<in>set rows. \<exists>b\<in>set rows. pair_members calls policy ctx p a b)
    \<and> (\<forall>k. length (filter (\<lambda>p. bucket_of calls p = k) (do_rows out)) \<le> nat (dp_max_pairs_per_bucket policy))"
proof -
  obtain c where c: "bucket_candidates rows calls = Inr c"
      and f: "fold_result (bucket_project calls policy ctx c) (sort_key fst (cn_buckets c)) \<lparr>do_rows = [], do_skipped = cn_skipped c\<rparr> = Inr out"
    using assms by (auto simp: project_dpo_def the_default_def)
  note ok = bucket_candidates_ok[OF c]
  have "distinct (map fst (sort_key fst (cn_buckets c)))" using ok by (simp add: candidates_ok_def distinct_map)
  from buckets_add[OF ok _ this f] show ?thesis by auto
qed

section \<open>A sample\<close>

definition second_call :: inference_call where
  "second_call = sample_call\<lparr>ic_id := ''k2'',
     ic_output_messages := [\<lparr>msg_role = ''assistant'', msg_parts = [TextPart ''no''], msg_finish_reason = None\<rparr>]\<rparr>"

definition second_row :: attributed_completion where
  "second_row = rejected_row\<lparr>co_inference_call_id := ''k2'', co_attribution_source := Some GIT_NOTES\<rparr>"

definition two_calls :: "string \<Rightarrow> inference_call option" where
  "two_calls i = (if i = ''k1'' then Some sample_call else if i = ''k2'' then Some second_call else None)"

lemma second_mapped: "map_inference_call second_call
  = Inr (sample_conversation\<lparr>tv_completion := [TrainerAssistant None (Some ''no'') []]\<rparr>)"
  by (simp add: map_inference_call_def second_call_def sample_call_def sample_conversation_def map_messages_def message_step_def
      map_message_def map_assistant_def assistant_part_def map_responses_def response_part_def tool_result_text_def compact_dumps_def
      json_dumps_def flush_text_def joined_text_def validate_conversation_def representable_text_def representable_option_def
      representable_call_def cp_def)

lemma sample_key: "\<exists>k. inference_prompt_key sample_call = Inr k \<and> inference_prompt_key second_call = Inr k"
proof -
  have "printable (JList (inference_prompt sample_call))"
    by (simp add: inference_prompt_def sample_call_def message_dump_def)
  moreover have "inference_prompt second_call = inference_prompt sample_call"
    by (simp add: inference_prompt_def second_call_def)
  ultimately show ?thesis by (simp add: inference_prompt_key_def json_dumps_def)
qed

lemma second_row_ci:
  "\<exists>r. resolve_ci_resolution_result second_row default_ci_policy None None = Inr r \<and> crr_resolutions r = []"
  "resolve_ci_resolution second_row default_ci_policy None = Inr None"
proof -
  obtain r where r: "derive_ci_resolution_result [] default_ci_policy None 0 None = Inr r" "crr_resolutions r = []"
    using no_outcomes[OF sample_provenance] by blast
  then show "\<exists>r. resolve_ci_resolution_result second_row default_ci_policy None None = Inr r \<and> crr_resolutions r = []"
    "resolve_ci_resolution second_row default_ci_policy None = Inr None"
    by (simp_all add: resolve_ci_resolution_def resolve_ci_resolution_result_def the_default_def second_row_def rejected_row_def)
qed

lemma pf_of_rat_0: "pf_of_rat 0 = Finite 0"
  by (simp add: pf_of_rat_def fl_round_def)

lemma second_row_confidence: "resolve_confidence second_row (Some default_label_confidence_policy) None = Inr (Some (Finite 0))"
proof -
  have "\<not> no_signal second_row" "similarity_discount second_row = Inr (Finite 1)"
    "ladder_factor second_row default_label_confidence_policy = Finite 0"
    by (simp_all add: no_signal_def similarity_discount_def ladder_factor_def decision_factor_def decision_branch_of_def the_default_def
        second_row_def rejected_row_def accepted_edit_def default_label_confidence_policy_def)
  then show ?thesis
    using resolve_confidence_factors[of second_row default_label_confidence_policy None None "Finite 1" "Finite 1" "Finite 1"]
    by (simp add: second_row_ci ci_factors_def pf_of_rat_0 clamp_unit_def pf_clamp_Finite)
qed

lemma sample_branches:
  "decision_branch_of accepted_row = branch_explicit_accept" "decision_branch_of second_row = branch_explicit_reject"
  by (simp_all add: decision_branch_of_def accepted_row_def second_row_def rejected_row_def accepted_edit_def)

lemma joined_rows:
  "co_inference_call_id accepted_row = ''k1''" "co_inference_call_id second_row = ''k2''" "co_org_id accepted_row = ''acme''"
  "co_org_id second_row = ''acme''" "co_observations accepted_row = []" "co_observations second_row = []"
  "co_provenance accepted_row = \<lparr>pr_policy_version = ''5'', pr_quarantine_revision = 0, pr_policy_digest = None\<rparr>"
  "co_provenance second_row = \<lparr>pr_policy_version = ''5'', pr_quarantine_revision = 0, pr_policy_digest = None\<rparr>"
  "co_repository_identity accepted_row = None" "co_repository_identity second_row = None"
  by (simp_all add: accepted_row_def second_row_def rejected_row_def)

lemma sample_candidates:
  assumes "inference_prompt_key sample_call = Inr k" "inference_prompt_key second_call = Inr k"
  shows "\<exists>c. bucket_candidates [accepted_row, second_row] two_calls = Inr c
    \<and> cn_buckets c = [((''acme'', ''m'', k), [accepted_row, second_row])] \<and> cn_representation_skips c = []
    \<and> cn_conversations c = [(''k1'', sample_conversation),
        (''k2'', sample_conversation\<lparr>tv_completion := [TrainerAssistant None (Some ''no'') []]\<rparr>)]"
proof -
  have call: "inference_prompt sample_call \<noteq> []" "inference_prompt second_call \<noteq> []" "ic_model sample_call = Some ''m''"
    "ic_model second_call = Some ''m''"
    by (simp_all add: inference_prompt_def second_call_def sample_call_def)
  show ?thesis
    by (simp add: bucket_candidates_def bucket_step_def two_calls_def joined_rows call assms sample_mapped second_mapped dict_append_def
        dict_get_def)
qed

lemma sample_deduped:
  "dedup_by_completion [accepted_row, second_row] default_label_confidence_policy dpo_human None
    = Inr [(''k1'', accepted_row), (''k2'', second_row)]"
  by (simp add: dedup_by_completion_def dedup_step_def dpo_rank_of_def classify_def classify_with_source_def sample_branches
      accepted_row_confidence second_row_confidence joined_rows)

lemma sample_members:
  "\<exists>m. fold_result (member_step default_dpo_policy None) [(''k1'', accepted_row), (''k2'', second_row)]
       \<lparr>mb_chosen = [], mb_rejected = [], mb_sources = [], mb_skipped = s\<rparr> = Inr m
     \<and> mb_chosen m = [''k1''] \<and> mb_rejected m = [''k2'']
     \<and> mb_sources m = [(''k1'', label_explicit_accept), (''k2'', label_explicit_reject)]"
proof -
  obtain r r' where "resolve_ci_resolution_result accepted_row default_ci_policy None None = Inr r"
      "resolve_ci_resolution_result second_row default_ci_policy None None = Inr r'"
    using accepted_row_ci(1) second_row_ci(1) by blast
  then show ?thesis
    by (simp add: member_step_def default_dpo_policy_def classify_with_source_def sample_branches Let_def)
qed

lemma sample_pair:
  assumes "cn_representation_skips c = []" "cn_conversations c = [(''k1'', sample_conversation),
        (''k2'', sample_conversation\<lparr>tv_completion := [TrainerAssistant None (Some ''no'') []]\<rparr>)]"
    "mb_sources m = [(''k1'', label_explicit_accept), (''k2'', label_explicit_reject)]"
  shows "\<exists>p. evaluate_pair two_calls default_dpo_policy None c m [(''k1'', accepted_row), (''k2'', second_row)] (''k1'', ''k2'')
    = Inr (Inr p)"
proof -
  have policy: "dp_label_confidence default_dpo_policy = default_label_confidence_policy" "dp_recipe default_dpo_policy = dpo_human"
    by (simp_all add: default_dpo_policy_def)
  have "string_text ''ok'' \<noteq> string_text ''no''" by (simp add: string_text_def escaped_def cp_def)
  then show ?thesis
    by (simp add: evaluate_pair_def lookup_def signal_confidence_def policy accepted_row_confidence second_row_confidence
        accepted_row_ci second_row_ci present_reliabilities_def assms Let_def emit_pair_def two_calls_def pair_of_def joined_rows
        session_commit_observation_ids_def representable_pair_def sample_conversation_def representable_text_def
        representable_option_def representable_call_def representable_float_def representable_provenance_def
        representable_identity_def cp_def response_key_def compact_dumps_def json_dumps_def sample_model pf_min_def pf_sub_def
        pf_of_rat_1)
qed

theorem dpo_pairs_sound_witness:
  "\<exists>out. project_dpo [accepted_row, second_row] two_calls (Some default_dpo_policy) None = Inr out
     \<and> length (do_rows out) = 1
     \<and> (\<forall>p\<in>set (do_rows out). dm_chosen_completion_id (dr_metadata p) \<noteq> dm_rejected_completion_id (dr_metadata p))"
proof -
  obtain k where "inference_prompt_key sample_call = Inr k" "inference_prompt_key second_call = Inr k"
    using sample_key by blast
  then obtain c where c: "bucket_candidates [accepted_row, second_row] two_calls = Inr c"
      "cn_buckets c = [((''acme'', ''m'', k), [accepted_row, second_row])]" and c': "cn_representation_skips c = []"
      "cn_conversations c = [(''k1'', sample_conversation),
        (''k2'', sample_conversation\<lparr>tv_completion := [TrainerAssistant None (Some ''no'') []]\<rparr>)]"
    using sample_candidates by blast
  obtain m where m: "fold_result (member_step default_dpo_policy None) [(''k1'', accepted_row), (''k2'', second_row)]
       \<lparr>mb_chosen = [], mb_rejected = [], mb_sources = [], mb_skipped = cn_skipped c\<rparr> = Inr m" "mb_chosen m = [''k1'']"
      "mb_rejected m = [''k2'']" and sources: "mb_sources m = [(''k1'', label_explicit_accept), (''k2'', label_explicit_reject)]"
    using sample_members by blast
  obtain p where p: "evaluate_pair two_calls default_dpo_policy None c m [(''k1'', accepted_row), (''k2'', second_row)] (''k1'', ''k2'')
      = Inr (Inr p)"
    using sample_pair[OF c' sources] by blast
  have policy: "dp_label_confidence default_dpo_policy = default_label_confidence_policy" "dp_recipe default_dpo_policy = dpo_human"
    "dp_max_pairs_per_bucket default_dpo_policy = 3"
    by (simp_all add: default_dpo_policy_def)
  obtain out where out: "project_dpo [accepted_row, second_row] two_calls (Some default_dpo_policy) None = Inr out" "length (do_rows out) = 1"
    using c m p by (auto simp: project_dpo_def the_default_def bucket_project_def policy sample_deduped pair_step_def)
  then show ?thesis using dpo_pairs_sound[OF out(1)] by (auto simp: pair_members_def Let_def; metis)
qed

end
