(* ===== verification/Spec2Isabelle.thy ===== *)
theory Spec2Isabelle
  imports Fact_Validation Similarity Inference_Call Decision_Attachment Split Repository_Laws CI_Laws
    Session_Commit Compute_Timing Survival Diff_Laws Attribution_Laws Recovery_Laws Rollout_Laws Mirror_Laws
    Retention_Laws Lock_Laws Session_Laws Visibility_Laws Witness_Reads SFT_Laws DPO_Laws
begin

text \<open>
  Verification of Sediment, the evidence store for coding agents.

  \<^bold>\<open>The program.\<close> Sediment captures immutable Facts (inference calls, developer decisions, edit
  observations, pushes, CI outcomes, compute allocations, session-to-commit observations) into a store
  partitioned by organization, and keeps bare Git mirrors of the repositories that were pushed. All
  that training and reporting consume is derived: a pure function of the Facts, the mirrors and a
  policy, with every input that is declined counted under a closed reason. This development models
  the derivations (\<open>packages/derive/sediment_derive\<close>), the Fact model they read
  (\<open>packages/core/sediment_core/models.py\<close>, \<open>org.py\<close>), the store the Facts are kept in
  (\<open>store.py\<close>, \<open>postgres_schema.py\<close>), the store of mirrors, and the training rows projected from
  the derivations (\<open>packages/export/sediment_export\<close>).

  \<^bold>\<open>Theories and sources.\<close>
  \<^item> \<open>Sediment_Prelude\<close>: Python's strings, errors, dictionaries, counters, sorting and binary64 rounding,
    shared by all theories.
  \<^item> \<open>Identity_Normalizers\<close>, \<open>Fact_Models\<close>, \<open>Fact_Validation\<close>: the identity normalizers of \<open>models.py\<close> and
    \<open>org.py\<close>, the Fact records, and their validators. The locale \<open>normalizer\<close> is the contract of a
    validator (what it accepts it leaves alone) and is interpreted on every one of them.
  \<^item> \<open>Similarity\<close>: \<open>similarity.py\<close>, \<open>survival_scoring.py\<close>; the \<open>Scorer\<close> protocol is the locale
    \<open>token_scorer\<close>.
  \<^item> \<open>Inference_Call\<close>, \<open>Decision_Attachment\<close>: \<open>inference_call.py\<close> and the decision half of \<open>attachment.py\<close>.
  \<^item> \<open>Split\<close>: \<open>split.py\<close>, with SHA-256 as the digest it names.
  \<^item> \<open>Repository_Identity\<close>, \<open>Repository_Laws\<close>: \<open>repository_identity.py\<close>, which every derivation asks for the
    repository a name or a Fact means.
  \<^item> \<open>CI_Resolution\<close>, \<open>CI_Laws\<close>: the CI half of \<open>attachment.py\<close>, \<open>ci_resolution.py\<close>, \<open>provenance.py\<close>.
  \<^item> \<open>Session_Commit\<close>: \<open>session_commit.py\<close>.
  \<^item> \<open>Compute_Timing\<close>: \<open>compute_timing.py\<close>. \<open>Survival\<close>: \<open>survival.py\<close>, with the locale \<open>containment_scorer\<close>.
  \<^item> \<open>Git_Diff\<close>, \<open>Diff_Laws\<close>: \<open>diff.py\<close>, the parser of what \<open>git diff\<close> prints.
  \<^item> \<open>Attribution\<close>, \<open>Attribution_Laws\<close>: \<open>attribution.py\<close>, \<open>repository_context.py\<close>; the records \<open>snapshot\<close> and
    \<open>repo_mirror\<close> hold what the store and a mirror answer.
  \<^item> \<open>Recovery\<close>, \<open>Recovery_Laws\<close>: \<open>recovery.py\<close>. \<open>Rollout\<close>, \<open>Rollout_Laws\<close>: \<open>rollout.py\<close>.
    \<open>Abandonment\<close>: \<open>abandonment.py\<close>.
  \<^item> \<open>Mirror_Store\<close>: \<open>mirror.py\<close> (\<open>MirrorManager\<close>) and \<open>gc.py\<close>, over a record of the directories on disk.
    \<open>Mirror_Laws\<close>: the manager's operations, as a step relation on that record. \<open>Retention_Laws\<close>: retention,
    from the locale \<open>mirror_remover\<close> of what removal promises. \<open>Lock_Laws\<close>: the file locks, from the locale
    \<open>ordered_locks\<close>.
  \<^item> \<open>Fact_Store\<close>: the tables of \<open>postgres_schema.py\<close> with their unique indexes, and every operation of
    \<open>store.py\<close> that writes: \<open>store_*\<close>, the Session upserts, the quarantine log. \<open>Fact_Reads\<close>: its reads.
    \<open>Fact_Projections\<close>: the bounded projections of calls, decisions and outcomes, and the repository witnesses.
    \<open>Store_Laws\<close>: the locale \<open>receipt_table\<close> of what a declined insertion relies on, interpreted on the six
    tables of repository Facts. \<open>Store_Steps\<close>: the writes as a step relation, its invariant, append-only growth
    and redelivery. \<open>Session_Laws\<close>: the Sessions against their specification, batches against single calls.
    \<open>Visibility_Laws\<close>: quarantine and paging. \<open>Witness_Laws\<close>, \<open>Witness_Reads\<close>: the repository witnesses
    against the whole evidence.
  \<^item> \<open>Py_Float\<close>: binary64 arithmetic with infinities and NaN. \<open>Json_Text\<close>: the texts of \<open>json.dumps\<close> and the
    prompt key of \<open>inference_call.py\<close>. Of \<open>packages/export/sediment_export\<close>: \<open>Attributed_Completions\<close>
    (\<open>attributed_completions.py\<close>), \<open>Label_Confidence\<close> (\<open>label_confidence.py\<close>), \<open>Trainer\<close> (\<open>trainer.py\<close>),
    \<open>Training_Rows\<close>, \<open>SFT_Projection\<close>, \<open>SFT_Laws\<close> (\<open>sft.py\<close>), \<open>DPO_Projection\<close>, \<open>DPO_Laws\<close> (\<open>dpo.py\<close>).

  \<^bold>\<open>How they interact.\<close> Facts pass the validators; \<open>build_repository_context\<close> turns the identity
  evidence into a context; attribution, session-commit binding and CI resolution qualify their Facts by
  it; recovery and rollout compose the three. A training row joins an attribution or an abandonment with
  its decisions and outcomes; \<open>resolve_confidence\<close> grades it, \<open>map_inference_call\<close> renders its call, and
  \<open>project_sft\<close> and \<open>project_dpo\<close> select from the graded rows. A definition takes its place in that order, and calls
  those before it as the code does.

  \<^bold>\<open>What the lemmas show.\<close> For each derivation: that its result does not depend on the order the store
  returns Facts in; that every input is in the result or in one counted reason; that what it emits
  is proved by the Facts it names; and what the optimised routine computes, against a plain
  definition. For the validators and parsers, round trips. For the mirrors, what each operation
  leaves of the others' directories, which of them retention may delete, and that concurrent
  operations neither share a lock nor get stuck. For the Fact store, what every reachable database
  satisfies, that retries and batching do not matter, and what quarantine hides. For the training rows,
  that a rendered conversation says what its call said, and which evidence every sample and pair rests on.

  \<^bold>\<open>Representation.\<close> A Python \<open>str\<close> is a \<open>string\<close> (code points below 256) or, where source text matters, a
  list of code points; an aware \<open>datetime\<close> is its UTC instant in microseconds; a \<open>dict\<close> is an
  association list in insertion order or a finite map; a \<open>Counter\<close> is a function; a \<open>float\<close> is the
  rational it denotes, rounded by \<open>fl64\<close> where the code divides, or a \<open>pyfloat\<close> where infinities and NaN can
  occur. Exceptions are the left side of a sum.
  Loops are folds or recursive functions with termination proofs; no fuel is used.

  \<^bold>\<open>Parameters.\<close> SQL and Git are not code of the package: what a query or a \<open>git\<close> command answers is a
  field of \<open>snapshot\<close>, \<open>repo_mirror\<close> or \<open>git_answers\<close>, failures included. In the store a table is the list of
  its rows; \<open>redact\<close> is the redaction a write applies first, \<open>collate\<close> the key the database sorts a text by,
  \<open>at_head\<close> whether the schema is current. The CHECK constraints hold of validated Facts, so no row is refused
  by them.

  \<^bold>\<open>Findings.\<close> \<open>session_eval_score\<close> can be 1.0 (its range is documented half-open),
  \<open>_diff_line_count\<close> breaks lines where Git does not (\<open>form_feed_counts_twice\<close>), and an infinite CI multiplier,
  which the policy accepts, gives an explicitly rejected completion full confidence
  (\<open>infinite_multiplier_accepts_reject\<close>).

  \<^bold>\<open>Not modelled.\<close> The dossier, evidence, context and delivery reads of \<open>store.py\<close> and the
  interleaving of its transactions; Git subprocesses; URL parsing and
  name resolution; the parsing of attribution notes; capture translators of vendor payloads;
  redaction catalogues; the HTTP API, the command line and their terminals; the assembly of rows from
  the store, the dataset writers and the reports of \<open>packages/export\<close>; simulation, scripts and release tooling.
\<close>

end
